(* ===== verification/Prelude.thy ===== *)
theory Prelude
  imports Main "HOL-Library.Word"
begin

text \<open>
  Shared vocabulary of the development: the machine types of the C++ code, the values an
  operation that throws can return, sequencing of such operations, and the generic lemmas on
  lists, words and results that the component theories use.
\<close>

unbundle bit_operations_syntax

section \<open>Machine types\<close>

type_synonym u8 = "8 word"
type_synonym u16 = "16 word"
type_synonym u32 = "32 word"
type_synonym u64 = "64 word"
type_synonym i64 = "64 word"
type_synonym bytes = "u8 list"

section \<open>Exceptions as values\<close>

text \<open>
  \<open>std::runtime_error\<close>, \<open>std::out_of_range\<close> and \<open>std::invalid_argument\<close> with the text
  the code gives them, and the type errors of the JSON library's accessors.
\<close>

datatype exn =
    RuntimeError string
  | OutOfRange string
  | InvalidArgument string
  | TypeError

type_synonym 'a result = "exn + 'a"

definition bind_res :: "'e + 'a \<Rightarrow> ('a \<Rightarrow> 'e + 'b) \<Rightarrow> 'e + 'b" where
  "bind_res m f = (case m of Inl e \<Rightarrow> Inl e | Inr x \<Rightarrow> f x)"

lemma bind_res_simps [simp]:
  "bind_res (Inl e) f = Inl e"
  "bind_res (Inr x) f = f x"
  by (simp_all add: bind_res_def)

lemma bind_res_Inr_iff:
  "bind_res m f = Inr y \<longleftrightarrow> (\<exists>x. m = Inr x \<and> f x = Inr y)"
  by (simp add: bind_res_def split: sum.splits)

lemma bind_res_Inl_iff:
  "bind_res m f = Inl e \<longleftrightarrow> m = Inl e \<or> (\<exists>x. m = Inr x \<and> f x = Inl e)"
  by (simp add: bind_res_def split: sum.splits)

lemma bind_res_cong [fundef_cong]:
  "m = m' \<Longrightarrow> (\<And>x. m' = Inr x \<Longrightarrow> f x = g x) \<Longrightarrow> bind_res m f = bind_res m' g"
  by (simp add: bind_res_def split: sum.splits)

text \<open>Running a fallible operation over a list, stopping at the first error.\<close>

primrec map_res :: "('a \<Rightarrow> 'e + 'b) \<Rightarrow> 'a list \<Rightarrow> 'e + 'b list" where
  "map_res f [] = Inr []"
| "map_res f (x # xs) = bind_res (f x) (\<lambda>y. bind_res (map_res f xs) (\<lambda>ys. Inr (y # ys)))"

lemma map_res_Inr_length: "map_res f xs = Inr ys \<Longrightarrow> length ys = length xs"
  by (induction xs arbitrary: ys) (auto simp: bind_res_Inr_iff)

lemma map_res_total:
  "(\<And>x. x \<in> set xs \<Longrightarrow> f x = Inr (g x)) \<Longrightarrow> map_res f xs = Inr (map g xs)"
  by (induction xs) auto

lemma map_res_Inr_iff:
  "map_res f xs = Inr ys \<longleftrightarrow> list_all2 (\<lambda>x y. f x = Inr y) xs ys"
  by (induction xs arbitrary: ys) (auto simp: bind_res_Inr_iff list_all2_Cons1)

definition is_ok :: "'e + 'a \<Rightarrow> bool" where
  "is_ok r = (case r of Inl _ \<Rightarrow> False | Inr _ \<Rightarrow> True)"

lemma is_ok_simps [simp]: "\<not> is_ok (Inl e)" "is_ok (Inr x)"
  by (simp_all add: is_ok_def)

lemma is_ok_iff: "is_ok r \<longleftrightarrow> (\<exists>x. r = Inr x)"
  by (cases r) simp_all

section \<open>Bytes of words\<close>

text \<open>
  A shift-and-mask extracts one byte of a word; a shift-and-or puts it back. The collection
  \<open>byte_join\<close> holds the reassembly of a whole word, one lemma per width.
\<close>

named_theorems byte_join \<open>reassembling a word from its bytes\<close>

lemma low_byte_mask: "(255 :: 'a::len word) = mask 8"
  by (simp add: mask_eq_exp_minus_1)

lemma ucast_low_byte [simp]: "(ucast ((v :: 'a::len word) AND 255) :: u8) = ucast v"
  unfolding low_byte_mask by (rule bit_word_eqI) (auto simp: bit_simps dest: bit_imp_le_length)

lemma byte_join_first: "(ucast (ucast (v :: 'a::len word) :: u8) :: 'a word) = take_bit 8 v"
  by (rule bit_word_eqI) (auto simp: bit_simps dest: bit_imp_le_length)

lemma byte_join_step:
  "take_bit k v OR push_bit k (ucast (ucast (drop_bit k (v :: 'a::len word)) :: u8)) = take_bit (k + 8) v"
proof (rule bit_word_eqI)
  fix n
  assume "n < LENGTH('a)"
  then show "bit (take_bit k v OR push_bit k (ucast (ucast (drop_bit k v) :: u8))) n =
      bit (take_bit (k + 8) v) n"
    by (cases "k \<le> n") (auto simp: bit_simps dest: bit_imp_le_length)
qed

lemma byte_join_u16 [byte_join]:
  "(ucast (ucast v :: u8) OR push_bit 8 (ucast (ucast (drop_bit 8 v) :: u8)) :: u16) = v"
  using byte_join_step [of 8 v] by (simp add: byte_join_first take_bit_word_eq_self)

lemma byte_join_u24 [byte_join]:
  "((ucast (ucast v :: u8) OR push_bit 8 (ucast (ucast (drop_bit 8 v) :: u8)))
     OR push_bit 16 (ucast (ucast (drop_bit 16 v) :: u8)) :: u32) = take_bit 24 v"
  using byte_join_step [of 8 v] byte_join_step [of 16 v] by (simp add: byte_join_first)

lemma byte_join_u32 [byte_join]:
  "(((ucast (ucast v :: u8) OR push_bit 8 (ucast (ucast (drop_bit 8 v) :: u8)))
     OR push_bit 16 (ucast (ucast (drop_bit 16 v) :: u8)))
     OR push_bit 24 (ucast (ucast (drop_bit 24 v) :: u8)) :: u32) = v"
  using byte_join_step [of 8 v] byte_join_step [of 16 v] byte_join_step [of 24 v]
  by (simp add: byte_join_first take_bit_word_eq_self)

text \<open>The loop form: byte \<open>i\<close> of \<open>n\<close> is or-ed in at bit \<open>8 * i\<close>.\<close>

lemma byte_join_loop:
  "fold (\<lambda>i acc. acc OR push_bit (8 * i) (ucast (ucast (drop_bit (8 * i) (v :: 'a::len word)) :: u8)))
     [0..<n] 0 = take_bit (8 * n) v"
proof (induction n)
  case 0
  show ?case by simp
next
  case (Suc n)
  have "8 * Suc n = 8 * n + 8" by simp
  with Suc show ?case by (simp only: upt_Suc_append fold_append comp_def fold.simps byte_join_step)
    (simp add: byte_join_step)
qed

text \<open>The first \<open>n\<close> bytes of a word, least significant first.\<close>

definition le_bytes :: "nat \<Rightarrow> 'a::len word \<Rightarrow> bytes" where
  "le_bytes n v = map (\<lambda>i. ucast (drop_bit (8 * i) v)) [0..<n]"

lemma length_le_bytes [simp]: "length (le_bytes n v) = n"
  by (simp add: le_bytes_def)

lemma le_bytes_nth: "i < n \<Longrightarrow> le_bytes n v ! i = ucast (drop_bit (8 * i) v)"
  by (simp add: le_bytes_def)

section \<open>Values of byte strings\<close>

text \<open>The number a byte string denotes, read little endian and big endian.\<close>

primrec le_value :: "bytes \<Rightarrow> nat" where
  "le_value [] = 0"
| "le_value (b # bs) = unat b + 256 * le_value bs"

definition be_value :: "bytes \<Rightarrow> nat" where
  "be_value bs = le_value (rev bs)"

lemma unat_byte_less: "unat (b :: u8) < 256"
  using unsigned_less [of b] by simp

lemma le_value_append: "le_value (xs @ ys) = le_value xs + 256 ^ length xs * le_value ys"
  by (induction xs) (simp_all add: algebra_simps)

lemma le_value_bound: "le_value bs < 256 ^ length bs"
proof (induction bs)
  case (Cons b bs)
  then have "256 * le_value bs + 256 \<le> 256 * 256 ^ length bs" by simp
  then show ?case using unat_byte_less [of b] by simp
qed simp

lemma le_value_zeros [simp]: "le_value (replicate n 0) = 0"
  by (induction n) simp_all

lemma be_value_simps [simp]:
  "be_value [] = 0"
  "be_value (replicate n 0) = 0"
  by (simp_all add: be_value_def)

lemma be_value_append: "be_value (xs @ ys) = be_value xs * 256 ^ length ys + be_value ys"
  by (simp add: be_value_def le_value_append)

lemma be_value_Cons: "be_value (b # bs) = unat b * 256 ^ length bs + be_value bs"
  using be_value_append [of "[b]" bs] by (simp add: be_value_def)

lemma be_value_bound: "be_value bs < 256 ^ length bs"
  using le_value_bound [of "rev bs"] by (simp add: be_value_def)

lemma le_value_inject:
  "length xs = length ys \<Longrightarrow> le_value xs = le_value ys \<Longrightarrow> xs = ys"
proof (induction xs ys rule: list_induct2)
  case (Cons x xs y ys)
  have "unat x = (unat x + 256 * le_value xs) mod 256" using unat_byte_less [of x] by simp
  also have "\<dots> = (unat y + 256 * le_value ys) mod 256" using Cons.prems by simp
  also have "\<dots> = unat y" using unat_byte_less [of y] by simp
  finally have "x = y" by (rule unsigned_word_eqI)
  with Cons show ?case by simp
qed simp

lemma le_value_le_bytes: "le_value (le_bytes n v) = unat v mod 256 ^ n"
proof (induction n)
  case (Suc n)
  have "unat (ucast (drop_bit (8 * n) v) :: u8) = unat v div 256 ^ n mod 256"
    by (simp add: unsigned_ucast_eq unat_drop_bit_eq take_bit_eq_mod drop_bit_eq_div [where 'a = nat] power_mult)
  moreover have "unat v mod (256 ^ n * 256) = 256 ^ n * (unat v div 256 ^ n mod 256) + unat v mod 256 ^ n"
    by (rule mod_mult2_eq)
  ultimately show ?case
    using Suc by (simp add: le_bytes_def le_value_append mult.commute)
qed (simp add: le_bytes_def)

lemma le_bytes_of_le_value:
  assumes "8 * length bs \<le> LENGTH('a)"
  shows "le_bytes (length bs) (of_nat (le_value bs) :: 'a::len word) = bs"
proof (rule le_value_inject)
  have "le_value bs < 256 ^ length bs" by (rule le_value_bound)
  also have "256 ^ length bs = (2 :: nat) ^ (8 * length bs)" by (simp add: power_mult)
  also have "\<dots> \<le> 2 ^ LENGTH('a)" using assms by (rule power_increasing) simp
  finally have "unat (of_nat (le_value bs) :: 'a word) = le_value bs"
    by (simp add: unat_of_nat)
  then show "le_value (le_bytes (length bs) (of_nat (le_value bs) :: 'a word)) = le_value bs"
    using le_value_bound [of bs] by (simp add: le_value_le_bytes)
qed simp

section \<open>Characters and bytes\<close>

text \<open>A \<open>std::string\<close> is a \<^typ>\<open>string\<close>; its bytes are the codes of its characters.\<close>

definition byte_of_char :: "char \<Rightarrow> u8" where
  "byte_of_char c = of_char c"

definition char_of_byte :: "u8 \<Rightarrow> char" where
  "char_of_byte b = char_of (unat b)"

lemma char_of_byte_of_char [simp]: "char_of_byte (byte_of_char c) = c"
proof -
  have "unat (of_nat (of_char c) :: u8) = of_char c"
    using nat_of_char_less_256 [of c] by (simp add: unat_of_nat)
  then have "unat (of_char c :: u8) = of_char c" by (simp add: of_nat_of_char)
  then show ?thesis by (simp add: char_of_byte_def byte_of_char_def)
qed

end
