(* ===== verification/Hex.thy ===== *)
theory Hex
  imports Prelude
begin

text \<open>
  \<open>src/utils.hpp\<close>: hexadecimal text, fixed-width and variable-length integer encodings, the
  assembly of coinbases, headers and blocks as hex strings, compact targets, script pushes and
  the \<open>ntime\<close> window. \<open>OpenSSL\<close>'s SHA-256 is not under \<open>src/\<close>; the functions that hash take
  the digest as an argument.
\<close>

section \<open>Hex digits\<close>

definition hex_digits :: string where
  "hex_digits = ''0123456789abcdef''"

definition hex_nibble :: "char \<Rightarrow> u8 result" where
  "hex_nibble c =
     (let n = of_char c :: nat
      in if 48 \<le> n \<and> n \<le> 57 then Inr (of_nat (n - 48))
         else if 97 \<le> n \<and> n \<le> 102 then Inr (of_nat (n - 97 + 10))
         else if 65 \<le> n \<and> n \<le> 70 then Inr (of_nat (n - 65 + 10))
         else Inl (RuntimeError ''invalid hex''))"

definition is_hex :: "char \<Rightarrow> bool" where
  "is_hex c =
     (let n = of_char c :: nat
      in (48 \<le> n \<and> n \<le> 57) \<or> (97 \<le> n \<and> n \<le> 102) \<or> (65 \<le> n \<and> n \<le> 70))"

text \<open>The loop over pairs of characters, after the length is known to be even.\<close>

fun hex_pairs :: "string \<Rightarrow> bytes result" where
  "hex_pairs (a # b # s) =
     bind_res (hex_nibble a) (\<lambda>hi.
     bind_res (hex_nibble b) (\<lambda>lo.
     bind_res (hex_pairs s) (\<lambda>bs. Inr ((push_bit 4 hi OR lo) # bs))))"
| "hex_pairs _ = Inr []"

definition hex_to_bytes :: "string \<Rightarrow> bytes result" where
  "hex_to_bytes h = (if odd (length h) then Inl (RuntimeError ''odd hex length'') else hex_pairs h)"

definition hex_of_byte :: "u8 \<Rightarrow> string" where
  "hex_of_byte b = [hex_digits ! unat (drop_bit 4 b), hex_digits ! unat (b AND 0xf)]"

definition bytes_to_hex :: "bytes \<Rightarrow> string" where
  "bytes_to_hex data = concat (map hex_of_byte data)"

definition to_hex :: "string \<Rightarrow> string" where
  "to_hex raw = bytes_to_hex (map byte_of_char raw)"

definition valid_hex :: "string \<Rightarrow> bool" where
  "valid_hex s \<longleftrightarrow> list_all is_hex s \<and> s \<noteq> []"

section \<open>Integers as hex\<close>

text \<open>\<open>int_to_hex\<close> fills a buffer of \<open>width\<close> characters from the right.\<close>

primrec int_to_hex :: "u32 \<Rightarrow> nat \<Rightarrow> string" where
  "int_to_hex v 0 = []"
| "int_to_hex v (Suc width) = int_to_hex (drop_bit 4 v) width @ [hex_digits ! unat (v AND 0xf)]"

definition le_hex_u64 :: "u64 \<Rightarrow> string" where
  "le_hex_u64 v =
     concat (map (\<lambda>i. hex_of_byte (ucast (drop_bit (8 * i) v AND 0xff))) [0..<8])"

definition le_hex_u32 :: "u32 \<Rightarrow> string" where
  "le_hex_u32 v = take 8 (le_hex_u64 (ucast v))"

text \<open>The lambda \<open>put_be\<close> of \<open>encode_varint\<close>, which despite its name emits little endian.\<close>

definition put_be :: "u64 \<Rightarrow> nat \<Rightarrow> string" where
  "put_be val nbytes =
     concat (map (\<lambda>i. hex_of_byte (ucast (drop_bit (8 * i) val AND 0xff))) [0..<nbytes])"

definition encode_varint :: "u64 \<Rightarrow> string" where
  "encode_varint v =
     (if v < 0xfd then
        [hex_digits ! unat (drop_bit 4 v AND 0xf), hex_digits ! unat (v AND 0xf)]
      else if v \<le> 0xffff then ''fd'' @ put_be v 2
      else if v \<le> 0xffffffff then ''fe'' @ put_be v 4
      else ''ff'' @ put_be v 8)"

section \<open>Coinbase, header and block assembly\<close>

definition rebuild_coinbase :: "string \<Rightarrow> string \<Rightarrow> string \<Rightarrow> string" where
  "rebuild_coinbase cb1 cb2 full_extranonce = cb1 @ full_extranonce @ cb2"

text \<open>
  \<open>out.resize(hex.size())\<close> fills with NUL characters; with an odd length the last one stays.
\<close>

definition byte_reverse_hex :: "string \<Rightarrow> string" where
  "byte_reverse_hex hex =
     (let n = length hex div 2
      in fold (\<lambda>i out. out[i * 2 := hex ! ((n - 1 - i) * 2), i * 2 + 1 := hex ! ((n - 1 - i) * 2 + 1)])
           [0..<n] (replicate (length hex) (CHR 0x00)))"

definition build_block_header ::
  "string \<Rightarrow> string \<Rightarrow> string \<Rightarrow> string \<Rightarrow> string \<Rightarrow> string \<Rightarrow> string" where
  "build_block_header version_hex_le prevhash_hex merkleroot_hex ntime_hex bits_hex nonce_hex =
     version_hex_le @ prevhash_hex @ merkleroot_hex @ ntime_hex @ bits_hex @ nonce_hex"

definition compute_coinbase_txid_le :: "(bytes \<Rightarrow> bytes) \<Rightarrow> string \<Rightarrow> string result" where
  "compute_coinbase_txid_le sha256d coinbase_hex =
     bind_res (hex_to_bytes coinbase_hex) (\<lambda>bs. Inr (bytes_to_hex (sha256d bs)))"

definition assemble_full_block :: "string \<Rightarrow> string \<Rightarrow> string list \<Rightarrow> string" where
  "assemble_full_block header_hex coinbase_hex txs_hex =
     header_hex @ encode_varint (1 + of_nat (length txs_hex)) @ coinbase_hex @ concat txs_hex"

section \<open>Compact targets\<close>

text \<open>
  The stores \<open>out[start..start+2]\<close> on an array of 32 zero bytes. \<open>shift < 0\<close> is the case
  \<open>exp < 3\<close>; \<open>start < 0\<close> is the case \<open>exp > 32\<close>.
\<close>

definition mantissa :: "bytes \<Rightarrow> u32" where
  "mantissa b = (push_bit 16 (ucast (b ! 1)) OR push_bit 8 (ucast (b ! 2))) OR ucast (b ! 3)"

definition store3 :: "nat \<Rightarrow> u32 \<Rightarrow> bytes \<Rightarrow> bytes" where
  "store3 i m out =
     out[i := ucast (drop_bit 16 m AND 0xff), i + 1 := ucast (drop_bit 8 m AND 0xff),
         i + 2 := ucast (m AND 0xff)]"

definition target_from_bits_hex :: "string \<Rightarrow> bytes result" where
  "target_from_bits_hex bits_hex =
     (let out = replicate 32 0
      in if length bits_hex \<noteq> 8 then Inr out
         else bind_res (hex_to_bytes bits_hex) (\<lambda>b.
           let exp = unat (b ! 0); mant = mantissa b
           in if mant = 0 then Inr out
              else if exp < 3 then Inr (store3 29 (drop_bit ((3 - exp) * 8) mant) out)
              else if exp > 32 then Inr out
              else Inr (store3 (32 - exp) mant out)))"

section \<open>Script pushes and the coinbase height\<close>

text \<open>\<open>while (h) { b.push_back(h & 0xff); h >>= 8; }\<close>, at most four rounds on 32 bits.\<close>

function le_min_bytes :: "u32 \<Rightarrow> bytes" where
  "le_min_bytes h = (if h = 0 then [] else ucast (h AND 0xff) # le_min_bytes (drop_bit 8 h))"
  by pat_completeness auto
termination
proof (relation "measure unat")
  fix h :: u32
  assume "h \<noteq> 0"
  then have "0 < unat h" by (simp add: unat_gt_0)
  then show "(drop_bit 8 h, h) \<in> measure unat"
    by (simp add: drop_bit_eq_div unat_div)
qed simp

declare le_min_bytes.simps [simp del]

definition encode_bip34_height :: "int \<Rightarrow> string result" where
  "encode_bip34_height height =
     (if height < 0 then Inl (RuntimeError ''negative height'')
      else let b = le_min_bytes (of_int height); b = (if b = [] then [0] else b)
           in Inr (hex_of_byte (of_nat (length b)) @ bytes_to_hex b))"

definition encode_push_bytes :: "bytes \<Rightarrow> string result" where
  "encode_push_bytes data =
     (if length data > 0x4b then Inl (RuntimeError ''push too long'')
      else Inr (hex_of_byte (of_nat (length data)) @ bytes_to_hex data))"

definition encode_push_ascii :: "string \<Rightarrow> string result" where
  "encode_push_ascii s = encode_push_bytes (map byte_of_char s)"

section \<open>Time validation\<close>

text \<open>The sum \<open>now_unix + future_slack\<close> is unsigned 32-bit and wraps.\<close>

definition valid_ntime :: "u32 \<Rightarrow> u32 \<Rightarrow> u32 \<Rightarrow> u32 \<Rightarrow> bool" where
  "valid_ntime submitted mintime now_unix future_slack \<longleftrightarrow>
     \<not> submitted < mintime \<and> \<not> submitted > now_unix + future_slack"

section \<open>Hex round trips\<close>

named_theorems hex_simps \<open>rewriting of hex text\<close>

lemma low_nibble_mod: "unat ((b :: 'a::len word) AND 0xf) = unat b mod 16"
proof -
  have "(0xf :: 'a word) = mask 4" by (simp add: mask_eq_exp_minus_1)
  then have "unat (b AND 0xf) = unat (take_bit 4 b)" by (simp add: take_bit_eq_mask)
  also have "\<dots> = take_bit 4 (unat b)" by (rule unsigned_take_bit_eq)
  also have "\<dots> = unat b mod 16" by (simp add: take_bit_eq_mod)
  finally show ?thesis .
qed

lemma nibble_bound: "unat (drop_bit 4 (b :: u8)) < 16" "unat (b AND 0xf) < 16"
proof -
  have "unat b < 2 ^ LENGTH(8)" by (rule unsigned_less)
  then show "unat (drop_bit 4 b) < 16"
    by (simp add: drop_bit_eq_div unat_div)
  show "unat (b AND 0xf) < 16"
    by (simp add: low_nibble_mod)
qed

text \<open>A property of the sixteen digit values is checked value by value.\<close>

lemma all_less_16:
  assumes "\<And>k. k \<in> {0, 1, 2, 3, 4, 5, 6, 7, 8, 9, 10, 11, 12, 13, 14, 15 :: nat} \<Longrightarrow> P k"
  shows "n < 16 \<Longrightarrow> P n"
  using assms by (simp add: eval_nat_numeral less_Suc_eq)

lemma hex_nibble_digit: "n < 16 \<Longrightarrow> hex_nibble (hex_digits ! n) = Inr (of_nat n)"
  by (erule all_less_16 [rotated]) (auto simp: hex_nibble_def hex_digits_def)

lemma is_hex_digit: "n < 16 \<Longrightarrow> is_hex (hex_digits ! n)"
  by (erule all_less_16 [rotated]) (auto simp: is_hex_def hex_digits_def)

lemma is_hex_iff: "is_hex c \<longleftrightarrow> is_ok (hex_nibble c)"
  by (auto simp: is_hex_def hex_nibble_def Let_def)

lemma nibble_join: "push_bit 4 (drop_bit 4 b) OR (b AND 0xf) = (b :: u8)"
proof -
  have m: "(0xf :: u8) = mask 4" by (simp add: mask_eq_exp_minus_1)
  show ?thesis
    unfolding m by (rule bit_word_eqI) (auto simp: bit_simps)
qed

lemma hex_pairs_byte [hex_simps]:
  "hex_pairs (hex_of_byte b @ s) = bind_res (hex_pairs s) (\<lambda>bs. Inr (b # bs))"
  by (simp add: hex_of_byte_def hex_nibble_digit nibble_bound nibble_join)

lemma length_hex_of_byte [simp]: "length (hex_of_byte b) = 2"
  by (simp add: hex_of_byte_def)

lemma bytes_to_hex_simps [simp]:
  "bytes_to_hex [] = []"
  "bytes_to_hex (b # bs) = hex_of_byte b @ bytes_to_hex bs"
  "bytes_to_hex (xs @ ys) = bytes_to_hex xs @ bytes_to_hex ys"
  by (simp_all add: bytes_to_hex_def)

lemma length_bytes_to_hex [simp]: "length (bytes_to_hex bs) = 2 * length bs"
  by (induction bs) simp_all

lemma hex_pairs_bytes_to_hex: "hex_pairs (bytes_to_hex bs @ s) = bind_res (hex_pairs s) (\<lambda>cs. Inr (bs @ cs))"
proof (induction bs)
  case Nil
  show ?case by (cases "hex_pairs s") simp_all
next
  case (Cons b bs)
  then show ?case by (cases "hex_pairs s") (simp_all add: hex_simps)
qed

lemma hex_to_bytes_to_hex [simp]: "hex_to_bytes (bytes_to_hex bs) = Inr bs"
  using hex_pairs_bytes_to_hex [of bs "[]"] by (simp add: hex_to_bytes_def)

lemma bytes_to_hex_inject: "bytes_to_hex xs = bytes_to_hex ys \<longleftrightarrow> xs = ys"
  by (metis hex_to_bytes_to_hex sum.inject(2))

lemma hex_pairs_ok: "even (length s) \<Longrightarrow> is_ok (hex_pairs s) \<longleftrightarrow> list_all is_hex s"
proof (induction s rule: hex_pairs.induct)
  case (1 a b s)
  then show ?case
    by (auto simp: is_hex_iff is_ok_iff bind_res_Inr_iff)
qed simp_all

lemma hex_to_bytes_ok: "is_ok (hex_to_bytes s) \<longleftrightarrow> even (length s) \<and> list_all is_hex s"
  by (simp add: hex_to_bytes_def hex_pairs_ok)

lemma hex_pairs_length: "hex_pairs s = Inr bs \<Longrightarrow> length bs = length s div 2"
  by (induction s arbitrary: bs rule: hex_pairs.induct) (auto simp: bind_res_Inr_iff)

lemma hex_to_bytes_length: "hex_to_bytes s = Inr bs \<Longrightarrow> length s = 2 * length bs"
  by (auto simp: hex_to_bytes_def hex_pairs_length split: if_splits)

section \<open>Reversing bytes inside hex text\<close>

lemma fold_pair_updates:
  "2 * n \<le> length xs \<Longrightarrow>
     fold (\<lambda>i out. out[i * 2 := f i, i * 2 + 1 := g i]) [0..<n] xs =
       concat (map (\<lambda>i. [f i, g i]) [0..<n]) @ drop (2 * n) xs"
proof (induction n)
  case 0
  show ?case by simp
next
  case (Suc n)
  have len: "length (concat (map (\<lambda>i. [f i, g i]) [0..<n])) = n * 2"
    by (induction n) simp_all
  from Suc.prems obtain a b ys where d: "drop (2 * n) xs = a # b # ys"
    by (metis (no_types, lifting) Cons_nth_drop_Suc Suc_le_lessD add_2_eq_Suc mult_Suc_right order.strict_trans lessI)
  have "drop (2 * Suc n) xs = drop 2 (drop (2 * n) xs)" by (simp add: add.commute)
  with d have "drop (2 * Suc n) xs = ys" by simp
  with Suc d len show ?case by (simp add: list_update_append)
qed

lemma byte_reverse_hex_concat:
  "even (length s) \<Longrightarrow> byte_reverse_hex s =
     concat (map (\<lambda>i. [s ! ((length s div 2 - 1 - i) * 2), s ! ((length s div 2 - 1 - i) * 2 + 1)])
       [0..<length s div 2])"
  using fold_pair_updates [of "length s div 2" "replicate (length s) CHR 0x00"]
  by (simp add: byte_reverse_hex_def Let_def)

lemma length_concat_pairs: "length (concat (map (\<lambda>i. [f i, g i]) [0..<n])) = n * 2"
  by (induction n) simp_all

lemma nth_concat_pairs:
  "i < n \<Longrightarrow> concat (map (\<lambda>i. [f i, g i]) [0..<n]) ! (i * 2) = f i"
  "i < n \<Longrightarrow> concat (map (\<lambda>i. [f i, g i]) [0..<n]) ! Suc (i * 2) = g i"
  by (induction n) (auto simp: nth_append length_concat_pairs less_Suc_eq)

lemma length_byte_reverse_hex [simp]: "even (length s) \<Longrightarrow> length (byte_reverse_hex s) = length s"
  by (simp add: byte_reverse_hex_concat length_concat_pairs)

lemma nth_byte_reverse_hex:
  assumes "even (length s)" and "i < length s div 2"
  shows "byte_reverse_hex s ! (i * 2) = s ! ((length s div 2 - 1 - i) * 2)"
    and "byte_reverse_hex s ! Suc (i * 2) = s ! Suc ((length s div 2 - 1 - i) * 2)"
  using assms by (simp_all add: byte_reverse_hex_concat nth_concat_pairs)

text \<open>Two texts of even length are equal when they agree pair by pair.\<close>

lemma pairs_eqI:
  assumes "length s = length t" and "even (length t)"
    and "\<And>i. i < length t div 2 \<Longrightarrow> s ! (i * 2) = t ! (i * 2) \<and> s ! Suc (i * 2) = t ! Suc (i * 2)"
  shows "s = t"
proof (rule nth_equalityI [OF assms(1)])
  fix j
  assume "j < length s"
  then have j: "j div 2 < length t div 2" using assms(1,2) by auto
  show "s ! j = t ! j"
    using assms(3) [OF j] by (cases "even j") (auto elim!: evenE oddE simp: mult.commute)
qed

lemma byte_reverse_hex_involutive [simp]:
  "even (length s) \<Longrightarrow> byte_reverse_hex (byte_reverse_hex s) = s"
  by (rule pairs_eqI) (simp_all add: nth_byte_reverse_hex)

lemma nth_bytes_to_hex:
  "i < length bs \<Longrightarrow> bytes_to_hex bs ! (i * 2) = hex_of_byte (bs ! i) ! 0"
  "i < length bs \<Longrightarrow> bytes_to_hex bs ! Suc (i * 2) = hex_of_byte (bs ! i) ! 1"
proof (induction bs arbitrary: i)
  case (Cons b bs)
  case 1
  with Cons show ?case by (cases i) (simp_all add: nth_append hex_of_byte_def)
next
  case (Cons b bs)
  case 2
  with Cons show ?case by (cases i) (simp_all add: nth_append hex_of_byte_def)
qed simp_all

lemma byte_reverse_bytes_to_hex [simp]: "byte_reverse_hex (bytes_to_hex bs) = bytes_to_hex (rev bs)"
  by (rule pairs_eqI) (simp_all add: nth_byte_reverse_hex nth_bytes_to_hex rev_nth)

section \<open>Little-endian integers\<close>

lemma le_hex_u64_bytes: "le_hex_u64 v = bytes_to_hex (le_bytes 8 v)"
  by (simp add: le_hex_u64_def le_bytes_def bytes_to_hex_def comp_def)

lemma le_bytes_append: "le_bytes (m + n) v = le_bytes m v @ le_bytes n (drop_bit (8 * m) v)"
  by (rule nth_equalityI) (auto simp: le_bytes_nth nth_append algebra_simps)

lemma le_bytes_ucast: "8 * n \<le> LENGTH('a) \<Longrightarrow> 8 * n \<le> LENGTH('b) \<Longrightarrow>
    le_bytes n (ucast (v :: 'a::len word) :: 'b::len word) = le_bytes n v"
proof (rule nth_equalityI)
  fix i
  assume len: "8 * n \<le> LENGTH('a)" "8 * n \<le> LENGTH('b)"
    and "i < length (le_bytes n (ucast v :: 'b word))"
  then have "8 * i + 8 \<le> 8 * n" by simp
  with len show "le_bytes n (ucast v :: 'b word) ! i = le_bytes n v ! i"
    by (simp add: le_bytes_nth) (rule bit_word_eqI, auto simp: bit_simps)
qed simp

lemma le_hex_u32_bytes: "le_hex_u32 v = bytes_to_hex (le_bytes 4 v)"
proof -
  have "le_bytes 8 (ucast v :: u64) = le_bytes 4 (ucast v :: u64) @ le_bytes 4 (drop_bit 32 (ucast v :: u64))"
    using le_bytes_append [of 4 4 "ucast v :: u64"] by simp
  then show ?thesis
    by (simp add: le_hex_u32_def le_hex_u64_bytes le_bytes_ucast)
qed

lemma put_be_bytes: "put_be v n = bytes_to_hex (le_bytes n v)"
  by (simp add: put_be_def le_bytes_def bytes_to_hex_def comp_def)

lemma length_int_to_hex [simp]: "length (int_to_hex v n) = n"
  by (induction n arbitrary: v) simp_all

lemma int_to_hex_hex: "list_all is_hex (int_to_hex v n)"
proof (induction n arbitrary: v)
  case (Suc n)
  have "unat (v AND 0xf) < 16" by (simp add: low_nibble_mod)
  with Suc show ?case by (simp add: is_hex_digit)
qed simp

section \<open>Compact targets as numbers\<close>

text \<open>
  The number that compact bits stand for: mantissa times \<open>256 ^ (exp - 3)\<close>, truncated for a
  small exponent, and zero when the exponent reaches beyond 32 bytes.
\<close>

definition compact_value :: "nat \<Rightarrow> nat \<Rightarrow> nat" where
  "compact_value exp mant =
     (if exp < 3 then mant div 256 ^ (3 - exp)
      else if exp > 32 then 0 else mant * 256 ^ (exp - 3))"

lemma store3_zeros:
  assumes "i + 2 < n"
  shows "store3 i m (replicate n 0) =
    replicate i 0 @ [ucast (drop_bit 16 m), ucast (drop_bit 8 m), ucast m] @ replicate (n - i - 3) 0"
proof -
  define k where "k = n - i - 3"
  have "n = i + (3 + k)" using assms by (simp add: k_def)
  then have "replicate n (0 :: u8) = replicate i 0 @ replicate 3 0 @ replicate k 0"
    by (simp only: replicate_add)
  then have "replicate n (0 :: u8) = replicate i 0 @ 0 # 0 # 0 # replicate k 0" and "n - i - 3 = k"
    by (simp_all only: k_def) (simp add: numeral_3_eq_3)
  then show ?thesis
    by (simp add: store3_def list_update_append)
qed

lemma be_value_store3:
  assumes "i + 2 < n" and "unat m < 2 ^ 24"
  shows "be_value (store3 i m (replicate n 0)) = unat m * 256 ^ (n - i - 3)"
proof -
  have "be_value [ucast (drop_bit 16 m), ucast (drop_bit 8 m), ucast m] = le_value (le_bytes 3 m)"
    by (simp add: be_value_def le_bytes_def upt_rec)
  also have "\<dots> = unat m" using assms(2) by (simp add: le_value_le_bytes)
  finally show ?thesis
    by (simp only: store3_zeros [OF assms(1)] be_value_append) (simp add: be_value_def)
qed

lemma or3: "(push_bit 16 x OR push_bit 8 y) OR z = (z OR push_bit 8 y) OR push_bit 16 (x :: u32)"
  by (rule bit_word_eqI) (auto simp: bit_or_iff)

lemma mantissa_value:
  assumes "length b = 4"
  shows "unat (mantissa b) = be_value (tl b)"
proof -
  obtain e x y z where b: "b = [e, x, y, z]"
    using assms by (auto simp: numeral_eq_Suc length_Suc_conv)
  define v :: u32 where "v = of_nat (le_value [z, y, x])"
  have "le_bytes (length [z, y, x]) v = [z, y, x]"
    unfolding v_def by (rule le_bytes_of_le_value) simp
  then have "le_bytes 3 v = [z, y, x]" by (simp add: numeral_3_eq_3)
  then have parts: "z = ucast v" "y = ucast (drop_bit 8 v)" "x = ucast (drop_bit 16 v)"
    by (simp_all add: le_bytes_def upt_rec)
  have "mantissa b = (ucast z OR push_bit 8 (ucast y)) OR push_bit 16 (ucast x)"
    by (simp add: mantissa_def b or3)
  also have "\<dots> = take_bit 24 v"
    unfolding parts by (rule byte_join_u24)
  finally have "mantissa b = take_bit 24 v" .
  then have "unat (mantissa b) = unat v mod 256 ^ 3"
    by (simp add: unsigned_take_bit_eq take_bit_eq_mod [where 'a = nat])
  also have "\<dots> = le_value (le_bytes 3 v)" by (simp add: le_value_le_bytes)
  also have "\<dots> = be_value (tl b)"
    using \<open>le_bytes 3 v = [z, y, x]\<close> by (simp add: be_value_def b)
  finally show ?thesis .
qed

lemma mantissa_bound: "length b = 4 \<Longrightarrow> unat (mantissa b) < 2 ^ 24"
  using be_value_bound [of "tl b"] by (simp add: mantissa_value)

lemma target_from_bits_value:
  assumes "length b = 4" and "target_from_bits_hex (bytes_to_hex b) = Inr t"
  shows "length t = 32" and "be_value t = compact_value (unat (b ! 0)) (be_value (tl b))"
proof -
  let ?e = "unat (b ! 0)" and ?m = "mantissa b"
  have t: "t = (if ?m = 0 then replicate 32 0
      else if ?e < 3 then store3 29 (drop_bit ((3 - ?e) * 8) ?m) (replicate 32 0)
      else if ?e > 32 then replicate 32 0 else store3 (32 - ?e) ?m (replicate 32 0))"
    using assms by (auto simp: target_from_bits_hex_def Let_def split: if_splits)
  then show "length t = 32" by (simp add: store3_def)
  have m: "unat ?m < 2 ^ 24" by (rule mantissa_bound [OF assms(1)])
  have v: "be_value (tl b) = unat ?m" by (simp add: mantissa_value [OF assms(1)])
  have small: "unat (drop_bit k ?m) = unat ?m div 2 ^ k" for k
    by (simp add: unat_drop_bit_eq drop_bit_eq_div [where 'a = nat])
  have below: "unat (drop_bit k ?m) < 2 ^ 24" for k
    using m small [of k] div_le_dividend [of "unat ?m" "2 ^ k"] by linarith
  then have "be_value (store3 29 (drop_bit ((3 - ?e) * 8) ?m) (replicate 32 0)) = unat ?m div 256 ^ (3 - ?e)"
    using be_value_store3 [OF _ below [of "(3 - ?e) * 8"], of 29 32] by (simp add: small power_mult mult.commute)
  moreover have "be_value (store3 (32 - ?e) ?m (replicate 32 0)) = unat ?m * 256 ^ (?e - 3)"
    if "3 \<le> ?e" "?e \<le> 32"
    using that be_value_store3 [of "32 - ?e" 32 ?m] m by simp
  ultimately show "be_value t = compact_value ?e (be_value (tl b))"
    unfolding v by (auto simp: t compact_value_def)
qed

section \<open>The height push\<close>

lemma le_min_bytes_value: "le_value (le_min_bytes h) = unat h"
proof (induction h rule: le_min_bytes.induct)
  case (1 h)
  show ?case
  proof (cases "h = 0")
    case False
    have "unat (ucast h :: u8) = unat h mod 256"
      by (simp add: unsigned_ucast_eq take_bit_eq_mod [where 'a = nat])
    moreover have "unat (drop_bit 8 h) = unat h div 256"
      by (simp add: unat_drop_bit_eq drop_bit_eq_div [where 'a = nat])
    ultimately show ?thesis
      using 1 False by (subst le_min_bytes.simps) simp
  qed (simp add: le_min_bytes.simps)
qed

lemma le_min_bytes_minimal: "le_min_bytes h \<noteq> [] \<Longrightarrow> last (le_min_bytes h) \<noteq> 0"
proof (induction h rule: le_min_bytes.induct)
  case (1 h)
  show ?case
  proof (cases "le_min_bytes (drop_bit 8 h) = []")
    case True
    then have "drop_bit 8 h = 0"
      by (subst (asm) le_min_bytes.simps) (simp split: if_splits)
    moreover have "h \<noteq> 0" using "1.prems" by (auto simp: le_min_bytes.simps)
    ultimately have "unat h div 256 = 0" and "unat h \<noteq> 0"
      using unat_drop_bit_eq [of 8 h] by (simp_all add: drop_bit_eq_div [where 'a = nat] unat_eq_0)
    then have "unat (ucast h :: u8) \<noteq> 0"
      by (simp add: unsigned_ucast_eq take_bit_eq_mod [where 'a = nat] div_eq_0_iff)
    then have "ucast h \<noteq> (0 :: u8)" by auto
    then show ?thesis using True \<open>h \<noteq> 0\<close> by (subst le_min_bytes.simps) simp
  next
    case False
    with 1 show ?thesis by (subst le_min_bytes.simps) (auto simp: le_min_bytes.simps [of 0])
  qed
qed

lemma le_value_last: "bs \<noteq> [] \<Longrightarrow> last bs \<noteq> 0 \<Longrightarrow> 256 ^ (length bs - 1) \<le> le_value bs"
proof -
  assume ne: "bs \<noteq> []" and l: "last bs \<noteq> 0"
  have "le_value bs = le_value (butlast bs @ [last bs])" using ne by simp
  also have "\<dots> = le_value (butlast bs) + 256 ^ (length bs - 1) * unat (last bs)"
    by (simp only: le_value_append length_butlast) simp
  finally have eq: "le_value bs = le_value (butlast bs) + 256 ^ (length bs - 1) * unat (last bs)" .
  have "1 \<le> unat (last bs)" using l by (simp add: Suc_le_eq unat_gt_0)
  from mult_le_mono2 [OF this, of "256 ^ (length bs - 1)"] eq show ?thesis by linarith
qed

lemma le_min_bytes_length: "length (le_min_bytes h) \<le> 4"
proof (cases "le_min_bytes h = []")
  case False
  have "256 ^ (length (le_min_bytes h) - 1) \<le> le_value (le_min_bytes h)"
    using False le_min_bytes_minimal [OF False] by (rule le_value_last)
  also have "\<dots> < 2 ^ 32"
    using unsigned_less [of h] by (simp add: le_min_bytes_value)
  also have "(2 :: nat) ^ 32 = 256 ^ 4" by simp
  finally have "length (le_min_bytes h) - 1 < 4" by (simp only: power_strict_increasing_iff)
  then show ?thesis by simp
qed simp

text \<open>
  The number a script reads from a push: little endian with the sign in the top bit of the last
  byte, the rule of the scripts that check a coinbase height.
\<close>

definition script_num :: "bytes \<Rightarrow> int" where
  "script_num bs =
     (if bs = [] then 0
      else if unat (last bs) < 128 then int (le_value bs)
      else - (int (le_value bs) - 128 * 256 ^ (length bs - 1)))"

lemma script_num_eq_iff:
  "bs \<noteq> [] \<Longrightarrow> last bs \<noteq> 0 \<Longrightarrow> script_num bs = int (le_value bs) \<longleftrightarrow> unat (last bs) < 128"
proof -
  assume ne: "bs \<noteq> []" and l: "last bs \<noteq> 0"
  have big: "128 * 256 ^ (length bs - 1) \<le> le_value bs" if "\<not> unat (last bs) < 128"
  proof -
    have "le_value bs = le_value (butlast bs @ [last bs])" using ne by simp
    also have "\<dots> = le_value (butlast bs) + 256 ^ (length bs - 1) * unat (last bs)"
      by (simp only: le_value_append length_butlast) simp
    finally have eq: "le_value bs = le_value (butlast bs) + 256 ^ (length bs - 1) * unat (last bs)" .
    have "128 \<le> unat (last bs)" using that by simp
    from mult_le_mono2 [OF this, of "256 ^ (length bs - 1)"] eq show ?thesis by linarith
  qed
  have neg: "int (le_value bs) \<noteq> - (int (le_value bs) - 128 * 256 ^ (length bs - 1))"
    if "\<not> unat (last bs) < 128"
  proof -
    have "int (128 * 256 ^ (length bs - 1)) \<le> int (le_value bs)"
      using big [OF that] by (simp only: of_nat_le_iff)
    then have le: "128 * (256 :: int) ^ (length bs - 1) \<le> int (le_value bs)"
      by (simp only: of_nat_mult of_nat_power of_nat_numeral)
    have "0 < (256 :: int) ^ (length bs - 1)" by simp
    with le show ?thesis by linarith
  qed
  then show ?thesis using ne by (auto simp: script_num_def)
qed

section \<open>Properties\<close>

text \<open>
  Hex text of a byte string decodes to exactly that byte string, decoding succeeds on exactly
  the texts of even length made of hex digits, and reversing a hex text byte by byte is the hex
  text of the reversed bytes.
\<close>

theorem hex_codec:
  "hex_to_bytes (bytes_to_hex bs) = Inr bs \<and>
   is_ok (hex_to_bytes s) = (even (length s) \<and> list_all is_hex s) \<and>
   byte_reverse_hex (bytes_to_hex bs) = bytes_to_hex (rev bs)"
  by (simp add: hex_to_bytes_ok)

text \<open>
  The 32-byte big-endian target that the code builds from compact bits is the number the bits
  denote, mantissa times a power of 256, for every exponent: a small one shifts the mantissa out,
  one above 32 gives the zero target.
\<close>

theorem compact_target:
  assumes "length b = 4"
  shows "\<exists>t. target_from_bits_hex (bytes_to_hex b) = Inr t \<and> length t = 32 \<and>
    be_value t = compact_value (unat (b ! 0)) (be_value (tl b))"
proof -
  have "is_ok (target_from_bits_hex (bytes_to_hex b))"
    using assms by (simp add: target_from_bits_hex_def Let_def)
  then obtain t where "target_from_bits_hex (bytes_to_hex b) = Inr t"
    by (auto simp: is_ok_iff)
  with target_from_bits_value [OF assms this] show ?thesis by blast
qed

theorem compact_target_witness:
  "\<exists>t. target_from_bits_hex (bytes_to_hex [0x1d, 0x00, 0xff, 0xff]) = Inr t \<and> length t = 32 \<and>
    be_value t = 0xffff * 256 ^ 26"
proof -
  have "length [0x1d, 0x00, 0xff, 0xff :: u8] = 4" by simp
  from compact_target [OF this] show ?thesis
    by (simp add: compact_value_def be_value_Cons)
qed

text \<open>
  A positive height is pushed as its shortest little-endian byte string, one length byte in
  front, and the script rule reads it back as the height exactly when the top bit of the last
  byte is clear: the code adds no sign byte.
\<close>

theorem bip34_height:
  assumes "0 < height" and "height < 2 ^ 31"
  shows "\<exists>bs. encode_bip34_height height = Inr (hex_of_byte (of_nat (length bs)) @ bytes_to_hex bs) \<and>
    0 < length bs \<and> length bs \<le> 4 \<and> last bs \<noteq> 0 \<and> int (le_value bs) = height \<and>
    (script_num bs = height \<longleftrightarrow> unat (last bs) < 128)"
proof -
  define h where "h = (of_int height :: u32)"
  define bs where "bs = le_min_bytes h"
  have "uint h = height" using assms by (simp add: h_def take_bit_int_eq_self unsigned_of_int)
  then have val: "int (le_value bs) = height" by (simp add: bs_def le_min_bytes_value)
  then have ne: "bs \<noteq> []" using assms(1) by auto
  then have l: "last bs \<noteq> 0" unfolding bs_def by (rule le_min_bytes_minimal)
  have "encode_bip34_height height = Inr (hex_of_byte (of_nat (length bs)) @ bytes_to_hex bs)"
    using assms ne by (simp add: encode_bip34_height_def Let_def bs_def h_def)
  moreover have "length bs \<le> 4" unfolding bs_def by (rule le_min_bytes_length)
  moreover have "script_num bs = height \<longleftrightarrow> unat (last bs) < 128"
    using script_num_eq_iff [OF ne l] val by simp
  ultimately show ?thesis using ne l val by blast
qed

theorem bip34_height_witness:
  "encode_bip34_height 840000 = Inr ''0340d10c'' \<and>
   (\<exists>bs. encode_bip34_height 128 = Inr (hex_of_byte (of_nat (length bs)) @ bytes_to_hex bs) \<and>
      int (le_value bs) = 128 \<and> (script_num bs = 128 \<longleftrightarrow> unat (last bs) < 128))"
proof -
  have "encode_bip34_height 840000 = Inr ''0340d10c''"
    by (simp add: encode_bip34_height_def le_min_bytes.simps hex_of_byte_def hex_digits_def
        bytes_to_hex_def)
  then show ?thesis using bip34_height [of 128] by auto
qed

end
