(* ===== verification/Sv2Codec.thy ===== *)
theory Sv2Codec
  imports Prelude
begin

text \<open>
  \<open>src/sv2_codec.hpp\<close>: the Stratum V2 wire codec. \<open>Writer\<close> appends encoded fields to a
  buffer; \<open>Reader\<close> is a cursor over a received buffer whose every accessor checks the
  remaining length before it reads, throws when the field does not fit, and leaves the cursor
  behind the field otherwise. The locale \<open>wire_codec\<close> is the contract one field type owes its
  users: what \<open>Writer\<close> appends, \<open>Reader\<close> gives back, and the cursor moves by exactly the bytes
  written. Every field type of the codec is an interpretation of it.
\<close>

section \<open>Writer\<close>

record writer =
  wbuf :: bytes

definition new_writer :: writer where
  "new_writer = \<lparr>wbuf = []\<rparr>"

definition push_back :: "u8 \<Rightarrow> writer \<Rightarrow> writer" where
  "push_back b w = w\<lparr>wbuf := wbuf w @ [b]\<rparr>"

definition insert_end :: "bytes \<Rightarrow> writer \<Rightarrow> writer" where
  "insert_end bs w = w\<lparr>wbuf := wbuf w @ bs\<rparr>"

definition write_u8 :: "u8 \<Rightarrow> writer \<Rightarrow> writer" where
  "write_u8 val w = push_back val w"

definition write_bool :: "bool \<Rightarrow> writer \<Rightarrow> writer" where
  "write_bool val w = push_back (if val then 1 else 0) w"

definition write_u16 :: "u16 \<Rightarrow> writer \<Rightarrow> writer" where
  "write_u16 val w =
     push_back (ucast (drop_bit 8 val AND 255)) (push_back (ucast (val AND 255)) w)"

definition write_u24 :: "u32 \<Rightarrow> writer \<Rightarrow> writer" where
  "write_u24 val w =
     push_back (ucast (drop_bit 16 val AND 255))
       (push_back (ucast (drop_bit 8 val AND 255)) (push_back (ucast (val AND 255)) w))"

definition write_u32 :: "u32 \<Rightarrow> writer \<Rightarrow> writer" where
  "write_u32 val w =
     push_back (ucast (drop_bit 24 val AND 255))
       (push_back (ucast (drop_bit 16 val AND 255))
         (push_back (ucast (drop_bit 8 val AND 255)) (push_back (ucast (val AND 255)) w)))"

text \<open>The loop \<open>for (int i = 0; i < 8; ++i)\<close> of the code, one byte per round.\<close>

definition write_u64 :: "u64 \<Rightarrow> writer \<Rightarrow> writer" where
  "write_u64 val w =
     fold (\<lambda>i. push_back (ucast (drop_bit (i * 8) val AND 255))) [0..<8] w"

text \<open>A \<open>std::array<uint8_t, 32>\<close> is a byte list of length 32.\<close>

definition write_u256 :: "bytes \<Rightarrow> writer \<Rightarrow> writer" where
  "write_u256 val w = insert_end val w"

text \<open>A \<open>float\<close> is carried as its 32-bit pattern, which \<open>memcpy\<close> copies unchanged.\<close>

type_synonym f32 = u32

definition write_f32 :: "f32 \<Rightarrow> writer \<Rightarrow> writer" where
  "write_f32 val w = write_u32 val w"

definition write_str0_255 :: "string \<Rightarrow> writer \<Rightarrow> writer" where
  "write_str0_255 val w =
     (let len = min (length val) 255
      in insert_end (map byte_of_char (take len val)) (write_u8 (of_nat len) w))"

definition write_b0_32 :: "bytes \<Rightarrow> writer \<Rightarrow> writer" where
  "write_b0_32 val w =
     (let len = min (length val) 32 in insert_end (take len val) (write_u8 (of_nat len) w))"

definition write_b0_255 :: "bytes \<Rightarrow> writer \<Rightarrow> writer" where
  "write_b0_255 val w =
     (let len = min (length val) 255 in insert_end (take len val) (write_u8 (of_nat len) w))"

definition write_b0_64k :: "bytes \<Rightarrow> writer \<Rightarrow> writer" where
  "write_b0_64k val w =
     (let len = min (length val) 65535 in insert_end (take len val) (write_u16 (of_nat len) w))"

definition write_option_u32 :: "u32 option \<Rightarrow> writer \<Rightarrow> writer" where
  "write_option_u32 val w =
     (case val of Some v \<Rightarrow> write_u32 v (write_u8 1 w) | None \<Rightarrow> write_u8 0 w)"

definition write_seq0_255_u256 :: "bytes list \<Rightarrow> writer \<Rightarrow> writer" where
  "write_seq0_255_u256 val w =
     (let len = min (length val) 255
      in fold write_u256 (take len val) (write_u8 (of_nat len) w))"

section \<open>Reader\<close>

record reader =
  rdata :: bytes
  rpos :: nat

definition new_reader :: "bytes \<Rightarrow> reader" where
  "new_reader bs = \<lparr>rdata = bs, rpos = 0\<rparr>"

definition rsize :: "reader \<Rightarrow> nat" where
  "rsize r = length (rdata r)"

definition remaining :: "reader \<Rightarrow> nat" where
  "remaining r = rsize r - rpos r"

text \<open>The cursor after \<open>pos_ += n\<close>, and the bytes it has still to read.\<close>

definition advance :: "nat \<Rightarrow> reader \<Rightarrow> reader" where
  "advance n r = r\<lparr>rpos := rpos r + n\<rparr>"

definition unread :: "reader \<Rightarrow> bytes" where
  "unread r = drop (rpos r) (rdata r)"

definition at :: "reader \<Rightarrow> nat \<Rightarrow> u8" where
  "at r i = rdata r ! (rpos r + i)"

definition slice :: "reader \<Rightarrow> nat \<Rightarrow> bytes" where
  "slice r n = take n (drop (rpos r) (rdata r))"

type_synonym 'a read = "reader \<Rightarrow> (exn + 'a \<times> reader)"

definition read_u8 :: "u8 read" where
  "read_u8 r =
     (if rpos r + 1 > rsize r then Inl (OutOfRange ''SV2 parse U8 out of range'')
      else Inr (at r 0, advance 1 r))"

text \<open>Sequencing of reader calls, the statements \<open>x = r.read_a(); y = r.read_b(); \<dots>\<close>.\<close>

definition bind_read :: "'a read \<Rightarrow> ('a \<Rightarrow> 'b read) \<Rightarrow> 'b read" where
  "bind_read m f r = bind_res (m r) (\<lambda>(x, r'). f x r')"

definition return_read :: "'a \<Rightarrow> 'a read" where
  "return_read x r = Inr (x, r)"

definition read_bool :: "bool read" where
  "read_bool = bind_read read_u8 (\<lambda>b. return_read (b \<noteq> 0))"

definition read_u16 :: "u16 read" where
  "read_u16 r =
     (if rpos r + 2 > rsize r then Inl (OutOfRange ''SV2 parse U16 out of range'')
      else Inr (ucast (at r 0) OR push_bit 8 (ucast (at r 1)), advance 2 r))"

definition read_u24 :: "u32 read" where
  "read_u24 r =
     (if rpos r + 3 > rsize r then Inl (OutOfRange ''SV2 parse U24 out of range'')
      else Inr ((ucast (at r 0) OR push_bit 8 (ucast (at r 1))) OR push_bit 16 (ucast (at r 2)),
                advance 3 r))"

definition read_u32 :: "u32 read" where
  "read_u32 r =
     (if rpos r + 4 > rsize r then Inl (OutOfRange ''SV2 parse U32 out of range'')
      else Inr (((ucast (at r 0) OR push_bit 8 (ucast (at r 1))) OR push_bit 16 (ucast (at r 2)))
                  OR push_bit 24 (ucast (at r 3)),
                advance 4 r))"

definition read_u64 :: "u64 read" where
  "read_u64 r =
     (if rpos r + 8 > rsize r then Inl (OutOfRange ''SV2 parse U64 out of range'')
      else Inr (fold (\<lambda>i val. val OR push_bit (i * 8) (ucast (at r i))) [0..<8] 0, advance 8 r))"

definition read_u256 :: "bytes read" where
  "read_u256 r =
     (if rpos r + 32 > rsize r then Inl (OutOfRange ''SV2 parse U256 out of range'')
      else Inr (slice r 32, advance 32 r))"

definition read_f32 :: "f32 read" where
  "read_f32 = read_u32"

text \<open>The part that the length-prefixed accessors share, once the length is known.\<close>

definition read_raw :: "string \<Rightarrow> nat \<Rightarrow> bytes read" where
  "read_raw msg len r =
     (if rpos r + len > rsize r then Inl (OutOfRange msg) else Inr (slice r len, advance len r))"

definition read_str0_255 :: "string read" where
  "read_str0_255 =
     bind_read read_u8 (\<lambda>len.
     bind_read (read_raw ''SV2 parse STR0_255 out of range'' (unat len)) (\<lambda>bs.
     return_read (map char_of_byte bs)))"

definition read_b0_32 :: "bytes read" where
  "read_b0_32 =
     bind_read read_u8 (\<lambda>len.
     if len > 32 then (\<lambda>r. Inl (RuntimeError ''B0_32 too long''))
     else read_raw ''SV2 parse B0_32 out of range'' (unat len))"

definition read_b0_255 :: "bytes read" where
  "read_b0_255 =
     bind_read read_u8 (\<lambda>len. read_raw ''SV2 parse B0_255 out of range'' (unat len))"

definition read_b0_64k :: "bytes read" where
  "read_b0_64k =
     bind_read read_u16 (\<lambda>len. read_raw ''SV2 parse B0_64K out of range'' (unat len))"

definition read_option_u32 :: "u32 option read" where
  "read_option_u32 =
     bind_read read_u8 (\<lambda>active.
     if active \<noteq> 0 then bind_read read_u32 (\<lambda>v. return_read (Some v)) else return_read None)"

text \<open>The loop \<open>for (uint8_t i = 0; i < len; ++i) val.push_back(read_u256());\<close>\<close>

primrec read_n_u256 :: "nat \<Rightarrow> bytes list read" where
  "read_n_u256 0 = return_read []"
| "read_n_u256 (Suc n) =
     bind_read read_u256 (\<lambda>v. bind_read (read_n_u256 n) (\<lambda>vs. return_read (v # vs)))"

definition read_seq0_255_u256 :: "bytes list read" where
  "read_seq0_255_u256 = bind_read read_u8 (\<lambda>len. read_n_u256 (unat len))"

section \<open>What a writer appends\<close>

text \<open>
  \<open>enc write x\<close> are the bytes \<open>write x\<close> puts on an empty buffer; a write is \<open>appending\<close> when
  it adds exactly those at the end of any buffer.
\<close>

definition enc :: "('a \<Rightarrow> writer \<Rightarrow> writer) \<Rightarrow> 'a \<Rightarrow> bytes" where
  "enc write x = wbuf (write x new_writer)"

definition appending :: "('a \<Rightarrow> writer \<Rightarrow> writer) \<Rightarrow> bool" where
  "appending write \<longleftrightarrow> (\<forall>x w. write x w = insert_end (enc write x) w)"

lemma wbuf_new [simp]: "wbuf new_writer = []"
  by (simp add: new_writer_def)

lemma wbuf_insert_end [simp]: "wbuf (insert_end bs w) = wbuf w @ bs"
  by (simp add: insert_end_def)

lemma insert_end_insert_end [simp]: "insert_end cs (insert_end bs w) = insert_end (bs @ cs) w"
  by (simp add: insert_end_def)

lemma push_back_insert_end: "push_back b = insert_end [b]"
  by (rule ext) (simp add: push_back_def insert_end_def)

lemma fold_insert_end: "fold (\<lambda>x. insert_end (f x)) xs w = insert_end (concat (map f xs)) w"
  by (induction xs arbitrary: w) (simp_all add: insert_end_def)

lemma appendingI: "(\<And>x w. write x w = insert_end (f x) w) \<Longrightarrow> appending write"
  by (simp add: appending_def enc_def)

lemma enc_eqI: "(\<And>x w. write x w = insert_end (f x) w) \<Longrightarrow> enc write x = f x"
  by (simp add: enc_def)

text \<open>The bytes of each field type, collected in \<open>write_eqs\<close>.\<close>

named_theorems write_eqs \<open>each write operation as one append\<close>

lemma write_u8_eq [write_eqs]: "write_u8 v w = insert_end [v] w"
  by (simp add: write_u8_def push_back_insert_end)

lemma write_bool_eq [write_eqs]: "write_bool b w = insert_end [if b then 1 else 0] w"
  by (simp add: write_bool_def push_back_insert_end)

lemma write_u16_eq [write_eqs]: "write_u16 v w = insert_end (le_bytes 2 v) w"
  by (simp add: write_u16_def push_back_insert_end le_bytes_def upt_rec)

lemma write_u24_eq [write_eqs]: "write_u24 v w = insert_end (le_bytes 3 v) w"
  by (simp add: write_u24_def push_back_insert_end le_bytes_def upt_rec)

lemma write_u32_eq [write_eqs]: "write_u32 v w = insert_end (le_bytes 4 v) w"
  by (simp add: write_u32_def push_back_insert_end le_bytes_def upt_rec)

lemma write_u64_eq [write_eqs]: "write_u64 v w = insert_end (le_bytes 8 v) w"
  by (simp add: write_u64_def push_back_insert_end fold_insert_end le_bytes_def mult.commute)

lemma write_u256_eq [write_eqs]: "write_u256 v w = insert_end v w"
  by (simp add: write_u256_def)

lemma write_f32_eq [write_eqs]: "write_f32 v w = insert_end (le_bytes 4 v) w"
  by (simp add: write_f32_def write_u32_eq)

lemma write_str0_255_eq [write_eqs]:
  "write_str0_255 v w = insert_end (of_nat (min (length v) 255) # map byte_of_char (take 255 v)) w"
  by (simp add: write_str0_255_def write_u8_eq Let_def min_def)

lemma write_b0_32_eq [write_eqs]:
  "write_b0_32 v w = insert_end (of_nat (min (length v) 32) # take 32 v) w"
  by (simp add: write_b0_32_def write_u8_eq Let_def min_def)

lemma write_b0_255_eq [write_eqs]:
  "write_b0_255 v w = insert_end (of_nat (min (length v) 255) # take 255 v) w"
  by (simp add: write_b0_255_def write_u8_eq Let_def min_def)

lemma write_b0_64k_eq [write_eqs]:
  "write_b0_64k v w =
     insert_end (le_bytes 2 (of_nat (min (length v) 65535) :: u16) @ take 65535 v) w"
  by (simp add: write_b0_64k_def write_u16_eq Let_def min_def)

lemma write_option_u32_eq [write_eqs]:
  "write_option_u32 v w =
     insert_end (case v of Some x \<Rightarrow> 1 # le_bytes 4 x | None \<Rightarrow> [0]) w"
  by (simp add: write_option_u32_def write_u8_eq write_u32_eq split: option.split)

lemma write_seq0_255_u256_eq [write_eqs]:
  "write_seq0_255_u256 v w =
     insert_end (of_nat (min (length v) 255) # concat (take 255 v)) w"
proof -
  have "fold write_u256 xs w' = insert_end (concat xs) w'" for xs w'
    using fold_insert_end [of id xs w'] by (simp add: write_u256_eq [abs_def])
  then show ?thesis
    by (simp add: write_seq0_255_u256_def write_u8_eq Let_def min_def)
qed

section \<open>What a reader accepts\<close>

text \<open>
  \<open>reads_as rd bs x\<close>: wherever the unread bytes begin with \<open>bs\<close>, \<open>rd\<close> returns \<open>x\<close> and moves the
  cursor behind \<open>bs\<close>. \<open>framed rd\<close>: a successful read only moves the cursor, stays inside the
  buffer, and returns the same on any longer buffer, so it depends on the bytes it consumed only.
  Both are closed under sequencing, so a message's reader inherits them from its fields.
\<close>

definition reads_as :: "'a read \<Rightarrow> bytes \<Rightarrow> 'a \<Rightarrow> bool" where
  "reads_as rd bs x \<longleftrightarrow>
     (\<forall>r t. rpos r \<le> rsize r \<longrightarrow> unread r = bs @ t \<longrightarrow>
        rd r = Inr (x, advance (length bs) r))"

definition extend :: "bytes \<Rightarrow> reader \<Rightarrow> reader" where
  "extend t r = r\<lparr>rdata := rdata r @ t\<rparr>"

definition framed :: "'a read \<Rightarrow> bool" where
  "framed rd \<longleftrightarrow>
     (\<forall>r x r'. rpos r \<le> rsize r \<longrightarrow> rd r = Inr (x, r') \<longrightarrow>
        (\<exists>n \<le> remaining r. r' = advance n r \<and>
           (\<forall>t. rd (extend t r) = Inr (x, advance n (extend t r)))))"

lemma advance_simps [simp]:
  "rdata (advance n r) = rdata r"
  "rpos (advance n r) = rpos r + n"
  "rsize (advance n r) = rsize r"
  "advance n (advance m r) = advance (m + n) r"
  "advance 0 r = r"
  by (simp_all add: advance_def rsize_def add.assoc)

lemma rpos_new [simp]: "rpos (new_reader bs) = 0"
  by (simp add: new_reader_def)

lemma advance_inject [simp]: "advance n r = advance m r \<longleftrightarrow> n = m"
  by (metis add_left_imp_eq advance_simps(2))

lemma unread_advance [simp]: "unread (advance n r) = drop n (unread r)"
  by (simp add: unread_def advance_def add.commute)

lemma unread_new [simp]: "unread (new_reader bs) = bs"
  by (simp add: unread_def new_reader_def)

lemma length_unread [simp]: "length (unread r) = remaining r"
  by (simp add: unread_def remaining_def rsize_def)

lemma extend_simps [simp]:
  "rdata (extend t r) = rdata r @ t"
  "rpos (extend t r) = rpos r"
  "rsize (extend t r) = rsize r + length t"
  by (simp_all add: extend_def rsize_def)

lemma extend_advance: "extend t (advance n r) = advance n (extend t r)"
  by (simp add: extend_def advance_def)

lemma unread_extend: "rpos r \<le> rsize r \<Longrightarrow> unread (extend t r) = unread r @ t"
  by (simp add: unread_def rsize_def)

lemma remaining_advance [simp]: "remaining (advance n r) = remaining r - n"
  by (simp add: remaining_def)

lemma fits_iff: "rpos r \<le> rsize r \<Longrightarrow> rpos r + n > rsize r \<longleftrightarrow> n > remaining r"
  by (auto simp: remaining_def)

lemma fits_prefix: "unread r = bs @ t \<Longrightarrow> bs \<noteq> [] \<Longrightarrow> rpos r + length bs \<le> rsize r"
proof -
  assume u: "unread r = bs @ t" and ne: "bs \<noteq> []"
  have "rsize r - rpos r = length bs + length t"
    using arg_cong [OF u, of length] by (simp add: remaining_def)
  moreover have "0 < length bs" using ne by simp
  ultimately show ?thesis by linarith
qed

lemma slice_eq: "slice r n = take n (unread r)"
  by (simp add: slice_def unread_def)

lemma at_eq: "i < remaining r \<Longrightarrow> at r i = unread r ! i"
  by (simp add: at_def unread_def remaining_def rsize_def)

lemma reads_asI:
  "(\<And>r t. rpos r \<le> rsize r \<Longrightarrow> unread r = bs @ t \<Longrightarrow>
      rd r = Inr (x, advance (length bs) r)) \<Longrightarrow> reads_as rd bs x"
  by (simp add: reads_as_def)

lemma reads_asD:
  "reads_as rd bs x \<Longrightarrow> rpos r \<le> rsize r \<Longrightarrow> unread r = bs @ t \<Longrightarrow>
     rd r = Inr (x, advance (length bs) r)"
  by (simp add: reads_as_def)

lemma reads_as_return: "reads_as (return_read x) [] x"
  by (simp add: reads_as_def return_read_def)

lemma reads_as_bind:
  assumes "reads_as rd bs x" and "reads_as (f x) cs y"
  shows "reads_as (bind_read rd f) (bs @ cs) y"
proof (rule reads_asI)
  fix r t
  assume pos: "rpos r \<le> rsize r" and u: "unread r = (bs @ cs) @ t"
  then have "rd r = Inr (x, advance (length bs) r)"
    using reads_asD [OF assms(1), of r "cs @ t"] by simp
  moreover have "rpos (advance (length bs) r) \<le> rsize (advance (length bs) r)"
    using fits_prefix [of r bs "cs @ t"] pos u by (cases "bs = []") simp_all
  then have "f x (advance (length bs) r) = Inr (y, advance (length cs) (advance (length bs) r))"
    by (rule reads_asD [OF assms(2)]) (simp add: u)
  ultimately show "bind_read rd f r = Inr (y, advance (length (bs @ cs)) r)"
    by (simp add: bind_read_def)
qed

text \<open>The last field of a message is followed by the construction of the value only.\<close>

lemma reads_as_map:
  assumes "reads_as rd bs x" and "y = g x"
  shows "reads_as (bind_read rd (\<lambda>x. return_read (g x))) bs y"
proof -
  have "reads_as (bind_read rd (\<lambda>x. return_read (g x))) (bs @ []) y"
    unfolding assms(2) by (rule reads_as_bind [OF assms(1)]) (rule reads_as_return)
  then show ?thesis by simp
qed

lemma framed_return [intro]: "framed (return_read x)"
  by (auto simp: framed_def return_read_def intro: exI [of _ 0])

lemma framed_fail [intro]: "framed (\<lambda>r. Inl e)"
  by (simp add: framed_def)

lemma framedD:
  assumes "framed rd" and "rpos r \<le> rsize r" and "rd r = Inr (x, r')"
  obtains n where "n \<le> remaining r" and "r' = advance n r"
    and "\<And>t. rd (extend t r) = Inr (x, advance n (extend t r))"
  using assms unfolding framed_def by blast

lemma framed_bind [intro]:
  assumes "framed rd" and "\<And>x. framed (f x)"
  shows "framed (bind_read rd f)"
  unfolding framed_def
proof (intro allI impI)
  fix r y r''
  assume pos: "rpos r \<le> rsize r" and "bind_read rd f r = Inr (y, r'')"
  then obtain x r' where 1: "rd r = Inr (x, r')" and 2: "f x r' = Inr (y, r'')"
    by (auto simp: bind_read_def bind_res_Inr_iff)
  from assms(1) pos 1 obtain n where n: "n \<le> remaining r" "r' = advance n r"
    and n_ext: "\<And>t. rd (extend t r) = Inr (x, advance n (extend t r))"
    by (rule framedD) blast
  have pos': "rpos r' \<le> rsize r'" using n pos by (simp add: remaining_def)
  from assms(2) pos' 2 obtain m where m: "m \<le> remaining r'" "r'' = advance m r'"
    and m_ext: "\<And>t. f x (extend t r') = Inr (y, advance m (extend t r'))"
    by (rule framedD) blast
  have "\<forall>t. bind_read rd f (extend t r) = Inr (y, advance (n + m) (extend t r))"
    using n_ext m_ext n(2) by (simp add: bind_read_def extend_advance)
  moreover have "n + m \<le> remaining r" and "r'' = advance (n + m) r"
    using n m by simp_all
  ultimately show "\<exists>k \<le> remaining r. r'' = advance k r \<and>
      (\<forall>t. bind_read rd f (extend t r) = Inr (y, advance k (extend t r)))"
    by blast
qed

section \<open>The contract of a field type\<close>

locale wire_codec =
  fixes put :: "'a \<Rightarrow> writer \<Rightarrow> writer"
    and get :: "'a read"
    and valid :: "'a \<Rightarrow> bool"
  assumes put_appends: "appending put"
    and get_framed: "framed get"
    and get_put: "valid x \<Longrightarrow> reads_as get (enc put x) x"
begin

lemma wbuf_put: "wbuf (put x w) = wbuf w @ enc put x"
  using put_appends by (simp add: appending_def)

lemma round_trip:
  "valid x \<Longrightarrow> get (new_reader (enc put x @ t)) =
     Inr (x, advance (length (enc put x)) (new_reader (enc put x @ t)))"
  by (rule reads_asD [OF get_put]) simp_all

lemma prefix_free:
  assumes "valid x" "valid y" and eq: "enc put x @ s = enc put y @ t"
  shows "x = y \<and> s = t"
proof -
  have "get (new_reader (enc put y @ t)) =
      Inr (x, advance (length (enc put x)) (new_reader (enc put y @ t)))"
    using round_trip [OF assms(1), of s] by (simp only: eq)
  with round_trip [OF assms(2), of t] have "x = y" by simp
  then show ?thesis using eq by simp
qed

lemma injective: "valid x \<Longrightarrow> valid y \<Longrightarrow> enc put x = enc put y \<Longrightarrow> x = y"
  using prefix_free [of x y "[]" "[]"] by simp

text \<open>An encoding cut short anywhere is refused with an exception, never misread.\<close>

lemma truncated_fails:
  assumes "valid x" and cut: "enc put x = bs @ t" and "t \<noteq> []"
  shows "\<exists>e. get (new_reader bs) = Inl e"
proof (rule ccontr)
  assume "\<not> ?thesis"
  then obtain y r' where ok: "get (new_reader bs) = Inr (y, r')"
    by (cases "get (new_reader bs)") auto
  have pos: "rpos (new_reader bs) \<le> rsize (new_reader bs)" by (simp add: new_reader_def)
  obtain n where "n \<le> remaining (new_reader bs)"
    and ext: "\<And>t. get (extend t (new_reader bs)) = Inr (y, advance n (extend t (new_reader bs)))"
    using framedD [OF get_framed pos ok] by blast
  moreover have "extend t (new_reader bs) = new_reader (enc put x)"
    by (simp add: extend_def new_reader_def cut)
  ultimately have "n \<le> length bs"
    and "get (new_reader (enc put x)) = Inr (y, advance n (new_reader (enc put x)))"
    using ext [of t] by (simp_all add: remaining_def rsize_def new_reader_def)
  with round_trip [OF assms(1), of "[]"] have "length (enc put x) \<le> length bs"
    by simp
  with cut assms(3) show False by simp
qed

end

section \<open>The field types\<close>

text \<open>
  Every fixed-size accessor checks the length and converts the slice it consumes;
  \<open>leaf_read\<close> is that shape, and the two lemmas give its framing and its inverse.
\<close>

definition leaf_read :: "exn \<Rightarrow> nat \<Rightarrow> (bytes \<Rightarrow> 'a) \<Rightarrow> 'a read" where
  "leaf_read e n f r = (if rpos r + n > rsize r then Inl e else Inr (f (slice r n), advance n r))"

lemma framed_leaf [intro]: "framed (leaf_read e n f)"
  unfolding framed_def
proof (intro allI impI)
  fix r x r'
  assume pos: "rpos r \<le> rsize r" and ok: "leaf_read e n f r = Inr (x, r')"
  then have fit: "rpos r + n \<le> rsize r" and x: "x = f (slice r n)" and r': "r' = advance n r"
    by (auto simp: leaf_read_def split: if_splits)
  then have n: "n \<le> remaining r" by (simp add: remaining_def)
  have "slice (extend t r) n = slice r n" for t
    using pos n by (simp add: slice_eq unread_extend)
  then have "\<forall>t. leaf_read e n f (extend t r) = Inr (x, advance n (extend t r))"
    using fit x by (simp add: leaf_read_def)
  with n r' show "\<exists>k \<le> remaining r. r' = advance k r \<and>
      (\<forall>t. leaf_read e n f (extend t r) = Inr (x, advance k (extend t r)))"
    by blast
qed

lemma reads_as_leaf:
  assumes "length bs = n" and "f bs = x"
  shows "reads_as (leaf_read e n f) bs x"
proof (rule reads_asI)
  fix r t
  assume pos: "rpos r \<le> rsize r" and u: "unread r = bs @ t"
  then have "rpos r + n \<le> rsize r"
    using fits_prefix [OF u] assms(1) by (cases "bs = []") simp_all
  moreover have "slice r n = bs"
    using u assms(1) by (simp add: slice_eq)
  ultimately show "leaf_read e n f r = Inr (x, advance (length bs) r)"
    using assms by (simp add: leaf_read_def)
qed

lemma at_slice: "rpos r + n \<le> rsize r \<Longrightarrow> i < n \<Longrightarrow> at r i = slice r n ! i"
  by (simp add: at_def slice_def rsize_def)

lemma read_u8_leaf: "read_u8 = leaf_read (OutOfRange ''SV2 parse U8 out of range'') 1 (\<lambda>bs. bs ! 0)"
  by (rule ext) (auto simp: read_u8_def leaf_read_def at_slice [where n = 1] not_less)

lemma read_u16_leaf:
  "read_u16 = leaf_read (OutOfRange ''SV2 parse U16 out of range'') 2
     (\<lambda>bs. ucast (bs ! 0) OR push_bit 8 (ucast (bs ! 1)))"
  by (rule ext) (auto simp: read_u16_def leaf_read_def at_slice [where n = 2] not_less)

lemma read_u24_leaf:
  "read_u24 = leaf_read (OutOfRange ''SV2 parse U24 out of range'') 3
     (\<lambda>bs. (ucast (bs ! 0) OR push_bit 8 (ucast (bs ! 1))) OR push_bit 16 (ucast (bs ! 2)))"
  by (rule ext) (auto simp: read_u24_def leaf_read_def at_slice [where n = 3] not_less)

lemma read_u32_leaf:
  "read_u32 = leaf_read (OutOfRange ''SV2 parse U32 out of range'') 4
     (\<lambda>bs. ((ucast (bs ! 0) OR push_bit 8 (ucast (bs ! 1))) OR push_bit 16 (ucast (bs ! 2)))
        OR push_bit 24 (ucast (bs ! 3)))"
  by (rule ext) (auto simp: read_u32_def leaf_read_def at_slice [where n = 4] not_less)

lemma read_u64_leaf:
  "read_u64 = leaf_read (OutOfRange ''SV2 parse U64 out of range'') 8
     (\<lambda>bs. fold (\<lambda>i val. val OR push_bit (i * 8) (ucast (bs ! i))) [0..<8] 0)"
proof
  fix r
  have "fold (\<lambda>i val. val OR push_bit (i * 8) (ucast (at r i))) [0..<8] (0 :: u64) =
      fold (\<lambda>i val. val OR push_bit (i * 8) (ucast (slice r 8 ! i))) [0..<8] 0"
    if "rpos r + 8 \<le> rsize r"
    using that by (intro fold_cong) (simp_all add: at_slice [where n = 8])
  then show "read_u64 r = leaf_read (OutOfRange ''SV2 parse U64 out of range'') 8
     (\<lambda>bs. fold (\<lambda>i val. val OR push_bit (i * 8) (ucast (bs ! i))) [0..<8] 0) r"
    by (simp add: read_u64_def leaf_read_def)
qed

lemma read_u256_leaf: "read_u256 = leaf_read (OutOfRange ''SV2 parse U256 out of range'') 32 (\<lambda>bs. bs)"
  by (rule ext) (simp add: read_u256_def leaf_read_def)

lemma read_raw_leaf: "read_raw msg n = leaf_read (OutOfRange msg) n (\<lambda>bs. bs)"
  by (rule ext) (simp add: read_raw_def leaf_read_def)

lemmas read_leaves =
  read_u8_leaf read_u16_leaf read_u24_leaf read_u32_leaf read_u64_leaf read_u256_leaf read_raw_leaf

text \<open>Framing of every accessor; the rules compose by \<open>framed_bind\<close>.\<close>

lemma framed_fields [intro]:
  "framed read_u8" "framed read_u16" "framed read_u24" "framed read_u32" "framed read_u64"
  "framed read_u256" "framed (read_raw msg n)"
  by (auto simp: read_leaves)

lemma framed_read_n_u256: "framed (read_n_u256 n)"
  by (induction n) auto

lemma framed_var_fields [intro]:
  "framed read_bool" "framed read_f32" "framed read_str0_255" "framed read_b0_32"
  "framed read_b0_255" "framed read_b0_64k" "framed read_option_u32" "framed read_seq0_255_u256"
  by (auto simp: read_bool_def read_f32_def read_str0_255_def read_b0_32_def read_b0_255_def
      read_b0_64k_def read_option_u32_def read_seq0_255_u256_def intro!: framed_bind framed_read_n_u256)

text \<open>What each accessor gives back on the bytes of its writer, collected in \<open>reads\<close>.\<close>

named_theorems reads \<open>an accessor on the bytes of the matching write\<close>

lemma reads_u8 [reads]: "reads_as read_u8 [v] v"
  unfolding read_leaves by (rule reads_as_leaf) simp_all

lemma reads_u16 [reads]: "reads_as read_u16 (le_bytes 2 v) v"
  unfolding read_leaves by (rule reads_as_leaf) (simp_all add: le_bytes_nth byte_join)

lemma reads_u24 [reads]: "reads_as read_u24 (le_bytes 3 v) (take_bit 24 v)"
  unfolding read_leaves by (rule reads_as_leaf) (simp_all add: le_bytes_nth byte_join)

lemma reads_u32 [reads]: "reads_as read_u32 (le_bytes 4 v) v"
  unfolding read_leaves by (rule reads_as_leaf) (simp_all add: le_bytes_nth byte_join_u32)

lemma reads_u64 [reads]: "reads_as read_u64 (le_bytes 8 v) v"
  unfolding read_leaves
proof (rule reads_as_leaf)
  have "fold (\<lambda>i val. val OR push_bit (i * 8) (ucast (le_bytes 8 v ! i))) [0..<8] (0 :: u64) =
      fold (\<lambda>i val. val OR push_bit (8 * i) (ucast (ucast (drop_bit (8 * i) v) :: u8))) [0..<8] 0"
    by (rule fold_cong) (simp_all add: le_bytes_nth mult.commute)
  then show "fold (\<lambda>i val. val OR push_bit (i * 8) (ucast (le_bytes 8 v ! i))) [0..<8] 0 = v"
    by (simp only: byte_join_loop) (simp add: take_bit_word_eq_self)
qed simp

lemma reads_u256 [reads]: "length v = 32 \<Longrightarrow> reads_as read_u256 v v"
  unfolding read_leaves by (rule reads_as_leaf) simp_all

lemma reads_raw [reads]: "length v = n \<Longrightarrow> reads_as (read_raw msg n) v v"
  unfolding read_leaves by (rule reads_as_leaf) simp_all

lemma reads_f32 [reads]: "reads_as read_f32 (le_bytes 4 v) v"
  by (simp add: read_f32_def reads_u32)

lemma reads_bool [reads]: "reads_as read_bool [if b then 1 else 0] b"
  unfolding read_bool_def by (rule reads_as_map [OF reads_u8]) simp

text \<open>A one-byte or two-byte length in front of the data it counts.\<close>

lemma reads_len8:
  assumes "length bs = n" and "n < 256" and "reads_as (f (of_nat n)) cs x"
  shows "reads_as (bind_read read_u8 f) (of_nat n # cs) x"
  using reads_as_bind [where f = f, OF reads_u8 assms(3)] by simp

lemma unat_len8: "n < 256 \<Longrightarrow> unat (of_nat n :: u8) = n"
  by (simp add: unat_of_nat)

lemma unat_len16: "n < 65536 \<Longrightarrow> unat (of_nat n :: u16) = n"
  by (simp add: unat_of_nat)

lemma reads_str0_255 [reads]:
  assumes "length v \<le> 255"
  shows "reads_as read_str0_255 (of_nat (length v) # map byte_of_char v) v"
  unfolding read_str0_255_def
proof (rule reads_len8 [OF refl])
  show "reads_as (bind_read (read_raw ''SV2 parse STR0_255 out of range'' (unat (of_nat (length v) :: u8)))
      (\<lambda>bs. return_read (map char_of_byte bs))) (map byte_of_char v) v"
    using assms by (intro reads_as_map [OF reads_raw]) (simp_all add: unat_len8 comp_def)
qed (use assms in simp)

lemma reads_b0_32 [reads]:
  assumes "length v \<le> 32"
  shows "reads_as read_b0_32 (of_nat (length v) # v) v"
  unfolding read_b0_32_def
proof (rule reads_len8 [OF refl])
  have "unat (of_nat (length v) :: u8) = length v"
    using assms by (simp add: unat_len8)
  then have "\<not> (of_nat (length v) :: u8) > 32"
    using assms by (simp add: word_less_nat_alt)
  then show "reads_as (if 32 < (of_nat (length v) :: u8) then \<lambda>r. Inl (RuntimeError ''B0_32 too long'')
       else read_raw ''SV2 parse B0_32 out of range'' (unat (of_nat (length v) :: u8))) v v"
    using assms by (simp add: unat_len8 reads_raw)
qed (use assms in simp)

lemma reads_b0_255 [reads]:
  assumes "length v \<le> 255"
  shows "reads_as read_b0_255 (of_nat (length v) # v) v"
  unfolding read_b0_255_def using assms
  by (intro reads_len8 [OF refl] reads_raw) (simp_all add: unat_len8)

lemma reads_b0_64k [reads]:
  assumes "length v \<le> 65535"
  shows "reads_as read_b0_64k (le_bytes 2 (of_nat (length v) :: u16) @ v) v"
  unfolding read_b0_64k_def using assms
  by (intro reads_as_bind [OF reads_u16] reads_raw) (simp add: unat_len16)

lemma reads_option_u32 [reads]:
  "reads_as read_option_u32 (case v of Some x \<Rightarrow> 1 # le_bytes 4 x | None \<Rightarrow> [0]) v"
proof (cases v)
  case None
  have "reads_as read_option_u32 ([0] @ []) None"
    unfolding read_option_u32_def by (rule reads_as_bind [OF reads_u8]) (simp add: reads_as_return)
  with None show ?thesis by simp
next
  case (Some x)
  have "reads_as read_option_u32 ([1] @ le_bytes 4 x) (Some x)"
    unfolding read_option_u32_def
    by (rule reads_as_bind [OF reads_u8]) (simp add: reads_as_map [OF reads_u32])
  with Some show ?thesis by simp
qed

lemma reads_n_u256:
  "\<forall>v \<in> set vs. length v = 32 \<Longrightarrow> reads_as (read_n_u256 (length vs)) (concat vs) vs"
proof (induction vs)
  case Nil
  show ?case by (simp add: reads_as_return)
next
  case (Cons v vs)
  then show ?case
    by (auto intro!: reads_as_bind [OF reads_u256] reads_as_map [where g = "\<lambda>vs. v # vs"])
qed

lemma reads_seq0_255_u256 [reads]:
  assumes "length vs \<le> 255" and "\<forall>v \<in> set vs. length v = 32"
  shows "reads_as read_seq0_255_u256 (of_nat (length vs) # concat vs) vs"
  unfolding read_seq0_255_u256_def
  using assms reads_n_u256 [of vs] by (intro reads_len8 [OF refl]) (simp_all add: unat_len8)

section \<open>Interpretations: every field type keeps the contract\<close>

lemma enc_insert_end: "(\<And>w. put x w = insert_end bs w) \<Longrightarrow> enc put x = bs"
  by (simp add: enc_def)

text \<open>The bytes of each field, as rewrite rules.\<close>

lemma enc_fields [simp]:
  "enc write_u8 a = [a]"
  "enc write_bool b = [if b then 1 else 0]"
  "enc write_u16 c = le_bytes 2 c"
  "enc write_u24 d = le_bytes 3 d"
  "enc write_u32 d = le_bytes 4 d"
  "enc write_u64 e = le_bytes 8 e"
  "enc write_u256 v = v"
  "enc write_f32 d = le_bytes 4 d"
  "length s \<le> 255 \<Longrightarrow> enc write_str0_255 s = of_nat (length s) # map byte_of_char s"
  "length v \<le> 32 \<Longrightarrow> enc write_b0_32 v = of_nat (length v) # v"
  "length v \<le> 255 \<Longrightarrow> enc write_b0_255 v = of_nat (length v) # v"
  "length v \<le> 65535 \<Longrightarrow> enc write_b0_64k v = le_bytes 2 (of_nat (length v) :: u16) @ v"
  "enc write_option_u32 x = (case x of Some y \<Rightarrow> 1 # le_bytes 4 y | None \<Rightarrow> [0])"
  "length vs \<le> 255 \<Longrightarrow> enc write_seq0_255_u256 vs = of_nat (length vs) # concat vs"
  by (rule enc_insert_end, simp add: write_eqs min_def)+

lemma appending_fields [intro]:
  "appending write_u8" "appending write_bool" "appending write_u16" "appending write_u24"
  "appending write_u32" "appending write_u64" "appending write_u256" "appending write_f32"
  "appending write_str0_255" "appending write_b0_32" "appending write_b0_255"
  "appending write_b0_64k" "appending write_option_u32" "appending write_seq0_255_u256"
  by (rule appendingI, rule write_eqs)+

lemmas codec_intros = appending_fields framed_fields framed_var_fields

interpretation u8: wire_codec write_u8 read_u8 "\<lambda>_. True"
  by unfold_locales (auto intro: codec_intros reads)

interpretation bool: wire_codec write_bool read_bool "\<lambda>_. True"
  using reads_bool [of True] reads_bool [of False] by unfold_locales (auto intro: codec_intros)

interpretation u16: wire_codec write_u16 read_u16 "\<lambda>_. True"
  by unfold_locales (auto intro: codec_intros reads)

interpretation u24: wire_codec write_u24 read_u24 "\<lambda>v. unat v < 2 ^ 24"
proof unfold_locales
  fix v :: u32
  assume "unat v < 2 ^ 24"
  then have "unat (take_bit 24 v) = unat v"
    by (simp add: unsigned_take_bit_eq take_bit_nat_eq_self)
  then have "take_bit 24 v = v" by (rule unsigned_word_eqI)
  then show "reads_as read_u24 (enc write_u24 v) v"
    using reads_u24 [of v] by simp
qed (auto intro: codec_intros)

interpretation u32: wire_codec write_u32 read_u32 "\<lambda>_. True"
  by unfold_locales (auto intro: codec_intros reads)

interpretation u64: wire_codec write_u64 read_u64 "\<lambda>_. True"
  by unfold_locales (auto intro: codec_intros reads)

interpretation u256: wire_codec write_u256 read_u256 "\<lambda>v. length v = 32"
  by unfold_locales (auto intro: codec_intros reads)

interpretation f32: wire_codec write_f32 read_f32 "\<lambda>_. True"
  by unfold_locales (auto intro: codec_intros reads)

interpretation str0_255: wire_codec write_str0_255 read_str0_255 "\<lambda>v. length v \<le> 255"
  by unfold_locales (auto intro: codec_intros reads)

interpretation b0_32: wire_codec write_b0_32 read_b0_32 "\<lambda>v. length v \<le> 32"
  by unfold_locales (auto intro: codec_intros reads)

interpretation b0_255: wire_codec write_b0_255 read_b0_255 "\<lambda>v. length v \<le> 255"
  by unfold_locales (auto intro: codec_intros reads)

interpretation b0_64k: wire_codec write_b0_64k read_b0_64k "\<lambda>v. length v \<le> 65535"
  by unfold_locales (auto intro: codec_intros reads)

interpretation option_u32: wire_codec write_option_u32 read_option_u32 "\<lambda>_. True"
  by unfold_locales (auto intro: codec_intros reads simp del: option.case)

interpretation seq0_255_u256: wire_codec write_seq0_255_u256 read_seq0_255_u256
  "\<lambda>vs. length vs \<le> 255 \<and> (\<forall>v \<in> set vs. length v = 32)"
  by unfold_locales (auto intro: codec_intros reads)

end
