(* ===== verification/Sv2Messages.thy ===== *)
theory Sv2Messages
  imports Sv2Codec
begin

text \<open>
  \<open>src/sv2_messages.hpp\<close>: the Stratum V2 message types, one record per \<open>struct\<close> with the
  fields in the order of the code, its \<open>serialize\<close> as a chain of writes and its \<open>deserialize\<close>
  as a chain of reads; the message codes, the channel-message bit and the frame that
  \<open>wrap_message\<close> puts around a payload.
\<close>

section \<open>Message codes\<close>

named_theorems msg_codes \<open>the numeric message codes\<close>

definition MSG_SETUP_CONNECTION :: u8 where [msg_codes]: "MSG_SETUP_CONNECTION = 0x00"
definition MSG_SETUP_CONNECTION_SUCCESS :: u8 where [msg_codes]: "MSG_SETUP_CONNECTION_SUCCESS = 0x01"
definition MSG_SETUP_CONNECTION_ERROR :: u8 where [msg_codes]: "MSG_SETUP_CONNECTION_ERROR = 0x02"
definition MSG_OPEN_STANDARD_MINING_CHANNEL :: u8 where [msg_codes]: "MSG_OPEN_STANDARD_MINING_CHANNEL = 0x10"
definition MSG_OPEN_STANDARD_MINING_CHANNEL_SUCCESS :: u8 where [msg_codes]: "MSG_OPEN_STANDARD_MINING_CHANNEL_SUCCESS = 0x11"
definition MSG_OPEN_MINING_CHANNEL_ERROR :: u8 where [msg_codes]: "MSG_OPEN_MINING_CHANNEL_ERROR = 0x12"
definition MSG_OPEN_EXTENDED_MINING_CHANNEL :: u8 where [msg_codes]: "MSG_OPEN_EXTENDED_MINING_CHANNEL = 0x13"
definition MSG_OPEN_EXTENDED_MINING_CHANNEL_SUCCESS :: u8 where [msg_codes]: "MSG_OPEN_EXTENDED_MINING_CHANNEL_SUCCESS = 0x14"
definition MSG_UPDATE_CHANNEL :: u8 where [msg_codes]: "MSG_UPDATE_CHANNEL = 0x16"
definition MSG_UPDATE_CHANNEL_ERROR :: u8 where [msg_codes]: "MSG_UPDATE_CHANNEL_ERROR = 0x17"
definition MSG_CLOSE_CHANNEL :: u8 where [msg_codes]: "MSG_CLOSE_CHANNEL = 0x18"
definition MSG_SET_EXTRANONCE_PREFIX :: u8 where [msg_codes]: "MSG_SET_EXTRANONCE_PREFIX = 0x19"
definition MSG_NEW_MINING_JOB :: u8 where [msg_codes]: "MSG_NEW_MINING_JOB = 0x15"
definition MSG_NEW_EXTENDED_MINING_JOB :: u8 where [msg_codes]: "MSG_NEW_EXTENDED_MINING_JOB = 0x1f"
definition MSG_SUBMIT_SHARES_STANDARD :: u8 where [msg_codes]: "MSG_SUBMIT_SHARES_STANDARD = 0x1a"
definition MSG_SUBMIT_SHARES_EXTENDED :: u8 where [msg_codes]: "MSG_SUBMIT_SHARES_EXTENDED = 0x1b"
definition MSG_SUBMIT_SHARES_SUCCESS :: u8 where [msg_codes]: "MSG_SUBMIT_SHARES_SUCCESS = 0x1c"
definition MSG_SUBMIT_SHARES_ERROR :: u8 where [msg_codes]: "MSG_SUBMIT_SHARES_ERROR = 0x1d"
definition MSG_SET_NEW_PREV_HASH :: u8 where [msg_codes]: "MSG_SET_NEW_PREV_HASH = 0x20"
definition MSG_SET_TARGET :: u8 where [msg_codes]: "MSG_SET_TARGET = 0x21"
definition MSG_SET_CUSTOM_MINING_JOB :: u8 where [msg_codes]: "MSG_SET_CUSTOM_MINING_JOB = 0x22"
definition MSG_SET_CUSTOM_MINING_JOB_SUCCESS :: u8 where [msg_codes]: "MSG_SET_CUSTOM_MINING_JOB_SUCCESS = 0x23"
definition MSG_SET_CUSTOM_MINING_JOB_ERROR :: u8 where [msg_codes]: "MSG_SET_CUSTOM_MINING_JOB_ERROR = 0x24"

definition EXT_COMMON :: u16 where "EXT_COMMON = 0"

definition CHANNEL_MSG_BIT :: u16 where "CHANNEL_MSG_BIT = 0x8000"

definition is_channel_msg :: "u8 \<Rightarrow> bool" where
  "is_channel_msg msg_type \<longleftrightarrow>
     List.member
       [MSG_UPDATE_CHANNEL, MSG_UPDATE_CHANNEL_ERROR, MSG_CLOSE_CHANNEL, MSG_SET_EXTRANONCE_PREFIX,
        MSG_SUBMIT_SHARES_STANDARD, MSG_SUBMIT_SHARES_EXTENDED, MSG_SUBMIT_SHARES_SUCCESS,
        MSG_SUBMIT_SHARES_ERROR, MSG_NEW_MINING_JOB, MSG_NEW_EXTENDED_MINING_JOB,
        MSG_SET_NEW_PREV_HASH, MSG_SET_TARGET] msg_type"

definition FLAG_REQUIRES_STANDARD_JOBS :: u32 where "FLAG_REQUIRES_STANDARD_JOBS = push_bit 0 1"
definition FLAG_REQUIRES_WORK_SELECTION :: u32 where "FLAG_REQUIRES_WORK_SELECTION = push_bit 1 1"
definition FLAG_REQUIRES_VERSION_ROLLING :: u32 where "FLAG_REQUIRES_VERSION_ROLLING = push_bit 2 1"
definition SUCCESS_FLAG_REQUIRES_FIXED_VERSION :: u32 where
  "SUCCESS_FLAG_REQUIRES_FIXED_VERSION = push_bit 0 1"
definition SUCCESS_FLAG_REQUIRES_EXTENDED_CHANNELS :: u32 where
  "SUCCESS_FLAG_REQUIRES_EXTENDED_CHANNELS = push_bit 1 1"

definition MAX_MSG_LENGTH :: u32 where "MAX_MSG_LENGTH = 65535 - 16"

definition frame_length_ok :: "u32 \<Rightarrow> bool" where
  "frame_length_ok msg_length \<longleftrightarrow> msg_length \<le> MAX_MSG_LENGTH"

section \<open>Messages\<close>

subsection \<open>Header\<close>

record header =
  hdr_extension_type :: u16
  hdr_msg_type :: u8
  hdr_msg_length :: u32

definition header_serialize :: "header \<Rightarrow> writer \<Rightarrow> writer" where
  "header_serialize m w =
     (let w = write_u16 (hdr_extension_type m) w;
          w = write_u8 (hdr_msg_type m) w;
          w = write_u24 (hdr_msg_length m) w
      in w)"

definition header_deserialize :: "header read" where
  "header_deserialize =
     bind_read read_u16 (\<lambda>extension_type.
     bind_read read_u8 (\<lambda>msg_type.
     bind_read read_u24 (\<lambda>msg_length.
     return_read \<lparr>hdr_extension_type = extension_type, hdr_msg_type = msg_type, 
       hdr_msg_length = msg_length\<rparr>)))"

subsection \<open>SetupConnection\<close>

record setup_connection =
  sc_protocol :: u8
  sc_min_version :: u16
  sc_max_version :: u16
  sc_flags :: u32
  sc_endpoint_host :: string
  sc_endpoint_port :: u16
  sc_vendor :: string
  sc_hardware_version :: string
  sc_firmware :: string
  sc_device_id :: string

definition setup_connection_deserialize :: "setup_connection read" where
  "setup_connection_deserialize =
     bind_read read_u8 (\<lambda>protocol.
     bind_read read_u16 (\<lambda>min_version.
     bind_read read_u16 (\<lambda>max_version.
     bind_read read_u32 (\<lambda>flags.
     bind_read read_str0_255 (\<lambda>endpoint_host.
     bind_read read_u16 (\<lambda>endpoint_port.
     bind_read read_str0_255 (\<lambda>vendor.
     bind_read read_str0_255 (\<lambda>hardware_version.
     bind_read read_str0_255 (\<lambda>firmware.
     bind_read read_str0_255 (\<lambda>device_id.
     return_read \<lparr>sc_protocol = protocol, sc_min_version = min_version, 
       sc_max_version = max_version, sc_flags = flags, 
       sc_endpoint_host = endpoint_host, sc_endpoint_port = endpoint_port, 
       sc_vendor = vendor, sc_hardware_version = hardware_version, 
       sc_firmware = firmware, sc_device_id = device_id\<rparr>))))))))))"

subsection \<open>SetupConnectionSuccess\<close>

record setup_connection_success =
  scs_used_version :: u16
  scs_flags :: u32

definition setup_connection_success_serialize :: "setup_connection_success \<Rightarrow> writer \<Rightarrow> writer" where
  "setup_connection_success_serialize m w =
     (let w = write_u16 (scs_used_version m) w;
          w = write_u32 (scs_flags m) w
      in w)"

subsection \<open>SetupConnectionError\<close>

record setup_connection_error =
  sce_error_code :: string
  sce_flags :: u32

definition setup_connection_error_serialize :: "setup_connection_error \<Rightarrow> writer \<Rightarrow> writer" where
  "setup_connection_error_serialize m w =
     (let w = write_str0_255 (sce_error_code m) w;
          w = write_u32 (sce_flags m) w
      in w)"

subsection \<open>OpenStandardMiningChannel\<close>

record open_standard_mining_channel =
  osc_request_id :: u32
  osc_user_identity :: string
  osc_nominal_hash_rate :: f32
  osc_max_target :: bytes

definition open_standard_mining_channel_deserialize :: "open_standard_mining_channel read" where
  "open_standard_mining_channel_deserialize =
     bind_read read_u32 (\<lambda>request_id.
     bind_read read_str0_255 (\<lambda>user_identity.
     bind_read read_f32 (\<lambda>nominal_hash_rate.
     bind_read read_u256 (\<lambda>max_target.
     return_read \<lparr>osc_request_id = request_id, osc_user_identity = user_identity, 
       osc_nominal_hash_rate = nominal_hash_rate, osc_max_target = max_target\<rparr>))))"

subsection \<open>OpenStandardMiningChannelSuccess\<close>

record open_standard_mining_channel_success =
  oscs_request_id :: u32
  oscs_channel_id :: u32
  oscs_target :: bytes
  oscs_extranonce_prefix :: bytes
  oscs_group_channel_id :: u32

definition open_standard_mining_channel_success_serialize :: "open_standard_mining_channel_success \<Rightarrow> writer \<Rightarrow> writer" where
  "open_standard_mining_channel_success_serialize m w =
     (let w = write_u32 (oscs_request_id m) w;
          w = write_u32 (oscs_channel_id m) w;
          w = write_u256 (oscs_target m) w;
          w = write_b0_32 (oscs_extranonce_prefix m) w;
          w = write_u32 (oscs_group_channel_id m) w
      in w)"

subsection \<open>OpenMiningChannelError\<close>

record open_mining_channel_error =
  oce_request_id :: u32
  oce_error_code :: string

definition open_mining_channel_error_serialize :: "open_mining_channel_error \<Rightarrow> writer \<Rightarrow> writer" where
  "open_mining_channel_error_serialize m w =
     (let w = write_u32 (oce_request_id m) w;
          w = write_str0_255 (oce_error_code m) w
      in w)"

subsection \<open>OpenExtendedMiningChannel\<close>

record open_extended_mining_channel =
  oec_request_id :: u32
  oec_user_identity :: string
  oec_nominal_hash_rate :: f32
  oec_max_target :: bytes
  oec_min_extranonce_size :: u16

definition open_extended_mining_channel_deserialize :: "open_extended_mining_channel read" where
  "open_extended_mining_channel_deserialize =
     bind_read read_u32 (\<lambda>request_id.
     bind_read read_str0_255 (\<lambda>user_identity.
     bind_read read_f32 (\<lambda>nominal_hash_rate.
     bind_read read_u256 (\<lambda>max_target.
     bind_read read_u16 (\<lambda>min_extranonce_size.
     return_read \<lparr>oec_request_id = request_id, oec_user_identity = user_identity, 
       oec_nominal_hash_rate = nominal_hash_rate, oec_max_target = max_target, 
       oec_min_extranonce_size = min_extranonce_size\<rparr>)))))"

subsection \<open>OpenExtendedMiningChannelSuccess\<close>

record open_extended_mining_channel_success =
  oecs_request_id :: u32
  oecs_channel_id :: u32
  oecs_target :: bytes
  oecs_extranonce_size :: u16
  oecs_extranonce_prefix :: bytes
  oecs_group_channel_id :: u32

definition open_extended_mining_channel_success_serialize :: "open_extended_mining_channel_success \<Rightarrow> writer \<Rightarrow> writer" where
  "open_extended_mining_channel_success_serialize m w =
     (let w = write_u32 (oecs_request_id m) w;
          w = write_u32 (oecs_channel_id m) w;
          w = write_u256 (oecs_target m) w;
          w = write_u16 (oecs_extranonce_size m) w;
          w = write_b0_32 (oecs_extranonce_prefix m) w;
          w = write_u32 (oecs_group_channel_id m) w
      in w)"

subsection \<open>NewExtendedMiningJob\<close>

record new_extended_mining_job =
  nej_channel_id :: u32
  nej_job_id :: u32
  nej_min_ntime :: "u32 option"
  nej_version :: u32
  nej_version_rolling_allowed :: bool
  nej_merkle_path :: "bytes list"
  nej_coinbase_tx_prefix :: bytes
  nej_coinbase_tx_suffix :: bytes

definition new_extended_mining_job_serialize :: "new_extended_mining_job \<Rightarrow> writer \<Rightarrow> writer" where
  "new_extended_mining_job_serialize m w =
     (let w = write_u32 (nej_channel_id m) w;
          w = write_u32 (nej_job_id m) w;
          w = write_option_u32 (nej_min_ntime m) w;
          w = write_u32 (nej_version m) w;
          w = write_bool (nej_version_rolling_allowed m) w;
          w = write_seq0_255_u256 (nej_merkle_path m) w;
          w = write_b0_64k (nej_coinbase_tx_prefix m) w;
          w = write_b0_64k (nej_coinbase_tx_suffix m) w
      in w)"

subsection \<open>UpdateChannel\<close>

record update_channel =
  uc_channel_id :: u32
  uc_nominal_hash_rate :: f32
  uc_maximum_target :: bytes

definition update_channel_deserialize :: "update_channel read" where
  "update_channel_deserialize =
     bind_read read_u32 (\<lambda>channel_id.
     bind_read read_f32 (\<lambda>nominal_hash_rate.
     bind_read read_u256 (\<lambda>maximum_target.
     return_read \<lparr>uc_channel_id = channel_id, uc_nominal_hash_rate = nominal_hash_rate, 
       uc_maximum_target = maximum_target\<rparr>)))"

subsection \<open>CloseChannel\<close>

record close_channel =
  cc_channel_id :: u32
  cc_reason_code :: string

definition close_channel_deserialize :: "close_channel read" where
  "close_channel_deserialize =
     bind_read read_u32 (\<lambda>channel_id.
     bind_read read_str0_255 (\<lambda>reason_code.
     return_read \<lparr>cc_channel_id = channel_id, cc_reason_code = reason_code\<rparr>))"

subsection \<open>NewMiningJob\<close>

record new_mining_job =
  nmj_channel_id :: u32
  nmj_job_id :: u32
  nmj_min_ntime :: "u32 option"
  nmj_version :: u32
  nmj_merkle_root :: bytes

definition new_mining_job_serialize :: "new_mining_job \<Rightarrow> writer \<Rightarrow> writer" where
  "new_mining_job_serialize m w =
     (let w = write_u32 (nmj_channel_id m) w;
          w = write_u32 (nmj_job_id m) w;
          w = write_option_u32 (nmj_min_ntime m) w;
          w = write_u32 (nmj_version m) w;
          w = write_b0_32 (nmj_merkle_root m) w
      in w)"

subsection \<open>SubmitSharesStandard\<close>

record submit_shares_standard =
  sss_channel_id :: u32
  sss_sequence_number :: u32
  sss_job_id :: u32
  sss_nonce :: u32
  sss_ntime :: u32
  sss_version :: u32

definition submit_shares_standard_deserialize :: "submit_shares_standard read" where
  "submit_shares_standard_deserialize =
     bind_read read_u32 (\<lambda>channel_id.
     bind_read read_u32 (\<lambda>sequence_number.
     bind_read read_u32 (\<lambda>job_id.
     bind_read read_u32 (\<lambda>nonce.
     bind_read read_u32 (\<lambda>ntime.
     bind_read read_u32 (\<lambda>version.
     return_read \<lparr>sss_channel_id = channel_id, sss_sequence_number = sequence_number, 
       sss_job_id = job_id, sss_nonce = nonce, 
       sss_ntime = ntime, sss_version = version\<rparr>))))))"

subsection \<open>SubmitSharesExtended\<close>

record submit_shares_extended =
  sse_channel_id :: u32
  sse_sequence_number :: u32
  sse_job_id :: u32
  sse_nonce :: u32
  sse_ntime :: u32
  sse_version :: u32
  sse_extranonce :: bytes

definition submit_shares_extended_deserialize :: "submit_shares_extended read" where
  "submit_shares_extended_deserialize =
     bind_read read_u32 (\<lambda>channel_id.
     bind_read read_u32 (\<lambda>sequence_number.
     bind_read read_u32 (\<lambda>job_id.
     bind_read read_u32 (\<lambda>nonce.
     bind_read read_u32 (\<lambda>ntime.
     bind_read read_u32 (\<lambda>version.
     bind_read read_b0_32 (\<lambda>extranonce.
     return_read \<lparr>sse_channel_id = channel_id, sse_sequence_number = sequence_number, 
       sse_job_id = job_id, sse_nonce = nonce, 
       sse_ntime = ntime, sse_version = version, 
       sse_extranonce = extranonce\<rparr>)))))))"

subsection \<open>SubmitSharesSuccess\<close>

record submit_shares_success =
  ssok_channel_id :: u32
  ssok_last_sequence_number :: u32
  ssok_new_submits_accepted_count :: u32
  ssok_new_shares_sum :: u64

definition submit_shares_success_serialize :: "submit_shares_success \<Rightarrow> writer \<Rightarrow> writer" where
  "submit_shares_success_serialize m w =
     (let w = write_u32 (ssok_channel_id m) w;
          w = write_u32 (ssok_last_sequence_number m) w;
          w = write_u32 (ssok_new_submits_accepted_count m) w;
          w = write_u64 (ssok_new_shares_sum m) w
      in w)"

subsection \<open>SubmitSharesError\<close>

record submit_shares_error =
  sserr_channel_id :: u32
  sserr_sequence_number :: u32
  sserr_error_code :: string

definition submit_shares_error_serialize :: "submit_shares_error \<Rightarrow> writer \<Rightarrow> writer" where
  "submit_shares_error_serialize m w =
     (let w = write_u32 (sserr_channel_id m) w;
          w = write_u32 (sserr_sequence_number m) w;
          w = write_str0_255 (sserr_error_code m) w
      in w)"

subsection \<open>SetTarget\<close>

record set_target =
  st_channel_id :: u32
  st_maximum_target :: bytes

definition set_target_serialize :: "set_target \<Rightarrow> writer \<Rightarrow> writer" where
  "set_target_serialize m w =
     (let w = write_u32 (st_channel_id m) w;
          w = write_u256 (st_maximum_target m) w
      in w)"

subsection \<open>SetNewPrevHash\<close>

record set_new_prev_hash =
  snp_channel_id :: u32
  snp_job_id :: u32
  snp_prev_hash :: bytes
  snp_min_ntime :: u32
  snp_nbits :: u32

definition set_new_prev_hash_serialize :: "set_new_prev_hash \<Rightarrow> writer \<Rightarrow> writer" where
  "set_new_prev_hash_serialize m w =
     (let w = write_u32 (snp_channel_id m) w;
          w = write_u32 (snp_job_id m) w;
          w = write_u256 (snp_prev_hash m) w;
          w = write_u32 (snp_min_ntime m) w;
          w = write_u32 (snp_nbits m) w
      in w)"

subsection \<open>SetCustomMiningJob\<close>

record set_custom_mining_job =
  scj_channel_id :: u32
  scj_request_id :: u32
  scj_mining_job_token :: bytes
  scj_version :: u32
  scj_prev_hash :: bytes
  scj_min_ntime :: u32
  scj_nbits :: u32
  scj_coinbase_tx_version :: u32
  scj_coinbase_prefix :: bytes
  scj_coinbase_tx_input_nSequence :: u32
  scj_coinbase_tx_outputs :: bytes
  scj_coinbase_tx_locktime :: u32
  scj_merkle_path :: "bytes list"

definition set_custom_mining_job_deserialize :: "set_custom_mining_job read" where
  "set_custom_mining_job_deserialize =
     bind_read read_u32 (\<lambda>channel_id.
     bind_read read_u32 (\<lambda>request_id.
     bind_read read_b0_255 (\<lambda>mining_job_token.
     bind_read read_u32 (\<lambda>version.
     bind_read read_u256 (\<lambda>prev_hash.
     bind_read read_u32 (\<lambda>min_ntime.
     bind_read read_u32 (\<lambda>nbits.
     bind_read read_u32 (\<lambda>coinbase_tx_version.
     bind_read read_b0_255 (\<lambda>coinbase_prefix.
     bind_read read_u32 (\<lambda>coinbase_tx_input_nSequence.
     bind_read read_b0_64k (\<lambda>coinbase_tx_outputs.
     bind_read read_u32 (\<lambda>coinbase_tx_locktime.
     bind_read read_seq0_255_u256 (\<lambda>merkle_path.
     return_read \<lparr>scj_channel_id = channel_id, scj_request_id = request_id, 
       scj_mining_job_token = mining_job_token, scj_version = version, 
       scj_prev_hash = prev_hash, scj_min_ntime = min_ntime, 
       scj_nbits = nbits, scj_coinbase_tx_version = coinbase_tx_version, 
       scj_coinbase_prefix = coinbase_prefix, scj_coinbase_tx_input_nSequence = coinbase_tx_input_nSequence, 
       scj_coinbase_tx_outputs = coinbase_tx_outputs, scj_coinbase_tx_locktime = coinbase_tx_locktime, 
       scj_merkle_path = merkle_path\<rparr>)))))))))))))"

subsection \<open>SetCustomMiningJobSuccess\<close>

record set_custom_mining_job_success =
  scjs_channel_id :: u32
  scjs_request_id :: u32
  scjs_job_id :: u32

definition set_custom_mining_job_success_serialize :: "set_custom_mining_job_success \<Rightarrow> writer \<Rightarrow> writer" where
  "set_custom_mining_job_success_serialize m w =
     (let w = write_u32 (scjs_channel_id m) w;
          w = write_u32 (scjs_request_id m) w;
          w = write_u32 (scjs_job_id m) w
      in w)"

subsection \<open>SetCustomMiningJobError\<close>

record set_custom_mining_job_error =
  scje_channel_id :: u32
  scje_request_id :: u32
  scje_error_code :: string

definition set_custom_mining_job_error_serialize :: "set_custom_mining_job_error \<Rightarrow> writer \<Rightarrow> writer" where
  "set_custom_mining_job_error_serialize m w =
     (let w = write_u32 (scje_channel_id m) w;
          w = write_u32 (scje_request_id m) w;
          w = write_str0_255 (scje_error_code m) w
      in w)"

section \<open>Frames\<close>

definition wrap_message :: "u16 \<Rightarrow> u8 \<Rightarrow> writer \<Rightarrow> bytes" where
  "wrap_message ext_type msg_type payload =
     (let h = \<lparr>hdr_extension_type =
                 (if is_channel_msg msg_type then ext_type OR CHANNEL_MSG_BIT else ext_type),
               hdr_msg_type = msg_type,
               hdr_msg_length = of_nat (length (wbuf payload))\<rparr>;
          w = header_serialize h new_writer
      in wbuf (insert_end (wbuf payload) w))"

end
