(* ===== verification/Sv2Frames.thy ===== *)
theory Sv2Frames
  imports Sv2Messages
begin

text \<open>
  Facts on the messages of \<open>Sv2Messages\<close> that both ends of a connection rest on: the header keeps
  the contract of a wire codec, \<open>wrap_message\<close> puts a header in front of its payload that a reader
  gets back, and every \<open>deserialize\<close> of the pool depends only on the bytes it consumed. The rules
  \<open>chain_enc\<close> turn a chain of writes into the concatenation of its encoded fields.
\<close>

section \<open>Chains of writes\<close>

lemma appending_enc: "appending put \<Longrightarrow> put x w = insert_end (enc put x) w"
  by (simp add: appending_def)

lemmas field_appends = appending_fields [THEN appending_enc]

lemma enc_chain: "(\<And>w. put x w = insert_end bs w) \<Longrightarrow> enc put x = bs"
  by (rule enc_insert_end)

text \<open>
  A chain of writes of appending fields is one append of their encodings; rewriting with
  \<open>chain_simps\<close> gives it, right-associated the way \<open>reads_as_bind\<close> consumes it.
\<close>

lemmas chain_simps = Let_def field_appends insert_end_insert_end append_assoc

lemmas field_reads =
  u8.get_put [OF TrueI] bool.get_put [OF TrueI] u16.get_put [OF TrueI] u24.get_put
  u32.get_put [OF TrueI] u64.get_put [OF TrueI] u256.get_put f32.get_put [OF TrueI]
  str0_255.get_put b0_32.get_put b0_255.get_put b0_64k.get_put option_u32.get_put [OF TrueI]
  seq0_255_u256.get_put

section \<open>The frame header\<close>

definition header_valid :: "header \<Rightarrow> bool" where
  "header_valid h \<longleftrightarrow> unat (hdr_msg_length h) < 2 ^ 24"

lemma enc_header:
  "enc header_serialize h =
     enc write_u16 (hdr_extension_type h) @ enc write_u8 (hdr_msg_type h) @
     enc write_u24 (hdr_msg_length h)"
  by (rule enc_chain) (simp only: header_serialize_def chain_simps)

lemma length_enc_header [simp]: "length (enc header_serialize h) = 6"
  by (simp add: enc_header)

interpretation header: wire_codec header_serialize header_deserialize header_valid
proof unfold_locales
  show "appending header_serialize"
    by (rule appendingI) (simp only: header_serialize_def chain_simps)
  show "framed header_deserialize"
    by (auto simp: header_deserialize_def intro!: codec_intros)
  show "reads_as header_deserialize (enc header_serialize h) h" if "header_valid h" for h
    unfolding header_deserialize_def enc_header
    by (rule reads_as_bind reads_as_map field_reads |
        use that in \<open>simp add: header_valid_def\<close>)+
qed

section \<open>Frames\<close>

definition frame_header :: "u16 \<Rightarrow> u8 \<Rightarrow> bytes \<Rightarrow> header" where
  "frame_header e t p =
     \<lparr>hdr_extension_type = (if is_channel_msg t then e OR CHANNEL_MSG_BIT else e),
      hdr_msg_type = t, hdr_msg_length = of_nat (length p)\<rparr>"

lemma wrap_message_eq:
  "wrap_message e t w = enc header_serialize (frame_header e t (wbuf w)) @ wbuf w"
  by (simp add: wrap_message_def frame_header_def enc_def)

lemma frame_header_length:
  "length p \<le> 65519 \<Longrightarrow> unat (hdr_msg_length (frame_header e t p)) = length p"
  by (simp add: frame_header_def unat_of_nat)

lemma frame_header_valid: "length p \<le> 65519 \<Longrightarrow> header_valid (frame_header e t p)"
  by (simp add: header_valid_def frame_header_length)

lemma frame_header_ok: "length p \<le> 65519 \<Longrightarrow> frame_length_ok (hdr_msg_length (frame_header e t p))"
  by (simp add: frame_length_ok_def MAX_MSG_LENGTH_def word_le_nat_alt frame_header_length)

lemma frame_header_type [simp]: "hdr_msg_type (frame_header e t p) = t"
  by (simp add: frame_header_def)

text \<open>Channel messages carry the channel bit, the others do not, and the receiver sees which.\<close>

lemma channel_bit:
  "hdr_extension_type (frame_header EXT_COMMON t p) AND CHANNEL_MSG_BIT \<noteq> 0 \<longleftrightarrow> is_channel_msg t"
  by (simp add: frame_header_def EXT_COMMON_def CHANNEL_MSG_BIT_def)

section \<open>The pool's readers\<close>

lemma framed_messages [intro]:
  "framed setup_connection_deserialize"
  "framed open_standard_mining_channel_deserialize"
  "framed open_extended_mining_channel_deserialize"
  "framed update_channel_deserialize"
  "framed close_channel_deserialize"
  "framed submit_shares_standard_deserialize"
  "framed submit_shares_extended_deserialize"
  "framed set_custom_mining_job_deserialize"
  unfolding setup_connection_deserialize_def open_standard_mining_channel_deserialize_def
    open_extended_mining_channel_deserialize_def update_channel_deserialize_def
    close_channel_deserialize_def submit_shares_standard_deserialize_def
    submit_shares_extended_deserialize_def set_custom_mining_job_deserialize_def
  by (intro framed_bind framed_return codec_intros)+

end
