(* ===== verification/Stdlib.thy ===== *)
theory Stdlib
  imports Complex_Main Hex
begin

text \<open>
  The C++ standard library as the program uses it: \<open>std::stoul\<close> in base 16 with everything it
  tolerates (leading white space, a sign, a \<open>0x\<close> prefix, text behind the digits), the \<open>{:08x}\<close> and
  \<open>{:02x}\<close> formats, and the rounding of \<open>double\<close> and \<open>long double\<close> results as a parameter, since
  the width of a \<open>long double\<close> depends on the platform.
\<close>

section \<open>Hexadecimal text to integers\<close>

definition is_space :: "char \<Rightarrow> bool" where
  "is_space c = (let n = of_char c :: nat in n = 32 \<or> (9 \<le> n \<and> n \<le> 13))"

definition hex_value :: "char \<Rightarrow> nat" where
  "hex_value c = (case hex_nibble c of Inr v \<Rightarrow> unat v | Inl _ \<Rightarrow> 0)"

definition hex_number :: "string \<Rightarrow> nat" where
  "hex_number ds = foldl (\<lambda>a d. 16 * a + hex_value d) 0 ds"

definition skip_sign :: "string \<Rightarrow> bool \<times> string" where
  "skip_sign s =
     (case s of [] \<Rightarrow> (False, s)
      | c # cs \<Rightarrow> if c = CHR ''-'' then (True, cs) else if c = CHR ''+'' then (False, cs) else (False, s))"

definition skip_0x :: "string \<Rightarrow> string" where
  "skip_0x s =
     (case s of
        z # x # d # ds \<Rightarrow>
          if z = CHR ''0'' \<and> (x = CHR ''x'' \<or> x = CHR ''X'') \<and> is_hex d then d # ds else s
      | _ \<Rightarrow> s)"

text \<open>\<open>std::stoul(s, nullptr, 16)\<close> with a 64-bit \<open>unsigned long\<close>.\<close>

definition stoul16 :: "string \<Rightarrow> u64 result" where
  "stoul16 s =
     (let (neg, s) = skip_sign (dropWhile is_space s);
          ds = takeWhile is_hex (skip_0x s);
          v = hex_number ds
      in if ds = [] then Inl (InvalidArgument ''stoul'')
         else if v \<ge> 2 ^ 64 then Inl (OutOfRange ''stoul'')
         else Inr (if neg then - of_nat v else of_nat v))"

text \<open>\<open>parse_hex_u32\<close> of the Stratum V2 proxy: \<open>stoul\<close> narrowed to 32 bits, \<open>None\<close> for any exception.\<close>

definition parse_hex_u32 :: "string \<Rightarrow> u32 option" where
  "parse_hex_u32 h = (case stoul16 h of Inr v \<Rightarrow> Some (ucast v) | Inl _ \<Rightarrow> None)"

section \<open>Formats\<close>

definition fmt_08x :: "u32 \<Rightarrow> string" where
  "fmt_08x v = int_to_hex v 8"

definition fmt_02x :: "u8 \<Rightarrow> string" where
  "fmt_02x b = hex_of_byte b"

section \<open>Floating point\<close>

text \<open>
  A finite floating-point result is the exact rational result, rounded: \<open>rnd_d\<close> to \<open>double\<close> and
  \<open>rnd_ld\<close> to \<open>long double\<close>. \<open>exact_fpu\<close> rounds nothing; it is the instance witnesses compute with.
\<close>

record fpu =
  rnd_d :: "rat \<Rightarrow> rat"
  rnd_ld :: "rat \<Rightarrow> rat"

definition exact_fpu :: fpu where
  "exact_fpu = \<lparr>rnd_d = (\<lambda>x. x), rnd_ld = (\<lambda>x. x)\<rparr>"

section \<open>Facts\<close>

lemma hex_value_bound: "hex_value c < 16"
proof -
  have b: "unat (of_nat n :: u8) < 16" if "n < 16" for n
    using that by (simp add: unat_of_nat)
  show ?thesis
    using b [of "of_char c - 48"] b [of "of_char c - 97 + 10"] b [of "of_char c - 65 + 10"]
    by (auto simp del: of_nat_diff of_nat_add simp: hex_value_def hex_nibble_def Let_def split: sum.split)
qed

lemma hex_value_digit: "n < 16 \<Longrightarrow> hex_value (hex_digits ! n) = n"
  by (simp add: hex_value_def hex_nibble_digit unat_of_nat)

lemma hex_number_snoc: "hex_number (ds @ [d]) = 16 * hex_number ds + hex_value d"
  by (simp add: hex_number_def)

lemma hex_number_bound: "hex_number ds < 16 ^ length ds"
proof (induction ds rule: rev_induct)
  case (snoc d ds)
  then show ?case using hex_value_bound [of d] by (simp add: hex_number_snoc)
qed (simp add: hex_number_def)

lemma is_hex_not_special:
  assumes "is_hex c"
  shows "\<not> is_space c" "c \<noteq> CHR ''-''" "c \<noteq> CHR ''+''" "c \<noteq> CHR ''x''" "c \<noteq> CHR ''X''"
  using assms by (auto simp: is_hex_def is_space_def Let_def)

lemma stoul16_hex:
  assumes "list_all is_hex s" "s \<noteq> []" "length s \<le> 16"
  shows "stoul16 s = Inr (of_nat (hex_number s))"
proof -
  obtain c cs where s: "s = c # cs" using assms(2) by (cases s) auto
  then have c: "is_hex c" using assms(1) by simp
  have 1: "dropWhile is_space s = s" using is_hex_not_special(1) [OF c] by (simp add: s)
  have 2: "skip_sign s = (False, s)" using is_hex_not_special(2,3) [OF c] by (simp add: s skip_sign_def)
  have 3: "skip_0x s = s"
    using assms(1) by (auto simp: s skip_0x_def dest: is_hex_not_special split: list.split)
  have 4: "takeWhile is_hex s = s" using assms(1) by (simp add: takeWhile_eq_all_conv list_all_iff)
  have "hex_number s < 16 ^ length s" by (rule hex_number_bound)
  also have "(16 :: nat) ^ length s \<le> 16 ^ 16" using assms(3) by (intro power_increasing) auto
  finally have "\<not> 2 ^ 64 \<le> hex_number s" by simp
  with assms(2) show ?thesis unfolding stoul16_def by (simp only: 1 2 3 4 Let_def split) simp
qed

lemma parse_hex_u32_hex:
  assumes "list_all is_hex s" "s \<noteq> []" "length s \<le> 16"
  shows "parse_hex_u32 s = Some (of_nat (hex_number s))"
proof -
  have "(ucast (of_nat (hex_number s) :: u64) :: u32) = of_nat (hex_number s)"
    by (simp add: word_unat_eq_iff unsigned_ucast_eq unsigned_of_nat)
  then show ?thesis by (simp add: parse_hex_u32_def stoul16_hex [OF assms])
qed

lemma hex_number_int_to_hex: "hex_number (int_to_hex v n) = unat v mod 16 ^ n"
proof (induction n arbitrary: v)
  case 0
  show ?case by (simp add: hex_number_def)
next
  case (Suc n)
  have "unat v mod 16 ^ Suc n = 16 * (unat v div 16 mod 16 ^ n) + unat v mod 16"
    by (simp add: mod_mult2_eq)
  moreover have "unat (drop_bit 4 v) = unat v div 16" by (simp add: drop_bit_eq_div unat_div)
  moreover have "unat (v AND 0xf) = unat v mod 16" by (simp add: low_nibble_mod)
  ultimately show ?case by (simp add: hex_number_snoc Suc hex_value_digit)
qed

lemma parse_hex_u32_fmt [simp]: "parse_hex_u32 (fmt_08x v) = Some v"
proof -
  have "unat v < 2 ^ LENGTH(32)" by (rule unsigned_less)
  then have "hex_number (int_to_hex v 8) = unat v" by (simp add: hex_number_int_to_hex)
  moreover have "int_to_hex v 8 \<noteq> []" using length_int_to_hex [of v 8] by (metis list.size(3) zero_neq_numeral)
  ultimately show ?thesis
    by (simp add: fmt_08x_def parse_hex_u32_hex int_to_hex_hex)
qed

end
