(* ===== verification/ProxyTypes.thy ===== *)
theory ProxyTypes
  imports Stdlib "HOL-Library.AList"
begin

text \<open>
  \<open>src/upstream_client.hpp\<close>: the values a proxy's upstream side hands to its downstream sessions
  (the rendered job, an extranonce slot, a share to forward, the status of a link), shared by the
  Stratum V1 and the Stratum V2 upstream clients. A sink (\<open>weak_ptr<ProxyWorkSink>\<close>) and a submit
  callback are names; whether a sink is still alive is asked of the environment.
\<close>

type_synonym sink = nat
type_synonym callback = nat

record proxy_notify =
  pn_notify_line :: string
  pn_job_id :: string
  pn_prevhash_stratum :: string
  pn_coinbase1 :: string
  pn_coinbase2 :: string
  pn_merkle_branch :: "string list"
  pn_version :: u32
  pn_bits :: string
  pn_ntime :: string
  pn_mintime :: u32
  pn_clean :: bool
  pn_net_target_be :: bytes
  pn_seq :: u64

record proxy_slot =
  sl_ok :: bool
  sl_link_id :: int
  sl_slot_id :: u32
  sl_slot_hex :: string
  sl_en1_hex :: string
  sl_en2_size :: nat

definition no_slot :: proxy_slot where
  "no_slot = \<lparr>sl_ok = False, sl_link_id = -1, sl_slot_id = 0, sl_slot_hex = '''', sl_en1_hex = '''',
     sl_en2_size = 0\<rparr>"

record upstream_submit =
  us_job_id :: string
  us_en2_full_hex :: string
  us_ntime_hex :: string
  us_nonce_hex :: string
  us_version_bits :: "u32 option"

record link_status =
  ls_index :: int
  ls_endpoint :: string
  ls_connected :: bool
  ls_authorized :: bool
  ls_primary :: bool
  ls_difficulty :: rat
  ls_extranonce1 :: string
  ls_en2_size :: nat
  ls_jobs :: u64
  ls_shares_forwarded :: u64
  ls_shares_accepted :: u64
  ls_shares_rejected :: u64
  ls_reconnects :: u64
  ls_sessions :: nat

record upstream_status =
  ust_mode :: string
  ust_primary :: int
  ust_total_sessions :: nat
  ust_links :: "link_status list"

text \<open>What an upstream client asks of the transport and of the downstream sessions.\<close>

datatype up_action =
    Resolve string string
  | CloseSocket
  | StartTimer int
  | StartRead
  | StartWrite bytes
  | PostFrame bytes
  | PostSubmit u32 u32 u32 u32 u32 bytes "callback option"
  | SinkState sink bool
  | SinkJob sink proxy_notify
  | SinkDiff sink rat
  | RunCallback callback bool string

end
