(* ===== verification/Sv2Upstream.thy ===== *)
theory Sv2Upstream
  imports Sv2Frames ProxyTypes
begin

text \<open>
  \<open>src/sv2_upstream_client.cpp\<close>: the proxy's Stratum V2 upstream. One record holds the members of
  \<open>Sv2UpstreamClient\<close> outside the frame reader, a second one the frame reader (\<open>in_\<close>,
  \<open>have_header_\<close>, \<open>cur_header_\<close>); every handler takes them and returns them with the actions it
  performs, in order. A lambda posted to the strand is an action of its own, and a definition of
  its own runs it. The maps are association lists, so that what iterates over one is executable;
  the code's hash maps iterate in an unspecified order.
\<close>

section \<open>Helpers\<close>

text \<open>Reverses the four bytes (two digits each) within each of the eight words of a hash text.\<close>

definition swap_words_hex :: "string \<Rightarrow> string" where
  "swap_words_hex p =
     (if length p \<noteq> 64 then p
      else concat (map (\<lambda>w. concat (map (\<lambda>b.
             [p ! (w * 8 + (3 - b) * 2), p ! (w * 8 + (3 - b) * 2 + 1)]) [0..<4])) [0..<8]))"

definition diff_from_target_le :: "fpu \<Rightarrow> bytes \<Rightarrow> rat" where
  "diff_from_target_le P t =
     (let (tv, base) = fold (\<lambda>b (tv, base).
            (rnd_ld P (tv + rnd_ld P (of_nat (unat b) * base)), rnd_ld P (base * 256))) t (0, 1);
          maxt = rnd_ld P (0xFFFF * 2 ^ 208)
      in if tv > 0 then rnd_d P (rnd_ld P (maxt / tv)) else 1)"

section \<open>State\<close>

record endpoint =
  ep_host :: string
  ep_port :: nat
  ep_user :: string

record upstream_config =
  cfg_endpoints :: "endpoint list"
  cfg_nonce_bytes :: u8
  cfg_reconnect_min :: int
  cfg_reconnect_max :: int

record ext_job =
  ej_sv2_job_id :: u32
  ej_version :: u32
  ej_version_rolling_allowed :: bool
  ej_merkle_path :: "bytes list"
  ej_cb_prefix :: bytes
  ej_cb_suffix :: bytes
  ej_have :: bool

record prev_work =
  pw_sv2_job_id :: u32
  pw_prev_hash :: bytes
  pw_min_ntime :: u32
  pw_nbits :: u32
  pw_have :: bool

record up_client =
  up_config :: upstream_config
  up_host :: string
  up_port :: string
  up_reconnect_backoff :: int
  up_running :: bool
  up_wq :: "bytes list"
  up_writing :: bool
  up_connected :: bool
  up_setup_ok :: bool
  up_channel_ok :: bool
  up_channel_id :: u32
  up_extranonce_prefix :: bytes
  up_extranonce_size :: u16
  up_nonce_bytes :: u8
  up_diff :: rat
  up_job :: ext_job
  up_prev :: prev_work
  up_cur_notify :: "proxy_notify option"
  up_notify_seq :: u64
  up_jobid_map :: "(string \<times> u32) list"
  up_jobid_order :: "string list"
  up_next_slot :: u32
  up_subscribers :: "(u32 \<times> sink) list"
  up_waiters :: "sink list"
  up_next_seq :: u32
  up_pending :: "(u32 \<times> callback) list"
  up_stat_jobs :: u64
  up_stat_forwarded :: u64
  up_stat_accepted :: u64
  up_stat_rejected :: u64
  up_stat_reconnects :: u64

record frame_in =
  fi_in :: bytes
  fi_have_header :: bool
  fi_cur_header :: header

text \<open>What the handlers ask of outside: rounding, and which weak pointers still lock.\<close>

record up_env =
  env_fpu :: fpu
  env_alive :: "sink \<Rightarrow> bool"

definition no_header :: header where
  "no_header = \<lparr>hdr_extension_type = 0, hdr_msg_type = 0, hdr_msg_length = 0\<rparr>"

definition new_frame_in :: frame_in where
  "new_frame_in = \<lparr>fi_in = [], fi_have_header = False, fi_cur_header = no_header\<rparr>"

text \<open>Decimal text of a port, \<open>std::to_string\<close>.\<close>

fun dec_text :: "nat \<Rightarrow> string" where
  "dec_text n = (if n < 10 then [char_of (48 + n)] else dec_text (n div 10) @ [char_of (48 + n mod 10)])"

definition new_up_client :: "upstream_config \<Rightarrow> up_client" where
  "new_up_client cfg =
     \<lparr>up_config = cfg,
      up_host = (case cfg_endpoints cfg of [] \<Rightarrow> '''' | e # _ \<Rightarrow> ep_host e),
      up_port = (case cfg_endpoints cfg of [] \<Rightarrow> '''' | e # _ \<Rightarrow> dec_text (ep_port e)),
      up_reconnect_backoff = 0, up_running = False, up_wq = [], up_writing = False,
      up_connected = False, up_setup_ok = False, up_channel_ok = False, up_channel_id = 0,
      up_extranonce_prefix = [], up_extranonce_size = 0,
      up_nonce_bytes = (if cfg_nonce_bytes cfg \<noteq> 0 then cfg_nonce_bytes cfg else 2),
      up_diff = 1,
      up_job = \<lparr>ej_sv2_job_id = 0, ej_version = 0, ej_version_rolling_allowed = True,
        ej_merkle_path = [], ej_cb_prefix = [], ej_cb_suffix = [], ej_have = False\<rparr>,
      up_prev = \<lparr>pw_sv2_job_id = 0, pw_prev_hash = replicate 32 0, pw_min_ntime = 0, pw_nbits = 0,
        pw_have = False\<rparr>,
      up_cur_notify = None, up_notify_seq = 0, up_jobid_map = [], up_jobid_order = [],
      up_next_slot = 0, up_subscribers = [], up_waiters = [], up_next_seq = 1, up_pending = [],
      up_stat_jobs = 0, up_stat_forwarded = 0, up_stat_accepted = 0, up_stat_rejected = 0,
      up_stat_reconnects = 0\<rparr>"

definition live_sinks :: "up_env \<Rightarrow> up_client \<Rightarrow> sink list" where
  "live_sinks E c = filter (env_alive E) (map snd (up_subscribers c))"

section \<open>Transport\<close>

type_synonym step = "up_client \<times> up_action list"

definition up_start :: "up_client \<Rightarrow> up_client" where
  "up_start c = (if up_host c = '''' then c else c\<lparr>up_running := True\<rparr>)"

text \<open>\<open>connect\<close>, posted by \<open>start\<close> and by the reconnect timer; it also resets the frame reader.\<close>

definition up_connect :: "frame_in \<times> up_client \<Rightarrow> (frame_in \<times> up_client) \<times> up_action list" where
  "up_connect = (\<lambda>(fi, c).
     if \<not> up_running c then ((fi, c), [])
     else ((fi\<lparr>fi_have_header := False, fi_in := []\<rparr>,
            c\<lparr>up_connected := False, up_setup_ok := False, up_channel_ok := False\<rparr>),
           [Resolve (up_host c) (up_port c)]))"

definition send_sv2 :: "u8 \<Rightarrow> writer \<Rightarrow> up_action" where
  "send_sv2 msg_type payload = PostFrame (wrap_message EXT_COMMON msg_type payload)"

definition setup_payload :: writer where
  "setup_payload =
     (let w = new_writer;
          w = write_u8 0 w; w = write_u16 2 w; w = write_u16 2 w; w = write_u32 0 w;
          w = write_str0_255 '''' w; w = write_u16 0 w;
          w = write_str0_255 ''mkpool'' w; w = write_str0_255 ''1'' w; w = write_str0_255 ''1'' w;
          w = write_str0_255 ''proxy'' w
      in w)"

definition on_connected :: "up_client \<Rightarrow> step" where
  "on_connected c =
     (c\<lparr>up_connected := True, up_reconnect_backoff := 0\<rparr>,
      [send_sv2 MSG_SETUP_CONNECTION setup_payload, StartRead])"

definition schedule_reconnect :: "up_client \<Rightarrow> step" where
  "schedule_reconnect c =
     (if \<not> up_running c then (c, [])
      else let cfg = up_config c;
               lo = (if cfg_reconnect_min cfg > 0 then cfg_reconnect_min cfg else 2);
               hi = (if cfg_reconnect_max cfg > 0 then cfg_reconnect_max cfg else 30);
               delay = min hi (lo * 2 ^ nat (min (up_reconnect_backoff c) 5))
           in (c\<lparr>up_reconnect_backoff := min (up_reconnect_backoff c + 1) 6\<rparr>,
               [StartTimer (max delay lo)]))"

definition teardown :: "up_env \<Rightarrow> up_client \<Rightarrow> step" where
  "teardown E c =
     (let c = c\<lparr>up_connected := False, up_setup_ok := False, up_channel_ok := False,
                up_wq := [], up_writing := False\<rparr>
      in if up_running c
         then let c = c\<lparr>up_stat_reconnects := up_stat_reconnects c + 1\<rparr>;
                  (c', acts) = schedule_reconnect c
              in (c', CloseSocket # map (\<lambda>s. SinkState s False) (live_sinks E c) @ acts)
         else (c, [CloseSocket]))"

definition up_stop :: "up_env \<Rightarrow> up_client \<Rightarrow> step" where
  "up_stop E c = teardown E (c\<lparr>up_running := False\<rparr>)"

text \<open>The lambda of \<open>send_sv2\<close>, \<open>do_write\<close> and its completion handler.\<close>

definition do_write :: "up_client \<Rightarrow> step" where
  "do_write c =
     (case up_wq c of [] \<Rightarrow> (c\<lparr>up_writing := False\<rparr>, []) | f # _ \<Rightarrow> (c, [StartWrite f]))"

definition post_frame :: "bytes \<Rightarrow> up_client \<Rightarrow> step" where
  "post_frame f c =
     (let c = c\<lparr>up_wq := up_wq c @ [f]\<rparr>
      in if \<not> up_writing c then do_write (c\<lparr>up_writing := True\<rparr>) else (c, []))"

text \<open>\<open>None\<close> is the undefined behaviour of \<open>pop_front\<close> on an empty queue.\<close>

definition on_written :: "up_env \<Rightarrow> bool \<Rightarrow> up_client \<Rightarrow> step option" where
  "on_written E failed c =
     (if failed then Some (teardown E (c\<lparr>up_writing := False\<rparr>))
      else case up_wq c of
             [] \<Rightarrow> None
           | _ # fs \<Rightarrow>
               let c = c\<lparr>up_wq := fs\<rparr>
               in Some (if fs = [] then (c\<lparr>up_writing := False\<rparr>, []) else do_write c))"

section \<open>Jobs\<close>

definition nl :: string where "nl = [CHR 0x0A]"

definition merkle_text :: "string list \<Rightarrow> string" where
  "merkle_text ms =
     ''['' @ concat (map (\<lambda>i. (if i > 0 then '','' else '''') @ [CHR 0x22] @ ms ! i @ [CHR 0x22])
       [0..<length ms]) @ '']''"

text \<open>The \<open>mining.notify\<close> line; \<open>quoted\<close> puts a text in double quotes.\<close>

definition quoted :: "string \<Rightarrow> string" where "quoted s = [CHR 0x22] @ s @ [CHR 0x22]"

definition notify_text :: "proxy_notify \<Rightarrow> string" where
  "notify_text n =
     ''{'' @ quoted ''id'' @ '':null,'' @ quoted ''method'' @ '':'' @ quoted ''mining.notify'' @
     '','' @ quoted ''params'' @ '':['' @ quoted (pn_job_id n) @ '','' @
     quoted (pn_prevhash_stratum n) @ '','' @ quoted (pn_coinbase1 n) @ '','' @
     quoted (pn_coinbase2 n) @ '','' @ merkle_text (pn_merkle_branch n) @ '','' @
     quoted (fmt_08x (pn_version n)) @ '','' @ quoted (pn_bits n) @ '','' @ quoted (pn_ntime n) @
     '','' @ (if pn_clean n then ''true'' else ''false'') @ '']}'' @ nl"

fun trim_jobs :: "(string \<times> u32) list \<Rightarrow> string list \<Rightarrow> (string \<times> u32) list \<times> string list" where
  "trim_jobs m [] = (m, [])"
| "trim_jobs m (j # js) =
     (if length (j # js) > 32 then trim_jobs (AList.delete j m) js else (m, j # js))"

text \<open>The compact bits are eight hex digits here, on which \<open>target_from_bits_hex\<close> never throws.\<close>

definition make_notify :: "bool \<Rightarrow> up_client \<Rightarrow> proxy_notify" where
  "make_notify clean c =
     (let job = up_job c; prev = up_prev c; bits = fmt_08x (pw_nbits prev);
          n = \<lparr>pn_notify_line = '''', pn_job_id = fmt_08x (ej_sv2_job_id job),
            pn_prevhash_stratum = swap_words_hex (bytes_to_hex (pw_prev_hash prev)),
            pn_coinbase1 = bytes_to_hex (ej_cb_prefix job),
            pn_coinbase2 = bytes_to_hex (ej_cb_suffix job),
            pn_merkle_branch = map bytes_to_hex (ej_merkle_path job),
            pn_version = ej_version job, pn_bits = bits, pn_ntime = fmt_08x (pw_min_ntime prev),
            pn_mintime = pw_min_ntime prev, pn_clean = clean,
            pn_net_target_be = (case target_from_bits_hex bits of Inr t \<Rightarrow> t | Inl _ \<Rightarrow> []),
            pn_seq = up_notify_seq c + 1\<rparr>
      in n\<lparr>pn_notify_line := notify_text n\<rparr>)"

definition rebuild_and_broadcast :: "up_env \<Rightarrow> bool \<Rightarrow> up_client \<Rightarrow> step" where
  "rebuild_and_broadcast E clean c =
     (if \<not> ej_have (up_job c) \<or> \<not> pw_have (up_prev c) then (c, [])
      else let n = make_notify clean c;
               (m, order) = trim_jobs
                 (AList.update (pn_job_id n) (ej_sv2_job_id (up_job c)) (up_jobid_map c))
                 (up_jobid_order c @ [pn_job_id n])
           in (c\<lparr>up_notify_seq := up_notify_seq c + 1, up_cur_notify := Some n,
                  up_jobid_map := m, up_jobid_order := order\<rparr>,
               map (\<lambda>s. SinkJob s n) (live_sinks E c)))"

definition on_extended_job :: "up_env \<Rightarrow> new_extended_mining_job \<Rightarrow> up_client \<Rightarrow> step" where
  "on_extended_job E j c =
     (let c = c\<lparr>up_job := (up_job c)\<lparr>ej_sv2_job_id := nej_job_id j, ej_version := nej_version j,
                  ej_version_rolling_allowed := nej_version_rolling_allowed j,
                  ej_merkle_path := nej_merkle_path j, ej_cb_prefix := nej_coinbase_tx_prefix j,
                  ej_cb_suffix := nej_coinbase_tx_suffix j, ej_have := True\<rparr>,
                up_stat_jobs := up_stat_jobs c + 1\<rparr>
      in if nej_min_ntime j \<noteq> None \<and> pw_have (up_prev c) then rebuild_and_broadcast E False c
         else (c, []))"

definition on_set_prev_hash :: "up_env \<Rightarrow> set_new_prev_hash \<Rightarrow> up_client \<Rightarrow> step" where
  "on_set_prev_hash E ph c =
     (let c = c\<lparr>up_prev := \<lparr>pw_sv2_job_id = snp_job_id ph, pw_prev_hash = snp_prev_hash ph,
                  pw_min_ntime = snp_min_ntime ph, pw_nbits = snp_nbits ph, pw_have = True\<rparr>\<rparr>
      in if ej_have (up_job c) then rebuild_and_broadcast E True c else (c, []))"

definition on_set_target :: "up_env \<Rightarrow> bytes \<Rightarrow> up_client \<Rightarrow> step" where
  "on_set_target E target c =
     (let d = diff_from_target_le (env_fpu E) target; c = c\<lparr>up_diff := d\<rparr>
      in (c, map (\<lambda>s. SinkDiff s d) (live_sinks E c)))"

definition notify_waiters :: "up_env \<Rightarrow> up_client \<Rightarrow> step" where
  "notify_waiters E c =
     (c\<lparr>up_waiters := []\<rparr>, map (\<lambda>s. SinkState s True) (filter (env_alive E) (up_waiters c)))"

text \<open>
  The slot width shrinks when the pool grants too few bytes. The subtraction is done in \<open>int\<close> and
  narrowed to 8 bits, so a grant of zero bytes gives 255.
\<close>

definition on_channel_open :: "up_env \<Rightarrow> open_extended_mining_channel_success \<Rightarrow> up_client \<Rightarrow> step" where
  "on_channel_open E ok c =
     (let size = oecs_extranonce_size ok; nb = up_nonce_bytes c;
          c = c\<lparr>up_channel_ok := True, up_channel_id := oecs_channel_id ok,
                up_extranonce_prefix := oecs_extranonce_prefix ok, up_extranonce_size := size,
                up_diff := diff_from_target_le (env_fpu E) (oecs_target ok),
                up_nonce_bytes := (if unat nb \<ge> unat size then max 1 (ucast (size - 1)) else nb)\<rparr>
      in notify_waiters E c)"

section \<open>Submits\<close>

definition take_acked :: "u32 \<Rightarrow> (u32 \<times> callback) list \<Rightarrow> callback list \<times> (u32 \<times> callback) list" where
  "take_acked seq ps =
     (map snd (filter (\<lambda>p. fst p \<le> seq) ps), filter (\<lambda>p. \<not> fst p \<le> seq) ps)"

definition on_submit_result :: "u32 \<Rightarrow> bool \<Rightarrow> string \<Rightarrow> up_client \<Rightarrow> step" where
  "on_submit_result seq accepted err c =
     (if accepted
      then let (cbs, rest) = take_acked seq (up_pending c)
           in (c\<lparr>up_pending := rest, up_stat_accepted := up_stat_accepted c + of_nat (length cbs)\<rparr>,
               map (\<lambda>cb. RunCallback cb True err) cbs)
      else let found = map_of (up_pending c) seq
           in (c\<lparr>up_pending := AList.delete seq (up_pending c),
                  up_stat_rejected := up_stat_rejected c + 1\<rparr>,
               case found of Some cb \<Rightarrow> [RunCallback cb False err] | None \<Rightarrow> []))"

text \<open>
  \<open>submit\<close> runs on the session's thread: it answers a stale job or bad text itself, lets the
  exception of a bad extranonce out, and posts the rest.
\<close>

definition up_submit :: "upstream_submit \<Rightarrow> callback option \<Rightarrow> up_client \<Rightarrow> up_action list result" where
  "up_submit s cb c =
     (let answer = (\<lambda>e. case cb of Some f \<Rightarrow> [RunCallback f False e] | None \<Rightarrow> [])
      in if \<not> up_channel_ok c \<or> map_of (up_jobid_map c) (us_job_id s) = None
         then Inr (answer ''stale/notready'')
         else let sv2_job = the (map_of (up_jobid_map c) (us_job_id s));
                  version = (case us_version_bits s of Some v \<Rightarrow> v | None \<Rightarrow> ej_version (up_job c))
              in bind_res (hex_to_bytes (us_en2_full_hex s)) (\<lambda>extranonce.
                   case (parse_hex_u32 (us_nonce_hex s), parse_hex_u32 (us_ntime_hex s)) of
                     (Some nonce, Some ntime) \<Rightarrow>
                       Inr [PostSubmit (up_channel_id c) sv2_job nonce ntime version extranonce cb]
                   | _ \<Rightarrow> Inr (answer ''bad hex'')))"

definition submit_payload ::
  "u32 \<Rightarrow> u32 \<Rightarrow> u32 \<Rightarrow> u32 \<Rightarrow> u32 \<Rightarrow> u32 \<Rightarrow> bytes \<Rightarrow> writer \<Rightarrow> writer" where
  "submit_payload chan seq job nonce ntime version extranonce w =
     (let w = write_u32 chan w; w = write_u32 seq w; w = write_u32 job w;
          w = write_u32 nonce w; w = write_u32 ntime w; w = write_u32 version w;
          w = write_b0_32 extranonce w
      in w)"

definition post_submit ::
  "u32 \<Rightarrow> u32 \<Rightarrow> u32 \<Rightarrow> u32 \<Rightarrow> u32 \<Rightarrow> bytes \<Rightarrow> callback option \<Rightarrow> up_client \<Rightarrow> step" where
  "post_submit chan sv2_job nonce ntime version extranonce cb c =
     (if \<not> up_connected c
      then (c, case cb of Some f \<Rightarrow> [RunCallback f False ''link down''] | None \<Rightarrow> [])
      else let seq = up_next_seq c
           in (c\<lparr>up_next_seq := seq + 1,
                  up_pending := (case cb of Some f \<Rightarrow> AList.update seq f (up_pending c)
                                 | None \<Rightarrow> up_pending c),
                  up_stat_forwarded := up_stat_forwarded c + 1\<rparr>,
               [send_sv2 MSG_SUBMIT_SHARES_EXTENDED
                  (submit_payload chan seq sv2_job nonce ntime version extranonce new_writer)]))"

section \<open>Slots\<close>

text \<open>
  The slot number is written big-endian in \<open>nonce_bytes_\<close> bytes. The shift is of a 32-bit number:
  the configuration keeps \<open>nonce_bytes_\<close> at 1 to 4, where it is defined.
\<close>

definition slot_text :: "u8 \<Rightarrow> u32 \<Rightarrow> string" where
  "slot_text nb slot =
     concat (map (\<lambda>i. fmt_02x (ucast (drop_bit (8 * i) slot AND 0xff))) (rev [0..<unat nb]))"

definition attach :: "sink \<Rightarrow> up_client \<Rightarrow> proxy_slot \<times> up_client" where
  "attach s c =
     (if \<not> up_channel_ok c then (no_slot, c)
      else let slot = up_next_slot c; nb = unat (up_nonce_bytes c); size = unat (up_extranonce_size c);
               hex = slot_text (up_nonce_bytes c) slot
           in (\<lparr>sl_ok = True, sl_link_id = 0, sl_slot_id = slot, sl_slot_hex = hex,
                sl_en1_hex = bytes_to_hex (up_extranonce_prefix c) @ hex,
                sl_en2_size = (if size > nb then size - nb else 0)\<rparr>,
               c\<lparr>up_next_slot := slot + 1,
                 up_subscribers := AList.update slot s (up_subscribers c)\<rparr>))"

definition detach :: "u32 \<Rightarrow> up_client \<Rightarrow> up_client" where
  "detach slot c = c\<lparr>up_subscribers := AList.delete slot (up_subscribers c)\<rparr>"

definition register_waiter :: "sink \<Rightarrow> up_client \<Rightarrow> up_client" where
  "register_waiter s c = c\<lparr>up_waiters := up_waiters c @ [s]\<rparr>"

definition up_status :: "up_client \<Rightarrow> upstream_status" where
  "up_status c =
     (let l = \<lparr>ls_index = 0, ls_endpoint = up_host c @ '':'' @ up_port c,
            ls_connected = up_connected c, ls_authorized = up_channel_ok c, ls_primary = True,
            ls_difficulty = up_diff c, ls_extranonce1 = '''',
            ls_en2_size = unat (up_extranonce_size c), ls_jobs = up_stat_jobs c,
            ls_shares_forwarded = up_stat_forwarded c, ls_shares_accepted = up_stat_accepted c,
            ls_shares_rejected = up_stat_rejected c, ls_reconnects = up_stat_reconnects c,
            ls_sessions = length (up_subscribers c)\<rparr>
      in \<lparr>ust_mode = ''sv2'', ust_primary = 0, ust_total_sessions = ls_sessions l, ust_links = [l]\<rparr>)"

section \<open>The pool's messages as the proxy reads them\<close>

definition decode_open_success :: "open_extended_mining_channel_success read" where
  "decode_open_success =
     bind_read read_u32 (\<lambda>request_id. bind_read read_u32 (\<lambda>channel_id.
     bind_read read_u256 (\<lambda>target. bind_read read_u16 (\<lambda>extranonce_size.
     bind_read read_b0_32 (\<lambda>extranonce_prefix. bind_read read_u32 (\<lambda>group_channel_id.
     return_read \<lparr>oecs_request_id = request_id, oecs_channel_id = channel_id, oecs_target = target,
       oecs_extranonce_size = extranonce_size, oecs_extranonce_prefix = extranonce_prefix,
       oecs_group_channel_id = group_channel_id\<rparr>))))))"

definition decode_extended_job :: "new_extended_mining_job read" where
  "decode_extended_job =
     bind_read read_u32 (\<lambda>channel_id. bind_read read_u32 (\<lambda>job_id.
     bind_read read_option_u32 (\<lambda>min_ntime. bind_read read_u32 (\<lambda>version.
     bind_read read_bool (\<lambda>version_rolling_allowed. bind_read read_seq0_255_u256 (\<lambda>merkle_path.
     bind_read read_b0_64k (\<lambda>coinbase_tx_prefix. bind_read read_b0_64k (\<lambda>coinbase_tx_suffix.
     return_read \<lparr>nej_channel_id = channel_id, nej_job_id = job_id, nej_min_ntime = min_ntime,
       nej_version = version, nej_version_rolling_allowed = version_rolling_allowed,
       nej_merkle_path = merkle_path, nej_coinbase_tx_prefix = coinbase_tx_prefix,
       nej_coinbase_tx_suffix = coinbase_tx_suffix\<rparr>))))))))"

definition decode_prev_hash :: "set_new_prev_hash read" where
  "decode_prev_hash =
     bind_read read_u32 (\<lambda>channel_id. bind_read read_u32 (\<lambda>job_id.
     bind_read read_u256 (\<lambda>prev_hash. bind_read read_u32 (\<lambda>min_ntime. bind_read read_u32 (\<lambda>nbits.
     return_read \<lparr>snp_channel_id = channel_id, snp_job_id = job_id, snp_prev_hash = prev_hash,
       snp_min_ntime = min_ntime, snp_nbits = nbits\<rparr>)))))"

definition decode_target :: "bytes read" where
  "decode_target = bind_read read_u32 (\<lambda>_. read_u256)"

definition decode_submit_success :: "u32 read" where
  "decode_submit_success = bind_read read_u32 (\<lambda>_. read_u32)"

definition decode_submit_error :: "(u32 \<times> string) read" where
  "decode_submit_error =
     bind_read read_u32 (\<lambda>_. bind_read read_u32 (\<lambda>seq. bind_read read_str0_255 (\<lambda>code.
     return_read (seq, code))))"

definition decode_open_error :: "string read" where
  "decode_open_error = bind_read read_u32 (\<lambda>_. read_str0_255)"

section \<open>Frames\<close>

definition open_channel_payload :: "up_client \<Rightarrow> writer" where
  "open_channel_payload c =
     (let w = new_writer;
          w = write_u32 1 w;
          w = write_str0_255
                (case cfg_endpoints (up_config c) of [] \<Rightarrow> ''proxy'' | e # _ \<Rightarrow> ep_user e) w;
          w = write_f32 0x5368D4A5 w;
          w = write_u256 (replicate 32 0xff) w;
          w = write_u16 (ucast (up_nonce_bytes c) + 4) w
      in w)"

text \<open>
  A message is decoded completely before its handler touches the state, so an exception of the
  decoder leaves the state as it was.
\<close>

definition handle :: "'a read \<Rightarrow> ('a \<Rightarrow> step) \<Rightarrow> reader \<Rightarrow> step result" where
  "handle rd f r = bind_res (rd r) (\<lambda>(x, _). Inr (f x))"

definition handle_frame :: "up_env \<Rightarrow> header \<Rightarrow> reader \<Rightarrow> up_client \<Rightarrow> step result" where
  "handle_frame E h r c =
     (let t = hdr_msg_type h
      in if t = MSG_SETUP_CONNECTION_SUCCESS
         then Inr (c\<lparr>up_setup_ok := True\<rparr>,
                   [send_sv2 MSG_OPEN_EXTENDED_MINING_CHANNEL (open_channel_payload c)])
         else if t = MSG_SETUP_CONNECTION_ERROR then handle read_str0_255 (\<lambda>_. teardown E c) r
         else if t = MSG_OPEN_EXTENDED_MINING_CHANNEL_SUCCESS
         then handle decode_open_success (\<lambda>ok. on_channel_open E ok c) r
         else if t = MSG_OPEN_MINING_CHANNEL_ERROR then handle decode_open_error (\<lambda>_. teardown E c) r
         else if t = MSG_NEW_EXTENDED_MINING_JOB
         then handle decode_extended_job (\<lambda>j. on_extended_job E j c) r
         else if t = MSG_SET_NEW_PREV_HASH
         then handle decode_prev_hash (\<lambda>ph. on_set_prev_hash E ph c) r
         else if t = MSG_SET_TARGET then handle decode_target (\<lambda>tg. on_set_target E tg c) r
         else if t = MSG_SUBMIT_SHARES_SUCCESS
         then handle decode_submit_success (\<lambda>seq. on_submit_result seq True '''' c) r
         else if t = MSG_SUBMIT_SHARES_ERROR
         then handle decode_submit_error (\<lambda>(seq, code). on_submit_result seq False code c) r
         else Inr (c, []))"

text \<open>\<open>consume_frames\<close>: an exception of a handler is logged and the loop goes on.\<close>

function consume_frames ::
  "up_env \<Rightarrow> frame_in \<Rightarrow> up_client \<Rightarrow> (frame_in \<times> up_client) \<times> up_action list" where
  "consume_frames E fi c =
     (if \<not> up_connected c then ((fi, c), [])
      else if \<not> fi_have_header fi
      then if length (fi_in fi) < 6 then ((fi, c), [])
           else let h = (case header_deserialize (new_reader (take 6 (fi_in fi))) of
                           Inr (h, _) \<Rightarrow> h | Inl _ \<Rightarrow> fi_cur_header fi);
                    fi = fi\<lparr>fi_cur_header := h, fi_in := drop 6 (fi_in fi)\<rparr>
                in if \<not> frame_length_ok (hdr_msg_length h)
                   then let (c, acts) = teardown E c in ((fi, c), acts)
                   else consume_frames E (fi\<lparr>fi_have_header := True\<rparr>) c
      else let n = unat (hdr_msg_length (fi_cur_header fi))
           in if length (fi_in fi) < n then ((fi, c), [])
              else let payload = take n (fi_in fi);
                       fi = fi\<lparr>fi_in := drop n (fi_in fi), fi_have_header := False\<rparr>;
                       (c, acts) = (case handle_frame E (fi_cur_header fi) (new_reader payload) c of
                                      Inr res \<Rightarrow> res | Inl _ \<Rightarrow> (c, []));
                       (st, acts') = consume_frames E fi c
                   in (st, acts @ acts'))"
  by pat_completeness auto
termination
  by (relation "measure (\<lambda>(_, fi, _). 2 * length (fi_in fi) + of_bool (fi_have_header fi))") auto

definition on_read ::
  "up_env \<Rightarrow> bytes option \<Rightarrow> frame_in \<times> up_client \<Rightarrow> (frame_in \<times> up_client) \<times> up_action list" where
  "on_read E data = (\<lambda>(fi, c).
     case data of
       None \<Rightarrow> let (c, acts) = teardown E c in ((fi, c), acts)
     | Some bs \<Rightarrow>
         let fi = fi\<lparr>fi_in := fi_in fi @ bs\<rparr>
         in if length (fi_in fi) > 8 * 2 ^ 20
            then let (c, acts) = teardown E c in ((fi, c), acts)
            else let ((fi, c), acts) = consume_frames E fi c
                 in ((fi, c), acts @ (if up_connected c then [StartRead] else [])))"

end
