(* ===== verification/Sv2Proxy.thy ===== *)
theory Sv2Proxy
  imports Sv2Upstream
begin

text \<open>
  What the Stratum V2 upstream client promises. Each message of the pool keeps the wire contract
  with the reader the proxy uses on it, and each message of the proxy with the pool's reader; the
  frame loop delivers exactly the frames that were sent, however the transport cuts the stream; the
  slots it gives out are disjoint parts of the channel's extranonce space; and the sequence numbers
  pair every answer of the pool with the share it answers.
\<close>

declare consume_frames.simps [simp del]

section \<open>Messages of the pool, read by the proxy\<close>

interpretation open_success: wire_codec open_extended_mining_channel_success_serialize decode_open_success
  "\<lambda>m. length (oecs_target m) = 32 \<and> length (oecs_extranonce_prefix m) \<le> 32"
proof unfold_locales
  show "appending open_extended_mining_channel_success_serialize"
    by (rule appendingI) (simp only: open_extended_mining_channel_success_serialize_def chain_simps)
  show "framed decode_open_success"
    unfolding decode_open_success_def by (intro framed_bind framed_return codec_intros)
  fix m :: open_extended_mining_channel_success
  assume v: "length (oecs_target m) = 32 \<and> length (oecs_extranonce_prefix m) \<le> 32"
  have "enc open_extended_mining_channel_success_serialize m =
      enc write_u32 (oecs_request_id m) @ enc write_u32 (oecs_channel_id m) @
      enc write_u256 (oecs_target m) @ enc write_u16 (oecs_extranonce_size m) @
      enc write_b0_32 (oecs_extranonce_prefix m) @ enc write_u32 (oecs_group_channel_id m)"
    by (rule enc_chain) (simp only: open_extended_mining_channel_success_serialize_def chain_simps)
  then show "reads_as decode_open_success (enc open_extended_mining_channel_success_serialize m) m"
    unfolding decode_open_success_def
    by (simp only:) (rule reads_as_bind reads_as_map field_reads | use v in simp)+
qed

interpretation extended_job: wire_codec new_extended_mining_job_serialize decode_extended_job
  "\<lambda>m. length (nej_merkle_path m) \<le> 255 \<and> (\<forall>h \<in> set (nej_merkle_path m). length h = 32) \<and>
       length (nej_coinbase_tx_prefix m) \<le> 65535 \<and> length (nej_coinbase_tx_suffix m) \<le> 65535"
proof unfold_locales
  show "appending new_extended_mining_job_serialize"
    by (rule appendingI) (simp only: new_extended_mining_job_serialize_def chain_simps)
  show "framed decode_extended_job"
    unfolding decode_extended_job_def by (intro framed_bind framed_return codec_intros)
  fix m :: new_extended_mining_job
  assume v: "length (nej_merkle_path m) \<le> 255 \<and> (\<forall>h \<in> set (nej_merkle_path m). length h = 32) \<and>
    length (nej_coinbase_tx_prefix m) \<le> 65535 \<and> length (nej_coinbase_tx_suffix m) \<le> 65535"
  have "enc new_extended_mining_job_serialize m =
      enc write_u32 (nej_channel_id m) @ enc write_u32 (nej_job_id m) @
      enc write_option_u32 (nej_min_ntime m) @ enc write_u32 (nej_version m) @
      enc write_bool (nej_version_rolling_allowed m) @
      enc write_seq0_255_u256 (nej_merkle_path m) @
      enc write_b0_64k (nej_coinbase_tx_prefix m) @ enc write_b0_64k (nej_coinbase_tx_suffix m)"
    by (rule enc_chain) (simp only: new_extended_mining_job_serialize_def chain_simps)
  then show "reads_as decode_extended_job (enc new_extended_mining_job_serialize m) m"
    unfolding decode_extended_job_def
    by (simp only:) (rule reads_as_bind reads_as_map field_reads | use v in simp)+
qed

interpretation prev_hash: wire_codec set_new_prev_hash_serialize decode_prev_hash
  "\<lambda>m. length (snp_prev_hash m) = 32"
proof unfold_locales
  show "appending set_new_prev_hash_serialize"
    by (rule appendingI) (simp only: set_new_prev_hash_serialize_def chain_simps)
  show "framed decode_prev_hash"
    unfolding decode_prev_hash_def by (intro framed_bind framed_return codec_intros)
  fix m :: set_new_prev_hash
  assume v: "length (snp_prev_hash m) = 32"
  have "enc set_new_prev_hash_serialize m =
      enc write_u32 (snp_channel_id m) @ enc write_u32 (snp_job_id m) @
      enc write_u256 (snp_prev_hash m) @ enc write_u32 (snp_min_ntime m) @
      enc write_u32 (snp_nbits m)"
    by (rule enc_chain) (simp only: set_new_prev_hash_serialize_def chain_simps)
  then show "reads_as decode_prev_hash (enc set_new_prev_hash_serialize m) m"
    unfolding decode_prev_hash_def
    by (simp only:) (rule reads_as_bind reads_as_map field_reads | use v in simp)+
qed

text \<open>
  The proxy skips the channel of a target or an answer and ignores the counters behind a success,
  so it reads a prefix of the message.
\<close>

lemma decode_target_reads:
  assumes "length (st_maximum_target m) = 32"
  shows "reads_as decode_target (enc set_target_serialize m) (st_maximum_target m)"
proof -
  have "enc set_target_serialize m =
      enc write_u32 (st_channel_id m) @ enc write_u256 (st_maximum_target m)"
    by (rule enc_chain) (simp only: set_target_serialize_def chain_simps)
  then show ?thesis
    unfolding decode_target_def
    by (simp only:) (rule reads_as_bind field_reads | use assms in simp)+
qed

lemma reads_as_prefix:
  assumes "reads_as rd bs x" and "unread r = bs @ cs @ t" "rpos r \<le> rsize r"
  shows "rd r = Inr (x, advance (length bs) r)"
  using reads_asD [OF assms(1,3), of "cs @ t"] assms(2) by simp

lemma decode_submit_success_reads:
  assumes "unread r = enc submit_shares_success_serialize m @ t" "rpos r \<le> rsize r"
  shows "decode_submit_success r = Inr (ssok_last_sequence_number m, advance 8 r)"
proof -
  have e: "enc submit_shares_success_serialize m =
      (enc write_u32 (ssok_channel_id m) @ enc write_u32 (ssok_last_sequence_number m)) @
      enc write_u32 (ssok_new_submits_accepted_count m) @ enc write_u64 (ssok_new_shares_sum m)"
    by (rule enc_chain) (simp only: submit_shares_success_serialize_def chain_simps)
  have "reads_as decode_submit_success
      (enc write_u32 (ssok_channel_id m) @ enc write_u32 (ssok_last_sequence_number m))
      (ssok_last_sequence_number m)"
    unfolding decode_submit_success_def by (rule reads_as_bind field_reads)+
  then show ?thesis
    using reads_as_prefix assms unfolding e append_assoc [of "_ @ _"] by fastforce
qed

lemma decode_submit_error_reads:
  assumes "length (sserr_error_code m) \<le> 255"
  shows "reads_as decode_submit_error (enc submit_shares_error_serialize m)
    (sserr_sequence_number m, sserr_error_code m)"
proof -
  have "enc submit_shares_error_serialize m =
      enc write_u32 (sserr_channel_id m) @ enc write_u32 (sserr_sequence_number m) @
      enc write_str0_255 (sserr_error_code m)"
    by (rule enc_chain) (simp only: submit_shares_error_serialize_def chain_simps)
  then show ?thesis
    unfolding decode_submit_error_def
    by (simp only:) (rule reads_as_bind reads_as_map field_reads | use assms in simp)+
qed

section \<open>Messages of the proxy, read by the pool\<close>

definition submit_message :: "submit_shares_extended \<Rightarrow> writer \<Rightarrow> writer" where
  "submit_message m =
     submit_payload (sse_channel_id m) (sse_sequence_number m) (sse_job_id m) (sse_nonce m)
       (sse_ntime m) (sse_version m) (sse_extranonce m)"

interpretation submit_extended: wire_codec submit_message submit_shares_extended_deserialize
  "\<lambda>m. length (sse_extranonce m) \<le> 32"
proof unfold_locales
  show "appending submit_message"
    by (rule appendingI) (simp only: submit_message_def submit_payload_def chain_simps)
  show "framed submit_shares_extended_deserialize" by (rule framed_messages)
  fix m :: submit_shares_extended
  assume v: "length (sse_extranonce m) \<le> 32"
  have "enc submit_message m =
      enc write_u32 (sse_channel_id m) @ enc write_u32 (sse_sequence_number m) @
      enc write_u32 (sse_job_id m) @ enc write_u32 (sse_nonce m) @ enc write_u32 (sse_ntime m) @
      enc write_u32 (sse_version m) @ enc write_b0_32 (sse_extranonce m)"
    by (rule enc_chain) (simp only: submit_message_def submit_payload_def chain_simps)
  then show "reads_as submit_shares_extended_deserialize (enc submit_message m) m"
    unfolding submit_shares_extended_deserialize_def
    by (simp only:) (rule reads_as_bind reads_as_map field_reads | use v in simp)+
qed

definition proxy_setup :: setup_connection where
  "proxy_setup =
     \<lparr>sc_protocol = 0, sc_min_version = 2, sc_max_version = 2, sc_flags = 0, sc_endpoint_host = '''',
      sc_endpoint_port = 0, sc_vendor = ''mkpool'', sc_hardware_version = ''1'', sc_firmware = ''1'',
      sc_device_id = ''proxy''\<rparr>"

lemma wbuf_chain: "w = insert_end bs new_writer \<Longrightarrow> wbuf w = bs"
  by simp

lemma setup_payload_reads: "reads_as setup_connection_deserialize (wbuf setup_payload) proxy_setup"
proof -
  have e: "wbuf setup_payload =
      enc write_u8 0 @ enc write_u16 2 @ enc write_u16 2 @ enc write_u32 0 @
      enc write_str0_255 '''' @ enc write_u16 0 @ enc write_str0_255 ''mkpool'' @
      enc write_str0_255 ''1'' @ enc write_str0_255 ''1'' @ enc write_str0_255 ''proxy''"
    by (rule wbuf_chain) (simp only: setup_payload_def chain_simps)
  show ?thesis
    unfolding setup_connection_deserialize_def e
    by (rule reads_as_bind reads_as_map field_reads | simp add: proxy_setup_def)+
qed

definition proxy_open :: "up_client \<Rightarrow> open_extended_mining_channel" where
  "proxy_open c =
     \<lparr>oec_request_id = 1,
      oec_user_identity = (case cfg_endpoints (up_config c) of [] \<Rightarrow> ''proxy'' | e # _ \<Rightarrow> ep_user e),
      oec_nominal_hash_rate = 0x5368D4A5, oec_max_target = replicate 32 0xff,
      oec_min_extranonce_size = ucast (up_nonce_bytes c) + 4\<rparr>"

lemma open_payload_reads:
  assumes "length (oec_user_identity (proxy_open c)) \<le> 255"
  shows "reads_as open_extended_mining_channel_deserialize (wbuf (open_channel_payload c)) (proxy_open c)"
proof -
  have e: "wbuf (open_channel_payload c) =
      enc write_u32 1 @
      enc write_str0_255 (case cfg_endpoints (up_config c) of [] \<Rightarrow> ''proxy'' | e # _ \<Rightarrow> ep_user e) @
      enc write_f32 0x5368D4A5 @ enc write_u256 (replicate 32 0xff) @
      enc write_u16 (ucast (up_nonce_bytes c) + 4)"
    by (rule wbuf_chain) (simp only: open_channel_payload_def chain_simps)
  show ?thesis
    unfolding open_extended_mining_channel_deserialize_def e
    by (rule reads_as_bind reads_as_map field_reads | use assms in \<open>simp add: proxy_open_def\<close>)+
qed

section \<open>The frame loop\<close>

lemma consume_idle: "\<not> up_connected c \<Longrightarrow> consume_frames E fi c = ((fi, c), [])"
  by (simp add: consume_frames.simps)

lemma header_deserialize_prefix:
  "6 \<le> length bs \<Longrightarrow> \<exists>h r. header_deserialize (new_reader (take 6 bs)) = Inr (h, r)"
  by (simp add: header_deserialize_def bind_read_def return_read_def read_u16_leaf read_u8_leaf
      read_u24_leaf leaf_read_def new_reader_def rsize_def advance_def)

definition wire_header :: "bytes \<Rightarrow> header" where
  "wire_header bs =
     (case header_deserialize (new_reader (take 6 bs)) of Inr (h, _) \<Rightarrow> h | Inl _ \<Rightarrow> no_header)"

definition run_handler :: "up_env \<Rightarrow> header \<Rightarrow> bytes \<Rightarrow> up_client \<Rightarrow> step" where
  "run_handler E h p c =
     (case handle_frame E h (new_reader p) c of Inr res \<Rightarrow> res | Inl _ \<Rightarrow> (c, []))"

lemma wire_header_eq:
  "6 \<le> length bs \<Longrightarrow>
     (case header_deserialize (new_reader (take 6 bs)) of Inr (h, _) \<Rightarrow> h | Inl _ \<Rightarrow> k) = wire_header bs"
  using header_deserialize_prefix [of bs] by (auto simp: wire_header_def)

lemma wire_header_append: "6 \<le> length bs \<Longrightarrow> wire_header (bs @ cs) = wire_header bs"
  by (simp add: wire_header_def)

lemma teardown_disconnects [simp]: "\<not> up_connected (fst (teardown E c))"
  by (simp add: teardown_def schedule_reconnect_def Let_def)

text \<open>The five ways one round of the loop goes.\<close>

definition with_header :: "frame_in \<Rightarrow> frame_in" where
  "with_header fi =
     fi\<lparr>fi_cur_header := wire_header (fi_in fi), fi_in := drop 6 (fi_in fi), fi_have_header := True\<rparr>"

definition payload_size :: "frame_in \<Rightarrow> nat" where
  "payload_size fi = unat (hdr_msg_length (fi_cur_header fi))"

definition without_payload :: "frame_in \<Rightarrow> frame_in" where
  "without_payload fi = fi\<lparr>fi_in := drop (payload_size fi) (fi_in fi), fi_have_header := False\<rparr>"

lemma consume_header_short:
  "\<not> fi_have_header fi \<Longrightarrow> length (fi_in fi) < 6 \<Longrightarrow> consume_frames E fi c = ((fi, c), [])"
  by (simp add: consume_frames.simps [of E fi])

lemma consume_header_bad:
  assumes "up_connected c" "\<not> fi_have_header fi" "6 \<le> length (fi_in fi)"
    "\<not> frame_length_ok (hdr_msg_length (wire_header (fi_in fi)))"
  shows "consume_frames E fi c =
    (((with_header fi)\<lparr>fi_have_header := False\<rparr>, fst (teardown E c)), snd (teardown E c))"
  using assms
  by (simp add: consume_frames.simps [of E fi] wire_header_eq Let_def with_header_def split_beta)

lemma consume_header_ok:
  assumes "up_connected c" "\<not> fi_have_header fi" "6 \<le> length (fi_in fi)"
    "frame_length_ok (hdr_msg_length (wire_header (fi_in fi)))"
  shows "consume_frames E fi c = consume_frames E (with_header fi) c"
  using assms
  by (simp add: consume_frames.simps [of E fi] wire_header_eq Let_def with_header_def)

lemma consume_payload_short:
  "fi_have_header fi \<Longrightarrow> length (fi_in fi) < payload_size fi \<Longrightarrow>
     consume_frames E fi c = ((fi, c), [])"
  by (simp add: consume_frames.simps [of E fi] payload_size_def Let_def)

lemma consume_payload:
  assumes "up_connected c" "fi_have_header fi" "payload_size fi \<le> length (fi_in fi)"
    and "run_handler E (fi_cur_header fi) (take (payload_size fi) (fi_in fi)) c = (c', a)"
  shows "consume_frames E fi c =
    (fst (consume_frames E (without_payload fi) c'), a @ snd (consume_frames E (without_payload fi) c'))"
  using assms
  by (simp add: consume_frames.simps [of E fi] without_payload_def payload_size_def Let_def
      run_handler_def split_beta)

text \<open>Induction along the loop.\<close>

lemma consume_induct [case_names idle header_short header_bad header_ok payload_short payload]:
  assumes "\<And>fi c. \<not> up_connected c \<Longrightarrow> P fi c"
    and "\<And>fi c. up_connected c \<Longrightarrow> \<not> fi_have_header fi \<Longrightarrow> length (fi_in fi) < 6 \<Longrightarrow> P fi c"
    and "\<And>fi c. up_connected c \<Longrightarrow> \<not> fi_have_header fi \<Longrightarrow> 6 \<le> length (fi_in fi) \<Longrightarrow>
      \<not> frame_length_ok (hdr_msg_length (wire_header (fi_in fi))) \<Longrightarrow> P fi c"
    and "\<And>fi c. up_connected c \<Longrightarrow> \<not> fi_have_header fi \<Longrightarrow> 6 \<le> length (fi_in fi) \<Longrightarrow>
      frame_length_ok (hdr_msg_length (wire_header (fi_in fi))) \<Longrightarrow> P (with_header fi) c \<Longrightarrow> P fi c"
    and "\<And>fi c. up_connected c \<Longrightarrow> fi_have_header fi \<Longrightarrow> length (fi_in fi) < payload_size fi \<Longrightarrow> P fi c"
    and "\<And>fi c c' a. up_connected c \<Longrightarrow> fi_have_header fi \<Longrightarrow> payload_size fi \<le> length (fi_in fi) \<Longrightarrow>
      run_handler E (fi_cur_header fi) (take (payload_size fi) (fi_in fi)) c = (c', a) \<Longrightarrow>
      P (without_payload fi) c' \<Longrightarrow> P fi c"
  shows "P fi c"
proof (induction "2 * length (fi_in fi) + of_bool (fi_have_header fi)" arbitrary: fi c rule: less_induct)
  case (less fi c)
  consider "\<not> up_connected c" | "up_connected c" "\<not> fi_have_header fi" "length (fi_in fi) < 6"
    | "up_connected c" "\<not> fi_have_header fi" "6 \<le> length (fi_in fi)"
      "\<not> frame_length_ok (hdr_msg_length (wire_header (fi_in fi)))"
    | "up_connected c" "\<not> fi_have_header fi" "6 \<le> length (fi_in fi)"
      "frame_length_ok (hdr_msg_length (wire_header (fi_in fi)))"
    | "up_connected c" "fi_have_header fi" "length (fi_in fi) < payload_size fi"
    | "up_connected c" "fi_have_header fi" "payload_size fi \<le> length (fi_in fi)"
    by fastforce
  then show ?case
  proof cases
    case 4
    have "P (with_header fi) c"
      by (rule less) (use 4(2,3) in \<open>simp add: with_header_def\<close>)
    with 4 show ?thesis by (rule assms(4))
  next
    case 6
    obtain c' a where r:
      "run_handler E (fi_cur_header fi) (take (payload_size fi) (fi_in fi)) c = (c', a)"
      by fastforce
    have "P (without_payload fi) c'"
      by (rule less) (use 6(2,3) in \<open>simp add: without_payload_def\<close>)
    with 6 r show ?thesis by (rule assms(6))
  next
    case 1 then show ?thesis by (rule assms(1))
  next
    case 2 then show ?thesis by (rule assms(2))
  next
    case 3 then show ?thesis by (rule assms(3))
  next
    case 5 then show ?thesis by (rule assms(5))
  qed
qed

text \<open>More input behind what is buffered only continues the loop where it stopped.\<close>

definition feed_in :: "bytes \<Rightarrow> frame_in \<Rightarrow> frame_in" where
  "feed_in d fi = fi\<lparr>fi_in := fi_in fi @ d\<rparr>"

lemma feed_in_simps [simp]:
  "fi_in (feed_in d fi) = fi_in fi @ d"
  "fi_have_header (feed_in d fi) = fi_have_header fi"
  "fi_cur_header (feed_in d fi) = fi_cur_header fi"
  "payload_size (feed_in d fi) = payload_size fi"
  by (simp_all add: feed_in_def payload_size_def)

lemma feed_in_Nil [simp]: "feed_in [] fi = fi"
  by (simp add: feed_in_def)

lemma feed_in_no_header: "feed_in d (fi\<lparr>fi_have_header := b\<rparr>) = (feed_in d fi)\<lparr>fi_have_header := b\<rparr>"
  by (simp add: feed_in_def)

lemma with_header_feed: "6 \<le> length (fi_in fi) \<Longrightarrow> with_header (feed_in d fi) = feed_in d (with_header fi)"
  by (simp add: with_header_def feed_in_def wire_header_append)

lemma without_payload_feed:
  "payload_size fi \<le> length (fi_in fi) \<Longrightarrow> without_payload (feed_in d fi) = feed_in d (without_payload fi)"
  by (simp add: without_payload_def feed_in_def payload_size_def)

definition resume :: "up_env \<Rightarrow> bytes \<Rightarrow> (frame_in \<times> up_client) \<times> up_action list \<Rightarrow>
    (frame_in \<times> up_client) \<times> up_action list" where
  "resume E d res =
     (let st = consume_frames E (feed_in d (fst (fst res))) (snd (fst res)) in (fst st, snd res @ snd st))"

lemma consume_append: "consume_frames E (feed_in d fi) c = resume E d (consume_frames E fi c)"
proof (induction fi c rule: consume_induct [where E = E])
  case (idle fi c)
  then show ?case by (simp add: consume_idle resume_def)
next
  case (header_short fi c)
  then show ?case by (simp add: consume_header_short resume_def Let_def)
next
  case (header_bad fi c)
  have "consume_frames E (feed_in d fi) c =
      (((with_header (feed_in d fi))\<lparr>fi_have_header := False\<rparr>, fst (teardown E c)), snd (teardown E c))"
    by (rule consume_header_bad) (use header_bad in \<open>simp_all add: wire_header_append\<close>)
  then show ?case
    using header_bad
    by (simp add: consume_header_bad resume_def consume_idle with_header_feed feed_in_no_header)
next
  case (header_ok fi c)
  then show ?case
    by (simp add: consume_header_ok wire_header_append with_header_feed)
next
  case (payload_short fi c)
  then show ?case by (simp add: consume_payload_short resume_def Let_def)
next
  case (payload fi c c' a)
  have "consume_frames E (feed_in d fi) c =
    (fst (consume_frames E (without_payload (feed_in d fi)) c'),
     a @ snd (consume_frames E (without_payload (feed_in d fi)) c'))"
    by (rule consume_payload) (use payload in simp_all)
  then show ?case
    using payload by (simp add: without_payload_feed consume_payload [of c fi E c' a] resume_def Let_def)
qed

section \<open>What is left in the buffer\<close>

text \<open>
  Between two reads of a connected link the buffer holds less than the header, or less than the
  payload of an accepted header.
\<close>

definition frame_pending :: "frame_in \<Rightarrow> bool" where
  "frame_pending fi \<longleftrightarrow>
     (if fi_have_header fi
      then frame_length_ok (hdr_msg_length (fi_cur_header fi)) \<and> length (fi_in fi) < payload_size fi
      else length (fi_in fi) < 6)"

definition header_checked :: "frame_in \<Rightarrow> bool" where
  "header_checked fi \<longleftrightarrow> (fi_have_header fi \<longrightarrow> frame_length_ok (hdr_msg_length (fi_cur_header fi)))"

lemma frame_pending_checked: "frame_pending fi \<Longrightarrow> header_checked fi"
  by (auto simp: frame_pending_def header_checked_def split: if_splits)

lemma consume_pending:
  "header_checked fi \<Longrightarrow> consume_frames E fi c = ((fi', c'), a) \<Longrightarrow> up_connected c' \<Longrightarrow>
     frame_pending fi'"
proof (induction fi c arbitrary: a rule: consume_induct [where E = E])
  case (header_bad fi c)
  then show ?case using teardown_disconnects [of E c] by (auto simp: consume_header_bad)
next
  case (payload fi c c1 a1)
  have "consume_frames E (without_payload fi) c1 = ((fi', c'), snd (consume_frames E (without_payload fi) c1))"
    using payload.prems(2) consume_payload [OF payload.hyps] by (simp add: prod_eq_iff)
  then show ?case
    by (rule payload.IH [rotated]) (use payload.prems in \<open>simp_all add: header_checked_def without_payload_def\<close>)
qed (auto simp: consume_idle consume_header_short consume_header_ok consume_payload_short
    frame_pending_def header_checked_def with_header_def)

lemma frame_pending_idle: "frame_pending fi \<Longrightarrow> consume_frames E fi c = ((fi, c), [])"
  by (cases "up_connected c")
    (auto simp: consume_idle consume_header_short consume_payload_short frame_pending_def split: if_splits)

lemma frame_pending_bound: "frame_pending fi \<Longrightarrow> length (fi_in fi) < 65519"
  by (auto simp: frame_pending_def payload_size_def frame_length_ok_def MAX_MSG_LENGTH_def
      word_le_nat_alt split: if_splits)

section \<open>Any number of reads\<close>

definition visible :: "up_action list \<Rightarrow> up_action list" where
  "visible = filter (\<lambda>a. a \<noteq> StartRead)"

lemma visible_simps [simp]:
  "visible [] = []" "visible (xs @ ys) = visible xs @ visible ys" "visible (StartRead # xs) = visible xs"
  by (simp_all add: visible_def)

text \<open>The reads of one connection: each starts only while the link is up.\<close>

primrec feed ::
  "up_env \<Rightarrow> bytes list \<Rightarrow> frame_in \<times> up_client \<Rightarrow> (frame_in \<times> up_client) \<times> up_action list" where
  "feed E [] st = (st, [])"
| "feed E (d # ds) st =
     (if \<not> up_connected (snd st) then (st, [])
      else let (st', a) = on_read E (Some d) st; (st'', a') = feed E ds st' in (st'', a @ a'))"

lemma feed_idle: "\<not> up_connected (snd st) \<Longrightarrow> feed E ds st = (st, [])"
  by (cases ds) simp_all

lemma on_read_consume:
  assumes "frame_pending fi" "length d \<le> 8192"
  shows "on_read E (Some d) (fi, c) =
    (let ((fi', c'), a) = consume_frames E (feed_in d fi) c
     in ((fi', c'), a @ (if up_connected c' then [StartRead] else [])))"
  using frame_pending_bound [OF assms(1)] assms(2) by (simp add: on_read_def feed_in_def Let_def)

lemma feed_in_feed_in: "feed_in e (feed_in d fi) = feed_in (d @ e) fi"
  by (simp add: feed_in_def)

lemma feed_consume:
  assumes "frame_pending fi" "\<forall>d \<in> set ds. length d \<le> 8192"
  shows "snd (fst (feed E ds (fi, c))) = snd (fst (consume_frames E (feed_in (concat ds) fi) c)) \<and>
    visible (snd (feed E ds (fi, c))) = visible (snd (consume_frames E (feed_in (concat ds) fi) c))"
  using assms
proof (induction ds arbitrary: fi c)
  case Nil
  then show ?case by (simp add: frame_pending_idle)
next
  case (Cons d ds)
  obtain fi1 c1 a1 where 1: "consume_frames E (feed_in d fi) c = ((fi1, c1), a1)"
    by (metis prod.collapse)
  have whole: "consume_frames E (feed_in (concat (d # ds)) fi) c = resume E (concat ds) ((fi1, c1), a1)"
    using consume_append [of E "concat ds" "feed_in d fi" c] by (simp add: feed_in_feed_in 1)
  have read: "on_read E (Some d) (fi, c) =
      ((fi1, c1), a1 @ (if up_connected c1 then [StartRead] else []))"
    using Cons.prems 1 by (simp add: on_read_consume)
  show ?case
  proof (cases "up_connected c")
    case False
    then show ?thesis by (simp add: consume_idle)
  next
    case conn: True
    show ?thesis
    proof (cases "up_connected c1")
      case True
      have "header_checked (feed_in d fi)"
        using frame_pending_checked [OF Cons.prems(1)] by (simp add: header_checked_def)
      then have "frame_pending fi1" using consume_pending 1 True by blast
      with Cons show ?thesis
        using conn True unfolding whole by (simp add: read resume_def split_beta Let_def)
    next
      case False
      then show ?thesis
        using conn unfolding whole by (simp add: read resume_def feed_idle consume_idle)
    qed
  qed
qed

section \<open>The frames of a stream\<close>

definition frame_bytes :: "u8 \<Rightarrow> bytes \<Rightarrow> bytes" where
  "frame_bytes t p = wrap_message EXT_COMMON t \<lparr>wbuf = p\<rparr>"

text \<open>What the messages do when they are handed to the handlers one after the other.\<close>

primrec deliver :: "up_env \<Rightarrow> (u8 \<times> bytes) list \<Rightarrow> up_client \<Rightarrow> step" where
  "deliver E [] c = (c, [])"
| "deliver E (m # ms) c =
     (if \<not> up_connected c then (c, [])
      else let (c', a) = run_handler E (frame_header EXT_COMMON (fst m) (snd m)) (snd m) c;
               (c'', a') = deliver E ms c'
           in (c'', a @ a'))"

lemma wire_header_frame:
  assumes "length p \<le> 65519"
  shows "wire_header (frame_bytes t p @ rest) = frame_header EXT_COMMON t p"
proof -
  have 6: "take 6 (frame_bytes t p @ rest) = enc header_serialize (frame_header EXT_COMMON t p)"
    by (simp add: frame_bytes_def wrap_message_eq)
  have ok: "header_deserialize (new_reader (enc header_serialize (frame_header EXT_COMMON t p))) =
      Inr (frame_header EXT_COMMON t p,
        advance 6 (new_reader (enc header_serialize (frame_header EXT_COMMON t p))))"
    using header.round_trip [OF frame_header_valid [OF assms], of EXT_COMMON t "[]"] by simp
  show ?thesis
    unfolding wire_header_def 6 by (simp only: ok sum.case prod.case)
qed

lemma drop_frame:
  "drop 6 (frame_bytes t p) = p" "length (frame_bytes t p) = 6 + length p"
  "6 \<le> length (frame_bytes t p @ rest)"
  by (simp_all add: frame_bytes_def wrap_message_eq)

lemma consume_one_frame:
  assumes "up_connected c" "\<not> fi_have_header fi" "fi_in fi = frame_bytes t p @ rest" "length p \<le> 65519"
    and "run_handler E (frame_header EXT_COMMON t p) p c = (c', a)"
    and "fi' = fi\<lparr>fi_in := rest, fi_cur_header := frame_header EXT_COMMON t p\<rparr>"
  shows "consume_frames E fi c =
    (fst (consume_frames E fi' c'), a @ snd (consume_frames E fi' c'))"
proof -
  let ?fi = "with_header fi"
  have fi: "fi_cur_header ?fi = frame_header EXT_COMMON t p" "fi_in ?fi = p @ rest" "fi_have_header ?fi"
    using assms(3,4) by (simp_all add: with_header_def wire_header_frame drop_frame)
  have n: "payload_size ?fi = length p"
    using assms(4) by (simp add: payload_size_def fi frame_header_length)
  have "without_payload ?fi = fi'"
    by (simp only: without_payload_def n fi assms(6))
      (simp add: with_header_def assms(2,3) wire_header_frame [OF assms(4)])
  moreover have "consume_frames E fi c = consume_frames E ?fi c"
    by (rule consume_header_ok)
      (use assms drop_frame(3) in \<open>simp_all add: wire_header_frame frame_header_ok\<close>)
  ultimately show ?thesis
    using consume_payload [OF assms(1) fi(3), of E c' a] assms(5) by (simp add: n fi)
qed

lemma consume_deliver:
  assumes "\<forall>m \<in> set ms. length (snd m) \<le> 65519" "\<not> fi_have_header fi"
    and "fi_in fi = concat (map (\<lambda>m. frame_bytes (fst m) (snd m)) ms)"
  shows "snd (fst (consume_frames E fi c)) = fst (deliver E ms c) \<and>
    snd (consume_frames E fi c) = snd (deliver E ms c)"
  using assms
proof (induction ms arbitrary: fi c)
  case Nil
  then show ?case by (simp add: consume_header_short)
next
  case (Cons m ms)
  obtain c' a where r: "run_handler E (frame_header EXT_COMMON (fst m) (snd m)) (snd m) c = (c', a)"
    by fastforce
  show ?case
  proof (cases "up_connected c")
    case True
    define fi' where "fi' = fi\<lparr>fi_in := concat (map (\<lambda>m. frame_bytes (fst m) (snd m)) ms),
      fi_cur_header := frame_header EXT_COMMON (fst m) (snd m)\<rparr>"
    have "consume_frames E fi c = (fst (consume_frames E fi' c'), a @ snd (consume_frames E fi' c'))"
      by (rule consume_one_frame [OF True _ _ _ r fi'_def]) (use Cons.prems in simp_all)
    moreover have "snd (fst (consume_frames E fi' c')) = fst (deliver E ms c') \<and>
        snd (consume_frames E fi' c') = snd (deliver E ms c')"
      by (rule Cons.IH) (use Cons.prems in \<open>simp_all add: fi'_def\<close>)
    ultimately show ?thesis using True r by (simp add: split_beta)
  qed (simp add: consume_idle)
qed

section \<open>Reachable states\<close>

text \<open>
  What can happen to a client, in any order: the posted lambdas, the completion handlers of the
  socket and of the timer, and the calls of the downstream sessions. A connection completes with
  the frame reader as \<open>connect\<close> reset it. A read may still complete after a teardown.
\<close>

inductive reachable :: "upstream_config \<Rightarrow> frame_in \<times> up_client \<Rightarrow> bool" for cfg where
  init: "reachable cfg (new_frame_in, new_up_client cfg)"
| start: "reachable cfg (fi, c) \<Longrightarrow> reachable cfg (fi, up_start c)"
| stop: "reachable cfg (fi, c) \<Longrightarrow> reachable cfg (fi, fst (up_stop E c))"
| connect: "reachable cfg st \<Longrightarrow> reachable cfg (fst (up_connect st))"
| failed: "reachable cfg (fi, c) \<Longrightarrow> reachable cfg (fi, fst (teardown E c))"
| connected: "reachable cfg (fi, c) \<Longrightarrow> fi_in fi = [] \<Longrightarrow> \<not> fi_have_header fi \<Longrightarrow>
    reachable cfg (fi, fst (on_connected c))"
| read: "reachable cfg st \<Longrightarrow> reachable cfg (fst (on_read E data st))"
| frame: "reachable cfg (fi, c) \<Longrightarrow> reachable cfg (fi, fst (post_frame f c))"
| written: "reachable cfg (fi, c) \<Longrightarrow> on_written E err c = Some (c', a) \<Longrightarrow> reachable cfg (fi, c')"
| attached: "reachable cfg (fi, c) \<Longrightarrow> reachable cfg (fi, snd (attach s c))"
| detached: "reachable cfg (fi, c) \<Longrightarrow> reachable cfg (fi, detach slot c)"
| waiting: "reachable cfg (fi, c) \<Longrightarrow> reachable cfg (fi, register_waiter s c)"
| submitted: "reachable cfg (fi, c) \<Longrightarrow>
    reachable cfg (fi, fst (post_submit chan job nonce ntime version en cb c))"

definition client_ok :: "up_client \<Rightarrow> bool" where
  "client_ok c \<longleftrightarrow>
     (up_setup_ok c \<or> up_channel_ok c \<longrightarrow> up_connected c) \<and>
     (up_writing c \<longleftrightarrow> up_wq c \<noteq> []) \<and>
     length (up_jobid_order c) \<le> 32 \<and>
     fst ` set (up_jobid_map c) \<subseteq> set (up_jobid_order c) \<and>
     distinct (map fst (up_jobid_map c)) \<and>
     distinct (map fst (up_pending c)) \<and>
     distinct (map fst (up_subscribers c)) \<and>
     1 \<le> up_nonce_bytes c \<and>
     0 \<le> up_reconnect_backoff c \<and> up_reconnect_backoff c \<le> 6"

definition state_ok :: "frame_in \<times> up_client \<Rightarrow> bool" where
  "state_ok st \<longleftrightarrow> client_ok (snd st) \<and> (up_connected (snd st) \<longrightarrow> frame_pending (fst st))"

text \<open>One preservation lemma per operation.\<close>

named_theorems client_ok_steps \<open>operations that keep \<open>client_ok\<close>\<close>

lemma teardown_fields [simp]:
  "up_connected (fst (teardown E c)) = False" "up_setup_ok (fst (teardown E c)) = False"
  "up_channel_ok (fst (teardown E c)) = False" "up_wq (fst (teardown E c)) = []"
  "up_writing (fst (teardown E c)) = False"
  "up_jobid_order (fst (teardown E c)) = up_jobid_order c"
  "up_jobid_map (fst (teardown E c)) = up_jobid_map c"
  "up_pending (fst (teardown E c)) = up_pending c"
  "up_subscribers (fst (teardown E c)) = up_subscribers c"
  "up_nonce_bytes (fst (teardown E c)) = up_nonce_bytes c"
  "up_reconnect_backoff (fst (teardown E c)) =
     (if up_running c then min (up_reconnect_backoff c + 1) 6 else up_reconnect_backoff c)"
  by (simp_all add: teardown_def schedule_reconnect_def Let_def)

lemma client_ok_teardown [client_ok_steps]: "client_ok c \<Longrightarrow> client_ok (fst (teardown E c))"
  by (simp add: client_ok_def)

lemma client_ok_post_frame [client_ok_steps]: "client_ok c \<Longrightarrow> client_ok (fst (post_frame f c))"
  by (cases "up_wq c") (auto simp: client_ok_def post_frame_def do_write_def Let_def)

lemma client_ok_written [client_ok_steps]:
  assumes "client_ok c" "on_written E err c = Some (c', a)"
  shows "client_ok c'"
proof (cases err)
  case True
  have "client_ok (fst (teardown E (c\<lparr>up_writing := False\<rparr>)))"
    using assms(1) by (simp add: client_ok_def)
  with True assms(2) show ?thesis by (simp add: on_written_def)
next
  case False
  then obtain f fs where wq: "up_wq c = f # fs"
    using assms(2) by (cases "up_wq c") (simp_all add: on_written_def)
  then have "c' = c\<lparr>up_wq := fs, up_writing := fs \<noteq> []\<rparr>"
    using assms False by (cases fs) (auto simp: on_written_def do_write_def Let_def client_ok_def)
  then show ?thesis using assms(1) by (simp add: client_ok_def)
qed

lemma client_ok_attach [client_ok_steps]: "client_ok c \<Longrightarrow> client_ok (snd (attach s c))"
  by (simp add: client_ok_def attach_def Let_def distinct_update)

lemma client_ok_detach [client_ok_steps]: "client_ok c \<Longrightarrow> client_ok (detach slot c)"
  by (simp add: client_ok_def detach_def distinct_delete)

lemma client_ok_submit [client_ok_steps]:
  "client_ok c \<Longrightarrow> client_ok (fst (post_submit chan job nonce ntime version en cb c))"
  by (cases cb) (auto simp: client_ok_def post_submit_def Let_def distinct_update)

lemma client_ok_misc [client_ok_steps]:
  "client_ok c \<Longrightarrow> client_ok (up_start c)"
  "client_ok c \<Longrightarrow> client_ok (register_waiter s c)"
  "client_ok c \<Longrightarrow> client_ok (fst (on_connected c))"
  "client_ok c \<Longrightarrow> client_ok (snd (fst (up_connect (fi, c))))"
  by (simp_all add: client_ok_def up_start_def register_waiter_def on_connected_def up_connect_def)

lemma trim_jobs_ok:
  assumes "fst ` set m \<subseteq> set order" "distinct (map fst m)"
  shows "length (snd (trim_jobs m order)) \<le> 32 \<and>
    fst ` set (fst (trim_jobs m order)) \<subseteq> set (snd (trim_jobs m order)) \<and>
    distinct (map fst (fst (trim_jobs m order)))"
  using assms
proof (induction m order rule: trim_jobs.induct)
  case (2 m j js)
  show ?case
  proof (cases "length (j # js) > 32")
    case True
    have "fst ` set (AList.delete j m) \<subseteq> set js"
      using 2(2) by (auto simp: delete_keys simp flip: set_map)
    with 2 True show ?thesis by (simp add: distinct_delete)
  qed (use 2(2,3) in simp)
qed simp

lemma client_ok_rebuild [client_ok_steps]:
  assumes "client_ok c" shows "client_ok (fst (rebuild_and_broadcast E clean c))"
proof -
  let ?j = "pn_job_id (make_notify clean c)"
  let ?m = "AList.update ?j (ej_sv2_job_id (up_job c)) (up_jobid_map c)"
  have "fst ` set ?m \<subseteq> set (up_jobid_order c @ [?j])"
    using assms by (auto simp: client_ok_def dom_update)
  moreover have "distinct (map fst ?m)"
    using assms by (simp add: client_ok_def distinct_update)
  ultimately show ?thesis
    using assms trim_jobs_ok [of ?m "up_jobid_order c @ [?j]"]
    by (auto simp: rebuild_and_broadcast_def Let_def client_ok_def split_beta)
qed

text \<open>A handler runs on a connected client only, which is what keeps \<open>channel_ok_\<close> honest.\<close>

lemma max_one_ge: "1 \<le> max 1 (x :: u8)"
  by simp

lemma client_ok_channel_open [client_ok_steps]:
  "client_ok c \<Longrightarrow> up_connected c \<Longrightarrow> client_ok (fst (on_channel_open E ok c))"
  by (simp add: client_ok_def on_channel_open_def notify_waiters_def Let_def del: max.bounded_iff)

lemma client_ok_jobs [client_ok_steps]:
  assumes "client_ok c"
  shows "client_ok (fst (on_extended_job E j c))" "client_ok (fst (on_set_prev_hash E ph c))"
    "client_ok (fst (on_set_target E tg c))"
proof -
  have "client_ok (c\<lparr>up_job := x, up_stat_jobs := y\<rparr>)" "client_ok (c\<lparr>up_prev := z\<rparr>)"
    "client_ok (c\<lparr>up_diff := d\<rparr>)" for x y z d
    using assms by (simp_all add: client_ok_def)
  then show "client_ok (fst (on_extended_job E j c))" "client_ok (fst (on_set_prev_hash E ph c))"
    "client_ok (fst (on_set_target E tg c))"
    by (simp_all add: on_extended_job_def on_set_prev_hash_def on_set_target_def Let_def client_ok_rebuild)
qed

lemma distinct_map_filter_fst: "distinct (map fst ps) \<Longrightarrow> distinct (map fst (filter P ps))"
  by (induction ps) auto

lemma client_ok_result [client_ok_steps]:
  "client_ok c \<Longrightarrow> client_ok (fst (on_submit_result seq acc err c))"
  by (simp add: on_submit_result_def take_acked_def Let_def client_ok_def distinct_map_filter_fst
      distinct_delete)

definition handled :: "up_client \<Rightarrow> step result \<Rightarrow> step" where
  "handled c r = (case r of Inr res \<Rightarrow> res | Inl _ \<Rightarrow> (c, []))"

lemma handled_if:
  "(b \<Longrightarrow> Q (fst (handled c x))) \<Longrightarrow> (\<not> b \<Longrightarrow> Q (fst (handled c y))) \<Longrightarrow>
     Q (fst (handled c (if b then x else y)))"
  by simp

lemma handled_handle: "(\<And>x. Q (fst (f x))) \<Longrightarrow> Q c \<Longrightarrow> Q (fst (handled c (handle rd f r)))"
  by (cases "rd r") (auto simp: handled_def handle_def)

lemma handled_Inr: "Q (fst res) \<Longrightarrow> Q (fst (handled c (Inr res)))"
  by (simp add: handled_def)

text \<open>A property that every handler keeps is kept by the dispatch on the message type.\<close>

lemma run_handler_keeps:
  assumes "Q c" "Q (c\<lparr>up_setup_ok := True\<rparr>)" "Q (fst (teardown E c))"
    "\<And>ok. Q (fst (on_channel_open E ok c))" "\<And>j. Q (fst (on_extended_job E j c))"
    "\<And>ph. Q (fst (on_set_prev_hash E ph c))" "\<And>tg. Q (fst (on_set_target E tg c))"
    "\<And>seq acc err. Q (fst (on_submit_result seq acc err c))"
  shows "Q (fst (run_handler E h p c))"
proof -
  have "Q (fst (handled c (handle_frame E h (new_reader p) c)))"
    unfolding handle_frame_def Let_def
    by (rule handled_if [where Q = Q] handled_handle [where Q = Q] handled_Inr [where Q = Q] |
        simp add: assms split: prod.split)+
  then show ?thesis by (simp add: run_handler_def handled_def)
qed

lemma client_ok_run_handler:
  assumes "client_ok c" "up_connected c"
  shows "client_ok (fst (run_handler E h p c))"
proof (rule run_handler_keeps)
  show "client_ok (c\<lparr>up_setup_ok := True\<rparr>)" using assms by (simp add: client_ok_def)
qed (simp_all add: assms client_ok_steps)

lemma client_ok_consume: "client_ok c \<Longrightarrow> client_ok (snd (fst (consume_frames E fi c)))"
proof (induction fi c rule: consume_induct [where E = E])
  case (payload fi c c' a)
  have "client_ok c'"
    using client_ok_run_handler [OF payload.prems payload.hyps(1)] payload.hyps(4) by (metis fst_conv)
  with payload show ?case by (simp add: consume_payload [of c fi E c' a])
qed (simp_all add: consume_idle consume_header_short consume_header_bad consume_header_ok
    consume_payload_short client_ok_teardown)

lemma state_ok_read: 
  assumes "state_ok (fi, c)" shows "state_ok (fst (on_read E data (fi, c)))"
proof (cases data)
  case None
  then show ?thesis using assms by (simp add: on_read_def state_ok_def split_beta client_ok_teardown)
next
  case (Some bs)
  show ?thesis
  proof (cases "length (fi_in fi @ bs) > 8 * 2 ^ 20")
    case True
    then show ?thesis
      using assms Some by (simp add: on_read_def state_ok_def split_beta client_ok_teardown)
  next
    case False
    then have e: "fst (on_read E data (fi, c)) = fst (consume_frames E (feed_in bs fi) c)"
      using Some by (simp add: on_read_def feed_in_def split_beta Let_def)
    obtain fi' c' a where res: "consume_frames E (feed_in bs fi) c = ((fi', c'), a)"
      by (metis prod.collapse)
    have "client_ok c'"
      using client_ok_consume [of c E "feed_in bs fi"] assms by (simp add: res state_ok_def)
    moreover have "frame_pending fi'" if "up_connected c'"
    proof -
      have "up_connected c"
        using that res by (cases "up_connected c") (simp_all add: consume_idle)
      then have "header_checked (feed_in bs fi)"
        using assms frame_pending_checked [of fi] by (simp add: state_ok_def header_checked_def)
      then show ?thesis using consume_pending res that by blast
    qed
    ultimately show ?thesis by (simp add: e res state_ok_def)
  qed
qed

lemma reachable_state_ok: "reachable cfg st \<Longrightarrow> state_ok st"
proof (induction rule: reachable.induct)
  case init
  have "(1 :: u8) \<le> x" if "x \<noteq> 0" for x
    using that by (metis word_le_sub1 word_gt_0 word_less_1 linorder_not_less)
  then show ?case by (simp add: state_ok_def client_ok_def new_up_client_def new_frame_in_def)
next
  case (stop fi c E)
  have "client_ok (c\<lparr>up_running := False\<rparr>)" using stop by (simp add: state_ok_def client_ok_def)
  then show ?case by (simp add: state_ok_def up_stop_def client_ok_teardown)
next
  case (connect st)
  then show ?case
    by (cases st) (auto simp: state_ok_def up_connect_def client_ok_def)
next
  case (connected fi c)
  then show ?case
    by (simp add: state_ok_def client_ok_misc frame_pending_def)
next
  case (read st E data)
  then show ?case using state_ok_read by (cases st) simp
next
  case (frame fi c f)
  have "up_connected (fst (post_frame f c)) = up_connected c"
    by (simp add: post_frame_def do_write_def Let_def split: list.split)
  with frame show ?case by (simp add: state_ok_def client_ok_post_frame)
next
  case (written fi c E err c' a)
  have "up_connected c' \<longrightarrow> up_connected c"
    using written.hyps(2) 
    using teardown_disconnects [of E "c\<lparr>up_writing := False\<rparr>"]
    by (cases err; cases "up_wq c") (auto simp: on_written_def do_write_def Let_def split: list.splits if_splits)
  with written show ?case using client_ok_written [of c E err c' a] by (auto simp: state_ok_def)
next
  case (attached fi c s)
  have "up_connected (snd (attach s c)) = up_connected c" by (simp add: attach_def Let_def)
  with attached show ?case by (simp add: state_ok_def client_ok_attach)
next
  case (submitted fi c chan job nonce ntime version en cb)
  have "up_connected (fst (post_submit chan job nonce ntime version en cb c)) = up_connected c"
    by (simp add: post_submit_def Let_def)
  with submitted show ?case by (simp add: state_ok_def client_ok_submit)
next
  case (start fi c)
  then show ?case using client_ok_misc(1) [of c] by (simp add: state_ok_def up_start_def)
next
  case (detached fi c slot)
  then show ?case using client_ok_detach [of c slot] by (simp add: state_ok_def detach_def)
next
  case (waiting fi c s)
  then show ?case using client_ok_misc(2) [of c s] by (simp add: state_ok_def register_waiter_def)
qed (simp add: state_ok_def client_ok_teardown)

section \<open>Slots\<close>

lemma slot_text_bytes: "slot_text nb slot = bytes_to_hex (rev (le_bytes (unat nb) slot))"
proof -
  have "(ucast (drop_bit (8 * i) slot AND 0xff) :: u8) = ucast (drop_bit (8 * i) slot)" for i
    using ucast_low_byte [of "drop_bit (8 * i) slot"] by simp
  then show ?thesis
    by (simp add: slot_text_def fmt_02x_def bytes_to_hex_def le_bytes_def rev_map comp_def)
qed

declare bytes_to_hex_inject [simp]

lemma le_bytes_eq_iff: "le_bytes n v = le_bytes n w \<longleftrightarrow> unat v mod 256 ^ n = unat w mod 256 ^ n"
  by (metis le_value_inject le_value_le_bytes length_le_bytes)

lemma slot_text_eq_iff:
  "slot_text nb a = slot_text nb b \<longleftrightarrow> unat a mod 256 ^ unat nb = unat b mod 256 ^ unat nb"
  by (simp add: slot_text_bytes le_bytes_eq_iff)

lemma length_slot_text [simp]: "length (slot_text nb a) = 2 * unat nb"
  by (simp add: slot_text_bytes)

section \<open>Word order\<close>

definition swapped :: "nat \<Rightarrow> nat" where
  "swapped i = 4 * (i div 4) + (3 - i mod 4)"

definition swap_words :: "'a list \<Rightarrow> 'a list" where
  "swap_words bs = map (\<lambda>i. bs ! swapped i) [0..<32]"

lemma swapped_less: "i < 32 \<Longrightarrow> swapped i < 32"
proof -
  assume "i < 32"
  then have "i div 4 < 8" by simp
  then show ?thesis by (simp add: swapped_def)
qed

lemma swapped_swapped: "swapped (swapped i) = i"
proof -
  have split: "(4 * n + k) div 4 = n" "(4 * n + k) mod 4 = k" if "k < 4" for n k :: nat
    using that by simp_all
  have "swapped i div 4 = i div 4" "swapped i mod 4 = 3 - i mod 4"
    unfolding swapped_def by (rule split, simp)+
  then have "swapped (swapped i) = 4 * (i div 4) + (3 - (3 - i mod 4))"
    by (simp add: swapped_def [of "swapped i"])
  moreover have "3 - (3 - i mod 4) = i mod 4"
    using mod_less_divisor [of 4 i] by linarith
  ultimately show ?thesis by simp
qed

lemma length_swap_words [simp]: "length (swap_words bs) = 32"
  by (simp add: swap_words_def)

lemma nth_swap_words: "i < 32 \<Longrightarrow> swap_words bs ! i = bs ! swapped i"
  by (simp add: swap_words_def del: upt_rec_numeral)

lemma swap_words_involutive: "length bs = 32 \<Longrightarrow> swap_words (swap_words bs) = bs"
  by (rule nth_equalityI) (simp_all add: nth_swap_words swapped_less swapped_swapped)

lemma words_of_four: "concat (map (\<lambda>w. concat (map (g w) [0..<4])) [0..<8]) =
    concat (map (\<lambda>i. g (i div 4) (i mod 4)) [0..<32])" for g :: "nat \<Rightarrow> nat \<Rightarrow> 'a list"
proof -
  have four: "[0..<4] = [0, 1, 2, 3 :: nat]" and eight: "[0..<8] = [0, 1, 2, 3, 4, 5, 6, 7 :: nat]"
    and all: "[0..<32] = [0, 1, 2, 3, 4, 5, 6, 7, 8, 9, 10, 11, 12, 13, 14, 15, 16, 17, 18, 19, 20,
      21, 22, 23, 24, 25, 26, 27, 28, 29, 30, 31 :: nat]"
    by code_simp+
  show ?thesis by (simp only: four eight all) simp
qed

lemma swap_words_hex_bytes:
  assumes "length bs = 32"
  shows "swap_words_hex (bytes_to_hex bs) = bytes_to_hex (swap_words bs)"
proof -
  have b: "[bytes_to_hex bs ! (i div 4 * 8 + (3 - i mod 4) * 2),
      bytes_to_hex bs ! (i div 4 * 8 + (3 - i mod 4) * 2 + 1)] = hex_of_byte (bs ! swapped i)"
    if "i \<in> set [0..<32]" for i
  proof -
    have i: "swapped i < length bs" using that assms by (simp add: swapped_less)
    have 2: "i div 4 * 8 + (3 - i mod 4) * 2 = swapped i * 2" by (simp add: swapped_def)
    show ?thesis
      unfolding 2 using nth_bytes_to_hex [OF i] by (simp add: hex_of_byte_def)
  qed
  have "swap_words_hex (bytes_to_hex bs) = concat (map (\<lambda>i.
      [bytes_to_hex bs ! (i div 4 * 8 + (3 - i mod 4) * 2),
       bytes_to_hex bs ! (i div 4 * 8 + (3 - i mod 4) * 2 + 1)]) [0..<32])"
    using assms by (simp only: swap_words_hex_def words_of_four length_bytes_to_hex) simp
  also have "\<dots> = concat (map (\<lambda>i. hex_of_byte (bs ! swapped i)) [0..<32])"
    by (rule arg_cong [where f = concat], rule map_cong [OF refl], rule b)
  finally have "swap_words_hex (bytes_to_hex bs) =
      concat (map (\<lambda>i. hex_of_byte (bs ! swapped i)) [0..<32])" .
  then show ?thesis by (simp add: swap_words_def bytes_to_hex_def comp_def del: upt_rec_numeral)
qed

section \<open>Properties\<close>

text \<open>
  C16. The frame reader of the upstream connection delivers exactly the messages that were sent, in
  order, however the transport cuts the byte stream into reads of at most 8192 bytes: the client
  ends in the state, and with the actions, of the messages handed to their handlers one by one up
  to the first that takes the link down.
\<close>

theorem stream_reassembly:
  assumes "\<forall>m \<in> set ms. length (snd m) \<le> 65519" and "\<forall>d \<in> set ds. length d \<le> 8192"
    and "concat ds = concat (map (\<lambda>m. frame_bytes (fst m) (snd m)) ms)"
  shows "snd (fst (feed E ds (new_frame_in, c))) = fst (deliver E ms c) \<and>
    visible (snd (feed E ds (new_frame_in, c))) = visible (snd (deliver E ms c))"
proof -
  have "frame_pending new_frame_in" by (simp add: frame_pending_def new_frame_in_def)
  from feed_consume [OF this assms(2), of E c]
    consume_deliver [OF assms(1), of "feed_in (concat ds) new_frame_in" E c] assms(3)
  show ?thesis by (simp add: new_frame_in_def)
qed

definition demo_config :: upstream_config where
  "demo_config = \<lparr>cfg_endpoints = [\<lparr>ep_host = ''pool'', ep_port = 3336, ep_user = ''w''\<rparr>],
     cfg_nonce_bytes = 2, cfg_reconnect_min = 2, cfg_reconnect_max = 30\<rparr>"

definition demo_env :: up_env where
  "demo_env = \<lparr>env_fpu = exact_fpu, env_alive = (\<lambda>_. True)\<rparr>"

definition demo_client :: up_client where
  "demo_client = fst (on_connected (new_up_client demo_config))"

lemma stream_reassembly_witness:
  "snd (fst (feed demo_env
     [take 5 (frame_bytes MSG_SETUP_CONNECTION_SUCCESS [2, 0, 0, 0, 0, 0]),
      drop 5 (frame_bytes MSG_SETUP_CONNECTION_SUCCESS [2, 0, 0, 0, 0, 0])]
     (new_frame_in, demo_client))) = demo_client\<lparr>up_setup_ok := True\<rparr>"
  using stream_reassembly
    [of "[(MSG_SETUP_CONNECTION_SUCCESS, [2, 0, 0, 0, 0, 0])]"
        "[take 5 (frame_bytes MSG_SETUP_CONNECTION_SUCCESS [2, 0, 0, 0, 0, 0]),
          drop 5 (frame_bytes MSG_SETUP_CONNECTION_SUCCESS [2, 0, 0, 0, 0, 0])]" demo_env demo_client]
  by (simp add: drop_frame demo_client_def on_connected_def run_handler_def handle_frame_def Let_def
      del: feed.simps)

text \<open>
  C17. In every reachable state of the upstream client: a channel is only open on a connected link;
  a write is under way exactly when the send queue is not empty; every job id the client answers
  for is one of the at most 32 remembered ones; sequence numbers and slots are unique; the slot
  width is at least one byte; the reconnect backoff stays in 0 to 6; and a connected link buffers
  less than one frame, so the check for an oversize buffer never closes it.
\<close>

theorem upstream_invariant:
  assumes "reachable cfg (fi, c)"
  shows "(up_channel_ok c \<longrightarrow> up_connected c) \<and> (up_writing c \<longleftrightarrow> up_wq c \<noteq> []) \<and>
    length (up_jobid_order c) \<le> 32 \<and> fst ` set (up_jobid_map c) \<subseteq> set (up_jobid_order c) \<and>
    distinct (map fst (up_pending c)) \<and> distinct (map fst (up_subscribers c)) \<and>
    1 \<le> up_nonce_bytes c \<and> up_reconnect_backoff c \<in> {0..6} \<and>
    (up_connected c \<longrightarrow> length (fi_in fi) < 65519)"
  using reachable_state_ok [OF assms] frame_pending_bound [of fi]
  by (simp add: state_ok_def client_ok_def)

lemma upstream_invariant_witness:
  "up_connected demo_client \<and> \<not> up_channel_ok demo_client \<and> length (fi_in new_frame_in) < 65519"
proof -
  have "reachable demo_config (new_frame_in, demo_client)"
    unfolding demo_client_def
    by (rule reachable.connected [OF reachable.init]) (simp_all add: new_frame_in_def)
  from upstream_invariant [OF this] show ?thesis
    by (simp add: demo_client_def on_connected_def new_up_client_def)
qed

text \<open>
  An attached miner's extranonce1 and its own extranonce2 fill the channel's prefix and
  extranonce exactly when the pool granted at least the slot width, and two attached miners of one
  channel have the same extranonce1 exactly when their slot numbers agree modulo 256 to the slot
  width: up to that many miners the slots are disjoint, beyond it they repeat.
\<close>

theorem slot_partition:
  assumes "attach s c = (a, c')" "up_channel_ok c"
    and "attach s' d = (b, d')" "up_channel_ok d"
    and "up_extranonce_prefix d = up_extranonce_prefix c" "up_nonce_bytes d = up_nonce_bytes c"
  shows "(sl_en1_hex a = sl_en1_hex b \<longleftrightarrow>
      unat (sl_slot_id a) mod 256 ^ unat (up_nonce_bytes c) =
      unat (sl_slot_id b) mod 256 ^ unat (up_nonce_bytes c)) \<and>
    (unat (up_nonce_bytes c) \<le> unat (up_extranonce_size c) \<longleftrightarrow>
      length (sl_en1_hex a) div 2 + sl_en2_size a =
      length (up_extranonce_prefix c) + unat (up_extranonce_size c)) \<and>
    up_next_slot c' = sl_slot_id a + 1 \<and> map_of (up_subscribers c') (sl_slot_id a) = Some s"
  using assms by (auto simp: attach_def Let_def slot_text_eq_iff update_conv')

definition demo_open :: up_client where
  "demo_open = demo_client\<lparr>up_channel_ok := True, up_extranonce_size := 8\<rparr>"

lemma slot_partition_witness:
  "sl_en1_hex (fst (attach 7 demo_open)) \<noteq>
   sl_en1_hex (fst (attach 9 (snd (attach 7 demo_open)))) \<and>
   length (sl_en1_hex (fst (attach 7 demo_open))) div 2 + sl_en2_size (fst (attach 7 demo_open)) = 8"
  using slot_partition [of 7 demo_open _ _ 9 "snd (attach 7 demo_open)", OF surjective_pairing _ surjective_pairing]
  by (simp add: attach_def Let_def demo_open_def demo_client_def on_connected_def new_up_client_def
      demo_config_def)

text \<open>
  C19. A share the proxy forwards reaches the pool unchanged: what \<open>submit\<close> posts for a known job and
  well-formed text is one \<open>SubmitSharesExtended\<close> frame that the pool's reader decodes to the open
  channel, the next sequence number, the Stratum V2 job behind the miner's job id, the nonce, the
  time, the version and the extranonce bytes, and the caller's callback is filed under that number.
\<close>

theorem share_forwarded:
  assumes "up_channel_ok c" "up_connected c" "map_of (up_jobid_map c) (us_job_id s) = Some job"
    and "length en \<le> 32" "us_en2_full_hex s = bytes_to_hex en"
    and "us_nonce_hex s = fmt_08x nonce" "us_ntime_hex s = fmt_08x ntime"
  shows "\<exists>ver payload. ver = (case us_version_bits s of Some v \<Rightarrow> v | None \<Rightarrow> ej_version (up_job c)) \<and>
    up_submit s (Some cb) c = Inr [PostSubmit (up_channel_id c) job nonce ntime ver en (Some cb)] \<and>
    snd (post_submit (up_channel_id c) job nonce ntime ver en (Some cb) c) =
      [PostFrame (frame_bytes MSG_SUBMIT_SHARES_EXTENDED payload)] \<and>
    submit_shares_extended_deserialize (new_reader payload) =
      Inr (\<lparr>sse_channel_id = up_channel_id c, sse_sequence_number = up_next_seq c, sse_job_id = job,
            sse_nonce = nonce, sse_ntime = ntime, sse_version = ver, sse_extranonce = en\<rparr>,
           advance (length payload) (new_reader payload)) \<and>
    map_of (up_pending (fst (post_submit (up_channel_id c) job nonce ntime ver en (Some cb) c)))
      (up_next_seq c) = Some cb"
proof -
  let ?ver = "case us_version_bits s of Some v \<Rightarrow> v | None \<Rightarrow> ej_version (up_job c)"
  let ?m = "\<lparr>sse_channel_id = up_channel_id c, sse_sequence_number = up_next_seq c, sse_job_id = job,
    sse_nonce = nonce, sse_ntime = ntime, sse_version = ?ver, sse_extranonce = en\<rparr>"
  let ?p = "enc submit_message ?m"
  have w: "submit_payload (up_channel_id c) (up_next_seq c) job nonce ntime ?ver en new_writer =
      \<lparr>wbuf = ?p\<rparr>"
    using submit_extended.wbuf_put [of ?m new_writer] by (simp add: submit_message_def)
  have "up_submit s (Some cb) c =
      Inr [PostSubmit (up_channel_id c) job nonce ntime ?ver en (Some cb)]"
    using assms by (simp add: up_submit_def Let_def)
  moreover have "snd (post_submit (up_channel_id c) job nonce ntime ?ver en (Some cb) c) =
      [PostFrame (frame_bytes MSG_SUBMIT_SHARES_EXTENDED ?p)]"
    using assms(2) by (simp add: post_submit_def Let_def send_sv2_def frame_bytes_def w)
  moreover have "submit_shares_extended_deserialize (new_reader ?p) =
      Inr (?m, advance (length ?p) (new_reader ?p))"
    using submit_extended.round_trip [of ?m "[]"] assms(4) by simp
  ultimately show ?thesis
    using assms(2) by (intro exI [of _ ?ver] exI [of _ ?p]) (simp add: post_submit_def Let_def update_conv')
qed

lemma share_forwarded_witness:
  "\<exists>ver. up_submit \<lparr>us_job_id = ''a'', us_en2_full_hex = bytes_to_hex [1, 2], us_ntime_hex = fmt_08x 9,
      us_nonce_hex = fmt_08x 5, us_version_bits = None\<rparr> (Some 3)
      (demo_open\<lparr>up_jobid_map := [(''a'', 77)]\<rparr>) =
    Inr [PostSubmit 0 77 5 9 ver [1, 2] (Some 3)]"
  using share_forwarded [of "demo_open\<lparr>up_jobid_map := [(''a'', 77)]\<rparr>"
      "\<lparr>us_job_id = ''a'', us_en2_full_hex = bytes_to_hex [1, 2], us_ntime_hex = fmt_08x 9,
        us_nonce_hex = fmt_08x 5, us_version_bits = None\<rparr>" 77 "[1, 2]" 5 9 3]
  by (auto simp: demo_open_def demo_client_def on_connected_def new_up_client_def)

text \<open>
  C18. Every forwarded share is answered once and with the pool's verdict: a success message runs the
  callbacks of exactly the pending shares up to its sequence number and forgets them, an error
  message runs and forgets at most the one it names, and every other share stays pending.
\<close>

theorem submit_answers:
  assumes "distinct (map fst (up_pending c))"
  shows "(\<forall>n cb. map_of (up_pending c) n = Some cb \<longrightarrow>
      (n \<le> seq \<longrightarrow> RunCallback cb True '''' \<in> set (snd (on_submit_result seq True '''' c))) \<and>
      map_of (up_pending (fst (on_submit_result seq True '''' c))) n =
        (if n \<le> seq then None else Some cb) \<and>
      map_of (up_pending (fst (on_submit_result seq False err c))) n =
        (if n = seq then None else Some cb)) \<and>
    length (snd (on_submit_result seq True '''' c)) +
      length (up_pending (fst (on_submit_result seq True '''' c))) = length (up_pending c) \<and>
    snd (on_submit_result seq False err c) =
      (case map_of (up_pending c) seq of Some cb \<Rightarrow> [RunCallback cb False err] | None \<Rightarrow> [])"
proof -
  have keep: "map_of (filter (\<lambda>p. P (fst p)) ps) n = (if P n then map_of ps n else None)" for P ps n
    by (induction ps) auto
  have sum: "length (filter P ps) + length (filter (\<lambda>p. \<not> P p) ps) = length ps" for P ps
    by (induction ps) auto
  show ?thesis
    using sum [of "\<lambda>p. fst p \<le> seq" "up_pending c"]
    by (auto simp: on_submit_result_def take_acked_def delete_conv' image_iff
        keep [of "\<lambda>n. \<not> n \<le> seq"] dest: map_of_SomeD)
qed

lemma submit_answers_witness:
  "up_pending (fst (on_submit_result 4 True ''''
      (demo_open\<lparr>up_pending := [(3, 30), (5, 50)]\<rparr>))) = [(5, 50)] \<and>
   snd (on_submit_result 5 False ''x'' (demo_open\<lparr>up_pending := [(3, 30), (5, 50)]\<rparr>)) =
     [RunCallback 50 False ''x'']"
  using submit_answers [of "demo_open\<lparr>up_pending := [(3, 30), (5, 50)]\<rparr>" 5 "''x''"]
  by (simp add: on_submit_result_def take_acked_def)

lemma trim_jobs_short: "length order \<le> 32 \<Longrightarrow> trim_jobs m order = (m, order)"
  by (cases order) simp_all

lemma trim_jobs_keeps:
  assumes "j \<notin> set order" "length order \<le> 32" "map_of m j = Some x"
  shows "map_of (fst (trim_jobs m (order @ [j]))) j = Some x"
proof (cases "length order = 32")
  case True
  then obtain i rest where order: "order = i # rest" by (cases order) auto
  then have "trim_jobs m (order @ [j]) = (AList.delete i m, rest @ [j])"
    using True by (simp add: trim_jobs_short)
  then show ?thesis using assms order by auto
next
  case False
  then have "trim_jobs m (order @ [j]) = (m, order @ [j])"
    using assms(2) by (simp add: trim_jobs_short)
  then show ?thesis using assms(3) by simp
qed

text \<open>
  C20. The work of the pool reaches the miners unchanged: after a \<open>NewExtendedMiningJob\<close> and the
  \<open>SetNewPrevHash\<close> that activates it, as the pool serializes them, every live subscriber is sent one
  job whose coinbase halves, merkle branch, version, bits, time and previous hash (with its words
  swapped for the Stratum V1 order) are those of the two messages, and a share for the job's id is
  submitted under the pool's own job number.
\<close>

theorem job_translated:
  assumes "length (nej_merkle_path j) \<le> 255" "\<forall>h \<in> set (nej_merkle_path j). length h = 32"
    and "length (nej_coinbase_tx_prefix j) \<le> 65535" "length (nej_coinbase_tx_suffix j) \<le> 65535"
    and "nej_min_ntime j = None" "length (snp_prev_hash ph) = 32"
    and "length (up_jobid_order c) \<le> 32" "fmt_08x (nej_job_id j) \<notin> set (up_jobid_order c)"
    and "hdr_msg_type h1 = MSG_NEW_EXTENDED_MINING_JOB" "hdr_msg_type h2 = MSG_SET_NEW_PREV_HASH"
    and "run_handler E h1 (enc new_extended_mining_job_serialize j) c = (c1, acts1)"
    and "run_handler E h2 (enc set_new_prev_hash_serialize ph) c1 = (c2, acts2)"
  shows "\<exists>n. acts1 = [] \<and> acts2 = map (\<lambda>s. SinkJob s n) (live_sinks E c) \<and> up_cur_notify c2 = Some n \<and>
    pn_job_id n = fmt_08x (nej_job_id j) \<and>
    map_of (up_jobid_map c2) (pn_job_id n) = Some (nej_job_id j) \<and>
    hex_to_bytes (pn_coinbase1 n) = Inr (nej_coinbase_tx_prefix j) \<and>
    hex_to_bytes (pn_coinbase2 n) = Inr (nej_coinbase_tx_suffix j) \<and>
    map hex_to_bytes (pn_merkle_branch n) = map Inr (nej_merkle_path j) \<and>
    hex_to_bytes (swap_words_hex (pn_prevhash_stratum n)) = Inr (snp_prev_hash ph) \<and>
    pn_version n = nej_version j \<and> parse_hex_u32 (pn_bits n) = Some (snp_nbits ph) \<and>
    parse_hex_u32 (pn_ntime n) = Some (snp_min_ntime ph) \<and> pn_clean n"
proof -
  define c1' where "c1' = fst (on_extended_job E j c)"
  have d1: "decode_extended_job (new_reader (enc new_extended_mining_job_serialize j)) =
      Inr (j, advance (length (enc new_extended_mining_job_serialize j))
        (new_reader (enc new_extended_mining_job_serialize j)))"
    using extended_job.round_trip [of j "[]"] assms(1-4) by simp
  have d2: "decode_prev_hash (new_reader (enc set_new_prev_hash_serialize ph)) =
      Inr (ph, advance (length (enc set_new_prev_hash_serialize ph))
        (new_reader (enc set_new_prev_hash_serialize ph)))"
    using prev_hash.round_trip [of ph "[]"] assms(6) by simp
  have r1: "c1 = c1'" "acts1 = []"
    using assms(11) d1 assms(5,9)
    by (simp_all add: run_handler_def handle_frame_def handle_def Let_def msg_codes c1'_def
        on_extended_job_def)
  define c2' where "c2' = c1\<lparr>up_prev := \<lparr>pw_sv2_job_id = snp_job_id ph, pw_prev_hash = snp_prev_hash ph,
    pw_min_ntime = snp_min_ntime ph, pw_nbits = snp_nbits ph, pw_have = True\<rparr>\<rparr>"
  have have_job: "ej_have (up_job c1)" "ej_sv2_job_id (up_job c1) = nej_job_id j"
    "up_jobid_order c1 = up_jobid_order c" "live_sinks E c1 = live_sinks E c"
    unfolding r1 c1'_def using assms(5) by (simp_all add: on_extended_job_def Let_def live_sinks_def)
  have "run_handler E h2 (enc set_new_prev_hash_serialize ph) c1 = on_set_prev_hash E ph c1"
    using d2 assms(10) by (simp add: run_handler_def handle_frame_def handle_def Let_def msg_codes)
  also have "\<dots> = rebuild_and_broadcast E True c2'"
    using have_job by (simp add: on_set_prev_hash_def c2'_def)
  finally have r2: "rebuild_and_broadcast E True c2' = (c2, acts2)" using assms(12) by simp
  define n where "n = make_notify True c2'"
  have id: "pn_job_id n = fmt_08x (nej_job_id j)"
    by (simp add: n_def make_notify_def Let_def c2'_def have_job)
  let ?m = "AList.update (pn_job_id n) (nej_job_id j) (up_jobid_map c1)"
  have keep: "map_of (fst (trim_jobs ?m (up_jobid_order c @ [pn_job_id n]))) (pn_job_id n) = Some (nej_job_id j)"
    using assms(7,8) by (intro trim_jobs_keeps) (simp_all add: id update_conv')
  have res: "acts2 = map (\<lambda>s. SinkJob s n) (live_sinks E c)" "up_cur_notify c2 = Some n"
    "map_of (up_jobid_map c2) (pn_job_id n) = Some (nej_job_id j)"
    using r2 keep have_job
    by (auto simp: rebuild_and_broadcast_def Let_def c2'_def n_def [unfolded c2'_def] live_sinks_def split_beta)
  have fields: "hex_to_bytes (pn_coinbase1 n) = Inr (nej_coinbase_tx_prefix j)"
    "hex_to_bytes (pn_coinbase2 n) = Inr (nej_coinbase_tx_suffix j)"
    "map hex_to_bytes (pn_merkle_branch n) = map Inr (nej_merkle_path j)"
    "pn_version n = nej_version j" "parse_hex_u32 (pn_bits n) = Some (snp_nbits ph)"
    "parse_hex_u32 (pn_ntime n) = Some (snp_min_ntime ph)" "pn_clean n"
    by (simp_all add: n_def make_notify_def Let_def c2'_def r1 c1'_def on_extended_job_def assms(5) comp_def)
  have "pn_prevhash_stratum n = bytes_to_hex (swap_words (snp_prev_hash ph))"
    using assms(6) by (simp add: n_def make_notify_def Let_def c2'_def swap_words_hex_bytes)
  then have "hex_to_bytes (swap_words_hex (pn_prevhash_stratum n)) = Inr (snp_prev_hash ph)"
    using assms(6) by (simp add: swap_words_hex_bytes swap_words_involutive)
  with res fields id r1 show ?thesis by blast
qed

definition demo_job :: new_extended_mining_job where
  "demo_job = \<lparr>nej_channel_id = 1, nej_job_id = 5, nej_min_ntime = None, nej_version = 2,
     nej_version_rolling_allowed = True, nej_merkle_path = [], nej_coinbase_tx_prefix = [1],
     nej_coinbase_tx_suffix = [2]\<rparr>"

definition demo_prev :: set_new_prev_hash where
  "demo_prev = \<lparr>snp_channel_id = 1, snp_job_id = 5, snp_prev_hash = replicate 32 7,
     snp_min_ntime = 9, snp_nbits = 0x1d00ffff\<rparr>"

lemma job_translated_witness:
  "\<exists>n. up_cur_notify (fst (run_handler demo_env
      \<lparr>hdr_extension_type = 0, hdr_msg_type = MSG_SET_NEW_PREV_HASH, hdr_msg_length = 0\<rparr>
      (enc set_new_prev_hash_serialize demo_prev)
      (fst (run_handler demo_env
        \<lparr>hdr_extension_type = 0, hdr_msg_type = MSG_NEW_EXTENDED_MINING_JOB, hdr_msg_length = 0\<rparr>
        (enc new_extended_mining_job_serialize demo_job) demo_open)))) = Some n \<and>
    hex_to_bytes (pn_coinbase1 n) = Inr [1]"
  using job_translated [of demo_job demo_prev demo_open
      "\<lparr>hdr_extension_type = 0, hdr_msg_type = MSG_NEW_EXTENDED_MINING_JOB, hdr_msg_length = 0\<rparr>"
      "\<lparr>hdr_extension_type = 0, hdr_msg_type = MSG_SET_NEW_PREV_HASH, hdr_msg_length = 0\<rparr>" demo_env,
      OF _ _ _ _ _ _ _ _ _ _ surjective_pairing surjective_pairing]
  by (auto simp: demo_job_def demo_prev_def demo_open_def demo_client_def on_connected_def
      new_up_client_def)

section \<open>Two defects of the client\<close>

text \<open>
  A write that has completed when the link is torn down still has its handler queued; the handler
  then takes the front of a queue that \<open>teardown\<close> has emptied.
\<close>

theorem write_completion_after_teardown:
  "reachable demo_config (new_frame_in, fst (post_frame f demo_client)) \<and>
   up_writing (fst (post_frame f demo_client)) \<and>
   on_written E False (snd (fst (on_read E None (new_frame_in, fst (post_frame f demo_client))))) = None"
proof -
  have "reachable demo_config (new_frame_in, demo_client)"
    unfolding demo_client_def
    by (rule reachable.connected [OF reachable.init]) (simp_all add: new_frame_in_def)
  then have "reachable demo_config (new_frame_in, fst (post_frame f demo_client))"
    by (rule reachable.frame)
  then show ?thesis
    by (simp add: on_read_def on_written_def split_beta)
      (simp add: post_frame_def do_write_def demo_client_def on_connected_def new_up_client_def)
qed

text \<open>
  A job broadcast again enters the eviction order a second time, so its first entry, once 32 others
  follow it, evicts the mapping of the job that was just announced.
\<close>

theorem live_job_evicted:
  assumes "ej_have (up_job c)" "pw_have (up_prev c)"
    and "up_jobid_order c = fmt_08x (ej_sv2_job_id (up_job c)) # js" "length js = 31"
    and "distinct (map fst (up_jobid_map c))"
  shows "\<exists>n. up_cur_notify (fst (rebuild_and_broadcast E clean c)) = Some n \<and>
    map_of (up_jobid_map (fst (rebuild_and_broadcast E clean c))) (pn_job_id n) = None"
  using assms
  by (simp add: rebuild_and_broadcast_def Let_def split_beta trim_jobs_short)
    (simp add: make_notify_def Let_def delete_conv')

end
