(* ===== verification/Address.thy ===== *)
theory Address
  imports Stdlib
begin

text \<open>
  \<open>src/address.cpp\<close>: payout addresses. Base58Check, bech32 and bech32m, CashAddr, the detection of
  the format and the output script of a decoded address. \<open>std::expected\<close> is a sum with the code's
  \<open>Error\<close> on the left; SHA-256 (OpenSSL) is a parameter that may throw, which \<open>decode\<close> turns into
  \<open>Internal\<close>.
\<close>

datatype network =
    BitcoinMainnet | BitcoinTestnet | BitcoinSignet | BitcoinRegtest
  | BchMainnet | BchTestnet | BchRegtest

datatype addr_type = P2PKH | P2SH | P2WPKH | P2WSH | P2TR | BchP2PKH | BchP2SH

datatype addr_error =
    Empty | UnknownPrefix | BadLength | BadChecksum | BadCharacter | UnsupportedVersion
  | UnsupportedNetwork | Internal

record decoded =
  d_type :: addr_type
  d_network :: network
  d_program :: bytes

section \<open>Text\<close>

fun index_of :: "'a \<Rightarrow> 'a list \<Rightarrow> nat option" where
  "index_of c [] = None"
| "index_of c (x # xs) = (if x = c then Some 0 else map_option Suc (index_of c xs))"

definition rfind :: "'a \<Rightarrow> 'a list \<Rightarrow> nat option" where
  "rfind c s = map_option (\<lambda>i. length s - 1 - i) (index_of c (rev s))"

definition is_upper :: "char \<Rightarrow> bool" where
  "is_upper c = (let n = of_char c :: nat in 65 \<le> n \<and> n \<le> 90)"

definition is_lower :: "char \<Rightarrow> bool" where
  "is_lower c = (let n = of_char c :: nat in 97 \<le> n \<and> n \<le> 122)"

definition lower :: "char \<Rightarrow> char" where
  "lower c = (if is_upper c then char_of (of_char c + 32 :: nat) else c)"

definition mixed_case :: "string \<Rightarrow> bool" where
  "mixed_case s \<longleftrightarrow> list_ex is_upper s \<and> list_ex is_lower s"

section \<open>Base58Check\<close>

definition b58_alphabet :: string where
  "b58_alphabet = ''123456789ABCDEFGHJKLMNPQRSTUVWXYZabcdefghijkmnopqrstuvwxyz''"

definition b58_digit :: "char \<Rightarrow> nat option" where
  "b58_digit c = index_of c b58_alphabet"

text \<open>The inner loop: from the last byte to the first, \<open>carry += 58 * byte\<close>.\<close>

fun b58_round :: "nat \<Rightarrow> bytes \<Rightarrow> bytes \<times> nat" where
  "b58_round carry [] = ([], carry)"
| "b58_round carry (b # bs) =
     (let (bs', c) = b58_round carry bs; c = c + 58 * unat b
      in (of_nat (c mod 256) # bs', c div 256))"

fun b58_loop :: "bytes \<Rightarrow> string \<Rightarrow> addr_error + bytes" where
  "b58_loop b256 [] = Inr b256"
| "b58_loop b256 (c # s) =
     (case b58_digit c of
        None \<Rightarrow> Inl BadCharacter
      | Some d \<Rightarrow>
          let (b256', carry) = b58_round d b256
          in if carry \<noteq> 0 then Inl BadLength else b58_loop b256' s)"

definition base58_decode :: "string \<Rightarrow> addr_error + bytes" where
  "base58_decode s =
     (let zeros = length (takeWhile (\<lambda>c. c = CHR ''1'') s);
          b256 = replicate (length s * 733 div 1000 + 1) 0
      in bind_res (b58_loop b256 (drop zeros s)) (\<lambda>b256.
           Inr (replicate zeros 0 @ dropWhile (\<lambda>b. b = 0) b256)))"

type_synonym hash = "bytes \<Rightarrow> bytes result"

definition base58check_verify :: "hash \<Rightarrow> bytes \<Rightarrow> bool result" where
  "base58check_verify sha256 payload =
     (if length payload < 5 then Inr False
      else let body = take (length payload - 4) payload; sum = drop (length payload - 4) payload
           in bind_res (sha256 body) (\<lambda>h1. bind_res (sha256 h1) (\<lambda>h2. Inr (take 4 h2 = sum))))"

section \<open>Bech32 and bech32m\<close>

definition bech32_charset :: string where
  "bech32_charset = ''qpzry9x8gf2tvdw0s3jn54khce6mua7l''"

definition bech32_const :: u32 where "bech32_const = 1"
definition bech32m_const :: u32 where "bech32m_const = 0x2bc830a3"

definition bech32_gen :: "u32 list" where
  "bech32_gen = [0x3b6a57b2, 0x26508e6d, 0x1ea119fa, 0x3d4233dd, 0x2a1462b3]"

definition bech32_step :: "u32 \<Rightarrow> u8 \<Rightarrow> u32" where
  "bech32_step chk v =
     (let b = drop_bit 25 chk;
          chk = push_bit 5 (chk AND 0x1ffffff) XOR ucast v
      in fold (\<lambda>i chk. if drop_bit i b AND 1 \<noteq> 0 then chk XOR bech32_gen ! i else chk) [0..<5] chk)"

definition bech32_polymod :: "u8 list \<Rightarrow> u32" where
  "bech32_polymod values = fold (\<lambda>v chk. bech32_step chk v) values 1"

definition bech32_hrp_expand :: "string \<Rightarrow> u8 list" where
  "bech32_hrp_expand hrp =
     map (\<lambda>c. drop_bit 5 (byte_of_char c)) hrp @ [0] @ map (\<lambda>c. byte_of_char c AND 31) hrp"

text \<open>The characters of the data part as numbers below 32.\<close>

fun symbols :: "string \<Rightarrow> string \<Rightarrow> addr_error + u8 list" where
  "symbols charset [] = Inr []"
| "symbols charset (c # s) =
     (case index_of c charset of
        None \<Rightarrow> Inl BadCharacter
      | Some i \<Rightarrow> bind_res (symbols charset s) (\<lambda>vs. Inr (of_nat i # vs)))"

definition bech32_decode :: "string \<Rightarrow> string \<Rightarrow> addr_error + (nat \<times> u8 list)" where
  "bech32_decode hrp_expected s =
     (if mixed_case s then Inl BadCharacter
      else let low = map lower s
           in case rfind (CHR ''1'') low of
                None \<Rightarrow> Inl BadLength
              | Some pos \<Rightarrow>
                  if pos < 1 \<or> pos + 7 > length low then Inl BadLength
                  else let hrp = take pos low
                       in if hrp \<noteq> hrp_expected then Inl UnknownPrefix
                          else bind_res (symbols bech32_charset (drop (pos + 1) low)) (\<lambda>values.
                            let chk = bech32_polymod (bech32_hrp_expand hrp @ values);
                                data = take (length values - 6) values
                            in if chk = bech32_const then Inr (0, data)
                               else if chk = bech32m_const then Inr (1, data)
                               else Inl BadChecksum))"

section \<open>Regrouping of bits\<close>

text \<open>The inner \<open>while\<close>; \<open>bits\<close> is a small nonnegative number.\<close>

function emit_bits :: "u32 \<Rightarrow> nat \<Rightarrow> nat \<Rightarrow> bytes \<times> nat" where
  "emit_bits acc to_bits bits =
     (if to_bits = 0 \<or> bits < to_bits then ([], bits)
      else let bits = bits - to_bits;
               (out, bits') = emit_bits acc to_bits bits
           in (ucast (drop_bit bits acc AND (push_bit to_bits 1 - 1)) # out, bits'))"
  by pat_completeness auto
termination
  by (relation "measure (\<lambda>(_, _, bits). bits)") auto

fun regroup :: "nat \<Rightarrow> nat \<Rightarrow> u32 \<Rightarrow> nat \<Rightarrow> u8 list \<Rightarrow> addr_error + (bytes \<times> u32 \<times> nat)" where
  "regroup from to acc bits [] = Inr ([], acc, bits)"
| "regroup from to acc bits (v # vs) =
     (if drop_bit from v \<noteq> 0 then Inl BadCharacter
      else let acc = (push_bit from acc OR ucast v) AND (push_bit (from + to - 1) 1 - 1);
               (out, bits) = emit_bits acc to (bits + from)
           in bind_res (regroup from to acc bits vs) (\<lambda>(out', acc, bits).
                Inr (out @ out', acc, bits)))"

definition convert_bits :: "u8 list \<Rightarrow> nat \<Rightarrow> nat \<Rightarrow> bool \<Rightarrow> addr_error + bytes" where
  "convert_bits vs from to pad =
     (let maxv = push_bit to 1 - 1
      in bind_res (regroup from to 0 0 vs) (\<lambda>(out, acc, bits).
           if pad
           then Inr (out @ (if bits \<noteq> 0 then [ucast (push_bit (to - bits) acc AND maxv)] else []))
           else if bits \<ge> from \<or> push_bit (to - bits) acc AND maxv \<noteq> 0 then Inl BadLength
           else Inr out))"

record segwit_info =
  sw_version :: nat
  sw_program :: bytes
  sw_encoding :: nat

definition segwit_decode :: "string \<Rightarrow> string \<Rightarrow> addr_error + segwit_info" where
  "segwit_decode hrp s =
     bind_res (bech32_decode hrp s) (\<lambda>(enc, data).
     if data = [] then Inl BadLength
     else let version = unat (hd data)
          in if version > 16 then Inl UnsupportedVersion
             else bind_res (convert_bits (tl data) 5 8 False) (\<lambda>prog.
               if length prog < 2 \<or> length prog > 40 then Inl BadLength
               else if version = 0 \<and> length prog \<noteq> 20 \<and> length prog \<noteq> 32 then Inl BadLength
               else if (version = 0 \<and> enc \<noteq> 0) \<or> (version \<ge> 1 \<and> enc \<noteq> 1) then Inl BadChecksum
               else Inr \<lparr>sw_version = version, sw_program = prog, sw_encoding = enc\<rparr>))"

section \<open>CashAddr\<close>

definition cash_gen :: "u64 list" where
  "cash_gen = [0x98f2bc8e61, 0x79b76d99e2, 0xf33e5fb3c4, 0xae2eabe2a8, 0x1e4f43e470]"

definition cash_step :: "u64 \<Rightarrow> u8 \<Rightarrow> u64" where
  "cash_step c d =
     (let c0 = ucast (drop_bit 35 c) :: u8;
          c = push_bit 5 (c AND 0x07ffffffff) XOR ucast d
      in fold (\<lambda>i c. if drop_bit i c0 AND 1 \<noteq> 0 then c XOR cash_gen ! i else c) [0..<5] c)"

definition cashaddr_polymod :: "u8 list \<Rightarrow> u64" where
  "cashaddr_polymod v = fold (\<lambda>d c. cash_step c d) v 1 XOR 1"

definition cashaddr_expand_prefix :: "string \<Rightarrow> u8 list" where
  "cashaddr_expand_prefix prefix = map (\<lambda>c. byte_of_char c AND 0x1f) prefix @ [0]"

record cash_decoded =
  cash_prefix :: string
  cash_type :: u8
  cash_hash :: bytes

definition cash_sizes :: "nat list" where
  "cash_sizes = [160, 192, 224, 256, 320, 384, 448, 512]"

definition cashaddr_decode :: "string \<Rightarrow> addr_error + cash_decoded" where
  "cashaddr_decode s =
     (let (prefix, payload) =
            (case index_of (CHR '':'') s of
               Some colon \<Rightarrow> (take colon s, drop (colon + 1) s)
             | None \<Rightarrow> (''bitcoincash'', s))
      in if mixed_case payload then Inl BadCharacter
         else let prefix = map lower prefix
              in bind_res (symbols bech32_charset (map lower payload)) (\<lambda>values.
                if length values < 8 then Inl BadLength
                else if cashaddr_polymod (cashaddr_expand_prefix prefix @ values) \<noteq> 0
                then Inl BadChecksum
                else bind_res (convert_bits (take (length values - 8) values) 5 8 False) (\<lambda>bs.
                  if bs = [] then Inl BadLength
                  else let version = hd bs;
                           typ = drop_bit 3 version AND 0x1f;
                           size_bits = version AND 0x07;
                           expected = cash_sizes ! unat size_bits div 8
                       in if length bs - 1 \<noteq> expected then Inl BadLength
                          else Inr \<lparr>cash_prefix = prefix, cash_type = typ, cash_hash = tl bs\<rparr>)))"

section \<open>Detection of the format\<close>

definition cash_network :: "string \<Rightarrow> network option" where
  "cash_network p =
     (if p = ''bitcoincash'' \<or> p = ''ecash'' \<or> p = ''bitcoincashii'' then Some BchMainnet
      else if p = ''bchtest'' \<or> p = ''ectest'' then Some BchTestnet
      else if p = ''bchreg'' \<or> p = ''ecreg'' then Some BchRegtest
      else None)"

definition try_bech :: "string \<Rightarrow> string \<Rightarrow> network \<Rightarrow> decoded option" where
  "try_bech addr hrp net =
     (if length addr > length hrp + 1 \<and> lower (addr ! 0) = hrp ! 0 \<and>
         lower (addr ! 1) = (if length hrp > 1 then hrp ! 1 else CHR 0x00) \<and>
         (addr ! length hrp = CHR ''1'' \<or> (length hrp \<ge> 3 \<and> lower (addr ! 2) = hrp ! 2))
      then case segwit_decode hrp addr of
             Inl _ \<Rightarrow> None
           | Inr sw \<Rightarrow>
               let prog = sw_program sw
               in if sw_version sw = 0 \<and> length prog = 20
                  then Some \<lparr>d_type = P2WPKH, d_network = net, d_program = prog\<rparr>
                  else if sw_version sw = 0 \<and> length prog = 32
                  then Some \<lparr>d_type = P2WSH, d_network = net, d_program = prog\<rparr>
                  else if sw_version sw = 1 \<and> length prog = 32
                  then Some \<lparr>d_type = P2TR, d_network = net, d_program = prog\<rparr>
                  else None
      else None)"

definition bech_prefixes :: "(string \<times> network) list" where
  "bech_prefixes =
     [(''bc'', BitcoinMainnet), (''tb'', BitcoinTestnet), (''bcrt'', BitcoinRegtest),
      (''ltc'', BitcoinMainnet), (''tltc'', BitcoinTestnet), (''dgb'', BitcoinMainnet),
      (''dgbt'', BitcoinTestnet), (''tdgb'', BitcoinTestnet)]"

fun try_bechs :: "string \<Rightarrow> (string \<times> network) list \<Rightarrow> decoded option" where
  "try_bechs addr [] = None"
| "try_bechs addr ((hrp, net) # ps) =
     (case try_bech addr hrp net of Some d \<Rightarrow> Some d | None \<Rightarrow> try_bechs addr ps)"

text \<open>The version bytes of Base58Check addresses, and Zcash's two-byte ones.\<close>

definition b58_version :: "u8 \<Rightarrow> (addr_type \<times> network) option" where
  "b58_version v =
     (if v = 0x00 then Some (P2PKH, BitcoinMainnet) else if v = 0x05 then Some (P2SH, BitcoinMainnet)
      else if v = 0x6f then Some (P2PKH, BitcoinTestnet) else if v = 0xc4 then Some (P2SH, BitcoinTestnet)
      else if v = 0x30 then Some (P2PKH, BitcoinMainnet) else if v = 0x32 then Some (P2SH, BitcoinMainnet)
      else if v = 0x3a then Some (P2SH, BitcoinTestnet)
      else if v = 0x1e then Some (P2PKH, BitcoinMainnet) else if v = 0x16 then Some (P2SH, BitcoinMainnet)
      else if v = 0x71 then Some (P2PKH, BitcoinTestnet)
      else if v = 0x3f then Some (P2SH, BitcoinMainnet) else if v = 0x7e then Some (P2PKH, BitcoinTestnet)
      else if v = 0x8c then Some (P2SH, BitcoinTestnet)
      else None)"

definition zcash_version :: "u16 \<Rightarrow> (addr_type \<times> network) option" where
  "zcash_version v =
     (if v = 0x1cb8 then Some (P2PKH, BitcoinMainnet) else if v = 0x1cbd then Some (P2SH, BitcoinMainnet)
      else if v = 0x1d25 then Some (P2PKH, BitcoinTestnet) else if v = 0x1cba then Some (P2SH, BitcoinTestnet)
      else None)"

definition with_version :: "(addr_type \<times> network) option \<Rightarrow> bytes \<Rightarrow> addr_error + decoded" where
  "with_version tn body =
     (if length body \<noteq> 20 then Inl BadLength
      else case tn of
             None \<Rightarrow> Inl UnsupportedVersion
           | Some (t, net) \<Rightarrow> Inr \<lparr>d_type = t, d_network = net, d_program = body\<rparr>)"

definition decode_base58 :: "hash \<Rightarrow> string \<Rightarrow> (addr_error + decoded) result" where
  "decode_base58 sha256 addr =
     (case base58_decode addr of
        Inl _ \<Rightarrow> Inr (Inl UnknownPrefix)
      | Inr raw \<Rightarrow>
          if length raw < 5 then Inr (Inl BadLength)
          else bind_res (base58check_verify sha256 raw) (\<lambda>ok.
            if \<not> ok then Inr (Inl BadChecksum)
            else if length raw = 26
            then Inr (with_version (zcash_version (push_bit 8 (ucast (raw ! 0)) OR ucast (raw ! 1)))
                   (drop 2 (take (length raw - 4) raw)))
            else Inr (with_version (b58_version (raw ! 0)) (drop 1 (take (length raw - 4) raw)))))"

definition decode_rest :: "hash \<Rightarrow> string \<Rightarrow> (addr_error + decoded) result" where
  "decode_rest sha256 addr =
     (case try_bechs addr bech_prefixes of
        Some d \<Rightarrow> Inr (Inr d)
      | None \<Rightarrow> decode_base58 sha256 addr)"

definition decode_impl :: "hash \<Rightarrow> string \<Rightarrow> (addr_error + decoded) result" where
  "decode_impl sha256 addr =
     (if addr = [] then Inr (Inl Empty)
      else if length addr > 128 then Inr (Inl BadLength)
      else let colon = index_of (CHR '':'') addr;
               first = lower (addr ! 0);
               prefixless = (colon = None \<and> (first = CHR ''q'' \<or> first = CHR ''p'' \<or> first = CHR ''r''))
           in if colon \<noteq> None \<or> prefixless
              then case cashaddr_decode addr of
                     Inr cad \<Rightarrow>
                       (case cash_network (cash_prefix cad) of
                          None \<Rightarrow> Inr (Inl UnsupportedNetwork)
                        | Some net \<Rightarrow> Inr (Inr \<lparr>d_type = (if cash_type cad = 0 then BchP2PKH else BchP2SH),
                            d_network = net, d_program = cash_hash cad\<rparr>))
                   | Inl e \<Rightarrow> if colon \<noteq> None then Inr (Inl e) else decode_rest sha256 addr
              else decode_rest sha256 addr)"

definition decode :: "hash \<Rightarrow> string \<Rightarrow> addr_error + decoded" where
  "decode sha256 addr = (case decode_impl sha256 addr of Inr r \<Rightarrow> r | Inl _ \<Rightarrow> Inl Internal)"

section \<open>Scripts\<close>

definition script_pubkey_hex :: "decoded \<Rightarrow> string" where
  "script_pubkey_hex d =
     (case d_type d of
        P2PKH \<Rightarrow> ''76a914'' @ bytes_to_hex (d_program d) @ ''88ac''
      | BchP2PKH \<Rightarrow> ''76a914'' @ bytes_to_hex (d_program d) @ ''88ac''
      | P2SH \<Rightarrow> ''a914'' @ bytes_to_hex (d_program d) @ ''87''
      | BchP2SH \<Rightarrow> ''a914'' @ bytes_to_hex (d_program d) @ ''87''
      | P2WPKH \<Rightarrow> ''0014'' @ bytes_to_hex (d_program d)
      | P2WSH \<Rightarrow> ''0020'' @ bytes_to_hex (d_program d)
      | P2TR \<Rightarrow> ''5120'' @ bytes_to_hex (d_program d))"

definition decode_to_script_hex :: "hash \<Rightarrow> string \<Rightarrow> addr_error + string" where
  "decode_to_script_hex sha256 addr = bind_res (decode sha256 addr) (\<lambda>d. Inr (script_pubkey_hex d))"

definition output_vbytes :: "addr_type \<Rightarrow> nat" where
  "output_vbytes t =
     (case t of P2PKH \<Rightarrow> 34 | BchP2PKH \<Rightarrow> 34 | P2SH \<Rightarrow> 32 | BchP2SH \<Rightarrow> 32 | P2WPKH \<Rightarrow> 31
      | P2WSH \<Rightarrow> 43 | P2TR \<Rightarrow> 43)"

definition error_to_string :: "addr_error \<Rightarrow> string" where
  "error_to_string e =
     (case e of
        Empty \<Rightarrow> ''empty'' | UnknownPrefix \<Rightarrow> ''unknown prefix'' | BadLength \<Rightarrow> ''bad length''
      | BadChecksum \<Rightarrow> ''bad checksum'' | BadCharacter \<Rightarrow> ''bad character''
      | UnsupportedVersion \<Rightarrow> ''unsupported version'' | UnsupportedNetwork \<Rightarrow> ''unsupported network''
      | Internal \<Rightarrow> ''internal decoder error'')"

end
