(* ===== verification/Checksum.thy ===== *)
theory Checksum
  imports Address
begin

text \<open>
  The contract behind both address checksums. \<open>bech32_polymod\<close> and \<open>cashaddr_polymod\<close> fold a step
  over symbols of five bits; the locale states what the step of such a code promises (it is linear,
  stays in \<open>n\<close> symbols, loses nothing and shifts a short state by one symbol) and derives what the
  address formats rest on: a change of one symbol changes the result, and every prefix has exactly
  one tail of \<open>n\<close> symbols with a given result. Both codes of the program are instances.
\<close>

definition run_code :: "('s \<Rightarrow> u8 \<Rightarrow> 's) \<Rightarrow> u8 list \<Rightarrow> 's \<Rightarrow> 's" where
  "run_code stp vs c = fold (\<lambda>v c. stp c v) vs c"

lemma run_code_simps [simp]:
  "run_code stp [] c = c"
  "run_code stp (v # vs) c = run_code stp vs (stp c v)"
  "run_code stp (us @ vs) c = run_code stp vs (run_code stp us c)"
  by (simp_all add: run_code_def)

definition five_bits :: "u8 list \<Rightarrow> bool" where
  "five_bits vs \<longleftrightarrow> (\<forall>v \<in> set vs. v < 32)"

lemma five_bits_simps [simp]:
  "five_bits []" "five_bits (v # vs) \<longleftrightarrow> v < 32 \<and> five_bits vs"
  "five_bits (us @ vs) \<longleftrightarrow> five_bits us \<and> five_bits vs"
  "five_bits (replicate k 0)"
  by (auto simp: five_bits_def)

lemma less_32_take_bit: "v < 32 \<longleftrightarrow> take_bit 5 v = v" for v :: u8
proof -
  have "take_bit 5 v = v \<longleftrightarrow> unat v < 2 ^ 5"
    by (metis take_bit_nat_eq_self_iff unsigned_take_bit_eq word_unat_eq_iff)
  then show ?thesis by (simp add: word_less_nat_alt)
qed

lemma less_32_xor: "u < 32 \<Longrightarrow> v < 32 \<Longrightarrow> u XOR v < 32" for u v :: u8
  by (simp add: less_32_take_bit)

lemma xor_eq_0D: "x XOR y = 0 \<Longrightarrow> x = y" for x y :: "'a::len word"
proof -
  assume "x XOR y = 0"
  moreover have "x = (x XOR y) XOR y" by (simp only: xor.assoc xor_self_eq xor.right_neutral)
  ultimately show "x = y" by simp
qed

text \<open>The \<open>k\<close> symbols of a state, first symbol first.\<close>

fun tail_symbols :: "nat \<Rightarrow> 'a::len word \<Rightarrow> u8 list" where
  "tail_symbols 0 w = []"
| "tail_symbols (Suc k) w = tail_symbols k (drop_bit 5 w) @ [ucast (take_bit 5 w)]"

lemma length_tail_symbols [simp]: "length (tail_symbols k w) = k"
  by (induction k w rule: tail_symbols.induct) simp_all

lemma take_bit_5_unat: "unat (ucast (take_bit 5 w) :: u8) = unat w mod 32" for w :: "'a::len word"
proof -
  have "unat (take_bit 5 w) = unat w mod 32"
    unfolding unsigned_take_bit_eq by (simp add: take_bit_eq_mod)
  then show ?thesis
    by (simp only: unsigned_ucast_eq take_bit_eq_mod) (simp add: mod_mod_cancel)
qed

lemma five_bits_tail [simp]: "five_bits (tail_symbols k w)"
  by (induction k w rule: tail_symbols.induct) (simp_all add: word_less_nat_alt take_bit_5_unat)

locale checksum_code =
  fixes stp :: "'a::len word \<Rightarrow> u8 \<Rightarrow> 'a word" and n :: nat
  assumes stp_xor: "stp (a XOR b) (u XOR v) = stp a u XOR stp b v"
    and stp_bound: "take_bit (5 * n) a = a \<Longrightarrow> take_bit (5 * n) (stp a v) = stp a v"
    and stp_kernel: "take_bit (5 * n) a = a \<Longrightarrow> stp a 0 = 0 \<Longrightarrow> a = 0"
    and stp_shift: "unat a < 2 ^ (5 * (n - 1)) \<Longrightarrow> v < 32 \<Longrightarrow> unat (stp a v) = 32 * unat a + unat v"
    and n_pos: "0 < n" and n_fits: "5 * n \<le> LENGTH('a)"
begin

lemma stp_zero [simp]: "stp 0 0 = 0"
  using stp_xor [of 0 0 0 0] by simp

lemma run_xor: "length us = length vs \<Longrightarrow>
    run_code stp (map2 (XOR) us vs) (a XOR b) = run_code stp us a XOR run_code stp vs b"
proof (induction us vs arbitrary: a b rule: list_induct2)
  case (Cons u us v vs)
  then show ?case by (simp add: stp_xor)
qed simp

lemma run_bound: "take_bit (5 * n) a = a \<Longrightarrow> take_bit (5 * n) (run_code stp vs a) = run_code stp vs a"
  by (induction vs arbitrary: a) (simp_all add: stp_bound)

lemma run_zeros_kernel:
  "take_bit (5 * n) a = a \<Longrightarrow> run_code stp (replicate k 0) a = 0 \<Longrightarrow> a = 0"
proof (induction k arbitrary: a)
  case (Suc k)
  then have "stp a 0 = 0" using stp_bound by simp
  then show ?case using stp_kernel Suc.prems(1) by blast
qed simp

lemma run_zeros_zero [simp]: "run_code stp (replicate k 0) 0 = 0"
  by (induction k) simp_all

lemma map2_xor_zeros: "map2 (XOR) us (replicate (length us) 0) = (us :: u8 list)"
  by (induction us) simp_all

text \<open>Changing one symbol changes the result.\<close>

lemma single_error:
  assumes "x < 32" "y < 32" "x \<noteq> y"
  shows "run_code stp (us @ x # vs) c \<noteq> run_code stp (us @ y # vs) c"
proof
  assume eq: "run_code stp (us @ x # vs) c = run_code stp (us @ y # vs) c"
  let ?s = "run_code stp us c" and ?z = "replicate (length vs) (0 :: u8)"
  have e: "x XOR y \<noteq> 0" using assms(3) xor_eq_0D by blast
  have "run_code stp (map2 (XOR) vs vs) (stp (?s XOR ?s) (x XOR y)) = 0"
    using eq by (simp only: stp_xor run_xor) simp
  moreover have "map2 (XOR) vs vs = ?z" by (induction vs) simp_all
  ultimately have "run_code stp ?z (stp 0 (x XOR y)) = 0" by simp
  then have "stp 0 (x XOR y) = 0"
    using run_zeros_kernel stp_bound [of 0 "x XOR y"] by simp
  then have "unat (x XOR y) = 0" using stp_shift [of 0 "x XOR y"] less_32_xor [OF assms(1,2)] by simp
  then have "x XOR y = 0" by (simp only: unat_eq_0)
  with e show False by contradiction
qed

lemma run_tail_symbols: "k \<le> n \<Longrightarrow> unat w < 2 ^ (5 * k) \<Longrightarrow> run_code stp (tail_symbols k w) 0 = w"
proof (induction k arbitrary: w)
  case 0
  then have "unat w = 0" by simp
  then have "w = 0" by (simp only: unat_eq_0)
  then show ?case by simp
next
  case (Suc k)
  have div: "unat (drop_bit 5 w) = unat w div 32" unfolding unat_drop_bit_eq by (simp add: drop_bit_eq_div)
  have "unat w < 32 * 2 ^ (5 * k)" using Suc.prems(2) by (simp add: power_add)
  then have d: "unat (drop_bit 5 w) < 2 ^ (5 * k)" unfolding div by (simp add: less_mult_imp_div_less mult.commute)
  with Suc have IH: "run_code stp (tail_symbols k (drop_bit 5 w)) 0 = drop_bit 5 w" by simp
  have "(2 :: nat) ^ (5 * k) \<le> 2 ^ (5 * (n - 1))"
    using Suc.prems(1) by (intro power_increasing) auto
  with d have "unat (drop_bit 5 w) < 2 ^ (5 * (n - 1))" by (rule less_le_trans)
  then have "unat (stp (drop_bit 5 w) (ucast (take_bit 5 w))) = 32 * (unat w div 32) + unat w mod 32"
    using stp_shift [of "drop_bit 5 w" "ucast (take_bit 5 w)"] five_bits_tail [of "Suc 0" w]
    by (simp add: div take_bit_5_unat)
  then have "stp (drop_bit 5 w) (ucast (take_bit 5 w)) = w" by (simp add: word_unat_eq_iff)
  with IH show ?case by simp
qed

text \<open>The tail that closes a state \<open>c\<close> with the result \<open>t\<close>.\<close>

lemma run_complete:
  assumes "take_bit (5 * n) c = c" "take_bit (5 * n) t = t"
  shows "run_code stp (tail_symbols n (run_code stp (replicate n 0) c XOR t)) c = t"
proof -
  let ?z = "replicate n (0 :: u8)" and ?w = "run_code stp (replicate n 0) c XOR t"
  have "take_bit (5 * n) ?w = ?w" using assms run_bound by simp
  then have "unat ?w < 2 ^ (5 * n)"
    by (metis unsigned_take_bit_eq take_bit_nat_eq_self_iff)
  then have w: "run_code stp (tail_symbols n ?w) 0 = ?w" by (intro run_tail_symbols) simp
  have "run_code stp (map2 (XOR) ?z (tail_symbols n ?w)) (c XOR 0) =
      run_code stp ?z c XOR run_code stp (tail_symbols n ?w) 0"
    by (rule run_xor) simp
  moreover have "map2 (XOR) (replicate (length xs) 0) xs = xs" for xs :: "u8 list"
    by (induction xs) simp_all
  from this [of "tail_symbols n ?w"] have "map2 (XOR) ?z (tail_symbols n ?w) = tail_symbols n ?w" by simp
  ultimately show ?thesis by (simp add: w flip: xor.assoc)
qed

lemma run_tail_kernel:
  "length zs \<le> n \<Longrightarrow> five_bits zs \<Longrightarrow> run_code stp zs 0 = 0 \<Longrightarrow> zs = replicate (length zs) 0"
  and run_tail_less: "length zs \<le> n \<Longrightarrow> five_bits zs \<Longrightarrow> unat (run_code stp zs 0) < 2 ^ (5 * length zs)"
proof (induction zs rule: rev_induct)
  case (snoc z zs)
  {
    case 2
    then have r: "unat (run_code stp zs 0) < 2 ^ (5 * length zs)" using snoc.IH(2) by simp
    have "(2 :: nat) ^ (5 * length zs) \<le> 2 ^ (5 * (n - 1))" using 2 by (intro power_increasing) auto
    with r have "unat (run_code stp zs 0) < 2 ^ (5 * (n - 1))" by (rule less_le_trans)
    then have "unat (stp (run_code stp zs 0) z) = 32 * unat (run_code stp zs 0) + unat z"
      using 2 by (intro stp_shift) auto
    moreover have "unat z < 32" using 2 by (simp add: word_less_nat_alt)
    ultimately show ?case using r by (simp add: power_add)
  next
    case 1
    then have r: "unat (run_code stp zs 0) < 2 ^ (5 * length zs)" using snoc.IH(2) by simp
    have "(2 :: nat) ^ (5 * length zs) \<le> 2 ^ (5 * (n - 1))" using 1 by (intro power_increasing) auto
    with r have "unat (run_code stp zs 0) < 2 ^ (5 * (n - 1))" by (rule less_le_trans)
    then have "unat (stp (run_code stp zs 0) z) = 32 * unat (run_code stp zs 0) + unat z"
      using 1 by (intro stp_shift) auto
    with 1 have "run_code stp zs 0 = 0" "z = 0" by (simp_all add: unat_eq_0)
    with 1 snoc.IH(1) have "zs @ [z] = replicate (length zs) 0 @ [0]" by simp
    then show ?case by (simp add: replicate_append_same)
  }
qed simp_all

text \<open>The tail is unique.\<close>

lemma run_tail_unique:
  assumes "length xs = n" "length ys = n" "five_bits xs" "five_bits ys"
    and "run_code stp xs c = run_code stp ys c"
  shows "xs = ys"
proof -
  let ?zs = "map2 (XOR) xs ys"
  have "run_code stp ?zs (c XOR c) = 0" using assms by (subst run_xor) simp_all
  moreover have "five_bits ?zs"
    using assms(3,4) less_32_xor by (force simp: five_bits_def dest: set_zip_leftD set_zip_rightD)
  ultimately have z: "?zs = replicate n 0" using run_tail_kernel [of ?zs] assms(1,2) by simp
  have "xs ! i = ys ! i" if "i < n" for i
  proof -
    have "?zs ! i = xs ! i XOR ys ! i" using that assms(1,2) by simp
    then have "xs ! i XOR ys ! i = 0" using z that by simp
    then show ?thesis by (rule xor_eq_0D)
  qed
  then show ?thesis using assms(1,2) by (simp add: nth_equalityI)
qed

end

section \<open>The two codes\<close>

text \<open>
  A generator-based step: shift by a symbol, add the input, and add the generator of every bit that
  was shifted out of the \<open>t + 5\<close> bits of the state.
\<close>

definition gen_step :: "nat \<Rightarrow> 'a::len word list \<Rightarrow> 'a word \<Rightarrow> u8 \<Rightarrow> 'a word" where
  "gen_step t G c v =
     push_bit 5 (take_bit t c) XOR ucast v XOR
     (if bit c t then G ! 0 else 0) XOR (if bit c (t + 1) then G ! 1 else 0) XOR
     (if bit c (t + 2) then G ! 2 else 0) XOR (if bit c (t + 3) then G ! 3 else 0) XOR
     (if bit c (t + 4) then G ! 4 else 0)"

lemma if_xor: "(if p \<noteq> q then g else 0) = (if p then g else 0) XOR (if q then g else (0 :: 'a::len word))"
  by simp

lemma ucast_xor: "(ucast (u XOR v) :: 'a::len word) = ucast u XOR ucast v" for u v :: u8
  by (rule bit_word_eqI) (auto simp: bit_simps)

lemma push_take_xor: "push_bit 5 (take_bit t (a XOR b)) = push_bit 5 (take_bit t a) XOR push_bit 5 (take_bit t b)"
  for a b :: "'a::len word"
  by simp

lemma gen_step_xor: "gen_step t G (a XOR b) (u XOR v) = gen_step t G a u XOR gen_step t G b v"
  by (simp only: gen_step_def bit_xor_iff if_xor ucast_xor push_take_xor ac_simps)

lemma bit_and_one: "drop_bit i b AND 1 \<noteq> 0 \<longleftrightarrow> bit b i" for b :: "'a::len word"
  by (metis and_one_eq bit_iff_odd_drop_bit odd_iff_mod_2_eq_one of_bool_eq_0_iff even_iff_mod_2_eq_zero)

lemma upt_5: "[0..<5] = [0, 1, 2, 3, 4 :: nat]"
  by code_simp

lemma bech32_step_gen: "bech32_step = gen_step 25 bech32_gen"
proof (intro ext)
  fix c :: u32 and v
  have "(0x1ffffff :: u32) = mask 25" by (simp add: mask_eq_exp_minus_1)
  then have "c AND 0x1ffffff = take_bit 25 c" by (simp add: take_bit_eq_mask)
  then show "bech32_step c v = gen_step 25 bech32_gen c v"
    by (simp add: bech32_step_def gen_step_def Let_def upt_5 bit_and_one bit_simps xor.assoc
        del: upt_rec_numeral)
qed

lemma cash_step_gen: "cash_step = gen_step 35 cash_gen"
proof (intro ext)
  fix c :: u64 and v
  have "(0x07ffffffff :: u64) = mask 35" by (simp add: mask_eq_exp_minus_1)
  then have "c AND 0x07ffffffff = take_bit 35 c" by (simp add: take_bit_eq_mask)
  then show "cash_step c v = gen_step 35 cash_gen c v"
    by (simp add: cash_step_def gen_step_def Let_def upt_5 bit_and_one bit_simps xor.assoc
        del: upt_rec_numeral)
qed

text \<open>What a generator-based step needs from its generators.\<close>

definition sum5 :: "'a::len word list \<Rightarrow> bool \<Rightarrow> bool \<Rightarrow> bool \<Rightarrow> bool \<Rightarrow> bool \<Rightarrow> 'a word" where
  "sum5 G b0 b1 b2 b3 b4 =
     (if b0 then G ! 0 else 0) XOR (if b1 then G ! 1 else 0) XOR (if b2 then G ! 2 else 0) XOR
     (if b3 then G ! 3 else 0) XOR (if b4 then G ! 4 else 0)"

lemma gen_step_sum5:
  "gen_step t G c v = push_bit 5 (take_bit t c) XOR ucast v XOR
     sum5 G (bit c t) (bit c (t + 1)) (bit c (t + 2)) (bit c (t + 3)) (bit c (t + 4))"
  by (simp only: gen_step_def sum5_def xor.assoc)

lemma take_bit_sum5: "take_bit k (sum5 G b0 b1 b2 b3 b4) = sum5 (map (take_bit k) G) b0 b1 b2 b3 b4"
  if "length G = 5"
  using that by (simp add: sum5_def)

lemma gen_code:
  fixes G :: "'a::len word list"
  assumes t: "5 * (n - 1) = t" "1 < n" "t + 5 \<le> LENGTH('a)"
    and G: "length G = 5" "map (take_bit (t + 5)) G = G"
    and indep: "\<And>b0 b1 b2 b3 b4. sum5 (map (take_bit 5) G) b0 b1 b2 b3 b4 = 0 \<Longrightarrow>
      \<not> b0 \<and> \<not> b1 \<and> \<not> b2 \<and> \<not> b3 \<and> \<not> b4"
  shows "checksum_code (gen_step t G) n"
proof
  have n: "5 * n = t + 5" "5 \<le> t" using t by auto
  show "gen_step t G (a XOR b) (u XOR v) = gen_step t G a u XOR gen_step t G b v" for a b u v
    by (rule gen_step_xor)
  show "0 < n" "5 * n \<le> LENGTH('a)" using t n by simp_all
  have in_state: "take_bit (5 * n) (sum5 G b0 b1 b2 b3 b4) = sum5 G b0 b1 b2 b3 b4" for b0 b1 b2 b3 b4
    using G by (simp add: take_bit_sum5 n)
  have shifted: "take_bit (5 * n) (push_bit 5 (take_bit t c)) = push_bit 5 (take_bit t c)" for c :: "'a word"
    by (rule bit_word_eqI) (auto simp: bit_simps n)
  have small: "take_bit (5 * n) (ucast v :: 'a word) = ucast v" for v :: u8
  proof -
    have "i < t + 5" if "bit v i" for i
      using bit_imp_le_length [OF that] n(2) by simp
    then show ?thesis by (intro bit_word_eqI) (auto simp: bit_simps n)
  qed
  show "take_bit (5 * n) (gen_step t G a v) = gen_step t G a v" for a v
    by (simp only: gen_step_sum5 take_bit_xor in_state shifted small)
  show "a = 0" if a: "take_bit (5 * n) a = a" and z: "gen_step t G a 0 = 0" for a
  proof -
    let ?s = "sum5 G (bit a t) (bit a (t + 1)) (bit a (t + 2)) (bit a (t + 3)) (bit a (t + 4))"
    have zz: "push_bit 5 (take_bit t a) XOR ?s = 0" using z by (simp add: gen_step_sum5)
    have "take_bit 5 (push_bit 5 (take_bit t a)) = 0"
      by (rule bit_word_eqI) (auto simp: bit_simps)
    then have "take_bit 5 ?s = 0"
      using arg_cong [OF zz, of "take_bit 5"] by (simp only: take_bit_xor take_bit_0) simp
    then have off: "\<not> bit a t \<and> \<not> bit a (t + 1) \<and> \<not> bit a (t + 2) \<and> \<not> bit a (t + 3) \<and> \<not> bit a (t + 4)"
      using indep by (simp add: take_bit_sum5 G(1))
    then have "push_bit 5 (take_bit t a) = 0" using zz by (simp add: sum5_def)
    then have low: "\<not> bit a i" if "i < t" for i
      using that t(3) bit_push_bit_iff [of 5 "take_bit t a" "i + 5"] by (simp add: bit_take_bit_iff)
    show ?thesis
    proof (rule bit_word_eqI)
      fix i
      have "\<not> bit a i" if "i \<ge> t + 5" using that a by (metis bit_take_bit_iff n(1) not_le)
      moreover have "i < t \<or> i = t \<or> i = t + 1 \<or> i = t + 2 \<or> i = t + 3 \<or> i = t + 4 \<or> i \<ge> t + 5"
        by arith
      ultimately show "bit a i \<longleftrightarrow> bit 0 i" using off low by auto
    qed
  qed
  show "unat (gen_step t G a v) = 32 * unat a + unat v"
    if a: "unat a < 2 ^ (5 * (n - 1))" and v: "v < 32" for a v
  proof -
    have "take_bit t (unat a) = unat a" using a t(1) by (simp add: take_bit_nat_eq_self_iff)
    then have ta: "take_bit t a = a" by (simp add: word_unat_eq_iff unsigned_take_bit_eq)
    have "\<not> bit a (t + k)" for k using ta by (metis bit_take_bit_iff not_add_less1)
    from this [of 0] this [of 1] this [of 2] this [of 3] this [of 4]
    have g: "gen_step t G a v = push_bit 5 a XOR ucast v"
      by (simp add: gen_step_def ta)
    have bound: "unat a * 32 < 2 ^ LENGTH('a)"
    proof -
      have "unat a * 32 < 2 ^ t * 32" using a t(1) by simp
      also have "\<dots> = 2 ^ (t + 5)" by (simp add: power_add)
      also have "\<dots> \<le> 2 ^ LENGTH('a)" using t(3) by (intro power_increasing) auto
      finally show ?thesis .
    qed
    have p: "unat (push_bit 5 a) = push_bit 5 (unat a)"
      unfolding unsigned_push_bit_eq using bound
      by (simp add: push_bit_eq_mult take_bit_nat_eq_self_iff)
    have "unat v < 32" using v by (simp add: word_less_nat_alt)
    moreover have "(256 :: nat) \<le> 2 ^ LENGTH('a)"
      using power_increasing [of 8 "LENGTH('a)" "2 :: nat"] n(2) t(3) by simp
    ultimately have u: "unat (ucast v :: 'a word) = unat v"
      by (simp add: unsigned_ucast_eq take_bit_nat_eq_self_iff)
    have "take_bit 5 (unat v) = unat v" using \<open>unat v < 32\<close> by (simp add: take_bit_nat_eq_self_iff)
    then have "push_bit 5 (unat a) AND unat v = 0"
      by (intro bit_eqI) (metis bit_and_iff bit_push_bit_iff bit_take_bit_iff bit_0_eq bot_apply bot_bool_def not_le)
    then have "push_bit 5 (unat a) XOR unat v = push_bit 5 (unat a) + unat v"
      by (simp add: disjunctive_add_eq_xor)
    then show ?thesis
      unfolding g unsigned_xor_eq p u by (simp add: push_bit_eq_mult)
  qed
qed

interpretation bech32: checksum_code bech32_step 6
  unfolding bech32_step_gen
proof (rule gen_code)
  show "length bech32_gen = 5" "map (take_bit (25 + 5)) bech32_gen = bech32_gen"
    by (simp_all add: bech32_gen_def)
  show "\<not> b0 \<and> \<not> b1 \<and> \<not> b2 \<and> \<not> b3 \<and> \<not> b4"
    if "sum5 (map (take_bit 5) bech32_gen) b0 b1 b2 b3 b4 = 0" for b0 b1 b2 b3 b4
    using that by (cases b0; cases b1; cases b2; cases b3; cases b4)
      (simp_all add: sum5_def bech32_gen_def)
qed simp_all

interpretation cash: checksum_code cash_step 8
  unfolding cash_step_gen
proof (rule gen_code)
  show "length cash_gen = 5" "map (take_bit (35 + 5)) cash_gen = cash_gen"
    by (simp_all add: cash_gen_def)
  show "\<not> b0 \<and> \<not> b1 \<and> \<not> b2 \<and> \<not> b3 \<and> \<not> b4"
    if "sum5 (map (take_bit 5) cash_gen) b0 b1 b2 b3 b4 = 0" for b0 b1 b2 b3 b4
    using that by (cases b0; cases b1; cases b2; cases b3; cases b4)
      (simp_all add: sum5_def cash_gen_def)
qed simp_all

end
