(* ===== verification/AddressFacts.thy ===== *)
theory AddressFacts
  imports Checksum
begin

text \<open>
  What address decoding promises: Base58 is positional notation and never runs out of room, bech32
  and CashAddr data with its checksum decodes to itself and one changed symbol is refused, the
  regrouping of bits is exact, and the output script of a decoded address is the script of its type.
\<close>

section \<open>Base58\<close>

lemma index_of_Some: "index_of c xs = Some i \<Longrightarrow> i < length xs \<and> xs ! i = c"
  by (induction c xs arbitrary: i rule: index_of.induct) (auto split: if_splits)

lemma index_of_nth: "distinct xs \<Longrightarrow> i < length xs \<Longrightarrow> index_of (xs ! i) xs = Some i"
  by (induction xs arbitrary: i) (auto simp: nth_Cons split: nat.split)

lemma index_of_None: "index_of c xs = None \<longleftrightarrow> c \<notin> set xs"
  by (induction xs) auto

lemma b58_alphabet: "length b58_alphabet = 58" "distinct b58_alphabet" "b58_alphabet ! 0 = CHR ''1''"
  by (simp_all add: b58_alphabet_def)

lemma b58_digit_less: "b58_digit c = Some d \<Longrightarrow> d < 58"
  using index_of_Some [of c b58_alphabet d] by (simp add: b58_digit_def b58_alphabet)

lemma b58_digit_nth: "d < 58 \<Longrightarrow> b58_digit (b58_alphabet ! d) = Some d"
  by (simp add: b58_digit_def index_of_nth b58_alphabet)

lemma b58_round_value:
  "b58_round carry bs = (bs', c) \<Longrightarrow>
     length bs' = length bs \<and> c * 256 ^ length bs + be_value bs' = 58 * be_value bs + carry"
proof (induction bs arbitrary: bs' c)
  case (Cons b bs)
  obtain bs1 c1 where 1: "b58_round carry bs = (bs1, c1)" by fastforce
  from Cons.IH [OF 1] have len: "length bs1 = length bs"
    and v: "c1 * 256 ^ length bs + be_value bs1 = 58 * be_value bs + carry" by auto
  define t where "t = c1 + 58 * unat b"
  define x y where "x = t div 256" and "y = t mod 256"
  have xy: "x * 256 + y = t" by (simp add: x_def y_def)
  have r: "bs' = of_nat y # bs1" "c = x"
    using Cons.prems 1 by (auto simp: Let_def t_def x_def y_def)
  have "y < 256" by (simp add: y_def)
  then have "unat (of_nat y :: u8) = y" by (simp add: unat_of_nat)
  then have "c * 256 ^ length (b # bs) + be_value bs' = (x * 256 + y) * 256 ^ length bs + be_value bs1"
    by (simp add: r be_value_Cons len algebra_simps)
  also have "\<dots> = t * 256 ^ length bs + be_value bs1" by (simp only: xy)
  also have "\<dots> = 58 * be_value (b # bs) + carry"
    using v by (simp add: t_def be_value_Cons algebra_simps)
  finally show ?case by (simp add: r len)
qed (simp add: be_value_def)

definition b58_number :: "string \<Rightarrow> nat" where
  "b58_number s = foldl (\<lambda>v c. 58 * v + the (b58_digit c)) 0 s"

lemma foldl_58: "foldl (\<lambda>v c. 58 * v + f c) a s = a * 58 ^ length s + foldl (\<lambda>v c. 58 * v + f c) (0 :: nat) s"
proof (induction s arbitrary: a rule: rev_induct)
  case (snoc c s)
  show ?case
    by (simp only: foldl_append foldl.simps snoc [of a] length_append list.size power_add)
      (simp add: algebra_simps)
qed simp

lemma b58_number_Cons: "b58_number (c # s) = the (b58_digit c) * 58 ^ length s + b58_number s"
  unfolding b58_number_def by (simp add: foldl_58 [of _ "the (b58_digit c)"])

definition b58_text :: "string \<Rightarrow> bool" where
  "b58_text s \<longleftrightarrow> (\<forall>c \<in> set s. b58_digit c \<noteq> None)"

lemma b58_room:
  assumes "d < 58" "B * 58 ^ Suc n + 58 ^ Suc n \<le> (C :: nat)"
  shows "(58 * B + d + 1) * 58 ^ n \<le> C" "58 * B + d + 1 \<le> C"
proof -
  have "(58 * B + d + 1) * 58 ^ n \<le> (58 * B + 58) * 58 ^ n"
    using assms(1) by (intro mult_le_mono1) simp
  also have "\<dots> = B * 58 ^ Suc n + 58 ^ Suc n" by (simp add: algebra_simps)
  finally show le: "(58 * B + d + 1) * 58 ^ n \<le> C" using assms(2) by simp
  have "(58 * B + d + 1) * 1 \<le> (58 * B + d + 1) * 58 ^ n" by (rule mult_le_mono2) simp
  with le show "58 * B + d + 1 \<le> C" by simp
qed

lemma power_cancel: "a ^ k \<le> b ^ k \<Longrightarrow> 0 < k \<Longrightarrow> a \<le> b" for a b :: nat
  by simp

text \<open>With room for what is still to come, the loop ends and has computed the number.\<close>

lemma b58_loop_value:
  assumes "b58_text s" "be_value b * 58 ^ length s + 58 ^ length s \<le> 256 ^ length b"
  shows "\<exists>b'. b58_loop b s = Inr b' \<and> length b' = length b \<and>
    be_value b' = be_value b * 58 ^ length s + b58_number s"
  using assms
proof (induction s arbitrary: b)
  case Nil
  then show ?case by (simp add: b58_number_def)
next
  case (Cons c s)
  then obtain d where d: "b58_digit c = Some d" by (auto simp: b58_text_def)
  then have "d < 58" by (rule b58_digit_less)
  obtain b1 k where 1: "b58_round d b = (b1, k)" by fastforce
  from b58_round_value [OF 1] have len: "length b1 = length b"
    and v: "k * 256 ^ length b + be_value b1 = 58 * be_value b + d" by auto
  from b58_room(1) [OF \<open>d < 58\<close>] Cons.prems(2)
  have room: "(58 * be_value b + d + 1) * 58 ^ length s \<le> 256 ^ length b" by simp
  have "58 * be_value b + d + 1 \<le> 256 ^ length b"
    using b58_room(2) [OF \<open>d < 58\<close>] Cons.prems(2) by simp
  then have "k = 0" using v by (cases k) simp_all
  with v have v1: "be_value b1 = 58 * be_value b + d" by simp
  have "\<exists>b'. b58_loop b1 s = Inr b' \<and> length b' = length b1 \<and>
      be_value b' = be_value b1 * 58 ^ length s + b58_number s"
    by (rule Cons.IH) (use Cons.prems(1) room in \<open>simp_all add: b58_text_def v1 len algebra_simps\<close>)
  then show ?case
    using d 1 \<open>k = 0\<close> by (simp add: v1 len b58_number_Cons algebra_simps)
qed

lemma b58_loop_bad: "\<not> b58_text s \<Longrightarrow>
    be_value b * 58 ^ length s + 58 ^ length s \<le> 256 ^ length b \<Longrightarrow> b58_loop b s = Inl BadCharacter"
proof (induction s arbitrary: b)
  case (Cons c s)
  show ?case
  proof (cases "b58_digit c")
    case None
    then show ?thesis by simp
  next
    case (Some d)
    then have "d < 58" by (rule b58_digit_less)
    obtain b1 k where 1: "b58_round d b = (b1, k)" by fastforce
    from b58_round_value [OF 1] have len: "length b1 = length b"
      and v: "k * 256 ^ length b + be_value b1 = 58 * be_value b + d" by auto
    from b58_room(1) [OF \<open>d < 58\<close>] Cons.prems(2)
    have room: "(58 * be_value b + d + 1) * 58 ^ length s \<le> 256 ^ length b" by simp
    have "58 * be_value b + d + 1 \<le> 256 ^ length b"
      using b58_room(2) [OF \<open>d < 58\<close>] Cons.prems(2) by simp
    then have "k = 0" using v by (cases k) simp_all
    with v have v1: "be_value b1 = 58 * be_value b + d" by simp
    have "b58_loop b1 s = Inl BadCharacter"
      by (rule Cons.IH) (use Cons.prems(1) Some room in \<open>simp_all add: b58_text_def v1 len algebra_simps\<close>)
    then show ?thesis using Some 1 \<open>k = 0\<close> by simp
  qed
qed (simp add: b58_text_def)

text \<open>The buffer of \<open>size * 733 / 1000 + 1\<close> bytes always has that room.\<close>

lemma b58_capacity: "(58 :: nat) ^ n \<le> 256 ^ (n * 733 div 1000 + 1)"
proof -
  define m where "m = n * 733 div 1000 + 1"
  have "n * 733 < 1000 * m" unfolding m_def by simp
  then have small: "52 * n \<le> m * 71" by linarith
  have base: "(58 :: nat) ^ 71 \<le> 256 ^ 52" by simp
  have "(58 ^ n) ^ 71 = (58 :: nat) ^ (n * 71)" by (rule power_mult [symmetric])
  also have "\<dots> = 58 ^ (71 * n)" by (simp only: mult.commute)
  also have "\<dots> = (58 ^ 71) ^ n" by (rule power_mult)
  also have "\<dots> \<le> (256 ^ 52) ^ n" by (rule power_mono [OF base]) simp
  also have "\<dots> = 256 ^ (52 * n)" by (rule power_mult [symmetric])
  also have "\<dots> \<le> 256 ^ (m * 71)" by (rule power_increasing [OF small]) simp
  also have "\<dots> = (256 ^ m) ^ 71" by (rule power_mult)
  finally have "(58 ^ n) ^ 71 \<le> (256 ^ m :: nat) ^ 71" .
  then show ?thesis unfolding m_def by (rule power_cancel) simp
qed

lemma base58_room: "be_value (replicate (length s * 733 div 1000 + 1) 0) * 58 ^ length t + 58 ^ length t
    \<le> 256 ^ length (replicate (length s * 733 div 1000 + 1) (0 :: u8))" if "length t \<le> length s"
proof -
  have "(58 :: nat) ^ length t \<le> 58 ^ length s" using that by (intro power_increasing) auto
  also have "\<dots> \<le> 256 ^ (length s * 733 div 1000 + 1)" by (rule b58_capacity)
  finally show ?thesis by (simp only: be_value_simps length_replicate mult_0 add_0)
qed

lemma b58_ones: "b58_text (replicate z (CHR ''1'') @ t) = b58_text t"
  "b58_number (replicate z (CHR ''1'') @ t) = b58_number t"
proof -
  have d: "b58_digit (CHR ''1'') = Some 0" by (simp add: b58_digit_def b58_alphabet_def)
  then show "b58_text (replicate z (CHR ''1'') @ t) = b58_text t" by (auto simp: b58_text_def)
  show "b58_number (replicate z (CHR ''1'') @ t) = b58_number t"
    by (induction z) (simp_all add: b58_number_Cons d)
qed

lemma takeWhile_replicate: "takeWhile (\<lambda>c. c = x) s = replicate (length (takeWhile (\<lambda>c. c = x) s)) x"
  by (induction s) auto

lemma be_value_dropWhile: "be_value (dropWhile (\<lambda>b. b = 0) bs) = be_value bs"
  by (induction bs) (simp_all add: be_value_Cons)

lemma split_ones: "s = replicate (length (takeWhile (\<lambda>c. c = x) s)) x @ drop (length (takeWhile (\<lambda>c. c = x) s)) s"
  using takeWhile_dropWhile_id [of "\<lambda>c. c = x" s] takeWhile_replicate [of x s]
  by (metis dropWhile_eq_drop)

text \<open>Decoding in one equation.\<close>

lemma base58_decode_eq:
  "b58_text s \<Longrightarrow> \<exists>m. base58_decode s = Inr (replicate (length (takeWhile (\<lambda>c. c = CHR ''1'') s)) 0 @ m) \<and>
     be_value m = b58_number s \<and> (m = [] \<or> hd m \<noteq> 0)"
  "\<not> b58_text s \<Longrightarrow> base58_decode s = Inl BadCharacter"
proof -
  define z where "z = length (takeWhile (\<lambda>c. c = CHR ''1'') s)"
  define b where "b = replicate (length s * 733 div 1000 + 1) (0 :: u8)"
  have t: "b58_text (drop z s) = b58_text s" "b58_number (drop z s) = b58_number s"
    using b58_ones [of z "drop z s"] split_ones [of s "CHR ''1''"] by (simp_all add: z_def)
  have dec: "base58_decode s = bind_res (b58_loop b (drop z s)) (\<lambda>b.
      Inr (replicate z 0 @ dropWhile (\<lambda>b. b = 0) b))"
    by (simp only: base58_decode_def z_def b_def Let_def)
  have room: "be_value b * 58 ^ length (drop z s) + 58 ^ length (drop z s) \<le> 256 ^ length b"
    unfolding b_def by (rule base58_room) simp
  have b0: "be_value b = 0" by (simp only: b_def be_value_simps)
  show "base58_decode s = Inl BadCharacter" if "\<not> b58_text s"
    using b58_loop_bad [OF _ room] that by (simp add: dec t)
  show "\<exists>m. base58_decode s = Inr (replicate (length (takeWhile (\<lambda>c. c = CHR ''1'') s)) 0 @ m) \<and>
      be_value m = b58_number s \<and> (m = [] \<or> hd m \<noteq> 0)" if chars: "b58_text s"
  proof -
    obtain b' where "b58_loop b (drop z s) = Inr b'" "be_value b' = b58_number s"
      using b58_loop_value [OF _ room] chars by (auto simp: t b0)
    moreover have "dropWhile (\<lambda>b. b = 0) b' = [] \<or> hd (dropWhile (\<lambda>b. b = 0) b') \<noteq> 0"
      using hd_dropWhile [of "\<lambda>b. b = 0" b'] by blast
    ultimately show ?thesis
      by (simp add: dec z_def be_value_dropWhile)
  qed
qed

subsection \<open>A reference encoder\<close>

fun digits58 :: "nat \<Rightarrow> nat list" where
  "digits58 n = (if n = 0 then [] else digits58 (n div 58) @ [n mod 58])"

declare digits58.simps [simp del]

definition base58_encode :: "bytes \<Rightarrow> string" where
  "base58_encode bs =
     replicate (length (takeWhile (\<lambda>b. b = 0) bs)) (CHR ''1'') @
     map (\<lambda>d. b58_alphabet ! d) (digits58 (be_value bs))"

lemma digits58_less: "d \<in> set (digits58 n) \<Longrightarrow> d < 58"
  by (induction n rule: digits58.induct) (subst (asm) (2) digits58.simps, auto split: if_splits)

lemma digits58_hd: "n \<noteq> 0 \<Longrightarrow> digits58 n \<noteq> [] \<and> hd (digits58 n) \<noteq> 0"
proof (induction n rule: digits58.induct)
  case (1 n)
  show ?case
  proof (cases "n div 58 = 0")
    case True
    then show ?thesis using 1(2) by (simp add: digits58.simps [of n] digits58.simps [of 0] div_eq_0_iff)
  next
    case False
    then show ?thesis using 1 by (simp add: digits58.simps [of n])
  qed
qed

lemma b58_number_snoc: "b58_number (s @ [c]) = 58 * b58_number s + the (b58_digit c)"
  by (simp add: b58_number_def)

lemma digits58_number: "b58_number (map (\<lambda>d. b58_alphabet ! d) (digits58 n)) = n"
proof (induction n rule: digits58.induct)
  case (1 n)
  show ?case
  proof (cases "n = 0")
    case True
    then show ?thesis by (simp add: digits58.simps b58_number_def)
  next
    case False
    then show ?thesis using 1 by (simp add: digits58.simps [of n] b58_number_snoc b58_digit_nth)
  qed
qed

lemma be_value_nonzero: "m \<noteq> [] \<Longrightarrow> hd m \<noteq> 0 \<Longrightarrow> 256 ^ (length m - 1) \<le> be_value m"
proof (cases m)
  case (Cons b bs)
  assume "hd m \<noteq> 0"
  with Cons have "1 \<le> unat b" by (simp add: Suc_le_eq unat_gt_0)
  then have "1 * 256 ^ length bs \<le> unat b * 256 ^ length bs" by (rule mult_le_mono1)
  then have "256 ^ length bs \<le> unat b * 256 ^ length bs + be_value bs" by linarith
  with Cons show ?thesis by (simp add: be_value_Cons)
qed simp

lemma minimal_unique:
  assumes "be_value m = be_value k" "m = [] \<or> hd m \<noteq> 0" "k = [] \<or> hd k \<noteq> 0"
  shows "m = k"
proof -
  have le: "length m \<le> length k" if "be_value m = be_value k" "m = [] \<or> hd m \<noteq> 0" for m k :: bytes
  proof (rule ccontr)
    assume n: "\<not> length m \<le> length k"
    then have "m \<noteq> []" by auto
    with that have "256 ^ (length m - 1) \<le> be_value k" using be_value_nonzero [of m] by simp
    moreover have "(256 :: nat) ^ length k \<le> 256 ^ (length m - 1)"
      using n by (intro power_increasing) auto
    ultimately show False using be_value_bound [of k] by linarith
  qed
  have "length m = length k" using le [of m k] le [of k m] assms by simp
  then have "rev m = rev k"
    using assms(1) by (intro le_value_inject) (simp_all add: be_value_def)
  then show ?thesis by simp
qed

lemma base58_decode_encode: "base58_decode (base58_encode bs) = Inr bs"
proof -
  define z where "z = length (takeWhile (\<lambda>b. b = 0) bs)"
  define ds where "ds = map (\<lambda>d. b58_alphabet ! d) (digits58 (be_value bs))"
  have enc: "base58_encode bs = replicate z (CHR ''1'') @ ds" by (simp add: base58_encode_def z_def ds_def)
  have chars: "b58_text (base58_encode bs)"
    unfolding enc b58_ones by (auto simp: ds_def b58_text_def b58_digit_nth dest: digits58_less)
  have num: "b58_number (base58_encode bs) = be_value bs"
    unfolding enc b58_ones by (simp add: ds_def digits58_number)
  have "ds = [] \<or> hd ds \<noteq> CHR ''1''"
  proof (cases "be_value bs = 0")
    case True
    then show ?thesis by (simp add: ds_def digits58.simps)
  next
    case False
    from digits58_hd [OF this] have ne: "digits58 (be_value bs) \<noteq> []" "hd (digits58 (be_value bs)) \<noteq> 0"
      by auto
    then have "hd (digits58 (be_value bs)) < 58" by (intro digits58_less [of _ "be_value bs"]) simp
    with ne have "hd ds \<noteq> b58_alphabet ! 0"
      using nth_eq_iff_index_eq [OF b58_alphabet(2), of "hd (digits58 (be_value bs))" 0]
      by (simp add: ds_def hd_map b58_alphabet(1))
    then show ?thesis by (simp add: b58_alphabet(3))
  qed
  then have "takeWhile (\<lambda>c. c = CHR ''1'') (base58_encode bs) = replicate z (CHR ''1'')"
    unfolding enc by (cases ds) (auto simp: takeWhile_append)
  then obtain m where m: "base58_decode (base58_encode bs) = Inr (replicate z 0 @ m)"
    "be_value m = be_value bs" "m = [] \<or> hd m \<noteq> 0"
    using base58_decode_eq(1) [OF chars] num by auto
  have bs: "bs = replicate z 0 @ drop z bs" using split_ones [of bs 0] by (simp add: z_def)
  have "be_value m = be_value (drop z bs)"
    using m(2) arg_cong [OF bs, of be_value] by (simp add: be_value_append)
  moreover have "drop z bs = [] \<or> hd (drop z bs) \<noteq> 0"
    using hd_dropWhile [of "\<lambda>b. b = 0" bs] by (auto simp: z_def dropWhile_eq_drop)
  ultimately have "m = drop z bs" using m(3) by (intro minimal_unique)
  with m(1) bs show ?thesis by simp
qed

section \<open>Bech32\<close>

lemma charset: "length bech32_charset = 32" "distinct bech32_charset"
  by (simp_all add: bech32_charset_def)

definition charset_text :: "u8 list \<Rightarrow> string" where
  "charset_text vs = map (\<lambda>v. bech32_charset ! unat v) vs"

lemma symbols_charset_text: "five_bits vs \<Longrightarrow> symbols bech32_charset (charset_text vs) = Inr vs"
  by (induction vs) (simp_all add: charset_text_def index_of_nth charset word_less_nat_alt)

lemma symbols_Inr: "symbols bech32_charset s = Inr vs \<Longrightarrow> five_bits vs \<and> s = charset_text vs"
proof (induction s arbitrary: vs)
  case (Cons c s)
  then obtain i ws where i: "index_of c bech32_charset = Some i"
    and ws: "symbols bech32_charset s = Inr ws" "vs = of_nat i # ws"
    by (auto simp: bind_res_Inr_iff split: option.splits)
  from index_of_Some [OF i] have "i < 32" "bech32_charset ! i = c" by (simp_all add: charset)
  then have "unat (of_nat i :: u8) = i" by (simp add: unat_of_nat)
  with Cons.IH [OF ws(1)] ws(2) \<open>i < 32\<close> \<open>bech32_charset ! i = c\<close> show ?case
    by (simp add: charset_text_def word_less_nat_alt)
qed (simp add: charset_text_def)

lemma bech32_polymod_run: "bech32_polymod vs = run_code bech32_step vs 1"
  by (simp add: bech32_polymod_def run_code_def)

lemma cashaddr_polymod_run: "cashaddr_polymod vs = run_code cash_step vs 1 XOR 1"
  by (simp add: cashaddr_polymod_def run_code_def)

text \<open>The reference encoder: the data and the six symbols that give the wanted residue.\<close>

definition bech32_target :: "nat \<Rightarrow> u32" where
  "bech32_target encoding = (if encoding = 0 then bech32_const else bech32m_const)"

definition bech32_tail :: "u32 \<Rightarrow> string \<Rightarrow> u8 list \<Rightarrow> u8 list" where
  "bech32_tail target hrp data =
     tail_symbols 6 (run_code bech32_step (replicate 6 0)
       (bech32_polymod (bech32_hrp_expand hrp @ data)) XOR target)"

definition bech32_encode :: "nat \<Rightarrow> string \<Rightarrow> u8 list \<Rightarrow> string" where
  "bech32_encode encoding hrp data =
     hrp @ CHR ''1'' # charset_text (data @ bech32_tail (bech32_target encoding) hrp data)"

lemma bech32_tail_residue:
  assumes "take_bit 30 target = target"
  shows "bech32_polymod (bech32_hrp_expand hrp @ data @ bech32_tail target hrp data) = target"
proof -
  have one: "take_bit (5 * 6) (1 :: u32) = 1" by simp
  have "take_bit (5 * 6) (bech32_polymod (bech32_hrp_expand hrp @ data)) =
      bech32_polymod (bech32_hrp_expand hrp @ data)"
    unfolding bech32_polymod_run by (rule bech32.run_bound [OF one])
  from bech32.run_complete [OF this, of target] assms show ?thesis
    unfolding bech32_tail_def by (simp add: bech32_polymod_run)
qed

lemma bech32_target_bound: "take_bit 30 (bech32_target e) = bech32_target e"
  by (simp add: bech32_target_def bech32_const_def bech32m_const_def)

text \<open>A lower-case character is its own lower case, and the data characters are such.\<close>

lemma lower_charset: "c \<in> set bech32_charset \<Longrightarrow> lower c = c \<and> \<not> is_upper c \<and> c \<noteq> CHR ''1''"
  by (auto simp: bech32_charset_def lower_def is_upper_def)

lemma charset_text_set: "five_bits vs \<Longrightarrow> set (charset_text vs) \<subseteq> set bech32_charset"
  by (auto simp: charset_text_def five_bits_def charset word_less_nat_alt intro!: nth_mem)

definition lower_text :: "string \<Rightarrow> bool" where
  "lower_text s \<longleftrightarrow> (\<forall>c \<in> set s. \<not> is_upper c)"

lemma map_lower: "lower_text s \<Longrightarrow> map lower s = s"
  by (auto simp: lower_text_def lower_def intro!: map_idI)

lemma lower_not_mixed: "lower_text s \<Longrightarrow> \<not> mixed_case s"
  by (auto simp: lower_text_def mixed_case_def list_ex_iff)

lemma charset_text_lower: "five_bits vs \<Longrightarrow> lower_text (charset_text vs)"
  using charset_text_set [of vs] lower_charset by (auto simp: lower_text_def)

lemma index_of_append: "c \<notin> set xs \<Longrightarrow> index_of c (xs @ c # ys) = Some (length xs)"
  by (induction xs) auto

lemma rfind_last: "c \<notin> set ys \<Longrightarrow> rfind c (xs @ c # ys) = Some (length xs)"
  by (simp add: rfind_def index_of_append)

lemma bech32_decode_encode:
  assumes "lower_text hrp" "hrp \<noteq> []" "five_bits data"
  shows "bech32_decode hrp (bech32_encode e hrp data) = Inr (if e = 0 then 0 else 1, data)"
proof -
  let ?vs = "data @ bech32_tail (bech32_target e) hrp data"
  have five: "five_bits ?vs" using assms(3) by (simp add: bech32_tail_def)
  have low: "lower_text (bech32_encode e hrp data)"
    using assms(1) charset_text_lower [OF five]
    by (auto simp: bech32_encode_def lower_text_def is_upper_def)
  have no1: "CHR ''1'' \<notin> set (charset_text ?vs)"
    using charset_text_set [OF five] lower_charset by auto
  have pos: "rfind (CHR ''1'') (bech32_encode e hrp data) = Some (length hrp)"
    unfolding bech32_encode_def by (rule rfind_last [OF no1])
  have len: "length (bech32_encode e hrp data) = length hrp + 7 + length data"
    by (simp add: bech32_encode_def charset_text_def bech32_tail_def)
  have parts: "take (length hrp) (bech32_encode e hrp data) = hrp"
    "drop (length hrp + 1) (bech32_encode e hrp data) = charset_text ?vs"
    by (simp_all add: bech32_encode_def)
  have res: "bech32_polymod (bech32_hrp_expand hrp @ ?vs) = bech32_target e"
    by (rule bech32_tail_residue [OF bech32_target_bound])
  have "length hrp \<ge> 1" using assms(2) by (cases hrp) simp_all
  then show ?thesis
    unfolding bech32_decode_def Let_def map_lower [OF low]
    using assms(2) lower_not_mixed [OF low] pos len parts symbols_charset_text [OF five] res
    by (simp add: bech32_tail_def bech32_target_def bech32_const_def bech32m_const_def)
qed

text \<open>An accepted text whose data part differs in one symbol is not accepted with the same residue.\<close>

lemma bech32_single_error:
  assumes "x < 32" "y < 32" "x \<noteq> y"
  shows "bech32_polymod (bech32_hrp_expand hrp @ us @ x # vs) \<noteq> bech32_polymod (bech32_hrp_expand hrp @ us @ y # vs)"
  using bech32.single_error [OF assms, of "bech32_hrp_expand hrp @ us" vs 1]
  by (simp add: bech32_polymod_run)

lemma xor_one_cancel: "a XOR 1 = b XOR 1 \<Longrightarrow> a = b" for a b :: "'a::len word"
proof -
  assume "a XOR 1 = b XOR 1"
  then have "(a XOR 1) XOR 1 = (b XOR 1) XOR 1" by simp
  then show "a = b" by (simp only: xor.assoc xor_self_eq xor.right_neutral)
qed

lemma cash_single_error:
  assumes "x < 32" "y < 32" "x \<noteq> y"
  shows "cashaddr_polymod (p @ us @ x # vs) \<noteq> cashaddr_polymod (p @ us @ y # vs)"
proof
  assume "cashaddr_polymod (p @ us @ x # vs) = cashaddr_polymod (p @ us @ y # vs)"
  then have "run_code cash_step ((p @ us) @ x # vs) 1 = run_code cash_step ((p @ us) @ y # vs) 1"
    unfolding cashaddr_polymod_run append_assoc by (rule xor_one_cancel)
  with cash.single_error [OF assms, of "p @ us" vs 1] show False by simp
qed

section \<open>Regrouping five bits into eight\<close>

definition number32 :: "u8 list \<Rightarrow> nat" where
  "number32 vs = foldl (\<lambda>a v. 32 * a + unat v) 0 vs"

lemma foldl_32: "foldl (\<lambda>a v. 32 * a + f v) a vs = a * 32 ^ length vs + foldl (\<lambda>a v. 32 * a + f v) (0 :: nat) vs"
proof (induction vs arbitrary: a rule: rev_induct)
  case (snoc v vs)
  show ?case
    by (simp only: foldl_append foldl.simps snoc [of a] length_append list.size power_add)
      (simp add: algebra_simps)
qed simp

lemma number32_Cons: "number32 (v # vs) = unat v * 32 ^ length vs + number32 vs"
  unfolding number32_def by (simp add: foldl_32 [of _ "unat v"])

lemma number32_Nil [simp]: "number32 [] = 0"
  by (simp add: number32_def)

lemma emit_8:
  "b < 16 \<Longrightarrow> emit_bits acc 8 b =
     (if b < 8 then ([], b) else ([ucast (drop_bit (b - 8) acc AND 255)], b - 8))"
  by (cases "b < 8") (simp_all add: emit_bits.simps [of _ _ b] emit_bits.simps [of _ _ "b - 8"] Let_def)

declare emit_bits.simps [simp del]

lemma mask_12: "(0xFFF :: u32) = mask 12" "(0xFF :: u32) = mask 8"
  by (simp_all add: mask_eq_exp_minus_1)

lemma unat_and_mask: "unat (a AND mask k) = unat a mod 2 ^ k" for a :: "'a::len word"
  by (simp add: unsigned_take_bit_eq take_bit_eq_mod [where 'a = nat] flip: take_bit_eq_mask)

lemma push_or_small:
  fixes acc :: u32 and v :: u8
  assumes "v < 32"
  shows "unat (push_bit 5 acc OR ucast v) mod 4096 = (32 * unat acc + unat v) mod 4096"
proof -
  have v: "unat (ucast v :: u32) = unat v" "unat v < 32"
    using assms by (simp_all add: unsigned_ucast_eq take_bit_nat_eq_self_iff word_less_nat_alt)
  have t: "take_bit 5 (unat v) = unat v" using v(2) by (simp add: take_bit_nat_eq_self_iff)
  have "push_bit 5 m AND unat v = 0" for m :: nat
    by (subst t [symmetric], rule bit_eqI) (auto simp: bit_simps)
  from disjunctive_add_eq_or [OF this]
  have "push_bit 5 m OR unat v = push_bit 5 m + unat v" for m :: nat by (rule sym)
  then have "push_bit 5 m OR unat v = 32 * m + unat v" for m :: nat
    by (simp only: push_bit_eq_mult) simp
  moreover have "unat (push_bit 5 acc) = push_bit 5 (unat acc mod 2 ^ 27)"
    unfolding unsigned_push_bit_eq take_bit_push_bit by (simp add: take_bit_eq_mod)
  ultimately have "unat (push_bit 5 acc OR ucast v) = 32 * (unat acc mod 2 ^ 27) + unat v"
    by (simp add: unsigned_or_eq v)
  moreover have "(32 * (unat acc mod 2 ^ 27) + unat v) mod 4096 = (32 * unat acc + unat v) mod 4096"
  proof -
    have split: "A = M * (A div M) + A mod M" for A M :: nat by simp
    have "32 * unat acc + unat v =
        32 * (unat acc mod 2 ^ 27) + unat v + 4096 * (2 ^ 20 * (unat acc div 2 ^ 27))"
      by (subst (1) split [of "unat acc" "2 ^ 27"]) (simp only: algebra_simps, simp)
    then show ?thesis by (simp only: mod_mult_self2)
  qed
  ultimately show ?thesis by simp
qed

lemma mod_power_le: "m \<le> n \<Longrightarrow> a mod 2 ^ n mod 2 ^ m = (a mod 2 ^ m :: nat)"
  by (simp add: le_imp_power_dvd mod_mod_cancel)

declare regroup.simps(2) [simp del]

lemma regroup_value:
  "five_bits vs \<Longrightarrow> bits < 8 \<Longrightarrow>
     \<exists>out acc' bits'. regroup 5 8 acc bits vs = Inr (out, acc', bits') \<and> bits' < 8 \<and>
       8 * length out + bits' = bits + 5 * length vs \<and>
       be_value out * 2 ^ bits' + unat acc' mod 2 ^ bits' =
         (unat acc mod 2 ^ bits) * 32 ^ length vs + number32 vs"
proof (induction vs arbitrary: acc bits)
  case Nil
  then show ?case by simp
next
  case (Cons v vs)
  then have v: "v < 32" "five_bits vs" by simp_all
  have small: "drop_bit 5 v = 0" using v(1) by (simp add: drop_bit_eq_div word_unat_eq_iff unat_div word_less_nat_alt)
  define acc1 where "acc1 = (push_bit 5 acc OR ucast v) AND (0xFFF :: u32)"
  define b where "b = bits + 5"
  have b: "b < 16" "b \<le> 12" using Cons.prems by (simp_all add: b_def)
  have "unat acc1 = (32 * unat acc + unat v) mod 2 ^ 12"
    unfolding acc1_def mask_12 unat_and_mask using push_or_small [OF v(1), of acc] by simp
  then have "unat acc1 mod 2 ^ b = (32 * unat acc + unat v) mod 2 ^ b"
    using mod_power_le [OF b(2)] by simp
  also have "\<dots> = 32 * (unat acc mod 2 ^ bits) + unat v"
  proof -
    have "unat v < 32" using v(1) by (simp add: word_less_nat_alt)
    moreover have "32 * (unat acc mod 2 ^ bits) + 32 \<le> 32 * 2 ^ bits"
    proof -
      have "unat acc mod 2 ^ bits < 2 ^ bits" by simp
      then show ?thesis by linarith
    qed
    ultimately have "32 * (unat acc mod 2 ^ bits) + unat v < 2 ^ b" by (simp add: b_def power_add)
    moreover have "(32 * unat acc + unat v) mod 2 ^ b = (32 * (unat acc mod 2 ^ bits) + unat v) mod 2 ^ b"
    proof -
      have m: "32 * unat acc mod 2 ^ b = 32 * (unat acc mod 2 ^ bits)"
        unfolding b_def power_add using mult_mod_right [of 32 "unat acc" "2 ^ bits"] by (simp add: mult.commute)
      have "(32 * unat acc + unat v) mod 2 ^ b = (32 * unat acc mod 2 ^ b + unat v) mod 2 ^ b"
        by (rule mod_add_left_eq [symmetric])
      then show ?thesis by (simp only: m)
    qed
    ultimately show ?thesis by simp
  qed
  finally have a1: "unat acc1 mod 2 ^ b = 32 * (unat acc mod 2 ^ bits) + unat v" .
  have r: "regroup 5 8 acc bits (v # vs) =
      (let (out, bits) = emit_bits acc1 8 b in bind_res (regroup 5 8 acc1 bits vs)
        (\<lambda>(out', acc, bits). Inr (out @ out', acc, bits)))"
    using small by (simp add: regroup.simps(2) acc1_def b_def Let_def)
  show ?case
  proof (cases "b < 8")
    case True
    from Cons.IH [OF v(2) True, of acc1] obtain out acc' bits' where
      "regroup 5 8 acc1 b vs = Inr (out, acc', bits')" "bits' < 8"
      "8 * length out + bits' = b + 5 * length vs"
      "be_value out * 2 ^ bits' + unat acc' mod 2 ^ bits' =
        (unat acc1 mod 2 ^ b) * 32 ^ length vs + number32 vs" by blast
    then show ?thesis
      using True b by (simp add: r emit_8 a1 [unfolded b_def] number32_Cons b_def algebra_simps)
  next
    case False
    define k where "k = b - 8"
    then have k: "k < 8" "b = k + 8" using False b by simp_all
    define byte :: u8 where "byte = ucast (drop_bit k acc1 AND 255)"
    have "unat (drop_bit k acc1) = unat acc1 div 2 ^ k"
      unfolding unat_drop_bit_eq by (simp add: drop_bit_eq_div)
    then have byte: "unat byte = unat acc1 div 2 ^ k mod 256"
      by (simp add: byte_def unsigned_ucast_eq take_bit_eq_mod)
    have split: "unat acc1 mod 2 ^ b = unat byte * 2 ^ k + unat acc1 mod 2 ^ k"
      unfolding byte k(2) using mod_mult2_eq [of "unat acc1" "2 ^ k" 256]
      by (simp add: power_add mult.commute)
    from Cons.IH [OF v(2) k(1), of acc1] obtain out acc' bits' where
      IH: "regroup 5 8 acc1 k vs = Inr (out, acc', bits')" "bits' < 8"
      "8 * length out + bits' = k + 5 * length vs"
      "be_value out * 2 ^ bits' + unat acc' mod 2 ^ bits' =
        (unat acc1 mod 2 ^ k) * 32 ^ length vs + number32 vs" by blast
    have "regroup 5 8 acc bits (v # vs) = Inr (byte # out, acc', bits')"
      using False b by (simp add: r emit_8 byte_def IH(1) flip: k_def)
    moreover have "8 * length (byte # out) + bits' = bits + 5 * length (v # vs)"
      using IH(3) k b_def by simp
    moreover have "be_value (byte # out) * 2 ^ bits' + unat acc' mod 2 ^ bits' =
        (unat acc mod 2 ^ bits) * 32 ^ length (v # vs) + number32 (v # vs)"
    proof -
      have p: "256 ^ length out * 2 ^ bits' = (2 ^ k * 32 ^ length vs :: nat)"
      proof -
        have "256 ^ length out * 2 ^ bits' = (2 :: nat) ^ (8 * length out + bits')"
          by (simp add: power_add power_mult)
        also have "\<dots> = 2 ^ k * 32 ^ length vs" unfolding IH(3) by (simp add: power_add power_mult)
        finally show ?thesis .
      qed
      have "be_value (byte # out) * 2 ^ bits' + unat acc' mod 2 ^ bits' =
          unat byte * (256 ^ length out * 2 ^ bits') + (be_value out * 2 ^ bits' + unat acc' mod 2 ^ bits')"
        by (simp add: be_value_Cons algebra_simps)
      also have "\<dots> = (unat byte * 2 ^ k + unat acc1 mod 2 ^ k) * 32 ^ length vs + number32 vs"
        unfolding p IH(4) by (simp add: algebra_simps)
      also have "\<dots> = (32 * (unat acc mod 2 ^ bits) + unat v) * 32 ^ length vs + number32 vs"
        by (simp only: flip: split a1)
      finally show ?thesis by (simp add: number32_Cons algebra_simps)
    qed
    ultimately show ?thesis using IH(2) by blast
  qed
qed

lemma padding_zero:
  fixes acc :: u32
  assumes "b < 8"
  shows "push_bit (8 - b) acc AND (push_bit 8 1 - 1) = 0 \<longleftrightarrow> unat acc mod 2 ^ b = 0"
proof -
  have m: "(push_bit 8 1 - 1 :: u32) = mask 8" by (simp add: mask_eq_exp_minus_1)
  have "push_bit (8 - b) acc AND mask 8 = 0 \<longleftrightarrow> (\<forall>i < b. \<not> bit acc i)"
  proof
    assume z: "push_bit (8 - b) acc AND mask 8 = 0"
    show "\<forall>i < b. \<not> bit acc i"
    proof (intro allI impI)
      fix i assume "i < b"
      have "\<not> bit (push_bit (8 - b) acc AND mask 8) (i + (8 - b))" by (simp only: z) simp
      moreover have "i + (8 - b) < 8" using \<open>i < b\<close> assms by simp
      ultimately show "\<not> bit acc i" by (simp add: bit_simps)
    qed
  next
    assume "\<forall>i < b. \<not> bit acc i"
    then show "push_bit (8 - b) acc AND mask 8 = 0"
      using assms by (intro bit_word_eqI) (auto simp: bit_simps)
  qed
  also have "\<dots> \<longleftrightarrow> take_bit b acc = 0"
    using bit_imp_le_length [of acc] by (auto simp: bit_eq_iff bit_simps)
  also have "\<dots> \<longleftrightarrow> unat acc mod 2 ^ b = 0"
    by (simp add: word_unat_eq_iff unsigned_take_bit_eq flip: take_bit_eq_mod)
  finally show ?thesis unfolding m .
qed

lemma scaled_unique:
  assumes "a * m = b * m + r" "r < (m :: nat)"
  shows "a = b \<and> r = 0"
proof -
  have "0 < m" using assms(2) by simp
  then have "(a * m) div m = a" by simp
  moreover have "(b * m + r) div m = b" using assms(2) by simp
  ultimately have ab: "a = b" using assms(1) by (metis (no_types))
  have "b * m + 0 = b * m + r" using assms(1) unfolding ab by (metis add_0_right)
  then have "0 = r" by (rule add_left_imp_eq)
  with ab show ?thesis by simp
qed

lemma convert_5_8:
  assumes "five_bits vs"
  shows "convert_bits vs 5 8 False = Inr out \<longleftrightarrow>
    (\<exists>k < 5. 5 * length vs = 8 * length out + k \<and> be_value out * 2 ^ k = number32 vs)"
proof -
  obtain o1 a1 b1 where r: "regroup 5 8 0 0 vs = Inr (o1, a1, b1)" "b1 < 8"
    "8 * length o1 + b1 = 5 * length vs"
    and v: "be_value o1 * 2 ^ b1 + unat a1 mod 2 ^ b1 = number32 vs"
    using regroup_value [OF assms, of 0 0] by auto
  have c: "convert_bits vs 5 8 False =
      (if 5 \<le> b1 \<or> unat a1 mod 2 ^ b1 \<noteq> 0 then Inl BadLength else Inr o1)"
    unfolding convert_bits_def Let_def r(1) using padding_zero [OF r(2), of a1] by simp
  show ?thesis
  proof
    assume "convert_bits vs 5 8 False = Inr out"
    then have "b1 < 5" "unat a1 mod 2 ^ b1 = 0" "out = o1" by (auto simp: c split: if_splits)
    then show "\<exists>k < 5. 5 * length vs = 8 * length out + k \<and> be_value out * 2 ^ k = number32 vs"
      using r(3) v by (intro exI [of _ b1]) simp
  next
    assume "\<exists>k < 5. 5 * length vs = 8 * length out + k \<and> be_value out * 2 ^ k = number32 vs"
    then obtain k where k: "k < 5" "5 * length vs = 8 * length out + k"
      "be_value out * 2 ^ k = number32 vs" by blast
    have "length out = length o1" using k(1,2) r(2,3) by linarith
    then have len: "length out = length o1" "k = b1" using k(2) r(3) by simp_all
    have "be_value out * 2 ^ b1 = be_value o1 * 2 ^ b1 + unat a1 mod 2 ^ b1" using k(3) v len by simp
    from scaled_unique [OF this] have "be_value out = be_value o1" "unat a1 mod 2 ^ b1 = 0" by simp_all
    moreover have "out = o1"
      using le_value_inject [of "rev out" "rev o1"] len(1) \<open>be_value out = be_value o1\<close>
      by (simp add: be_value_def)
    ultimately show "convert_bits vs 5 8 False = Inr out" using k(1) len by (simp add: c)
  qed
qed

section \<open>Segwit addresses\<close>

lemma segwit_decode_encode:
  assumes "lower_text hrp" "hrp \<noteq> []" "five_bits vs" "convert_bits vs 5 8 False = Inr p"
    and "ver \<le> 16" "2 \<le> length p" "length p \<le> 40" "ver = 0 \<longrightarrow> length p = 20 \<or> length p = 32"
  shows "segwit_decode hrp (bech32_encode ver hrp (of_nat ver # vs)) =
    Inr \<lparr>sw_version = ver, sw_program = p, sw_encoding = (if ver = 0 then 0 else 1)\<rparr>"
proof -
  have u: "unat (of_nat ver :: u8) = ver" using assms(5) by (simp add: unat_of_nat)
  have "five_bits (of_nat ver # vs)" using assms(3,5) by (simp add: word_less_nat_alt u)
  from bech32_decode_encode [OF assms(1,2) this, of ver] show ?thesis
    using assms(4-8) by (auto simp: segwit_decode_def u Let_def)
qed

lemma length_bech32_encode: "length (bech32_encode e hrp data) = length hrp + 7 + length data"
  by (simp add: bech32_encode_def charset_text_def bech32_tail_def)

lemma index_of_None_bech32:
  assumes "five_bits data" "CHR '':'' \<notin> set hrp"
  shows "index_of (CHR '':'') (bech32_encode e hrp data) = None"
proof -
  have "five_bits (data @ bech32_tail (bech32_target e) hrp data)"
    using assms(1) by (simp add: bech32_tail_def)
  from charset_text_set [OF this] show ?thesis
    using assms(2) by (auto simp: index_of_None bech32_encode_def bech32_charset_def)
qed

definition segwit_type :: "nat \<Rightarrow> nat \<Rightarrow> addr_type option" where
  "segwit_type ver n =
     (if ver = 0 \<and> n = 20 then Some P2WPKH else if ver = 0 \<and> n = 32 then Some P2WSH
      else if ver = 1 \<and> n = 32 then Some P2TR else None)"

lemma lower_bc: "lower_text ''bc''"
  by (simp add: lower_text_def is_upper_def)

section \<open>Decoded programs\<close>

definition cash_lengths :: "nat set" where
  "cash_lengths = {20, 24, 28, 32, 40, 48, 56, 64}"

definition program_sizes :: "addr_type \<Rightarrow> nat set" where
  "program_sizes t =
     (case t of P2PKH \<Rightarrow> {20} | P2SH \<Rightarrow> {20} | P2WPKH \<Rightarrow> {20} | P2WSH \<Rightarrow> {32} | P2TR \<Rightarrow> {32}
      | BchP2PKH \<Rightarrow> cash_lengths | BchP2SH \<Rightarrow> cash_lengths)"

lemma cash_size: "cash_sizes ! unat (v AND 0x07) div 8 \<in> cash_lengths" for v :: u8
proof -
  have m: "(0x07 :: u8) = mask 3" by (simp add: mask_eq_exp_minus_1)
  have "unat (v AND 0x07) < 8" unfolding m unat_and_mask by simp
  then have "unat (v AND 0x07) \<in> {0, 1, 2, 3, 4, 5, 6, 7}" by auto
  then show ?thesis unfolding cash_sizes_def cash_lengths_def by auto
qed

lemma cashaddr_program: "cashaddr_decode s = Inr cad \<Longrightarrow> length (cash_hash cad) \<in> cash_lengths"
  by (auto simp: cashaddr_decode_def Let_def bind_res_Inr_iff split_beta cash_size split: if_splits)

lemma try_bechs_program:
  "try_bechs addr ps = Some d \<Longrightarrow> length (d_program d) \<in> program_sizes (d_type d)"
  by (induction addr ps rule: try_bechs.induct)
    (auto simp: try_bech_def Let_def program_sizes_def split: if_splits sum.splits option.splits)

lemma b58_version_type: "b58_version v = Some (t, net) \<Longrightarrow> t = P2PKH \<or> t = P2SH"
  "zcash_version w = Some (t, net) \<Longrightarrow> t = P2PKH \<or> t = P2SH"
  by (auto simp: b58_version_def zcash_version_def split: if_splits)

lemma with_version_program:
  "with_version (b58_version v) body = Inr d \<Longrightarrow> length (d_program d) \<in> program_sizes (d_type d)"
  "with_version (zcash_version w) body = Inr d \<Longrightarrow> length (d_program d) \<in> program_sizes (d_type d)"
  by (auto simp: with_version_def program_sizes_def dest: b58_version_type split: if_splits option.splits prod.splits)

lemma decode_program:
  assumes "decode sha256 addr = Inr d"
  shows "length (d_program d) \<in> program_sizes (d_type d)"
proof -
  have rest: "length (d_program d) \<in> program_sizes (d_type d)" if "decode_rest sha256 addr = Inr (Inr d)"
    using that
    by (auto simp: decode_rest_def decode_base58_def bind_res_Inr_iff
        dest: try_bechs_program with_version_program split: option.splits sum.splits if_splits)
  have "decode_impl sha256 addr = Inr (Inr d)"
    using assms by (auto simp: decode_def split: sum.splits)
  then show ?thesis
    using cashaddr_program [of addr] rest
    by (auto simp: decode_impl_def Let_def program_sizes_def split: if_splits sum.splits option.splits)
qed

section \<open>The script of an address\<close>

text \<open>The bytes of the output script of each type, as Bitcoin defines them for a program of its size.\<close>

definition standard_script :: "addr_type \<Rightarrow> bytes \<Rightarrow> bytes" where
  "standard_script t p =
     (case t of
        P2PKH \<Rightarrow> [0x76, 0xa9, 0x14] @ p @ [0x88, 0xac] | BchP2PKH \<Rightarrow> [0x76, 0xa9, 0x14] @ p @ [0x88, 0xac]
      | P2SH \<Rightarrow> [0xa9, 0x14] @ p @ [0x87] | BchP2SH \<Rightarrow> [0xa9, 0x14] @ p @ [0x87]
      | P2WPKH \<Rightarrow> [0x00, 0x14] @ p | P2WSH \<Rightarrow> [0x00, 0x20] @ p | P2TR \<Rightarrow> [0x51, 0x20] @ p)"

lemma script_hex: "script_pubkey_hex d = bytes_to_hex (standard_script (d_type d) (d_program d))"
  by (cases "d_type d")
    (simp_all add: script_pubkey_hex_def standard_script_def hex_of_byte_def hex_digits_def drop_bit_eq_div)

lemma decode_segwit:
  assumes "five_bits vs" "convert_bits vs 5 8 False = Inr p" "segwit_type ver (length p) = Some t"
  shows "decode sha256 (bech32_encode ver ''bc'' (of_nat ver # vs)) =
    Inr \<lparr>d_type = t, d_network = BitcoinMainnet, d_program = p\<rparr>"
proof -
  let ?a = "bech32_encode ver ''bc'' (of_nat ver # vs)"
  have ver: "ver = 0 \<and> length p = 20 \<and> t = P2WPKH \<or> ver = 0 \<and> length p = 32 \<and> t = P2WSH \<or>
      ver = 1 \<and> length p = 32 \<and> t = P2TR"
    using assms(3) by (auto simp: segwit_type_def split: if_splits)
  have sw: "segwit_decode ''bc'' ?a =
      Inr \<lparr>sw_version = ver, sw_program = p, sw_encoding = (if ver = 0 then 0 else 1)\<rparr>"
    by (rule segwit_decode_encode [OF lower_bc]) (use assms ver in auto)
  obtain k where "k < 5" "5 * length vs = 8 * length p + k"
    using convert_5_8 [OF assms(1), of p] assms(2) by blast
  then have len: "length ?a \<le> 128" using ver by (auto simp: length_bech32_encode)
  have five: "five_bits (of_nat ver # vs)" using assms(1) ver by (auto simp: word_less_nat_alt)
  have colon: "index_of (CHR '':'') ?a = None" by (rule index_of_None_bech32 [OF five]) simp
  have start: "?a ! 0 = CHR ''b''" "?a ! 1 = CHR ''c''" "?a ! Suc (Suc 0) = CHR ''1''" "?a \<noteq> []"
    by (simp_all add: bech32_encode_def)
  have low: "lower (CHR ''b'') = CHR ''b''" "lower (CHR ''c'') = CHR ''c''"
    by (simp_all add: lower_def is_upper_def)
  have "try_bech ?a ''bc'' BitcoinMainnet = Some \<lparr>d_type = t, d_network = BitcoinMainnet, d_program = p\<rparr>"
    using ver start by (auto simp: try_bech_def sw low length_bech32_encode)
  then have "decode_rest sha256 ?a = Inr (Inr \<lparr>d_type = t, d_network = BitcoinMainnet, d_program = p\<rparr>)"
    by (simp add: decode_rest_def bech_prefixes_def)
  then show ?thesis using len colon start by (simp add: decode_def decode_impl_def low)
qed

lemma zero_program: "convert_bits (replicate 32 0) 5 8 False = Inr (replicate 20 0)"
proof -
  have z: "five_bits (replicate 32 0)" by simp
  have "number32 (replicate k 0) = 0" for k by (induction k) (simp_all add: number32_Cons)
  then show ?thesis
    unfolding convert_5_8 [OF z] by (intro exI [of _ 0]) (simp only: be_value_simps length_replicate, simp)
qed

lemma zero_address:
  "decode Inr (bech32_encode 0 ''bc'' (0 # replicate 32 0)) =
   Inr \<lparr>d_type = P2WPKH, d_network = BitcoinMainnet, d_program = replicate 20 0\<rparr>"
  using decode_segwit [OF five_bits_simps(4) zero_program, of 0 P2WPKH Inr]
  by (simp add: segwit_type_def)

section \<open>Properties\<close>

text \<open>
  Base58 decoding succeeds on exactly the texts over the alphabet: its result is one zero byte
  for every leading 1 and then the number the text denotes, without leading zeros; the buffer it
  computes in never runs out, so \<open>BadLength\<close> is never returned; and it inverts the standard encoding.
\<close>

theorem base58:
  "base58_decode (base58_encode bs) = Inr bs \<and>
   (\<exists>m. base58_decode s =
     (if b58_text s then Inr (replicate (length (takeWhile (\<lambda>c. c = CHR ''1'') s)) 0 @ m)
      else Inl BadCharacter) \<and> (b58_text s \<longrightarrow> be_value m = b58_number s \<and> (m = [] \<or> hd m \<noteq> 0)))"
  using base58_decode_encode base58_decode_eq [of s] by (cases "b58_text s") auto

lemma base58_witness:
  "b58_text ''12'' \<and> (\<exists>m. base58_decode ''12'' = Inr (0 # m) \<and> be_value m = 1)"
proof -
  have t: "b58_text ''12''" "takeWhile (\<lambda>c. c = CHR ''1'') ''12'' = ''1''" "b58_number ''12'' = 1"
    by (simp_all add: b58_text_def b58_digit_def b58_alphabet_def b58_number_def)
  then show ?thesis using base58 [of "[]" "''12''"] by auto
qed

text \<open>
  C37. Bech32 data with its six checksum symbols decodes to that data and tells bech32 from
  bech32m, and no text that differs from an accepted one in a single symbol of the data part has the
  same residue, so it is not accepted under the same encoding; the CashAddr checksum gives the same
  guarantee.
\<close>

theorem bech32_checksum:
  assumes "lower_text hrp" "hrp \<noteq> []" "five_bits data" and "x < 32" "y < 32" "x \<noteq> y"
  shows "bech32_decode hrp (bech32_encode e hrp data) = Inr (if e = 0 then 0 else 1, data) \<and>
    bech32_polymod (bech32_hrp_expand hrp @ us @ x # vs) \<noteq>
      bech32_polymod (bech32_hrp_expand hrp @ us @ y # vs) \<and>
    cashaddr_polymod (cashaddr_expand_prefix hrp @ us @ x # vs) \<noteq>
      cashaddr_polymod (cashaddr_expand_prefix hrp @ us @ y # vs)"
  using bech32_decode_encode [OF assms(1-3)] bech32_single_error [OF assms(4-6)]
    cash_single_error [OF assms(4-6)] by blast

lemma bech32_checksum_witness:
  "bech32_decode ''bc'' (bech32_encode 1 ''bc'' [1, 2, 3]) = Inr (1, [1, 2, 3]) \<and>
   bech32_polymod (bech32_hrp_expand ''bc'' @ [] @ 4 # [5]) \<noteq> bech32_polymod (bech32_hrp_expand ''bc'' @ [] @ 6 # [5])"
  using bech32_checksum [OF lower_bc, of "[1, 2, 3]" 4 6 1 "[]" "[5]"] by simp

text \<open>
  Regrouping five-bit symbols into bytes is exact: it gives the bytes whose bits are those of the
  symbols when fewer than five bits are left over and these are zero, and fails otherwise.
\<close>

theorem convert_bits_exact:
  assumes "five_bits vs"
  shows "convert_bits vs 5 8 False = Inr out \<longleftrightarrow>
    (\<exists>k < 5. 5 * length vs = 8 * length out + k \<and> be_value out * 2 ^ k = number32 vs)"
  by (rule convert_5_8 [OF assms])

lemma convert_bits_exact_witness: "convert_bits [31, 28] 5 8 False = Inr [255]"
proof -
  have "5 * length [31 :: u8, 28] = 8 * length [255 :: u8] + 2"
    "be_value [255 :: u8] * 2 ^ 2 = number32 [31, 28]"
    by (simp_all add: number32_def be_value_Cons)
  then show ?thesis using convert_bits_exact [of "[31, 28]" "[255]"] by (auto intro!: exI [of _ 2])
qed

text \<open>
  A mainnet segwit address decodes to its type and program: for every program that five-bit
  symbols spell out, the address made of the prefix bc, the witness version, the symbols and the
  checksum of that version decodes to P2WPKH, P2WSH or P2TR with exactly that program.
\<close>

theorem segwit_address:
  assumes "five_bits vs" "convert_bits vs 5 8 False = Inr p" "segwit_type ver (length p) = Some t"
  shows "decode sha256 (bech32_encode ver ''bc'' (of_nat ver # vs)) =
    Inr \<lparr>d_type = t, d_network = BitcoinMainnet, d_program = p\<rparr>"
  using assms by (rule decode_segwit)

lemma segwit_address_witness:
  "d_type (case decode Inr (bech32_encode 0 ''bc'' (0 # replicate 32 0)) of Inr d \<Rightarrow> d) = P2WPKH"
  using segwit_address [OF five_bits_simps(4) zero_program, of 0 P2WPKH Inr]
  by (simp add: segwit_type_def)

text \<open>
  C36. The payout script of a decoded address is the standard script of its type around its program,
  and the program has the size that script pushes: 20 bytes for P2PKH, P2SH and P2WPKH, 32 for P2WSH
  and P2TR. Only a CashAddr program may have another size, one of the eight the format allows,
  although its script still pushes 20 bytes.
\<close>

theorem address_script:
  assumes "decode sha256 addr = Inr d"
  shows "decode_to_script_hex sha256 addr = Inr (bytes_to_hex (standard_script (d_type d) (d_program d))) \<and>
    length (d_program d) \<in> program_sizes (d_type d)"
  using decode_program [OF assms] assms by (simp add: decode_to_script_hex_def script_hex)

lemma address_script_witness:
  "decode_to_script_hex Inr (bech32_encode 0 ''bc'' (0 # replicate 32 0)) =
   Inr (bytes_to_hex ([0x00, 0x14] @ replicate 20 0))"
  using address_script [OF zero_address]
  by (simp add: standard_script_def del: bytes_to_hex_simps)

end
