(* ===== verification/Merkle.thy ===== *)
theory Merkle
  imports Hex
begin

text \<open>
  \<open>src/merkle.cpp\<close>: the Merkle branch of the coinbase and the root computed from it. SHA-256 is
  OpenSSL's and is an argument; a failure of its context is not modelled. Shown here: folding the
  branch onto any coinbase gives the root of the whole tree, the branch has the height of the tree,
  and two coinbases with one root give a collision of the hash.
\<close>

section \<open>Definitions\<close>

text \<open>The file has its own hex decoder, with its own error text.\<close>

definition from_hex :: "string \<Rightarrow> bytes result" where
  "from_hex h =
     (if odd (length h) then Inl (RuntimeError ''odd hex length'')
      else case hex_pairs h of Inl _ \<Rightarrow> Inl (RuntimeError ''bad hex'') | Inr bs \<Rightarrow> Inr bs)"

definition sha256d :: "(bytes \<Rightarrow> bytes) \<Rightarrow> bytes \<Rightarrow> bytes" where
  "sha256d sha256 data = sha256 (sha256 data)"

definition read_txid :: "string \<Rightarrow> bytes result" where
  "read_txid h =
     bind_res (from_hex h) (\<lambda>b.
       if length b \<noteq> 32 then Inl (RuntimeError ''merkle: txid not 32 bytes'') else Inr b)"

definition pad_level :: "bytes list \<Rightarrow> bytes list" where
  "pad_level level = (if odd (length level) then level @ [last level] else level)"

fun hash_pairs :: "(bytes \<Rightarrow> bytes) \<Rightarrow> bytes list \<Rightarrow> bytes list" where
  "hash_pairs sha256 (a # b # level) = sha256d sha256 (a @ b) # hash_pairs sha256 level"
| "hash_pairs sha256 _ = []"

lemma length_hash_pairs [simp]: "length (hash_pairs sha256 level) = length level div 2"
  by (induction sha256 level rule: hash_pairs.induct) simp_all

lemma length_pad_level: "length (pad_level level) = 2 * ((length level + 1) div 2)"
  by (auto simp: pad_level_def elim: oddE)

text \<open>\<open>while (level.size() > 1)\<close>: the sibling of slot 0 at every level.\<close>

function branch_loop :: "(bytes \<Rightarrow> bytes) \<Rightarrow> bytes list \<Rightarrow> string list" where
  "branch_loop sha256 level =
     (if length level \<le> 1 then []
      else let level = pad_level level
           in bytes_to_hex (level ! 1) # branch_loop sha256 (hash_pairs sha256 level))"
  by auto
termination
  by (relation "measure (\<lambda>(_, level). length level)") (auto simp: length_pad_level)

declare branch_loop.simps [simp del]

definition build_branch_le_hex :: "(bytes \<Rightarrow> bytes) \<Rightarrow> string list \<Rightarrow> string list result" where
  "build_branch_le_hex sha256 txids_le_hex =
     bind_res (map_res read_txid txids_le_hex) (\<lambda>txids.
       Inr (branch_loop sha256 (replicate 32 0 # txids)))"

primrec fold_branch :: "(bytes \<Rightarrow> bytes) \<Rightarrow> bytes \<Rightarrow> string list \<Rightarrow> bytes result" where
  "fold_branch sha256 cur [] = Inr cur"
| "fold_branch sha256 cur (sib_hex # branch) =
     bind_res (from_hex sib_hex) (\<lambda>sib.
       if length sib \<noteq> 32 then Inl (RuntimeError ''branch element length'')
       else fold_branch sha256 (sha256d sha256 (cur @ sib)) branch)"

definition compute_root_le_hex :: "(bytes \<Rightarrow> bytes) \<Rightarrow> string \<Rightarrow> string list \<Rightarrow> string result" where
  "compute_root_le_hex sha256 coinbase_txid_le_hex branch_le_hex =
     bind_res (from_hex coinbase_txid_le_hex) (\<lambda>cur.
       if length cur \<noteq> 32 then Inl (RuntimeError ''coinbase txid length'')
       else bind_res (fold_branch sha256 cur branch_le_hex) (\<lambda>r. Inr (bytes_to_hex r)))"

section \<open>The tree\<close>

text \<open>The root of a list of leaves, as consensus defines it: a level of odd length repeats its last node.\<close>

function merkle_root :: "(bytes \<Rightarrow> bytes) \<Rightarrow> bytes list \<Rightarrow> bytes" where
  "merkle_root sha256 level =
     (if length level \<le> 1 then hd level else merkle_root sha256 (hash_pairs sha256 (pad_level level)))"
  by auto
termination
  by (relation "measure (\<lambda>(_, level). length level)") (auto simp: length_pad_level)

declare merkle_root.simps [simp del]

section \<open>Facts\<close>

lemma from_hex_to_hex [simp]: "from_hex (bytes_to_hex bs) = Inr bs"
  using hex_pairs_bytes_to_hex [of bs "[]"] by (simp add: from_hex_def)

lemma from_hex_ok: "is_ok (from_hex h) \<longleftrightarrow> even (length h) \<and> list_all is_hex h"
  using hex_pairs_ok [of h] by (auto simp: from_hex_def split: sum.split)

lemma from_hex_length: "from_hex h = Inr bs \<Longrightarrow> length h = 2 * length bs"
  by (auto simp: from_hex_def split: if_splits sum.splits dest: hex_pairs_length)

lemma read_txid_Inr: "read_txid h = Inr b \<Longrightarrow> length b = 32"
  by (auto simp: read_txid_def bind_res_Inr_iff split: if_splits)

lemma read_txid_ok: "is_ok (read_txid h) \<longleftrightarrow> length h = 64 \<and> list_all is_hex h"
proof -
  have "is_ok (read_txid h) \<longleftrightarrow> (\<exists>b. from_hex h = Inr b \<and> length b = 32)"
    by (auto simp: read_txid_def is_ok_iff bind_res_Inr_iff)
  also have "\<dots> \<longleftrightarrow> is_ok (from_hex h) \<and> length h = 64"
    using from_hex_length [of h] by (fastforce simp: is_ok_iff)
  finally show ?thesis by (auto simp: from_hex_ok)
qed

lemma map_res_read_txid_length:
  "map_res read_txid hs = Inr txids \<Longrightarrow> \<forall>t \<in> set txids. length t = 32"
  by (induction hs arbitrary: txids) (auto simp: bind_res_Inr_iff dest: read_txid_Inr)

lemma pad_level_Cons: "pad_level (c # level) = c # tl (pad_level (c # level))"
  by (simp add: pad_level_def)

lemma pad_level_subst:
  assumes "level \<noteq> []"
  shows "pad_level (c # level) = c # tl (pad_level (d # level))"
  using assms by (simp add: pad_level_def)

lemma set_pad_level: "set (pad_level level) = set level"
  by (cases "level = []") (auto simp: pad_level_def)

lemma hash_pairs_length_32:
  assumes "\<And>x. length (sha256 x) = 32"
  shows "\<forall>t \<in> set (hash_pairs sha256 level). length t = 32"
  using assms by (induction sha256 level rule: hash_pairs.induct) (auto simp: sha256d_def)

lemma fold_branch_loop:
  assumes sha: "\<And>x. length (sha256 x) = 32"
  shows "\<forall>t \<in> set level. length t = 32 \<Longrightarrow>
    fold_branch sha256 c (branch_loop sha256 (d # level)) = Inr (merkle_root sha256 (c # level))"
proof (induction "length level" arbitrary: level c d rule: less_induct)
  case less
  show ?case
  proof (cases "level = []")
    case True
    then show ?thesis by (simp add: branch_loop.simps merkle_root.simps)
  next
    case False
    obtain s rest where p: "tl (pad_level (d # level)) = s # rest"
      using length_pad_level [of "d # level"] False
      by (cases "pad_level (d # level)"; cases "tl (pad_level (d # level))") (auto simp: length_greater_0_conv)
    have pd: "pad_level (d # level) = d # s # rest" using pad_level_Cons p by metis
    have pc: "pad_level (c # level) = c # s # rest" using pad_level_subst [OF False] p by metis
    have l: "length rest + 2 = 2 * ((length level + 2) div 2)"
      using length_pad_level [of "d # level"] by (simp add: pd)
    have small: "length (hash_pairs sha256 rest) < length level"
      using l False by (cases level) (auto simp: length_greater_0_conv)
    have s32: "length s = 32"
    proof -
      have "set (d # s # rest) = set (d # level)" using set_pad_level [of "d # level"] pd by simp
      have "s \<in> set level"
        using False pd by (cases level) (auto simp: pad_level_def split: if_splits)
      then show ?thesis using less.prems by blast
    qed
    have n1: "\<not> length (x # level) \<le> 1" for x using False by (cases level) auto
    have "fold_branch sha256 c (branch_loop sha256 (d # level)) =
        fold_branch sha256 (sha256d sha256 (c @ s))
          (branch_loop sha256 (sha256d sha256 (d @ s) # hash_pairs sha256 rest))"
      using n1 [of d] by (subst branch_loop.simps) (simp add: pd s32 Let_def)
    also have "\<dots> = Inr (merkle_root sha256 (sha256d sha256 (c @ s) # hash_pairs sha256 rest))"
      by (rule less.hyps [OF small hash_pairs_length_32 [OF sha]])
    also have "\<dots> = Inr (merkle_root sha256 (c # level))"
      using n1 [of c] by (subst (2) merkle_root.simps) (simp add: pc)
    finally show ?thesis .
  qed
qed

lemma branch_loop_height:
  "level \<noteq> [] \<Longrightarrow> length level \<le> 2 ^ length (branch_loop sha256 level) \<and>
    2 ^ length (branch_loop sha256 level) < 2 * length level"
proof (induction sha256 level rule: branch_loop.induct)
  case (1 sha256 level)
  show ?case
  proof (cases "length level \<le> 1")
    case True
    then show ?thesis using 1(2) by (cases level) (simp_all add: branch_loop.simps)
  next
    case False
    let ?next = "hash_pairs sha256 (pad_level level)"
    have n: "length ?next = (length level + 1) div 2" by (simp add: length_pad_level)
    then have "?next \<noteq> []" using False by (cases ?next) auto
    then have "length ?next \<le> 2 ^ length (branch_loop sha256 ?next) \<and>
        2 ^ length (branch_loop sha256 ?next) < 2 * length ?next"
      using 1(1) [OF False refl] by blast
    moreover have "length (branch_loop sha256 level) = Suc (length (branch_loop sha256 ?next))"
      using False by (subst branch_loop.simps) (simp add: Let_def)
    moreover have "2 ^ length (branch_loop sha256 ?next) < length level" if "2 ^ length (branch_loop sha256 ?next) < 2 * length ?next"
    proof (cases "branch_loop sha256 ?next")
      case Nil
      then show ?thesis using False by simp
    next
      case (Cons b bs)
      then have "even (2 ^ length (branch_loop sha256 ?next) :: nat)" by simp
      then show ?thesis using that n by (elim evenE) simp
    qed
    ultimately show ?thesis using n False by simp linarith
  qed
qed

text \<open>Equal roots over one branch: the first level at which the inputs of the hash differ collides.\<close>

lemma sha256d_collision: "sha256d sha256 x = sha256d sha256 y \<Longrightarrow> x \<noteq> y \<Longrightarrow> \<exists>x y. x \<noteq> y \<and> sha256 x = sha256 y"
  unfolding sha256d_def by metis

lemma fold_branch_collision:
  assumes sha: "\<And>x. length (sha256 x) = 32"
    and root: "fold_branch sha256 c branch = Inr r" "fold_branch sha256 d branch = Inr r"
    and "c \<noteq> d" "length c = length d"
  shows "\<exists>x y. x \<noteq> y \<and> sha256 x = sha256 y"
  using root \<open>c \<noteq> d\<close> \<open>length c = length d\<close>
proof (induction branch arbitrary: c d)
  case (Cons sib branch)
  obtain s where s: "from_hex sib = Inr s"
      "fold_branch sha256 (sha256d sha256 (c @ s)) branch = Inr r"
      "fold_branch sha256 (sha256d sha256 (d @ s)) branch = Inr r"
    using Cons.prems(1,2) by (auto simp: bind_res_Inr_iff split: if_splits)
  show ?case
  proof (cases "sha256d sha256 (c @ s) = sha256d sha256 (d @ s)")
    case True
    then show ?thesis by (rule sha256d_collision) (use Cons.prems(3) in simp)
  next
    case False
    show ?thesis by (rule Cons.IH [OF s(2,3) False]) (simp add: sha256d_def sha)
  qed
qed simp

text \<open>The branch of transactions whose ids are well formed folds every coinbase id into the root.\<close>

lemma branch_root:
  assumes sha: "\<And>x. length (sha256 x) = 32" and cb: "length cb = 32"
    and "list_all2 (\<lambda>h t. from_hex h = Inr t \<and> length t = 32) hs tx"
  shows "\<exists>branch. build_branch_le_hex sha256 hs = Inr branch \<and>
    compute_root_le_hex sha256 (bytes_to_hex cb) branch = Inr (bytes_to_hex (merkle_root sha256 (cb # tx))) \<and>
    length hs + 1 \<le> 2 ^ length branch \<and> 2 ^ length branch < 2 * (length hs + 1)"
proof -
  have ids: "map_res read_txid hs = Inr tx" and len: "length tx = length hs"
    using assms(3) unfolding map_res_Inr_iff by (auto simp: read_txid_def list_all2_conv_all_nth)
  have "\<forall>t \<in> set tx. length t = 32" by (rule map_res_read_txid_length [OF ids])
  then have "fold_branch sha256 cb (branch_loop sha256 (replicate 32 0 # tx)) = Inr (merkle_root sha256 (cb # tx))"
    by (rule fold_branch_loop [OF sha])
  then show ?thesis
    using branch_loop_height [of "replicate 32 0 # tx" sha256] len
    by (simp add: build_branch_le_hex_def compute_root_le_hex_def ids cb)
qed

section \<open>Properties\<close>

text \<open>
  C30. The branch computed for a template is right for every coinbase: it exists exactly when every
  transaction id is 64 hex digits, and folding it onto a coinbase id gives the root of the tree
  whose leaves are that coinbase and the transactions, for any number of them. The branch has the
  height of the tree, and its entries are hex text of 32 bytes that \<open>compute_root_le_hex\<close> accepts.
\<close>

theorem merkle_branch:
  fixes sha256 :: "bytes \<Rightarrow> bytes"
  assumes sha: "\<And>x. length (sha256 x) = 32" and cb: "length cb = 32"
  shows "(is_ok (build_branch_le_hex sha256 hs) \<longleftrightarrow> (\<forall>h \<in> set hs. length h = 64 \<and> list_all is_hex h)) \<and>
    (\<forall>tx. list_all2 (\<lambda>h t. from_hex h = Inr t \<and> length t = 32) hs tx \<longrightarrow>
      (\<exists>branch. build_branch_le_hex sha256 hs = Inr branch \<and>
        compute_root_le_hex sha256 (bytes_to_hex cb) branch = Inr (bytes_to_hex (merkle_root sha256 (cb # tx))) \<and>
        length hs + 1 \<le> 2 ^ length branch \<and> 2 ^ length branch < 2 * (length hs + 1)))"
proof (intro conjI allI impI)
  have "is_ok (build_branch_le_hex sha256 hs) \<longleftrightarrow> is_ok (map_res read_txid hs)"
    by (auto simp: build_branch_le_hex_def is_ok_iff bind_res_Inr_iff)
  also have "\<dots> \<longleftrightarrow> (\<forall>h \<in> set hs. is_ok (read_txid h))"
    by (induction hs) (auto simp: is_ok_iff bind_res_Inr_iff)
  finally show "is_ok (build_branch_le_hex sha256 hs) \<longleftrightarrow> (\<forall>h \<in> set hs. length h = 64 \<and> list_all is_hex h)"
    by (simp add: read_txid_ok)
next
  fix tx
  assume "list_all2 (\<lambda>h t. from_hex h = Inr t \<and> length t = 32) hs tx"
  then show "\<exists>branch. build_branch_le_hex sha256 hs = Inr branch \<and>
      compute_root_le_hex sha256 (bytes_to_hex cb) branch = Inr (bytes_to_hex (merkle_root sha256 (cb # tx))) \<and>
      length hs + 1 \<le> 2 ^ length branch \<and> 2 ^ length branch < 2 * (length hs + 1)"
    by (rule branch_root [OF sha cb])
qed

definition first32 :: "bytes \<Rightarrow> bytes" where
  "first32 bs = take 32 (bs @ replicate 32 0)"

lemma length_first32 [simp]: "length (first32 bs) = 32"
  by (simp add: first32_def)

theorem merkle_branch_witness:
  "\<exists>branch. build_branch_le_hex first32 (map bytes_to_hex [replicate 32 1, replicate 32 2]) = Inr branch \<and>
     compute_root_le_hex first32 (bytes_to_hex (replicate 32 7)) branch =
       Inr (bytes_to_hex (merkle_root first32 [replicate 32 7, replicate 32 1, replicate 32 2]))"
proof -
  have "list_all2 (\<lambda>h t. from_hex h = Inr t \<and> length t = 32) (map bytes_to_hex [replicate 32 1, replicate 32 2]) [replicate 32 1, replicate 32 2]"
    unfolding list_all2_map1 by (simp only: list_all2_Cons list_all2_Nil from_hex_to_hex length_replicate simp_thms)
  from merkle_branch [of first32 "replicate 32 7", THEN conjunct2, rule_format, OF _ _ this]
  show ?thesis
    by (simp only: length_first32 length_replicate list.size length_map simp_thms) blast
qed

text \<open>
  A root commits to the coinbase: two different coinbase ids that give the same root over the
  same branch exhibit two inputs with one SHA-256 digest.
\<close>

theorem merkle_commitment:
  fixes sha256 :: "bytes \<Rightarrow> bytes"
  assumes sha: "\<And>x. length (sha256 x) = 32"
    and "compute_root_le_hex sha256 (bytes_to_hex c) branch = Inr root"
    and "compute_root_le_hex sha256 (bytes_to_hex d) branch = Inr root"
    and "c \<noteq> d"
  shows "\<exists>x y. x \<noteq> y \<and> sha256 x = sha256 y"
proof -
  obtain r where "fold_branch sha256 c branch = Inr r" "fold_branch sha256 d branch = Inr r"
      "length c = 32" "length d = 32"
    using assms(2,3) by (auto simp: compute_root_le_hex_def bind_res_Inr_iff bytes_to_hex_inject split: if_splits)
  then show ?thesis using fold_branch_collision [OF sha _ _ assms(4)] by simp
qed

theorem merkle_commitment_witness:
  "\<exists>x y :: bytes. x \<noteq> y \<and> replicate 32 (0 :: u8) = replicate 32 0"
proof (rule merkle_commitment [of "\<lambda>_. replicate 32 0" "replicate 32 1" "[bytes_to_hex (replicate 32 9)]"
    "bytes_to_hex (replicate 32 0)" "replicate 32 2"])
  have "compute_root_le_hex (\<lambda>_. replicate 32 0) (bytes_to_hex (replicate 32 v)) [bytes_to_hex (replicate 32 9)] =
      Inr (bytes_to_hex (replicate 32 0))" for v
    unfolding compute_root_le_hex_def fold_branch.simps from_hex_to_hex bind_res_simps length_replicate sha256d_def
    by simp
  then show "compute_root_le_hex (\<lambda>_. replicate 32 0) (bytes_to_hex (replicate 32 1)) [bytes_to_hex (replicate 32 9)] =
      Inr (bytes_to_hex (replicate 32 0))"
    "compute_root_le_hex (\<lambda>_. replicate 32 0) (bytes_to_hex (replicate 32 2)) [bytes_to_hex (replicate 32 9)] =
      Inr (bytes_to_hex (replicate 32 0))"
    by blast+
qed (simp_all del: replicate.simps)

end
