(* ===== verification/WriteQueue.thy ===== *)
theory WriteQueue
  imports Stdlib
begin

text \<open>
  \<open>src/write_queue.hpp\<close>: the outbound queue of a session, with one chained asynchronous write and a
  high-water mark. The stream, the owner's weak pointer and the drop handler are the environment:
  an operation returns the actions it asks for, and whether the owner is still alive is an argument
  of the operations that lock the pointer. Shown here: at most one write is in flight, messages
  leave in the order they were accepted, and the byte counter is exact but for rejected messages.
  The counter is a natural number: it does not wrap as the \<open>size_t\<close> of the code would.
\<close>

section \<open>Definitions\<close>

datatype wq_action = AsyncWrite string | DropSession

record write_queue =
  wq_queue :: "string list"
  wq_queued_bytes :: nat
  wq_high_water :: nat
  wq_writing :: bool
  wq_drop_set :: bool
  wq_has_owner :: bool
  wq_stopped :: bool

definition wq_new :: "nat \<Rightarrow> write_queue" where
  "wq_new high_water = \<lparr>wq_queue = [], wq_queued_bytes = 0, wq_high_water = high_water, wq_writing = False,
     wq_drop_set = False, wq_has_owner = False, wq_stopped = False\<rparr>"

definition set_drop_handler :: "write_queue \<Rightarrow> write_queue" where
  "set_drop_handler q = q\<lparr>wq_drop_set := True\<rparr>"

definition set_owner :: "write_queue \<Rightarrow> write_queue" where
  "set_owner q = q\<lparr>wq_has_owner := True\<rparr>"

definition wq_stop :: "write_queue \<Rightarrow> write_queue" where
  "wq_stop q = q\<lparr>wq_stopped := True\<rparr>"

definition call_drop :: "write_queue \<Rightarrow> wq_action list" where
  "call_drop q = (if wq_drop_set q then [DropSession] else [])"

definition wq_write :: "bool \<Rightarrow> write_queue \<Rightarrow> write_queue \<times> wq_action list" where
  "wq_write owner_alive q =
     (if wq_stopped q then (q\<lparr>wq_writing := False\<rparr>, [])
      else if wq_has_owner q \<and> \<not> owner_alive then (q\<lparr>wq_writing := False\<rparr>, [])
      else (q, [AsyncWrite (hd (wq_queue q))]))"

definition wq_push :: "bool \<Rightarrow> string \<Rightarrow> write_queue \<Rightarrow> bool \<times> write_queue \<times> wq_action list" where
  "wq_push owner_alive msg q =
     (if wq_stopped q then (False, q, [])
      else let q = q\<lparr>wq_queued_bytes := wq_queued_bytes q + length msg\<rparr>
        in if wq_queued_bytes q > wq_high_water q then (False, q, call_drop q)
        else let q = q\<lparr>wq_queue := wq_queue q @ [msg]\<rparr>
          in if \<not> wq_writing q then (True, wq_write owner_alive (q\<lparr>wq_writing := True\<rparr>))
          else (True, q, []))"

text \<open>The completion handler of a write; \<open>ec\<close> says that it failed.\<close>

definition on_write_done :: "bool \<Rightarrow> bool \<Rightarrow> write_queue \<Rightarrow> write_queue \<times> wq_action list" where
  "on_write_done ec owner_alive q =
     (if ec then (q\<lparr>wq_writing := False\<rparr>, call_drop q)
      else if wq_stopped q \<or> wq_queue q = [] then (q\<lparr>wq_writing := False\<rparr>, [])
      else let q = q\<lparr>wq_queued_bytes := wq_queued_bytes q - length (hd (wq_queue q)), wq_queue := tl (wq_queue q)\<rparr>
        in if wq_queue q = [] then (q\<lparr>wq_writing := False\<rparr>, []) else wq_write owner_alive q)"

definition wq_queued :: "write_queue \<Rightarrow> nat" where
  "wq_queued q = wq_queued_bytes q"

section \<open>Runs\<close>

text \<open>
  The queue with its history: the accepted messages, the ones whose write completed without error,
  the bytes of the rejected ones and the writes in flight. A completion handler runs only for a
  write in flight.
\<close>

record wq_run =
  wr_queue :: write_queue
  wr_accepted :: "string list"
  wr_sent :: "string list"
  wr_rejected :: nat
  wr_flight :: "string list"

definition started :: "wq_action list \<Rightarrow> string list" where
  "started acts = List.map_filter (\<lambda>a. case a of AsyncWrite m \<Rightarrow> Some m | DropSession \<Rightarrow> None) acts"

lemma started_simps [simp]:
  "started [] = []" "started [AsyncWrite m] = [m]" "started [DropSession] = []" "started (call_drop q) = []"
  by (simp_all add: started_def call_drop_def List.map_filter_def)

inductive wq_step :: "wq_run \<Rightarrow> wq_run \<Rightarrow> bool" where
  push: "wq_push alive msg (wr_queue r) = (ok, q, acts) \<Longrightarrow> \<not> wq_stopped (wr_queue r) \<Longrightarrow>
    wq_step r (r\<lparr>wr_queue := q, wr_accepted := wr_accepted r @ (if ok then [msg] else []),
      wr_rejected := wr_rejected r + (if ok then 0 else length msg), wr_flight := wr_flight r @ started acts\<rparr>)"
| done_ok: "wr_flight r = m # ms \<Longrightarrow> on_write_done False alive (wr_queue r) = (q, acts) \<Longrightarrow>
    wq_step r (r\<lparr>wr_queue := q, wr_sent := wr_sent r @ (if wq_stopped (wr_queue r) then [] else [m]),
      wr_flight := ms @ started acts\<rparr>)"
| failed: "wr_flight r = m # ms \<Longrightarrow> on_write_done True alive (wr_queue r) = (q, acts) \<Longrightarrow>
    wq_step r (r\<lparr>wr_queue := q, wr_flight := ms @ started acts\<rparr>)"
| stop: "wq_step r (r\<lparr>wr_queue := wq_stop (wr_queue r)\<rparr>)"

inductive wq_reachable :: "nat \<Rightarrow> wq_run \<Rightarrow> bool" for high_water where
  start: "wq_reachable high_water
    \<lparr>wr_queue = set_owner (set_drop_handler (wq_new high_water)), wr_accepted = [], wr_sent = [], wr_rejected = 0, wr_flight = []\<rparr>"
| step: "wq_reachable high_water r \<Longrightarrow> wq_step r r' \<Longrightarrow> wq_reachable high_water r'"

definition total_length :: "string list \<Rightarrow> nat" where
  "total_length ms = sum_list (map length ms)"

lemma total_length_simps [simp]:
  "total_length [] = 0" "total_length (m # ms) = length m + total_length ms"
  "total_length (ms @ ns) = total_length ms + total_length ns"
  by (simp_all add: total_length_def)

definition wq_ok :: "wq_run \<Rightarrow> bool" where
  "wq_ok r \<longleftrightarrow>
     (let q = wr_queue r
      in wr_flight r = (if wq_writing q then [hd (wq_queue q)] else []) \<and>
         (wq_writing q \<longrightarrow> wq_queue q \<noteq> []) \<and>
         wr_accepted r = wr_sent r @ wq_queue q \<and>
         wq_queued_bytes q = total_length (wq_queue q) + wr_rejected r \<and>
         total_length (wq_queue q) \<le> wq_high_water q)"

lemma push_fields:
  "wq_push alive msg q = (ok, q', acts) \<Longrightarrow> wq_ok r \<Longrightarrow> wr_queue r = q \<Longrightarrow> \<not> wq_stopped q \<Longrightarrow>
    wq_ok (r\<lparr>wr_queue := q', wr_accepted := wr_accepted r @ (if ok then [msg] else []),
      wr_rejected := wr_rejected r + (if ok then 0 else length msg), wr_flight := wr_flight r @ started acts\<rparr>)"
  by (auto simp: wq_ok_def wq_push_def wq_write_def Let_def hd_append split: if_splits)

lemma done_fields:
  "on_write_done ec alive q = (q', acts) \<Longrightarrow> wq_ok r \<Longrightarrow> wr_queue r = q \<Longrightarrow> wr_flight r = m # ms \<Longrightarrow>
    wq_ok (r\<lparr>wr_queue := q', wr_sent := wr_sent r @ (if ec \<or> wq_stopped q then [] else [m]),
      wr_flight := ms @ started acts\<rparr>)"
  by (cases "wq_queue q") (auto simp: wq_ok_def on_write_done_def wq_write_def Let_def split: if_splits)

lemma wq_step_ok: "wq_step r r' \<Longrightarrow> wq_ok r \<Longrightarrow> wq_ok r'"
proof (induction rule: wq_step.induct)
  case (push alive msg r ok q acts)
  then show ?case by (blast intro: push_fields)
next
  case (done_ok r m ms alive q acts)
  then show ?case using done_fields [of False alive "wr_queue r" q acts r m ms] by simp
next
  case (failed r m ms alive q acts)
  then show ?case using done_fields [of True alive "wr_queue r" q acts r m ms] by simp
next
  case (stop r)
  then show ?case by (simp add: wq_ok_def wq_stop_def Let_def)
qed

section \<open>Properties\<close>

text \<open>
  C40. In every reachable state of a session's write queue at most one asynchronous write is in
  flight and it writes the front of the queue, the messages accepted so far are the ones sent
  followed by the ones queued (so they leave in order, none lost and none doubled), the queued
  bytes never exceed the high-water mark, and the byte counter is the queued bytes plus the bytes
  of every message rejected so far: a rejected push permanently lowers the room that is left.
\<close>

theorem write_order:
  assumes "wq_reachable high_water r"
  shows "wr_flight r = (if wq_writing (wr_queue r) then [hd (wq_queue (wr_queue r))] else []) \<and>
    wr_accepted r = wr_sent r @ wq_queue (wr_queue r) \<and>
    total_length (wq_queue (wr_queue r)) \<le> high_water \<and>
    wq_queued (wr_queue r) = total_length (wq_queue (wr_queue r)) + wr_rejected r"
proof -
  have "wq_high_water (wr_queue r') = wq_high_water (wr_queue r)" if "wq_step r r'" for r r'
    using that by (cases rule: wq_step.cases)
      (auto simp: wq_push_def on_write_done_def wq_write_def wq_stop_def Let_def split: if_splits)
  note high = this
  from assms have "wq_ok r \<and> wq_high_water (wr_queue r) = high_water"
  proof (induction rule: wq_reachable.induct)
    case start
    show ?case by (simp add: wq_ok_def wq_new_def set_owner_def set_drop_handler_def)
  next
    case (step r r')
    then show ?case using wq_step_ok high by metis
  qed
  then show ?thesis by (simp add: wq_ok_def wq_queued_def Let_def)
qed

text \<open>Two messages into a queue of three bytes: the second one is rejected and stays counted.\<close>

theorem write_order_witness:
  "\<exists>r. wq_reachable 3 r \<and> wr_flight r = [''ab''] \<and> wq_queued (wr_queue r) = total_length [''ab''] + 2"
proof -
  let ?q = "\<lparr>wq_queue = [''ab''], wq_queued_bytes = 2, wq_high_water = 3, wq_writing = True,
     wq_drop_set = True, wq_has_owner = True, wq_stopped = False\<rparr>"
  have 1: "wq_reachable 3 \<lparr>wr_queue = ?q, wr_accepted = [''ab''], wr_sent = [], wr_rejected = 0, wr_flight = [''ab'']\<rparr>"
    using wq_reachable.step [OF wq_reachable.start wq_step.push [of True "''ab''" _ True ?q "[AsyncWrite ''ab'']"], of 3]
    by (simp add: wq_push_def wq_write_def wq_new_def set_owner_def set_drop_handler_def)
  have "wq_reachable 3 \<lparr>wr_queue = ?q\<lparr>wq_queued_bytes := 4\<rparr>, wr_accepted = [''ab''], wr_sent = [], wr_rejected = 2, wr_flight = [''ab'']\<rparr>"
    using wq_reachable.step [OF 1 wq_step.push [of True "''cd''" _ False "?q\<lparr>wq_queued_bytes := 4\<rparr>" "call_drop (?q\<lparr>wq_queued_bytes := 4\<rparr>)"]]
    by (simp add: wq_push_def Let_def call_drop_def numeral_2_eq_2)
  then show ?thesis using write_order by (intro exI conjI) (assumption | simp add: wq_queued_def)+
qed

end
