(* ===== verification/RateLimiter.thy ===== *)
theory RateLimiter
  imports Stdlib "HOL-Library.AList"
begin

text \<open>
  \<open>src/rate_limiter.cpp\<close> and \<open>rate_limiter.hpp\<close>: per-address connection tokens, bans and the
  counting of invalid shares. A point of the steady clock is its number of nanoseconds, and 0 is the
  unset value the code tests for; a hash map is an association list; \<open>double\<close> results are rounded
  by the parameter \<open>F\<close>. Shown here: the connection and token bounds, the admission rate of the token
  bucket, and that a banned address is refused until its ban ends.
\<close>

section \<open>Definitions\<close>

record rate_config =
  max_connections_per_ip :: u32
  accept_burst :: u32
  accept_refill_per_sec :: rat
  invalid_share_ban_threshold :: u32
  invalid_share_window :: int
  ban_duration :: int

definition nanos :: "int \<Rightarrow> int" where
  "nanos seconds = seconds * 1000000000"

definition default_rate_config :: rate_config where
  "default_rate_config = \<lparr>max_connections_per_ip = 50000, accept_burst = 10000, accept_refill_per_sec = 1000,
     invalid_share_ban_threshold = 10000, invalid_share_window = 5 * 60, ban_duration = 60 * 60\<rparr>"

record bucket =
  bk_tokens :: rat
  bk_last :: int
  bk_open_connections :: u32
  bk_invalid_shares :: u32
  bk_invalid_window_start :: int

record rate_limiter =
  rl_cfg :: rate_config
  rl_buckets :: "(string \<times> bucket) list"
  rl_bans :: "(string \<times> int) list"

definition limiter_new :: "rate_config \<Rightarrow> rate_limiter" where
  "limiter_new cfg = \<lparr>rl_cfg = cfg, rl_buckets = [], rl_bans = []\<rparr>"

text \<open>\<open>buckets_[ip]\<close>: the stored bucket, or a value-initialised one.\<close>

definition bucket_of :: "string \<Rightarrow> rate_limiter \<Rightarrow> bucket" where
  "bucket_of ip s =
     (case map_of (rl_buckets s) ip of Some b \<Rightarrow> b
      | None \<Rightarrow> \<lparr>bk_tokens = 0, bk_last = 0, bk_open_connections = 0, bk_invalid_shares = 0,
          bk_invalid_window_start = 0\<rparr>)"

definition put_bucket :: "string \<Rightarrow> bucket \<Rightarrow> rate_limiter \<Rightarrow> rate_limiter" where
  "put_bucket ip b s = s\<lparr>rl_buckets := AList.update ip b (rl_buckets s)\<rparr>"

definition refill_locked :: "fpu \<Rightarrow> rate_config \<Rightarrow> int \<Rightarrow> bucket \<Rightarrow> bucket" where
  "refill_locked F cfg now b =
     (let elapsed = rnd_d F (of_int (now - bk_last b) / 1000000000)
      in if elapsed > 0
         then b\<lparr>bk_tokens := min (of_nat (unat (accept_burst cfg)))
                  (rnd_d F (bk_tokens b + rnd_d F (elapsed * accept_refill_per_sec cfg))),
                bk_last := now\<rparr>
         else b)"

definition ban_active :: "int \<Rightarrow> string \<Rightarrow> rate_limiter \<Rightarrow> bool" where
  "ban_active now ip s = (case map_of (rl_bans s) ip of Some until \<Rightarrow> now < until | None \<Rightarrow> False)"

text \<open>The bucket of the address once it has been seeded and refilled.\<close>

definition ready_bucket :: "fpu \<Rightarrow> int \<Rightarrow> string \<Rightarrow> rate_limiter \<Rightarrow> bucket" where
  "ready_bucket F now ip s =
     (let b = bucket_of ip s;
          b = (if bk_last b = 0 then b\<lparr>bk_tokens := of_nat (unat (accept_burst (rl_cfg s))), bk_last := now\<rparr> else b)
      in refill_locked F (rl_cfg s) now b)"

definition allow_connection :: "fpu \<Rightarrow> int \<Rightarrow> string \<Rightarrow> rate_limiter \<Rightarrow> bool \<times> rate_limiter" where
  "allow_connection F now ip s =
     (if ban_active now ip s then (False, s)
      else let s = s\<lparr>rl_bans := AList.delete ip (rl_bans s)\<rparr>;
               b = ready_bucket F now ip s
        in if bk_tokens b < 1 then (False, put_bucket ip b s)
        else if bk_open_connections b \<ge> max_connections_per_ip (rl_cfg s) then (False, put_bucket ip b s)
        else (True, put_bucket ip (b\<lparr>bk_tokens := rnd_d F (bk_tokens b - 1),
                bk_open_connections := bk_open_connections b + 1\<rparr>) s))"

definition on_disconnect :: "string \<Rightarrow> rate_limiter \<Rightarrow> rate_limiter" where
  "on_disconnect ip s =
     (case map_of (rl_buckets s) ip of None \<Rightarrow> s
      | Some b \<Rightarrow> if bk_open_connections b > 0
          then put_bucket ip (b\<lparr>bk_open_connections := bk_open_connections b - 1\<rparr>) s else s)"

definition ban :: "int \<Rightarrow> string \<Rightarrow> int \<Rightarrow> rate_limiter \<Rightarrow> rate_limiter" where
  "ban now ip duration s = s\<lparr>rl_bans := AList.update ip (now + nanos duration) (rl_bans s)\<rparr>"

definition is_banned :: "int \<Rightarrow> string \<Rightarrow> rate_limiter \<Rightarrow> bool" where
  "is_banned now ip s = ban_active now ip s"

definition record_invalid_share :: "int \<Rightarrow> string \<Rightarrow> rate_limiter \<Rightarrow> bool \<times> rate_limiter" where
  "record_invalid_share now ip s =
     (let b = bucket_of ip s;
          b = (if bk_invalid_window_start b = 0
                  \<or> now - bk_invalid_window_start b > nanos (invalid_share_window (rl_cfg s))
               then b\<lparr>bk_invalid_window_start := now, bk_invalid_shares := 0\<rparr> else b);
          b = b\<lparr>bk_invalid_shares := bk_invalid_shares b + 1\<rparr>
      in if bk_invalid_shares b \<ge> invalid_share_ban_threshold (rl_cfg s)
         then (True, put_bucket ip (b\<lparr>bk_invalid_shares := 0\<rparr>) (ban now ip (ban_duration (rl_cfg s)) s))
         else (False, put_bucket ip b s))"

definition clear_invalid :: "string \<Rightarrow> rate_limiter \<Rightarrow> rate_limiter" where
  "clear_invalid ip s =
     (case map_of (rl_buckets s) ip of None \<Rightarrow> s
      | Some b \<Rightarrow> put_bucket ip (b\<lparr>bk_invalid_shares := 0\<rparr>) s)"

definition snapshot :: "rate_limiter \<Rightarrow> nat \<times> nat" where
  "snapshot s = (sum_list (map (\<lambda>kv. unat (bk_open_connections (snd kv))) (rl_buckets s)), length (rl_bans s))"

section \<open>Runs\<close>

datatype limiter_event =
    Connect int string
  | Disconnect string
  | Ban int string int
  | InvalidShare int string
  | ClearInvalid string

definition limiter_step :: "fpu \<Rightarrow> limiter_event \<Rightarrow> rate_limiter \<Rightarrow> bool \<times> rate_limiter" where
  "limiter_step F e s =
     (case e of Connect now ip \<Rightarrow> allow_connection F now ip s
      | Disconnect ip \<Rightarrow> (False, on_disconnect ip s)
      | Ban now ip d \<Rightarrow> (False, ban now ip d s)
      | InvalidShare now ip \<Rightarrow> (False, snd (record_invalid_share now ip s))
      | ClearInvalid ip \<Rightarrow> (False, clear_invalid ip s))"

text \<open>The number of admissions of one address in a run, and the state behind it.\<close>

fun limiter_run :: "fpu \<Rightarrow> string \<Rightarrow> limiter_event list \<Rightarrow> rate_limiter \<Rightarrow> nat \<times> rate_limiter" where
  "limiter_run F ip [] s = (0, s)"
| "limiter_run F ip (e # es) s =
     (let (ok, s') = limiter_step F e s; (n, s'') = limiter_run F ip es s'
      in ((case e of Connect _ ip' \<Rightarrow> if ok \<and> ip' = ip then 1 else 0 | _ \<Rightarrow> 0) + n, s''))"

text \<open>Connection attempts in time order, none before \<open>t\<close>; \<open>end_time\<close> is the last one.\<close>

fun in_order :: "int \<Rightarrow> limiter_event list \<Rightarrow> bool" where
  "in_order t [] = True"
| "in_order t (Connect now ip # es) = (t \<le> now \<and> in_order now es)"
| "in_order t (_ # es) = in_order t es"

fun end_time :: "int \<Rightarrow> limiter_event list \<Rightarrow> int" where
  "end_time t [] = t"
| "end_time t (Connect now ip # es) = end_time now es"
| "end_time t (_ # es) = end_time t es"

section \<open>Facts\<close>

lemma bucket_of_put [simp]:
  "bucket_of ip (put_bucket ip' b s) = (if ip = ip' then b else bucket_of ip s)"
  by (simp add: bucket_of_def put_bucket_def update_conv')

lemma put_bucket_fields [simp]:
  "rl_cfg (put_bucket ip b s) = rl_cfg s" "rl_bans (put_bucket ip b s) = rl_bans s"
  by (simp_all add: put_bucket_def)

lemma bucket_of_bans [simp]: "bucket_of ip (s\<lparr>rl_bans := x\<rparr>) = bucket_of ip s"
  by (simp add: bucket_of_def)

lemma ready_bucket_bans [simp]: "ready_bucket F now ip (s\<lparr>rl_bans := x\<rparr>) = ready_bucket F now ip s"
  by (simp add: ready_bucket_def Let_def cong: if_cong)

lemma limiter_step_cfg [simp]: "rl_cfg (snd (limiter_step F e s)) = rl_cfg s"
  by (simp add: limiter_step_def allow_connection_def on_disconnect_def ban_def record_invalid_share_def
      clear_invalid_def Let_def split: limiter_event.split option.split)

lemma on_disconnect_bucket: "bucket_of ip (on_disconnect ip' s) = (bucket_of ip s)\<lparr>bk_open_connections :=
    (if ip = ip' \<and> bk_open_connections (bucket_of ip s) > 0 then bk_open_connections (bucket_of ip s) - 1
     else bk_open_connections (bucket_of ip s))\<rparr>"
  by (auto simp: on_disconnect_def bucket_of_def put_bucket_def update_conv' split: option.split)

lemma clear_invalid_bucket: "bk_tokens (bucket_of ip (clear_invalid ip' s)) = bk_tokens (bucket_of ip s)"
  "bk_last (bucket_of ip (clear_invalid ip' s)) = bk_last (bucket_of ip s)"
  "bk_open_connections (bucket_of ip (clear_invalid ip' s)) = bk_open_connections (bucket_of ip s)"
  by (auto simp: clear_invalid_def bucket_of_def put_bucket_def update_conv' split: option.split)

lemma record_invalid_bucket:
  "bk_tokens (bucket_of ip (snd (record_invalid_share now ip' s))) = bk_tokens (bucket_of ip s)"
  "bk_last (bucket_of ip (snd (record_invalid_share now ip' s))) = bk_last (bucket_of ip s)"
  "bk_open_connections (bucket_of ip (snd (record_invalid_share now ip' s))) = bk_open_connections (bucket_of ip s)"
  by (simp_all add: record_invalid_share_def Let_def ban_def)

lemma ban_bucket [simp]: "bucket_of ip (ban now ip' d s) = bucket_of ip s"
  by (simp add: ban_def)

lemma ready_bucket_open [simp]:
  "bk_open_connections (ready_bucket F now ip s) = bk_open_connections (bucket_of ip s)"
  by (simp add: ready_bucket_def refill_locked_def Let_def)

text \<open>How a connection attempt changes the buckets.\<close>

lemma allow_connection_cases:
  obtains (banned) "allow_connection F now ip s = (False, s)"
  | (refused) s' where "allow_connection F now ip s = (False, s')"
      "\<And>i. bucket_of i s' = (if i = ip then ready_bucket F now ip s else bucket_of i s)"
  | (admitted) s' where "allow_connection F now ip s = (True, s')" "1 \<le> bk_tokens (ready_bucket F now ip s)"
      "bk_open_connections (bucket_of ip s) < max_connections_per_ip (rl_cfg s)"
      "\<And>i. bucket_of i s' = (if i = ip then (ready_bucket F now ip s)\<lparr>
          bk_tokens := rnd_d F (bk_tokens (ready_bucket F now ip s) - 1),
          bk_open_connections := bk_open_connections (bucket_of ip s) + 1\<rparr> else bucket_of i s)"
  by (cases "ban_active now ip s"; cases "bk_tokens (ready_bucket F now ip s) < 1";
      cases "bk_open_connections (bucket_of ip s) \<ge> max_connections_per_ip (rl_cfg s)")
    (auto simp: allow_connection_def Let_def)

definition opens :: "string \<Rightarrow> rate_limiter \<Rightarrow> nat" where
  "opens ip s = unat (bk_open_connections (bucket_of ip s))"

definition disconnects :: "string \<Rightarrow> limiter_event list \<Rightarrow> nat" where
  "disconnects ip es = length (filter (\<lambda>e. e = Disconnect ip) es)"

definition admitted :: "string \<Rightarrow> limiter_event \<Rightarrow> bool \<Rightarrow> nat" where
  "admitted ip e ok = (case e of Connect _ ip' \<Rightarrow> if ok \<and> ip' = ip then 1 else 0 | _ \<Rightarrow> 0)"

lemma unat_suc_bound: "x < y \<Longrightarrow> unat (x + 1) = unat x + 1 \<and> unat (x + 1) \<le> unat y" for x y :: u32
  using unsigned_less [of y, where 'a = nat] by (simp add: word_less_nat_alt unat_word_ariths)

lemma limiter_step_opens:
  assumes "opens ip s \<le> unat (max_connections_per_ip (rl_cfg s))"
  shows "opens ip (snd (limiter_step F e s)) \<le> unat (max_connections_per_ip (rl_cfg s)) \<and>
    admitted ip e (fst (limiter_step F e s)) + opens ip s \<le> opens ip (snd (limiter_step F e s)) + (if e = Disconnect ip then 1 else 0)"
proof (cases e)
  case (Connect now ip')
  show ?thesis
    by (rule allow_connection_cases [of F now ip' s])
      (use assms in \<open>auto simp: Connect limiter_step_def opens_def admitted_def dest: unat_suc_bound\<close>)
next
  case (Disconnect ip')
  have "unat (x - 1) = unat x - 1" if "x > 0" for x :: u32
    using that by (metis unat_minus_one word_not_simps(1) word_neq_0_conv)
  then show ?thesis
    using assms by (auto simp: Disconnect limiter_step_def opens_def admitted_def on_disconnect_bucket)
qed (use assms in \<open>auto simp: limiter_step_def opens_def admitted_def clear_invalid_bucket record_invalid_bucket\<close>)

lemma limiter_run_opens:
  "opens ip s \<le> unat (max_connections_per_ip (rl_cfg s)) \<Longrightarrow> limiter_run F ip es s = (n, s') \<Longrightarrow>
    opens ip s' \<le> unat (max_connections_per_ip (rl_cfg s)) \<and> n + opens ip s \<le> opens ip s' + disconnects ip es"
proof (induction es arbitrary: s n)
  case (Cons e es)
  obtain ok s1 where 1: "limiter_step F e s = (ok, s1)" by fastforce
  obtain m where 2: "limiter_run F ip es s1 = (m, s')" "n = admitted ip e ok + m"
    using Cons.prems(2) 1 by (auto simp: admitted_def split: prod.splits)
  have c: "rl_cfg s1 = rl_cfg s" using limiter_step_cfg [of F e s] by (simp add: 1)
  show ?case using limiter_step_opens [OF Cons.prems(1), of F e] Cons.IH [of s1 m] c
    by (auto simp: 1 2 disconnects_def split: if_splits)
qed (simp add: disconnects_def)

lemma unsigned_rat_nonneg [simp]: "0 \<le> (unsigned w :: rat)" for w :: u32
  by (metis of_nat_0_le_iff of_nat_unat)

text \<open>The tokens an address can use at time \<open>t\<close>.\<close>

definition level :: "int \<Rightarrow> string \<Rightarrow> rate_limiter \<Rightarrow> rat" where
  "level t ip s =
     (let b = bucket_of ip s; burst = of_nat (unat (accept_burst (rl_cfg s)))
      in if bk_last b = 0 then burst
         else min burst (bk_tokens b + of_int (t - bk_last b) / 1000000000 * accept_refill_per_sec (rl_cfg s)))"

definition tokens_ok :: "int \<Rightarrow> string \<Rightarrow> rate_limiter \<Rightarrow> bool" where
  "tokens_ok t ip s \<longleftrightarrow>
     (let b = bucket_of ip s
      in bk_last b \<le> t \<and> 0 \<le> bk_tokens b \<and> bk_tokens b \<le> of_nat (unat (accept_burst (rl_cfg s))))"

lemma ready_bucket_level:
  assumes "tokens_ok now ip s" "0 < now" "0 \<le> accept_refill_per_sec (rl_cfg s)"
  shows "bk_tokens (ready_bucket exact_fpu now ip s) = level now ip s \<and> bk_last (ready_bucket exact_fpu now ip s) = now"
  using assms by (auto simp: ready_bucket_def refill_locked_def level_def tokens_ok_def exact_fpu_def Let_def min_def)

lemma level_nonneg: "tokens_ok t ip s \<Longrightarrow> 0 \<le> accept_refill_per_sec (rl_cfg s) \<Longrightarrow> 0 \<le> level t ip s"
  by (auto simp: level_def tokens_ok_def Let_def)

lemma level_mono:
  assumes "t \<le> u" "0 \<le> accept_refill_per_sec (rl_cfg s)"
  shows "level u ip s \<le> level t ip s + of_int (u - t) / 1000000000 * accept_refill_per_sec (rl_cfg s)"
proof -
  let ?r = "accept_refill_per_sec (rl_cfg s)" and ?l = "bk_last (bucket_of ip s)"
  have m: "min b (x + (y + d)) \<le> min b (x + y) + d" if "0 \<le> d" for b x y d :: rat using that by linarith
  have "of_int (u - ?l) / 1000000000 * ?r = of_int (t - ?l) / 1000000000 * ?r + of_int (u - t) / 1000000000 * ?r"
    by (simp add: field_simps)
  moreover have "0 \<le> of_int (u - t) / 1000000000 * ?r" using assms by simp
  ultimately show ?thesis using m by (simp only: level_def Let_def split: if_split) simp
qed

lemma other_event:
  assumes "\<not> (\<exists>now ip'. e = Connect now ip')"
  shows "level t ip (snd (limiter_step F e s)) = level t ip s"
    and "tokens_ok t ip (snd (limiter_step F e s)) = tokens_ok t ip s"
    and "limiter_run F ip (e # es) s = limiter_run F ip es (snd (limiter_step F e s))"
proof -
  have "bk_tokens (bucket_of ip (snd (limiter_step F e s))) = bk_tokens (bucket_of ip s)"
    "bk_last (bucket_of ip (snd (limiter_step F e s))) = bk_last (bucket_of ip s)"
    using assms by (cases e; simp add: limiter_step_def on_disconnect_bucket clear_invalid_bucket record_invalid_bucket)+
  then show "level t ip (snd (limiter_step F e s)) = level t ip s"
    "tokens_ok t ip (snd (limiter_step F e s)) = tokens_ok t ip s"
    by (simp_all add: level_def tokens_ok_def Let_def)
  show "limiter_run F ip (e # es) s = limiter_run F ip es (snd (limiter_step F e s))"
    using assms by (cases e) (simp_all add: case_prod_beta)
qed

lemma other_run:
  "limiter_run F ip (Disconnect i # es) s = limiter_run F ip es (snd (limiter_step F (Disconnect i) s))"
  "limiter_run F ip (Ban now i d # es) s = limiter_run F ip es (snd (limiter_step F (Ban now i d) s))"
  "limiter_run F ip (InvalidShare now i # es) s = limiter_run F ip es (snd (limiter_step F (InvalidShare now i) s))"
  "limiter_run F ip (ClearInvalid i # es) s = limiter_run F ip es (snd (limiter_step F (ClearInvalid i) s))"
  by (simp_all add: other_event del: limiter_run.simps)

lemma limiter_run_rate:
  "tokens_ok t ip s \<Longrightarrow> 0 < t \<Longrightarrow> 0 \<le> accept_refill_per_sec (rl_cfg s) \<Longrightarrow> in_order t es \<Longrightarrow>
    limiter_run exact_fpu ip es s = (n, s') \<Longrightarrow>
    of_nat n \<le> level t ip s + of_int (end_time t es - t) / 1000000000 * accept_refill_per_sec (rl_cfg s)"
proof (induction t es arbitrary: s n rule: in_order.induct)
  case (1 t)
  then show ?case using level_nonneg by simp
next
  case (2 t now ip' es)
  let ?r = "accept_refill_per_sec (rl_cfg s)"
  obtain ok s1 where 1: "allow_connection exact_fpu now ip' s = (ok, s1)" by fastforce
  obtain m where m: "limiter_run exact_fpu ip es s1 = (m, s')" "n = (if ok \<and> ip' = ip then 1 else 0) + m"
    using "2.prems"(5) 1 by (auto simp: limiter_step_def split: prod.splits)
  have c: "rl_cfg s1 = rl_cfg s" using limiter_step_cfg [of exact_fpu "Connect now ip'" s] by (simp add: limiter_step_def 1)
  have now: "0 < now" "t \<le> now" using "2.prems" by auto
  have ok: "tokens_ok now ip s" using "2.prems"(1) now by (auto simp: tokens_ok_def Let_def)
  note ready = ready_bucket_level [OF ok now(1) "2.prems"(3)]
  have lb: "level now ip s \<le> of_nat (unat (accept_burst (rl_cfg s)))" by (simp add: level_def Let_def)
  have step: "tokens_ok now ip s1 \<and> level now ip s1 + (if ok \<and> ip' = ip then 1 else 0) \<le> level now ip s"
  proof (cases "ip' = ip")
    case False
    then have "bucket_of ip s1 = bucket_of ip s"
      by (rule_tac allow_connection_cases [of exact_fpu now ip' s]) (use 1 in auto)
    with False show ?thesis using ok c by (simp add: tokens_ok_def level_def Let_def)
  next
    case True
    show ?thesis
    proof (rule allow_connection_cases [of exact_fpu now ip' s])
      assume "allow_connection exact_fpu now ip' s = (False, s)"
      then show ?thesis using ok 1 by simp
    next
      fix s2
      assume "allow_connection exact_fpu now ip' s = (False, s2)"
        "\<And>i. bucket_of i s2 = (if i = ip' then ready_bucket exact_fpu now ip' s else bucket_of i s)"
      then show ?thesis using True 1 c ready level_nonneg [OF ok "2.prems"(3)] lb now
        by (auto simp: tokens_ok_def level_def [of now ip s1] Let_def)
    next
      fix s2
      assume "allow_connection exact_fpu now ip' s = (True, s2)" "1 \<le> bk_tokens (ready_bucket exact_fpu now ip' s)"
        "\<And>i. bucket_of i s2 = (if i = ip' then (ready_bucket exact_fpu now ip' s)\<lparr>
          bk_tokens := rnd_d exact_fpu (bk_tokens (ready_bucket exact_fpu now ip' s) - 1),
          bk_open_connections := bk_open_connections (bucket_of ip' s) + 1\<rparr> else bucket_of i s)"
      then show ?thesis using True 1 c ready now lb
        by (auto simp: tokens_ok_def level_def [of now ip s1] Let_def exact_fpu_def)
    qed
  qed
  have "of_nat m \<le> level now ip s1 + of_int (end_time now es - now) / 1000000000 * ?r"
    using "2.IH" [of s1 m] step now "2.prems" m(1) by (simp add: c)
  moreover have "level now ip s \<le> level t ip s + of_int (now - t) / 1000000000 * ?r"
    by (rule level_mono [OF now(2) "2.prems"(3)])
  moreover have "of_int (end_time t (Connect now ip' # es) - t) / 1000000000 * ?r =
      of_int (end_time now es - now) / 1000000000 * ?r + of_int (now - t) / 1000000000 * ?r"
    by (simp add: field_simps)
  moreover have "of_nat n = (of_nat m + (if ok \<and> ip' = ip then 1 else 0) :: rat)" by (simp add: m(2))
  ultimately show ?case using step by linarith
next
  case prems: "3_1"
  show ?case using prems(1) [OF _ _ _ _ prems(6) [unfolded other_run(1)]] prems(2-5)
    by (simp add: other_event del: limiter_run.simps)
next
  case prems: "3_2"
  show ?case using prems(1) [OF _ _ _ _ prems(6) [unfolded other_run(2)]] prems(2-5)
    by (simp add: other_event del: limiter_run.simps)
next
  case prems: "3_3"
  show ?case using prems(1) [OF _ _ _ _ prems(6) [unfolded other_run(3)]] prems(2-5)
    by (simp add: other_event del: limiter_run.simps)
next
  case prems: "3_4"
  show ?case using prems(1) [OF _ _ _ _ prems(6) [unfolded other_run(4)]] prems(2-5)
    by (simp add: other_event del: limiter_run.simps)
qed

text \<open>Bans: nothing that happens to other addresses, and no connection attempt, lifts one.\<close>

definition punishes :: "string \<Rightarrow> limiter_event \<Rightarrow> bool" where
  "punishes ip e = (case e of Ban _ ip' _ \<Rightarrow> ip' = ip | InvalidShare _ ip' \<Rightarrow> ip' = ip | _ \<Rightarrow> False)"

lemma allow_connection_bans:
  "map_of (rl_bans s) ip = Some until \<Longrightarrow> (ip' = ip \<Longrightarrow> now < until) \<Longrightarrow>
    map_of (rl_bans (snd (allow_connection F now ip' s))) ip = Some until"
  by (auto simp: allow_connection_def ban_active_def Let_def delete_conv')

lemma limiter_step_bans:
  assumes "map_of (rl_bans s) ip = Some until" "\<not> punishes ip e" "\<And>now. e = Connect now ip \<Longrightarrow> now < until"
  shows "map_of (rl_bans (snd (limiter_step F e s))) ip = Some until"
  using assms by (cases e) (auto simp: limiter_step_def punishes_def on_disconnect_def clear_invalid_def ban_def
      record_invalid_share_def Let_def update_conv' intro!: allow_connection_bans split: option.split)

lemma end_time_mono: "in_order t es \<Longrightarrow> t \<le> end_time t es"
  by (induction t es rule: in_order.induct) auto

lemma limiter_run_bans:
  "map_of (rl_bans s) ip = Some until \<Longrightarrow> \<not> list_ex (punishes ip) es \<Longrightarrow> in_order t es \<Longrightarrow> end_time t es < until \<Longrightarrow>
    map_of (rl_bans (snd (limiter_run F ip es s))) ip = Some until"
proof (induction es arbitrary: s t)
  case (Cons e es)
  obtain t' where t': "in_order t' es" "end_time t' es < until" "\<And>now ip'. e = Connect now ip' \<Longrightarrow> t' = now"
    using Cons.prems(3,4) by (cases e) auto
  have "map_of (rl_bans (snd (limiter_step F e s))) ip = Some until"
    using limiter_step_bans [OF Cons.prems(1), of e F] Cons.prems(2) t' end_time_mono [OF t'(1)] by fastforce
  then show ?case using Cons.IH t' Cons.prems(2) by (simp add: case_prod_beta)
qed simp

text \<open>Invalid shares of one address at the times \<open>ts\<close>.\<close>

fun invalid_shares :: "int list \<Rightarrow> string \<Rightarrow> rate_limiter \<Rightarrow> bool list" where
  "invalid_shares [] ip s = []"
| "invalid_shares (t # ts) ip s =
     (let (r, s') = record_invalid_share t ip s in r # invalid_shares ts ip s')"

lemma record_invalid_counts:
  assumes "bk_invalid_window_start (bucket_of ip s) = w" "w \<noteq> 0" "t \<le> w + nanos (invalid_share_window (rl_cfg s))"
    and "bk_invalid_shares (bucket_of ip s) < invalid_share_ban_threshold (rl_cfg s)"
  shows "fst (record_invalid_share t ip s) =
      (unat (bk_invalid_shares (bucket_of ip s)) + 1 = unat (invalid_share_ban_threshold (rl_cfg s))) \<and>
    (\<not> fst (record_invalid_share t ip s) \<longrightarrow>
      bk_invalid_window_start (bucket_of ip (snd (record_invalid_share t ip s))) = w \<and>
      bk_invalid_shares (bucket_of ip (snd (record_invalid_share t ip s))) = bk_invalid_shares (bucket_of ip s) + 1 \<and>
      rl_cfg (snd (record_invalid_share t ip s)) = rl_cfg s)"
  using assms unat_suc_bound [OF assms(4)] by (auto simp: record_invalid_share_def Let_def word_le_nat_alt)

lemma invalid_shares_window:
  "bk_invalid_window_start (bucket_of ip s) = w \<Longrightarrow> w \<noteq> 0 \<Longrightarrow>
    list_all (\<lambda>t. t \<le> w + nanos (invalid_share_window (rl_cfg s))) ts \<Longrightarrow>
    ts \<noteq> [] \<Longrightarrow> unat (bk_invalid_shares (bucket_of ip s)) + length ts = unat (invalid_share_ban_threshold (rl_cfg s)) \<Longrightarrow>
    invalid_shares ts ip s = replicate (length ts - 1) False @ [True]"
proof (induction ts arbitrary: s)
  case (Cons t ts)
  have lt: "bk_invalid_shares (bucket_of ip s) < invalid_share_ban_threshold (rl_cfg s)"
    using Cons.prems(5) by (simp add: word_less_nat_alt)
  note r = record_invalid_counts [OF Cons.prems(1,2) _ lt, of t]
  obtain b s' where s': "record_invalid_share t ip s = (b, s')" by fastforce
  show ?case
  proof (cases ts)
    case Nil
    then show ?thesis using r Cons.prems(3,5) by (simp add: s')
  next
    case (Cons u us)
    then have "\<not> b" "rl_cfg s' = rl_cfg s" "bk_invalid_window_start (bucket_of ip s') = w"
        "bk_invalid_shares (bucket_of ip s') = bk_invalid_shares (bucket_of ip s) + 1"
      using r Cons.prems(3,5) by (auto simp: s')
    then show ?thesis
      using Cons.IH [of s'] Cons.prems Cons unat_suc_bound [OF lt] by (simp add: s')
  qed
qed simp

section \<open>Properties\<close>

text \<open>
  C38. Over any sequence of events, an address never holds more than \<open>max_connections_per_ip\<close>
  connections: its admissions exceed its disconnects by at most that number, and so does the counter
  of its bucket. With exact arithmetic its admissions are also limited in time: from the first
  attempt at \<open>t\<close> to the last one, at most \<open>accept_burst\<close> plus \<open>accept_refill_per_sec\<close> for every second.
\<close>

theorem admission_limits:
  assumes "limiter_run F ip es (limiter_new cfg) = (n, s)"
  shows "n \<le> unat (max_connections_per_ip cfg) + disconnects ip es \<and>
    opens ip s \<le> unat (max_connections_per_ip cfg) \<and>
    (F = exact_fpu \<and> 0 < t \<and> in_order t es \<and> 0 \<le> accept_refill_per_sec cfg \<longrightarrow>
      of_nat n \<le> of_nat (unat (accept_burst cfg)) + of_int (end_time t es - t) / 1000000000 * accept_refill_per_sec cfg)"
proof -
  have new: "rl_cfg (limiter_new cfg) = cfg" "opens ip (limiter_new cfg) = 0" "0 \<le> t \<Longrightarrow> tokens_ok t ip (limiter_new cfg)"
      "level t ip (limiter_new cfg) = of_nat (unat (accept_burst cfg))"
    by (simp_all add: limiter_new_def opens_def bucket_of_def tokens_ok_def level_def)
  show ?thesis
    using limiter_run_opens [of ip "limiter_new cfg" F es n s] limiter_run_rate [of t ip "limiter_new cfg" es n s] assms
    by (auto simp: new)
qed

theorem admission_limits_witness:
  "\<exists>n s. limiter_run exact_fpu ''a'' [Connect 1 ''a'', Connect 2 ''a'', Connect 3 ''b'', Connect 4 ''a'']
      (limiter_new (default_rate_config\<lparr>max_connections_per_ip := 2\<rparr>)) = (n, s) \<and> n = 2 \<and> n \<le> unat (2 :: u32)"
proof -
  let ?c = "default_rate_config\<lparr>max_connections_per_ip := 2\<rparr>"
  have "fst (limiter_run exact_fpu ''a'' [Connect 1 ''a'', Connect 2 ''a'', Connect 3 ''b'', Connect 4 ''a''] (limiter_new ?c)) = 2"
    by (simp add: word_le_nat_alt limiter_step_def allow_connection_def ready_bucket_def refill_locked_def bucket_of_def put_bucket_def
        ban_active_def limiter_new_def default_rate_config_def exact_fpu_def Let_def)
  then obtain s where "limiter_run exact_fpu ''a'' [Connect 1 ''a'', Connect 2 ''a'', Connect 3 ''b'', Connect 4 ''a''] (limiter_new ?c) = (2, s)"
    by (metis prod.collapse)
  with admission_limits [OF this] show ?thesis by (simp add: disconnects_def default_rate_config_def)
qed

text \<open>
  A ban holds until its end: after \<open>ban\<close> for \<open>d\<close> seconds at time \<open>t\<close>, and after the invalid share
  that reaches the threshold, the address is banned and every connection attempt of it before the end
  is refused, whatever happens in between, unless a new ban of that address replaces it. The share
  that bans is the one whose number in its window is the threshold, and none before it.
\<close>

theorem ban_holds:
  assumes "\<not> list_ex (punishes ip) es" "in_order t es" "end_time t es \<le> now"
  shows "(now < t + nanos d \<longrightarrow>
      is_banned now ip (snd (limiter_run F ip es (ban t ip d s))) \<and>
      \<not> fst (allow_connection F now ip (snd (limiter_run F ip es (ban t ip d s))))) \<and>
    (fst (record_invalid_share t ip s) \<and> now < t + nanos (ban_duration (rl_cfg s)) \<longrightarrow>
      \<not> fst (allow_connection F now ip (snd (limiter_run F ip es (snd (record_invalid_share t ip s)))))) \<and>
    (0 < t0 \<and> length ts + 1 = unat (invalid_share_ban_threshold (rl_cfg s)) \<and> bk_invalid_window_start (bucket_of ip s) = 0 \<and>
      (\<forall>u \<in> set ts. u \<le> t0 + nanos (invalid_share_window (rl_cfg s))) \<longrightarrow>
      invalid_shares (t0 # ts) ip s = replicate (length ts) False @ [True])"
proof (intro conjI impI)
  have banned: "is_banned now ip s' \<and> \<not> fst (allow_connection F now ip s')"
    if "map_of (rl_bans s') ip = Some until" "now < until" for s' until
    using that by (simp add: is_banned_def allow_connection_def ban_active_def)
  have run: "map_of (rl_bans (snd (limiter_run F ip es s'))) ip = Some until"
    if "map_of (rl_bans s') ip = Some until" "now < until" for s' until
    using limiter_run_bans [OF that(1) assms(1,2)] assms(3) that(2) by simp
  assume "now < t + nanos d"
  moreover have "map_of (rl_bans (ban t ip d s)) ip = Some (t + nanos d)" by (simp add: ban_def update_conv')
  ultimately show "is_banned now ip (snd (limiter_run F ip es (ban t ip d s)))"
    "\<not> fst (allow_connection F now ip (snd (limiter_run F ip es (ban t ip d s))))"
    using banned run by blast+
next
  assume a: "fst (record_invalid_share t ip s) \<and> now < t + nanos (ban_duration (rl_cfg s))"
  then have "map_of (rl_bans (snd (record_invalid_share t ip s))) ip = Some (t + nanos (ban_duration (rl_cfg s)))"
    by (auto simp: record_invalid_share_def Let_def ban_def update_conv' split: if_split_asm)
  then have "map_of (rl_bans (snd (limiter_run F ip es (snd (record_invalid_share t ip s))))) ip =
      Some (t + nanos (ban_duration (rl_cfg s)))"
    by (rule limiter_run_bans [OF _ assms(1,2)]) (use a assms(3) in simp)
  then show "\<not> fst (allow_connection F now ip (snd (limiter_run F ip es (snd (record_invalid_share t ip s)))))"
    using a by (simp add: allow_connection_def ban_active_def)
next
  assume a: "0 < t0 \<and> length ts + 1 = unat (invalid_share_ban_threshold (rl_cfg s)) \<and>
      bk_invalid_window_start (bucket_of ip s) = 0 \<and> (\<forall>u \<in> set ts. u \<le> t0 + nanos (invalid_share_window (rl_cfg s)))"
  show "invalid_shares (t0 # ts) ip s = replicate (length ts) False @ [True]"
  proof (cases "ts = []")
    case True
    then have "invalid_share_ban_threshold (rl_cfg s) = 1" using a by (simp add: word_unat_eq_iff)
    then show ?thesis using a True by (simp add: record_invalid_share_def Let_def)
  next
    case False
    obtain b s' where s': "record_invalid_share t0 ip s = (b, s')" by fastforce
    have "\<not> 1 \<ge> invalid_share_ban_threshold (rl_cfg s)"
      using a False by (cases ts) (simp_all add: word_le_nat_alt)
    then have f: "\<not> b" "rl_cfg s' = rl_cfg s" "bk_invalid_window_start (bucket_of ip s') = t0"
        "bk_invalid_shares (bucket_of ip s') = 1"
      using a s' by (auto simp: record_invalid_share_def Let_def)
    have "invalid_shares ts ip s' = replicate (length ts - 1) False @ [True]"
      by (rule invalid_shares_window [of ip s' t0]) (use a f False in \<open>auto simp: list_all_iff\<close>)
    then show ?thesis using f False by (cases ts) (simp_all add: s')
  qed
qed

theorem ban_holds_witness:
  "\<not> fst (allow_connection exact_fpu 9 ''a'' (snd (limiter_run exact_fpu ''a'' [Connect 5 ''a'', Disconnect ''a'', Connect 7 ''b'']
     (ban 1 ''a'' 3600 (limiter_new default_rate_config)))))"
  by (rule ban_holds [of "''a''" _ 1 9 3600, THEN conjunct1, THEN mp, THEN conjunct2])
    (simp_all add: punishes_def nanos_def)

end
