(* ===== verification/Blacklist.thy ===== *)
theory Blacklist
  imports Stdlib
begin

text \<open>
  \<open>src/blacklist.cpp\<close>: the in-memory copy of the three blacklist tables and its matching rules. The
  database is an argument: a query returns its rows or throws. Shown here: a reload replaces all
  three lists or none, and worker names match by their letters and digits only.
\<close>

section \<open>Definitions\<close>

definition is_alnum :: "char \<Rightarrow> bool" where
  "is_alnum c = (let n = of_char c :: nat
     in (48 \<le> n \<and> n \<le> 57) \<or> (65 \<le> n \<and> n \<le> 90) \<or> (97 \<le> n \<and> n \<le> 122))"

definition to_lower :: "char \<Rightarrow> char" where
  "to_lower c = (let n = of_char c :: nat in if 65 \<le> n \<and> n \<le> 90 then char_of (n + 32) else c)"

definition normalize :: "string \<Rightarrow> string" where
  "normalize s = map to_lower (filter is_alnum s)"

text \<open>\<open>n.find(w) != npos\<close>.\<close>

definition contains :: "string \<Rightarrow> string \<Rightarrow> bool" where
  "contains n w = list_ex (\<lambda>i. take (length w) (drop i n) = w) [0..<length n + 1]"

record blacklist =
  bl_addresses :: "string set"
  bl_banned_words :: "string list"
  bl_free_grants :: "string set"

definition blacklist_new :: blacklist where
  "blacklist_new = \<lparr>bl_addresses = {}, bl_banned_words = [], bl_free_grants = {}\<rparr>"

text \<open>The rows of a query that have a non-empty first column.\<close>

definition first_columns :: "string list list \<Rightarrow> string list" where
  "first_columns rows = map hd (filter (\<lambda>r. r \<noteq> [] \<and> hd r \<noteq> []) rows)"

definition words_of :: "string list list \<Rightarrow> string list" where
  "words_of rows = filter (\<lambda>n. n \<noteq> []) (map (\<lambda>r. normalize (hd r)) (filter (\<lambda>r. r \<noteq> []) rows))"

definition reload :: "(string \<Rightarrow> string list list result) \<Rightarrow> blacklist \<Rightarrow> blacklist" where
  "reload query s =
     (case bind_res (query ''SELECT address FROM address_blacklist'') (\<lambda>a.
           bind_res (query ''SELECT word FROM workers_blacklist'') (\<lambda>w.
           bind_res (query (''SELECT address FROM free_hashrate_grants '' @
             ''WHERE expires_at IS NULL OR expires_at > now()'')) (\<lambda>g.
           Inr (set (first_columns a), words_of w, set (first_columns g))))) of
        Inl e \<Rightarrow> s
      | Inr (addrs, words, grants) \<Rightarrow>
          s\<lparr>bl_addresses := addrs, bl_banned_words := words, bl_free_grants := grants\<rparr>)"

definition address_blocked :: "string \<Rightarrow> blacklist \<Rightarrow> bool" where
  "address_blocked addr s = (addr \<in> bl_addresses s)"

definition worker_blocked :: "string \<Rightarrow> blacklist \<Rightarrow> bool" where
  "worker_blocked worker s =
     (let n = normalize worker in if n = [] then False else list_ex (contains n) (bl_banned_words s))"

definition kFreeToken :: string where
  "kFreeToken = ''freehashrate''"

definition worker_is_free :: "string \<Rightarrow> bool" where
  "worker_is_free worker = contains (normalize worker) kFreeToken"

definition free_granted :: "string \<Rightarrow> blacklist \<Rightarrow> bool" where
  "free_granted addr s = (addr \<in> bl_free_grants s)"

section \<open>Facts\<close>

lemma contains_iff: "contains n w \<longleftrightarrow> (\<exists>us vs. n = us @ w @ vs)"
proof
  assume "contains n w"
  then obtain i where "take (length w) (drop i n) = w" by (auto simp: contains_def list_ex_iff)
  then have "n = take i n @ w @ drop (length w) (drop i n)" by (metis append_take_drop_id)
  then show "\<exists>us vs. n = us @ w @ vs" by blast
next
  assume "\<exists>us vs. n = us @ w @ vs"
  then obtain us vs where "n = us @ w @ vs" by blast
  then show "contains n w" by (auto simp: contains_def list_ex_iff intro!: bexI [of _ "length us"])
qed

lemma of_char_less_256: "(of_char c :: nat) < 256"
  by (rule nat_of_char_less_256)

lemma to_lower_alnum: "is_alnum c \<Longrightarrow> is_alnum (to_lower c) \<and> to_lower (to_lower c) = to_lower c"
  using of_char_less_256 [of c] by (auto simp: is_alnum_def to_lower_def Let_def)

lemma normalize_idem [simp]: "normalize (normalize s) = normalize s"
  by (induction s) (auto simp: normalize_def to_lower_alnum)

lemma normalize_append: "normalize (us @ vs) = normalize us @ normalize vs"
  by (simp add: normalize_def)

section \<open>Properties\<close>

text \<open>
  After a successful reload an address is blocked (granted) exactly when it is a non-empty first
  column of its table, and a worker name is blocked exactly when the letters and digits of some
  listed word, in lower case, are a non-empty part of the name's letters and digits; a reload whose
  database fails anywhere changes nothing. Case and punctuation of a name never matter.
\<close>

theorem blacklist_rules:
  shows "(\<forall>a w g. query ''SELECT address FROM address_blacklist'' = Inr a \<and>
        query ''SELECT word FROM workers_blacklist'' = Inr w \<and>
        query (''SELECT address FROM free_hashrate_grants '' @ ''WHERE expires_at IS NULL OR expires_at > now()'') = Inr g \<longrightarrow>
      (address_blocked x (reload query s) \<longleftrightarrow> x \<noteq> [] \<and> (\<exists>r \<in> set a. r \<noteq> [] \<and> hd r = x)) \<and>
      (free_granted x (reload query s) \<longleftrightarrow> x \<noteq> [] \<and> (\<exists>r \<in> set g. r \<noteq> [] \<and> hd r = x)) \<and>
      (worker_blocked n (reload query s) \<longleftrightarrow>
        (\<exists>r \<in> set w. r \<noteq> [] \<and> normalize (hd r) \<noteq> [] \<and>
          (\<exists>us vs. normalize n = us @ normalize (hd r) @ vs)))) \<and>
    ((\<exists>e. query ''SELECT address FROM address_blacklist'' = Inl e \<or>
        query ''SELECT word FROM workers_blacklist'' = Inl e \<or>
        query (''SELECT address FROM free_hashrate_grants '' @ ''WHERE expires_at IS NULL OR expires_at > now()'') = Inl e) \<longrightarrow>
      reload query s = s) \<and>
    (normalize n = normalize n' \<longrightarrow>
      worker_blocked n s = worker_blocked n' s \<and> worker_is_free n = worker_is_free n')"
proof (intro conjI allI impI)
  show "reload query s = s" if "\<exists>e. query ''SELECT address FROM address_blacklist'' = Inl e \<or>
        query ''SELECT word FROM workers_blacklist'' = Inl e \<or>
        query (''SELECT address FROM free_hashrate_grants '' @ ''WHERE expires_at IS NULL OR expires_at > now()'') = Inl e"
    using that unfolding reload_def
    by (cases "query ''SELECT address FROM address_blacklist''"; cases "query ''SELECT word FROM workers_blacklist''";
        cases "query (''SELECT address FROM free_hashrate_grants '' @ ''WHERE expires_at IS NULL OR expires_at > now()'')")
      (simp_all only: bind_res_simps sum.case, auto)
  fix a w g
  assume q: "query ''SELECT address FROM address_blacklist'' = Inr a \<and>
        query ''SELECT word FROM workers_blacklist'' = Inr w \<and>
        query (''SELECT address FROM free_hashrate_grants '' @ ''WHERE expires_at IS NULL OR expires_at > now()'') = Inr g"
  then have s': "reload query s = s\<lparr>bl_addresses := set (first_columns a), bl_banned_words := words_of w,
      bl_free_grants := set (first_columns g)\<rparr>"
    unfolding reload_def by (simp only: bind_res_simps sum.case prod.case)
  show "address_blocked x (reload query s) \<longleftrightarrow> x \<noteq> [] \<and> (\<exists>r \<in> set a. r \<noteq> [] \<and> hd r = x)"
    "free_granted x (reload query s) \<longleftrightarrow> x \<noteq> [] \<and> (\<exists>r \<in> set g. r \<noteq> [] \<and> hd r = x)"
    by (auto simp: s' address_blocked_def free_granted_def first_columns_def)
  show "worker_blocked n (reload query s) \<longleftrightarrow>
      (\<exists>r \<in> set w. r \<noteq> [] \<and> normalize (hd r) \<noteq> [] \<and> (\<exists>us vs. normalize n = us @ normalize (hd r) @ vs))"
  proof -
    have "list_ex (contains (normalize n)) (words_of w) \<longleftrightarrow>
        (\<exists>r \<in> set w. r \<noteq> [] \<and> normalize (hd r) \<noteq> [] \<and> contains (normalize n) (normalize (hd r)))"
      by (auto simp: words_of_def list_ex_iff)
    moreover have "\<not> contains [] m" if "m \<noteq> []" for m using that by (simp add: contains_def)
    ultimately show ?thesis unfolding contains_iff [symmetric] by (auto simp: s' worker_blocked_def Let_def)
  qed
qed (simp_all add: worker_blocked_def worker_is_free_def)

theorem blacklist_rules_witness:
  "worker_blocked ''rig.F-u_N'' (reload (\<lambda>q. Inr (if q = ''SELECT word FROM workers_blacklist'' then [[''fun'']] else [])) blacklist_new)"
proof -
  have "normalize ''rig.F-u_N'' = ''rig'' @ normalize ''fun''" "normalize ''fun'' = ''fun''" by code_simp+
  then have "\<exists>r \<in> set [[''fun'']]. r \<noteq> [] \<and> normalize (hd r) \<noteq> [] \<and> (\<exists>us vs. normalize ''rig.F-u_N'' = us @ normalize (hd r) @ vs)"
    by (simp only: list.sel, simp) (rule exI [of _ "''rig''"], simp)
  then show ?thesis
    by (subst blacklist_rules [THEN conjunct1, rule_format, THEN conjunct2, THEN conjunct2, of _ "[]" "[[''fun'']]" "[]"]) simp_all
qed

end
