(* ===== verification/VarDiff.thy ===== *)
theory VarDiff
  imports Stdlib
begin

text \<open>
  \<open>src/vardiff.cpp\<close> and \<open>vardiff.hpp\<close>: the difficulty controller of a session. Times are nanoseconds
  of the steady clock with 0 for unset. A \<open>double\<close> result is the exact rational rounded by the
  parameter \<open>F\<close>, and \<open>std::exp\<close> is the parameter \<open>ex\<close>. Where the code divides by a zero bias or a
  zero difficulty, its infinity or NaN and the 0 of the model both lie outside the hysteresis band.
  Shown here: the bounds of the difficulty, when it moves, and that it moves the right way.
\<close>

section \<open>Definitions\<close>

record vardiff_config =
  vc_target_share_rate_hz :: rat
  vc_min_difficulty :: rat
  vc_max_difficulty :: rat
  vc_tau_seconds :: rat

record vardiff =
  vd_cfg :: vardiff_config
  vd_current_diff :: rat
  vd_dsps1 :: rat
  vd_dsps5 :: rat
  vd_first_share_ts :: int
  vd_last_share_ts :: int
  vd_last_diff_change_ts :: int
  vd_ssdc :: u64

text \<open>The doubles nearest to 3.33, 0.15 and 0.40.\<close>

definition kOptimalMultiplier :: rat where "kOptimalMultiplier = 1874623344892969 / 2 ^ 49"
definition kDrrLow :: rat where "kDrrLow = 5404319552844595 / 2 ^ 55"
definition kDrrHigh :: rat where "kDrrHigh = 3602879701896397 / 2 ^ 53"

definition kSharesPerCheck :: u64 where "kSharesPerCheck = 72"
definition kCheckSeconds :: rat where "kCheckSeconds = 240"
definition kFastWindowSeconds :: rat where "kFastWindowSeconds = 60"
definition kSlowWindowSeconds :: rat where "kSlowWindowSeconds = 300"

definition decay_time :: "fpu \<Rightarrow> (rat \<Rightarrow> rat) \<Rightarrow> rat \<Rightarrow> rat \<Rightarrow> rat \<Rightarrow> rat \<Rightarrow> rat" where
  "decay_time F ex f fadd fsecs interval =
     (if fsecs \<le> 0 then f
      else let dexp = rnd_d F (fsecs / interval);
               dexp = (if dexp > 36 then 36 else dexp);
               fprop = rnd_d F (1 - rnd_d F (1 / ex dexp));
               ftotal = rnd_d F (1 + fprop);
               f = rnd_d F (f + rnd_d F (rnd_d F (fadd / fsecs) * fprop));
               f = rnd_d F (f / ftotal)
        in if f < 2 / 10 ^ 16 then 0 else f)"

definition time_bias :: "fpu \<Rightarrow> (rat \<Rightarrow> rat) \<Rightarrow> rat \<Rightarrow> rat \<Rightarrow> rat" where
  "time_bias F ex tdiff period =
     (let dexp = rnd_d F (tdiff / period);
          dexp = (if dexp > 36 then 36 else dexp)
      in rnd_d F (1 - rnd_d F (1 / ex dexp)))"

definition secs_since :: "fpu \<Rightarrow> int \<Rightarrow> int \<Rightarrow> rat" where
  "secs_since F a b = (let s = rnd_d F (of_int (a - b) / 1000000000) in if s < 1 / 1000 then 1 / 1000 else s)"

text \<open>\<open>std::round\<close> rounds halves away from zero; \<open>std::clamp\<close> with its bounds in order.\<close>

definition round_half_away :: "rat \<Rightarrow> rat" where
  "round_half_away x = (if 0 \<le> x then of_int \<lfloor>x + 1 / 2\<rfloor> else - of_int \<lfloor>1 / 2 - x\<rfloor>)"

definition clamp :: "rat \<Rightarrow> rat \<Rightarrow> rat \<Rightarrow> rat" where
  "clamp v lo hi = (if v < lo then lo else if hi < v then hi else v)"

definition vardiff_new :: "vardiff_config \<Rightarrow> rat \<Rightarrow> vardiff" where
  "vardiff_new cfg initial_difficulty =
     \<lparr>vd_cfg = cfg,
      vd_current_diff = clamp (round_half_away initial_difficulty) (vc_min_difficulty cfg) (vc_max_difficulty cfg),
      vd_dsps1 = 0, vd_dsps5 = 0, vd_first_share_ts = 0, vd_last_share_ts = 0, vd_last_diff_change_ts = 0,
      vd_ssdc = 0\<rparr>"

definition set_current :: "rat \<Rightarrow> vardiff \<Rightarrow> vardiff" where
  "set_current diff v = v\<lparr>vd_current_diff := diff, vd_ssdc := 0, vd_first_share_ts := 0,
     vd_last_share_ts := 0, vd_last_diff_change_ts := 0\<rparr>"

text \<open>The rate update that every share after the first makes.\<close>

definition decay_share :: "fpu \<Rightarrow> (rat \<Rightarrow> rat) \<Rightarrow> int \<Rightarrow> rat \<Rightarrow> vardiff \<Rightarrow> vardiff" where
  "decay_share F ex now observed v =
     (let dt = secs_since F now (vd_last_share_ts v)
      in v\<lparr>vd_last_share_ts := now,
           vd_dsps1 := decay_time F ex (vd_dsps1 v) observed dt kFastWindowSeconds,
           vd_dsps5 := decay_time F ex (vd_dsps5 v) observed dt kSlowWindowSeconds,
           vd_ssdc := vd_ssdc v + 1\<rparr>)"

definition share_rate :: "fpu \<Rightarrow> (rat \<Rightarrow> rat) \<Rightarrow> int \<Rightarrow> vardiff \<Rightarrow> rat" where
  "share_rate F ex now v =
     (let bdiff = secs_since F now (vd_first_share_ts v)
      in if vd_ssdc v \<ge> kSharesPerCheck
         then rnd_d F (vd_dsps1 v / time_bias F ex bdiff kFastWindowSeconds)
         else rnd_d F (vd_dsps5 v / time_bias F ex bdiff kSlowWindowSeconds))"

definition optimal_diff :: "fpu \<Rightarrow> vardiff_config \<Rightarrow> rat \<Rightarrow> rat \<Rightarrow> rat" where
  "optimal_diff F cfg dsps network_diff =
     (let optimal = round_half_away (rnd_d F (dsps * kOptimalMultiplier));
          optimal = max optimal (vc_min_difficulty cfg);
          optimal = (if vc_max_difficulty cfg > 0 then min optimal (vc_max_difficulty cfg) else optimal)
      in if network_diff > 0 then min optimal network_diff else optimal)"

definition on_share :: "fpu \<Rightarrow> (rat \<Rightarrow> rat) \<Rightarrow> int \<Rightarrow> rat \<Rightarrow> rat \<Rightarrow> vardiff \<Rightarrow> rat option \<times> vardiff" where
  "on_share F ex now observed network_diff v =
     (if vd_first_share_ts v = 0
      then (None, v\<lparr>vd_first_share_ts := now, vd_last_share_ts := now, vd_last_diff_change_ts := now, vd_ssdc := 1\<rparr>)
      else let v = decay_share F ex now observed v;
               tdiff = secs_since F now (vd_last_diff_change_ts v)
        in if vd_ssdc v < kSharesPerCheck \<and> tdiff < kCheckSeconds then (None, v)
        else if observed \<noteq> vd_current_diff v then (None, v\<lparr>vd_ssdc := 0\<rparr>)
        else let dsps = share_rate F ex now v;
                 drr = rnd_d F (dsps / vd_current_diff v)
          in if drr > kDrrLow \<and> drr < kDrrHigh then (None, v)
          else let optimal = optimal_diff F (vd_cfg v) dsps network_diff
            in if optimal < 1 then (None, v)
            else if optimal = vd_current_diff v then (None, v)
            else if optimal < vd_current_diff v \<and> vd_ssdc v = 1 then (None, v\<lparr>vd_last_diff_change_ts := now\<rparr>)
            else (Some optimal, v\<lparr>vd_ssdc := 0, vd_last_diff_change_ts := now, vd_current_diff := optimal\<rparr>))"

section \<open>Facts\<close>

lemma decay_share_fields [simp]:
  "vd_cfg (decay_share F ex now o' v) = vd_cfg v"
  "vd_current_diff (decay_share F ex now o' v) = vd_current_diff v"
  "vd_last_diff_change_ts (decay_share F ex now o' v) = vd_last_diff_change_ts v"
  "vd_first_share_ts (decay_share F ex now o' v) = vd_first_share_ts v"
  "vd_ssdc (decay_share F ex now o' v) = vd_ssdc v + 1"
  by (simp_all add: decay_share_def Let_def)

text \<open>The outcomes of a share: no change of the difficulty, or a retarget under all the guards.\<close>

lemma on_share_cases:
  obtains (kept) v' where "on_share F ex now o' nd v = (None, v')" "vd_cfg v' = vd_cfg v"
      "vd_current_diff v' = vd_current_diff v"
  | (moved) v' d dsps where "on_share F ex now o' nd v = (Some d, v')" "vd_cfg v' = vd_cfg v" "vd_current_diff v' = d"
      "vd_first_share_ts v \<noteq> 0" "o' = vd_current_diff v"
      "vd_ssdc v + 1 \<ge> kSharesPerCheck \<or> secs_since F now (vd_last_diff_change_ts v) \<ge> kCheckSeconds"
      "dsps = share_rate F ex now (decay_share F ex now o' v)"
      "\<not> (kDrrLow < rnd_d F (dsps / vd_current_diff v) \<and> rnd_d F (dsps / vd_current_diff v) < kDrrHigh)"
      "d = optimal_diff F (vd_cfg v) dsps nd" "1 \<le> d" "d \<noteq> vd_current_diff v"
      "\<not> (d < vd_current_diff v \<and> vd_ssdc v + 1 = 1)"
      "vd_ssdc v' = 0" "vd_last_diff_change_ts v' = now"
proof (cases "fst (on_share F ex now o' nd v)")
  case None
  show thesis
    by (rule kept [of "snd (on_share F ex now o' nd v)"])
      (use None in \<open>auto simp: prod_eq_iff on_share_def Let_def split: if_split_asm\<close>)
next
  case (Some d)
  show thesis
    by (rule moved [of d "snd (on_share F ex now o' nd v)", OF _ _ _ _ _ _ refl])
      (use Some in \<open>auto simp: prod_eq_iff on_share_def Let_def not_less split: if_split_asm\<close>)
qed

lemma round_half_away_bounds: "x - 1 / 2 \<le> round_half_away x" "round_half_away x \<le> x + 1 / 2"
  unfolding round_half_away_def by (auto; linarith)+

lemma optimal_diff_bounds:
  "0 < nd \<Longrightarrow> optimal_diff F cfg dsps nd \<le> nd"
  "0 < vc_max_difficulty cfg \<Longrightarrow> optimal_diff F cfg dsps nd \<le> vc_max_difficulty cfg"
  "0 < vc_max_difficulty cfg \<longrightarrow> vc_min_difficulty cfg \<le> vc_max_difficulty cfg \<Longrightarrow>
    0 < nd \<longrightarrow> vc_min_difficulty cfg \<le> nd \<Longrightarrow> vc_min_difficulty cfg \<le> optimal_diff F cfg dsps nd"
  by (auto simp: optimal_diff_def Let_def min_def max_def)

lemma optimal_diff_capped:
  fixes nd :: rat
  assumes "r = round_half_away (rnd_d F (dsps * kOptimalMultiplier))"
  shows "optimal_diff F cfg dsps nd < r \<Longrightarrow> optimal_diff F cfg dsps nd = vc_max_difficulty cfg \<or> optimal_diff F cfg dsps nd = nd"
    and "r < optimal_diff F cfg dsps nd \<Longrightarrow> optimal_diff F cfg dsps nd \<le> vc_min_difficulty cfg"
  unfolding optimal_diff_def Let_def assms [symmetric] min_def max_def by (auto split: if_splits)

text \<open>The doubles of the band lie just outside the decimals they are written as.\<close>

lemma drr_band: "3 / 20 < x \<Longrightarrow> x < 2 / 5 \<Longrightarrow> kDrrLow < x \<and> x < kDrrHigh"
  by (simp add: kDrrLow_def kDrrHigh_def)

section \<open>Properties\<close>

text \<open>
  C39. A share moves the difficulty only under all the guards of the controller, for every rounding
  of the arithmetic: the session has been measured, the share has the current difficulty, 72 shares
  or 240 seconds have passed since the last change and the observed rate is outside the band. The new
  difficulty is then reported and stored, differs from the old one, is at least 1, at most the
  network's and the configured maximum, and at least the configured minimum unless a cap is below
  it; it is not lowered on the first share counted since the count was reset, which may be the
  first after an idle time. A change starts the count and the clock of the guards anew. In every
  other case the difficulty stays.
\<close>

theorem vardiff_retarget:
  assumes "on_share F ex now observed nd v = (r, v')"
  shows "case r of None \<Rightarrow> vd_current_diff v' = vd_current_diff v
    | Some d \<Rightarrow> vd_current_diff v' = d \<and> d \<noteq> vd_current_diff v \<and> 1 \<le> d \<and> observed = vd_current_diff v \<and>
        vd_first_share_ts v \<noteq> 0 \<and>
        (vd_ssdc v + 1 \<ge> 72 \<or> secs_since F now (vd_last_diff_change_ts v) \<ge> 240) \<and>
        \<not> (3 / 20 < rnd_d F (share_rate F ex now (decay_share F ex now observed v) / vd_current_diff v) \<and>
           rnd_d F (share_rate F ex now (decay_share F ex now observed v) / vd_current_diff v) < 2 / 5) \<and>
        (d < vd_current_diff v \<longrightarrow> vd_ssdc v + 1 \<noteq> 1) \<and>
        vd_ssdc v' = 0 \<and> vd_last_diff_change_ts v' = now \<and>
        (0 < nd \<longrightarrow> d \<le> nd) \<and> (0 < vc_max_difficulty (vd_cfg v) \<longrightarrow> d \<le> vc_max_difficulty (vd_cfg v)) \<and>
        ((0 < vc_max_difficulty (vd_cfg v) \<longrightarrow> vc_min_difficulty (vd_cfg v) \<le> vc_max_difficulty (vd_cfg v)) \<and>
         (0 < nd \<longrightarrow> vc_min_difficulty (vd_cfg v) \<le> nd) \<longrightarrow> vc_min_difficulty (vd_cfg v) \<le> d)"
proof (rule on_share_cases [of F ex now observed nd v])
  fix v''
  assume "on_share F ex now observed nd v = (None, v'')" "vd_current_diff v'' = vd_current_diff v"
  then show ?thesis using assms by simp
next
  fix v'' d dsps
  assume a: "on_share F ex now observed nd v = (Some d, v'')" "vd_current_diff v'' = d"
      "vd_first_share_ts v \<noteq> 0" "observed = vd_current_diff v"
      "vd_ssdc v + 1 \<ge> kSharesPerCheck \<or> secs_since F now (vd_last_diff_change_ts v) \<ge> kCheckSeconds"
      "dsps = share_rate F ex now (decay_share F ex now observed v)"
      "\<not> (kDrrLow < rnd_d F (dsps / vd_current_diff v) \<and> rnd_d F (dsps / vd_current_diff v) < kDrrHigh)"
      "1 \<le> d" "d \<noteq> vd_current_diff v" "\<not> (d < vd_current_diff v \<and> vd_ssdc v + 1 = 1)"
      "vd_ssdc v'' = 0" "vd_last_diff_change_ts v'' = now" and d: "d = optimal_diff F (vd_cfg v) dsps nd"
  have "r = Some d" "v' = v''" using assms a(1) by simp_all
  moreover have "\<not> (3 / 20 < drr \<and> drr < 2 / 5)" if "\<not> (kDrrLow < drr \<and> drr < kDrrHigh)" for drr
    using that drr_band [of drr] by blast
  ultimately show ?thesis
    using a optimal_diff_bounds [where nd = nd and F = F and cfg = "vd_cfg v" and dsps = dsps]
    by (simp add: d kSharesPerCheck_def kCheckSeconds_def)
qed

text \<open>Exact arithmetic with an exponential that is 2 everywhere: enough to run the controller.\<close>

definition two_exp :: "rat \<Rightarrow> rat" where
  "two_exp x = 2"

definition busy_session :: vardiff where
  "busy_session = \<lparr>vd_cfg = \<lparr>vc_target_share_rate_hz = 1 / 5, vc_min_difficulty = 1, vc_max_difficulty = 1000,
       vc_tau_seconds = 30\<rparr>,
     vd_current_diff = 4, vd_dsps1 = 0, vd_dsps5 = 8, vd_first_share_ts = 1, vd_last_share_ts = 300000000001,
     vd_last_diff_change_ts = 1, vd_ssdc = 7\<rparr>"

lemma busy_share: "fst (on_share exact_fpu two_exp 301000000001 4 0 busy_session) = Some 44"
proof -
  have "\<lfloor>9478669840731341 / 211106232532992 :: rat\<rfloor> = 44" by (simp add: floor_eq_iff)
  then show ?thesis by (simp add: on_share_def decay_share_def busy_session_def exact_fpu_def secs_since_def decay_time_def share_rate_def
      time_bias_def optimal_diff_def two_exp_def kOptimalMultiplier_def kDrrLow_def kDrrHigh_def kSharesPerCheck_def
      kCheckSeconds_def kFastWindowSeconds_def kSlowWindowSeconds_def round_half_away_def Let_def)
qed

theorem vardiff_retarget_witness:
  "\<exists>v'. on_share exact_fpu two_exp 301000000001 4 0 busy_session = (Some 44, v') \<and> vd_current_diff v' = 44"
proof -
  obtain v' where v': "on_share exact_fpu two_exp 301000000001 4 0 busy_session = (Some 44, v')"
    using busy_share by (metis prod.collapse)
  moreover have "vd_current_diff v' = 44" using vardiff_retarget [OF v'] by (simp only: option.case)
  ultimately show ?thesis by blast
qed

text \<open>
  With exact arithmetic a retarget moves towards the observed rate: when the session finds at
  least 0.4 shares a second at a difficulty of 2 or more, the difficulty goes down only onto the
  configured maximum or the network's difficulty, and when it finds at most 0.15, it goes up only
  onto the configured minimum.
\<close>

theorem vardiff_direction:
  assumes "on_share exact_fpu ex now observed nd v = (Some d, v')" and "2 \<le> vd_current_diff v"
    and rate: "rate = share_rate exact_fpu ex now (decay_share exact_fpu ex now observed v) / vd_current_diff v"
  shows "(2 / 5 \<le> rate \<or> rate \<le> 3 / 20) \<and>
    (2 / 5 \<le> rate \<and> d < vd_current_diff v \<longrightarrow> d = vc_max_difficulty (vd_cfg v) \<or> d = nd) \<and>
    (rate \<le> 3 / 20 \<and> vd_current_diff v < d \<longrightarrow> d \<le> vc_min_difficulty (vd_cfg v))"
proof (rule on_share_cases [of exact_fpu ex now observed nd v])
  fix v'' e dsps
  let ?r = "round_half_away (rnd_d exact_fpu (dsps * kOptimalMultiplier))"
  assume a: "on_share exact_fpu ex now observed nd v = (Some e, v'')"
      "dsps = share_rate exact_fpu ex now (decay_share exact_fpu ex now observed v)"
      "\<not> (kDrrLow < rnd_d exact_fpu (dsps / vd_current_diff v) \<and> rnd_d exact_fpu (dsps / vd_current_diff v) < kDrrHigh)"
      "e = optimal_diff exact_fpu (vd_cfg v) dsps nd"
  have e: "e = d" using assms(1) a(1) by simp
  have dsps: "dsps = rate * vd_current_diff v" using assms(2) rate a(2) by simp
  have band: "2 / 5 \<le> rate \<or> rate \<le> 3 / 20"
    using a(3) rate a(2) by (auto simp: exact_fpu_def kDrrLow_def kDrrHigh_def)
  define R where "R = ?r"
  have r: "dsps * kOptimalMultiplier - 1 / 2 \<le> R" "R \<le> dsps * kOptimalMultiplier + 1 / 2"
    using round_half_away_bounds [of "dsps * kOptimalMultiplier"] by (simp_all add: exact_fpu_def R_def)
  have up: "vd_current_diff v \<le> R" if "2 / 5 \<le> rate"
  proof -
    have "2 / 5 * vd_current_diff v \<le> dsps" using that assms(2) by (simp add: dsps mult_right_mono)
    then show ?thesis using r assms(2) by (simp add: kOptimalMultiplier_def)
  qed
  have down: "R \<le> vd_current_diff v" if "rate \<le> 3 / 20"
  proof -
    have "dsps \<le> 3 / 20 * vd_current_diff v" unfolding dsps by (rule mult_right_mono) (use that assms(2) in auto)
    then show ?thesis using r assms(2) by (simp add: kOptimalMultiplier_def)
  qed
  show ?thesis
    using band up [unfolded R_def] down [unfolded R_def] optimal_diff_capped [OF refl, where F = exact_fpu and cfg = "vd_cfg v" and dsps = dsps and nd = nd] a(4) e by force
qed (use assms(1) in simp)

theorem vardiff_direction_witness:
  "let rate = share_rate exact_fpu two_exp 301000000001 (decay_share exact_fpu two_exp 301000000001 4 busy_session) / 4
   in 2 / 5 \<le> rate \<or> rate \<le> 3 / 20"
proof -
  obtain v' where "on_share exact_fpu two_exp 301000000001 4 0 busy_session = (Some 44, v')"
    using busy_share by (metis prod.collapse)
  note d = vardiff_direction [OF this _ refl, THEN conjunct1]
  have c: "vd_current_diff busy_session = 4" by (simp add: busy_session_def)
  show ?thesis using d unfolding c Let_def by simp
qed

text \<open>
  The difficulty of a session that starts at \<open>initial\<close> stays in the configured range over any
  sequence of shares, as long as no network difficulty is below the minimum.
\<close>

theorem vardiff_range:
  assumes "0 < vc_min_difficulty cfg" "vc_min_difficulty cfg \<le> vc_max_difficulty cfg"
    and "\<forall>(now, observed, nd) \<in> set shares. 0 < nd \<longrightarrow> vc_min_difficulty cfg \<le> nd"
  shows "vd_current_diff (fold (\<lambda>(now, observed, nd). snd \<circ> on_share F ex now observed nd) shares (vardiff_new cfg initial))
    \<in> {vc_min_difficulty cfg..vc_max_difficulty cfg}"
proof -
  have "vd_cfg v = cfg \<Longrightarrow> vd_current_diff v \<in> {vc_min_difficulty cfg..vc_max_difficulty cfg} \<Longrightarrow>
      vd_current_diff (fold (\<lambda>(now, observed, nd). snd \<circ> on_share F ex now observed nd) shares v)
        \<in> {vc_min_difficulty cfg..vc_max_difficulty cfg}" for v
    using assms(3)
  proof (induction shares arbitrary: v)
    case (Cons sh shares)
    obtain now observed nd where sh: "sh = (now, observed, nd)" by (cases sh)
    have "vd_cfg (snd (on_share F ex now observed nd v)) = cfg \<and>
        vd_current_diff (snd (on_share F ex now observed nd v)) \<in> {vc_min_difficulty cfg..vc_max_difficulty cfg}"
      by (rule on_share_cases [of F ex now observed nd v])
        (use Cons.prems assms(1,2) optimal_diff_bounds [where nd = nd and F = F and cfg = cfg] in \<open>simp_all add: sh\<close>)
    then show ?case using Cons.IH Cons.prems(3) by (simp add: sh)
  qed simp
  moreover have "vd_current_diff (vardiff_new cfg initial) \<in> {vc_min_difficulty cfg..vc_max_difficulty cfg}"
    using assms(1,2) by (auto simp: vardiff_new_def clamp_def)
  ultimately show ?thesis by (simp add: vardiff_new_def)
qed

theorem vardiff_range_witness:
  "vd_current_diff (fold (\<lambda>(now, observed, nd). snd \<circ> on_share exact_fpu two_exp now observed nd)
     [(5, 4, 0), (6, 4, 7)] (vardiff_new (vd_cfg busy_session) 4)) \<in> {1..1000}"
  using vardiff_range [of "vd_cfg busy_session" "[(5, 4, 0), (6, 4, 7)]" exact_fpu two_exp 4]
  by (simp add: busy_session_def)

end
