(* ===== verification/Json.thy ===== *)
theory Json
  imports Stdlib
begin

text \<open>
  JSON values as the program sees them. The text parser and printer are nlohmann's, which is not
  under \<open>src/\<close>; they are arguments of the definitions that call them. A value is the datatype below,
  and the accessors follow the library's documentation: \<open>value(key, default)\<close> throws on a value that
  is not an object and on a member of the wrong type, an integer member is narrowed like a
  \<open>static_cast\<close>, and only the types the library treats as generic arithmetic accept a boolean.
\<close>

datatype json =
    JNull
  | JBool bool
  | JInt int
  | JFloat rat
  | JString string
  | JArray "json list"
  | JObject "(string \<times> json) list"

definition is_object :: "json \<Rightarrow> bool" where
  "is_object j = (case j of JObject _ \<Rightarrow> True | _ \<Rightarrow> False)"

definition is_array :: "json \<Rightarrow> bool" where
  "is_array j = (case j of JArray _ \<Rightarrow> True | _ \<Rightarrow> False)"

definition is_string :: "json \<Rightarrow> bool" where
  "is_string j = (case j of JString _ \<Rightarrow> True | _ \<Rightarrow> False)"

definition is_number :: "json \<Rightarrow> bool" where
  "is_number j = (case j of JInt _ \<Rightarrow> True | JFloat _ \<Rightarrow> True | _ \<Rightarrow> False)"

definition member :: "json \<Rightarrow> string \<Rightarrow> json option" where
  "member j k = (case j of JObject kvs \<Rightarrow> map_of kvs k | _ \<Rightarrow> None)"

definition contains_key :: "json \<Rightarrow> string \<Rightarrow> bool" where
  "contains_key j k = (member j k \<noteq> None)"

text \<open>A member that is an object, an array or a string, if there is one.\<close>

definition object_member :: "json \<Rightarrow> string \<Rightarrow> json option" where
  "object_member j k = (case member j k of Some v \<Rightarrow> if is_object v then Some v else None | None \<Rightarrow> None)"

definition array_member :: "json \<Rightarrow> string \<Rightarrow> json list option" where
  "array_member j k = (case member j k of Some (JArray vs) \<Rightarrow> Some vs | _ \<Rightarrow> None)"

definition string_member :: "json \<Rightarrow> string \<Rightarrow> string option" where
  "string_member j k = (case member j k of Some (JString s) \<Rightarrow> Some s | _ \<Rightarrow> None)"

section \<open>Conversions\<close>

definition truncate_rat :: "rat \<Rightarrow> int" where
  "truncate_rat x = (if 0 \<le> x then \<lfloor>x\<rfloor> else - \<lfloor>- x\<rfloor>)"

definition get_string :: "json \<Rightarrow> string result" where
  "get_string j = (case j of JString s \<Rightarrow> Inr s | _ \<Rightarrow> Inl TypeError)"

definition get_bool :: "json \<Rightarrow> bool result" where
  "get_bool j = (case j of JBool b \<Rightarrow> Inr b | _ \<Rightarrow> Inl TypeError)"

definition get_int64 :: "json \<Rightarrow> i64 result" where
  "get_int64 j = (case j of JInt i \<Rightarrow> Inr (of_int i) | JFloat x \<Rightarrow> Inr (of_int (truncate_rat x)) | _ \<Rightarrow> Inl TypeError)"

definition get_uint64 :: "json \<Rightarrow> u64 result" where
  "get_uint64 j = get_int64 j"

text \<open>The narrower integer types, which also accept a boolean.\<close>

definition get_word :: "json \<Rightarrow> 'a::len word result" where
  "get_word j =
     (case j of JInt i \<Rightarrow> Inr (of_int i) | JFloat x \<Rightarrow> Inr (of_int (truncate_rat x))
      | JBool b \<Rightarrow> Inr (if b then 1 else 0) | _ \<Rightarrow> Inl TypeError)"

definition get_double :: "fpu \<Rightarrow> json \<Rightarrow> rat result" where
  "get_double F j = (case j of JInt i \<Rightarrow> Inr (rnd_d F (of_int i)) | JFloat x \<Rightarrow> Inr x | _ \<Rightarrow> Inl TypeError)"

definition value_of :: "(json \<Rightarrow> 'a result) \<Rightarrow> json \<Rightarrow> string \<Rightarrow> 'a \<Rightarrow> 'a result" where
  "value_of get j k d =
     (case j of JObject kvs \<Rightarrow> (case map_of kvs k of None \<Rightarrow> Inr d | Some v \<Rightarrow> get v) | _ \<Rightarrow> Inl TypeError)"

text \<open>Reading a member into a field whose current value is the default, and a list of such reads.\<close>

definition rd :: "json \<Rightarrow> (json \<Rightarrow> 'b result) \<Rightarrow> string \<Rightarrow> ('c \<Rightarrow> 'b) \<Rightarrow> (('b \<Rightarrow> 'b) \<Rightarrow> 'c \<Rightarrow> 'c) \<Rightarrow> 'c \<Rightarrow> 'c result" where
  "rd j get key sel upd c = bind_res (value_of get j key (sel c)) (\<lambda>v. Inr (upd (\<lambda>_. v) c))"

definition rd2 ::
  "json \<Rightarrow> (json \<Rightarrow> 'b result) \<Rightarrow> string \<Rightarrow> string \<Rightarrow> ('c \<Rightarrow> 'b) \<Rightarrow> (('b \<Rightarrow> 'b) \<Rightarrow> 'c \<Rightarrow> 'c) \<Rightarrow> 'c \<Rightarrow> 'c result" where
  "rd2 j get key key' sel upd c =
     bind_res (value_of get j key' (sel c)) (\<lambda>d. bind_res (value_of get j key d) (\<lambda>v. Inr (upd (\<lambda>_. v) c)))"

definition run_all :: "('c \<Rightarrow> 'c result) list \<Rightarrow> 'c \<Rightarrow> 'c result" where
  "run_all fs c = fold (\<lambda>f r. bind_res r f) fs (Inr c)"

lemma fold_bind_Inl: "fold (\<lambda>f r. bind_res r f) fs (Inl e) = Inl e"
  by (induction fs) simp_all

lemma run_all_simps [simp]:
  "run_all [] c = Inr c"
  "run_all (f # fs) c = bind_res (f c) (run_all fs)"
  by (cases "f c"; simp add: run_all_def fold_bind_Inl)+

lemma run_all_append: "run_all (fs @ gs) c = bind_res (run_all fs c) (run_all gs)"
  by (cases "fold (\<lambda>f r. bind_res r f) fs (Inr c)") (simp_all add: run_all_def fold_bind_Inl)

lemma value_of_empty [simp]: "value_of get (JObject []) k d = Inr d"
  by (simp add: value_of_def)

lemma member_empty [simp]:
  "member (JObject []) k = None" "contains_key (JObject []) k = False" "object_member (JObject []) k = None"
  "array_member (JObject []) k = None" "string_member (JObject []) k = None"
  by (simp_all add: member_def contains_key_def object_member_def array_member_def string_member_def)

section \<open>What a successful read gives\<close>

definition yields :: "('a \<Rightarrow> bool) \<Rightarrow> 'e + 'a \<Rightarrow> bool" where
  "yields P r = (case r of Inl _ \<Rightarrow> True | Inr x \<Rightarrow> P x)"

lemma yields_simps [simp]: "yields P (Inl e)" "yields P (Inr x) = P x"
  by (simp_all add: yields_def)

lemma yieldsD: "yields P r \<Longrightarrow> r = Inr x \<Longrightarrow> P x"
  by simp

lemma yields_bind: "yields Q r \<Longrightarrow> (\<And>x. Q x \<Longrightarrow> yields P (f x)) \<Longrightarrow> yields P (bind_res r f)"
  by (cases r) simp_all

lemma yields_bind_any: "(\<And>x. r = Inr x \<Longrightarrow> yields P (f x)) \<Longrightarrow> yields P (bind_res r f)"
  by (cases r) simp_all

lemma yields_rd: "(\<And>v. P (upd (\<lambda>_. v) c)) \<Longrightarrow> yields P (rd j get key sel upd c)"
  by (simp add: rd_def yields_bind_any)

lemma yields_rd2: "(\<And>v. P (upd (\<lambda>_. v) c)) \<Longrightarrow> yields P (rd2 j get key key' sel upd c)"
  by (simp add: rd2_def yields_bind_any)

text \<open>A list of reads that each keep a property.\<close>

definition keeping :: "('c \<Rightarrow> bool) \<Rightarrow> ('c \<Rightarrow> 'c result) list \<Rightarrow> bool" where
  "keeping P fs = (\<forall>f \<in> set fs. \<forall>c. P c \<longrightarrow> yields P (f c))"

lemma keeping_simps [simp]:
  "keeping P []" "keeping P (f # fs) \<longleftrightarrow> (\<forall>c. P c \<longrightarrow> yields P (f c)) \<and> keeping P fs"
  by (auto simp: keeping_def)

lemma yields_run_all: "keeping P fs \<Longrightarrow> P c \<Longrightarrow> yields P (run_all fs c)"
proof (induction fs arbitrary: c)
  case (Cons f fs)
  then show ?case by (cases "f c") auto
qed simp

lemmas yields_reads = yields_rd yields_rd2 yields_run_all

section \<open>Text of fixed messages\<close>

definition quote :: "string \<Rightarrow> string" where
  "quote s = CHR 0x22 # s @ [CHR 0x22]"

text \<open>A list of texts with commas between them.\<close>

fun commas :: "string list \<Rightarrow> string" where
  "commas [] = []"
| "commas [s] = s"
| "commas (s # ss) = s @ '','' @ commas ss"

definition json_list :: "string list \<Rightarrow> string" where
  "json_list ss = ''['' @ commas (map quote ss) @ '']''"

definition json_bool :: "bool \<Rightarrow> string" where
  "json_bool b = (if b then ''true'' else ''false'')"

definition newline :: string where
  "newline = [CHR 0x0A]"

end
