(* ===== verification/PoolTypes.thy ===== *)
theory PoolTypes
  imports Json "HOL-Library.AList"
begin

text \<open>
  The data the parts of the pool share: the configuration records of \<open>src/config.hpp\<close> with their
  defaults, and the block template and mining job of \<open>src/stratifier.hpp\<close>. Every field of the code is
  a field here; \<open>double\<close> fields are rationals and signed 64-bit amounts are integers, since the code
  computes with them in signed arithmetic, whose overflow is undefined.
\<close>

section \<open>Chains and roles\<close>

datatype chain_kind =
    Bitcoin | BitcoinCash | BitcoinII | DigiByte | ECash | Zcash | Litecoin | Dogecoin | BitcoinCashII

datatype pool_role = Pool | Proxy | Passthrough | Node | Redirector

definition parse_role :: "string \<Rightarrow> pool_role" where
  "parse_role s =
     (if s = ''proxy'' then Proxy
      else if s = ''passthrough'' then Passthrough
      else if s = ''node'' then Node
      else if s = ''redirector'' then Redirector
      else Pool)"

definition role_to_string :: "pool_role \<Rightarrow> string" where
  "role_to_string r =
     (case r of Proxy \<Rightarrow> ''proxy'' | Passthrough \<Rightarrow> ''passthrough'' | Node \<Rightarrow> ''node''
      | Redirector \<Rightarrow> ''redirector'' | Pool \<Rightarrow> ''pool'')"

section \<open>Records\<close>

record zmq_topics =
  zq_hashblock :: "string list"
  zq_rawblock :: "string list"
  zq_rawtx :: "string list"

record aux_config =
  ax_enabled :: bool
  ax_rpcHost :: string
  ax_rpcPort :: string
  ax_rpcUser :: string
  ax_rpcPassword :: string
  ax_payoutAddress :: string
  ax_donationPercent :: rat
  ax_donationAddress :: string

definition default_aux :: aux_config where
  "default_aux = \<lparr>ax_enabled = False, ax_rpcHost = ''127.0.0.1'', ax_rpcPort = [], ax_rpcUser = [],
     ax_rpcPassword = [], ax_payoutAddress = [], ax_donationPercent = 0, ax_donationAddress = []\<rparr>"

record upstream_endpoint =
  ue_host :: string
  ue_port :: u16
  ue_tls :: bool
  ue_verifyPeer :: bool
  ue_user :: string
  ue_pass :: string
  ue_priority :: "32 word"
  ue_weight :: u32

definition default_endpoint :: upstream_endpoint where
  "default_endpoint = \<lparr>ue_host = [], ue_port = 0, ue_tls = False, ue_verifyPeer = False, ue_user = [],
     ue_pass = ''x'', ue_priority = 0, ue_weight = 1\<rparr>"

record upstream_config =
  up_endpoints :: "upstream_endpoint list"
  up_mode :: string
  up_sv2 :: bool
  up_nonceBytes :: u8
  up_idleTimeoutSeconds :: u16
  up_reconnectMinSeconds :: u16
  up_reconnectMaxSeconds :: u16

definition default_upstream :: upstream_config where
  "default_upstream = \<lparr>up_endpoints = [], up_mode = ''failover'', up_sv2 = False, up_nonceBytes = 2,
     up_idleTimeoutSeconds = 90, up_reconnectMinSeconds = 2, up_reconnectMaxSeconds = 30\<rparr>"

definition upstream_enabled :: "upstream_config \<Rightarrow> bool" where
  "upstream_enabled u = (up_endpoints u \<noteq> [])"

record redirect_target =
  tg_host :: string
  tg_port :: u16
  tg_weight :: u32

record redirect_config =
  rc_targets :: "redirect_target list"
  rc_strategy :: string
  rc_wait :: u16
  rc_healthCheck :: bool
  rc_healthCheckIntervalSeconds :: u16
  rc_healthCheckTimeoutMs :: u16

definition default_redirect :: redirect_config where
  "default_redirect = \<lparr>rc_targets = [], rc_strategy = ''round-robin'', rc_wait = 0, rc_healthCheck = False,
     rc_healthCheckIntervalSeconds = 10, rc_healthCheckTimeoutMs = 1000\<rparr>"

definition redirect_enabled :: "redirect_config \<Rightarrow> bool" where
  "redirect_enabled r = (rc_targets r \<noteq> [])"

record cluster_config =
  cl_ingestAddress :: string
  cl_ingestPort :: u16
  cl_ingestTls :: bool
  cl_forwardHost :: string
  cl_forwardPort :: u16
  cl_rawblockZmq :: string
  cl_originHost :: string
  cl_originPort :: u16
  cl_originTls :: bool
  cl_originVerifyPeer :: bool
  cl_trunks :: u16
  cl_token :: string
  cl_idleTimeoutSeconds :: u16

definition default_cluster :: cluster_config where
  "default_cluster = \<lparr>cl_ingestAddress = ''0.0.0.0'', cl_ingestPort = 0, cl_ingestTls = False,
     cl_forwardHost = ''127.0.0.1'', cl_forwardPort = 0, cl_rawblockZmq = [], cl_originHost = [],
     cl_originPort = 0, cl_originTls = False, cl_originVerifyPeer = False, cl_trunks = 1, cl_token = [],
     cl_idleTimeoutSeconds = 90\<rparr>"

definition ingest_on :: "cluster_config \<Rightarrow> bool" where
  "ingest_on c = (cl_ingestPort c \<noteq> 0)"

definition uplink_on :: "cluster_config \<Rightarrow> bool" where
  "uplink_on c = (cl_originHost c \<noteq> [] \<and> cl_originPort c \<noteq> 0)"

record rpc_node =
  rn_host :: string
  rn_port :: string
  rn_user :: string
  rn_pass :: string

record stratum_tier =
  st_port :: u16
  st_label :: string
  st_startingDifficulty :: rat
  st_vardiffEnabled :: bool
  st_vardiffMin :: rat
  st_vardiffMax :: rat
  st_allowNiceHash :: bool
  st_tls :: bool
  st_sv2 :: bool

definition default_tier :: stratum_tier where
  "default_tier = \<lparr>st_port = 0, st_label = [], st_startingDifficulty = 65536, st_vardiffEnabled = False,
     st_vardiffMin = 1024, st_vardiffMax = 10000000, st_allowNiceHash = False, st_tls = False, st_sv2 = False\<rparr>"

text \<open>The fields of the listener, in a record of their own that the coin record extends.\<close>

record stratum_config =
  stratumListenAddress :: string
  stratumListenPort :: u16
  stratumTlsPort :: u16
  stratumMaxConnectionsPerIP :: u16
  stratumV2Port :: u16
  stratumV2Difficulty :: rat
  stratumV2EmptyBlocks :: bool
  sv2NoiseRequired :: bool
  sv2AuthorityKey :: string
  stratumTiers :: "stratum_tier list"
  activeTier :: stratum_tier
  targetSharesPerMinute :: rat
  vardiffTauSeconds :: rat
  blockPollInterval :: u16
  coinbaseSignature :: string
  donationPercent :: rat
  donationAddress :: string
  enableVersionRolling :: bool
  versionRollingMask :: u32
  jobWindowSize :: u16

record coin_config = stratum_config +
  cc_name :: string
  cc_chain :: chain_kind
  cc_rpcHost :: string
  cc_rpcPort :: string
  cc_rpcUser :: string
  cc_rpcPassword :: string
  cc_rpcFallbacks :: "rpc_node list"
  cc_aux :: aux_config
  cc_useZMQ :: bool
  cc_zmqAddress :: string
  cc_zmq :: zmq_topics
  cc_ipcSocket :: string
  cc_ipcTemplate :: bool
  cc_ipcFeeThreshold :: i64
  cc_additionalSubmitEndpoints :: "string list"
  cc_upstream :: upstream_config
  cc_redirect :: redirect_config
  cc_cluster :: cluster_config

definition default_coin :: coin_config where
  "default_coin =
     \<lparr>stratumListenAddress = ''0.0.0.0'', stratumListenPort = 3333, stratumTlsPort = 0,
      stratumMaxConnectionsPerIP = 1000, stratumV2Port = 0, stratumV2Difficulty = 1024,
      stratumV2EmptyBlocks = False, sv2NoiseRequired = False, sv2AuthorityKey = [], stratumTiers = [],
      activeTier = default_tier, targetSharesPerMinute = 12, vardiffTauSeconds = 30, blockPollInterval = 10,
      coinbaseSignature = ''/mkpool.com/'', donationPercent = 1, donationAddress = [],
      enableVersionRolling = True, versionRollingMask = 0x1fffe000, jobWindowSize = 32,
      cc_name = ''BTC'', cc_chain = Bitcoin, cc_rpcHost = ''127.0.0.1'', cc_rpcPort = ''8332'', cc_rpcUser = [],
      cc_rpcPassword = [], cc_rpcFallbacks = [], cc_aux = default_aux, cc_useZMQ = True,
      cc_zmqAddress = ''tcp://127.0.0.1:28332'', cc_zmq = \<lparr>zq_hashblock = [], zq_rawblock = [], zq_rawtx = []\<rparr>,
      cc_ipcSocket = [], cc_ipcTemplate = False, cc_ipcFeeThreshold = 0, cc_additionalSubmitEndpoints = [],
      cc_upstream = default_upstream, cc_redirect = default_redirect, cc_cluster = default_cluster\<rparr>"

definition primary_zmq_hashblock :: "coin_config \<Rightarrow> string" where
  "primary_zmq_hashblock c =
     (case zq_hashblock (cc_zmq c) of [] \<Rightarrow> cc_zmqAddress c | s # _ \<Rightarrow> s)"

record tls_config =
  tl_certFile :: string
  tl_keyFile :: string
  tl_dhparamsFile :: string

record rate_limit_json =
  rj_maxConnectionsPerIP :: u32
  rj_acceptBurst :: u32
  rj_acceptRefillPerSec :: rat
  rj_invalidShareBanThreshold :: u32
  rj_invalidShareWindowSec :: u32
  rj_banDurationSec :: u32

record global_config =
  gl_role :: pool_role
  gl_metricsListenAddress :: string
  gl_metricsListenPort :: u16
  gl_logPath :: string
  gl_logLevel :: u16
  gl_databaseHost :: string
  gl_databasePort :: u16
  gl_databaseName :: string
  gl_databaseUser :: string
  gl_databasePassword :: string
  gl_ioThreads :: u16
  gl_sessionShards :: u16
  gl_debugMode :: bool
  gl_controlSocket :: string
  gl_idleDropSeconds :: u32
  gl_restartDrainSeconds :: u32
  gl_tls :: tls_config
  gl_rateLimit :: rate_limit_json

definition default_global :: global_config where
  "default_global =
     \<lparr>gl_role = Pool, gl_metricsListenAddress = ''0.0.0.0'', gl_metricsListenPort = 9090, gl_logPath = ''logs'',
      gl_logLevel = 2, gl_databaseHost = ''127.0.0.1'', gl_databasePort = 5432, gl_databaseName = ''mkpool'',
      gl_databaseUser = ''mkpool_user'', gl_databasePassword = [], gl_ioThreads = 0, gl_sessionShards = 64,
      gl_debugMode = False, gl_controlSocket = [], gl_idleDropSeconds = 0, gl_restartDrainSeconds = 0,
      gl_tls = \<lparr>tl_certFile = [], tl_keyFile = [], tl_dhparamsFile = []\<rparr>,
      gl_rateLimit = \<lparr>rj_maxConnectionsPerIP = 50000, rj_acceptBurst = 10000, rj_acceptRefillPerSec = 1000,
        rj_invalidShareBanThreshold = 10000, rj_invalidShareWindowSec = 300, rj_banDurationSec = 3600\<rparr>\<rparr>"

record pool_config =
  cf_activeCoin :: string
  cf_global :: global_config
  cf_coins :: "(string \<times> coin_config) list"

section \<open>Templates and jobs\<close>

record block_template_tx =
  tx_data :: string
  tx_txid_le :: string
  tx_fee :: int
  tx_sigops :: "32 word"
  tx_weight :: "32 word"

text \<open>The eCash and the merged-mining fields are the same in the template and in the job.\<close>

record chain_extras =
  miner_fund_address :: string
  miner_fund_value :: int
  staking_rewards_script :: string
  staking_rewards_value :: int
  rtt_present :: bool
  rtt_prevheadertime :: "u32 list"
  rtt_prevbits :: u32
  aux_enabled :: bool
  aux_version :: u32
  aux_prevhash :: string
  aux_bits :: string
  aux_curtime :: u32
  aux_height :: int
  aux_coinbasevalue :: int
  aux_target :: string
  mweb :: string
  ipc_handle :: u64

definition default_extras :: chain_extras where
  "default_extras = \<lparr>miner_fund_address = [], miner_fund_value = 0, staking_rewards_script = [],
     staking_rewards_value = 0, rtt_present = False, rtt_prevheadertime = replicate 5 0, rtt_prevbits = 0,
     aux_enabled = False, aux_version = 0, aux_prevhash = [], aux_bits = [], aux_curtime = 0, aux_height = 0,
     aux_coinbasevalue = 0, aux_target = [], mweb = [], ipc_handle = 0\<rparr>"

record block_template = chain_extras +
  bt_version :: "32 word"
  bt_previousblockhash :: string
  bt_coinbasevalue :: int
  bt_target :: string
  bt_mintime :: u32
  bt_curtime :: u32
  bt_bits :: string
  bt_height :: int
  bt_default_witness_commitment :: string
  bt_reserved :: string
  bt_zcash_merkle_root :: string
  bt_zcash_coinbase_data :: string
  bt_segwit_active :: bool
  bt_transactions :: "block_template_tx list"
  bt_ipc_branch :: "string list"

record mining_job = chain_extras +
  mj_job_id :: string
  mj_previousblockhash :: string
  mj_coinbase1 :: string
  mj_merkle_branch_le :: "string list"
  mj_version :: u32
  mj_bits :: string
  mj_curtime :: u32
  mj_mintime :: u32
  mj_clean_jobs :: bool
  mj_coinbase_value :: int
  mj_total_fees :: int
  mj_height :: int
  mj_witness_commitment :: string
  mj_reserved :: string
  mj_zcash_merkle_root_le :: string
  mj_zcash_full_coinbase_hex :: string
  mj_segwit_active :: bool
  mj_extranonce1_bytes :: nat
  mj_extranonce2_bytes :: nat
  mj_donation_percent :: rat
  mj_donation_address :: string
  mj_tx_hexes :: "string list"
  mj_notify_prefix :: string
  mj_notify_suffix :: string

end
