(* ===== verification/Config.thy ===== *)
theory Config
  imports PoolTypes Address
begin

text \<open>
  \<open>src/config.hpp\<close>: reading the configuration from JSON. Reading the file is not modelled. Shown
  here: what every accepted configuration satisfies (an active coin that exists, usable tiers,
  endpoints and backends, slot widths in range) and that an empty document gives the defaults.
\<close>

section \<open>Text helpers\<close>

definition is_digit :: "char \<Rightarrow> bool" where
  "is_digit c = (let n = of_char c :: nat in 48 \<le> n \<and> n \<le> 57)"

definition dec_number :: "string \<Rightarrow> nat" where
  "dec_number ds = foldl (\<lambda>a d. 10 * a + (of_char d - 48)) 0 ds"

text \<open>\<open>std::stoi\<close>: white space, a sign, digits, and anything behind them.\<close>

definition stoi :: "string \<Rightarrow> int result" where
  "stoi s =
     (let (neg, s) = skip_sign (dropWhile is_space s);
          ds = takeWhile is_digit s;
          v = (if neg then - int (dec_number ds) else int (dec_number ds))
      in if ds = [] then Inl (InvalidArgument ''stoi'')
         else if v < - (2 ^ 31) \<or> 2 ^ 31 \<le> v then Inl (OutOfRange ''stoi'') else Inr v)"

text \<open>
  The \<open>host:port\<close> shorthand: split at the last colon unless nothing follows it; the port stays
  \<open>port\<close> when the text behind the colon is not a number.
\<close>

definition split_host_port :: "string \<Rightarrow> u16 \<Rightarrow> string \<times> u16" where
  "split_host_port host port =
     (case rfind (CHR '':'') host of
        Some colon \<Rightarrow>
          if colon + 1 < length host
          then (take colon host, case stoi (drop (colon + 1) host) of Inr v \<Rightarrow> of_int v | Inl _ \<Rightarrow> port)
          else (host, port)
      | None \<Rightarrow> (host, port))"

definition asU16 :: "json \<Rightarrow> string \<Rightarrow> u16 \<Rightarrow> u16" where
  "asU16 obj key dflt =
     (case member obj key of
        Some (JInt i) \<Rightarrow> of_int i
      | Some (JString s) \<Rightarrow> (case stoi s of Inr v \<Rightarrow> of_int v | Inl _ \<Rightarrow> dflt)
      | _ \<Rightarrow> dflt)"

text \<open>\<open>std::to_string\<close> of a \<open>long long\<close>.\<close>

fun dec_digits :: "nat \<Rightarrow> string" where
  "dec_digits n = (if n < 10 then [char_of (48 + n)] else dec_digits (n div 10) @ [char_of (48 + n mod 10)])"

declare dec_digits.simps [simp del]

definition to_string :: "int \<Rightarrow> string" where
  "to_string i = (if i < 0 then CHR ''-'' # dec_digits (nat (- i)) else dec_digits (nat i))"

section \<open>One coin\<close>

definition asPort :: "json \<Rightarrow> string \<Rightarrow> string result" where
  "asPort n key =
     (case member n key of None \<Rightarrow> Inr []
      | Some (JString s) \<Rightarrow> Inr s
      | Some v \<Rightarrow> bind_res (get_int64 v) (\<lambda>p. Inr (to_string (sint p))))"

definition parse_fallback :: "coin_config \<Rightarrow> json \<Rightarrow> rpc_node option result" where
  "parse_fallback cc n =
     (if \<not> is_object n then Inr None
      else bind_res (value_of get_string n ''host'' []) (\<lambda>h.
           bind_res (value_of get_string n ''rpcHost'' h) (\<lambda>host.
           bind_res (asPort n ''rpcPort'') (\<lambda>p.
           bind_res (if p = [] then asPort n ''port'' else Inr p) (\<lambda>port.
           bind_res (value_of get_string n ''user'' (cc_rpcUser cc)) (\<lambda>u.
           bind_res (value_of get_string n ''rpcUser'' u) (\<lambda>user.
           bind_res (value_of get_string n ''pass'' (cc_rpcPassword cc)) (\<lambda>w.
           bind_res (value_of get_string n ''rpcPassword'' w) (\<lambda>pass.
             Inr (if host \<noteq> [] \<and> port \<noteq> []
                  then Some \<lparr>rn_host = host, rn_port = port, rn_user = user, rn_pass = pass\<rparr> else None))))))))))"

definition keep_some :: "'a option list \<Rightarrow> 'a list" where
  "keep_some xs = List.map_filter (\<lambda>x. x) xs"

definition parse_aux :: "fpu \<Rightarrow> json \<Rightarrow> aux_config \<Rightarrow> aux_config result" where
  "parse_aux F a c =
     bind_res (value_of get_bool a ''enabled'' True) (\<lambda>en.
       run_all
         [rd a get_string ''rpcHost'' ax_rpcHost ax_rpcHost_update,
          rd a get_string ''rpcPort'' ax_rpcPort ax_rpcPort_update,
          rd a get_string ''rpcUser'' ax_rpcUser ax_rpcUser_update,
          rd a get_string ''rpcPassword'' ax_rpcPassword ax_rpcPassword_update,
          rd a get_string ''payoutAddress'' ax_payoutAddress ax_payoutAddress_update,
          rd a (get_double F) ''donationPercent'' ax_donationPercent ax_donationPercent_update,
          rd a get_string ''donationAddress'' ax_donationAddress ax_donationAddress_update]
         (c\<lparr>ax_enabled := en\<rparr>))"

definition parseList :: "json \<Rightarrow> string list" where
  "parseList n =
     (case n of JString s \<Rightarrow> [s]
      | JArray vs \<Rightarrow> keep_some (map (\<lambda>v. case v of JString s \<Rightarrow> Some s | _ \<Rightarrow> None) vs)
      | _ \<Rightarrow> [])"

definition parse_zmq :: "json \<Rightarrow> zmq_topics \<Rightarrow> zmq_topics" where
  "parse_zmq z c =
     (let c = (case member z ''hashblock'' of Some v \<Rightarrow> c\<lparr>zq_hashblock := parseList v\<rparr> | None \<Rightarrow> c);
          c = (case member z ''rawblock'' of Some v \<Rightarrow> c\<lparr>zq_rawblock := parseList v\<rparr> | None \<Rightarrow> c)
      in case member z ''rawtx'' of Some v \<Rightarrow> c\<lparr>zq_rawtx := parseList v\<rparr> | None \<Rightarrow> c)"

text \<open>The mask: a string that \<open>stoul\<close> reads, narrowed to 32 bits; anything else leaves it.\<close>

definition parse_mask :: "json \<Rightarrow> string \<Rightarrow> 'a stratum_config_scheme \<Rightarrow> 'a stratum_config_scheme" where
  "parse_mask j key c =
     (case string_member j key of
        Some s \<Rightarrow> (case parse_hex_u32 s of Some m \<Rightarrow> c\<lparr>versionRollingMask := m\<rparr> | None \<Rightarrow> c)
      | None \<Rightarrow> c)"

definition parse_stratum_nested :: "fpu \<Rightarrow> json \<Rightarrow> coin_config \<Rightarrow> coin_config result" where
  "parse_stratum_nested F s c =
     bind_res (run_all
       [rd2 s get_string ''listenAddress'' ''stratumListenAddress'' stratumListenAddress stratumListenAddress_update,
        rd2 s get_word ''listenPort'' ''stratumListenPort'' stratumListenPort stratumListenPort_update,
        rd2 s get_word ''tlsPort'' ''stratumTlsPort'' stratumTlsPort stratumTlsPort_update,
        rd2 s get_word ''maxConnectionsPerIP'' ''stratumMaxConnectionsPerIP'' stratumMaxConnectionsPerIP
          stratumMaxConnectionsPerIP_update,
        rd s get_word ''blockPollInterval'' blockPollInterval blockPollInterval_update,
        rd s get_string ''coinbaseSignature'' coinbaseSignature coinbaseSignature_update,
        rd s get_word ''jobWindowSize'' jobWindowSize jobWindowSize_update,
        rd2 s get_word ''v2Port'' ''stratumV2Port'' stratumV2Port stratumV2Port_update,
        rd s (get_double F) ''v2Difficulty'' stratumV2Difficulty stratumV2Difficulty_update,
        rd s get_bool ''v2EmptyBlocks'' stratumV2EmptyBlocks stratumV2EmptyBlocks_update,
        rd s get_bool ''v2NoiseRequired'' sv2NoiseRequired sv2NoiseRequired_update,
        rd s get_string ''v2AuthorityKey'' sv2AuthorityKey sv2AuthorityKey_update] c) (\<lambda>c.
     case object_member s ''versionRolling'' of
       Some vr \<Rightarrow>
         bind_res (rd vr get_bool ''enable'' enableVersionRolling enableVersionRolling_update c) (\<lambda>c.
           Inr (parse_mask vr ''mask'' c))
     | None \<Rightarrow>
         bind_res (rd s get_bool ''enableVersionRolling'' enableVersionRolling enableVersionRolling_update c) (\<lambda>c.
           Inr (parse_mask s ''versionRollingMask'' c)))"

definition parse_stratum_flat :: "fpu \<Rightarrow> json \<Rightarrow> coin_config \<Rightarrow> coin_config result" where
  "parse_stratum_flat F j c =
     bind_res (run_all
       [rd j get_string ''stratumListenAddress'' stratumListenAddress stratumListenAddress_update,
        rd j get_word ''stratumListenPort'' stratumListenPort stratumListenPort_update,
        rd j get_word ''stratumTlsPort'' stratumTlsPort stratumTlsPort_update,
        rd j get_word ''stratumMaxConnectionsPerIP'' stratumMaxConnectionsPerIP stratumMaxConnectionsPerIP_update,
        rd j get_word ''blockPollInterval'' blockPollInterval blockPollInterval_update,
        rd j get_string ''coinbaseSignature'' coinbaseSignature coinbaseSignature_update,
        rd j get_word ''jobWindowSize'' jobWindowSize jobWindowSize_update,
        rd j get_word ''stratumV2Port'' stratumV2Port stratumV2Port_update,
        rd j (get_double F) ''stratumV2Difficulty'' stratumV2Difficulty stratumV2Difficulty_update,
        rd j get_bool ''stratumV2EmptyBlocks'' stratumV2EmptyBlocks stratumV2EmptyBlocks_update,
        rd j get_bool ''sv2NoiseRequired'' sv2NoiseRequired sv2NoiseRequired_update,
        rd j get_string ''sv2AuthorityKey'' sv2AuthorityKey sv2AuthorityKey_update,
        rd j get_bool ''enableVersionRolling'' enableVersionRolling enableVersionRolling_update] c)
     (\<lambda>c. Inr (parse_mask j ''versionRollingMask'' c))"

definition parse_stratum :: "fpu \<Rightarrow> json \<Rightarrow> coin_config \<Rightarrow> coin_config result" where
  "parse_stratum F j c =
     (case object_member j ''stratum'' of Some s \<Rightarrow> parse_stratum_nested F s c | None \<Rightarrow> parse_stratum_flat F j c)"

definition parse_vardiff :: "fpu \<Rightarrow> json \<Rightarrow> coin_config \<Rightarrow> coin_config result" where
  "parse_vardiff F j c =
     (case object_member j ''vardiff'' of
        Some vd \<Rightarrow> run_all
          [rd vd (get_double F) ''targetSharesPerMinute'' targetSharesPerMinute targetSharesPerMinute_update,
           rd2 vd (get_double F) ''tauSeconds'' ''vardiffTauSeconds'' vardiffTauSeconds vardiffTauSeconds_update] c
      | None \<Rightarrow> run_all
          [rd j (get_double F) ''targetSharesPerMinute'' targetSharesPerMinute targetSharesPerMinute_update,
           rd j (get_double F) ''vardiffTauSeconds'' vardiffTauSeconds vardiffTauSeconds_update] c)"

definition parse_donation :: "fpu \<Rightarrow> json \<Rightarrow> coin_config \<Rightarrow> coin_config result" where
  "parse_donation F j c =
     (case object_member j ''donation'' of
        Some d \<Rightarrow> run_all
          [rd d (get_double F) (if contains_key d ''percentage'' then ''percentage'' else ''percent'')
             donationPercent donationPercent_update,
           rd2 d get_string ''address'' ''donationAddress'' donationAddress donationAddress_update] c
      | None \<Rightarrow> run_all
          [rd j (get_double F) (if contains_key j ''donationPercentage'' then ''donationPercentage'' else ''donationPercent'')
             donationPercent donationPercent_update,
           rd j get_string ''donationAddress'' donationAddress donationAddress_update] c)"

definition parse_tier :: "fpu \<Rightarrow> json \<Rightarrow> stratum_tier option result" where
  "parse_tier F t =
     (if \<not> is_object t then Inr None
      else bind_res (run_all
        [rd t get_word ''port'' st_port st_port_update,
         rd t get_string ''label'' st_label st_label_update,
         rd t (get_double F) ''startingDifficulty'' st_startingDifficulty st_startingDifficulty_update,
         rd t get_bool ''vardiffEnabled'' st_vardiffEnabled st_vardiffEnabled_update,
         rd t (get_double F) ''vardiffMin'' st_vardiffMin st_vardiffMin_update,
         rd t (get_double F) ''vardiffMax'' st_vardiffMax st_vardiffMax_update,
         rd t get_bool ''allowNiceHash'' st_allowNiceHash st_allowNiceHash_update,
         rd t get_bool ''tls'' st_tls st_tls_update,
         rd t get_bool ''sv2'' st_sv2 st_sv2_update] default_tier) (\<lambda>st.
        Inr (if st_port st = 0 then None else Some st)))"

text \<open>The elements of an array member that parse to something.\<close>

definition parse_each :: "(json \<Rightarrow> 'a option result) \<Rightarrow> json \<Rightarrow> string \<Rightarrow> 'a list result" where
  "parse_each f j key =
     (case array_member j key of None \<Rightarrow> Inr []
      | Some vs \<Rightarrow> bind_res (map_res f vs) (\<lambda>xs. Inr (keep_some xs)))"

definition parse_endpoint :: "json \<Rightarrow> upstream_endpoint option result" where
  "parse_endpoint e =
     (if \<not> is_object e then Inr None
      else bind_res (value_of get_string e ''host'' []) (\<lambda>host.
        let port = asU16 e ''port'' 0;
            (host, port) = (if port = 0 then split_host_port host port else (host, port))
        in bind_res (run_all
          [rd e get_bool ''tls'' ue_tls ue_tls_update,
           rd e get_bool ''verifyPeer'' ue_verifyPeer ue_verifyPeer_update,
           rd e get_string ''user'' ue_user ue_user_update,
           rd e get_string ''pass'' ue_pass ue_pass_update,
           rd e get_word ''priority'' ue_priority ue_priority_update,
           rd e get_word ''weight'' ue_weight ue_weight_update]
           (default_endpoint\<lparr>ue_host := host, ue_port := port\<rparr>)) (\<lambda>ep.
        let ep = (if ue_weight ep = 0 then ep\<lparr>ue_weight := 1\<rparr> else ep)
        in Inr (if ue_host ep \<noteq> [] \<and> ue_port ep \<noteq> 0 then Some ep else None))))"

definition parse_upstream :: "json \<Rightarrow> upstream_config \<Rightarrow> upstream_config result" where
  "parse_upstream u c =
     bind_res (rd u get_string ''mode'' up_mode up_mode_update c) (\<lambda>c.
     bind_res (value_of get_bool u ''sv2'' False) (\<lambda>sv2.
       let nb = ucast (asU16 u ''nonceBytes'' 2) :: u8;
           nb = (if nb < 1 then 1 else nb);
           nb = (if nb > 4 then 4 else nb)
       in bind_res (parse_each parse_endpoint u ''endpoints'') (\<lambda>eps.
         Inr (c\<lparr>up_sv2 := sv2, up_nonceBytes := nb,
                up_idleTimeoutSeconds := asU16 u ''idleTimeoutSeconds'' 90,
                up_reconnectMinSeconds := asU16 u ''reconnectMinSeconds'' 2,
                up_reconnectMaxSeconds := asU16 u ''reconnectMaxSeconds'' 30,
                up_endpoints := up_endpoints c @ eps\<rparr>))))"

definition parse_target :: "json \<Rightarrow> redirect_target option result" where
  "parse_target t =
     (let keep = (\<lambda>tg. if tg_host tg \<noteq> [] \<and> tg_port tg \<noteq> 0 then Some tg else None)
      in case t of
           JString hp \<Rightarrow>
             (let (host, port) = split_host_port hp 0
              in Inr (keep \<lparr>tg_host = host, tg_port = port, tg_weight = 1\<rparr>))
         | JObject _ \<Rightarrow>
             bind_res (value_of get_string t ''host'' []) (\<lambda>host.
             bind_res (value_of get_word t ''weight'' 1) (\<lambda>w.
               Inr (keep \<lparr>tg_host = host, tg_port = asU16 t ''port'' 0, tg_weight = (if w = 0 then 1 else w)\<rparr>)))
         | _ \<Rightarrow> Inr (keep \<lparr>tg_host = [], tg_port = 0, tg_weight = 1\<rparr>))"

definition parse_redirect :: "json \<Rightarrow> redirect_config \<Rightarrow> redirect_config result" where
  "parse_redirect r c =
     bind_res (rd r get_string ''strategy'' rc_strategy rc_strategy_update c) (\<lambda>c.
     bind_res (rd r get_bool ''healthCheck'' rc_healthCheck rc_healthCheck_update (c\<lparr>rc_wait := asU16 r ''wait'' 0\<rparr>)) (\<lambda>c.
     bind_res (parse_each parse_target r ''targets'') (\<lambda>tgs.
       Inr (c\<lparr>rc_healthCheckIntervalSeconds := asU16 r ''healthCheckIntervalSeconds'' 10,
              rc_healthCheckTimeoutMs := asU16 r ''healthCheckTimeoutMs'' 1000,
              rc_targets := rc_targets c @ tgs\<rparr>))))"

definition parse_cluster :: "json \<Rightarrow> cluster_config \<Rightarrow> cluster_config result" where
  "parse_cluster cl c =
     bind_res (run_all
       [rd cl get_string ''ingestAddress'' cl_ingestAddress cl_ingestAddress_update,
        \<lambda>c. Inr (c\<lparr>cl_ingestPort := asU16 cl ''ingestPort'' 0\<rparr>),
        \<lambda>c. rd cl get_bool ''ingestTls'' cl_ingestTls cl_ingestTls_update (c\<lparr>cl_ingestTls := False\<rparr>),
        rd cl get_string ''forwardHost'' cl_forwardHost cl_forwardHost_update,
        \<lambda>c. Inr (c\<lparr>cl_forwardPort := asU16 cl ''forwardPort'' 0\<rparr>),
        \<lambda>c. rd cl get_string ''rawblockZmq'' cl_rawblockZmq cl_rawblockZmq_update (c\<lparr>cl_rawblockZmq := []\<rparr>),
        \<lambda>c. rd2 cl get_string ''originHost'' ''host'' cl_originHost cl_originHost_update (c\<lparr>cl_originHost := []\<rparr>),
        \<lambda>c. Inr (c\<lparr>cl_originPort := asU16 cl ''originPort'' (asU16 cl ''port'' 0)\<rparr>)] c) (\<lambda>c.
     let (host, port) = (if cl_originPort c = 0 then split_host_port (cl_originHost c) (cl_originPort c)
           else (cl_originHost c, cl_originPort c));
         c = c\<lparr>cl_originHost := host, cl_originPort := port\<rparr>
     in bind_res (run_all
       [\<lambda>c. rd cl get_bool ''originTls'' cl_originTls cl_originTls_update (c\<lparr>cl_originTls := False\<rparr>),
        \<lambda>c. rd cl get_bool ''originVerifyPeer'' cl_originVerifyPeer cl_originVerifyPeer_update
              (c\<lparr>cl_originVerifyPeer := False\<rparr>),
        \<lambda>c. rd cl get_string ''token'' cl_token cl_token_update (c\<lparr>cl_token := []\<rparr>)] c) (\<lambda>c.
     let trunks = asU16 cl ''trunks'' 1
     in Inr (c\<lparr>cl_trunks := (if trunks < 1 then 1 else trunks),
               cl_idleTimeoutSeconds := asU16 cl ''idleTimeoutSeconds'' 90\<rparr>)))"

definition parse_chain :: "string \<Rightarrow> chain_kind" where
  "parse_chain chain =
     (if chain \<in> {''bch'', ''bitcoincash'', ''BCH''} then BitcoinCash
      else if chain \<in> {''bc2'', ''btc2'', ''bitcoinii'', ''BC2'', ''BTC2''} then BitcoinII
      else if chain \<in> {''dgb'', ''digibyte'', ''DGB''} then DigiByte
      else if chain \<in> {''xec'', ''ecash'', ''XEC''} then ECash
      else if chain \<in> {''zec'', ''zcash'', ''ZEC''} then Zcash
      else if chain \<in> {''ltc'', ''litecoin'', ''LTC''} then Litecoin
      else if chain \<in> {''doge'', ''dogecoin'', ''DOGE''} then Dogecoin
      else if chain \<in> {''bch2'', ''bitcoincashii'', ''BCH2''} then BitcoinCashII
      else Bitcoin)"

text \<open>An optional object member, parsed into a field.\<close>

definition sub_object ::
  "json \<Rightarrow> string \<Rightarrow> (json \<Rightarrow> 'b \<Rightarrow> 'b result) \<Rightarrow> ('c \<Rightarrow> 'b) \<Rightarrow> (('b \<Rightarrow> 'b) \<Rightarrow> 'c \<Rightarrow> 'c) \<Rightarrow> 'c \<Rightarrow> 'c result" where
  "sub_object j key parse sel upd c =
     (case object_member j key of None \<Rightarrow> Inr c
      | Some v \<Rightarrow> bind_res (parse v (sel c)) (\<lambda>x. Inr (upd (\<lambda>_. x) c)))"

definition parse_ipc :: "json \<Rightarrow> coin_config \<Rightarrow> coin_config result" where
  "parse_ipc j c =
     (case object_member j ''ipc'' of None \<Rightarrow> Inr c
      | Some ip \<Rightarrow> run_all
          [rd ip get_string ''socket'' cc_ipcSocket cc_ipcSocket_update,
           rd ip get_bool ''template'' cc_ipcTemplate cc_ipcTemplate_update,
           rd ip get_int64 ''feeThreshold'' cc_ipcFeeThreshold cc_ipcFeeThreshold_update] c)"

definition parseCoin :: "fpu \<Rightarrow> json \<Rightarrow> coin_config result" where
  "parseCoin F j =
     run_all
       [rd j get_string ''rpcHost'' cc_rpcHost cc_rpcHost_update,
        rd j get_string ''rpcPort'' cc_rpcPort cc_rpcPort_update,
        rd j get_string ''rpcUser'' cc_rpcUser cc_rpcUser_update,
        rd j get_string ''rpcPassword'' cc_rpcPassword cc_rpcPassword_update,
        \<lambda>c. bind_res (parse_each (parse_fallback c) j ''rpcFallbacks'') (\<lambda>ns. Inr (c\<lparr>cc_rpcFallbacks := ns\<rparr>)),
        sub_object j ''aux'' (parse_aux F) cc_aux cc_aux_update,
        rd j get_bool ''useZMQ'' cc_useZMQ cc_useZMQ_update,
        rd j get_string ''zmqAddress'' cc_zmqAddress cc_zmqAddress_update,
        sub_object j ''zmq'' (\<lambda>z c. Inr (parse_zmq z c)) cc_zmq cc_zmq_update,
        parse_ipc j,
        parse_stratum F j,
        parse_vardiff F j,
        parse_donation F j,
        \<lambda>c. bind_res (parse_each (parse_tier F) j ''stratumTiers'') (\<lambda>ts. Inr (c\<lparr>stratumTiers := ts\<rparr>)),
        \<lambda>c. Inr (c\<lparr>cc_additionalSubmitEndpoints :=
          (case array_member j ''additionalSubmitEndpoints'' of None \<Rightarrow> [] | Some vs \<Rightarrow> parseList (JArray vs))\<rparr>),
        sub_object j ''upstream'' parse_upstream cc_upstream cc_upstream_update,
        sub_object j ''redirect'' parse_redirect cc_redirect cc_redirect_update,
        sub_object j ''cluster'' parse_cluster cc_cluster cc_cluster_update,
        \<lambda>c. bind_res (value_of get_string j ''chain'' ''bitcoin'') (\<lambda>chain. Inr (c\<lparr>cc_chain := parse_chain chain\<rparr>))]
       default_coin"

section \<open>The whole document\<close>

definition parse_tls :: "json \<Rightarrow> tls_config \<Rightarrow> tls_config result" where
  "parse_tls t c =
     run_all
       [\<lambda>c. rd t get_string ''certFile'' tl_certFile tl_certFile_update (c\<lparr>tl_certFile := []\<rparr>),
        \<lambda>c. rd t get_string ''keyFile'' tl_keyFile tl_keyFile_update (c\<lparr>tl_keyFile := []\<rparr>),
        \<lambda>c. rd t get_string ''dhparamsFile'' tl_dhparamsFile tl_dhparamsFile_update (c\<lparr>tl_dhparamsFile := []\<rparr>)] c"

definition parse_rate_limit :: "fpu \<Rightarrow> json \<Rightarrow> rate_limit_json \<Rightarrow> rate_limit_json result" where
  "parse_rate_limit F r c =
     run_all
       [rd r get_word ''maxConnectionsPerIP'' rj_maxConnectionsPerIP rj_maxConnectionsPerIP_update,
        rd r get_word ''acceptBurst'' rj_acceptBurst rj_acceptBurst_update,
        rd r (get_double F) ''acceptRefillPerSec'' rj_acceptRefillPerSec rj_acceptRefillPerSec_update,
        rd r get_word ''invalidShareBanThreshold'' rj_invalidShareBanThreshold rj_invalidShareBanThreshold_update,
        rd r get_word ''invalidShareWindowSec'' rj_invalidShareWindowSec rj_invalidShareWindowSec_update,
        rd r get_word ''banDurationSec'' rj_banDurationSec rj_banDurationSec_update] c"

definition parse_global :: "fpu \<Rightarrow> json \<Rightarrow> global_config \<Rightarrow> global_config result" where
  "parse_global F g c =
     bind_res (value_of get_string g ''role'' ''pool'') (\<lambda>role.
     run_all
       [rd g get_string ''metricsListenAddress'' gl_metricsListenAddress gl_metricsListenAddress_update,
        rd g get_word ''metricsListenPort'' gl_metricsListenPort gl_metricsListenPort_update,
        rd g get_string ''logPath'' gl_logPath gl_logPath_update,
        rd g get_word ''logLevel'' gl_logLevel gl_logLevel_update,
        rd g get_string ''databaseHost'' gl_databaseHost gl_databaseHost_update,
        rd g get_word ''databasePort'' gl_databasePort gl_databasePort_update,
        rd g get_string ''databaseName'' gl_databaseName gl_databaseName_update,
        rd g get_string ''databaseUser'' gl_databaseUser gl_databaseUser_update,
        rd g get_string ''databasePassword'' gl_databasePassword gl_databasePassword_update,
        rd g get_word ''ioThreads'' gl_ioThreads gl_ioThreads_update,
        rd g get_word ''sessionShards'' gl_sessionShards gl_sessionShards_update,
        rd g get_bool ''debugMode'' gl_debugMode gl_debugMode_update,
        rd g get_string ''controlSocket'' gl_controlSocket gl_controlSocket_update,
        rd g get_word ''idleDropSeconds'' gl_idleDropSeconds gl_idleDropSeconds_update,
        rd g get_word ''restartDrainSeconds'' gl_restartDrainSeconds gl_restartDrainSeconds_update,
        sub_object g ''tls'' parse_tls gl_tls gl_tls_update,
        sub_object g ''rateLimit'' (parse_rate_limit F) gl_rateLimit gl_rateLimit_update]
       (c\<lparr>gl_role := parse_role role\<rparr>))"

text \<open>\<open>c.coins[it.key()] = parseCoin(it.value())\<close> for every member, in order.\<close>

definition parse_coins :: "fpu \<Rightarrow> (string \<times> json) list \<Rightarrow> (string \<times> coin_config) list result" where
  "parse_coins F kvs =
     bind_res (map_res (\<lambda>(k, v). bind_res (parseCoin F v) (\<lambda>cc. Inr (k, cc\<lparr>cc_name := k\<rparr>))) kvs) (\<lambda>ccs.
       Inr (fold (\<lambda>(k, cc). AList.update k cc) ccs []))"

definition fromJson :: "fpu \<Rightarrow> json \<Rightarrow> pool_config result" where
  "fromJson F j =
     bind_res (value_of get_string j ''activeCoin'' ''BTC'') (\<lambda>active.
     bind_res (case member j ''global'' of None \<Rightarrow> Inr default_global | Some g \<Rightarrow> parse_global F g default_global) (\<lambda>global.
     bind_res (case member j ''coins'' of Some (JObject kvs) \<Rightarrow> parse_coins F kvs | _ \<Rightarrow> Inr []) (\<lambda>coins.
       let coins = (if coins = [] then [(''BTC'', default_coin)] else coins)
       in if map_of coins active = None
          then Inl (RuntimeError (''active coin '' @ [CHR 0x27] @ active @ [CHR 0x27] @ '' not configured''))
          else Inr \<lparr>cf_activeCoin = active, cf_global = global, cf_coins = coins\<rparr>)))"

definition getActiveCoinConfig :: "pool_config \<Rightarrow> coin_config result" where
  "getActiveCoinConfig c =
     (case map_of (cf_coins c) (cf_activeCoin c) of
        None \<Rightarrow> Inl (RuntimeError (''active coin '' @ [CHR 0x27] @ cf_activeCoin c @ [CHR 0x27] @ '' missing''))
      | Some cc \<Rightarrow> Inr cc)"

section \<open>Facts\<close>

definition endpoint_ok :: "upstream_endpoint \<Rightarrow> bool" where
  "endpoint_ok e \<longleftrightarrow> ue_host e \<noteq> [] \<and> ue_port e \<noteq> 0 \<and> ue_weight e \<noteq> 0"

definition target_ok :: "redirect_target \<Rightarrow> bool" where
  "target_ok t \<longleftrightarrow> tg_host t \<noteq> [] \<and> tg_port t \<noteq> 0 \<and> tg_weight t \<noteq> 0"

definition upstream_ok :: "upstream_config \<Rightarrow> bool" where
  "upstream_ok u \<longleftrightarrow> (\<forall>e \<in> set (up_endpoints u). endpoint_ok e) \<and> up_nonceBytes u \<in> {1, 2, 3, 4}"

definition redirect_ok :: "redirect_config \<Rightarrow> bool" where
  "redirect_ok r \<longleftrightarrow> (\<forall>t \<in> set (rc_targets r). target_ok t)"

definition coin_ok :: "coin_config \<Rightarrow> bool" where
  "coin_ok c \<longleftrightarrow>
     (\<forall>t \<in> set (stratumTiers c). st_port t \<noteq> 0) \<and>
     (\<forall>n \<in> set (cc_rpcFallbacks c). rn_host n \<noteq> [] \<and> rn_port n \<noteq> []) \<and>
     upstream_ok (cc_upstream c) \<and> redirect_ok (cc_redirect c) \<and>
     cl_trunks (cc_cluster c) \<noteq> 0"

lemma set_keep_some [simp]: "x \<in> set (keep_some xs) \<longleftrightarrow> Some x \<in> set xs"
  by (induction xs) (auto simp: keep_some_def List.map_filter_simps split: option.split)

lemma parse_each_yields:
  assumes "\<And>v. yields (\<lambda>r. \<forall>x. r = Some x \<longrightarrow> P x) (f v)"
  shows "yields (\<lambda>xs. \<forall>x \<in> set xs. P x) (parse_each f j key)"
proof -
  have "\<exists>v. f v = Inr (Some x)" if "Some x \<in> set ys" "map_res f vs = Inr ys" for x vs ys
    using that by (induction vs arbitrary: ys) (auto simp: bind_res_Inr_iff)
  moreover have "P x" if "f v = Inr (Some x)" for v x using assms [of v] that by simp
  ultimately show ?thesis
    by (fastforce simp: parse_each_def split: option.split intro: yields_bind_any)
qed

lemma parse_fallback_ok: "yields (\<lambda>r. \<forall>n. r = Some n \<longrightarrow> rn_host n \<noteq> [] \<and> rn_port n \<noteq> []) (parse_fallback cc n)"
  by (auto simp: parse_fallback_def intro!: yields_bind_any)

lemma parse_tier_ok: "yields (\<lambda>r. \<forall>t. r = Some t \<longrightarrow> st_port t \<noteq> 0) (parse_tier F t)"
  by (auto simp: parse_tier_def simp del: run_all_simps intro!: yields_bind_any)

lemma parse_endpoint_ok: "yields (\<lambda>r. \<forall>e. r = Some e \<longrightarrow> endpoint_ok e) (parse_endpoint e)"
  by (auto simp: parse_endpoint_def endpoint_ok_def Let_def simp del: run_all_simps
      intro!: yields_bind_any split: prod.split)

lemma parse_target_ok: "yields (\<lambda>r. \<forall>t. r = Some t \<longrightarrow> target_ok t) (parse_target t)"
  by (auto simp: parse_target_def target_ok_def Let_def intro!: yields_bind_any split: prod.split json.split)

lemma clamp_nonce_bytes:
  "(let nb = (if nb < 1 then 1 else nb) in if nb > 4 then 4 else nb) \<in> {1, 2, 3, 4 :: u8}"
proof -
  have "n = 1 \<or> n = 2 \<or> n = 3 \<or> n = 4" if "1 \<le> n" "n \<le> 4" for n :: nat using that by linarith
  from this [of "unat nb"] show ?thesis
    by (auto simp: Let_def not_less word_less_nat_alt word_le_nat_alt word_unat_eq_iff)
qed

lemma parse_upstream_ok: "upstream_ok c \<Longrightarrow> yields upstream_ok (parse_upstream u c)"
  unfolding parse_upstream_def
  apply (rule yields_bind [OF yields_rd [where P = upstream_ok]])
   apply (simp add: upstream_ok_def)
  apply (rule yields_bind_any)
  apply (subst Let_def, subst Let_def, subst Let_def)
  apply (rule yields_bind [OF parse_each_yields [OF parse_endpoint_ok]])
  using clamp_nonce_bytes [of "ucast (asU16 u ''nonceBytes'' 2)"]
  apply (auto simp: upstream_ok_def Let_def simp del: insert_iff)
  done

lemma parse_redirect_ok: "redirect_ok c \<Longrightarrow> yields redirect_ok (parse_redirect r c)"
  unfolding parse_redirect_def
  by (rule yields_bind [OF yields_rd [where P = redirect_ok]], simp add: redirect_ok_def,
      rule yields_bind [OF yields_rd [where P = redirect_ok]], simp add: redirect_ok_def,
      rule yields_bind [OF parse_each_yields [OF parse_target_ok]])
    (auto simp: redirect_ok_def)

lemma parse_cluster_ok: "yields (\<lambda>c. cl_trunks c \<noteq> 0) (parse_cluster cl c)"
  unfolding parse_cluster_def
  by (rule yields_bind_any, simp add: Let_def del: run_all_simps split: prod.split,
      intro conjI allI impI; rule yields_bind_any; simp add: word_less_nat_alt)

lemma parse_mask_ok: "coin_ok c \<Longrightarrow> coin_ok (parse_mask j key c)"
  by (simp add: parse_mask_def coin_ok_def split: option.split)

lemma parse_stratum_ok: "coin_ok c \<Longrightarrow> yields coin_ok (parse_stratum F j c)"
proof -
  assume c: "coin_ok c"
  have nested: "yields coin_ok (parse_stratum_nested F s c)" for s
    unfolding parse_stratum_nested_def
  proof (rule yields_bind [OF yields_run_all [where P = coin_ok]])
    fix d :: coin_config
    assume "coin_ok d"
    then have "coin_ok (parse_mask j' key (d\<lparr>enableVersionRolling := b\<rparr>))" for j' key b
      by (intro parse_mask_ok) (simp add: coin_ok_def)
    then show "yields coin_ok (case object_member s ''versionRolling'' of
          None \<Rightarrow> bind_res (rd s get_bool ''enableVersionRolling'' enableVersionRolling enableVersionRolling_update d)
             (\<lambda>c. Inr (parse_mask s ''versionRollingMask'' c))
        | Some vr \<Rightarrow> bind_res (rd vr get_bool ''enable'' enableVersionRolling enableVersionRolling_update d)
             (\<lambda>c. Inr (parse_mask vr ''mask'' c)))"
      by (auto simp: rd_def bind_res_Inr_iff split: option.split intro!: yields_bind_any)
  qed (use c in \<open>simp_all add: yields_rd yields_rd2 coin_ok_def\<close>)
  have flat: "yields coin_ok (parse_stratum_flat F j c)"
    unfolding parse_stratum_flat_def
  proof (rule yields_bind [OF yields_run_all [where P = coin_ok]])
    show "yields coin_ok (Inr (parse_mask j ''versionRollingMask'' d))" if "coin_ok d" for d
      using parse_mask_ok [OF that] by simp
  qed (use c in \<open>simp_all add: yields_rd coin_ok_def\<close>)
  show ?thesis using nested flat by (simp add: parse_stratum_def split: option.split)
qed

lemma yields_sub_object:
  assumes "P c" "\<And>v. yields Q (parse v (sel c))" "\<And>x. Q x \<Longrightarrow> P (upd (\<lambda>_. x) c)"
  shows "yields P (sub_object j key parse sel upd c)"
proof (cases "object_member j key")
  case (Some v)
  show ?thesis using assms yields_bind [OF assms(2) [of v], of P] by (simp add: sub_object_def Some)
qed (use assms(1) in \<open>simp add: sub_object_def\<close>)

lemma yields_True: "yields (\<lambda>_. True) r"
  by (simp add: yields_def split: sum.split)

lemma parse_small_ok:
  assumes "coin_ok c"
  shows "yields coin_ok (parse_ipc j c)" "yields coin_ok (parse_vardiff F j c)" "yields coin_ok (parse_donation F j c)"
  using assms
  by (auto simp: parse_ipc_def parse_vardiff_def parse_donation_def yields_rd yields_rd2 coin_ok_def
      simp del: run_all_simps split: option.split intro!: yields_run_all)

lemma parseCoin_ok: "yields coin_ok (parseCoin F j)"
  unfolding parseCoin_def
proof (rule yields_run_all)
  have fallbacks: "yields coin_ok (bind_res (parse_each (parse_fallback c) j ''rpcFallbacks'') (\<lambda>ns. Inr (c\<lparr>cc_rpcFallbacks := ns\<rparr>)))"
    if "coin_ok c" for c
    by (rule yields_bind [OF parse_each_yields [OF parse_fallback_ok]]) (use that in \<open>simp add: coin_ok_def\<close>)
  have tiers: "yields coin_ok (bind_res (parse_each (parse_tier F) j ''stratumTiers'') (\<lambda>ts. Inr (c\<lparr>stratumTiers := ts\<rparr>)))"
    if "coin_ok c" for c
    by (rule yields_bind [OF parse_each_yields [OF parse_tier_ok]]) (use that in \<open>simp add: coin_ok_def\<close>)
  have subs: "yields coin_ok (sub_object j ''upstream'' parse_upstream cc_upstream cc_upstream_update c)"
    "yields coin_ok (sub_object j ''redirect'' parse_redirect cc_redirect cc_redirect_update c)"
    "yields coin_ok (sub_object j ''cluster'' parse_cluster cc_cluster cc_cluster_update c)"
    "yields coin_ok (sub_object j ''aux'' (parse_aux F) cc_aux cc_aux_update c)"
    "yields coin_ok (sub_object j ''zmq'' (\<lambda>z c. Inr (parse_zmq z c)) cc_zmq cc_zmq_update c)"
    if "coin_ok c" for c
  proof -
    show "yields coin_ok (sub_object j ''upstream'' parse_upstream cc_upstream cc_upstream_update c)"
      by (rule yields_sub_object [where Q = "upstream_ok"]) (use that in \<open>simp_all add: coin_ok_def parse_upstream_ok\<close>)
    show "yields coin_ok (sub_object j ''redirect'' parse_redirect cc_redirect cc_redirect_update c)"
      by (rule yields_sub_object [where Q = "redirect_ok"]) (use that in \<open>simp_all add: coin_ok_def parse_redirect_ok\<close>)
    show "yields coin_ok (sub_object j ''cluster'' parse_cluster cc_cluster cc_cluster_update c)"
      by (rule yields_sub_object [where Q = "\<lambda>c. cl_trunks c \<noteq> 0"]) (use that in \<open>simp_all add: coin_ok_def parse_cluster_ok\<close>)
  qed (rule yields_sub_object [where Q = "\<lambda>_. True"]; use that in \<open>simp add: coin_ok_def yields_True\<close>)+
  show "coin_ok default_coin"
    by (simp add: coin_ok_def default_coin_def upstream_ok_def redirect_ok_def default_upstream_def default_redirect_def
        default_cluster_def)
  show "keeping coin_ok
     [rd j get_string ''rpcHost'' cc_rpcHost cc_rpcHost_update,
        rd j get_string ''rpcPort'' cc_rpcPort cc_rpcPort_update,
        rd j get_string ''rpcUser'' cc_rpcUser cc_rpcUser_update,
        rd j get_string ''rpcPassword'' cc_rpcPassword cc_rpcPassword_update,
        \<lambda>c. bind_res (parse_each (parse_fallback c) j ''rpcFallbacks'') (\<lambda>ns. Inr (c\<lparr>cc_rpcFallbacks := ns\<rparr>)),
        sub_object j ''aux'' (parse_aux F) cc_aux cc_aux_update,
        rd j get_bool ''useZMQ'' cc_useZMQ cc_useZMQ_update,
        rd j get_string ''zmqAddress'' cc_zmqAddress cc_zmqAddress_update,
        sub_object j ''zmq'' (\<lambda>z c. Inr (parse_zmq z c)) cc_zmq cc_zmq_update,
        parse_ipc j,
        parse_stratum F j,
        parse_vardiff F j,
        parse_donation F j,
        \<lambda>c. bind_res (parse_each (parse_tier F) j ''stratumTiers'') (\<lambda>ts. Inr (c\<lparr>stratumTiers := ts\<rparr>)),
        \<lambda>c. Inr (c\<lparr>cc_additionalSubmitEndpoints :=
          (case array_member j ''additionalSubmitEndpoints'' of None \<Rightarrow> [] | Some vs \<Rightarrow> parseList (JArray vs))\<rparr>),
        sub_object j ''upstream'' parse_upstream cc_upstream cc_upstream_update,
        sub_object j ''redirect'' parse_redirect cc_redirect cc_redirect_update,
        sub_object j ''cluster'' parse_cluster cc_cluster cc_cluster_update,
        \<lambda>c. bind_res (value_of get_string j ''chain'' ''bitcoin'') (\<lambda>chain. Inr (c\<lparr>cc_chain := parse_chain chain\<rparr>))]"
    using fallbacks tiers subs parse_small_ok parse_stratum_ok
    by (simp add: yields_rd yields_bind_any coin_ok_def)
qed

lemma update_all: "\<forall>y \<in> set al. P y \<Longrightarrow> P (k, v) \<Longrightarrow> \<forall>y \<in> set (AList.update k v al). P y"
  by (induction al) auto

lemma updates_all:
  "\<forall>x \<in> set ccs. P x \<Longrightarrow> \<forall>x \<in> set al. P x \<Longrightarrow> \<forall>x \<in> set (fold (\<lambda>(k, v). AList.update k v) ccs al). P x"
proof (induction ccs arbitrary: al)
  case (Cons x ccs)
  obtain k v where x: "x = (k, v)" by (cases x)
  have "\<forall>y \<in> set (AList.update k v al). P y"
    by (rule update_all [OF Cons.prems(2)]) (use Cons.prems(1) x in simp)
  then have "\<forall>y \<in> set (fold (\<lambda>(k, v). AList.update k v) ccs (AList.update k v al)). P y"
    by (rule Cons.IH [rotated]) (use Cons.prems(1) in simp)
  then show ?case by (simp add: x)
qed simp

lemma parse_coins_ok:
  "yields (\<lambda>cs. \<forall>(k, cc) \<in> set cs. coin_ok cc \<and> cc_name cc = k) (parse_coins F kvs)"
proof -
  have one: "yields (\<lambda>(k', cc). coin_ok cc \<and> cc_name cc = k') (bind_res (parseCoin F v) (\<lambda>cc. Inr (k, cc\<lparr>cc_name := k\<rparr>)))" for k v
    by (rule yields_bind [OF parseCoin_ok]) (simp add: coin_ok_def)
  have all: "\<forall>(k, cc) \<in> set ccs. coin_ok cc \<and> cc_name cc = k"
    if "map_res (\<lambda>(k, v). bind_res (parseCoin F v) (\<lambda>cc. Inr (k, cc\<lparr>cc_name := k\<rparr>))) kvs = Inr ccs" for ccs
    using that
  proof (induction kvs arbitrary: ccs)
    case (Cons kv kvs)
    then show ?case using one [where k = "fst kv" and v = "snd kv"] by (cases kv) (auto simp: bind_res_Inr_iff)
  qed simp
  show ?thesis unfolding parse_coins_def
    by (rule yields_bind_any) (use updates_all [OF all, of _ "[]"] in simp)
qed

section \<open>Properties\<close>

text \<open>
  Every accepted configuration is usable: the active coin is there (so \<open>getActiveCoinConfig\<close>
  never throws), every coin carries its key as its name, every listener tier has a port, every
  fallback node a host and a port, every upstream endpoint and redirect target a host, a port and a
  positive weight, the slot width is 1 to 4 bytes and there is at least one trunk. An empty document
  gives the defaults, and a document is refused when its active coin is missing.
\<close>

theorem config_valid:
  "(\<forall>c. fromJson F j = Inr c \<longrightarrow>
      (\<exists>cc. getActiveCoinConfig c = Inr cc \<and> (cf_activeCoin c, cc) \<in> set (cf_coins c)) \<and>
      (\<forall>(k, cc) \<in> set (cf_coins c). cc_name cc = k \<and>
        (\<forall>t \<in> set (stratumTiers cc). st_port t \<noteq> 0) \<and>
        (\<forall>n \<in> set (cc_rpcFallbacks cc). rn_host n \<noteq> [] \<and> rn_port n \<noteq> []) \<and>
        (\<forall>e \<in> set (up_endpoints (cc_upstream cc)). ue_host e \<noteq> [] \<and> ue_port e \<noteq> 0 \<and> ue_weight e \<noteq> 0) \<and>
        up_nonceBytes (cc_upstream cc) \<in> {1, 2, 3, 4} \<and>
        (\<forall>t \<in> set (rc_targets (cc_redirect cc)). tg_host t \<noteq> [] \<and> tg_port t \<noteq> 0 \<and> tg_weight t \<noteq> 0) \<and>
        cl_trunks (cc_cluster cc) \<noteq> 0)) \<and>
    fromJson F (JObject []) = Inr \<lparr>cf_activeCoin = ''BTC'', cf_global = default_global, cf_coins = [(''BTC'', default_coin)]\<rparr>"
proof (intro conjI allI impI)
  fix c
  assume c: "fromJson F j = Inr c"
  obtain coins where coins: "(case member j ''coins'' of Some (JObject kvs) \<Rightarrow> parse_coins F kvs | _ \<Rightarrow> Inr []) = Inr coins"
      and cs: "cf_coins c = (if coins = [] then [(''BTC'', default_coin)] else coins)"
      and act: "map_of (cf_coins c) (cf_activeCoin c) \<noteq> None"
    using c unfolding fromJson_def by (auto simp: bind_res_Inr_iff Let_def split: if_splits)
  show "\<exists>cc. getActiveCoinConfig c = Inr cc \<and> (cf_activeCoin c, cc) \<in> set (cf_coins c)"
    using act by (auto simp: getActiveCoinConfig_def dest: map_of_SomeD)
  have d: "coin_ok default_coin \<and> cc_name default_coin = ''BTC''"
    by (simp add: coin_ok_def default_coin_def upstream_ok_def redirect_ok_def default_upstream_def default_redirect_def
        default_cluster_def)
  have "\<forall>(k, cc) \<in> set coins. coin_ok cc \<and> cc_name cc = k"
    using coins yieldsD [OF parse_coins_ok [of F]] by (auto split: option.splits json.splits)
  then have "\<forall>(k, cc) \<in> set (cf_coins c). coin_ok cc \<and> cc_name cc = k"
    using d by (auto simp: cs)
  then show "\<forall>(k, cc) \<in> set (cf_coins c). cc_name cc = k \<and>
        (\<forall>t \<in> set (stratumTiers cc). st_port t \<noteq> 0) \<and>
        (\<forall>n \<in> set (cc_rpcFallbacks cc). rn_host n \<noteq> [] \<and> rn_port n \<noteq> []) \<and>
        (\<forall>e \<in> set (up_endpoints (cc_upstream cc)). ue_host e \<noteq> [] \<and> ue_port e \<noteq> 0 \<and> ue_weight e \<noteq> 0) \<and>
        up_nonceBytes (cc_upstream cc) \<in> {1, 2, 3, 4} \<and>
        (\<forall>t \<in> set (rc_targets (cc_redirect cc)). tg_host t \<noteq> [] \<and> tg_port t \<noteq> 0 \<and> tg_weight t \<noteq> 0) \<and>
        cl_trunks (cc_cluster cc) \<noteq> 0"
    by (auto simp: coin_ok_def upstream_ok_def redirect_ok_def endpoint_ok_def target_ok_def)
next
  show "fromJson F (JObject []) = Inr \<lparr>cf_activeCoin = ''BTC'', cf_global = default_global, cf_coins = [(''BTC'', default_coin)]\<rparr>"
    by (simp add: fromJson_def)
qed

theorem config_valid_witness:
  "\<exists>cc. getActiveCoinConfig \<lparr>cf_activeCoin = ''BTC'', cf_global = default_global, cf_coins = [(''BTC'', default_coin)]\<rparr> = Inr cc"
  using config_valid [of exact_fpu "JObject []"] by blast

end
