(* ===== verification/Coinbase.thy ===== *)
theory Coinbase
  imports PoolTypes Address Merkle
begin

text \<open>
  The coinbase transactions of \<open>src/client_session.cpp\<close>: the half after the extranonce that pays the
  miner of a session, the complete Dogecoin coinbase of merged mining with its block header and
  commitment, and the witness form of a coinbase. What the texts mean is the
  subject of \<open>CoinbaseFacts\<close>.
\<close>

section \<open>Formats\<close>

fun hex_nat :: "nat \<Rightarrow> string" where
  "hex_nat n = (if n < 16 then [hex_digits ! n] else hex_nat (n div 16) @ [hex_digits ! (n mod 16)])"

declare hex_nat.simps [simp del]

text \<open>\<open>snprintf(buf, 3, "%02zx", n)\<close>: at least two digits, cut to the two the buffer holds.\<close>

definition fmt_len :: "nat \<Rightarrow> string" where
  "fmt_len n = take 2 (if n < 16 then CHR ''0'' # hex_nat n else hex_nat n)"

text \<open>\<open>std::llround\<close>: halves away from zero.\<close>

definition llround :: "rat \<Rightarrow> int" where
  "llround x = (if 0 \<le> x then \<lfloor>x + 1 / 2\<rfloor> else - \<lfloor>1 / 2 - x\<rfloor>)"

text \<open>\<open>(double)value * percent / 100.0\<close>, rounded to an amount.\<close>

definition percent_of :: "fpu \<Rightarrow> int \<Rightarrow> rat \<Rightarrow> int" where
  "percent_of F value percent =
     llround (rnd_d F (rnd_d F (rnd_d F (of_int value) * percent) / 100))"

definition append_output :: "int \<Rightarrow> string \<Rightarrow> string" where
  "append_output value spk_hex = le_hex_u64 (of_int value) @ fmt_len (length spk_hex div 2) @ spk_hex"

section \<open>The coinbase of a session\<close>

text \<open>The eCash outputs: amounts and scripts, from the template or the defaults.\<close>

definition ecash_payouts :: "fpu \<Rightarrow> hash \<Rightarrow> mining_job \<Rightarrow> (int \<times> string) \<times> (int \<times> string)" where
  "ecash_payouts F sha256 job =
     (let total = mj_coinbase_value job;
          fund = (if miner_fund_value job > 0 then miner_fund_value job else percent_of F total 32);
          fund_script = (if miner_fund_address job \<noteq> []
             then (case decode sha256 (miner_fund_address job) of Inr d \<Rightarrow> script_pubkey_hex d
                   | Inl _ \<Rightarrow> ''a914d37c4c809fe9840e7bfa77b86bd47163f6fb6c6087'')
             else ''a914d37c4c809fe9840e7bfa77b86bd47163f6fb6c6087'');
          staking = (if staking_rewards_value job > 0 then staking_rewards_value job else percent_of F total 10);
          staking_script = (if staking_rewards_script job \<noteq> [] then staking_rewards_script job
             else ''76a9140e1ce96692cf15155985bf010264725428d3233e88ac'')
      in ((fund, fund_script), (staking, staking_script)))"

definition donation_output :: "fpu \<Rightarrow> hash \<Rightarrow> mining_job \<Rightarrow> int \<Rightarrow> int \<times> string" where
  "donation_output F sha256 job remaining =
     (if mj_donation_percent job > 0 \<and> mj_donation_address job \<noteq> []
      then case decode sha256 (mj_donation_address job) of
             Inr d \<Rightarrow>
               (let donation = percent_of F remaining (mj_donation_percent job)
                in if donation > remaining then (0, []) else (donation, script_pubkey_hex d))
           | Inl _ \<Rightarrow> (0, [])
      else (0, []))"

definition build_session_coinbase2 :: "fpu \<Rightarrow> hash \<Rightarrow> chain_kind \<Rightarrow> mining_job \<Rightarrow> string \<Rightarrow> string" where
  "build_session_coinbase2 F sha256 chain job miner_script_hex =
     (if miner_script_hex = [] then []
      else let total = mj_coinbase_value job;
               ((fund, fund_script), (staking, staking_script)) =
                 (if chain = ECash then ecash_payouts F sha256 job else ((0, []), (0, [])));
               remaining = total - fund - staking;
               (donation, donation_script) = donation_output F sha256 job remaining;
               miner_value = remaining - donation;
               add_commit = (mj_segwit_active job \<and> mj_witness_commitment job \<noteq> []);
               outputs = (if chain = ECash then (if donation > 0 then 2 else 1) + 2
                          else (if donation > 0 then 2 else 1) + (if add_commit then 1 else 0))
           in ''ffffffff'' @ fmt_len outputs
              @ append_output miner_value miner_script_hex
              @ (if donation > 0 \<and> donation_script \<noteq> [] then append_output donation donation_script else [])
              @ (if chain = ECash then append_output fund fund_script @ append_output staking staking_script else [])
              @ (if add_commit
                 then le_hex_u64 0 @ fmt_len (length (mj_witness_commitment job) div 2) @ mj_witness_commitment job
                 else [])
              @ ''00000000'')"

section \<open>The witness form\<close>

text \<open>
  Marker, flag and the reserved witness value around the body. With fewer than 16 characters the
  text is returned as it is.
\<close>

definition segwitify_coinbase :: "string \<Rightarrow> string" where
  "segwitify_coinbase cb =
     (if length cb < 16 then cb
      else take 8 cb @ ''0001'' @ take (length cb - 8 - 8) (drop 8 cb) @ ''01'' @ ''20''
           @ replicate 64 (CHR ''0'') @ drop (length cb - 8) cb)"

section \<open>Dogecoin merged mining\<close>

definition build_doge_coinbase ::
  "fpu \<Rightarrow> int \<Rightarrow> string \<Rightarrow> int \<Rightarrow> string \<Rightarrow> string \<Rightarrow> rat \<Rightarrow> string result" where
  "build_doge_coinbase F height sig value miner_script donation_script donation_percent =
     bind_res (encode_bip34_height height) (\<lambda>h.
     bind_res (if sig \<noteq> [] then encode_push_ascii sig else Inr []) (\<lambda>p.
       let script_sig = h @ p; ss_len = length script_sig div 2
       in if ss_len > 0xfc then Inr []
          else let donation = (if donation_percent > 0 \<and> donation_script \<noteq> []
                     then (let d = percent_of F value donation_percent in if d < 0 \<or> d > value then 0 else d)
                     else 0);
                   miner_value = value - donation;
                   outputs = (if donation > 0 \<and> donation_script \<noteq> [] then 2 else 1)
               in Inr (''01000000'' @ ''01'' @ replicate 64 (CHR ''0'') @ ''ffffffff''
                    @ fmt_len ss_len @ script_sig @ ''ffffffff'' @ fmt_len outputs
                    @ append_output miner_value miner_script
                    @ (if donation > 0 \<and> donation_script \<noteq> [] then append_output donation donation_script else [])
                    @ ''00000000'')))"

record session_aux_job =
  sa_aux_target :: string
  sa_aux_commit :: string
  sa_doge_coinbase :: string
  sa_doge_header :: string
  sa_doge_block_hash :: string
  sa_aux_height :: int
  sa_aux_value :: int

definition build_session_aux ::
  "fpu \<Rightarrow> (bytes \<Rightarrow> bytes) \<Rightarrow> coin_config \<Rightarrow> string \<Rightarrow> mining_job \<Rightarrow> session_aux_job option result" where
  "build_session_aux F sha256 coin doge_script_hex job =
     (if \<not> aux_enabled job \<or> doge_script_hex = [] then Inr None
      else if length (aux_prevhash job) \<noteq> 64 \<or> length (aux_bits job) \<noteq> 8 then Inr None
      else if length (aux_target job) \<noteq> 64 then Inr None
      else let ax = cc_aux coin;
               donation_script = (if ax_donationPercent ax > 0 \<and> ax_donationAddress ax \<noteq> []
                 then (case decode (\<lambda>b. Inr (sha256 b)) (ax_donationAddress ax) of Inr d \<Rightarrow> script_pubkey_hex d | Inl _ \<Rightarrow> [])
                 else [])
           in bind_res (build_doge_coinbase F (aux_height job) (coinbaseSignature coin) (aux_coinbasevalue job)
                doge_script_hex donation_script (ax_donationPercent ax)) (\<lambda>doge_cb.
              if doge_cb = [] then Inr None
              else bind_res (compute_coinbase_txid_le (sha256d sha256) doge_cb) (\<lambda>merkleroot.
                let doge_header = le_hex_u32 (aux_version job) @ byte_reverse_hex (aux_prevhash job) @ merkleroot
                      @ le_hex_u32 (aux_curtime job) @ byte_reverse_hex (aux_bits job) @ ''00000000''
                in bind_res (compute_coinbase_txid_le (sha256d sha256) doge_header) (\<lambda>txid.
                   let aux_hash = byte_reverse_hex txid
                   in Inr (Some \<lparr>sa_aux_target = aux_target job,
                        sa_aux_commit = ''fabe6d6d'' @ aux_hash @ ''01000000'' @ ''00000000'',
                        sa_doge_coinbase = doge_cb, sa_doge_header = doge_header,
                        sa_doge_block_hash = aux_hash, sa_aux_height = aux_height job,
                        sa_aux_value = aux_coinbasevalue job\<rparr>)))))"

text \<open>The placeholder at the end of the first half is replaced by the commitment.\<close>

definition splice_commit :: "string \<Rightarrow> string \<Rightarrow> string" where
  "splice_commit coinbase1 commit =
     (if length coinbase1 \<ge> 88 then take (length coinbase1 - 88) coinbase1 @ commit else coinbase1)"

end
