(* ===== verification/JobWindow.thy ===== *)
theory JobWindow
  imports Stdlib
begin

text \<open>
  \<open>src/job_window.hpp\<close>: the window of recent jobs, looked up by their id or by its first 32 bits.
  Shown here: after any pushes the window holds exactly the newest \<open>capacity\<close> of them and a lookup
  finds the newest one with the id.
\<close>

section \<open>Definitions\<close>

record 'a job_window =
  jw_items :: "(string \<times> 'a) list"
  jw_capacity :: nat

definition window_new :: "nat \<Rightarrow> 'a job_window" where
  "window_new capacity = \<lparr>jw_items = [], jw_capacity = capacity\<rparr>"

text \<open>With capacity 0 the code pops an empty deque, which is undefined; the first push meets it.\<close>

definition window_push :: "string \<Rightarrow> 'a \<Rightarrow> 'a job_window \<Rightarrow> 'a job_window" where
  "window_push job_id job w =
     (let items = (if length (jw_items w) = jw_capacity w then tl (jw_items w) else jw_items w)
      in w\<lparr>jw_items := items @ [(job_id, job)]\<rparr>)"

definition window_find :: "string \<Rightarrow> 'a job_window \<Rightarrow> 'a option" where
  "window_find job_id w = map_option snd (find (\<lambda>it. fst it = job_id) (rev (jw_items w)))"

text \<open>
  \<open>std::from_chars\<close> in base 16 over the first eight characters: no sign, no prefix and no white
  space, and it stops at the first character that is not a digit.
\<close>

definition from_chars16 :: "string \<Rightarrow> u32 option" where
  "from_chars16 s = (let ds = takeWhile is_hex s in if ds = [] then None else Some (of_nat (hex_number ds)))"

definition window_find_u32 :: "u32 \<Rightarrow> 'a job_window \<Rightarrow> 'a option" where
  "window_find_u32 id32 w =
     map_option snd (find (\<lambda>it. \<not> length (fst it) < 8 \<and> from_chars16 (take 8 (fst it)) = Some id32)
       (rev (jw_items w)))"

definition window_latest :: "'a job_window \<Rightarrow> 'a option" where
  "window_latest w = (if jw_items w = [] then None else Some (snd (last (jw_items w))))"

definition window_clear :: "'a job_window \<Rightarrow> 'a job_window" where
  "window_clear w = w\<lparr>jw_items := []\<rparr>"

definition window_size :: "'a job_window \<Rightarrow> nat" where
  "window_size w = length (jw_items w)"

section \<open>Facts\<close>

definition push_all :: "(string \<times> 'a) list \<Rightarrow> 'a job_window \<Rightarrow> 'a job_window" where
  "push_all jobs w = fold (\<lambda>(i, j). window_push i j) jobs w"

definition newest :: "nat \<Rightarrow> 'b list \<Rightarrow> 'b list" where
  "newest n xs = drop (length xs - n) xs"

lemma newest_snoc: "0 < n \<Longrightarrow> newest n (xs @ [x]) =
    (if length (newest n xs) = n then tl (newest n xs) else newest n xs) @ [x]"
  by (auto simp: newest_def tl_drop drop_Suc Suc_diff_le)

lemma push_all_items:
  "0 < c \<Longrightarrow> push_all jobs (window_new c) = \<lparr>jw_items = newest c jobs, jw_capacity = c\<rparr>"
proof (induction jobs rule: rev_induct)
  case Nil
  show ?case by (simp add: push_all_def window_new_def newest_def)
next
  case (snoc j jobs)
  then show ?case by (cases j) (simp add: push_all_def newest_snoc window_push_def Let_def)
qed

lemma find_rev_append: "find P (rev (xs @ ys)) = (case find P (rev ys) of Some y \<Rightarrow> Some y | None \<Rightarrow> find P (rev xs))"
proof -
  have "find P (us @ vs) = (case find P us of Some y \<Rightarrow> Some y | None \<Rightarrow> find P vs)" for us vs
    by (induction us) simp_all
  then show ?thesis by simp
qed

lemma find_rev_newest:
  "find P (rev (newest n xs)) = Some y \<longleftrightarrow>
    (\<exists>i < length xs. length xs \<le> i + n \<and> xs ! i = y \<and> P y \<and> (\<forall>k < length xs. i < k \<longrightarrow> \<not> P (xs ! k)))"
proof (induction xs arbitrary: n rule: rev_induct)
  case Nil
  show ?case by (simp add: newest_def)
next
  case (snoc x xs)
  show ?case
  proof (cases n)
    case 0
    then show ?thesis by (simp add: newest_def)
  next
    case (Suc m)
    then have "newest n (xs @ [x]) = newest m xs @ [x]" by (auto simp: newest_def)
    then have "find P (rev (newest n (xs @ [x]))) = (if P x then Some x else find P (rev (newest m xs)))" by simp
    then show ?thesis using snoc.IH [of m]
      by (auto simp: Suc nth_append less_Suc_eq cong: conj_cong split: if_splits)
  qed
qed

lemma from_chars16_hex:
  assumes "list_all is_hex (take 8 s)" "8 \<le> length s"
  shows "from_chars16 (take 8 s) = Some (of_nat (hex_number (take 8 s)))"
proof -
  have "takeWhile is_hex (take 8 s) = take 8 s" using assms(1) by (simp add: takeWhile_eq_all_conv list_all_iff)
  moreover have "take 8 s \<noteq> []" using assms(2) by auto
  ultimately show ?thesis unfolding from_chars16_def Let_def by (simp only: if_False)
qed

section \<open>Properties\<close>

text \<open>
  The window is a bounded history: after any pushes into an empty window of capacity \<open>c > 0\<close> it
  holds the newest \<open>c\<close> jobs, \<open>find\<close> answers with job \<open>y\<close> exactly when \<open>y\<close> was pushed under that id
  within the last \<open>c\<close> pushes and no later push used the id, \<open>latest\<close> is the last push, and a share
  that names a pushed job by the first eight hex digits of its id finds a job with those digits.
\<close>

theorem job_history:
  fixes jobs :: "(string \<times> 'a) list"
  assumes "0 < c"
  shows "(window_find j (push_all jobs (window_new c)) = Some y \<longleftrightarrow>
      (\<exists>i < length jobs. length jobs \<le> i + c \<and> jobs ! i = (j, y) \<and>
        (\<forall>k < length jobs. i < k \<longrightarrow> fst (jobs ! k) \<noteq> j))) \<and>
    window_latest (push_all jobs (window_new c)) = (if jobs = [] then None else Some (snd (last jobs))) \<and>
    window_size (push_all jobs (window_new c)) = min c (length jobs) \<and>
    (\<forall>i < length jobs. length jobs \<le> i + c \<longrightarrow> 8 \<le> length (fst (jobs ! i)) \<longrightarrow>
      list_all is_hex (take 8 (fst (jobs ! i))) \<longrightarrow>
      window_find_u32 (of_nat (hex_number (take 8 (fst (jobs ! i))))) (push_all jobs (window_new c)) \<noteq> None)"
proof (intro conjI allI impI)
  show "window_find j (push_all jobs (window_new c)) = Some y \<longleftrightarrow>
      (\<exists>i < length jobs. length jobs \<le> i + c \<and> jobs ! i = (j, y) \<and>
        (\<forall>k < length jobs. i < k \<longrightarrow> fst (jobs ! k) \<noteq> j))"
    unfolding window_find_def push_all_items [OF assms] job_window.simps map_option_eq_Some find_rev_newest
    by (auto simp: prod_eq_iff)
  show "window_latest (push_all jobs (window_new c)) = (if jobs = [] then None else Some (snd (last jobs)))"
    using assms by (cases jobs) (simp_all add: push_all_items window_latest_def newest_def last_drop)
  show "window_size (push_all jobs (window_new c)) = min c (length jobs)"
    using assms by (simp add: push_all_items window_size_def newest_def)
  fix i
  assume i: "i < length jobs" "length jobs \<le> i + c" and h: "8 \<le> length (fst (jobs ! i))"
    "list_all is_hex (take 8 (fst (jobs ! i)))"
  have "newest c jobs ! (i - (length jobs - c)) = jobs ! i" "i - (length jobs - c) < length (newest c jobs)"
    using i by (auto simp: newest_def)
  then have "jobs ! i \<in> set (newest c jobs)" by (metis nth_mem)
  then show "window_find_u32 (of_nat (hex_number (take 8 (fst (jobs ! i))))) (push_all jobs (window_new c)) \<noteq> None"
    using h from_chars16_hex [OF h(2,1)]
    by (simp add: window_find_u32_def push_all_items [OF assms] find_None_iff) (metis linorder_not_less prod.collapse)
qed

theorem job_history_witness:
  "window_find ''a'' (push_all [(''a'', 1 :: nat), (''b'', 2), (''a'', 3), (''c'', 4)] (window_new 2)) = Some 3"
proof -
  have "\<exists>i < length jobs. length jobs \<le> i + 2 \<and> jobs ! i = (''a'', 3) \<and>
      (\<forall>k < length jobs. i < k \<longrightarrow> fst (jobs ! k) \<noteq> ''a'')"
    if "jobs = [(''a'', 1 :: nat), (''b'', 2), (''a'', 3), (''c'', 4)]" for jobs
    using that by (intro exI [of _ 2]) (auto simp: less_Suc_eq)
  from job_history [of 2 "''a''" _ 3, THEN conjunct1, THEN iffD2, OF _ this [OF refl]]
  show ?thesis by simp
qed

end
