(* ===== verification/Stratifier.thy ===== *)
theory Stratifier
  imports Coinbase JobWindow
begin

text \<open>
  \<open>src/stratifier.cpp\<close>: reading a block template, building the job of a template and publishing it,
  and the table of shares seen on the current block. A callback is the action \<open>Broadcast\<close>; the random
  number of a job id is an argument. Every operation is one step here. In the code \<open>updateWork\<close> takes
  the lock of the jobs and that of the share table in several sections, one after the other: what
  another thread sees between them, and shares registered between them, are not modelled. Fees are
  summed without the bound of 64 bits. Theory \<open>StratifierFacts\<close> holds what the operations promise.
\<close>

section \<open>Reading a template\<close>

definition get_int32 :: "json \<Rightarrow> int result" where
  "get_int32 j = bind_res (get_word j) (\<lambda>w :: 32 word. Inr (sint w))"

definition get_amount :: "json \<Rightarrow> int result" where
  "get_amount j = bind_res (get_int64 j) (\<lambda>w. Inr (sint w))"

definition empty_template :: block_template where
  "empty_template =
     \<lparr>miner_fund_address = [], miner_fund_value = 0, staking_rewards_script = [], staking_rewards_value = 0,
      rtt_present = False, rtt_prevheadertime = replicate 5 0, rtt_prevbits = 0, aux_enabled = False,
      aux_version = 0, aux_prevhash = [], aux_bits = [], aux_curtime = 0, aux_height = 0,
      aux_coinbasevalue = 0, aux_target = [], mweb = [], ipc_handle = 0,
      bt_version = 0, bt_previousblockhash = [], bt_coinbasevalue = 0, bt_target = [], bt_mintime = 0,
      bt_curtime = 0, bt_bits = [], bt_height = 0, bt_default_witness_commitment = [], bt_reserved = [],
      bt_zcash_merkle_root = [], bt_zcash_coinbase_data = [], bt_segwit_active = True, bt_transactions = [],
      bt_ipc_branch = []\<rparr>"

definition parse_header_fields :: "json \<Rightarrow> block_template \<Rightarrow> block_template result" where
  "parse_header_fields r =
     run_all
       [rd r get_word ''version'' bt_version bt_version_update,
        rd r get_string ''previousblockhash'' bt_previousblockhash bt_previousblockhash_update,
        rd r get_amount ''coinbasevalue'' bt_coinbasevalue bt_coinbasevalue_update,
        rd r get_string ''target'' bt_target bt_target_update,
        rd r get_word ''mintime'' bt_mintime bt_mintime_update,
        rd r get_word ''curtime'' bt_curtime bt_curtime_update,
        rd r get_string ''bits'' bt_bits bt_bits_update,
        rd r get_int32 ''height'' bt_height bt_height_update,
        rd r get_string ''default_witness_commitment'' bt_default_witness_commitment
          bt_default_witness_commitment_update,
        rd r get_string ''reserved'' bt_reserved bt_reserved_update]"

definition parse_zcash_fields :: "json \<Rightarrow> block_template \<Rightarrow> block_template result" where
  "parse_zcash_fields r bt =
     bind_res (case object_member r ''defaultroots'' of None \<Rightarrow> Inr bt
       | Some d \<Rightarrow> run_all
           [rd d get_string ''merkleroot'' bt_zcash_merkle_root bt_zcash_merkle_root_update,
            \<lambda>bt. rd d get_string ''blockcommitmentshash'' bt_reserved bt_reserved_update (bt\<lparr>bt_reserved := []\<rparr>)] bt)
       (\<lambda>bt. case object_member r ''coinbasetxn'' of None \<Rightarrow> Inr bt
         | Some c \<Rightarrow> rd c get_string ''data'' bt_zcash_coinbase_data bt_zcash_coinbase_data_update bt)"

definition parse_ecash_fields :: "json \<Rightarrow> block_template \<Rightarrow> block_template result" where
  "parse_ecash_fields r bt =
     (case object_member r ''coinbasetxn'' of None \<Rightarrow> Inr bt
      | Some cb \<Rightarrow>
          bind_res (case object_member cb ''minerfund'' of None \<Rightarrow> Inr bt
            | Some mf \<Rightarrow> bind_res (rd mf get_amount ''minimumvalue'' miner_fund_value miner_fund_value_update bt) (\<lambda>bt.
                case array_member mf ''addresses'' of
                  Some (a # _) \<Rightarrow> bind_res (get_string a) (\<lambda>s. Inr (bt\<lparr>miner_fund_address := s\<rparr>))
                | _ \<Rightarrow> Inr bt)) (\<lambda>bt.
          case object_member cb ''stakingrewards'' of None \<Rightarrow> Inr bt
            | Some sr \<Rightarrow> bind_res (rd sr get_amount ''minimumvalue'' staking_rewards_value staking_rewards_value_update bt) (\<lambda>bt.
                case object_member sr ''payoutscript'' of None \<Rightarrow> Inr bt
                | Some ps \<Rightarrow> rd ps get_string ''hex'' staking_rewards_script staking_rewards_script_update bt)))"

text \<open>One receive time: a positive number, narrowed to 32 bits.\<close>

definition rtt_time :: "json \<Rightarrow> u32 option" where
  "rtt_time v =
     (if \<not> is_number v then None
      else case get_int64 v of Inr t \<Rightarrow> if sint t \<le> 0 then None else Some (ucast t) | Inl _ \<Rightarrow> None)"

definition parse_rtt :: "json \<Rightarrow> block_template \<Rightarrow> block_template result" where
  "parse_rtt r bt =
     (case object_member r ''rtt'' of None \<Rightarrow> Inr bt
      | Some rtt \<Rightarrow>
          (case array_member rtt ''prevheadertime'' of None \<Rightarrow> Inr bt
           | Some vs \<Rightarrow>
               if length vs \<ge> 5 \<and> contains_key rtt ''prevbits''
               then bind_res (value_of get_string rtt ''prevbits'' []) (\<lambda>pb.
                 let times = map rtt_time (take 5 vs)
                 in if list_all (\<lambda>t. t \<noteq> None) times \<and> length pb = 8 \<and> valid_hex pb
                    then bind_res (stoul16 pb) (\<lambda>v.
                      Inr (bt\<lparr>rtt_prevheadertime := map the times, rtt_prevbits := ucast v, rtt_present := True\<rparr>))
                    else Inr bt)
               else Inr bt))"

definition parse_ipc_fields :: "json \<Rightarrow> block_template \<Rightarrow> block_template result" where
  "parse_ipc_fields r bt =
     (let branch = (case array_member r ''mkpool_ipc_branch'' of None \<Rightarrow> []
            | Some vs \<Rightarrow> List.map_filter (\<lambda>e. case e of JString s \<Rightarrow> Some s | _ \<Rightarrow> None) vs)
      in rd r get_uint64 ''mkpool_ipc_handle'' ipc_handle ipc_handle_update (bt\<lparr>bt_ipc_branch := branch\<rparr>))"

definition parse_tx :: "json \<Rightarrow> block_template_tx result" where
  "parse_tx jt =
     bind_res (value_of get_string jt ''data'' []) (\<lambda>dat.
     bind_res (value_of get_string jt ''hash'' []) (\<lambda>hash.
     bind_res (value_of get_string jt ''txid'' hash) (\<lambda>txid_display.
     bind_res (value_of get_amount jt ''fee'' 0) (\<lambda>fee.
     bind_res (value_of get_word jt ''sigops'' 0) (\<lambda>sigops.
     bind_res (value_of get_word jt ''weight'' 0) (\<lambda>weight.
       Inr \<lparr>tx_data = dat, tx_txid_le = byte_reverse_hex txid_display, tx_fee = fee, tx_sigops = sigops,
            tx_weight = weight\<rparr>))))))"

text \<open>A transaction without an id is skipped, unless the node computed the branch.\<close>

definition parse_transactions :: "json \<Rightarrow> block_template \<Rightarrow> block_template result" where
  "parse_transactions r bt =
     (case array_member r ''transactions'' of None \<Rightarrow> Inr bt
      | Some jts \<Rightarrow> bind_res (map_res parse_tx jts) (\<lambda>txs.
          Inr (bt\<lparr>bt_transactions := filter (\<lambda>tx. tx_txid_le tx \<noteq> [] \<or> bt_ipc_branch bt \<noteq> []) txs\<rparr>)))"

definition parse_aux_fields :: "json \<Rightarrow> block_template \<Rightarrow> block_template result" where
  "parse_aux_fields r bt =
     (case object_member r ''aux'' of None \<Rightarrow> Inr bt
      | Some a \<Rightarrow>
          bind_res (value_of get_word a ''version'' 0) (\<lambda>v. run_all
            [rd a get_string ''previousblockhash'' aux_prevhash aux_prevhash_update,
             rd a get_string ''bits'' aux_bits aux_bits_update,
             rd a get_word ''curtime'' aux_curtime aux_curtime_update,
             rd a get_int32 ''height'' aux_height aux_height_update,
             rd a get_amount ''coinbasevalue'' aux_coinbasevalue aux_coinbasevalue_update,
             rd a get_string ''target'' aux_target aux_target_update]
            (bt\<lparr>aux_enabled := True, aux_version := v OR 0x100\<rparr>)))"

definition parseTemplate :: "json \<Rightarrow> block_template option result" where
  "parseTemplate gbt =
     (case object_member gbt ''result'' of None \<Rightarrow> Inr None
      | Some r \<Rightarrow> bind_res (run_all
          [parse_header_fields r, parse_zcash_fields r,
           \<lambda>bt. Inr (bt\<lparr>bt_segwit_active := (bt_default_witness_commitment bt \<noteq> [])\<rparr>),
           parse_ecash_fields r, parse_rtt r, parse_ipc_fields r, parse_transactions r, parse_aux_fields r,
           rd r get_string ''mweb'' mweb mweb_update] empty_template) (\<lambda>bt. Inr (Some bt)))"

section \<open>Building a job\<close>

definition en1_bytes :: nat where "en1_bytes = 4"

definition en2_bytes :: "chain_kind \<Rightarrow> nat" where
  "en2_bytes chain = (if chain = Zcash then 4 else 8)"

definition aux_placeholder :: "block_template \<Rightarrow> string" where
  "aux_placeholder bt =
     (if aux_enabled bt \<and> aux_prevhash bt \<noteq> []
      then ''fabe6d6d'' @ replicate 64 (CHR ''0'') @ ''01000000'' @ ''00000000'' else [])"

text \<open>
  The shared half of the coinbase up to the extranonce; \<open>None\<close> when the script is too long, an
  exception when the height or the signature cannot be pushed.
\<close>

definition build_coinbase1 :: "coin_config \<Rightarrow> block_template \<Rightarrow> string option result" where
  "build_coinbase1 cc bt =
     bind_res (encode_bip34_height (bt_height bt)) (\<lambda>height_push.
     bind_res (if coinbaseSignature cc = [] then Inr [] else encode_push_ascii (coinbaseSignature cc)) (\<lambda>sig_push.
       let aux = aux_placeholder bt;
           script_len = length height_push div 2 + length sig_push div 2 + en1_bytes + en2_bytes (cc_chain cc)
             + length aux div 2
       in if script_len > 0xfc then Inr None
          else Inr (Some (if cc_chain cc = Zcash then bt_zcash_coinbase_data bt
            else le_hex_u32 1 @ ''01'' @ replicate 64 (CHR ''0'') @ ''ffffffff'' @ fmt_len script_len
                 @ height_push @ sig_push @ aux))))"

definition build_branch :: "(bytes \<Rightarrow> bytes) \<Rightarrow> block_template \<Rightarrow> string list result" where
  "build_branch sha256 bt =
     (if bt_ipc_branch bt \<noteq> [] then Inr (bt_ipc_branch bt)
      else build_branch_le_hex sha256 (map tx_txid_le (bt_transactions bt)))"

text \<open>\<open>generate_job_id\<close> and \<open>generate_job_id_32\<close> with the generator's output as an argument.\<close>

definition generate_job_id :: "u64 \<Rightarrow> u64 \<Rightarrow> string" where
  "generate_job_id rng counter = le_hex_u64 ((rng AND 0xffffffff) XOR counter)"

definition generate_job_id_32 :: "u64 \<Rightarrow> u64 \<Rightarrow> string" where
  "generate_job_id_32 rng counter = int_to_hex (ucast rng XOR ucast counter) 8"

definition reverse_words :: "string \<Rightarrow> string" where
  "reverse_words s =
     (if length s = 64 then concat (map (\<lambda>w. take 8 (drop ((7 - w) * 8) s)) [0..<8]) else s)"

definition make_job :: "coin_config \<Rightarrow> block_template \<Rightarrow> string \<Rightarrow> string \<Rightarrow> string list \<Rightarrow> mining_job" where
  "make_job cc bt job_id coinbase1 branch =
     \<lparr>miner_fund_address = miner_fund_address bt, miner_fund_value = miner_fund_value bt,
      staking_rewards_script = staking_rewards_script bt, staking_rewards_value = staking_rewards_value bt,
      rtt_present = rtt_present bt, rtt_prevheadertime = rtt_prevheadertime bt, rtt_prevbits = rtt_prevbits bt,
      aux_enabled = aux_enabled bt, aux_version = aux_version bt, aux_prevhash = aux_prevhash bt,
      aux_bits = aux_bits bt, aux_curtime = aux_curtime bt, aux_height = aux_height bt,
      aux_coinbasevalue = aux_coinbasevalue bt, aux_target = aux_target bt, mweb = mweb bt,
      ipc_handle = ipc_handle bt,
      mj_job_id = job_id, mj_previousblockhash = bt_previousblockhash bt, mj_coinbase1 = coinbase1,
      mj_merkle_branch_le = branch, mj_version = bt_version bt, mj_bits = bt_bits bt, mj_curtime = bt_curtime bt,
      mj_mintime = bt_mintime bt, mj_clean_jobs = False, mj_coinbase_value = bt_coinbasevalue bt,
      mj_total_fees = sum_list (map tx_fee (bt_transactions bt)), mj_height = bt_height bt,
      mj_witness_commitment = bt_default_witness_commitment bt, mj_reserved = bt_reserved bt,
      mj_zcash_merkle_root_le = [], mj_zcash_full_coinbase_hex = [], mj_segwit_active = bt_segwit_active bt,
      mj_extranonce1_bytes = en1_bytes, mj_extranonce2_bytes = en2_bytes (cc_chain cc),
      mj_donation_percent = donationPercent cc, mj_donation_address = donationAddress cc,
      mj_tx_hexes = map tx_data (bt_transactions bt), mj_notify_prefix = [], mj_notify_suffix = []\<rparr>"

definition notify_head :: string where
  "notify_head = ''{'' @ quote ''id'' @ '':null,'' @ quote ''method'' @ '':'' @ quote ''mining.notify'' @ '','' @
     quote ''params'' @ '':[''"

text \<open>The parts of the notify line that all sessions share.\<close>

definition notify_parts :: "coin_config \<Rightarrow> mining_job \<Rightarrow> string \<times> string" where
  "notify_parts cc mj =
     (if cc_chain cc = Zcash
      then (notify_head @ commas
              [quote (mj_job_id mj), quote (le_hex_u32 (mj_version mj)),
               quote (byte_reverse_hex (mj_previousblockhash mj)), quote (mj_zcash_merkle_root_le mj),
               quote (if mj_reserved mj = [] then replicate 64 (CHR ''0'') else byte_reverse_hex (mj_reserved mj)),
               quote (le_hex_u32 (mj_curtime mj)), quote (byte_reverse_hex (mj_bits mj)),
               json_bool (mj_clean_jobs mj)] @ '']}'' @ newline, [])
      else (notify_head @ commas
              [quote (mj_job_id mj), quote (reverse_words (mj_previousblockhash mj)), quote (mj_coinbase1 mj)]
              @ '','' @ [CHR 0x22],
            [CHR 0x22] @ '','' @ commas
              [json_list (mj_merkle_branch_le mj), quote (fmt_08x (mj_version mj)), quote (mj_bits mj),
               quote (fmt_08x (mj_curtime mj)), json_bool (mj_clean_jobs mj)] @ '']}'' @ newline))"

section \<open>The stratifier\<close>

record stratifier =
  sf_coin :: coin_config
  sf_jobs :: "mining_job job_window"
  sf_last_prevhash :: string
  sf_version_mask :: u32
  sf_best_share_round :: rat
  sf_seen_shares :: "string set"
  sf_callbacks :: nat
  sf_job_counter :: u64

datatype strat_action = Broadcast nat mining_job

definition stratifier_new :: "nat \<Rightarrow> stratifier" where
  "stratifier_new window =
     \<lparr>sf_coin = default_coin, sf_jobs = window_new window, sf_last_prevhash = [], sf_version_mask = 0x1fffe000,
      sf_best_share_round = 0, sf_seen_shares = {}, sf_callbacks = 0, sf_job_counter = 0\<rparr>"

definition setCoinConfig :: "coin_config \<Rightarrow> stratifier \<Rightarrow> stratifier" where
  "setCoinConfig cc s =
     s\<lparr>sf_coin := cc, sf_version_mask := (if enableVersionRolling cc then versionRollingMask cc else 0)\<rparr>"

definition registerCallback :: "stratifier \<Rightarrow> stratifier" where
  "registerCallback s = s\<lparr>sf_callbacks := sf_callbacks s + 1\<rparr>"

text \<open>Publishing the job: the tip, the tables that belong to the old tip, the window and the callbacks.\<close>

definition publish_job :: "mining_job \<Rightarrow> stratifier \<Rightarrow> stratifier \<times> strat_action list" where
  "publish_job mj s =
     (let cc = sf_coin s; clean = (mj_previousblockhash mj \<noteq> sf_last_prevhash s);
          mj = mj\<lparr>mj_clean_jobs := clean\<rparr>;
          s = s\<lparr>sf_last_prevhash := mj_previousblockhash mj\<rparr>;
          s = (if clean then s\<lparr>sf_seen_shares := {}, sf_best_share_round := 0\<rparr> else s);
          (prefix, suffix) = notify_parts cc mj;
          mj = mj\<lparr>mj_notify_prefix := prefix, mj_notify_suffix := suffix\<rparr>
      in (s\<lparr>sf_jobs := window_push (mj_job_id mj) mj (sf_jobs s)\<rparr>, map (\<lambda>cb. Broadcast cb mj) [0..<sf_callbacks s]))"

definition updateWork ::
  "(bytes \<Rightarrow> bytes) \<Rightarrow> u64 \<Rightarrow> json \<Rightarrow> stratifier \<Rightarrow> (stratifier \<times> strat_action list) result" where
  "updateWork sha256 rng gbt s =
     bind_res (parseTemplate gbt) (\<lambda>parsed. case parsed of None \<Rightarrow> Inr (s, [])
      | Some bt \<Rightarrow>
          let cc = sf_coin s
          in if donationAddress cc = [] then Inr (s, [])
          else bind_res (build_coinbase1 cc bt) (\<lambda>cb1. case cb1 of None \<Rightarrow> Inr (s, [])
            | Some coinbase1 \<Rightarrow>
              (case build_branch sha256 bt of Inl _ \<Rightarrow> Inr (s, [])
               | Inr branch \<Rightarrow>
                 let job_id = (if cc_chain cc = Zcash then generate_job_id_32 rng (sf_job_counter s)
                               else generate_job_id rng (sf_job_counter s));
                     mj = make_job cc bt job_id coinbase1 branch;
                     mj = (if cc_chain cc = Zcash
                           then mj\<lparr>mj_zcash_full_coinbase_hex := bt_zcash_coinbase_data bt,
                                   mj_zcash_merkle_root_le := byte_reverse_hex (bt_zcash_merkle_root bt)\<rparr>
                           else mj)
                 in Inr (publish_job mj (s\<lparr>sf_job_counter := sf_job_counter s + 1\<rparr>)))))"

definition latestJob :: "stratifier \<Rightarrow> mining_job option" where
  "latestJob s = window_latest (sf_jobs s)"

definition findJob :: "string \<Rightarrow> stratifier \<Rightarrow> mining_job option" where
  "findJob job_id s = window_find job_id (sf_jobs s)"

definition findJobU32 :: "u32 \<Rightarrow> stratifier \<Rightarrow> mining_job option" where
  "findJobU32 id32 s = window_find_u32 id32 (sf_jobs s)"

definition pool_version_mask :: "stratifier \<Rightarrow> u32" where
  "pool_version_mask s = sf_version_mask s"

definition current_prevhash :: "stratifier \<Rightarrow> string" where
  "current_prevhash s = sf_last_prevhash s"

text \<open>Whether a share is new; the table is dropped when it holds more than a million.\<close>

definition register_share :: "string \<Rightarrow> stratifier \<Rightarrow> bool \<times> stratifier" where
  "register_share fingerprint s =
     (let seen = (if card (sf_seen_shares s) > 1000000 then {} else sf_seen_shares s)
      in (fingerprint \<notin> seen, s\<lparr>sf_seen_shares := insert fingerprint seen\<rparr>))"

definition note_share_diff :: "rat \<Rightarrow> stratifier \<Rightarrow> stratifier" where
  "note_share_diff d s =
     (if \<not> d > 0 then s
      else if d > sf_best_share_round s then s\<lparr>sf_best_share_round := d\<rparr> else s)"

definition best_share_round :: "stratifier \<Rightarrow> rat" where
  "best_share_round s = sf_best_share_round s"

definition reset_best_share :: "stratifier \<Rightarrow> stratifier" where
  "reset_best_share s = s\<lparr>sf_best_share_round := 0\<rparr>"

end
