(* ===== verification/CoinbaseFacts.thy ===== *)
theory CoinbaseFacts
  imports Stratifier AddressFacts
begin

text \<open>
  What the coinbase texts of \<open>Coinbase\<close> and \<open>Stratifier\<close> mean: a reader of transactions in the format of
  the chain, and the theorems that the text a miner hashes is read as the transaction it is meant to
  be, that its outputs pay exactly the value of the template, that the witness form is the same
  transaction, and that the merged-mining commitment names the block it commits to.
\<close>

section \<open>Reading transactions\<close>

definition split_at :: "nat \<Rightarrow> bytes \<Rightarrow> (bytes \<times> bytes) option" where
  "split_at n bs = (if n \<le> length bs then Some (take n bs, drop n bs) else None)"

definition split_number :: "nat \<Rightarrow> bytes \<Rightarrow> (nat \<times> bytes) option" where
  "split_number n bs = (case split_at n bs of None \<Rightarrow> None | Some (v, rest) \<Rightarrow> Some (le_value v, rest))"

fun split_size :: "bytes \<Rightarrow> (nat \<times> bytes) option" where
  "split_size [] = None"
| "split_size (b # bs) =
     (if b < 0xfd then Some (unat b, bs) else if b = 0xfd then split_number 2 bs
      else if b = 0xfe then split_number 4 bs else split_number 8 bs)"

definition split_script :: "bytes \<Rightarrow> (bytes \<times> bytes) option" where
  "split_script bs = (case split_size bs of None \<Rightarrow> None | Some (n, rest) \<Rightarrow> split_at n rest)"

type_synonym tx_in = "bytes \<times> bytes \<times> nat"
type_synonym tx_out = "nat \<times> bytes"

definition split_input :: "bytes \<Rightarrow> (tx_in \<times> bytes) option" where
  "split_input bs =
     (case split_at 36 bs of None \<Rightarrow> None | Some (prevout, bs) \<Rightarrow>
      case split_script bs of None \<Rightarrow> None | Some (scr, bs) \<Rightarrow>
      case split_number 4 bs of None \<Rightarrow> None | Some (sequence, bs) \<Rightarrow> Some ((prevout, scr, sequence), bs))"

definition split_output :: "bytes \<Rightarrow> (tx_out \<times> bytes) option" where
  "split_output bs =
     (case split_number 8 bs of None \<Rightarrow> None | Some (v, bs) \<Rightarrow>
      case split_script bs of None \<Rightarrow> None | Some (scr, bs) \<Rightarrow> Some ((v, scr), bs))"

primrec split_many :: "(bytes \<Rightarrow> ('a \<times> bytes) option) \<Rightarrow> nat \<Rightarrow> bytes \<Rightarrow> ('a list \<times> bytes) option" where
  "split_many get 0 bs = Some ([], bs)"
| "split_many get (Suc n) bs =
     (case get bs of None \<Rightarrow> None | Some (x, bs) \<Rightarrow>
      case split_many get n bs of None \<Rightarrow> None | Some (xs, bs) \<Rightarrow> Some (x # xs, bs))"

definition split_list :: "(bytes \<Rightarrow> ('a \<times> bytes) option) \<Rightarrow> bytes \<Rightarrow> ('a list \<times> bytes) option" where
  "split_list get bs = (case split_size bs of None \<Rightarrow> None | Some (n, bs) \<Rightarrow> split_many get n bs)"

record transaction =
  t_version :: nat
  t_inputs :: "tx_in list"
  t_outputs :: "tx_out list"
  t_locktime :: nat

text \<open>The whole text must be one transaction.\<close>

definition read_tx :: "bytes \<Rightarrow> transaction option" where
  "read_tx bs =
     (case split_number 4 bs of None \<Rightarrow> None | Some (version, bs) \<Rightarrow>
      case split_list split_input bs of None \<Rightarrow> None | Some (ins, bs) \<Rightarrow>
      case split_list split_output bs of None \<Rightarrow> None | Some (outs, bs) \<Rightarrow>
      case split_number 4 bs of None \<Rightarrow> None | Some (locktime, bs) \<Rightarrow>
        if bs = [] then Some \<lparr>t_version = version, t_inputs = ins, t_outputs = outs, t_locktime = locktime\<rparr>
        else None)"

text \<open>The witness form: marker and flag, and a stack of items for every input.\<close>

definition read_witness_tx :: "bytes \<Rightarrow> (transaction \<times> bytes list list) option" where
  "read_witness_tx bs =
     (case split_number 4 bs of None \<Rightarrow> None | Some (version, bs) \<Rightarrow>
      case split_at 2 bs of None \<Rightarrow> None | Some (marker, bs) \<Rightarrow>
      if marker \<noteq> [0, 1] then None else
      case split_list split_input bs of None \<Rightarrow> None | Some (ins, bs) \<Rightarrow>
      case split_list split_output bs of None \<Rightarrow> None | Some (outs, bs) \<Rightarrow>
      case split_many (split_list split_script) (length ins) bs of None \<Rightarrow> None | Some (witness, bs) \<Rightarrow>
      case split_number 4 bs of None \<Rightarrow> None | Some (locktime, bs) \<Rightarrow>
        if bs = [] then Some (\<lparr>t_version = version, t_inputs = ins, t_outputs = outs, t_locktime = locktime\<rparr>, witness)
        else None)"

section \<open>Hex text of parts\<close>

text \<open>\<open>hex_text s bs\<close>: the text \<open>s\<close> denotes the bytes.\<close>

definition hex_text :: "string \<Rightarrow> bytes \<Rightarrow> bool" where
  "hex_text s bs \<longleftrightarrow> hex_to_bytes s = Inr bs"

named_theorems hex_texts \<open>which bytes a piece of text denotes\<close>

lemma hex_pairs_append:
  "even (length s) \<Longrightarrow> hex_pairs s = Inr a \<Longrightarrow> hex_pairs (s @ t) = bind_res (hex_pairs t) (\<lambda>b. Inr (a @ b))"
proof (induction s arbitrary: a rule: hex_pairs.induct)
  case (1 x y s)
  then show ?case by (cases "hex_pairs t") (auto simp: bind_res_Inr_iff)
next
  case "2_1"
  then show ?case by (cases "hex_pairs t") simp_all
qed simp

lemma hex_text_even: "hex_text s bs \<Longrightarrow> length s = 2 * length bs"
  by (simp add: hex_text_def hex_to_bytes_length)

lemma hex_text_append [hex_texts]:
  assumes "hex_text s a" "hex_text t b"
  shows "hex_text (s @ t) (a @ b)"
proof -
  have "even (length s)" "even (length t)" using assms hex_text_even by auto
  then show ?thesis using assms by (simp add: hex_text_def hex_to_bytes_def hex_pairs_append)
qed

lemma hex_text_Nil [hex_texts]: "hex_text [] []"
  by (simp add: hex_text_def hex_to_bytes_def)

lemma hex_text_bytes [hex_texts]: "hex_text (bytes_to_hex bs) bs"
  by (simp add: hex_text_def)

lemma hex_text_byte [hex_texts]: "hex_text (hex_of_byte b) [b]"
  using hex_text_bytes [of "[b]"] by simp

lemma hex_text_u64 [hex_texts]: "hex_text (le_hex_u64 v) (le_bytes 8 v)"
  by (simp add: le_hex_u64_bytes hex_text_bytes)

lemma hex_text_u32 [hex_texts]: "hex_text (le_hex_u32 v) (le_bytes 4 v)"
  by (simp add: le_hex_u32_bytes hex_text_bytes)

lemma hex_text_concat:
  "list_all2 hex_text ss bss \<Longrightarrow> hex_text (concat ss) (concat bss)"
  by (induction rule: list_all2_induct) (auto intro: hex_texts)

lemma hex_nat_small: "n < 16 \<Longrightarrow> hex_nat n = [hex_digits ! n]"
  by (simp add: hex_nat.simps)

lemma hex_nat_two: "16 \<le> n \<Longrightarrow> n < 256 \<Longrightarrow> hex_nat n = [hex_digits ! (n div 16), hex_digits ! (n mod 16)]"
  using hex_nat_small [of "n div 16"] by (simp add: hex_nat.simps [of n])

lemma fmt_len_byte: "n < 256 \<Longrightarrow> fmt_len n = hex_of_byte (of_nat n)"
proof -
  assume n: "n < 256"
  then have "unat (drop_bit 4 (of_nat n :: u8)) = n div 16" "unat ((of_nat n :: u8) AND 0xf) = n mod 16"
    by (simp_all add: drop_bit_eq_div unat_div low_nibble_mod unat_of_nat)
  moreover have "hex_digits ! 0 = CHR ''0''" by (simp add: hex_digits_def)
  ultimately show ?thesis using n
    by (cases "n < 16") (simp_all add: fmt_len_def hex_of_byte_def hex_nat_small hex_nat_two)
qed

lemma hex_text_len [hex_texts]: "n < 256 \<Longrightarrow> hex_text (fmt_len n) [of_nat n]"
  by (simp add: fmt_len_byte hex_text_byte)

lemma hex_text_literals [hex_texts]:
  "hex_text ''ffffffff'' [255, 255, 255, 255]" "hex_text ''00000000'' [0, 0, 0, 0]"
  "hex_text ''01'' [1]" "hex_text ''20'' [32]" "hex_text ''0001'' [0, 1]" "hex_text ''01000000'' [1, 0, 0, 0]"
  "hex_text ''fabe6d6d'' [0xfa, 0xbe, 0x6d, 0x6d]"
  by (simp_all add: hex_text_def hex_to_bytes_def hex_nibble_def Let_def)

lemma hex_text_zeros [hex_texts]: "hex_text (replicate 64 (CHR ''0'')) (replicate 32 0)"
proof -
  have "hex_pairs (replicate (2 * n) (CHR ''0'')) = Inr (replicate n 0)" for n
    by (induction n) (simp_all add: hex_nibble_def Let_def)
  from this [of 32] show ?thesis by (simp add: hex_text_def hex_to_bytes_def)
qed

lemma hex_text_push_ascii: "encode_push_ascii sig = Inr s \<Longrightarrow>
    hex_text s (of_nat (length sig) # map byte_of_char sig)"
  using hex_text_append [OF hex_text_byte hex_text_bytes]
  by (auto simp: encode_push_ascii_def encode_push_bytes_def split: if_splits)

lemma hex_text_height: "encode_bip34_height h = Inr s \<Longrightarrow> \<exists>bs. hex_text s bs \<and> length bs \<le> 5"
proof -
  assume h: "encode_bip34_height h = Inr s"
  define b where "b = (if le_min_bytes (of_int h) = [] then [0] else le_min_bytes (of_int h))"
  have s: "s = hex_of_byte (of_nat (length b)) @ bytes_to_hex b"
    using h by (simp add: encode_bip34_height_def Let_def b_def split: if_splits)
  have b: "length b \<le> 4" using le_min_bytes_length [of "of_int h"] by (simp add: b_def)
  have "hex_text s (of_nat (length b) # b)"
    using hex_text_append [OF hex_text_byte hex_text_bytes] by (simp add: s)
  then show ?thesis using b by (intro exI [of _ "of_nat (length b) # b"]) simp
qed

section \<open>Reading what was written\<close>

lemma split_at_append [simp]: "length a = n \<Longrightarrow> split_at n (a @ b) = Some (a, b)"
  by (simp add: split_at_def)

lemma split_number_append [simp]: "length a = n \<Longrightarrow> split_number n (a @ b) = Some (le_value a, b)"
  by (simp add: split_number_def)

lemma split_size_byte: "n < 0xfd \<Longrightarrow> split_size (of_nat n # bs) = Some (n, bs)"
  by (simp add: word_less_nat_alt unat_of_nat)

lemma split_script_append: "length s < 0xfd \<Longrightarrow> split_script (of_nat (length s) # s @ bs) = Some (s, bs)"
  unfolding split_script_def by (subst split_size_byte) simp_all

text \<open>
  A format: \<open>get\<close> reads back what \<open>put\<close> wrote and leaves the rest, on values that satisfy \<open>fits\<close>. A list
  of them is written as its size and its items.
\<close>

locale item_format =
  fixes put :: "'a \<Rightarrow> bytes" and get :: "bytes \<Rightarrow> ('a \<times> bytes) option" and fits :: "'a \<Rightarrow> bool"
  assumes get_put: "fits x \<Longrightarrow> get (put x @ rest) = Some (x, rest)"
begin

lemma many: "list_all fits xs \<Longrightarrow> split_many get (length xs) (concat (map put xs) @ rest) = Some (xs, rest)"
  by (induction xs) (simp_all add: get_put)

lemma items:
  "list_all fits xs \<Longrightarrow> length xs < 0xfd \<Longrightarrow>
    split_list get (of_nat (length xs) # concat (map put xs) @ rest) = Some (xs, rest)"
  unfolding split_list_def by (subst split_size_byte) (simp_all add: many)

end

definition put_output :: "tx_out \<Rightarrow> bytes" where
  "put_output = (\<lambda>(v, s). le_bytes 8 (of_nat v :: u64) @ of_nat (length s) # s)"

definition output_fits :: "tx_out \<Rightarrow> bool" where
  "output_fits = (\<lambda>(v, s). v < 2 ^ 64 \<and> length s < 0xfd)"

definition put_input :: "tx_in \<Rightarrow> bytes" where
  "put_input = (\<lambda>(prevout, s, sequence). prevout @ of_nat (length s) # s @ le_bytes 4 (of_nat sequence :: u32))"

definition input_fits :: "tx_in \<Rightarrow> bool" where
  "input_fits = (\<lambda>(prevout, s, sequence). length prevout = 36 \<and> length s < 0xfd \<and> sequence < 2 ^ 32)"

definition put_script :: "bytes \<Rightarrow> bytes" where
  "put_script s = of_nat (length s) # s"

lemma le_value_u64: "v < 2 ^ 64 \<Longrightarrow> le_value (le_bytes 8 (of_nat v :: u64)) = v"
  by (simp add: le_value_le_bytes unat_of_nat)

lemma le_value_u32: "v < 2 ^ 32 \<Longrightarrow> le_value (le_bytes 4 (of_nat v :: u32)) = v"
  by (simp add: le_value_le_bytes unat_of_nat)

interpretation out_fmt: item_format put_output split_output output_fits
  by unfold_locales
    (auto simp: put_output_def split_output_def output_fits_def le_value_u64 split_script_append)

interpretation in_fmt: item_format put_input split_input input_fits
  by unfold_locales
    (auto simp: put_input_def split_input_def input_fits_def le_value_u32 split_script_append)

interpretation script_fmt: item_format put_script split_script "\<lambda>s. length s < 0xfd"
  by unfold_locales (simp add: put_script_def split_script_append)

definition put_tx :: "transaction \<Rightarrow> bytes" where
  "put_tx t = le_bytes 4 (of_nat (t_version t) :: u32) @ of_nat (length (t_inputs t)) # concat (map put_input (t_inputs t))
     @ of_nat (length (t_outputs t)) # concat (map put_output (t_outputs t)) @ le_bytes 4 (of_nat (t_locktime t) :: u32)"

definition tx_fits :: "transaction \<Rightarrow> bool" where
  "tx_fits t \<longleftrightarrow> t_version t < 2 ^ 32 \<and> t_locktime t < 2 ^ 32 \<and> list_all input_fits (t_inputs t) \<and>
     list_all output_fits (t_outputs t) \<and> length (t_inputs t) < 0xfd \<and> length (t_outputs t) < 0xfd"

lemma read_put_tx: "tx_fits t \<Longrightarrow> read_tx (put_tx t) = Some t"
  using split_number_append [of "le_bytes 4 (of_nat (t_locktime t) :: u32)" 4 "[]"]
  by (simp add: tx_fits_def read_tx_def put_tx_def in_fmt.items out_fmt.items le_value_u32)

section \<open>The coinbase of a session\<close>

text \<open>An output of the text: its amount, its script as text, and what the script denotes.\<close>

definition hex_outputs :: "(int \<times> string) list \<Rightarrow> tx_out list \<Rightarrow> bool" where
  "hex_outputs os outs \<longleftrightarrow> list_all2 (\<lambda>(v, s) (n, b). 0 \<le> v \<and> n = nat v \<and> hex_text s b \<and> length b < 0xfd) os outs"

lemma hex_outputs_simps [simp]:
  "hex_outputs [] outs \<longleftrightarrow> outs = []"
  "hex_outputs ((v, s) # os) outs \<longleftrightarrow>
    (\<exists>b outs'. outs = (nat v, b) # outs' \<and> 0 \<le> v \<and> hex_text s b \<and> length b < 0xfd \<and> hex_outputs os outs')"
  by (auto simp: hex_outputs_def list_all2_Cons1)

lemma hex_outputs_append:
  "hex_outputs as bs \<Longrightarrow> hex_outputs as' bs' \<Longrightarrow> hex_outputs (as @ as') (bs @ bs')"
  by (auto simp: hex_outputs_def intro: list_all2_appendI)

lemma hex_text_output:
  assumes "0 \<le> v" "hex_text s b" "length b < 0xfd"
  shows "hex_text (append_output v s) (put_output (nat v, b))"
proof -
  have "length s div 2 = length b" using hex_text_even [OF assms(2)] by simp
  then have "hex_text (fmt_len (length s div 2)) [of_nat (length b)]" using assms(3) by (simp add: hex_text_len)
  then have "hex_text (append_output v s) (le_bytes 8 (of_int v :: u64) @ [of_nat (length b)] @ b)"
    unfolding append_output_def using assms(2) by (intro hex_texts)
  then show ?thesis using assms(1) by (simp add: put_output_def)
qed

lemma hex_text_outputs:
  "hex_outputs os outs \<Longrightarrow> hex_text (concat (map (\<lambda>(v, s). append_output v s) os)) (concat (map put_output outs))"
  by (induction os arbitrary: outs) (auto simp: hex_text_Nil intro!: hex_text_append hex_text_output)

lemma hex_outputs_sum: "hex_outputs os outs \<Longrightarrow> int (sum_list (map fst outs)) = sum_list (map fst os)"
  by (induction os arbitrary: outs) auto

lemma hex_outputs_nonneg: "hex_outputs os outs \<Longrightarrow> (v, s) \<in> set os \<Longrightarrow> 0 \<le> v \<and> v \<le> sum_list (map fst os)"
proof (induction os arbitrary: outs)
  case (Cons x os)
  have "0 \<le> sum_list (map fst os)"
    using Cons.prems(1) hex_outputs_sum [of os] by (cases x) (metis hex_outputs_simps(2) of_nat_0_le_iff)
  then show ?case using Cons by (cases x) fastforce
qed simp

lemma hex_outputs_fit_each:
  "hex_outputs os outs \<Longrightarrow> \<forall>x \<in> set os. fst x < 2 ^ 64 \<Longrightarrow> list_all output_fits outs"
  by (induction os arbitrary: outs) (auto simp: output_fits_def nat_less_iff)

lemma hex_outputs_fit:
  assumes "hex_outputs os outs" "sum_list (map fst os) < 2 ^ 64"
  shows "list_all output_fits outs"
proof (rule hex_outputs_fit_each [OF assms(1)], rule ballI)
  fix x
  assume "x \<in> set os"
  then have "fst x \<le> sum_list (map fst os)" using hex_outputs_nonneg [OF assms(1), of "fst x" "snd x"] by simp
  then show "fst x < 2 ^ 64" using assms(2) by (rule le_less_trans)
qed

text \<open>The outputs \<open>build_session_coinbase2\<close> writes, in their order.\<close>

definition commit_added :: "mining_job \<Rightarrow> bool" where
  "commit_added job \<longleftrightarrow> mj_segwit_active job \<and> mj_witness_commitment job \<noteq> []"

definition session_outputs :: "fpu \<Rightarrow> hash \<Rightarrow> chain_kind \<Rightarrow> mining_job \<Rightarrow> string \<Rightarrow> (int \<times> string) list" where
  "session_outputs F sha256 chain job miner_script =
     (let (fund, staking) = (if chain = ECash then ecash_payouts F sha256 job else ((0, []), (0, [])));
          remaining = mj_coinbase_value job - fst fund - fst staking;
          donation = donation_output F sha256 job remaining
      in [(remaining - fst donation, miner_script)]
         @ (if fst donation > 0 then [donation] else [])
         @ (if chain = ECash then [fund, staking] else [])
         @ (if commit_added job then [(0, mj_witness_commitment job)] else []))"

lemma script_pubkey_nonempty [simp]: "script_pubkey_hex d \<noteq> []"
  by (simp add: script_pubkey_hex_def split: addr_type.split)

lemma donation_script: "0 < fst (donation_output F sha256 job r) \<Longrightarrow> snd (donation_output F sha256 job r) \<noteq> []"
  by (auto simp: donation_output_def Let_def split: if_splits sum.splits)

lemma session_coinbase2_count:
  fixes F :: fpu and sha256 :: hash and job :: mining_job and chain :: chain_kind
  assumes "miner_script \<noteq> []"
  defines "os \<equiv> session_outputs F sha256 chain job miner_script"
  shows "build_session_coinbase2 F sha256 chain job miner_script =
    ''ffffffff'' @ fmt_len (length os - (if chain = ECash \<and> commit_added job then 1 else 0))
      @ concat (map (\<lambda>(v, s). append_output v s) os) @ ''00000000''"
proof -
  define n where "n = length os - (if chain = ECash \<and> commit_added job then 1 else 0)"
  have zero: "append_output 0 w = le_hex_u64 0 @ fmt_len (length w div 2) @ w" for w
    by (simp add: append_output_def)
  define ep where "ep = (if chain = ECash then ecash_payouts F sha256 job else ((0, []), (0, [])))"
  define dn where "dn = donation_output F sha256 job (mj_coinbase_value job - fst (fst ep) - fst (snd ep))"
  have d: "0 < fst dn \<and> snd dn \<noteq> [] \<longleftrightarrow> 0 < fst dn" using donation_script by (auto simp: dn_def)
  have os: "os = [(mj_coinbase_value job - fst (fst ep) - fst (snd ep) - fst dn, miner_script)]
      @ (if fst dn > 0 then [dn] else []) @ (if chain = ECash then [fst ep, snd ep] else [])
      @ (if commit_added job then [(0, mj_witness_commitment job)] else [])"
    by (simp add: os_def session_outputs_def ep_def dn_def case_prod_beta Let_def)
  have n: "n = (if chain = ECash then (if fst dn > 0 then 2 else 1) + 2
      else (if fst dn > 0 then 2 else 1) + (if commit_added job then 1 else 0))"
    by (auto simp: os n_def)
  have "build_session_coinbase2 F sha256 chain job miner_script = ''ffffffff'' @ fmt_len n
      @ append_output (mj_coinbase_value job - fst (fst ep) - fst (snd ep) - fst dn) miner_script
      @ (if fst dn > 0 then append_output (fst dn) (snd dn) else [])
      @ (if chain = ECash then append_output (fst (fst ep)) (snd (fst ep)) @ append_output (fst (snd ep)) (snd (snd ep)) else [])
      @ (if commit_added job then append_output 0 (mj_witness_commitment job) else []) @ ''00000000''"
    using assms(1) unfolding n build_session_coinbase2_def
    by (simp only: Let_def case_prod_beta ep_def [symmetric] dn_def [symmetric] d commit_added_def [symmetric] zero if_False)
  also have "\<dots> = ''ffffffff'' @ fmt_len n @ concat (map (\<lambda>(v, s). append_output v s) os) @ ''00000000''"
    by (cases "fst dn > 0"; cases "chain = ECash"; cases "commit_added job") (simp_all add: os case_prod_beta)
  finally show ?thesis unfolding n_def .
qed

lemma session_coinbase2_text:
  fixes F :: fpu and sha256 :: hash
  assumes "miner_script \<noteq> []" "chain = ECash \<longrightarrow> \<not> commit_added job"
  defines "os \<equiv> session_outputs F sha256 chain job miner_script"
  shows "build_session_coinbase2 F sha256 chain job miner_script =
    ''ffffffff'' @ fmt_len (length os) @ concat (map (\<lambda>(v, s). append_output v s) os) @ ''00000000''"
  using session_coinbase2_count [OF assms(1)] assms(2) by (auto simp: os_def)

text \<open>On eCash a witness commitment is written and not counted: the count of outputs is one too small.\<close>

lemma ecash_commitment_uncounted:
  fixes F :: fpu and sha256 :: hash and job :: mining_job
  assumes "miner_script \<noteq> []" "commit_added job"
  defines "os \<equiv> session_outputs F sha256 ECash job miner_script"
  shows "build_session_coinbase2 F sha256 ECash job miner_script =
    ''ffffffff'' @ fmt_len (length os - 1) @ concat (map (\<lambda>(v, s). append_output v s) os) @ ''00000000''"
  using session_coinbase2_count [OF assms(1), where chain = ECash] assms(2) by (simp add: os_def)

lemma llround_nonneg: "0 \<le> x \<Longrightarrow> 0 \<le> llround x"
  by (simp add: llround_def)

text \<open>Rounding keeps the sign, as every IEEE rounding does.\<close>

definition keeps_sign :: "fpu \<Rightarrow> bool" where
  "keeps_sign F \<longleftrightarrow> (\<forall>x \<ge> 0. 0 \<le> rnd_d F x)"

lemma keeps_sign_exact [simp]: "keeps_sign exact_fpu"
  by (simp add: keeps_sign_def exact_fpu_def)

lemma percent_of_nonneg: "keeps_sign F \<Longrightarrow> 0 \<le> v \<Longrightarrow> 0 \<le> p \<Longrightarrow> 0 \<le> percent_of F v p"
  by (simp add: percent_of_def keeps_sign_def llround_nonneg)

text \<open>Text that is a script short enough for a one-byte size.\<close>

definition script_text :: "string \<Rightarrow> bool" where
  "script_text s \<longleftrightarrow> (\<exists>b. hex_text s b \<and> length b < 0xfd)"

lemma script_text_decoded: "decode sha256 a = Inr d \<Longrightarrow> script_text (script_pubkey_hex d)"
proof -
  assume "decode sha256 a = Inr d"
  then have "length (d_program d) \<in> program_sizes (d_type d)" by (rule decode_program)
  then have "length (d_program d) \<le> 64"
    by (auto simp: program_sizes_def cash_lengths_def split: addr_type.splits)
  then have "length (standard_script (d_type d) (d_program d)) < 0xfd"
    by (simp add: standard_script_def split: addr_type.split)
  then show ?thesis using hex_text_bytes unfolding script_text_def script_hex by blast
qed

lemma script_text_ecash:
  "script_text ''a914d37c4c809fe9840e7bfa77b86bd47163f6fb6c6087''"
  "script_text ''76a9140e1ce96692cf15155985bf010264725428d3233e88ac''"
  by (simp_all add: script_text_def hex_text_def hex_to_bytes_def hex_nibble_def Let_def)

lemma donation_bounds:
  assumes "keeps_sign F" "0 \<le> r"
  shows "0 \<le> fst (donation_output F sha256 job r)" "fst (donation_output F sha256 job r) \<le> r"
    "0 < fst (donation_output F sha256 job r) \<Longrightarrow> script_text (snd (donation_output F sha256 job r))"
  using assms percent_of_nonneg [OF assms, of "mj_donation_percent job"] script_text_decoded
  by (auto simp: donation_output_def Let_def split: sum.splits)

lemma ecash_bounds:
  assumes "keeps_sign F" "0 \<le> mj_coinbase_value job"
    "staking_rewards_script job = [] \<or> script_text (staking_rewards_script job)"
  shows "0 \<le> fst (fst (ecash_payouts F sha256 job))" "0 \<le> fst (snd (ecash_payouts F sha256 job))"
    "script_text (snd (fst (ecash_payouts F sha256 job)))" "script_text (snd (snd (ecash_payouts F sha256 job)))"
  using assms percent_of_nonneg [OF assms(1,2)] script_text_decoded script_text_ecash
  by (auto simp: ecash_payouts_def Let_def split: sum.splits)

definition payouts_fit :: "fpu \<Rightarrow> hash \<Rightarrow> chain_kind \<Rightarrow> mining_job \<Rightarrow> bool" where
  "payouts_fit F sha256 chain job \<longleftrightarrow>
     (let v = mj_coinbase_value job in 0 \<le> v \<and> v < 2 ^ 64 \<and>
        (chain = ECash \<longrightarrow> fst (fst (ecash_payouts F sha256 job)) + fst (snd (ecash_payouts F sha256 job)) \<le> v \<and>
           \<not> commit_added job \<and> (staking_rewards_script job = [] \<or> script_text (staking_rewards_script job))) \<and>
        (commit_added job \<longrightarrow> script_text (mj_witness_commitment job)))"

lemma session_outputs_hex:
  assumes "keeps_sign F" "payouts_fit F sha256 chain job" "script_text ms"
  shows "\<exists>outs. hex_outputs (session_outputs F sha256 chain job ms) outs"
    "sum_list (map fst (session_outputs F sha256 chain job ms)) = mj_coinbase_value job"
proof -
  define ep where "ep = (if chain = ECash then ecash_payouts F sha256 job else ((0, []), (0, [])))"
  define r where "r = mj_coinbase_value job - fst (fst ep) - fst (snd ep)"
  define dn where "dn = donation_output F sha256 job r"
  have v: "0 \<le> mj_coinbase_value job" and c: "commit_added job \<Longrightarrow> script_text (mj_witness_commitment job)"
    using assms(2) by (auto simp: payouts_fit_def Let_def)
  have r: "0 \<le> r" using assms(2) by (auto simp: payouts_fit_def Let_def r_def ep_def)
  note d = donation_bounds [OF assms(1) r, of sha256 job, folded dn_def]
  have e: "0 \<le> fst (fst ep)" "0 \<le> fst (snd ep)" "script_text (snd (fst ep))" "script_text (snd (snd ep))" if "chain = ECash"
    using that assms(2) ecash_bounds [OF assms(1) v] by (auto simp: payouts_fit_def Let_def ep_def)
  have os: "session_outputs F sha256 chain job ms = [(r - fst dn, ms)]
      @ (if fst dn > 0 then [dn] else []) @ (if chain = ECash then [fst ep, snd ep] else [])
      @ (if commit_added job then [(0, mj_witness_commitment job)] else [])"
    by (simp add: session_outputs_def ep_def r_def dn_def case_prod_beta Let_def)
  have one: "\<exists>outs. hex_outputs [x] outs" if "0 \<le> fst x" "script_text (snd x)" for x
    using that by (cases x) (auto simp: script_text_def)
  have app: "\<exists>outs. hex_outputs (a @ b) outs" if "\<exists>outs. hex_outputs a outs" "\<exists>outs. hex_outputs b outs" for a b
    using that hex_outputs_append by blast
  have "\<exists>outs. hex_outputs (if fst dn > 0 then [dn] else []) outs"
    using one [of dn] d by auto
  moreover have "\<exists>outs. hex_outputs (if chain = ECash then [fst ep, snd ep] else []) outs"
    using app [OF one [of "fst ep"] one [of "snd ep"]] e by auto
  moreover have "\<exists>outs. hex_outputs (if commit_added job then [(0, mj_witness_commitment job)] else []) outs"
    using one [of "(0, mj_witness_commitment job)"] c by auto
  ultimately show "\<exists>outs. hex_outputs (session_outputs F sha256 chain job ms) outs"
    unfolding os using one [of "(r - fst dn, ms)"] d(2) assms(3) by (intro app) simp_all
  show "sum_list (map fst (session_outputs F sha256 chain job ms)) = mj_coinbase_value job"
    unfolding os using d(1) by (auto simp: r_def ep_def)
qed

lemma session_coinbase2_hex:
  fixes F :: fpu and sha256 :: hash
  assumes "keeps_sign F" "payouts_fit F sha256 chain job" "hex_text ms m" "ms \<noteq> []" "length m < 0xfd"
  shows "\<exists>outs. hex_outputs (session_outputs F sha256 chain job ms) outs \<and> list_all output_fits outs \<and>
    int (sum_list (map fst outs)) = mj_coinbase_value job \<and> length outs < 0xfd \<and>
    hex_text (build_session_coinbase2 F sha256 chain job ms)
      (le_bytes 4 (of_nat (2 ^ 32 - 1) :: u32) @ of_nat (length outs) # concat (map put_output outs) @ le_bytes 4 (0 :: u32))"
proof -
  let ?os = "session_outputs F sha256 chain job ms"
  have "script_text ms" using assms(3,5) by (auto simp: script_text_def)
  note o = session_outputs_hex [OF assms(1,2) this]
  obtain outs where outs: "hex_outputs ?os outs" using o(1) by blast
  have len: "length outs = length ?os" using outs by (simp add: hex_outputs_def list_all2_lengthD)
  have small: "length ?os \<le> 5" by (simp add: session_outputs_def Let_def case_prod_beta)
  have v: "mj_coinbase_value job < 2 ^ 64" and c: "chain = ECash \<longrightarrow> \<not> commit_added job"
    using assms(2) by (auto simp: payouts_fit_def Let_def)
  have "hex_text (build_session_coinbase2 F sha256 chain job ms)
      ([255, 255, 255, 255] @ [of_nat (length ?os)] @ concat (map put_output outs) @ [0, 0, 0, 0])"
    unfolding session_coinbase2_text [OF assms(4) c]
    using small hex_text_outputs [OF outs] by (intro hex_texts) simp
  moreover have "le_bytes 4 (of_nat (2 ^ 32 - 1) :: u32) = [255, 255, 255, 255]" "le_bytes 4 (0 :: u32) = [0, 0, 0, 0]"
    by (simp_all add: le_bytes_def upt_rec)
  ultimately show ?thesis
    using outs hex_outputs_fit [OF outs] v o(2) hex_outputs_sum [OF outs] small len by (intro exI [of _ outs]) simp
qed

definition aux_bytes :: "block_template \<Rightarrow> bytes \<Rightarrow> bytes" where
  "aux_bytes bt ax = (if aux_placeholder bt = [] then [] else ax)"

lemma length_placeholder: "aux_placeholder bt \<noteq> [] \<Longrightarrow> length (aux_placeholder bt) = 88"
  by (auto simp: aux_placeholder_def split: if_splits)

lemma splice_placeholder: "length p = 88 \<Longrightarrow> splice_commit (a @ p) c = a @ c"
  by (simp add: splice_commit_def)

text \<open>The first half with a commitment in the place of the placeholder.\<close>

definition with_commit :: "block_template \<Rightarrow> string \<Rightarrow> string \<Rightarrow> string" where
  "with_commit bt cb1 commit = (if aux_placeholder bt = [] then cb1 else splice_commit cb1 commit)"

text \<open>The push of the configured signature: its length and its characters, and nothing for an empty one.\<close>

definition signature_push :: "string \<Rightarrow> bytes" where
  "signature_push sig = (if sig = [] then [] else of_nat (length sig) # map byte_of_char sig)"

lemma coinbase1_hex:
  assumes "build_coinbase1 cc bt = Inr (Some cb1)" "cc_chain cc \<noteq> Zcash" "hex_text commit ax" "length ax = 44"
  shows "\<exists>hs h. encode_bip34_height (bt_height bt) = Inr hs \<and> hex_text hs h \<and>
    hex_text (with_commit bt cb1 commit)
      (le_bytes 4 (of_nat 1 :: u32) @ 1 # replicate 32 0 @ [255, 255, 255, 255] @
       of_nat (length (h @ signature_push (coinbaseSignature cc) @ aux_bytes bt ax) + en1_bytes + en2_bytes (cc_chain cc)) # h @ signature_push (coinbaseSignature cc) @ aux_bytes bt ax) \<and>
    length (h @ signature_push (coinbaseSignature cc) @ aux_bytes bt ax) + en1_bytes + en2_bytes (cc_chain cc) \<le> 0xfc"
proof -
  obtain hs ss where hs: "encode_bip34_height (bt_height bt) = Inr hs"
    and ss: "(if coinbaseSignature cc = [] then Inr [] else encode_push_ascii (coinbaseSignature cc)) = Inr ss"
    using assms(1) by (auto simp: build_coinbase1_def bind_res_Inr_iff)
  obtain h where h: "hex_text hs h" using hex_text_height [OF hs] by blast
  define sg where "sg = signature_push (coinbaseSignature cc)"
  have sg: "hex_text ss sg"
    using ss hex_text_push_ascii [of "coinbaseSignature cc" ss] hex_text_Nil
    by (auto simp: sg_def signature_push_def split: if_splits)
  define n where "n = length h + length sg + en1_bytes + en2_bytes (cc_chain cc) + length (aux_placeholder bt) div 2"
  define front where "front = le_hex_u32 1 @ ''01'' @ replicate 64 (CHR ''0'') @ ''ffffffff'' @ fmt_len n @ hs @ ss"
  have cb1: "cb1 = front @ aux_placeholder bt" and n: "n \<le> 0xfc"
    using assms(1,2) hex_text_even [OF h] hex_text_even [OF sg]
    by (auto simp: build_coinbase1_def hs ss Let_def n_def front_def split: if_splits)
  have f: "hex_text front (le_bytes 4 (1 :: u32) @ [1] @ replicate 32 0 @ [255, 255, 255, 255] @ [of_nat n] @ h @ sg)"
    unfolding front_def using n h sg by (intro hex_texts) simp_all
  have ab: "hex_text (with_commit bt cb1 commit) ((le_bytes 4 (1 :: u32) @ [1] @ replicate 32 0 @ [255, 255, 255, 255] @ [of_nat n] @ h @ sg) @ aux_bytes bt ax)"
    and len: "length (aux_placeholder bt) div 2 = length (aux_bytes bt ax)"
    using hex_text_append [OF f assms(3)] f assms(4) length_placeholder [of bt]
    by (auto simp: with_commit_def aux_bytes_def cb1 splice_placeholder)
  show ?thesis
    using ab len n hs h by (intro exI [of _ hs] exI [of _ h]) (simp add: n_def sg_def add_ac)
qed

section \<open>Properties\<close>

text \<open>
  C5. The coinbase a miner hashes, on every chain but Zcash, is read as the transaction it is meant to
  be: version 1, one input that spends nothing, whose script is the height, the configured signature,
  the merged-mining commitment and the two extranonces, its size byte right, and outputs that pay the
  miner first and add up to exactly the value of the template, with the witness commitment as the
  last output when there is one. It is asked that scripts are hex text of fewer than 253 bytes, that
  rounding keeps the sign, and that the amounts fit: the value is one of 64 bits and, on eCash, the
  payments to the fund and the stakers do not exceed it and there is no witness commitment (with one
  the code counts one output too few, lemma \<open>ecash_commitment_uncounted\<close>).
\<close>

theorem coinbase_transaction:
  fixes F :: fpu and sha256 :: hash
  assumes "build_coinbase1 cc bt = Inr (Some cb1)" "cc_chain cc \<noteq> Zcash"
    and "hex_text commit ax" "length ax = 44"
    and "hex_text extranonce en" "length en = en1_bytes + en2_bytes (cc_chain cc)"
    and "keeps_sign F" "payouts_fit F sha256 (cc_chain cc) job"
    and "hex_text ms m" "ms \<noteq> []" "length m < 0xfd"
  shows "\<exists>hs h outs bs. encode_bip34_height (bt_height bt) = Inr hs \<and> hex_text hs h \<and>
    hex_text (rebuild_coinbase (with_commit bt cb1 commit)
      (build_session_coinbase2 F sha256 (cc_chain cc) job ms) extranonce) bs \<and>
    read_tx bs = Some \<lparr>t_version = 1,
      t_inputs = [(replicate 32 0 @ [255, 255, 255, 255], h @ signature_push (coinbaseSignature cc) @ aux_bytes bt ax @ en, 2 ^ 32 - 1)],
      t_outputs = outs, t_locktime = 0\<rparr> \<and>
    int (sum_list (map fst outs)) = mj_coinbase_value job \<and>
    hex_outputs (session_outputs F sha256 (cc_chain cc) job ms) outs \<and>
    snd (hd outs) = m \<and>
    (commit_added job \<longrightarrow> fst (last outs) = 0 \<and> hex_text (mj_witness_commitment job) (snd (last outs)))"
proof -
  let ?os = "session_outputs F sha256 (cc_chain cc) job ms"
  obtain hs h where h: "encode_bip34_height (bt_height bt) = Inr hs" "hex_text hs h"
    and cb1: "hex_text (with_commit bt cb1 commit)
      (le_bytes 4 (of_nat 1 :: u32) @ 1 # replicate 32 0 @ [255, 255, 255, 255] @
       of_nat (length (h @ signature_push (coinbaseSignature cc) @ aux_bytes bt ax) + en1_bytes + en2_bytes (cc_chain cc)) # h @ signature_push (coinbaseSignature cc) @ aux_bytes bt ax)"
    and small: "length (h @ signature_push (coinbaseSignature cc) @ aux_bytes bt ax) + en1_bytes + en2_bytes (cc_chain cc) \<le> 0xfc"
    using coinbase1_hex [OF assms(1-4)] by blast
  obtain outs where o: "hex_outputs ?os outs" "list_all output_fits outs"
      "int (sum_list (map fst outs)) = mj_coinbase_value job" "length outs < 0xfd"
    and cb2: "hex_text (build_session_coinbase2 F sha256 (cc_chain cc) job ms)
      (le_bytes 4 (of_nat (2 ^ 32 - 1) :: u32) @ of_nat (length outs) # concat (map put_output outs) @ le_bytes 4 (0 :: u32))"
    using session_coinbase2_hex [OF assms(7-11)] by blast
  let ?in = "(replicate 32 0 @ [255, 255, 255, 255], h @ signature_push (coinbaseSignature cc) @ aux_bytes bt ax @ en, 2 ^ 32 - 1) :: tx_in"
  let ?t = "\<lparr>t_version = 1, t_inputs = [?in], t_outputs = outs, t_locktime = 0\<rparr>"
  have "tx_fits ?t" using o(2,4) small assms(6) by (simp add: tx_fits_def input_fits_def)
  then have "read_tx (put_tx ?t) = Some ?t" by (rule read_put_tx)
  moreover have "hex_text (rebuild_coinbase (with_commit bt cb1 commit)
      (build_session_coinbase2 F sha256 (cc_chain cc) job ms) extranonce) (put_tx ?t)"
    using hex_text_append [OF cb1 hex_text_append [OF assms(5) cb2]] assms(6)
    by (simp add: rebuild_coinbase_def put_tx_def put_input_def add_ac)
  moreover have "snd (hd outs) = m"
    using o(1) assms(9) by (auto simp: session_outputs_def Let_def case_prod_beta hex_text_def)
  moreover have "fst (last outs) = 0 \<and> hex_text (mj_witness_commitment job) (snd (last outs))" if "commit_added job"
  proof -
    have l: "last ?os = (0, mj_witness_commitment job)" "?os \<noteq> []"
      using that by (simp_all add: session_outputs_def Let_def case_prod_beta)
    have "outs \<noteq> []" using o(1) l(2) by (auto simp: hex_outputs_def)
    then have "(\<lambda>(v, s) (n, b). 0 \<le> v \<and> n = nat v \<and> hex_text s b \<and> length b < 0xfd) (last ?os) (last outs)"
      using o(1) l(2) by (auto simp: hex_outputs_def list_all2_conv_all_nth last_conv_nth)
    then show ?thesis by (auto simp: l(1) split: prod.splits)
  qed
  ultimately show ?thesis using h o(1,3) by blast
qed

text \<open>A template, a configuration and a job for the examples.\<close>

definition sample_template :: block_template where
  "sample_template = empty_template\<lparr>bt_height := 100, bt_coinbasevalue := 5000\<rparr>"

definition sample_job :: mining_job where
  "sample_job = (make_job default_coin sample_template [] [] [])\<lparr>mj_segwit_active := False\<rparr>"

lemma sample_coinbase1: "\<exists>cb1. build_coinbase1 default_coin sample_template = Inr (Some cb1)"
proof -
  have "encode_bip34_height 100 = Inr (hex_of_byte 1 @ bytes_to_hex [100])"
    by (simp add: encode_bip34_height_def le_min_bytes.simps drop_bit_eq_div)
  then show ?thesis
    by (simp add: build_coinbase1_def sample_template_def empty_template_def default_coin_def aux_placeholder_def
        encode_push_ascii_def encode_push_bytes_def en1_bytes_def en2_bytes_def)
qed

lemma sample_fits: "payouts_fit exact_fpu Inr (cc_chain default_coin) sample_job"
  by (simp add: payouts_fit_def sample_job_def make_job_def default_coin_def sample_template_def empty_template_def commit_added_def)

lemma coinbase_transaction_witness:
  "\<exists>cb1 outs bs. build_coinbase1 default_coin sample_template = Inr (Some cb1) \<and>
    hex_text (rebuild_coinbase (with_commit sample_template cb1 (bytes_to_hex (replicate 44 0)))
      (build_session_coinbase2 exact_fpu Inr (cc_chain default_coin) sample_job ''51'') (bytes_to_hex (replicate 12 0))) bs \<and>
    map_option t_outputs (read_tx bs) = Some outs \<and> int (sum_list (map fst outs)) = mj_coinbase_value sample_job \<and>
    snd (hd outs) = [0x51]"
proof -
  obtain cb1 where cb1: "build_coinbase1 default_coin sample_template = Inr (Some cb1)" using sample_coinbase1 by blast
  have en: "length (replicate 12 (0 :: u8)) = en1_bytes + en2_bytes (cc_chain default_coin)"
    by (simp only: length_replicate) (simp add: en1_bytes_def en2_bytes_def default_coin_def)
  have z: "cc_chain default_coin \<noteq> Zcash" by (simp add: default_coin_def)
  have ms: "hex_text ''51'' [0x51]" by (simp add: hex_text_def hex_to_bytes_def hex_nibble_def Let_def)
  show ?thesis
    using coinbase_transaction [OF cb1 z hex_text_bytes length_replicate hex_text_bytes en keeps_sign_exact sample_fits ms]
      cb1 by (auto; metis option.map(2) transaction.select_convs(3))
qed

section \<open>The witness form\<close>

lemma hex_text_take_drop: "hex_text s bs \<Longrightarrow> hex_text (take (2 * n) s) (take n bs) \<and> hex_text (drop (2 * n) s) (drop n bs)"
proof (induction n arbitrary: s bs)
  case (Suc n)
  show ?case
  proof (cases s rule: hex_pairs.cases)
    case (1 a b s')
    obtain hi lo bs' where "hex_nibble a = Inr hi" "hex_nibble b = Inr lo" "hex_text s' bs'" and bs: "bs = (push_bit 4 hi OR lo) # bs'"
      using Suc.prems by (auto simp: 1 hex_text_def hex_to_bytes_def bind_res_Inr_iff split: if_splits)
    then have "hex_text [a, b] [push_bit 4 hi OR lo]" by (simp add: hex_text_def hex_to_bytes_def)
    with Suc.IH [OF \<open>hex_text s' bs'\<close>] show ?thesis
      using hex_text_append [of "[a, b]" "[push_bit 4 hi OR lo]" "take (2 * n) s'" "take n bs'"] by (simp add: 1 bs)
  qed (use Suc.prems hex_text_even [OF Suc.prems] in \<open>simp_all add: hex_text_Nil\<close>)
qed (simp add: hex_text_Nil)

text \<open>A reader that looks at nothing behind what it consumes.\<close>

definition reads_prefix :: "(bytes \<Rightarrow> ('a \<times> bytes) option) \<Rightarrow> bool" where
  "reads_prefix get \<longleftrightarrow> (\<forall>bs x rest. get bs = Some (x, rest) \<longrightarrow>
     (\<exists>used. bs = used @ rest \<and> (\<forall>r. get (used @ r) = Some (x, r))))"

lemma reads_prefixD:
  "reads_prefix get \<Longrightarrow> get bs = Some (x, rest) \<Longrightarrow> \<exists>used. bs = used @ rest \<and> (\<forall>r. get (used @ r) = Some (x, r))"
  by (simp add: reads_prefix_def)

lemma reads_prefix_return: "reads_prefix (\<lambda>bs. Some (x, bs))"
  by (simp add: reads_prefix_def)

lemma reads_prefix_bind:
  assumes "reads_prefix get" "\<And>x. reads_prefix (f x)"
  shows "reads_prefix (\<lambda>bs. case get bs of None \<Rightarrow> None | Some (x, bs) \<Rightarrow> f x bs)"
  unfolding reads_prefix_def
proof (intro allI impI)
  fix bs y rest
  assume "(case get bs of None \<Rightarrow> None | Some (x, bs) \<Rightarrow> f x bs) = Some (y, rest)"
  then obtain x mid where g: "get bs = Some (x, mid)" and f: "f x mid = Some (y, rest)" by (auto split: option.splits)
  obtain u where "bs = u @ mid" "\<forall>r. get (u @ r) = Some (x, r)" using reads_prefixD [OF assms(1) g] by blast
  moreover obtain v where "mid = v @ rest" "\<forall>r. f x (v @ r) = Some (y, r)"
    using reads_prefixD [OF assms(2) f] by blast
  ultimately show "\<exists>used. bs = used @ rest \<and>
      (\<forall>r. (case get (used @ r) of None \<Rightarrow> None | Some (x, bs) \<Rightarrow> f x bs) = Some (y, r))"
    by (intro exI [of _ "u @ v"]) simp
qed

lemma reads_prefix_at: "reads_prefix (split_at n)"
  unfolding reads_prefix_def
proof (intro allI impI)
  fix bs x rest
  assume "split_at n bs = Some (x, rest)"
  then have "n \<le> length bs" "x = take n bs" "rest = drop n bs" by (auto simp: split_at_def split: if_splits)
  then show "\<exists>used. bs = used @ rest \<and> (\<forall>r. split_at n (used @ r) = Some (x, r))"
    by (intro exI [of _ "take n bs"]) simp
qed

lemma reads_prefix_number: "reads_prefix (split_number n)"
  unfolding split_number_def by (intro reads_prefix_bind reads_prefix_at reads_prefix_return)

lemma reads_prefix_size: "reads_prefix split_size"
  unfolding reads_prefix_def
proof (intro allI impI)
  fix bs n rest
  assume s: "split_size bs = Some (n, rest)"
  then obtain b bs' where b: "bs = b # bs'" by (cases bs) auto
  show "\<exists>used. bs = used @ rest \<and> (\<forall>r. split_size (used @ r) = Some (n, r))"
  proof (cases "b < 0xfd")
    case True
    then show ?thesis using s by (intro exI [of _ "[b]"]) (simp add: b)
  next
    case False
    define k :: nat where "k = (if b = 0xfd then 2 else if b = 0xfe then 4 else 8)"
    have "split_number k bs' = Some (n, rest)" using s False by (auto simp: b k_def split: if_splits)
    then obtain u where "bs' = u @ rest" "\<forall>r. split_number k (u @ r) = Some (n, r)"
      using reads_prefixD [OF reads_prefix_number] by blast
    then show ?thesis using False by (intro exI [of _ "b # u"]) (auto simp: b k_def)
  qed
qed

lemma reads_prefix_many:
  assumes "reads_prefix get"
  shows "reads_prefix (split_many get n)"
proof (induction n)
  case 0
  show ?case using reads_prefix_return [of "[]"] by (simp add: reads_prefix_def)
next
  case (Suc n)
  have "reads_prefix (\<lambda>bs. case get bs of None \<Rightarrow> None | Some (x, bs) \<Rightarrow>
      case split_many get n bs of None \<Rightarrow> None | Some (xs, bs) \<Rightarrow> Some (x # xs, bs))"
    by (intro reads_prefix_bind assms Suc reads_prefix_return)
  then show ?case by (simp only: reads_prefix_def split_many.simps)
qed

lemma reads_prefix_list: "reads_prefix get \<Longrightarrow> reads_prefix (split_list get)"
  unfolding split_list_def by (intro reads_prefix_bind reads_prefix_size reads_prefix_many)

lemma reads_prefix_script: "reads_prefix split_script"
  unfolding split_script_def by (intro reads_prefix_bind reads_prefix_size reads_prefix_at)

lemma reads_prefix_input: "reads_prefix split_input"
  unfolding split_input_def by (intro reads_prefix_bind reads_prefix_at reads_prefix_script reads_prefix_number reads_prefix_return)

lemma reads_prefix_output: "reads_prefix split_output"
  unfolding split_output_def by (intro reads_prefix_bind reads_prefix_script reads_prefix_number reads_prefix_return)

text \<open>
  The witness form of a coinbase is the same transaction with one witness item of 32 zero bytes:
  whatever is read as a transaction of one input, the result of \<open>segwitify_coinbase\<close> on it is read, in the witness format, as that transaction with that stack.
\<close>

theorem witness_form:
  assumes "hex_text cb bs" "read_tx bs = Some t" "length (t_inputs t) = 1"
  shows "\<exists>bs'. hex_text (segwitify_coinbase cb) bs' \<and> read_witness_tx bs' = Some (t, [[replicate 32 0]])"
proof -
  note r = assms(2) [unfolded read_tx_def]
  obtain v b1 where n: "split_number 4 bs = Some (v, b1)" using r by (cases "split_number 4 bs") auto
  obtain ins b2 where i': "split_list split_input b1 = Some (ins, b2)"
    using r by (cases "split_list split_input b1") (auto simp: n)
  obtain outs b3 where o': "split_list split_output b2 = Some (outs, b3)"
    using r by (cases "split_list split_output b2") (auto simp: n i')
  obtain k b4 where l': "split_number 4 b3 = Some (k, b4)"
    using r by (cases "split_number 4 b3") (auto simp: n i' o')
  have t: "b4 = [] \<and> t = \<lparr>t_version = v, t_inputs = ins, t_outputs = outs, t_locktime = k\<rparr>"
    using r by (auto simp: n i' o' l' split: if_splits)
  have v: "split_number 4 bs = Some (v, b1)" "v = t_version t"
    and i: "split_list split_input b1 = Some (t_inputs t, b2)" and o: "split_list split_output b2 = Some (t_outputs t, b3)"
    and l: "split_number 4 b3 = Some (t_locktime t, [])"
    using n i' o' l' t by simp_all
  obtain ui where ui: "b1 = ui @ b2" "\<And>r. split_list split_input (ui @ r) = Some (t_inputs t, r)"
    using reads_prefixD [OF reads_prefix_list [OF reads_prefix_input] i] by blast
  obtain uo where uo: "b2 = uo @ b3" "\<And>r. split_list split_output (uo @ r) = Some (t_outputs t, r)"
    using reads_prefixD [OF reads_prefix_list [OF reads_prefix_output] o] by blast
  have b3: "length b3 = 4" using l by (auto simp: split_number_def split_at_def split: option.splits if_splits)
  have b1: "4 \<le> length bs" "b1 = drop 4 bs" "v = le_value (take 4 bs)"
    using v(1) by (auto simp: split_number_def split_at_def split: option.splits if_splits)
  define mid where "mid = ui @ uo"
  have bs: "bs = take 4 bs @ mid @ b3" using b1(2) ui(1) uo(1) append_take_drop_id [of 4 bs] by (simp add: mid_def)
  have lb: "length bs = 8 + length mid" by (subst bs) (use b1(1) b3 in simp)
  have lc: "length cb = 2 * length bs" by (rule hex_text_even [OF assms(1)])
  have front: "hex_text (take 8 cb) (take 4 bs)" "hex_text (drop 8 cb) (drop 4 bs)"
    using hex_text_take_drop [OF assms(1), of 4] by simp_all
  have middle: "hex_text (take (length cb - 16) (drop 8 cb)) mid"
    using hex_text_take_drop [OF front(2), of "length mid"] ui(1) uo(1) b1(2) lc lb by (simp add: mid_def)
  have "drop 4 bs = mid @ b3" using b1(2) ui(1) uo(1) by (simp add: mid_def)
  then have "drop (4 + length mid) bs = b3" by (metis append_eq_conv_conj drop_drop add.commute)
  moreover have "2 * (4 + length mid) = length cb - 8" using lc lb by simp
  ultimately have lock: "hex_text (drop (length cb - 8) cb) b3"
    using hex_text_take_drop [OF assms(1), of "4 + length mid"] by (simp only:)
  define bs' where "bs' = take 4 bs @ [0, 1] @ mid @ [1] @ [32] @ replicate 32 0 @ b3"
  have "hex_text (segwitify_coinbase cb) bs'"
  proof -
    have "segwitify_coinbase cb = take 8 cb @ ''0001'' @ take (length cb - 16) (drop 8 cb) @ ''01'' @ ''20''
        @ replicate 64 (CHR ''0'') @ drop (length cb - 8) cb"
      using lc lb by (simp add: segwitify_coinbase_def)
    then show ?thesis unfolding bs'_def by (simp only:) (intro hex_texts front middle lock)
  qed
  moreover have "read_witness_tx bs' = Some (t, [[replicate 32 0]])"
  proof -
    have n: "split_number 4 (take 4 bs @ r) = Some (v, r)" for r using b1(1,3) by simp
    have m: "split_at 2 ([0, 1] @ r) = Some ([0, 1], r)" for r by (rule split_at_append) simp
    have s: "split_many (split_list split_script) 1 ([1] @ [32] @ replicate 32 0 @ r) = Some ([[replicate 32 0]], r)" for r
      using script_fmt.items [of "[replicate 32 0]" r] by (simp add: put_script_def)
    show ?thesis
      unfolding bs'_def read_witness_tx_def
      by (simp only: n m mid_def append_assoc ui(2) uo(2) s assms(3) l v(2) option.case prod.case if_True) simp
  qed
  ultimately show ?thesis by blast
qed

lemma witness_form_witness:
  "\<exists>bs'. hex_text (segwitify_coinbase (bytes_to_hex (put_tx
      \<lparr>t_version = 1, t_inputs = [(replicate 36 0, [1, 100], 5)], t_outputs = [(5000, [0x51])], t_locktime = 0\<rparr>))) bs' \<and>
    map_option snd (read_witness_tx bs') = Some [[replicate 32 0]]"
proof -
  have "tx_fits \<lparr>t_version = 1, t_inputs = [(replicate 36 0, [1, 100], 5)], t_outputs = [(5000, [0x51])], t_locktime = 0\<rparr>"
    unfolding tx_fits_def input_fits_def output_fits_def by (simp only: list.pred_inject prod.case length_replicate transaction.simps) simp
  note read_put_tx [OF this]
  from witness_form [OF hex_text_bytes this] show ?thesis by auto
qed

section \<open>Merged mining\<close>

lemma hex_text_unique: "hex_text s a \<Longrightarrow> hex_text s b \<Longrightarrow> a = b"
  by (simp add: hex_text_def)

lemma doge_coinbase_hex:
  assumes "build_doge_coinbase F height sig value ms ds p = Inr cb" "cb \<noteq> []"
    and "hex_text ms m" "length m < 0xfd" "ds \<noteq> [] \<Longrightarrow> script_text ds" "0 \<le> value" "value < 2 ^ 64"
  shows "\<exists>hs h sg t. encode_bip34_height height = Inr hs \<and> hex_text hs h \<and> hex_text cb (put_tx t) \<and> tx_fits t \<and>
    t_inputs t = [(replicate 32 0 @ [255, 255, 255, 255], h @ sg, 2 ^ 32 - 1)] \<and>
    snd (hd (t_outputs t)) = m \<and> int (sum_list (map fst (t_outputs t))) = value"
proof -
  obtain hs ss where hs: "encode_bip34_height height = Inr hs"
    and ss: "(if sig \<noteq> [] then encode_push_ascii sig else Inr []) = Inr ss"
    using assms(1) by (auto simp: build_doge_coinbase_def bind_res_Inr_iff)
  obtain h where h: "hex_text hs h" using hex_text_height [OF hs] by blast
  obtain sg where sg: "hex_text ss sg"
    using ss hex_text_push_ascii [of sig ss] hex_text_Nil by (auto split: if_splits)
  define d where "d = (if p > 0 \<and> ds \<noteq> [] then (let d = percent_of F value p in if d < 0 \<or> d > value then 0 else d) else 0)"
  define os where "os = (value - d, ms) # (if d > 0 \<and> ds \<noteq> [] then [(d, ds)] else [])"
  have d: "0 \<le> d" "d \<le> value" "0 < d \<Longrightarrow> ds \<noteq> []" using assms(6) by (auto simp: d_def Let_def)
  have n: "length h + length sg \<le> 0xfc" "length (hs @ ss) div 2 = length h + length sg"
    using assms(1,2) hex_text_even [OF h] hex_text_even [OF sg]
    by (auto simp: build_doge_coinbase_def hs ss Let_def split: if_splits)
  have cb: "cb = ''01000000'' @ ''01'' @ replicate 64 (CHR ''0'') @ ''ffffffff'' @ fmt_len (length h + length sg) @ (hs @ ss)
      @ ''ffffffff'' @ fmt_len (length os) @ concat (map (\<lambda>(v, s). append_output v s) os) @ ''00000000''"
  proof -
    have "length os = (if d > 0 \<and> ds \<noteq> [] then 2 else 1)"
      "concat (map (\<lambda>(v, s). append_output v s) os) =
        append_output (value - d) ms @ (if d > 0 \<and> ds \<noteq> [] then append_output d ds else [])"
      by (auto simp: os_def)
    then show ?thesis using assms(1,2) n
      by (simp add: build_doge_coinbase_def hs ss d_def [symmetric] Let_def split: if_splits)
  qed
  obtain outs where o: "hex_outputs os outs" and hd: "snd (hd outs) = m"
  proof (cases "d > 0")
    case True
    then obtain b where "hex_text ds b" "length b < 0xfd" using assms(5) d(3) by (auto simp: script_text_def)
    with True d(1,2) assms(3,4) d(3) show ?thesis by (intro that [of "[(nat (value - d), m), (nat d, b)]"]) (auto simp: os_def)
  next
    case False
    with d(1,2) assms(3,4) show ?thesis by (intro that [of "[(nat (value - d), m)]"]) (auto simp: os_def)
  qed
  have s: "sum_list (map fst os) = value" using d(1,3) by (cases "d > 0") (auto simp: os_def)
  have lo: "length outs = length os" "length os \<le> 2"
    using o by (simp add: hex_outputs_def list_all2_lengthD) (simp add: os_def)
  let ?t = "\<lparr>t_version = 1, t_inputs = [(replicate 32 0 @ [255, 255, 255, 255], h @ sg, 2 ^ 32 - 1)], t_outputs = outs, t_locktime = 0\<rparr>"
  have lits: "le_bytes 4 (of_nat (2 ^ 32 - 1) :: u32) = [255, 255, 255, 255]" "le_bytes 4 (of_nat 0 :: u32) = [0, 0, 0, 0]"
    "le_bytes 4 (of_nat 1 :: u32) = [1, 0, 0, 0]" "le_bytes 4 (4294967295 :: u32) = [255, 255, 255, 255]"
    by (simp_all add: le_bytes_def upt_rec)
  have "hex_text cb ([1, 0, 0, 0] @ [1] @ replicate 32 0 @ [255, 255, 255, 255] @ [of_nat (length h + length sg)] @ (h @ sg)
      @ [255, 255, 255, 255] @ [of_nat (length os)] @ concat (map put_output outs) @ [0, 0, 0, 0])"
    unfolding cb using n(1) lo(2) by (intro hex_texts h sg hex_text_outputs [OF o]) simp_all
  also have "[1, 0, 0, 0] @ [1] @ replicate 32 0 @ [255, 255, 255, 255] @ [of_nat (length h + length sg)] @ (h @ sg)
      @ [255, 255, 255, 255] @ [of_nat (length os)] @ concat (map put_output outs) @ [0, 0, 0, 0] = put_tx ?t"
    unfolding put_tx_def transaction.simps lits put_input_def lo(1) [symmetric] by (simp add: lits del: of_nat_add)
  finally have "hex_text cb (put_tx ?t)" .
  moreover have "tx_fits ?t"
    using hex_outputs_fit [OF o] s assms(7) lo n(1) unfolding tx_fits_def input_fits_def by simp
  ultimately show ?thesis using hs h hd hex_outputs_sum [OF o] s by (intro exI [of _ hs] exI [of _ h] exI [of _ sg] exI [of _ ?t]) simp
qed

text \<open>
  Merged mining: the commitment a session splices into its coinbase is the magic, the hash of the
  Dogecoin block it will submit, in display order, and a tree of one leaf; that block's header names
  the id of its coinbase as its only transaction, and that coinbase is read as a transaction that
  pays the miner's Dogecoin script first and the whole value of the template.
\<close>

theorem aux_commitment:
  assumes "build_session_aux F sha256 coin doge_script job = Inr (Some s)"
    and "\<And>x. length (sha256 x) = 32"
    and "hex_text doge_script m" "length m < 0xfd" "0 \<le> aux_coinbasevalue job" "aux_coinbasevalue job < 2 ^ 64"
  shows "\<exists>hb cb t. hex_text (sa_doge_header s) hb \<and> length hb = 80 \<and>
    hex_text (sa_doge_coinbase s) cb \<and> take 32 (drop 36 hb) = sha256d sha256 cb \<and>
    hex_text (sa_aux_commit s) ([0xfa, 0xbe, 0x6d, 0x6d] @ rev (sha256d sha256 hb) @ [1, 0, 0, 0] @ [0, 0, 0, 0]) \<and>
    sa_doge_block_hash s = bytes_to_hex (rev (sha256d sha256 hb)) \<and>
    read_tx cb = Some t \<and> snd (hd (t_outputs t)) = m \<and>
    int (sum_list (map fst (t_outputs t))) = aux_coinbasevalue job"
proof -
  define ds where "ds = (if ax_donationPercent (cc_aux coin) > 0 \<and> ax_donationAddress (cc_aux coin) \<noteq> []
    then (case decode (\<lambda>b. Inr (sha256 b)) (ax_donationAddress (cc_aux coin)) of Inr d \<Rightarrow> script_pubkey_hex d | Inl _ \<Rightarrow> []) else [])"
  have "\<not> (\<not> aux_enabled job \<or> doge_script = [])" "\<not> (length (aux_prevhash job) \<noteq> 64 \<or> length (aux_bits job) \<noteq> 8)"
    "\<not> length (aux_target job) \<noteq> 64"
    using assms(1) by (auto simp: build_session_aux_def split: if_splits)
  note g = this
  obtain dc where dc: "build_doge_coinbase F (aux_height job) (coinbaseSignature coin) (aux_coinbasevalue job)
      doge_script ds (ax_donationPercent (cc_aux coin)) = Inr dc" "dc \<noteq> []"
    using assms(1) unfolding build_session_aux_def Let_def if_not_P [OF g(1)] if_not_P [OF g(2)] if_not_P [OF g(3)] ds_def [symmetric]
    by (auto simp: bind_res_Inr_iff split: if_splits)
  have sds: "script_text ds" if "ds \<noteq> []"
    using that script_text_decoded by (auto simp: ds_def split: if_splits sum.splits)
  obtain t where t: "hex_text dc (put_tx t)" "tx_fits t" "snd (hd (t_outputs t)) = m"
      "int (sum_list (map fst (t_outputs t))) = aux_coinbasevalue job"
    using doge_coinbase_hex [OF dc assms(3,4) sds assms(5,6)] by blast
  define header where "header = le_hex_u32 (aux_version job) @ byte_reverse_hex (aux_prevhash job)
    @ bytes_to_hex (sha256d sha256 (put_tx t)) @ le_hex_u32 (aux_curtime job) @ byte_reverse_hex (aux_bits job) @ ''00000000''"
  obtain hb where hb: "hex_text header hb" and s: "s = \<lparr>sa_aux_target = aux_target job,
      sa_aux_commit = ''fabe6d6d'' @ byte_reverse_hex (bytes_to_hex (sha256d sha256 hb)) @ ''01000000'' @ ''00000000'',
      sa_doge_coinbase = dc, sa_doge_header = header, sa_doge_block_hash = byte_reverse_hex (bytes_to_hex (sha256d sha256 hb)),
      sa_aux_height = aux_height job, sa_aux_value = aux_coinbasevalue job\<rparr>"
    using assms(1) t(1) dc unfolding build_session_aux_def Let_def if_not_P [OF g(1)] if_not_P [OF g(2)] if_not_P [OF g(3)] ds_def [symmetric]
    by (auto simp: bind_res_Inr_iff compute_coinbase_txid_le_def hex_text_def header_def)
  have sha: "length (sha256d sha256 x) = 32" for x using assms(2) by (simp add: sha256d_def)
  have len: "length (le_hex_u32 v) = 8" for v by (simp add: le_hex_u32_bytes)
  have "length header = 160" using g len sha by (simp add: header_def)
  then have "length hb = 80" using hex_text_even [OF hb] by simp
  moreover have "take 32 (drop 36 hb) = sha256d sha256 (put_tx t)"
  proof -
    have "take 64 (drop 72 header) = bytes_to_hex (sha256d sha256 (put_tx t))"
      using g len sha by (simp add: header_def)
    then show ?thesis
      using hex_text_take_drop [of "drop 72 header" "drop 36 hb" 32] hex_text_take_drop [OF hb, of 36]
        hex_text_unique [OF _ hex_text_bytes] by auto
  qed
  moreover have "hex_text (sa_aux_commit s) ([0xfa, 0xbe, 0x6d, 0x6d] @ rev (sha256d sha256 hb) @ [1, 0, 0, 0] @ [0, 0, 0, 0])"
    unfolding s session_aux_job.simps byte_reverse_bytes_to_hex by (intro hex_texts)
  ultimately show ?thesis using hb t(1,3,4) read_put_tx [OF t(2)]
    by (intro exI [of _ hb] exI [of _ "put_tx t"] exI [of _ t]) (simp add: s)
qed

definition sample_aux_job :: mining_job where
  "sample_aux_job = sample_job\<lparr>aux_enabled := True, aux_version := 0x620104, aux_prevhash := bytes_to_hex (replicate 32 7),
     aux_bits := bytes_to_hex (replicate 4 1), aux_target := bytes_to_hex (replicate 32 9), aux_height := 100,
     aux_coinbasevalue := 1000\<rparr>"

lemma session_aux_ok:
  assumes "aux_enabled job" "ms \<noteq> []" "aux_prevhash job = bytes_to_hex pb" "length pb = 32"
    "aux_bits job = bytes_to_hex bb" "length bb = 4" "length (aux_target job) = 64"
    "ax_donationAddress (cc_aux coin) = []"
    "build_doge_coinbase F (aux_height job) (coinbaseSignature coin) (aux_coinbasevalue job) ms []
      (ax_donationPercent (cc_aux coin)) = Inr dc" "dc \<noteq> []" "hex_text dc c"
  shows "\<exists>s. build_session_aux F sha256 coin ms job = Inr (Some s)"
proof -
  have "hex_text (le_hex_u32 (aux_version job) @ byte_reverse_hex (aux_prevhash job) @ bytes_to_hex (sha256d sha256 c)
      @ le_hex_u32 (aux_curtime job) @ byte_reverse_hex (aux_bits job) @ ''00000000'')
    (le_bytes 4 (aux_version job) @ rev pb @ sha256d sha256 c @ le_bytes 4 (aux_curtime job) @ rev bb @ [0, 0, 0, 0])"
    unfolding assms(3,5) byte_reverse_bytes_to_hex by (intro hex_texts)
  then show ?thesis
    using assms by (auto simp: build_session_aux_def Let_def compute_coinbase_txid_le_def hex_text_def)
qed

lemma sample_doge: "\<exists>cb. build_doge_coinbase F 100 [] 1000 ''51'' [] 0 = Inr cb \<and> cb \<noteq> []"
proof -
  have "encode_bip34_height 100 = Inr (hex_of_byte 1 @ bytes_to_hex [100])"
    by (simp add: encode_bip34_height_def le_min_bytes.simps drop_bit_eq_div)
  then show ?thesis by (simp add: build_doge_coinbase_def Let_def)
qed

lemma sample_script: "hex_text ''51'' [0x51]"
  by (simp add: hex_text_def hex_to_bytes_def hex_nibble_def Let_def)

lemma aux_commitment_witness:
  "\<exists>s cb t. build_session_aux exact_fpu (\<lambda>_. replicate 32 5) (default_coin\<lparr>coinbaseSignature := []\<rparr>) ''51'' sample_aux_job = Inr (Some s) \<and>
    hex_text (sa_doge_coinbase s) cb \<and> read_tx cb = Some t \<and> snd (hd (t_outputs t)) = [0x51] \<and>
    int (sum_list (map fst (t_outputs t))) = 1000"
proof -
  obtain dc where dc: "build_doge_coinbase exact_fpu 100 [] 1000 ''51'' [] 0 = Inr dc" "dc \<noteq> []" using sample_doge by blast
  have l: "length (replicate 32 (7 :: u8)) = 32" "length (replicate 4 (1 :: u8)) = 4" "length (bytes_to_hex (replicate 32 9)) = 64"
    by (simp_all only: length_replicate length_bytes_to_hex)
  have h: "aux_height sample_aux_job = 100" "aux_coinbasevalue sample_aux_job = 1000" "aux_enabled sample_aux_job"
    "aux_prevhash sample_aux_job = bytes_to_hex (replicate 32 7)" "aux_bits sample_aux_job = bytes_to_hex (replicate 4 1)"
    "aux_target sample_aux_job = bytes_to_hex (replicate 32 9)"
    by (simp_all add: sample_aux_job_def)
  let ?coin = "default_coin\<lparr>coinbaseSignature := []\<rparr>"
  have c: "coinbaseSignature ?coin = []" "ax_donationAddress (cc_aux ?coin) = []" "ax_donationPercent (cc_aux ?coin) = 0"
    by (simp_all add: default_coin_def default_aux_def)
  have one: "length [0x51 :: u8] < 0xfd" by simp
  obtain hs h' sg t where "hex_text dc (put_tx t)"
    using doge_coinbase_hex [OF dc sample_script one] by (auto simp: one)
  then have "\<exists>s. build_session_aux exact_fpu (\<lambda>_. replicate 32 5) ?coin ''51'' sample_aux_job = Inr (Some s)"
    by (intro session_aux_ok [where dc = dc and c = "put_tx t" and pb = "replicate 32 7" and bb = "replicate 4 1"])
      (use dc l h c in simp_all)
  then obtain s where s: "build_session_aux exact_fpu (\<lambda>_. replicate 32 5) ?coin ''51'' sample_aux_job = Inr (Some s)" by blast
  have "length (replicate 32 (5 :: u8)) = 32" by (simp only: length_replicate)
  from aux_commitment [OF s this sample_script one] s h(2) show ?thesis by auto
qed

end
