(* ===== verification/StratifierFacts.thy ===== *)
theory StratifierFacts
  imports Stratifier
begin

text \<open>
  What the stratifier promises: the job an update publishes, its callbacks and its window; and, over
  any sequence of operations, that a share is admitted once while the chain tip stays and that the
  tip, the clean flags and the best share of the round agree.
\<close>

section \<open>Publishing\<close>

lemma latest_push [simp]: "window_latest (window_push i j w) = Some j"
  by (simp add: window_latest_def window_push_def Let_def)

lemma find_push [simp]: "window_find i (window_push i j w) = Some j"
  by (simp add: window_find_def window_push_def Let_def)

lemma find_push_other: "i' \<noteq> i \<Longrightarrow> window_find i' (window_push i j w) = Some k \<Longrightarrow> window_find i' w = Some k"
  by (cases "jw_items w")
    (auto simp: window_find_def window_push_def Let_def find_rev_append [of _ "[_]", simplified] split: if_splits option.splits)

text \<open>The job a template becomes, before its notify text.\<close>

definition job_of :: "stratifier \<Rightarrow> u64 \<Rightarrow> block_template \<Rightarrow> string \<Rightarrow> string list \<Rightarrow> mining_job" where
  "job_of s rng bt cb1 branch =
     (let cc = sf_coin s;
          mj = make_job cc bt (if cc_chain cc = Zcash then generate_job_id_32 rng (sf_job_counter s)
                 else generate_job_id rng (sf_job_counter s)) cb1 branch
      in (if cc_chain cc = Zcash
          then mj\<lparr>mj_zcash_full_coinbase_hex := bt_zcash_coinbase_data bt,
                  mj_zcash_merkle_root_le := byte_reverse_hex (bt_zcash_merkle_root bt)\<rparr>
          else mj)\<lparr>mj_clean_jobs := (bt_previousblockhash bt \<noteq> sf_last_prevhash s)\<rparr>)"

definition published :: "stratifier \<Rightarrow> mining_job \<Rightarrow> mining_job" where
  "published s mj = mj\<lparr>mj_notify_prefix := fst (notify_parts (sf_coin s) mj), mj_notify_suffix := snd (notify_parts (sf_coin s) mj)\<rparr>"

lemma job_of_fields [simp]:
  "mj_previousblockhash (job_of s rng bt cb1 branch) = bt_previousblockhash bt"
  "mj_clean_jobs (job_of s rng bt cb1 branch) \<longleftrightarrow> bt_previousblockhash bt \<noteq> sf_last_prevhash s"
  "mj_coinbase1 (job_of s rng bt cb1 branch) = cb1"
  "mj_merkle_branch_le (job_of s rng bt cb1 branch) = branch"
  "mj_coinbase_value (job_of s rng bt cb1 branch) = bt_coinbasevalue bt"
  "mj_total_fees (job_of s rng bt cb1 branch) = sum_list (map tx_fee (bt_transactions bt))"
  "mj_tx_hexes (job_of s rng bt cb1 branch) = map tx_data (bt_transactions bt)"
  "mj_bits (job_of s rng bt cb1 branch) = bt_bits bt"
  "mj_mintime (job_of s rng bt cb1 branch) = bt_mintime bt"
  "mj_version (job_of s rng bt cb1 branch) = bt_version bt"
  "mj_height (job_of s rng bt cb1 branch) = bt_height bt"
  "mj_curtime (job_of s rng bt cb1 branch) = bt_curtime bt"
  "mj_reserved (job_of s rng bt cb1 branch) = bt_reserved bt"
  "mj_segwit_active (job_of s rng bt cb1 branch) = bt_segwit_active bt"
  "mj_witness_commitment (job_of s rng bt cb1 branch) = bt_default_witness_commitment bt"
  by (simp_all add: job_of_def make_job_def Let_def)

lemma published_fields [simp]:
  "mj_previousblockhash (published s mj) = mj_previousblockhash mj" "mj_clean_jobs (published s mj) = mj_clean_jobs mj"
  "mj_coinbase1 (published s mj) = mj_coinbase1 mj" "mj_merkle_branch_le (published s mj) = mj_merkle_branch_le mj"
  "mj_coinbase_value (published s mj) = mj_coinbase_value mj" "mj_total_fees (published s mj) = mj_total_fees mj"
  "mj_tx_hexes (published s mj) = mj_tx_hexes mj" "mj_job_id (published s mj) = mj_job_id mj"
  "mj_bits (published s mj) = mj_bits mj" "mj_mintime (published s mj) = mj_mintime mj"
  "mj_version (published s mj) = mj_version mj"
  "mj_height (published s mj) = mj_height mj"
  "mj_curtime (published s mj) = mj_curtime mj"
  "mj_reserved (published s mj) = mj_reserved mj"
  "mj_segwit_active (published s mj) = mj_segwit_active mj"
  "mj_witness_commitment (published s mj) = mj_witness_commitment mj"
  by (simp_all add: published_def)

definition after_publish :: "stratifier \<Rightarrow> mining_job \<Rightarrow> stratifier" where
  "after_publish s mj =
     s\<lparr>sf_jobs := window_push (mj_job_id mj) mj (sf_jobs s), sf_last_prevhash := mj_previousblockhash mj,
       sf_seen_shares := (if mj_clean_jobs mj then {} else sf_seen_shares s),
       sf_best_share_round := (if mj_clean_jobs mj then 0 else sf_best_share_round s),
       sf_job_counter := sf_job_counter s + 1\<rparr>"

text \<open>Whether an update publishes, and from what.\<close>

definition update_ready :: "(bytes \<Rightarrow> bytes) \<Rightarrow> json \<Rightarrow> stratifier \<Rightarrow> (block_template \<times> string \<times> string list) option result" where
  "update_ready sha256 gbt s =
     bind_res (parseTemplate gbt) (\<lambda>parsed. case parsed of None \<Rightarrow> Inr None
      | Some bt \<Rightarrow> if donationAddress (sf_coin s) = [] then Inr None
          else bind_res (build_coinbase1 (sf_coin s) bt) (\<lambda>cb1. case cb1 of None \<Rightarrow> Inr None
            | Some cb1 \<Rightarrow> (case build_branch sha256 bt of Inl _ \<Rightarrow> Inr None | Inr br \<Rightarrow> Inr (Some (bt, cb1, br)))))"

lemma publish_job_eq:
  assumes "mj = mj0\<lparr>mj_clean_jobs := (mj_previousblockhash mj0 \<noteq> sf_last_prevhash s)\<rparr>"
  shows "publish_job mj0 (s\<lparr>sf_job_counter := sf_job_counter s + 1\<rparr>) =
    (after_publish s (published s mj), map (\<lambda>cb. Broadcast cb (published s mj)) [0..<sf_callbacks s])"
proof -
  obtain p q where n: "notify_parts (sf_coin s) mj = (p, q)" by (metis surj_pair)
  have id: "mj_job_id mj = mj_job_id mj0" "mj_previousblockhash mj = mj_previousblockhash mj0"
    "mj_clean_jobs mj \<longleftrightarrow> mj_previousblockhash mj0 \<noteq> sf_last_prevhash s"
    by (simp_all add: assms)
  show ?thesis
    using id by (simp add: publish_job_def Let_def assms [symmetric] n published_def after_publish_def)
qed

lemma job_of_eq:
  "job_of s rng bt cb1 br = mj0\<lparr>mj_clean_jobs := (mj_previousblockhash mj0 \<noteq> sf_last_prevhash s)\<rparr>"
  if "mj0 = (let cc = sf_coin s;
          mj = make_job cc bt (if cc_chain cc = Zcash then generate_job_id_32 rng (sf_job_counter s)
                 else generate_job_id rng (sf_job_counter s)) cb1 br
      in if cc_chain cc = Zcash
          then mj\<lparr>mj_zcash_full_coinbase_hex := bt_zcash_coinbase_data bt,
                  mj_zcash_merkle_root_le := byte_reverse_hex (bt_zcash_merkle_root bt)\<rparr>
          else mj)"
  by (simp add: job_of_def that Let_def make_job_def)

lemma updateWork_eq:
  "updateWork sha256 rng gbt s =
    (case update_ready sha256 gbt s of Inl e \<Rightarrow> Inl e | Inr None \<Rightarrow> Inr (s, [])
     | Inr (Some (bt, cb1, br)) \<Rightarrow>
         let mj = published s (job_of s rng bt cb1 br)
         in Inr (after_publish s mj, map (\<lambda>cb. Broadcast cb mj) [0..<sf_callbacks s]))"
  using publish_job_eq [OF job_of_eq [OF refl], of s]
  by (cases "cc_chain (sf_coin s) = Zcash")
    (simp_all add: updateWork_def update_ready_def bind_res_def Let_def split: sum.split option.split)

section \<open>Sequences of operations\<close>

datatype sf_op = Work u64 json | Share string | Diff rat | ResetBest | SetCoin coin_config | Callback

text \<open>
  One operation: the state after it and the share it admits. An update whose template throws leaves
  the state as it was.
\<close>

definition sf_apply :: "(bytes \<Rightarrow> bytes) \<Rightarrow> sf_op \<Rightarrow> stratifier \<Rightarrow> stratifier \<times> string list" where
  "sf_apply sha256 f s =
     (case f of
        Work rng gbt \<Rightarrow> ((case updateWork sha256 rng gbt s of Inr (s', _) \<Rightarrow> s' | Inl _ \<Rightarrow> s), [])
      | Share fp \<Rightarrow> (let (new, s') = register_share fp s in (s', if new then [fp] else []))
      | Diff d \<Rightarrow> (note_share_diff d s, [])
      | ResetBest \<Rightarrow> (reset_best_share s, [])
      | SetCoin cc \<Rightarrow> (setCoinConfig cc s, [])
      | Callback \<Rightarrow> (registerCallback s, []))"

primrec sf_run :: "(bytes \<Rightarrow> bytes) \<Rightarrow> sf_op list \<Rightarrow> stratifier \<Rightarrow> stratifier \<times> string list" where
  "sf_run sha256 [] s = (s, [])"
| "sf_run sha256 (f # fs) s =
     (let (s1, a) = sf_apply sha256 f s; (s2, b) = sf_run sha256 fs s1 in (s2, a @ b))"

text \<open>The tip stays: no update of the sequence starts a new block.\<close>

primrec tip_stays :: "(bytes \<Rightarrow> bytes) \<Rightarrow> sf_op list \<Rightarrow> stratifier \<Rightarrow> bool" where
  "tip_stays sha256 [] s = True"
| "tip_stays sha256 (f # fs) s =
     (sf_last_prevhash (fst (sf_apply sha256 f s)) = sf_last_prevhash s \<and> tip_stays sha256 fs (fst (sf_apply sha256 f s)))"

definition shares_of :: "sf_op list \<Rightarrow> string list" where
  "shares_of fs = List.map_filter (\<lambda>f. case f of Share fp \<Rightarrow> Some fp | _ \<Rightarrow> None) fs"

lemma shares_of_simps [simp]: "shares_of [] = []" "shares_of (Share fp # fs) = fp # shares_of fs"
  "shares_of (Work r g # fs) = shares_of fs" "shares_of (Diff d # fs) = shares_of fs"
  "shares_of (ResetBest # fs) = shares_of fs" "shares_of (SetCoin cc # fs) = shares_of fs"
  "shares_of (Callback # fs) = shares_of fs"
  by (simp_all add: shares_of_def map_filter_simps)

lemma updateWork_cases:
  assumes "updateWork sha256 rng gbt s = Inr (s', acts)"
  obtains "s' = s" "acts = []" "update_ready sha256 gbt s = Inr None"
  | bt cb1 br mj where "update_ready sha256 gbt s = Inr (Some (bt, cb1, br))" "mj = published s (job_of s rng bt cb1 br)"
      "s' = after_publish s mj" "acts = map (\<lambda>cb. Broadcast cb mj) [0..<sf_callbacks s]"
  using assms by (auto simp: updateWork_eq Let_def split: sum.splits option.splits)

lemma seen_same_tip:
  assumes "sf_last_prevhash (fst (sf_apply sha256 f s)) = sf_last_prevhash s" "shares_of [f] = []"
  shows "sf_seen_shares (fst (sf_apply sha256 f s)) = sf_seen_shares s \<and> snd (sf_apply sha256 f s) = []"
proof (cases f)
  case (Work rng gbt)
  show ?thesis
  proof (cases "updateWork sha256 rng gbt s")
    case (Inr r)
    obtain s' acts where "r = (s', acts)" by (cases r)
    with Inr have u: "updateWork sha256 rng gbt s = Inr (s', acts)" by simp
    then have "fst (sf_apply sha256 f s) = s'" "snd (sf_apply sha256 f s) = []" by (simp_all add: Work sf_apply_def)
    with u assms(1) show ?thesis
      by (cases rule: updateWork_cases) (simp_all add: after_publish_def)
  qed (simp add: Work sf_apply_def)
qed (use assms(2) in \<open>auto simp: sf_apply_def note_share_diff_def reset_best_share_def setCoinConfig_def registerCallback_def\<close>)

lemma admitted_once:
  assumes "tip_stays sha256 fs s" "finite (sf_seen_shares s)" "card (sf_seen_shares s) + length (shares_of fs) \<le> 1000001"
  shows "distinct (snd (sf_run sha256 fs s)) \<and> set (snd (sf_run sha256 fs s)) = set (shares_of fs) - sf_seen_shares s \<and>
    sf_seen_shares (fst (sf_run sha256 fs s)) = sf_seen_shares s \<union> set (shares_of fs)"
  using assms
proof (induction fs arbitrary: s)
  case (Cons f fs)
  let ?s = "fst (sf_apply sha256 f s)"
  show ?case
  proof (cases "shares_of [f] = []")
    case True
    then have sh: "shares_of (f # fs) = shares_of fs" by (cases f) simp_all
    have same: "sf_seen_shares ?s = sf_seen_shares s" "snd (sf_apply sha256 f s) = []"
      using seen_same_tip [OF _ True] Cons.prems(1) by simp_all
    have "tip_stays sha256 fs ?s" using Cons.prems(1) by simp
    from Cons.IH [OF this] show ?thesis using Cons.prems(2,3) by (simp add: sh same case_prod_beta Let_def)
  next
    case False
    then obtain fp where f: "f = Share fp" by (cases f) simp_all
    have small: "\<not> card (sf_seen_shares s) > 1000000" using Cons.prems(3) by (simp add: f)
    obtain s1 a where ap: "sf_apply sha256 f s = (s1, a)" by (cases "sf_apply sha256 f s")
    have s1: "sf_seen_shares s1 = insert fp (sf_seen_shares s)" "a = (if fp \<in> sf_seen_shares s then [] else [fp])"
      using small ap by (auto simp: f sf_apply_def register_share_def Let_def)
    have sh: "shares_of (f # fs) = fp # shares_of fs" by (simp add: f)
    have "card (insert fp (sf_seen_shares s)) \<le> Suc (card (sf_seen_shares s))" by (rule card_insert_le_m1) simp_all
    then have "card (sf_seen_shares s1) + length (shares_of fs) \<le> 1000001" using Cons.prems(3) by (simp add: s1 sh)
    moreover have "tip_stays sha256 fs s1" "finite (sf_seen_shares s1)" using Cons.prems(1,2) by (simp_all add: s1 ap)
    ultimately show ?thesis using Cons.IH [of s1]
      by (auto simp: s1 sh ap case_prod_beta Let_def)
  qed
qed simp

section \<open>The round\<close>

text \<open>
  The best share of a round is the best difficulty noted since it began, and the newest job, when
  there is one, builds on the tip.
\<close>

definition sf_inv :: "stratifier \<Rightarrow> bool" where
  "sf_inv s \<longleftrightarrow> finite (sf_seen_shares s) \<and> card (sf_seen_shares s) \<le> 1000001 \<and> 0 \<le> sf_best_share_round s \<and>
     (\<forall>mj. latestJob s = Some mj \<longrightarrow> mj_previousblockhash mj = current_prevhash s) \<and>
     (\<forall>(i, mj) \<in> set (jw_items (sf_jobs s)). mj_job_id mj = i) \<and>
     length (jw_items (sf_jobs s)) \<le> jw_capacity (sf_jobs s)"

lemma items_push: "set (jw_items (window_push i j w)) \<subseteq> insert (i, j) (set (jw_items w))"
  by (cases "jw_items w") (auto simp: window_push_def Let_def)

lemma length_push: "0 < jw_capacity w \<Longrightarrow> length (jw_items w) \<le> jw_capacity w \<Longrightarrow>
    length (jw_items (window_push i j w)) \<le> jw_capacity w \<and> jw_capacity (window_push i j w) = jw_capacity w"
  by (simp add: window_push_def Let_def)

lemma sf_inv_new: "sf_inv (stratifier_new n)"
  by (simp add: sf_inv_def stratifier_new_def latestJob_def window_latest_def window_new_def)

lemma capacity_publish: "jw_capacity (sf_jobs (after_publish s mj)) = jw_capacity (sf_jobs s)"
  by (simp add: after_publish_def window_push_def Let_def)

lemma sf_inv_publish:
  assumes "sf_inv s" "0 < jw_capacity (sf_jobs s)"
  shows "sf_inv (after_publish s mj)"
proof -
  have "\<forall>(i, j) \<in> set (jw_items (sf_jobs (after_publish s mj))). mj_job_id j = i"
    using assms(1) items_push [of "mj_job_id mj" mj "sf_jobs s"] by (auto simp: sf_inv_def after_publish_def)
  then show ?thesis
    using assms length_push [of "sf_jobs s" "mj_job_id mj" mj]
    by (simp add: sf_inv_def after_publish_def latestJob_def current_prevhash_def)
qed

lemma sf_inv_apply:
  assumes "sf_inv s" "0 < jw_capacity (sf_jobs s)"
  shows "sf_inv (fst (sf_apply sha256 f s)) \<and> jw_capacity (sf_jobs (fst (sf_apply sha256 f s))) = jw_capacity (sf_jobs s)"
proof (cases f)
  case (Work rng gbt)
  show ?thesis
  proof (cases "updateWork sha256 rng gbt s")
    case (Inr r)
    obtain s' acts where "r = (s', acts)" by (cases r)
    with Inr have u: "updateWork sha256 rng gbt s = Inr (s', acts)" by simp
    then have "fst (sf_apply sha256 f s) = s'" by (simp add: Work sf_apply_def)
    with u show ?thesis
      using assms sf_inv_publish [OF assms]
      by (cases rule: updateWork_cases) (simp_all add: capacity_publish)
  qed (use assms in \<open>simp add: Work sf_apply_def\<close>)
next
  case (Share fp)
  have "card (insert fp (sf_seen_shares s)) \<le> Suc (card (sf_seen_shares s))" by (rule card_insert_le_m1) simp_all
  then show ?thesis using assms
    by (auto simp: Share sf_apply_def register_share_def sf_inv_def latestJob_def current_prevhash_def Let_def)
qed (use assms in \<open>auto simp: sf_apply_def note_share_diff_def reset_best_share_def setCoinConfig_def registerCallback_def
    sf_inv_def latestJob_def current_prevhash_def\<close>)

lemma sf_inv_run:
  "sf_inv s \<Longrightarrow> 0 < jw_capacity (sf_jobs s) \<Longrightarrow> sf_inv (fst (sf_run sha256 fs s))"
proof (induction fs arbitrary: s)
  case (Cons f fs)
  show ?case using Cons.IH [of "fst (sf_apply sha256 f s)"] sf_inv_apply [OF Cons.prems]  Cons.prems(2)
    by (simp add: case_prod_beta Let_def)
qed simp

section \<open>Properties\<close>

text \<open>
  C6. What an update of the work does. It changes nothing when the template has no result, when no
  donation address is configured, when the coinbase script would be too long or when a transaction
  id is malformed. Otherwise the job that all callbacks receive is the latest job and is found by its
  id; it builds on the template's tip, asks for a clean start exactly when that tip is new, and
  carries the version, bits, height, times, coinbase, value, fees and witness commitment of the
  template and its transactions in order. A branch that the node sent with the template (the IPC
  interface) is the branch of the job as it is; without one, the branch is computed, and it folds
  every coinbase id into the root of the template's block.
\<close>

theorem job_published:
  fixes sha256 :: "bytes \<Rightarrow> bytes"
  assumes "updateWork sha256 rng gbt s = Inr (s', acts)" and sha: "\<And>x. length (sha256 x) = 32"
  shows "(s' = s \<and> acts = [] \<and> update_ready sha256 gbt s = Inr None) \<or>
    (\<exists>bt cb1 br mj. parseTemplate gbt = Inr (Some bt) \<and> donationAddress (sf_coin s) \<noteq> [] \<and>
      build_coinbase1 (sf_coin s) bt = Inr (Some cb1) \<and> build_branch sha256 bt = Inr br \<and>
      latestJob s' = Some mj \<and> findJob (mj_job_id mj) s' = Some mj \<and>
      acts = map (\<lambda>cb. Broadcast cb mj) [0..<sf_callbacks s] \<and>
      mj_previousblockhash mj = bt_previousblockhash bt \<and> current_prevhash s' = bt_previousblockhash bt \<and>
      mj_clean_jobs mj = (bt_previousblockhash bt \<noteq> current_prevhash s) \<and>
      sf_seen_shares s' = (if mj_clean_jobs mj then {} else sf_seen_shares s) \<and>
      mj_version mj = bt_version bt \<and> mj_bits mj = bt_bits bt \<and> mj_height mj = bt_height bt \<and>
      mj_curtime mj = bt_curtime bt \<and> mj_mintime mj = bt_mintime bt \<and> mj_reserved mj = bt_reserved bt \<and>
      mj_segwit_active mj = bt_segwit_active bt \<and> mj_witness_commitment mj = bt_default_witness_commitment bt \<and>
      mj_coinbase1 mj = cb1 \<and> mj_coinbase_value mj = bt_coinbasevalue bt \<and>
      mj_total_fees mj = sum_list (map tx_fee (bt_transactions bt)) \<and>
      mj_tx_hexes mj = map tx_data (bt_transactions bt) \<and>
      (bt_ipc_branch bt \<noteq> [] \<longrightarrow> mj_merkle_branch_le mj = bt_ipc_branch bt) \<and>
      (bt_ipc_branch bt = [] \<longrightarrow> (\<forall>cb tx. length cb = 32 \<longrightarrow>
        list_all2 (\<lambda>h t. from_hex h = Inr t \<and> length t = 32) (map tx_txid_le (bt_transactions bt)) tx \<longrightarrow>
        compute_root_le_hex sha256 (bytes_to_hex cb) (mj_merkle_branch_le mj) =
          Inr (bytes_to_hex (merkle_root sha256 (cb # tx))))))"
  using assms(1)
proof (cases rule: updateWork_cases)
  case (2 bt cb1 br mj)
  have ready: "parseTemplate gbt = Inr (Some bt)" "donationAddress (sf_coin s) \<noteq> []"
    "build_coinbase1 (sf_coin s) bt = Inr (Some cb1)" "build_branch sha256 bt = Inr br"
    using 2(1) by (auto simp: update_ready_def bind_res_def split: sum.splits option.splits if_splits)
  have root: "compute_root_le_hex sha256 (bytes_to_hex cb) br = Inr (bytes_to_hex (merkle_root sha256 (cb # tx)))"
    if "bt_ipc_branch bt = []" "length cb = 32"
      "list_all2 (\<lambda>h t. from_hex h = Inr t \<and> length t = 32) (map tx_txid_le (bt_transactions bt)) tx" for cb tx
    using branch_root [of sha256, OF sha that(2,3)] ready(4) that(1) by (auto simp: build_branch_def)
  have ipc: "br = bt_ipc_branch bt" if "bt_ipc_branch bt \<noteq> []"
    using that ready(4) by (simp add: build_branch_def)
  show ?thesis
    using root ipc by (intro disjI2 exI [of _ bt] exI [of _ cb1] exI [of _ br] exI [of _ mj] conjI ready impI allI)
      (simp_all add: 2 latestJob_def findJob_def current_prevhash_def after_publish_def)
qed simp

definition sample_state :: stratifier where
  "sample_state = (stratifier_new 4)\<lparr>sf_coin := default_coin\<lparr>donationAddress := ''x'', coinbaseSignature := []\<rparr>\<rparr>"

definition sample_gbt :: json where
  "sample_gbt = JObject [(''result'', JObject [(''previousblockhash'', JString ''ab'')])]"

text \<open>The template of the sample has no transactions, height 0 and its tip.\<close>

definition sample_bt :: block_template where
  "sample_bt = empty_template\<lparr>bt_previousblockhash := ''ab'', bt_segwit_active := False\<rparr>"

lemma sample_parse: "parseTemplate sample_gbt = Inr (Some sample_bt)"
  by (simp add: parseTemplate_def sample_gbt_def sample_bt_def object_member_def array_member_def member_def is_object_def parse_header_fields_def
      parse_zcash_fields_def parse_ecash_fields_def parse_rtt_def parse_ipc_fields_def parse_transactions_def
      parse_aux_fields_def rd_def empty_template_def value_of_def get_string_def)

lemma sample_update:
  assumes "\<And>x. length (sha256 x) = 32"
  shows "\<exists>s' acts. updateWork sha256 0 sample_gbt sample_state = Inr (s', acts) \<and> latestJob s' \<noteq> None"
proof -
  have h: "encode_bip34_height 0 = Inr (hex_of_byte 1 @ bytes_to_hex [0])"
    by (simp add: encode_bip34_height_def le_min_bytes.simps)
  have "\<exists>cb1. build_coinbase1 (sf_coin sample_state) sample_bt = Inr (Some cb1)"
    by (simp add: build_coinbase1_def sample_bt_def empty_template_def sample_state_def h aux_placeholder_def
        en1_bytes_def en2_bytes_def default_coin_def)
  moreover have "build_branch sha256 sample_bt = Inr (branch_loop sha256 [replicate 32 0])"
    by (simp add: build_branch_def sample_bt_def empty_template_def build_branch_le_hex_def)
  moreover have "donationAddress (sf_coin sample_state) \<noteq> []" by (simp add: sample_state_def)
  ultimately obtain x where "update_ready sha256 sample_gbt sample_state = Inr (Some x)"
    by (auto simp: update_ready_def sample_parse)
  then show ?thesis by (cases x) (simp add: updateWork_eq Let_def latestJob_def after_publish_def)
qed

lemma job_published_witness:
  "\<exists>s' acts mj. updateWork first32 0 sample_gbt sample_state = Inr (s', acts) \<and> latestJob s' = Some mj \<and>
    mj_previousblockhash mj = ''ab'' \<and> mj_clean_jobs mj"
proof -
  obtain s' acts where u: "updateWork first32 0 sample_gbt sample_state = Inr (s', acts)" "latestJob s' \<noteq> None"
    using sample_update [of first32] by auto
  have t: "latestJob sample_state = None" "current_prevhash sample_state = []"
    by (simp_all add: latestJob_def sample_state_def stratifier_new_def window_latest_def window_new_def current_prevhash_def)
  show ?thesis
    using job_published [OF u(1) length_first32] u t by (auto simp: sample_parse sample_bt_def)
qed

text \<open>
  C25. A share counts once: over any sequence of operations during which the tip stays, and which holds
  at most a million shares together with those already known, exactly the fingerprints that were not
  known before are admitted, each once, however the shares are repeated and interleaved with updates.
\<close>

theorem share_once:
  assumes "tip_stays sha256 fs s" "finite (sf_seen_shares s)" "card (sf_seen_shares s) + length (shares_of fs) \<le> 1000001"
  shows "distinct (snd (sf_run sha256 fs s)) \<and> set (snd (sf_run sha256 fs s)) = set (shares_of fs) - sf_seen_shares s"
  using admitted_once [OF assms] by simp

lemma share_once_witness:
  "distinct (snd (sf_run first32 [Share ''a'', Share ''b'', Share ''a''] (stratifier_new 4))) \<and>
   set (snd (sf_run first32 [Share ''a'', Share ''b'', Share ''a''] (stratifier_new 4))) = {''a'', ''b''}"
proof -
  have "tip_stays first32 [Share ''a'', Share ''b'', Share ''a''] (stratifier_new 4)"
    by (simp add: sf_apply_def register_share_def Let_def case_prod_beta)
  moreover have "finite (sf_seen_shares (stratifier_new 4))" "sf_seen_shares (stratifier_new 4) = {}"
    by (simp_all add: stratifier_new_def)
  ultimately show ?thesis using share_once [of first32 "[Share ''a'', Share ''b'', Share ''a'']" "stratifier_new 4"]
    by (simp del: sf_run.simps add: insert_commute)
qed

text \<open>
  C26. From its construction on, whatever operations follow, the stratifier keeps its newest job on the
  current tip, every job under its own id, at most the configured number of jobs, at most 1000001
  fingerprints, and a best share that is not negative.
\<close>

theorem stratifier_invariant:
  assumes "0 < n"
  shows "sf_inv (fst (sf_run sha256 fs (stratifier_new n)))"
  using assms by (intro sf_inv_run sf_inv_new) (simp add: stratifier_new_def window_new_def)

lemma stratifier_invariant_witness:
  "sf_inv (fst (sf_run first32 [Work 0 sample_gbt, Share ''a'', Diff 5] (stratifier_new 4)))"
  by (rule stratifier_invariant) simp

end
