(* ===== verification/Zcash.thy ===== *)
theory Zcash
  imports Address
begin

text \<open>
  \<open>src/zcash.hpp\<close>: CompactSize integers, the layout of a version 5 coinbase, its ZIP-244 transaction
  id, transparent addresses, and the redirection of the miner reward. BLAKE2b with a personalisation
  is libsodium's and SHA-256 is OpenSSL's; both are arguments. Positions are 64-bit and wrap. A read
  past the end that the code does not check is undefined in C++; here it is the error \<open>past_end\<close>.
  Theory \<open>ZcashFacts\<close> shows that CompactSize integers round trip, that redirecting the reward replaces
  exactly the largest output, and what the transaction id is a digest of.
\<close>

section \<open>CompactSize\<close>

definition past_end :: exn where
  "past_end = OutOfRange ''undefined read''"

definition byte_at :: "bytes \<Rightarrow> u64 \<Rightarrow> u8 result" where
  "byte_at b pos = (if unat pos < length b then Inr (b ! unat pos) else Inl (OutOfRange ''vector::at''))"

text \<open>The lambda \<open>rd\<close>: \<open>k\<close> bytes, little endian; the first argument counts the bytes read.\<close>

fun rd_le :: "bytes \<Rightarrow> nat \<Rightarrow> nat \<Rightarrow> u64 \<Rightarrow> (u64 \<times> u64) result" where
  "rd_le b 0 i pos = Inr (0, pos)"
| "rd_le b (Suc k) i pos =
     bind_res (byte_at b pos) (\<lambda>x. bind_res (rd_le b k (Suc i) (pos + 1)) (\<lambda>(v, pos).
       Inr (push_bit (8 * i) (ucast x) OR v, pos)))"

definition read_compact :: "bytes \<Rightarrow> u64 \<Rightarrow> (u64 \<times> u64) result" where
  "read_compact b pos =
     (if unat pos \<ge> length b then Inl (RuntimeError ''zcash: compact OOB'')
      else let n = b ! unat pos; pos = pos + 1
           in if n < 0xfd then Inr (ucast n, pos)
              else if n = 0xfd then rd_le b 2 0 pos
              else if n = 0xfe then rd_le b 4 0 pos
              else rd_le b 8 0 pos)"

definition write_compact :: "u64 \<Rightarrow> bytes" where
  "write_compact n =
     (if n < 0xfd then [ucast n]
      else if n \<le> 0xffff then [0xfd, ucast (n AND 0xff), ucast (drop_bit 8 n AND 0xff)]
      else 0xfe # map (\<lambda>i. ucast (drop_bit (8 * i) n AND 0xff)) [0..<4])"

section \<open>The layout of a coinbase\<close>

record coinbase_layout =
  ly_vout_count_pos :: u64
  ly_outputs_start :: u64
  ly_outputs_end :: u64
  ly_outputs :: "(u64 \<times> u64 \<times> u64) list"

fun skip_inputs :: "bytes \<Rightarrow> nat \<Rightarrow> u64 \<Rightarrow> u64 result" where
  "skip_inputs raw 0 p = Inr p"
| "skip_inputs raw (Suc vin) p =
     bind_res (read_compact raw (p + 36)) (\<lambda>(sl, p). skip_inputs raw vin (p + sl + 4))"

fun read_outputs :: "bytes \<Rightarrow> nat \<Rightarrow> u64 \<Rightarrow> ((u64 \<times> u64 \<times> u64) list \<times> u64) result" where
  "read_outputs raw 0 p = Inr ([], p)"
| "read_outputs raw (Suc vout) p =
     bind_res (read_compact raw (p + 8)) (\<lambda>(sl, q).
     bind_res (read_outputs raw vout (q + sl)) (\<lambda>(os, r). Inr ((p, q, sl) # os, r)))"

definition parse_layout :: "bytes \<Rightarrow> coinbase_layout result" where
  "parse_layout raw =
     bind_res (read_compact raw 20) (\<lambda>(vin, p).
     bind_res (skip_inputs raw (unat vin) p) (\<lambda>vout_pos.
     bind_res (read_compact raw vout_pos) (\<lambda>(vout, start).
     bind_res (read_outputs raw (unat vout) start) (\<lambda>(os, fin).
       Inr \<lparr>ly_vout_count_pos = vout_pos, ly_outputs_start = start, ly_outputs_end = fin, ly_outputs = os\<rparr>))))"

section \<open>The ZIP-244 transaction id\<close>

text \<open>The bytes from \<open>i\<close> to \<open>j\<close>, as an iterator range.\<close>

definition range_of :: "bytes \<Rightarrow> u64 \<Rightarrow> u64 \<Rightarrow> bytes result" where
  "range_of raw i j =
     (if unat i \<le> unat j \<and> unat j \<le> length raw then Inr (take (unat j - unat i) (drop (unat i) raw)) else Inl past_end)"

type_synonym blake2b = "bytes \<Rightarrow> bytes \<Rightarrow> bytes"

fun gather_inputs :: "bytes \<Rightarrow> nat \<Rightarrow> u64 \<Rightarrow> (bytes \<times> bytes \<times> u64) result" where
  "gather_inputs raw 0 p = Inr ([], [], p)"
| "gather_inputs raw (Suc vin) p =
     bind_res (range_of raw p (p + 36)) (\<lambda>prevout.
     bind_res (read_compact raw (p + 36)) (\<lambda>(sl, q).
     bind_res (range_of raw (q + sl) (q + sl + 4)) (\<lambda>sequence.
     bind_res (gather_inputs raw vin (q + sl + 4)) (\<lambda>(ps, ss, r).
       Inr (prevout @ ps, sequence @ ss, r)))))"

definition personal :: "string \<Rightarrow> bytes" where
  "personal s = map byte_of_char s"

definition zip244_txid :: "blake2b \<Rightarrow> bytes \<Rightarrow> bytes result" where
  "zip244_txid blake raw =
     bind_res (range_of raw 0 20) (\<lambda>header.
     bind_res (range_of raw 8 12) (\<lambda>branch.
     bind_res (read_compact raw 20) (\<lambda>(vin, p).
     bind_res (gather_inputs raw (unat vin) p) (\<lambda>(prevouts, sequences, p).
     bind_res (read_compact raw p) (\<lambda>(vout, ods).
     bind_res (read_outputs raw (unat vout) ods) (\<lambda>(_, fin).
     bind_res (range_of raw ods fin) (\<lambda>outputs.
       let hd' = blake (personal ''ZTxIdHeadersHash'') header;
           pd = blake (personal ''ZTxIdPrevoutHash'') prevouts;
           sqd = blake (personal ''ZTxIdSequencHash'') sequences;
           od = blake (personal ''ZTxIdOutputsHash'') outputs;
           td = blake (personal ''ZTxIdTranspaHash'') (pd @ sqd @ od);
           sd = blake (personal ''ZTxIdSaplingHash'') [];
           orchd = blake (personal ''ZTxIdOrchardHash'') []
       in Inr (blake (personal ''ZcashTxHash_'' @ branch) (hd' @ td @ sd @ orchd)))))))))"

section \<open>Transparent addresses\<close>

text \<open>One character: multiply the little-endian number by 58 and add the digit.\<close>

fun zb58_round :: "nat \<Rightarrow> bytes \<Rightarrow> bytes" where
  "zb58_round carry [] = (if carry = 0 then [] else of_nat (carry mod 256) # zb58_round (carry div 256) [])"
| "zb58_round carry (d # b) =
     (let c = carry + 58 * unat d in of_nat (c mod 256) # zb58_round (c div 256) b)"

fun zb58_loop :: "string \<Rightarrow> bytes \<Rightarrow> bytes option" where
  "zb58_loop [] b = Some b"
| "zb58_loop (c # s) b = (case b58_digit c of None \<Rightarrow> None | Some carry \<Rightarrow> zb58_loop s (zb58_round carry b))"

definition zb58_decode :: "string \<Rightarrow> bytes option" where
  "zb58_decode s =
     map_option (\<lambda>b. rev (b @ replicate (length (takeWhile (\<lambda>c. c = CHR ''1'') s)) 0)) (zb58_loop s [])"

definition taddr_to_script :: "(bytes \<Rightarrow> bytes) \<Rightarrow> string \<Rightarrow> bytes" where
  "taddr_to_script sha256 addr =
     (case zb58_decode addr of None \<Rightarrow> []
      | Some raw \<Rightarrow>
          if length raw \<noteq> 26 then []
          else if drop 22 raw \<noteq> take 4 (sha256 (sha256 (take 22 raw))) then []
          else let ver = push_bit 8 (ucast (raw ! 0)) OR ucast (raw ! 1) :: u16; h160 = take 20 (drop 2 raw)
               in if ver = 0x1cb8 \<or> ver = 0x1d25 then [0x76, 0xa9, 0x14] @ h160 @ [0x88, 0xac]
                  else if ver = 0x1cbd \<or> ver = 0x1cba then [0xa9, 0x14] @ h160 @ [0x87]
                  else [])"

section \<open>Redirecting the reward\<close>

definition encode_output :: "u64 \<Rightarrow> bytes \<Rightarrow> bytes" where
  "encode_output v script =
     map (\<lambda>b. ucast (drop_bit (8 * b) v AND 0xff)) [0..<8] @ write_compact (of_nat (length script)) @ script"

text \<open>The value of an output and its script.\<close>

definition output_value :: "bytes \<Rightarrow> u64 \<times> u64 \<times> u64 \<Rightarrow> u64 result" where
  "output_value raw o' =
     bind_res (range_of raw (fst o') (fst o' + 8)) (\<lambda>bs.
       Inr (fold (\<lambda>b v. v OR push_bit (8 * b) (ucast (bs ! b))) [0..<8] 0))"

definition output_script :: "bytes \<Rightarrow> u64 \<times> u64 \<times> u64 \<Rightarrow> bytes result" where
  "output_script raw o' = range_of raw (fst (snd o')) (fst (snd o') + snd (snd o'))"

text \<open>The last output of the largest value.\<close>

fun largest :: "u64 list \<Rightarrow> nat \<Rightarrow> nat \<times> u64 \<Rightarrow> nat \<times> u64" where
  "largest [] i best = best"
| "largest (v # vs) i best = largest vs (Suc i) (if v \<ge> snd best then (i, v) else best)"

definition donation_part :: "fpu \<Rightarrow> u64 \<Rightarrow> bytes \<Rightarrow> rat \<Rightarrow> u64" where
  "donation_part F miner_val donation_script donation_percent =
     (if donation_script \<noteq> [] \<and> donation_percent > 0
      then let d = of_int \<lfloor>rnd_ld F (rnd_ld F (rnd_ld F (rnd_ld F (of_nat (unat miner_val)) * donation_percent) / 100) + 1 / 2)\<rfloor>
           in if d = 0 \<or> d \<ge> miner_val then 0 else d
      else 0)"

definition swap_miner_output :: "fpu \<Rightarrow> bytes \<Rightarrow> bytes \<Rightarrow> bytes \<Rightarrow> rat \<Rightarrow> bytes result" where
  "swap_miner_output F raw miner_script donation_script donation_percent =
     bind_res (parse_layout raw) (\<lambda>L.
       if ly_outputs L = [] \<or> miner_script = [] then Inr []
       else bind_res (map_res (output_value raw) (ly_outputs L)) (\<lambda>vals.
         let (mi, miner_val) = largest vals 0 (0, 0);
             donation_val = donation_part F miner_val donation_script donation_percent
         in bind_res (map_res (output_script raw) (ly_outputs L)) (\<lambda>scripts.
         bind_res (range_of raw 0 (ly_vout_count_pos L)) (\<lambda>head.
         bind_res (range_of raw (ly_outputs_end L) (of_nat (length raw))) (\<lambda>tail.
           let outs = concat (map (\<lambda>i.
                 if i = mi
                 then (miner_val - donation_val, miner_script)
                      # (if donation_val = 0 then [] else [(donation_val, donation_script)])
                 else [(vals ! i, scripts ! i)]) [0..<length vals])
           in Inr (head @ write_compact (of_nat (length outs)) @ concat (map (\<lambda>(v, s). encode_output v s) outs)
                   @ tail))))))"

end
