(* ===== verification/ZcashFacts.thy ===== *)
theory ZcashFacts
  imports Zcash
begin

text \<open>
  Facts about the Zcash coinbase: the reader and the writer of CompactSize integers agree, a
  transaction laid out as the format says is parsed into its parts, redirecting the reward replaces
  exactly the largest output and keeps the total, and the transaction id is the ZIP-244 digest of
  the parts.
\<close>

section \<open>Positions\<close>

text \<open>The position behind a prefix.\<close>

abbreviation behind :: "bytes \<Rightarrow> u64" where
  "behind xs \<equiv> of_nat (length xs)"

lemma unat_behind [simp]: "length xs < 2 ^ 64 \<Longrightarrow> unat (behind xs) = length xs"
  by (simp add: unat_of_nat)

lemma byte_at_behind [simp]:
  "length (xs @ b # ys) < 2 ^ 64 \<Longrightarrow> byte_at (xs @ b # ys) (behind xs) = Inr b"
  by (simp add: byte_at_def)

lemma rd_le_behind:
  assumes "length (xs @ map (\<lambda>j. ucast (drop_bit (8 * j) v)) [i..<i + k] @ ys) < 2 ^ 64"
  shows "\<exists>w. rd_le (xs @ map (\<lambda>j. ucast (drop_bit (8 * j) (v :: u64))) [i..<i + k] @ ys) k i (behind xs) =
    Inr (w, behind xs + of_nat k) \<and> take_bit (8 * i) v OR w = take_bit (8 * (i + k)) v"
  using assms
proof (induction k arbitrary: i xs)
  case (Suc k)
  let ?b = "ucast (drop_bit (8 * i) v) :: u8"
  have up: "[i..<i + Suc k] = i # [Suc i..<Suc i + k]" by (simp add: upt_conv_Cons)
  have s: "behind xs + 1 = behind (xs @ [?b])" by simp
  obtain w where w: "rd_le ((xs @ [?b]) @ map (\<lambda>j. ucast (drop_bit (8 * j) v)) [Suc i..<Suc i + k] @ ys) k (Suc i) (behind (xs @ [?b])) =
      Inr (w, behind (xs @ [?b]) + of_nat k)" "take_bit (8 * Suc i) v OR w = take_bit (8 * (Suc i + k)) v"
    using Suc.IH [of "xs @ [?b]" "Suc i"] Suc.prems unfolding up by auto
  have at: "byte_at (xs @ map (\<lambda>j. ucast (drop_bit (8 * j) v)) [i..<i + Suc k] @ ys) (behind xs) = Inr ?b"
    using Suc.prems unfolding up by simp
  have "take_bit (8 * i) v OR (push_bit (8 * i) (ucast ?b) OR w) = (take_bit (8 * i) v OR push_bit (8 * i) (ucast ?b)) OR w"
    by (simp only: or.assoc)
  also have "\<dots> = take_bit (8 * (i + Suc k)) v" using w(2) byte_join_step [of "8 * i" v] by (simp add: add.commute)
  finally have t: "take_bit (8 * i) v OR (push_bit (8 * i) (ucast ?b) OR w) = take_bit (8 * (i + Suc k)) v" .
  have "rd_le (xs @ map (\<lambda>j. ucast (drop_bit (8 * j) v)) [i..<i + Suc k] @ ys) k (Suc i) (behind xs + 1) =
      Inr (w, behind (xs @ [?b]) + of_nat k)"
    using w(1) unfolding s up by simp
  then show ?case using at t by (intro exI [of _ "push_bit (8 * i) (ucast ?b) OR w"]) (simp add: add_ac)
qed simp

lemma rd_le_bytes:
  "length (xs @ le_bytes k v @ ys) < 2 ^ 64 \<Longrightarrow>
    rd_le (xs @ le_bytes k v @ ys) k 0 (behind xs) = Inr (take_bit (8 * k) v, behind (xs @ le_bytes k v))"
  using rd_le_behind [of xs v 0 k ys] by (auto simp: le_bytes_def)

section \<open>CompactSize\<close>

lemma write_compact_eq:
  "write_compact n = (if n < 0xfd then [ucast n] else if n \<le> 0xffff then 0xfd # le_bytes 2 n else 0xfe # le_bytes 4 n)"
  by (simp add: write_compact_def le_bytes_def upt_rec)

lemma take_bit_small: "unat n < 2 ^ k \<Longrightarrow> take_bit k (n :: u64) = n"
  by (simp add: word_unat_eq_iff unsigned_take_bit_eq take_bit_nat_eq_self)

lemma read_write_compact:
  assumes "n < 2 ^ 32" "length (xs @ write_compact n @ ys) < 2 ^ 64"
  shows "read_compact (xs @ write_compact n @ ys) (behind xs) = Inr (n, behind (xs @ write_compact n))"
proof -
  have u: "unat n < 2 ^ 32" using assms(1) by (simp add: word_less_nat_alt)
  have head: "read_compact (xs @ (b # bs) @ ys) (behind xs) =
      (if b < 0xfd then Inr (ucast b, behind (xs @ [b]))
       else if b = 0xfd then rd_le ((xs @ [b]) @ bs @ ys) 2 0 (behind (xs @ [b]))
       else if b = 0xfe then rd_le ((xs @ [b]) @ bs @ ys) 4 0 (behind (xs @ [b]))
       else rd_le ((xs @ [b]) @ bs @ ys) 8 0 (behind (xs @ [b])))"
    if "length (xs @ (b # bs) @ ys) < 2 ^ 64" for b bs
    using that by (simp add: read_compact_def Let_def add.commute)
  consider (small) "n < 0xfd" | (mid) "\<not> n < 0xfd" "n \<le> 0xffff" | (big) "\<not> n < 0xfd" "\<not> n \<le> 0xffff" by blast
  then show ?thesis
  proof cases
    case small
    then have "(ucast n :: u8) < 0xfd"
      by (simp add: unsigned_ucast_eq word_less_nat_alt take_bit_nat_eq_self)
    have "unat n < 2 ^ 8" using small by (simp add: word_less_nat_alt)
    then have "(ucast (ucast n :: u8) :: u64) = n" using byte_join_first [of n] by (simp add: take_bit_small)
    moreover have w: "write_compact n = ucast n # []" using small by (simp add: write_compact_eq)
    ultimately show ?thesis using head [of "ucast n" "[]"] assms(2) \<open>(ucast n :: u8) < 0xfd\<close> by (simp add: w)
  next
    case mid
    then have w: "write_compact n = 0xfd # le_bytes 2 n" by (simp add: write_compact_eq)
    have "unat n < 2 ^ 16" using mid(2) by (simp add: word_le_nat_alt)
    then show ?thesis using head [of "0xfd" "le_bytes 2 n"] rd_le_bytes [of "xs @ [0xfd]" 2 n ys] assms(2)
      by (simp add: w take_bit_small)
  next
    case big
    then have w: "write_compact n = 0xfe # le_bytes 4 n" by (simp add: write_compact_eq)
    show ?thesis using head [of "0xfe" "le_bytes 4 n"] rd_le_bytes [of "xs @ [0xfe]" 4 n ys] assms(2) u
      by (simp add: w take_bit_small)
  qed
qed

section \<open>The layout\<close>

type_synonym zc_input = "bytes \<times> bytes \<times> bytes"
type_synonym zc_output = "u64 \<times> bytes"

text \<open>An input: the outpoint, the script and the sequence; an output as the code writes it.\<close>

definition zc_input_bytes :: "zc_input \<Rightarrow> bytes" where
  "zc_input_bytes = (\<lambda>(prevout, s, sequence). prevout @ write_compact (of_nat (length s)) @ s @ sequence)"

definition zc_output_bytes :: "zc_output \<Rightarrow> bytes" where
  "zc_output_bytes = (\<lambda>(v, s). encode_output v s)"

definition zc_input_ok :: "zc_input \<Rightarrow> bool" where
  "zc_input_ok = (\<lambda>(prevout, s, sequence). length prevout = 36 \<and> length sequence = 4 \<and> length s < 2 ^ 32)"

definition zc_output_ok :: "zc_output \<Rightarrow> bool" where
  "zc_output_ok = (\<lambda>(v, s). length s < 2 ^ 32)"

text \<open>A version 5 transaction: header, inputs, outputs, and the bundles behind them.\<close>

definition zc_tx :: "bytes \<Rightarrow> zc_input list \<Rightarrow> zc_output list \<Rightarrow> bytes \<Rightarrow> bytes" where
  "zc_tx header ins outs bundles =
     header @ write_compact (of_nat (length ins)) @ concat (map zc_input_bytes ins)
     @ write_compact (of_nat (length outs)) @ concat (map zc_output_bytes outs) @ bundles"

lemma of_nat_less_32: "n < 2 ^ 32 \<Longrightarrow> (of_nat n :: u64) < 2 ^ 32"
  by (simp add: word_less_nat_alt unat_of_nat)

lemma encode_output_eq: "encode_output v s = le_bytes 8 v @ write_compact (of_nat (length s)) @ s"
  by (simp add: encode_output_def le_bytes_def)

lemma read_compact_len:
  "m < 2 ^ 32 \<Longrightarrow> length (xs @ write_compact (of_nat m) @ ys) < 2 ^ 64 \<Longrightarrow>
    read_compact (xs @ write_compact (of_nat m) @ ys) (behind xs) = Inr (of_nat m, behind (xs @ write_compact (of_nat m)))"
  by (rule read_write_compact [OF of_nat_less_32])

lemma skip_inputs_behind:
  "list_all zc_input_ok ins \<Longrightarrow> length (xs @ concat (map zc_input_bytes ins) @ ys) < 2 ^ 64 \<Longrightarrow>
    skip_inputs (xs @ concat (map zc_input_bytes ins) @ ys) (length ins) (behind xs) =
      Inr (behind (xs @ concat (map zc_input_bytes ins)))"
proof (induction ins arbitrary: xs)
  case (Cons x ins)
  obtain pv s sq where x: "x = (pv, s, sq)" by (cases x) auto
  have ok: "length pv = 36" "length sq = 4" "length s < 2 ^ 32" using Cons.prems(1) by (simp_all add: x zc_input_ok_def)
  define B where "B = xs @ concat (map zc_input_bytes (x # ins)) @ ys"
  have B1: "B = (xs @ pv) @ write_compact (of_nat (length s)) @ s @ sq @ concat (map zc_input_bytes ins) @ ys"
    and B2: "B = (xs @ zc_input_bytes x) @ concat (map zc_input_bytes ins) @ ys"
    by (simp_all add: B_def x zc_input_bytes_def)
  have small: "length B < 2 ^ 64" using Cons.prems(2) by (simp add: B_def)
  have pos: "behind xs + 36 = behind (xs @ pv)" using ok(1) by simp
  have rc: "read_compact B (behind xs + 36) = Inr (of_nat (length s), behind ((xs @ pv) @ write_compact (of_nat (length s))))"
    unfolding pos B1 using small ok(3) unfolding B1 by (intro read_compact_len)
  have pos2: "behind ((xs @ pv) @ write_compact (of_nat (length s))) + of_nat (length s) + 4 = behind (xs @ zc_input_bytes x)"
    using ok(2) by (simp add: x zc_input_bytes_def)
  have IH: "skip_inputs B (length ins) (behind (xs @ zc_input_bytes x)) = Inr (behind (xs @ concat (map zc_input_bytes (x # ins))))"
    using Cons.IH [of "xs @ zc_input_bytes x"] Cons.prems(1) small unfolding B2 by simp
  show ?case unfolding B_def [symmetric]
    by (simp only: list.size add_Suc_right add_0_right skip_inputs.simps rc bind_res_simps prod.case pos2 IH)
qed simp

text \<open>The triples of positions the parser keeps for outputs that start behind \<open>xs\<close>.\<close>

fun places :: "bytes \<Rightarrow> zc_output list \<Rightarrow> (u64 \<times> u64 \<times> u64) list" where
  "places xs [] = []"
| "places xs ((v, s) # outs) =
     (behind xs, behind (xs @ le_bytes 8 v @ write_compact (of_nat (length s))), of_nat (length s))
     # places (xs @ encode_output v s) outs"

lemma read_outputs_behind:
  "list_all zc_output_ok outs \<Longrightarrow> length (xs @ concat (map zc_output_bytes outs) @ ys) < 2 ^ 64 \<Longrightarrow>
    read_outputs (xs @ concat (map zc_output_bytes outs) @ ys) (length outs) (behind xs) =
      Inr (places xs outs, behind (xs @ concat (map zc_output_bytes outs)))"
proof (induction outs arbitrary: xs)
  case (Cons x outs)
  obtain v s where x: "x = (v, s)" by (cases x) auto
  have ok: "length s < 2 ^ 32" using Cons.prems(1) by (simp add: x zc_output_ok_def)
  define B where "B = xs @ concat (map zc_output_bytes (x # outs)) @ ys"
  have B1: "B = (xs @ le_bytes 8 v) @ write_compact (of_nat (length s)) @ s @ concat (map zc_output_bytes outs) @ ys"
    and B2: "B = (xs @ encode_output v s) @ concat (map zc_output_bytes outs) @ ys"
    by (simp_all add: B_def x zc_output_bytes_def encode_output_eq)
  have small: "length B < 2 ^ 64" using Cons.prems(2) by (simp add: B_def)
  have pos: "behind xs + 8 = behind (xs @ le_bytes 8 v)" by simp
  have rc: "read_compact B (behind xs + 8) = Inr (of_nat (length s), behind ((xs @ le_bytes 8 v) @ write_compact (of_nat (length s))))"
    unfolding pos B1 using small ok unfolding B1 by (intro read_compact_len)
  have pos2: "behind ((xs @ le_bytes 8 v) @ write_compact (of_nat (length s))) + of_nat (length s) = behind (xs @ encode_output v s)"
    by (simp add: encode_output_eq)
  have IH: "read_outputs B (length outs) (behind (xs @ encode_output v s)) =
      Inr (places (xs @ encode_output v s) outs, behind (xs @ concat (map zc_output_bytes (x # outs))))"
    using Cons.IH [of "xs @ encode_output v s"] Cons.prems(1) small unfolding B2 by (simp add: x zc_output_bytes_def)
  show ?case unfolding B_def [symmetric]
    by (simp only: list.size add_Suc_right add_0_right read_outputs.simps rc bind_res_simps prod.case pos2 IH) (simp add: x)
qed simp

definition front :: "bytes \<Rightarrow> zc_input list \<Rightarrow> bytes" where
  "front header ins = header @ write_compact (of_nat (length ins)) @ concat (map zc_input_bytes ins)"

text \<open>A transaction whose parts fit the format.\<close>

definition zc_fits :: "bytes \<Rightarrow> zc_input list \<Rightarrow> zc_output list \<Rightarrow> bytes \<Rightarrow> bool" where
  "zc_fits header ins outs bundles \<longleftrightarrow>
     length header = 20 \<and> list_all zc_input_ok ins \<and> list_all zc_output_ok outs \<and> length ins < 2 ^ 32 \<and>
     length outs < 2 ^ 32 \<and> length (zc_tx header ins outs bundles) < 2 ^ 64"

lemma zc_tx_front:
  "zc_tx header ins outs bundles =
    front header ins @ write_compact (of_nat (length outs)) @ concat (map zc_output_bytes outs) @ bundles"
  by (simp add: zc_tx_def front_def)

lemma zc_reads:
  assumes "zc_fits header ins outs bundles"
  defines "raw \<equiv> zc_tx header ins outs bundles"
    and "P \<equiv> front header ins @ write_compact (of_nat (length outs))"
  shows "read_compact raw 20 = Inr (of_nat (length ins), behind (header @ write_compact (of_nat (length ins))))"
    "skip_inputs raw (length ins) (behind (header @ write_compact (of_nat (length ins)))) = Inr (behind (front header ins))"
    "read_compact raw (behind (front header ins)) = Inr (of_nat (length outs), behind P)"
    "read_outputs raw (length outs) (behind P) = Inr (places P outs, behind (P @ concat (map zc_output_bytes outs)))"
proof -
  have f: "length header = 20" "list_all zc_input_ok ins" "list_all zc_output_ok outs" "length ins < 2 ^ 32"
    "length outs < 2 ^ 32" and small: "length raw < 2 ^ 64" using assms(1) by (simp_all add: zc_fits_def raw_def)
  have r1: "raw = header @ write_compact (of_nat (length ins)) @ concat (map zc_input_bytes ins)
      @ write_compact (of_nat (length outs)) @ concat (map zc_output_bytes outs) @ bundles"
    by (simp add: raw_def zc_tx_def)
  have r2: "raw = (header @ write_compact (of_nat (length ins))) @ concat (map zc_input_bytes ins)
      @ write_compact (of_nat (length outs)) @ concat (map zc_output_bytes outs) @ bundles"
    and r3: "raw = front header ins @ write_compact (of_nat (length outs)) @ concat (map zc_output_bytes outs) @ bundles"
    and r4: "raw = P @ concat (map zc_output_bytes outs) @ bundles"
    by (simp_all add: r1 P_def front_def)
  have twenty: "behind header = 20" using f(1) by simp
  show "read_compact raw 20 = Inr (of_nat (length ins), behind (header @ write_compact (of_nat (length ins))))"
    unfolding twenty [symmetric] r1 using small f(4) unfolding r1 by (intro read_compact_len)
  show "skip_inputs raw (length ins) (behind (header @ write_compact (of_nat (length ins)))) = Inr (behind (front header ins))"
    using skip_inputs_behind [OF f(2), of "header @ write_compact (of_nat (length ins))"] small unfolding r2
    by (simp add: front_def)
  show "read_compact raw (behind (front header ins)) = Inr (of_nat (length outs), behind P)"
    unfolding r3 P_def using small f(5) unfolding r3 by (intro read_compact_len)
  show "read_outputs raw (length outs) (behind P) = Inr (places P outs, behind (P @ concat (map zc_output_bytes outs)))"
    using read_outputs_behind [OF f(3)] small unfolding r4 .
qed

lemma unat_count: "n < 2 ^ 32 \<Longrightarrow> unat (of_nat n :: u64) = n"
  by (simp add: unat_of_nat)

lemma parse_layout_tx:
  assumes "zc_fits header ins outs bundles"
  shows "parse_layout (zc_tx header ins outs bundles) =
    Inr \<lparr>ly_vout_count_pos = behind (front header ins),
      ly_outputs_start = behind (front header ins @ write_compact (of_nat (length outs))),
      ly_outputs_end = behind (front header ins @ write_compact (of_nat (length outs)) @ concat (map zc_output_bytes outs)),
      ly_outputs = places (front header ins @ write_compact (of_nat (length outs))) outs\<rparr>"
proof -
  have n: "length ins < 2 ^ 32" "length outs < 2 ^ 32" using assms by (simp_all add: zc_fits_def)
  show ?thesis
    unfolding parse_layout_def
    by (simp only: zc_reads [OF assms] bind_res_simps prod.case unat_count [OF n(1)] unat_count [OF n(2)] append_assoc)
qed

lemma range_of_behind: "length (xs @ m @ ys) < 2 ^ 64 \<Longrightarrow> range_of (xs @ m @ ys) (behind xs) (behind (xs @ m)) = Inr m"
  using unat_behind [of xs] unat_behind [of "xs @ m"] by (simp add: range_of_def del: of_nat_add)

lemma read_values:
  "length (xs @ concat (map zc_output_bytes outs) @ ys) < 2 ^ 64 \<Longrightarrow>
    map_res (output_value (xs @ concat (map zc_output_bytes outs) @ ys)) (places xs outs) = Inr (map fst outs) \<and>
    map_res (output_script (xs @ concat (map zc_output_bytes outs) @ ys)) (places xs outs) = Inr (map snd outs)"
proof (induction outs arbitrary: xs)
  case (Cons x outs)
  obtain v s where x: "x = (v, s)" by (cases x) auto
  define B where "B = xs @ concat (map zc_output_bytes (x # outs)) @ ys"
  let ?h = "xs @ le_bytes 8 v @ write_compact (of_nat (length s))"
  have B1: "B = xs @ le_bytes 8 v @ write_compact (of_nat (length s)) @ s @ concat (map zc_output_bytes outs) @ ys"
    and B2: "B = ?h @ s @ concat (map zc_output_bytes outs) @ ys"
    and B3: "B = (xs @ encode_output v s) @ concat (map zc_output_bytes outs) @ ys"
    by (simp_all add: B_def x zc_output_bytes_def encode_output_eq)
  have small: "length B < 2 ^ 64" using Cons.prems by (simp add: B_def)
  have p1: "behind xs + 8 = behind (xs @ le_bytes 8 v)" and p2: "behind ?h + of_nat (length s) = behind (?h @ s)" by simp_all
  have "range_of B (behind xs) (behind xs + 8) = Inr (le_bytes 8 v)"
    unfolding p1 B1 using small unfolding B1 by (rule range_of_behind)
  moreover have "fold (\<lambda>b acc. acc OR push_bit (8 * b) (ucast (le_bytes 8 v ! b))) [0..<8] (0 :: u64) = v"
  proof -
    have "fold (\<lambda>b acc. acc OR push_bit (8 * b) (ucast (le_bytes 8 v ! b))) [0..<8] (0 :: u64) =
        fold (\<lambda>i acc. acc OR push_bit (8 * i) (ucast (ucast (drop_bit (8 * i) v) :: u8))) [0..<8] 0"
      by (rule fold_cong) (simp_all add: le_bytes_nth)
    then show ?thesis by (simp only: byte_join_loop) (simp add: take_bit_word_eq_self)
  qed
  ultimately have v: "output_value B (behind xs, p, q) = Inr v" for p q
    by (simp only: output_value_def fst_conv bind_res_simps)
  have s: "output_script B (p, behind ?h, of_nat (length s)) = Inr s" for p
    unfolding output_script_def fst_conv snd_conv p2 B2 using small unfolding B2 by (rule range_of_behind)
  have "map_res (output_value B) (places (xs @ encode_output v s) outs) = Inr (map fst outs) \<and>
      map_res (output_script B) (places (xs @ encode_output v s) outs) = Inr (map snd outs)"
    unfolding B3 using small unfolding B3 by (rule Cons.IH)
  then show ?case unfolding B_def [symmetric]
    by (simp only: x places.simps map_res.simps v s bind_res_simps list.map fst_conv snd_conv simp_thms)
qed simp

section \<open>The largest output\<close>

lemma largest_split:
  "(largest vs i (j, b) = (j, b) \<and> (\<forall>v \<in> set vs. v < b)) \<or>
   (\<exists>A m B. vs = A @ m # B \<and> largest vs i (j, b) = (i + length A, m) \<and> b \<le> m \<and>
     (\<forall>a \<in> set A. a \<le> m) \<and> (\<forall>v \<in> set B. v < m))"
proof (induction vs arbitrary: i j b)
  case (Cons v vs)
  define c where "c = (if v \<ge> b then (i, v) else (j, b))"
  have l: "largest (v # vs) i (j, b) = largest vs (Suc i) (fst c, snd c)" by (simp add: c_def)
  from Cons.IH [of "Suc i" "fst c" "snd c"] show ?case
  proof (elim disjE)
    assume h: "largest vs (Suc i) (fst c, snd c) = (fst c, snd c) \<and> (\<forall>v \<in> set vs. v < snd c)"
    show ?thesis
    proof (cases "v \<ge> b")
      case True
      then have "v # vs = [] @ v # vs \<and> largest (v # vs) i (j, b) = (i + length ([] :: u64 list), v) \<and> b \<le> v \<and>
          (\<forall>a \<in> set []. a \<le> v) \<and> (\<forall>u \<in> set vs. u < v)"
        using h by (simp add: l c_def)
      then show ?thesis by blast
    next
      case False
      then show ?thesis using h by (intro disjI1) (simp add: l c_def)
    qed
  next
    assume "\<exists>A m B. vs = A @ m # B \<and> largest vs (Suc i) (fst c, snd c) = (Suc i + length A, m) \<and> snd c \<le> m \<and>
      (\<forall>a \<in> set A. a \<le> m) \<and> (\<forall>v \<in> set B. v < m)"
    then obtain A m B where h: "vs = A @ m # B" "largest vs (Suc i) (fst c, snd c) = (Suc i + length A, m)" "snd c \<le> m"
      "\<forall>a \<in> set A. a \<le> m" "\<forall>v \<in> set B. v < m" by blast
    have "v \<le> m" "b \<le> m" using h(3) by (auto simp: c_def split: if_splits)
    have l': "largest (v # vs) i (j, b) = (i + length (v # A), m)" using h(2) by (simp only: l list.size add_Suc_right add_Suc add_0_right)
    have "v # vs = (v # A) @ m # B \<and> largest (v # vs) i (j, b) = (i + length (v # A), m) \<and> b \<le> m \<and>
        (\<forall>a \<in> set (v # A). a \<le> m) \<and> (\<forall>v \<in> set B. v < m)"
      using h(1,4,5) l' \<open>v \<le> m\<close> \<open>b \<le> m\<close> by (simp del: largest.simps)
    then show ?thesis by blast
  qed
qed simp

lemma largest_output:
  assumes "outs \<noteq> []"
  shows "\<exists>A m s B. outs = A @ (m, s) # B \<and> largest (map fst outs) 0 (0, 0) = (length A, m) \<and>
    (\<forall>x \<in> set A. fst x \<le> m) \<and> (\<forall>x \<in> set B. fst x < m)"
proof -
  have "\<not> (\<forall>v \<in> set (map fst outs). v < (0 :: u64))" using assms by (cases outs) auto
  then obtain A m B where h: "map fst outs = A @ m # B" "largest (map fst outs) 0 (0, 0) = (length A, m)"
      "\<forall>a \<in> set A. a \<le> m" "\<forall>v \<in> set B. v < m"
    using largest_split [of "map fst outs" 0 0 0] by auto
  then obtain A' x B' where o: "outs = A' @ x # B'" "map fst A' = A" "fst x = m" "map fst B' = B"
    by (auto simp: map_eq_append_conv)
  have "outs = A' @ (m, snd x) # B'" using o(1,3) by (cases x) simp
  moreover have "length A' = length A" using o(2) by auto
  moreover have "\<forall>x \<in> set A'. fst x \<le> m" "\<forall>x \<in> set B'. fst x < m"
    using h(3,4) unfolding o(2) [symmetric] o(4) [symmetric] by simp_all
  ultimately show ?thesis using h(2) by metis
qed

lemma upt_0_Suc: "[0..<Suc n] = 0 # map Suc [0..<n]"
  by (simp add: map_Suc_upt upt_conv_Cons del: upt_Suc)

lemma replace_nth:
  "concat (map (\<lambda>i. if i = length A then X else [(A @ y # B) ! i]) [0..<length (A @ y # B)]) = A @ X @ B"
proof (induction A)
  case Nil
  have "concat (map (\<lambda>i. [B ! i]) [0..<length B]) = B" by (simp add: concat_map_singleton map_nth)
  then show ?case by (simp add: upt_0_Suc comp_def del: upt_Suc)
next
  case (Cons a A)
  have "concat (map (\<lambda>i. if i = length (a # A) then X else [((a # A) @ y # B) ! i]) (0 # map Suc l)) =
      a # concat (map (\<lambda>i. if i = length A then X else [(A @ y # B) ! i]) l)" for l
    by (simp add: comp_def cong: if_cong)
  moreover have "length ((a # A) @ y # B) = Suc (length (A @ y # B))" by simp
  ultimately show ?case by (simp only: upt_0_Suc Cons.IH append_Cons)
qed

lemma donation_part_cases:
  "donation_part F m ds p = 0 \<or> (donation_part F m ds p < m \<and> ds \<noteq> [] \<and> 0 < p)"
  by (auto simp: donation_part_def Let_def not_le)

section \<open>Properties\<close>

text \<open>
  C28. Redirecting the reward of a Zcash coinbase touches nothing else: for every transaction laid out
  as the format says, the last of the largest outputs is replaced by an output to the miner's script,
  followed by the donation when there is one, and every other output, the inputs, the header and what
  follows the outputs stay as they are; the miner's and the donation's amounts add up to the amount
  that was redirected.
\<close>

theorem zcash_redirect:
  assumes "zc_fits header ins outs bundles" "outs \<noteq> []" "miner_script \<noteq> []"
  shows "\<exists>A m s B d. outs = A @ (m, s) # B \<and> (\<forall>x \<in> set A. fst x \<le> m) \<and> (\<forall>x \<in> set B. fst x < m) \<and>
    swap_miner_output F (zc_tx header ins outs bundles) miner_script donation_script donation_percent =
      Inr (zc_tx header ins (A @ (m - d, miner_script) # (if d = 0 then [] else [(d, donation_script)]) @ B) bundles) \<and>
    unat (m - d) + unat d = unat m \<and> (d \<noteq> 0 \<longrightarrow> d < m \<and> donation_script \<noteq> [] \<and> 0 < donation_percent)"
proof -
  define raw where "raw = zc_tx header ins outs bundles"
  define P where "P = front header ins @ write_compact (of_nat (length outs))"
  have small: "length raw < 2 ^ 64" using assms(1) by (simp add: zc_fits_def raw_def)
  have r1: "raw = P @ concat (map zc_output_bytes outs) @ bundles"
    and r2: "raw = [] @ front header ins @ write_compact (of_nat (length outs)) @ concat (map zc_output_bytes outs) @ bundles"
    and r3: "raw = (P @ concat (map zc_output_bytes outs)) @ bundles @ []"
    by (simp_all add: raw_def zc_tx_front P_def)
  obtain A m s B where o: "outs = A @ (m, s) # B" "largest (map fst outs) 0 (0, 0) = (length A, m)"
      "\<forall>x \<in> set A. fst x \<le> m" "\<forall>x \<in> set B. fst x < m"
    using largest_output [OF assms(2)] by blast
  define d where "d = donation_part F m donation_script donation_percent"
  define X where "X = (m - d, miner_script) # (if d = 0 then [] else [(d, donation_script)])"
  have lay: "parse_layout raw = Inr \<lparr>ly_vout_count_pos = behind (front header ins), ly_outputs_start = behind P,
      ly_outputs_end = behind (P @ concat (map zc_output_bytes outs)), ly_outputs = places P outs\<rparr>"
    using parse_layout_tx [OF assms(1)] by (simp only: raw_def P_def append_assoc)
  have ne: "\<not> (places P outs = [] \<or> miner_script = [])" using assms(2,3) by (cases outs) auto
  have vals: "map_res (output_value raw) (places P outs) = Inr (map fst outs)"
    and scripts: "map_res (output_script raw) (places P outs) = Inr (map snd outs)"
    using read_values [of P outs bundles] small unfolding r1 by simp_all
  have head: "range_of raw 0 (behind (front header ins)) = Inr (front header ins)"
    using range_of_behind [of "[]" "front header ins"] small unfolding r2 by simp
  have tl: "range_of raw (behind (P @ concat (map zc_output_bytes outs))) (behind raw) = Inr bundles"
    using range_of_behind [of "P @ concat (map zc_output_bytes outs)" bundles "[]"] small unfolding r3 by simp
  have new: "concat (map (\<lambda>i. if i = length A then X else [(map fst outs ! i, map snd outs ! i)]) [0..<length (map fst outs)]) = A @ X @ B"
  proof -
    have "map (\<lambda>i. if i = length A then X else [(map fst outs ! i, map snd outs ! i)]) [0..<length (map fst outs)] =
        map (\<lambda>i. if i = length A then X else [outs ! i]) [0..<length outs]"
      by (rule map_cong) auto
    then show ?thesis by (simp only: o(1) replace_nth)
  qed
  have "swap_miner_output F raw miner_script donation_script donation_percent =
      Inr (front header ins @ write_compact (of_nat (length (A @ X @ B))) @ concat (map (\<lambda>(v, s). encode_output v s) (A @ X @ B)) @ bundles)"
    unfolding swap_miner_output_def lay bind_res_simps coinbase_layout.simps if_not_P [OF ne] vals o(2) Let_def prod.case scripts head
      tl d_def [symmetric] X_def [symmetric] new ..
  also have "\<dots> = Inr (zc_tx header ins (A @ (m - d, miner_script) # (if d = 0 then [] else [(d, donation_script)]) @ B) bundles)"
    unfolding zc_tx_front zc_output_bytes_def by (simp add: X_def)
  finally have swap: "swap_miner_output F raw miner_script donation_script donation_percent = \<dots>" .
  have dc: "d = 0 \<or> d < m \<and> donation_script \<noteq> [] \<and> 0 < donation_percent"
    unfolding d_def using donation_part_cases [of F m donation_script donation_percent] by blast
  then have "d \<le> m" by (elim disjE) (simp_all add: order.strict_implies_order)
  then have "unat (m - d) = unat m - unat d" "unat d \<le> unat m" by (simp_all add: unat_sub word_le_nat_alt)
  then have "unat (m - d) + unat d = unat m" by simp
  then have "outs = A @ (m, s) # B \<and> (\<forall>x \<in> set A. fst x \<le> m) \<and> (\<forall>x \<in> set B. fst x < m) \<and>
      swap_miner_output F raw miner_script donation_script donation_percent =
        Inr (zc_tx header ins (A @ (m - d, miner_script) # (if d = 0 then [] else [(d, donation_script)]) @ B) bundles) \<and>
      unat (m - d) + unat d = unat m \<and> (d \<noteq> 0 \<longrightarrow> d < m \<and> donation_script \<noteq> [] \<and> 0 < donation_percent)"
    using dc by (intro conjI o(1) o(3) o(4) swap) (assumption, blast)
  then show ?thesis unfolding raw_def by (intro exI)
qed

text \<open>A transaction with one input and two outputs.\<close>

definition sample_zc :: "zc_output list" where
  "sample_zc = [(3, [1]), (5, [2])]"

lemma sample_zc_fits: "zc_fits (replicate 20 0) [(replicate 36 0, [7], replicate 4 0)] sample_zc []"
  unfolding zc_fits_def zc_tx_def zc_input_bytes_def zc_output_bytes_def zc_input_ok_def zc_output_ok_def sample_zc_def encode_output_eq
    write_compact_eq
  by (simp only: list.pred_inject prod.case length_replicate list.map concat.simps length_append list.size length_le_bytes) simp

theorem zcash_redirect_witness:
  "swap_miner_output exact_fpu (zc_tx (replicate 20 0) [(replicate 36 0, [7], replicate 4 0)] sample_zc []) [9] [] 0 =
    Inr (zc_tx (replicate 20 0) [(replicate 36 0, [7], replicate 4 0)] [(3, [1]), (5, [9])] [])"
proof -
  obtain A m s B d where h: "sample_zc = A @ (m, s) # B" "\<forall>x \<in> set B. fst x < m" "\<forall>x \<in> set A. fst x \<le> m"
    "swap_miner_output exact_fpu (zc_tx (replicate 20 0) [(replicate 36 0, [7], replicate 4 0)] sample_zc []) [9] [] 0 =
      Inr (zc_tx (replicate 20 0) [(replicate 36 0, [7], replicate 4 0)] (A @ (m - d, [9]) # (if d = 0 then [] else [(d, [])]) @ B) [])"
    "d \<noteq> 0 \<longrightarrow> ([] :: bytes) \<noteq> []"
    using zcash_redirect [OF sample_zc_fits, of "[9]" exact_fpu "[]" 0] by (auto simp: sample_zc_def)
  then have d: "d = 0" by simp
  have "A = [(3, [1])] \<and> (m, s) = (5, [2]) \<and> B = []"
    using h(1-3) by (auto simp: sample_zc_def Cons_eq_append_conv)
  then show ?thesis using h(4) by (simp add: d)
qed

section \<open>The transaction id\<close>

lemma gather_inputs_behind:
  "list_all zc_input_ok ins \<Longrightarrow> length (xs @ concat (map zc_input_bytes ins) @ ys) < 2 ^ 64 \<Longrightarrow>
    gather_inputs (xs @ concat (map zc_input_bytes ins) @ ys) (length ins) (behind xs) =
      Inr (concat (map fst ins), concat (map (\<lambda>x. snd (snd x)) ins), behind (xs @ concat (map zc_input_bytes ins)))"
proof (induction ins arbitrary: xs)
  case (Cons x ins)
  obtain pv s sq where x: "x = (pv, s, sq)" by (cases x) auto
  have ok: "length pv = 36" "length sq = 4" "length s < 2 ^ 32" using Cons.prems(1) by (simp_all add: x zc_input_ok_def)
  define B where "B = xs @ concat (map zc_input_bytes (x # ins)) @ ys"
  let ?h = "(xs @ pv) @ write_compact (of_nat (length s))"
  have B0: "B = xs @ pv @ write_compact (of_nat (length s)) @ s @ sq @ concat (map zc_input_bytes ins) @ ys"
    and B1: "B = (xs @ pv) @ write_compact (of_nat (length s)) @ s @ sq @ concat (map zc_input_bytes ins) @ ys"
    and B2: "B = (xs @ zc_input_bytes x) @ concat (map zc_input_bytes ins) @ ys"
    and B3: "B = (?h @ s) @ sq @ concat (map zc_input_bytes ins) @ ys"
    by (simp_all add: B_def x zc_input_bytes_def)
  have small: "length B < 2 ^ 64" using Cons.prems(2) by (simp add: B_def)
  have pos: "behind xs + 36 = behind (xs @ pv)" using ok(1) by simp
  have pv: "range_of B (behind xs) (behind xs + 36) = Inr pv"
    unfolding pos B0 using small unfolding B0 by (rule range_of_behind)
  have rc: "read_compact B (behind xs + 36) = Inr (of_nat (length s), behind ?h)"
    unfolding pos B1 using small ok(3) unfolding B1 by (intro read_compact_len)
  have pos2: "behind ?h + of_nat (length s) = behind (?h @ s)" by simp
  have pos3: "behind (?h @ s) + 4 = behind ((?h @ s) @ sq)" using ok(2) by simp
  have sq: "range_of B (behind (?h @ s)) (behind (?h @ s) + 4) = Inr sq"
    unfolding pos3 B3 using small unfolding B3 by (rule range_of_behind)
  have pos4: "behind (?h @ s) + 4 = behind (xs @ zc_input_bytes x)" unfolding pos3 by (simp add: x zc_input_bytes_def)
  have IH: "gather_inputs B (length ins) (behind (xs @ zc_input_bytes x)) =
      Inr (concat (map fst ins), concat (map (\<lambda>x. snd (snd x)) ins), behind (xs @ concat (map zc_input_bytes (x # ins))))"
    using Cons.IH [of "xs @ zc_input_bytes x"] Cons.prems(1) small unfolding B2 by simp
  show ?case unfolding B_def [symmetric]
    by (simp only: list.size add_Suc_right add_0_right gather_inputs.simps pv rc bind_res_simps prod.case pos2 pos4 sq [unfolded pos4] IH)
      (simp add: x)
qed simp

text \<open>What the code hashes, for any bytes behind the outputs.\<close>

lemma zip244_reads:
  assumes "zc_fits header ins outs bundles"
  shows "zip244_txid blake (zc_tx header ins outs bundles) =
    Inr (blake (personal ''ZcashTxHash_'' @ take 4 (drop 8 header))
       (blake (personal ''ZTxIdHeadersHash'') header
        @ blake (personal ''ZTxIdTranspaHash'')
            (blake (personal ''ZTxIdPrevoutHash'') (concat (map fst ins))
             @ blake (personal ''ZTxIdSequencHash'') (concat (map (\<lambda>x. snd (snd x)) ins))
             @ blake (personal ''ZTxIdOutputsHash'') (concat (map zc_output_bytes outs)))
        @ blake (personal ''ZTxIdSaplingHash'') []
        @ blake (personal ''ZTxIdOrchardHash'') []))"
proof -
  define raw where "raw = zc_tx header ins outs bundles"
  define P where "P = front header ins @ write_compact (of_nat (length outs))"
  have len: "length header = 20" and n: "length ins < 2 ^ 32" "length outs < 2 ^ 32" and ok: "list_all zc_input_ok ins"
    and small: "length raw < 2 ^ 64"
    using assms by (simp_all add: zc_fits_def raw_def)
  obtain rest where r1: "raw = [] @ header @ rest" by (simp add: raw_def zc_tx_def)
  have r2: "raw = P @ concat (map zc_output_bytes outs) @ bundles" by (simp add: raw_def zc_tx_front P_def)
  have r3: "raw = (header @ write_compact (of_nat (length ins))) @ concat (map zc_input_bytes ins)
      @ write_compact (of_nat (length outs)) @ concat (map zc_output_bytes outs) @ bundles"
    by (simp add: raw_def zc_tx_def)
  have r4: "raw = take 8 header @ take 4 (drop 8 header) @ drop 12 header @ rest"
  proof -
    have "header = take 8 header @ take 4 (drop 8 header) @ drop 4 (drop 8 header)" by (simp only: append_take_drop_id)
    then show ?thesis using r1 by (simp add: drop_drop)
  qed
  have "behind header = 20" "behind (take 8 header) = 8" "behind (take 8 header @ take 4 (drop 8 header)) = 12"
    using len by simp_all
  then have hd: "range_of raw 0 20 = Inr header" and br: "range_of raw 8 12 = Inr (take 4 (drop 8 header))"
    using range_of_behind [of "[]" header rest] range_of_behind [of "take 8 header" "take 4 (drop 8 header)" "drop 12 header @ rest"] small
    unfolding r1 [symmetric] r4 [symmetric] by simp_all
  have g: "gather_inputs raw (length ins) (behind (header @ write_compact (of_nat (length ins)))) =
      Inr (concat (map fst ins), concat (map (\<lambda>x. snd (snd x)) ins), behind (front header ins))"
    using gather_inputs_behind [OF ok, of "header @ write_compact (of_nat (length ins))"] small unfolding r3 by (simp add: front_def)
  have o: "range_of raw (behind P) (behind (P @ concat (map zc_output_bytes outs))) = Inr (concat (map zc_output_bytes outs))"
    using small unfolding r2 by (rule range_of_behind)
  note reads = zc_reads [OF assms, folded raw_def, folded P_def]
  show ?thesis unfolding raw_def [symmetric] zip244_txid_def
    by (simp only: hd br reads g o bind_res_simps prod.case unat_count [OF n(1)] unat_count [OF n(2)] Let_def append_assoc)
qed

text \<open>
  The transaction digest of ZIP 244 for a version 5 transaction without shielded parts: the digests
  of the empty Sapling and Orchard bundles, and the transparent digest, which is that of the empty
  string when there is no transparent input and no output.
\<close>

definition transparent_digest :: "blake2b \<Rightarrow> zc_input list \<Rightarrow> zc_output list \<Rightarrow> bytes" where
  "transparent_digest blake ins outs =
     blake (personal ''ZTxIdTranspaHash'')
       (if ins = [] \<and> outs = [] then []
        else blake (personal ''ZTxIdPrevoutHash'') (concat (map fst ins))
             @ blake (personal ''ZTxIdSequencHash'') (concat (map (\<lambda>x. snd (snd x)) ins))
             @ blake (personal ''ZTxIdOutputsHash'') (concat (map zc_output_bytes outs)))"

definition zip244_digest :: "blake2b \<Rightarrow> bytes \<Rightarrow> zc_input list \<Rightarrow> zc_output list \<Rightarrow> bytes" where
  "zip244_digest blake header ins outs =
     blake (personal ''ZcashTxHash_'' @ take 4 (drop 8 header))
       (blake (personal ''ZTxIdHeadersHash'') header
        @ transparent_digest blake ins outs
        @ blake (personal ''ZTxIdSaplingHash'') []
        @ blake (personal ''ZTxIdOrchardHash'') [])"

text \<open>The bytes behind the outputs when no shielded part is there: three counts of zero.\<close>

definition no_bundles :: bytes where
  "no_bundles = [0, 0, 0]"

text \<open>
  C29. The id of a Zcash coinbase laid out as the format says, with at least one input and with empty
  Sapling and Orchard bundles, is the ZIP 244 digest of its header, outpoints, sequences and
  outputs; it depends on no input script. The code does not look at the bundles: for a transaction
  that has shielded parts the value is not its id.
\<close>

theorem zcash_txid:
  assumes "zc_fits header ins outs no_bundles" "ins \<noteq> []"
  shows "zip244_txid blake (zc_tx header ins outs no_bundles) = Inr (zip244_digest blake header ins outs)"
  using zip244_reads [OF assms(1), of blake] assms(2) by (simp add: zip244_digest_def transparent_digest_def)
lemma sample_coinbase_fits: "zc_fits (replicate 20 0) [(replicate 36 0, [7], replicate 4 0)] sample_zc no_bundles"
  unfolding zc_fits_def zc_tx_def zc_input_bytes_def zc_output_bytes_def zc_input_ok_def zc_output_ok_def sample_zc_def encode_output_eq
    write_compact_eq no_bundles_def
  by (simp only: list.pred_inject prod.case length_replicate list.map concat.simps length_append list.size length_le_bytes) simp

theorem zcash_txid_witness:
  "zip244_txid (\<lambda>p x. take 4 (p @ x)) (zc_tx (replicate 20 0) [(replicate 36 0, [7], replicate 4 0)] sample_zc no_bundles) =
    Inr (zip244_digest (\<lambda>p x. take 4 (p @ x)) (replicate 20 0) [(replicate 36 0, [7], replicate 4 0)] sample_zc)"
  by (rule zcash_txid [OF sample_coinbase_fits]) simp

end
