(* ===== verification/Equihash.thy ===== *)
theory Equihash
  imports Prelude "HOL-Library.Multiset"
begin

text \<open>
  \<open>src/equihash.hpp\<close>: verification of an Equihash 200,9 solution. A row of the code is one buffer with
  the remaining hash in front and the indices behind it; here it is the pair of the two. BLAKE2b
  with its personalisation is libsodium's and is an argument. Shown here: an accepted solution is a
  solution of the generalised birthday problem, that is 512 distinct indices whose hashes cancel.
\<close>

section \<open>Unpacking bits\<close>

text \<open>The output bytes of one group: padding, then the masked bytes of the accumulator.\<close>

definition group_bytes :: "nat \<Rightarrow> nat \<Rightarrow> u32 \<Rightarrow> nat \<Rightarrow> nat \<Rightarrow> bytes" where
  "group_bytes out_width bit_len acc_value acc_bits byte_pad =
     replicate byte_pad 0 @
     map (\<lambda>x. ucast (drop_bit (acc_bits + 8 * (out_width - x - 1)) acc_value AND
              (drop_bit (8 * (out_width - x - 1)) (push_bit bit_len 1 - 1) AND 0xff)))
       [byte_pad..<out_width]"

fun expand_loop :: "nat \<Rightarrow> nat \<Rightarrow> u32 \<Rightarrow> nat \<Rightarrow> bytes \<Rightarrow> bytes" where
  "expand_loop bit_len byte_pad acc_value acc_bits [] = []"
| "expand_loop bit_len byte_pad acc_value acc_bits (b # bs) =
     (let acc_value = push_bit 8 acc_value OR ucast b; acc_bits = acc_bits + 8
      in if acc_bits \<ge> bit_len
         then group_bytes ((bit_len + 7) div 8 + byte_pad) bit_len acc_value (acc_bits - bit_len) byte_pad
              @ expand_loop bit_len byte_pad acc_value (acc_bits - bit_len) bs
         else expand_loop bit_len byte_pad acc_value acc_bits bs)"

definition ExpandArray :: "bytes \<Rightarrow> nat \<Rightarrow> nat \<Rightarrow> bytes" where
  "ExpandArray inp bit_len byte_pad = expand_loop bit_len byte_pad 0 0 inp"

text \<open>Four bytes, big endian.\<close>

definition from_be32 :: "bytes \<Rightarrow> u32" where
  "from_be32 b = of_nat (be_value b)"

definition to_be32 :: "u32 \<Rightarrow> bytes" where
  "to_be32 v = rev (le_bytes 4 v)"

fun chunks4 :: "bytes \<Rightarrow> bytes list" where
  "chunks4 (a # b # c # d # bs) = [a, b, c, d] # chunks4 bs"
| "chunks4 _ = []"

definition GetIndicesFromMinimal :: "bytes \<Rightarrow> nat \<Rightarrow> u32 list" where
  "GetIndicesFromMinimal soln cBitLen =
     map from_be32 (chunks4 (ExpandArray soln (cBitLen + 1) (4 - (cBitLen + 1 + 7) div 8)))"

section \<open>Rows\<close>

type_synonym step_row = "bytes \<times> bytes"

definition row_init :: "bytes \<Rightarrow> nat \<Rightarrow> u32 \<Rightarrow> step_row" where
  "row_init hashIn cBitLen index = (ExpandArray hashIn cBitLen 0, to_be32 index)"

text \<open>\<open>memcmp(a, b) < 0\<close> on buffers of one length.\<close>

fun memcmp_less :: "bytes \<Rightarrow> bytes \<Rightarrow> bool" where
  "memcmp_less (x # xs) (y # ys) = (if x = y then memcmp_less xs ys else x < y)"
| "memcmp_less _ _ = False"

definition row_collide :: "nat \<Rightarrow> step_row \<Rightarrow> step_row \<Rightarrow> step_row" where
  "row_collide trim a b =
     (drop trim (map2 (\<lambda>x y. x XOR y) (fst a) (fst b)),
      if memcmp_less (snd a) (snd b) then snd a @ snd b else snd b @ snd a)"

definition DistinctIndices :: "step_row \<Rightarrow> step_row \<Rightarrow> bool" where
  "DistinctIndices a b = list_all (\<lambda>x. list_all (\<lambda>y. x \<noteq> y) (chunks4 (snd b))) (chunks4 (snd a))"

definition pair_ok :: "step_row \<Rightarrow> step_row \<Rightarrow> bool" where
  "pair_ok a b \<longleftrightarrow> take 3 (fst a) = take 3 (fst b) \<and> \<not> memcmp_less (snd b) (snd a) \<and> DistinctIndices a b"

text \<open>One round over the pairs, and the rounds until one row is left; \<open>None\<close> is the answer no.\<close>

fun collide_round :: "step_row list \<Rightarrow> step_row list option" where
  "collide_round (a # b # X) =
     (if pair_ok a b then map_option ((#) (row_collide 3 a b)) (collide_round X) else None)"
| "collide_round _ = Some []"

lemma length_collide_round: "collide_round X = Some Y \<Longrightarrow> length Y = length X div 2"
  by (induction X arbitrary: Y rule: collide_round.induct) (auto split: if_splits)

function collide_all :: "step_row list \<Rightarrow> step_row option" where
  "collide_all X =
     (if length X \<le> 1 then (case X of [] \<Rightarrow> None | r # _ \<Rightarrow> Some r)
      else case collide_round X of None \<Rightarrow> None | Some Y \<Rightarrow> collide_all Y)"
  by auto
termination
  by (relation "measure length") (auto dest: length_collide_round)

declare collide_all.simps [simp del]

section \<open>Verification\<close>

definition zcash_pow_personal :: bytes where
  "zcash_pow_personal = map byte_of_char ''ZcashPoW'' @ le_bytes 4 (200 :: u32) @ le_bytes 4 (9 :: u32)"

definition initial_row :: "(bytes \<Rightarrow> bytes \<Rightarrow> bytes) \<Rightarrow> bytes \<Rightarrow> u32 \<Rightarrow> step_row" where
  "initial_row blake header idx =
     (let tmpHash = blake zcash_pow_personal (header @ le_bytes 4 (idx div 2))
      in row_init (take 25 (drop (unat (idx mod 2) * 25) tmpHash)) 20 idx)"

definition verify_200_9 :: "(bytes \<Rightarrow> bytes \<Rightarrow> bytes) \<Rightarrow> bytes \<Rightarrow> bytes \<Rightarrow> bool" where
  "verify_200_9 blake header soln =
     (if length soln \<noteq> 1344 then False
      else let indices = GetIndicesFromMinimal soln 20
           in if length indices \<noteq> 512 then False
              else case collide_all (map (initial_row blake header) indices) of
                     None \<Rightarrow> False
                   | Some row \<Rightarrow> list_all (\<lambda>b. b = 0) (fst row))"

section \<open>Facts\<close>

lemma length_to_be32 [simp]: "length (to_be32 v) = 4"
  by (simp add: to_be32_def)

lemma chunks4_append: "4 dvd length xs \<Longrightarrow> chunks4 (xs @ ys) = chunks4 xs @ chunks4 ys"
proof (induction xs rule: chunks4.induct)
  case (1 a b c d bs)
  have "length (a # b # c # d # bs) = 4 + length bs" by simp
  with "1.prems" have "4 dvd 4 + length bs" by (simp only:)
  then have "4 dvd length bs" by (simp only: dvd_add_triv_left_iff)
  with "1.IH" show ?case by simp
qed (auto dest: dvd_imp_le)

text \<open>The exclusive or of two byte strings of one length, and of a list of them.\<close>

definition xor2 :: "bytes \<Rightarrow> bytes \<Rightarrow> bytes" where
  "xor2 xs ys = map2 (\<lambda>x y. x XOR y) xs ys"

definition xors :: "nat \<Rightarrow> step_row list \<Rightarrow> bytes" where
  "xors L X = fold (\<lambda>r acc. xor2 acc (fst r)) X (replicate L 0)"

lemma length_xor2 [simp]: "length xs = n \<Longrightarrow> length ys = n \<Longrightarrow> length (xor2 xs ys) = n"
  by (simp add: xor2_def)

lemma nth_xor2 [simp]: "i < length xs \<Longrightarrow> i < length ys \<Longrightarrow> xor2 xs ys ! i = xs ! i XOR ys ! i"
  by (simp add: xor2_def)

definition hashes_of :: "nat \<Rightarrow> step_row list \<Rightarrow> bool" where
  "hashes_of L X \<longleftrightarrow> (\<forall>r \<in> set X. length (fst r) = L)"

lemma xors_fold:
  "hashes_of L X \<Longrightarrow> length a = L \<Longrightarrow>
    fold (\<lambda>r acc. xor2 acc (fst r)) X a = xor2 a (xors L X) \<and> length (xors L X) = L"
proof (induction X arbitrary: a)
  case Nil
  then show ?case by (auto simp: xors_def xor2_def intro: nth_equalityI)
next
  case (Cons r X)
  have r: "length (fst r) = L" "hashes_of L X" using Cons.prems by (auto simp: hashes_of_def)
  have z: "xor2 (replicate L 0) (fst r) = fst r" using r by (auto simp: xor2_def intro: nth_equalityI)
  have x: "xors L (r # X) = xor2 (fst r) (xors L X)" using Cons.IH [OF r(2,1)] by (simp add: xors_def z)
  have "fold (\<lambda>r acc. xor2 acc (fst r)) (r # X) a = xor2 (xor2 a (fst r)) (xors L X)"
    using Cons.IH [OF r(2), of "xor2 a (fst r)"] Cons.prems(2) r by simp
  also have "\<dots> = xor2 a (xor2 (fst r) (xors L X))"
    using Cons.prems(2) r Cons.IH [OF r(2,1)] by (auto simp: xor2_def xor.assoc intro!: nth_equalityI)
  finally show ?case using x Cons.IH [OF r(2,1)] r by simp
qed

lemma length_xors [simp]: "hashes_of L X \<Longrightarrow> length (xors L X) = L"
  using xors_fold [of L X "replicate L 0"] by simp

lemma hashes_of_append [simp]: "hashes_of L (X @ Y) \<longleftrightarrow> hashes_of L X \<and> hashes_of L Y"
  by (auto simp: hashes_of_def)

lemma xors_append: "hashes_of L X \<Longrightarrow> hashes_of L Y \<Longrightarrow> xors L (X @ Y) = xor2 (xors L X) (xors L Y)"
  using xors_fold [of L Y "xors L X"] by (simp add: xors_def [of L "X @ Y"] xors_def [of L X, symmetric])

definition indices_of :: "step_row list \<Rightarrow> bytes" where
  "indices_of X = concat (map snd X)"

lemma indices_of_append [simp]: "indices_of (X @ Y) = indices_of X @ indices_of Y"
  by (simp add: indices_of_def)

definition leaves :: "nat \<Rightarrow> step_row list \<Rightarrow> bool" where
  "leaves L X \<longleftrightarrow> (\<forall>r \<in> set X. length (fst r) = L \<and> length (snd r) = 4)"

lemma leaves_append [simp]: "leaves L (X @ Y) \<longleftrightarrow> leaves L X \<and> leaves L Y"
  by (auto simp: leaves_def)

lemma leaves_hashes: "leaves L X \<Longrightarrow> hashes_of L X"
  by (simp add: leaves_def hashes_of_def)

lemma leaves_indices: "leaves L X \<Longrightarrow> length (indices_of X) = 4 * length X"
  by (induction X) (auto simp: leaves_def indices_of_def)

section \<open>The puzzle\<close>

text \<open>
  Wagner's conditions on \<open>2 ^ k\<close> leaves: both halves satisfy them, the hashes of all leaves cancel in
  one more group of three bytes per level, and the indices of the left half come first.
\<close>

fun wagner :: "nat \<Rightarrow> nat \<Rightarrow> step_row list \<Rightarrow> bool" where
  "wagner L 0 X = True"
| "wagner L (Suc k) X =
     (wagner L k (take (2 ^ k) X) \<and> wagner L k (drop (2 ^ k) X) \<and>
      take (3 * Suc k) (xors L X) = replicate (3 * Suc k) 0 \<and>
      memcmp_less (indices_of (take (2 ^ k) X)) (indices_of (drop (2 ^ k) X)))"

lemma memcmp_total: "length xs = length ys \<Longrightarrow> memcmp_less xs ys \<or> memcmp_less ys xs \<or> xs = ys"
  by (induction xs ys rule: list_induct2) auto

lemma memcmp_asym: "memcmp_less xs ys \<Longrightarrow> \<not> memcmp_less ys xs"
  by (induction xs ys rule: memcmp_less.induct) (auto split: if_splits)

lemma DistinctIndices_iff: "DistinctIndices a b \<longleftrightarrow> set (chunks4 (snd a)) \<inter> set (chunks4 (snd b)) = {}"
  by (auto simp: DistinctIndices_def list_all_iff)

lemma collide_round_append:
  "even (length X) \<Longrightarrow> collide_round (X @ Y) =
    (case (collide_round X, collide_round Y) of (Some X', Some Y') \<Rightarrow> Some (X' @ Y') | _ \<Rightarrow> None)"
  by (induction X rule: collide_round.induct) (auto split: option.split)

lemma collide_all_halves:
  "length X = 2 ^ k \<Longrightarrow> length Y = 2 ^ k \<Longrightarrow> collide_all (X @ Y) =
    (case (collide_all X, collide_all Y) of
       (Some a, Some b) \<Rightarrow> if pair_ok a b then Some (row_collide 3 a b) else None | _ \<Rightarrow> None)"
proof (induction k arbitrary: X Y)
  case 0
  then obtain a b where "X = [a]" "Y = [b]" by (cases X; cases Y) auto
  then show ?case by (simp add: collide_all.simps)
next
  case (Suc k)
  have two: "2 \<le> length X" "2 \<le> length Y" using Suc.prems by simp_all
  then have big: "\<not> length X \<le> 1" "\<not> length Y \<le> 1" "\<not> length (X @ Y) \<le> 1" by simp_all
  have ev: "even (length X)" "even (length Y)" using Suc.prems by simp_all
  note big = big ev
  have all: "collide_all Z = (case collide_round Z of None \<Rightarrow> None | Some Z' \<Rightarrow> collide_all Z')" if "\<not> length Z \<le> 1" for Z
    using that by (subst collide_all.simps) simp
  show ?case
  proof (cases "collide_round X")
    case None
    then show ?thesis using big by (simp add: all collide_round_append)
  next
    case X: (Some X')
    show ?thesis
    proof (cases "collide_round Y")
      case None
      then show ?thesis using big X by (simp add: all collide_round_append split: option.split)
    next
      case Y: (Some Y')
      have "length X' = 2 ^ k" "length Y' = 2 ^ k"
        using length_collide_round [OF X] length_collide_round [OF Y] Suc.prems by simp_all
      from Suc.IH [OF this] show ?thesis using big X Y by (simp add: all collide_round_append)
    qed
  qed
qed

lemma take_xor_zero:
  assumes "length xs = n" "length ys = n" "m + 3 \<le> n" "take m xs = replicate m 0" "take m ys = replicate m 0"
  shows "take (m + 3) (xor2 xs ys) = replicate (m + 3) 0 \<longleftrightarrow> take 3 (drop m xs) = take 3 (drop m ys)"
proof -
  have low: "xs ! i = 0" "ys ! i = 0" if "i < m" for i
    using arg_cong [OF assms(4), of "\<lambda>l. l ! i"] arg_cong [OF assms(5), of "\<lambda>l. l ! i"] that assms(1-3) by simp_all
  have eq0: "u XOR v = 0 \<longleftrightarrow> u = v" for u v :: u8
    by (metis xor.assoc xor.left_neutral xor_self_eq)
  have "take (m + 3) (xor2 xs ys) = replicate (m + 3) 0 \<longleftrightarrow> (\<forall>i < m + 3. xs ! i XOR ys ! i = 0)"
    using assms(1-3) by (auto simp: list_eq_iff_nth_eq)
  also have "\<dots> \<longleftrightarrow> (\<forall>i < 3. xs ! (m + i) = ys ! (m + i))"
    using low by (auto simp: eq0) (metis add_diff_inverse_nat nat_add_left_cancel_less)
  also have "\<dots> \<longleftrightarrow> take 3 (drop m xs) = take 3 (drop m ys)"
    using assms(1-3) by (auto simp: list_eq_iff_nth_eq)
  finally show ?thesis .
qed

lemma chunks4_nonempty: "4 \<le> length xs \<Longrightarrow> chunks4 xs \<noteq> []"
  by (cases xs rule: chunks4.cases) auto

lemma wagner_prefix: "wagner L k X \<Longrightarrow> take (3 * k) (xors L X) = replicate (3 * k) 0"
  by (cases k) simp_all

lemma collide_all_iff:
  "length X = 2 ^ k \<Longrightarrow> leaves L X \<Longrightarrow> 3 * k \<le> L \<Longrightarrow> collide_all X =
    (if wagner L k X \<and> distinct (chunks4 (indices_of X)) then Some (drop (3 * k) (xors L X), indices_of X) else None)"
proof (induction k arbitrary: X)
  case 0
  then obtain r where r: "X = [r]" by (cases X) auto
  then have "length (fst r) = L" "length (snd r) = 4" using 0 by (auto simp: leaves_def)
  moreover from this have "xors L [r] = fst r" by (auto simp: xors_def xor2_def intro: nth_equalityI)
  ultimately show ?case
    by (cases "snd r" rule: chunks4.cases) (auto simp: r collide_all.simps indices_of_def prod_eq_iff)
next
  case (Suc k)
  define l r where "l = take (2 ^ k) X" and "r = drop (2 ^ k) X"
  have X: "X = l @ r" "length l = 2 ^ k" "length r = 2 ^ k" using Suc.prems(1) by (simp_all add: l_def r_def)
  have lv: "leaves L l" "leaves L r" using Suc.prems(2) by (simp_all add: X(1))
  note h = leaves_hashes [OF lv(1)] leaves_hashes [OF lv(2)]
  have len: "length (indices_of l) = 4 * 2 ^ k" "length (indices_of r) = 4 * 2 ^ k"
    using leaves_indices lv X by simp_all
  have ne: "chunks4 (indices_of l) \<noteq> []" by (rule chunks4_nonempty) (simp add: len)
  have app: "chunks4 (indices_of l @ indices_of r) = chunks4 (indices_of l) @ chunks4 (indices_of r)"
    by (rule chunks4_append) (simp add: len)
  note IH = Suc.IH [OF X(2) lv(1)] Suc.IH [OF X(3) lv(2)]
  note halves = collide_all_halves [OF X(2,3)]
  have L: "3 * k \<le> L" "3 * k + 3 \<le> L" using Suc.prems(3) by simp_all
  let ?a = "(drop (3 * k) (xors L l), indices_of l)" and ?b = "(drop (3 * k) (xors L r), indices_of r)"
  show ?case
  proof (cases "wagner L k l \<and> distinct (chunks4 (indices_of l)) \<and> wagner L k r \<and> distinct (chunks4 (indices_of r))")
    case False
    then show ?thesis using IH L
      by (auto simp: X(1) halves app X(2) split: option.split)
  next
    case True
    have z: "take (3 * k + 3) (xor2 (xors L l) (xors L r)) = replicate (3 * k + 3) 0 \<longleftrightarrow>
        take 3 (drop (3 * k) (xors L l)) = take 3 (drop (3 * k) (xors L r))"
      by (rule take_xor_zero) (use True wagner_prefix h L in auto)
    have less: "DistinctIndices ?a ?b \<Longrightarrow> \<not> memcmp_less (indices_of r) (indices_of l) \<longleftrightarrow> memcmp_less (indices_of l) (indices_of r)"
      using memcmp_total [of "indices_of l" "indices_of r"] memcmp_asym len ne
      by (auto simp: DistinctIndices_iff)
    have ok: "pair_ok ?a ?b \<longleftrightarrow> wagner L (Suc k) X \<and> distinct (chunks4 (indices_of X))"
      using True less z h
      by (auto simp: pair_ok_def X(1) X(2) xors_append app DistinctIndices_iff add.commute)
    have "row_collide 3 ?a ?b = (drop (3 * Suc k) (xors L X), indices_of X)" if "pair_ok ?a ?b"
    proof -
      have m: "memcmp_less (indices_of l) (indices_of r)" using that less by (simp add: pair_ok_def)
      have "drop 3 (map2 (\<lambda>x y. x XOR y) (drop (3 * k) (xors L l)) (drop (3 * k) (xors L r))) =
          drop (3 * k + 3) (xor2 (xors L l) (xors L r))"
        by (simp add: xor2_def drop_map drop_zip add.commute)
      then show ?thesis using m h by (simp add: row_collide_def X(1) xors_append add.commute)
    qed
    then show ?thesis using IH True L ok by (simp add: halves X(1) del: wagner.simps)
  qed
qed

lemma chunks4_single: "length xs = 4 \<Longrightarrow> chunks4 xs = [xs]"
  by (cases xs rule: chunks4.cases) auto

lemma to_be32_inject: "to_be32 v = to_be32 w \<Longrightarrow> v = w"
proof -
  assume "to_be32 v = to_be32 w"
  then have "le_value (le_bytes 4 v) = le_value (le_bytes 4 w)" by (simp add: to_be32_def)
  then have "unat v mod 256 ^ 4 = unat w mod 256 ^ 4" by (simp add: le_value_le_bytes)
  then show ?thesis using unsigned_less [of v, where 'a = nat] unsigned_less [of w, where 'a = nat]
    by (simp add: word_unat_eq_iff)
qed

lemma length_group_bytes [simp]: "byte_pad \<le> w \<Longrightarrow> length (group_bytes w l a k byte_pad) = w"
  by (simp add: group_bytes_def)

lemma length_expand_loop:
  assumes "acc_bits < bit_len" "8 \<le> bit_len"
  shows "length (expand_loop bit_len pad acc acc_bits bs) =
    ((bit_len + 7) div 8 + pad) * ((acc_bits + 8 * length bs) div bit_len)"
  using assms
proof (induction bs arbitrary: acc acc_bits)
  case (Cons b bs)
  show ?case
  proof (cases "acc_bits + 8 \<ge> bit_len")
    case True
    then have less: "acc_bits + 8 - bit_len < bit_len" using Cons.prems by linarith
    have e: "acc_bits + 8 * length (b # bs) = bit_len + (acc_bits + 8 - bit_len + 8 * length bs)" using True by simp
    have "(acc_bits + 8 * length (b # bs)) div bit_len = Suc ((acc_bits + 8 - bit_len + 8 * length bs) div bit_len)"
      unfolding e using Cons.prems(2) by (subst div_add_self1) simp_all
    then show ?thesis using True Cons.IH [OF less] Cons.prems(2) by (simp add: Let_def)
  next
    case False
    then show ?thesis using Cons.IH [of "acc_bits + 8"] Cons.prems(2) by (simp add: Let_def add_ac)
  qed
qed simp

lemma initial_row_leaf:
  assumes "\<And>p m. length (blake p m) = 50"
  shows "length (fst (initial_row blake header idx)) = 30 \<and> snd (initial_row blake header idx) = to_be32 idx"
proof -
  have "unat (idx mod 2) \<le> 1" by (simp add: unat_mod)
  then have "length (take 25 (drop (unat (idx mod 2) * 25) (blake p m))) = 25" for p m
    using assms [of p m] by simp
  then show ?thesis
    by (simp add: initial_row_def row_init_def ExpandArray_def length_expand_loop Let_def)
qed

lemma chunks4_indices: "chunks4 (concat (map to_be32 is')) = map to_be32 is'"
  by (induction is') (simp_all add: chunks4_append chunks4_single)

lemma all_zero_split:
  assumes "length xs = n" "m \<le> n" "take m xs = replicate m 0"
  shows "list_all (\<lambda>b. b = 0) (drop m xs) \<longleftrightarrow> xs = replicate n (0 :: u8)"
proof -
  have "list_all (\<lambda>b. b = 0) (drop m xs) \<longleftrightarrow> drop m xs = replicate (n - m) 0"
    using assms(1) by (auto simp: list_all_length list_eq_iff_nth_eq)
  also have "\<dots> \<longleftrightarrow> xs = replicate m 0 @ replicate (n - m) 0"
    using assms(3) append_take_drop_id [of m xs] by (metis append_same_eq same_append_eq append_eq_append_conv length_replicate)
  finally show ?thesis using assms(2) by (simp add: replicate_add [symmetric])
qed

section \<open>Properties\<close>

text \<open>
  C27. The verifier decides the Equihash 200,9 puzzle: it accepts exactly the solutions of 1344 bytes
  whose 512 indices are all different, whose expanded BLAKE2b outputs cancel in all 30 bytes, and
  which satisfy Wagner's conditions at each of the nine levels of the tree (more bytes cancel level
  by level, and the left half's indices come before the right half's).
\<close>

theorem equihash_exact:
  fixes blake :: "bytes \<Rightarrow> bytes \<Rightarrow> bytes"
  assumes blake: "\<And>p m. length (blake p m) = 50"
  defines "rows soln header \<equiv> map (initial_row blake header) (GetIndicesFromMinimal soln 20)"
  shows "verify_200_9 blake header soln \<longleftrightarrow>
    length soln = 1344 \<and> length (GetIndicesFromMinimal soln 20) = 512 \<and> distinct (GetIndicesFromMinimal soln 20) \<and>
    xors 30 (rows soln header) = replicate 30 0 \<and> wagner 30 9 (rows soln header)"
proof (cases "length (GetIndicesFromMinimal soln 20) = 512")
  case True
  let ?X = "rows soln header"
  have lv: "leaves 30 ?X"
    using initial_row_leaf [where blake = blake, OF blake] by (auto simp: leaves_def rows_def)
  have X: "length ?X = 2 ^ 9" using True by (simp add: rows_def)
  have ix: "indices_of ?X = concat (map to_be32 (GetIndicesFromMinimal soln 20))"
    using initial_row_leaf [where blake = blake, OF blake] by (simp add: indices_of_def rows_def comp_def)
  have d: "distinct (chunks4 (indices_of ?X)) \<longleftrightarrow> distinct (GetIndicesFromMinimal soln 20)"
    unfolding ix chunks4_indices by (auto simp: distinct_map inj_on_def dest: to_be32_inject)
  have c: "collide_all ?X = (if wagner 30 9 ?X \<and> distinct (GetIndicesFromMinimal soln 20)
      then Some (drop 27 (xors 30 ?X), indices_of ?X) else None)"
    using collide_all_iff [OF X lv] by (simp add: d del: wagner.simps)
  have w: "list_all (\<lambda>b. b = 0) (drop 27 (xors 30 ?X)) \<longleftrightarrow> xors 30 ?X = replicate 30 0" if "wagner 30 9 ?X"
    by (rule all_zero_split) (use wagner_prefix [OF that] leaves_hashes [OF lv] in simp_all)
  have v: "verify_200_9 blake header soln \<longleftrightarrow> length soln = 1344 \<and>
      (case collide_all ?X of None \<Rightarrow> False | Some row \<Rightarrow> list_all (\<lambda>b. b = 0) (fst row))"
    using True by (simp add: verify_200_9_def Let_def rows_def)
  show ?thesis unfolding v c using True w by (auto simp del: wagner.simps)
qed (simp add: verify_200_9_def Let_def)

theorem equihash_exact_witness:
  "verify_200_9 (\<lambda>_ _. replicate 50 0) [] (replicate 1344 0) \<longleftrightarrow>
    length (replicate 1344 (0 :: u8)) = 1344 \<and> length (GetIndicesFromMinimal (replicate 1344 0) 20) = 512 \<and>
    distinct (GetIndicesFromMinimal (replicate 1344 0) 20) \<and>
    xors 30 (map (initial_row (\<lambda>_ _. replicate 50 0) []) (GetIndicesFromMinimal (replicate 1344 0) 20)) = replicate 30 0 \<and>
    wagner 30 9 (map (initial_row (\<lambda>_ _. replicate 50 0) []) (GetIndicesFromMinimal (replicate 1344 0) 20))"
  by (rule equihash_exact) (rule length_replicate)

end
