(* ===== verification/Noise.thy ===== *)
theory Noise
  imports Stdlib
begin

text \<open>
  \<open>src/sv2_noise.cpp\<close>: the responder of the Noise NX handshake and the encrypted transport of a
  Stratum V2 connection. The primitives of libsodium and libsecp256k1 are the fields of \<open>crypto\<close>;
  random bytes are arguments. The initiator at the end is the specification the handshake is
  checked against.
\<close>

section \<open>Primitives\<close>

text \<open>
  A secret key has a public key, unless it is out of range; a public key has an x coordinate and a
  parity. \<open>cr_xdh a b sk responder\<close> is the BIP 324 exchange of the keys \<open>a\<close> of the initiator and \<open>b\<close>
  of the responder. Sealing always succeeds, opening checks the tag.
\<close>

record crypto =
  cr_sha256 :: "bytes \<Rightarrow> bytes"
  cr_hmac :: "bytes \<Rightarrow> bytes \<Rightarrow> bytes"
  cr_seal :: "bytes \<Rightarrow> bytes \<Rightarrow> bytes \<Rightarrow> bytes \<Rightarrow> bytes"
  cr_open :: "bytes \<Rightarrow> bytes \<Rightarrow> bytes \<Rightarrow> bytes \<Rightarrow> bytes option"
  cr_pubkey_create :: "bytes \<Rightarrow> bytes option"
  cr_xonly :: "bytes \<Rightarrow> (bytes \<times> bool) option"
  cr_negate :: "bytes \<Rightarrow> bytes option"
  cr_ellswift_create :: "bytes \<Rightarrow> bytes \<Rightarrow> bytes option"
  cr_ellswift_decode :: "bytes \<Rightarrow> bytes option"
  cr_xdh :: "bytes \<Rightarrow> bytes \<Rightarrow> bytes \<Rightarrow> bool \<Rightarrow> bytes option"
  cr_keypair :: "bytes \<Rightarrow> bytes option"
  cr_sign :: "bytes \<Rightarrow> bytes \<Rightarrow> bytes \<Rightarrow> bytes option"

section \<open>State\<close>

record noise =
  ns_handshake_complete :: bool
  ns_ck :: bytes
  ns_h :: bytes
  ns_rx_key :: bytes
  ns_tx_key :: bytes
  ns_rx_nonce :: u64
  ns_tx_nonce :: u64
  ns_authority_priv :: bytes
  ns_s_priv_B :: bytes
  ns_s_pub_B :: bytes
  ns_e_priv_B :: bytes
  ns_e_pub_B :: bytes
  ns_e_pub_A :: bytes

definition noise_new :: noise where
  "noise_new = \<lparr>ns_handshake_complete = False, ns_ck = replicate 32 0, ns_h = replicate 32 0,
     ns_rx_key = replicate 32 0, ns_tx_key = replicate 32 0, ns_rx_nonce = 0, ns_tx_nonce = 0,
     ns_authority_priv = replicate 32 0, ns_s_priv_B = replicate 32 0, ns_s_pub_B = replicate 64 0,
     ns_e_priv_B = replicate 32 0, ns_e_pub_B = replicate 64 0, ns_e_pub_A = replicate 64 0\<rparr>"

section \<open>Keys\<close>

text \<open>
  \<open>strtol\<close> on a text of at most two characters, cut at the first NUL: spaces and a sign are skipped
  and the rest must be digits; an empty text is 0.
\<close>

definition strtol16_byte :: "string \<Rightarrow> u8 option" where
  "strtol16_byte s =
     (let cs = takeWhile (\<lambda>c. c \<noteq> CHR 0x00) s; (neg, t) = skip_sign (dropWhile is_space cs);
          ds = takeWhile is_hex t; v = hex_number ds
      in if ds = [] then (if cs = [] then Some 0 else None)
         else if drop (length ds) t \<noteq> [] then None
         else Some (if neg then - of_nat v else of_nat v))"

primrec noise_hex_bytes :: "nat \<Rightarrow> string \<Rightarrow> bytes option" where
  "noise_hex_bytes 0 s = Some []"
| "noise_hex_bytes (Suc n) s =
     (case strtol16_byte (take 2 s) of None \<Rightarrow> None
      | Some b \<Rightarrow> map_option ((#) b) (noise_hex_bytes n (drop 2 s)))"

definition noise_hex_to_bytes :: "string \<Rightarrow> nat \<Rightarrow> bytes option" where
  "noise_hex_to_bytes s out_len = (if length s \<noteq> out_len * 2 then None else noise_hex_bytes out_len s)"

text \<open>
  The loop that draws a secret key until one is valid, negated when its public key has odd parity;
  \<open>None\<close> when the draws run out.
\<close>

fun even_key :: "crypto \<Rightarrow> bytes list \<Rightarrow> bytes option" where
  "even_key C [] = None"
| "even_key C (k # ks) =
     (case cr_pubkey_create C k of None \<Rightarrow> even_key C ks
      | Some pub \<Rightarrow>
          (case cr_xonly C pub of
             Some (x, True) \<Rightarrow> (case cr_negate C k of None \<Rightarrow> even_key C ks | Some k' \<Rightarrow> Some k')
           | _ \<Rightarrow> Some k))"

definition proto_name :: bytes where
  "proto_name = map of_char ''Noise_NX_Secp256k1+EllSwift_ChaChaPoly_SHA256''"

text \<open>The result: \<open>None\<close> when no key was drawn, else the success and the state.\<close>

definition initialize :: "crypto \<Rightarrow> bytes list \<Rightarrow> bytes \<Rightarrow> string \<Rightarrow> noise \<Rightarrow> (bool \<times> noise) option" where
  "initialize C draws aux authority_key_hex n =
     (case noise_hex_to_bytes authority_key_hex 32 of None \<Rightarrow> Some (False, n)
      | Some auth \<Rightarrow>
          (case even_key C draws of None \<Rightarrow> None
           | Some s_priv \<Rightarrow>
               let n = n\<lparr>ns_authority_priv := auth, ns_s_priv_B := s_priv\<rparr>
               in (case cr_ellswift_create C s_priv aux of None \<Rightarrow> Some (False, n)
                   | Some s_pub \<Rightarrow>
                       let ck = cr_sha256 C proto_name
                       in Some (True, n\<lparr>ns_s_pub_B := s_pub, ns_ck := ck, ns_h := cr_sha256 C ck\<rparr>))))"

section \<open>The handshake\<close>

definition mix_hash :: "crypto \<Rightarrow> bytes \<Rightarrow> bytes \<Rightarrow> bytes" where
  "mix_hash C h bs = cr_sha256 C (h @ bs)"

text \<open>The new chaining key and the derived key.\<close>

definition mix_key :: "crypto \<Rightarrow> bytes \<Rightarrow> bytes \<Rightarrow> bytes \<times> bytes" where
  "mix_key C ck ikm =
     (let prk = cr_hmac C ck ikm; ck' = cr_hmac C prk [0x01]
      in (ck', cr_hmac C prk (ck' @ [0x02])))"

definition process_act1 :: "crypto \<Rightarrow> bytes \<Rightarrow> noise \<Rightarrow> noise" where
  "process_act1 C client_ellswift n =
     n\<lparr>ns_e_pub_A := client_ellswift, ns_h := mix_hash C (mix_hash C (ns_h n) client_ellswift) []\<rparr>"

definition zero_nonce :: bytes where
  "zero_nonce = replicate 12 0"

definition cert_head :: "u32 \<Rightarrow> bytes" where
  "cert_head now_s = [0, 0] @ le_bytes 4 (now_s - 3600) @ le_bytes 4 (now_s + 365 * 24 * 3600)"

text \<open>The certificate of the static key, signed with the authority's key.\<close>

definition certificate :: "crypto \<Rightarrow> u32 \<Rightarrow> bytes \<Rightarrow> noise \<Rightarrow> bytes result" where
  "certificate C now_s sig_aux n =
     (case cr_ellswift_decode C (ns_s_pub_B n) of
        None \<Rightarrow> Inl (RuntimeError ''Failed to decode server static EllSwift public key'')
      | Some full \<Rightarrow>
     (case cr_xonly C full of None \<Rightarrow> Inl (RuntimeError ''Failed to obtain x-only public key'')
      | Some (xonly, parity) \<Rightarrow>
          let msg_hash = cr_sha256 C (cert_head now_s @ xonly)
          in (case cr_keypair C (ns_authority_priv n) of
                None \<Rightarrow> Inl (RuntimeError ''Failed to create secp256k1 keypair from authority private key'')
              | Some keypair \<Rightarrow>
             (case cr_sign C msg_hash keypair sig_aux of
                None \<Rightarrow> Inl (RuntimeError ''Schnorr BIP340 signature creation failed'')
              | Some sig \<Rightarrow> Inr (cert_head now_s @ sig)))))"

text \<open>The keys of the transport: initiator to responder first.\<close>

definition split_keys :: "crypto \<Rightarrow> bytes \<Rightarrow> bytes \<times> bytes" where
  "split_keys C ck =
     (let prk = cr_hmac C ck []; k1 = cr_hmac C prk [0x01] in (k1, cr_hmac C prk (k1 @ [0x02])))"

definition generate_act2 ::
  "crypto \<Rightarrow> u32 \<Rightarrow> bytes list \<Rightarrow> bytes \<Rightarrow> bytes \<Rightarrow> noise \<Rightarrow> (bytes \<times> noise) result option" where
  "generate_act2 C now_s draws aux sig_aux n =
     (case even_key C draws of None \<Rightarrow> None
      | Some e_priv \<Rightarrow> Some
     (case cr_ellswift_create C e_priv aux of
        None \<Rightarrow> Inl (RuntimeError ''Failed to construct server ephemeral EllSwift key'')
      | Some e_pub \<Rightarrow>
          let h1 = mix_hash C (ns_h n) e_pub
          in (case cr_xdh C (ns_e_pub_A n) e_pub e_priv True of
                None \<Rightarrow> Inl (RuntimeError ''secp256k1_ellswift_xdh for ee failed'')
              | Some ee \<Rightarrow>
                  let (ck1, k1) = mix_key C (ns_ck n) ee;
                      c_s = cr_seal C k1 zero_nonce h1 (ns_s_pub_B n);
                      h2 = mix_hash C h1 c_s
                  in (case cr_xdh C (ns_e_pub_A n) (ns_s_pub_B n) (ns_s_priv_B n) True of
                        None \<Rightarrow> Inl (RuntimeError ''secp256k1_ellswift_xdh for es failed'')
                      | Some es \<Rightarrow>
                          let (ck2, k2) = mix_key C ck1 es
                          in bind_res (certificate C now_s sig_aux n) (\<lambda>sig_msg.
                             let c_sig = cr_seal C k2 zero_nonce h2 sig_msg; keys = split_keys C ck2
                             in Inr (e_pub @ c_s @ c_sig,
                                  n\<lparr>ns_e_priv_B := e_priv, ns_e_pub_B := e_pub, ns_ck := ck2,
                                    ns_h := mix_hash C h2 c_sig, ns_rx_key := fst keys, ns_tx_key := snd keys,
                                    ns_rx_nonce := 0, ns_tx_nonce := 0, ns_handshake_complete := True\<rparr>))))))"

section \<open>The transport\<close>

definition transport_nonce :: "u64 \<Rightarrow> bytes" where
  "transport_nonce v = replicate 4 0 @ le_bytes 8 v"

definition decrypt :: "crypto \<Rightarrow> bytes \<Rightarrow> noise \<Rightarrow> (bytes \<times> noise) option" where
  "decrypt C ciphertext n =
     (if length ciphertext < 16 then None
      else case cr_open C (ns_rx_key n) (transport_nonce (ns_rx_nonce n)) [] ciphertext of
             None \<Rightarrow> None
           | Some p \<Rightarrow> Some (p, n\<lparr>ns_rx_nonce := ns_rx_nonce n + 1\<rparr>))"

definition encrypt :: "crypto \<Rightarrow> bytes \<Rightarrow> noise \<Rightarrow> (bytes \<times> noise) option" where
  "encrypt C plaintext n =
     Some (cr_seal C (ns_tx_key n) (transport_nonce (ns_tx_nonce n)) [] plaintext,
           n\<lparr>ns_tx_nonce := ns_tx_nonce n + 1\<rparr>)"

section \<open>The initiator\<close>

text \<open>
  The other side of the handshake, as the Stratum V2 specification has it: what the initiator derives
  from the answer, if the tags and the certificate are good at time \<open>t\<close>. \<open>verify\<close> checks a
  signature against the authority's public key.
\<close>

definition initiator_hash :: "crypto \<Rightarrow> bytes \<Rightarrow> bytes" where
  "initiator_hash C e_pub = mix_hash C (mix_hash C (cr_sha256 C (cr_sha256 C proto_name)) e_pub) []"

definition cert_ok :: "crypto \<Rightarrow> (bytes \<Rightarrow> bytes \<Rightarrow> bool) \<Rightarrow> u32 \<Rightarrow> bytes \<Rightarrow> bytes \<Rightarrow> bool" where
  "cert_ok C verify t s_pub sig_msg =
     (length sig_msg = 74 \<and> take 2 sig_msg = [0, 0] \<and>
      le_value (take 4 (drop 2 sig_msg)) \<le> unat t \<and> unat t \<le> le_value (take 4 (drop 6 sig_msg)) \<and>
      (case Option.bind (cr_ellswift_decode C s_pub) (cr_xonly C) of None \<Rightarrow> False
       | Some (xonly, parity) \<Rightarrow> verify (cr_sha256 C (take 10 sig_msg @ xonly)) (drop 10 sig_msg)))"

definition initiator_finish ::
  "crypto \<Rightarrow> (bytes \<Rightarrow> bytes \<Rightarrow> bool) \<Rightarrow> u32 \<Rightarrow> bytes \<Rightarrow> bytes \<Rightarrow> bytes \<Rightarrow> (bytes \<times> bytes) option" where
  "initiator_finish C verify t e_priv e_pub act2 =
     (let e_pub_B = take 64 act2; c_s = take 80 (drop 64 act2); c_sig = drop 144 act2;
          h1 = mix_hash C (initiator_hash C e_pub) e_pub_B
      in Option.bind (cr_xdh C e_pub e_pub_B e_priv False) (\<lambda>ee.
           let (ck1, k1) = mix_key C (cr_sha256 C proto_name) ee
           in Option.bind (cr_open C k1 zero_nonce h1 c_s) (\<lambda>s_pub.
              Option.bind (cr_xdh C e_pub s_pub e_priv False) (\<lambda>es.
                let (ck2, k2) = mix_key C ck1 es
                in Option.bind (cr_open C k2 zero_nonce (mix_hash C h1 c_s) c_sig) (\<lambda>sig_msg.
                   if cert_ok C verify t s_pub sig_msg then Some (split_keys C ck2) else None)))))"

text \<open>What the handshake relies on: authenticated encryption opens what it sealed, with a tag of 16
  bytes; keys and signatures have 64 bytes; both sides of an exchange get the same secret.\<close>

definition seals :: "crypto \<Rightarrow> bool" where
  "seals C \<longleftrightarrow> (\<forall>k n ad p. cr_open C k n ad (cr_seal C k n ad p) = Some p \<and> length (cr_seal C k n ad p) = length p + 16)"

definition exchanges :: "crypto \<Rightarrow> bool" where
  "exchanges C \<longleftrightarrow> (\<forall>sk aux pub. cr_ellswift_create C sk aux = Some pub \<longrightarrow> length pub = 64) \<and>
     (\<forall>sk aux a sk' aux' b. cr_ellswift_create C sk aux = Some a \<longrightarrow> cr_ellswift_create C sk' aux' = Some b \<longrightarrow>
        cr_xdh C a b sk False = cr_xdh C a b sk' True)"

definition signs_for :: "crypto \<Rightarrow> (bytes \<Rightarrow> bytes \<Rightarrow> bool) \<Rightarrow> bytes \<Rightarrow> bool" where
  "signs_for C verify auth \<longleftrightarrow> (\<forall>kp m aux sig. cr_keypair C auth = Some kp \<longrightarrow> cr_sign C m kp aux = Some sig \<longrightarrow>
     length sig = 64 \<and> verify m sig)"

lemma initialize_Some:
  assumes "initialize C draws aux auth n = Some (True, n')"
  obtains a sk pub where "noise_hex_to_bytes auth 32 = Some a" "cr_ellswift_create C sk aux = Some pub"
    "ns_authority_priv n' = a" "ns_s_priv_B n' = sk" "ns_s_pub_B n' = pub"
    "ns_ck n' = cr_sha256 C proto_name" "ns_h n' = cr_sha256 C (cr_sha256 C proto_name)"
  using assms by (auto simp: initialize_def Let_def split: option.splits)

lemma certificate_Inr:
  assumes "certificate C now_s aux n = Inr msg"
  obtains full xonly parity kp sig where "cr_ellswift_decode C (ns_s_pub_B n) = Some full" "cr_xonly C full = Some (xonly, parity)"
    "cr_keypair C (ns_authority_priv n) = Some kp" "cr_sign C (cr_sha256 C (cert_head now_s @ xonly)) kp aux = Some sig"
    "msg = cert_head now_s @ sig"
  using assms by (auto simp: certificate_def Let_def split: option.splits)

lemma cert_head_length [simp]: "length (cert_head now_s) = 10"
  by (simp add: cert_head_def)

lemma le_value_u32_word: "le_value (le_bytes 4 v) = unat (v :: u32)"
proof -
  have "unat v < 2 ^ LENGTH(32)" by (rule unsigned_less)
  then show ?thesis by (simp add: le_value_le_bytes)
qed

lemma certificate_ok:
  assumes "certificate C now_s aux n = Inr msg" "signs_for C verify (ns_authority_priv n)"
    "now_s - 3600 \<le> t" "t \<le> now_s + 365 * 24 * 3600"
  shows "length msg = 74 \<and> cert_ok C verify t (ns_s_pub_B n) msg"
  using assms(1)
proof (cases rule: certificate_Inr)
  case (1 full xonly parity kp sig)
  have sig: "length sig = 64" "verify (cr_sha256 C (cert_head now_s @ xonly)) sig"
    using 1 assms(2) unfolding signs_for_def by blast+
  have "le_value (le_bytes 4 (now_s - 3600)) \<le> unat t" "unat t \<le> le_value (le_bytes 4 (now_s + 365 * 24 * 3600))"
    using assms(3,4) by (simp_all add: le_value_u32_word word_le_nat_alt)
  moreover have "take 4 (drop 2 msg) = le_bytes 4 (now_s - 3600)" "take 4 (drop 6 msg) = le_bytes 4 (now_s + 365 * 24 * 3600)"
    "take 10 msg = cert_head now_s" "drop 10 msg = sig" "take 2 msg = [0, 0]" "length msg = 74"
    using sig(1) unfolding 1(5) by (simp_all add: cert_head_def)
  ultimately show ?thesis using 1(1,2) sig(2) by (simp add: cert_ok_def)
qed

lemma act2_Inr:
  assumes "generate_act2 C now_s draws aux sig_aux n = Some (Inr (act2, n'))"
  obtains sk e ee ck1 k1 c_s es ck2 k2 msg c_sig where
    "cr_ellswift_create C sk aux = Some e" "cr_xdh C (ns_e_pub_A n) e sk True = Some ee"
    "mix_key C (ns_ck n) ee = (ck1, k1)" "c_s = cr_seal C k1 zero_nonce (mix_hash C (ns_h n) e) (ns_s_pub_B n)"
    "cr_xdh C (ns_e_pub_A n) (ns_s_pub_B n) (ns_s_priv_B n) True = Some es"
    "mix_key C ck1 es = (ck2, k2)" "certificate C now_s sig_aux n = Inr msg"
    "c_sig = cr_seal C k2 zero_nonce (mix_hash C (mix_hash C (ns_h n) e) c_s) msg" "act2 = e @ c_s @ c_sig"
    "(ns_rx_key n', ns_tx_key n') = split_keys C ck2" "ns_rx_nonce n' = 0" "ns_tx_nonce n' = 0" "ns_handshake_complete n'"
  using assms
  by (auto simp: generate_act2_def Let_def bind_res_Inr_iff split: option.splits prod.splits)


section \<open>Properties\<close>

text \<open>
  C23. The handshake agrees with the initiator of the specification: if the pool has initialised its
  keys and answers the initiator's first message, the answer has 234 bytes, and at every time between
  an hour before and a year after the pool's clock an initiator that knows the authority's public key
  accepts it and derives the pool's two transport keys, each for the opposite direction; both nonces
  start at 0.
\<close>

theorem handshake_agreement:
  assumes "seals C" "exchanges C" "cr_ellswift_create C e_priv aux = Some e_pub"
    and "initialize C draws aux1 auth_hex n = Some (True, n1)"
    and "generate_act2 C now_s draws2 aux2 sig_aux (process_act1 C e_pub n1) = Some (Inr (act2, n2))"
    and "noise_hex_to_bytes auth_hex 32 = Some auth" "signs_for C verify auth"
    and "now_s - 3600 \<le> t" "t \<le> now_s + 365 * 24 * 3600"
  shows "length act2 = 234 \<and>
    initiator_finish C verify t e_priv e_pub act2 = Some (ns_rx_key n2, ns_tx_key n2) \<and>
    ns_rx_nonce n2 = 0 \<and> ns_tx_nonce n2 = 0 \<and> ns_handshake_complete n2"
  using assms(5)
proof (cases rule: act2_Inr)
  case (1 sk e ee ck1 k1 c_s es ck2 k2 msg c_sig)
  obtain s_priv s_pub where i: "cr_ellswift_create C s_priv aux1 = Some s_pub" "ns_authority_priv n1 = auth"
    "ns_s_priv_B n1 = s_priv" "ns_s_pub_B n1 = s_pub" "ns_ck n1 = cr_sha256 C proto_name"
    "ns_h n1 = cr_sha256 C (cr_sha256 C proto_name)"
    using assms(4) by (rule initialize_Some) (use assms(6) in auto)
  have act1: "ns_e_pub_A (process_act1 C e_pub n1) = e_pub" "ns_h (process_act1 C e_pub n1) = initiator_hash C e_pub"
    "ns_ck (process_act1 C e_pub n1) = cr_sha256 C proto_name" "ns_s_pub_B (process_act1 C e_pub n1) = s_pub"
    "ns_s_priv_B (process_act1 C e_pub n1) = s_priv" "ns_authority_priv (process_act1 C e_pub n1) = auth"
    by (simp_all add: process_act1_def initiator_hash_def i)
  note eqs = 1 [unfolded act1]
  have secrets: "cr_xdh C e_pub e e_priv False = Some ee" "cr_xdh C e_pub s_pub e_priv False = Some es"
    using assms(2,3) i(1) eqs(1,2,5) unfolding exchanges_def by metis+
  have len: "length e = 64" "length s_pub = 64" "length msg = 74" and cert: "cert_ok C verify t s_pub msg"
    using assms(2,7,8,9) i(1) eqs(1) certificate_ok [OF 1(7)] by (auto simp: exchanges_def act1)
  have seal: "\<And>k m ad p. cr_open C k m ad (cr_seal C k m ad p) = Some p" "\<And>k m ad p. length (cr_seal C k m ad p) = length p + 16"
    using assms(1) by (simp_all add: seals_def)
  have parts: "take 64 act2 = e" "take 80 (drop 64 act2) = c_s" "drop 144 act2 = c_sig" "length act2 = 234"
    using len eqs(4,8) by (simp_all add: eqs(9) seal)
  have "initiator_finish C verify t e_priv e_pub act2 = Some (split_keys C ck2)"
    unfolding initiator_finish_def Let_def parts using eqs(3,6) cert by (simp add: eqs(4,8) seal secrets)
  then show ?thesis using parts(4) eqs(10-13) by simp
qed

text \<open>A run of the transport: all messages sealed, and all opened.\<close>

primrec encrypt_all :: "crypto \<Rightarrow> bytes list \<Rightarrow> noise \<Rightarrow> (bytes list \<times> noise) option" where
  "encrypt_all C [] n = Some ([], n)"
| "encrypt_all C (m # ms) n =
     (case encrypt C m n of None \<Rightarrow> None
      | Some (c, n) \<Rightarrow> map_option (\<lambda>(cs, n). (c # cs, n)) (encrypt_all C ms n))"

primrec decrypt_all :: "crypto \<Rightarrow> bytes list \<Rightarrow> noise \<Rightarrow> (bytes list \<times> noise) option" where
  "decrypt_all C [] n = Some ([], n)"
| "decrypt_all C (c # cs) n =
     (case decrypt C c n of None \<Rightarrow> None
      | Some (m, n) \<Rightarrow> map_option (\<lambda>(ms, n). (m # ms, n)) (decrypt_all C cs n))"

text \<open>\<open>a\<close> sends what \<open>b\<close> receives.\<close>

definition linked :: "noise \<Rightarrow> noise \<Rightarrow> bool" where
  "linked a b \<longleftrightarrow> ns_tx_key a = ns_rx_key b \<and> ns_tx_nonce a = ns_rx_nonce b"

lemma transport_nonce_inject: "transport_nonce v = transport_nonce w \<longleftrightarrow> v = w"
proof
  assume "transport_nonce v = transport_nonce w"
  then have "le_value (le_bytes 8 v) = le_value (le_bytes 8 w)" by (simp add: transport_nonce_def)
  moreover have "unat v < 2 ^ LENGTH(64)" "unat w < 2 ^ LENGTH(64)" by (rule unsigned_less)+
  ultimately show "v = w" by (simp add: le_value_le_bytes unsigned_word_eqI)
qed simp


lemma linked_step:
  assumes "seals C" "linked a b"
  obtains c a' b' where "encrypt C m a = Some (c, a')" "decrypt C c b = Some (m, b')" "linked a' b'"
    "ns_tx_nonce a' = ns_tx_nonce a + 1" "length c = length m + 16"
  using assms by (simp add: encrypt_def decrypt_def linked_def seals_def)

text \<open>
  C24. The transport delivers: as long as the two ends are linked, everything one end seals the other
  opens, in order, and the ends stay linked; each message grows by the tag of 16 bytes, and the
  sender uses a different nonce for each of its messages, up to 2 to the 64 of them.
\<close>

theorem transport_stream:
  assumes "seals C" "linked a b"
  shows "\<exists>cs a' b'. encrypt_all C ms a = Some (cs, a') \<and> decrypt_all C cs b = Some (ms, b') \<and> linked a' b' \<and>
    map length cs = map (\<lambda>m. length m + 16) ms \<and>
    (length ms \<le> 2 ^ 64 \<longrightarrow> distinct (map (\<lambda>i. transport_nonce (ns_tx_nonce a + of_nat i)) [0..<length ms])) \<and>
    ns_tx_nonce a' = ns_tx_nonce a + of_nat (length ms)"
proof -
  have "\<exists>cs a' b'. encrypt_all C ms a = Some (cs, a') \<and> decrypt_all C cs b = Some (ms, b') \<and> linked a' b' \<and>
      map length cs = map (\<lambda>m. length m + 16) ms \<and> ns_tx_nonce a' = ns_tx_nonce a + of_nat (length ms)"
    using assms(2)
  proof (induction ms arbitrary: a b)
    case (Cons m ms)
    obtain c a' b' where s: "encrypt C m a = Some (c, a')" "decrypt C c b = Some (m, b')" "linked a' b'"
      "ns_tx_nonce a' = ns_tx_nonce a + 1" "length c = length m + 16"
      using linked_step [OF assms(1) Cons.prems] by blast
    then show ?case using Cons.IH [OF s(3)] by auto
  qed simp
  moreover have "distinct (map (\<lambda>i. transport_nonce (ns_tx_nonce a + of_nat i)) [0..<length ms])" if "length ms \<le> 2 ^ 64"
  proof -
    have "inj_on (\<lambda>i. of_nat i :: u64) {0..<length ms}"
      using that by (auto simp: inj_on_def word_of_nat_eq_iff take_bit_eq_mod)
    then show ?thesis by (auto simp: distinct_map transport_nonce_inject inj_on_def)
  qed
  ultimately show ?thesis by blast
qed


section \<open>Examples\<close>

text \<open>Primitives that keep the laws, with the identity as its own public key.\<close>

definition toy_crypto :: crypto where
  "toy_crypto = \<lparr>cr_sha256 = (\<lambda>_. replicate 32 0), cr_hmac = (\<lambda>_ _. replicate 32 0),
     cr_seal = (\<lambda>_ _ _ p. p @ replicate 16 0),
     cr_open = (\<lambda>_ _ _ c. if drop (length c - 16) c = replicate 16 0 then Some (take (length c - 16) c) else None),
     cr_pubkey_create = Some, cr_xonly = (\<lambda>p. Some (p, False)), cr_negate = Some,
     cr_ellswift_create = (\<lambda>sk aux. if length sk = 32 then Some (sk @ replicate 32 0) else None),
     cr_ellswift_decode = Some, cr_xdh = (\<lambda>a b _ _. Some (map2 (XOR) a b)), cr_keypair = Some,
     cr_sign = (\<lambda>_ _ _. Some (replicate 64 0))\<rparr>"

lemma toy_laws: "seals toy_crypto" "exchanges toy_crypto" "signs_for toy_crypto (\<lambda>_ _. True) auth"
  by (auto simp: toy_crypto_def seals_def exchanges_def signs_for_def simp del: replicate.simps split: if_splits)

lemma zero_hex: "noise_hex_bytes n (replicate (2 * n) (CHR ''0'')) = Some (replicate n 0)"
proof (induction n)
  case (Suc n)
  have "replicate (2 * Suc n) (CHR ''0'') = CHR ''0'' # CHR ''0'' # replicate (2 * n) (CHR ''0'')" by simp
  with Suc show ?case
    by (simp add: strtol16_byte_def is_hex_def hex_number_def hex_value_def hex_nibble_def is_space_def skip_sign_def)
qed simp

lemma zero_authority: "noise_hex_to_bytes (replicate 64 (CHR ''0'')) 32 = Some (replicate 32 0)"
  using zero_hex [of 32] by (simp add: noise_hex_to_bytes_def del: replicate.simps)

lemma toy_key: "even_key toy_crypto [k] = Some k"
  by (simp add: toy_crypto_def)

lemma handshake_agreement_witness:
  "\<exists>act2 (n2 :: noise). length act2 = 234 \<and> ns_handshake_complete n2 \<and>
     initiator_finish toy_crypto (\<lambda>_ _. True) 4000 (replicate 32 1) (replicate 32 1 @ replicate 32 0) act2 =
       Some (ns_rx_key n2, ns_tx_key n2)"
proof -
  let ?k = "replicate 32 (1 :: u8)" and ?C = toy_crypto
  have c: "cr_ellswift_create ?C ?k aux = Some (?k @ replicate 32 0)" for aux
    by (simp add: toy_crypto_def del: replicate.simps)
  obtain n1 where n1: "initialize ?C [?k] [] (replicate 64 (CHR ''0'')) noise_new = Some (True, n1)"
    unfolding initialize_def Let_def zero_authority toy_key option.case c by blast
  obtain act2 n2 where 2: "generate_act2 ?C 4000 [?k] [] [] (process_act1 ?C (?k @ replicate 32 0) n1) = Some (Inr (act2, n2))"
    unfolding generate_act2_def Let_def toy_key option.case c
    by (simp add: certificate_def toy_crypto_def split_beta del: replicate.simps)
  from handshake_agreement [OF toy_laws(1,2) c n1 2 zero_authority toy_laws(3), of 4000]
  have "length act2 = 234 \<and> initiator_finish ?C (\<lambda>_ _. True) 4000 ?k (?k @ replicate 32 0) act2 =
      Some (ns_rx_key n2, ns_tx_key n2) \<and> ns_handshake_complete n2" by (simp del: replicate.simps)
  then show ?thesis by blast
qed

lemma transport_stream_witness:
  "\<exists>cs a' b'. encrypt_all toy_crypto [[1], [2, 3]] noise_new = Some (cs, a') \<and>
     decrypt_all toy_crypto cs noise_new = Some ([[1], [2, 3]], b')"
  using transport_stream [OF toy_laws(1), of noise_new noise_new "[[1], [2, 3]]"]
  by (auto simp: linked_def noise_new_def)

end
