(* ===== verification/StratumV1.thy ===== *)
theory StratumV1
  imports Stratifier Zcash Equihash VarDiff Blacklist
begin

text \<open>
  The parts of the Stratum V1 protocol that keep no state: version-rolling negotiation
  (\<open>src/stratum_protocol.cpp\<close>), the texts of requests and replies, what a password asks for, the
  real-time target of eCash (\<open>src/utils.hpp\<close>) and the difficulty of a hash (\<open>src/client_session.cpp\<close>).
\<close>

section \<open>Texts\<close>

text \<open>Message text with backquotes for the quotation marks of JSON.\<close>

definition js :: "string \<Rightarrow> string" where
  "js s = map (\<lambda>c. if c = CHR 0x60 then CHR 0x22 else c) s"

fun dec_nat :: "nat \<Rightarrow> string" where
  "dec_nat n = (if n < 10 then [char_of (48 + n)] else dec_nat (n div 10) @ [char_of (48 + n mod 10)])"

declare dec_nat.simps [simp del]

definition dec_int :: "int \<Rightarrow> string" where
  "dec_int i = (if i < 0 then CHR ''-'' # dec_nat (nat (- i)) else dec_nat (nat i))"

text \<open>The \<open>{:.0f}\<close> format of a whole number.\<close>

definition fmt_0f :: "rat \<Rightarrow> string" where
  "fmt_0f x = dec_int \<lfloor>x\<rfloor>"

definition is_control :: "char \<Rightarrow> bool" where
  "is_control c \<longleftrightarrow> (of_char c :: nat) < 0x20"

text \<open>Escaping of text spliced into a reply.\<close>

definition escape :: "string \<Rightarrow> string" where
  "escape s = concat (map (\<lambda>c. if c = CHR 0x22 \<or> c = CHR 0x5C then [CHR 0x5C, c]
     else if is_control c then ''?'' else [c]) s)"

text \<open>\<open>safe_id_json\<close>; the text of a floating-point id is the argument \<open>show\<close>.\<close>

definition safe_id_json :: "(rat \<Rightarrow> string) \<Rightarrow> json \<Rightarrow> string" where
  "safe_id_json show_double msg =
     (case member msg ''id'' of
        Some (JInt i) \<Rightarrow> dec_int (sint (of_int i :: i64))
      | Some (JFloat x) \<Rightarrow> show_double x
      | Some (JString s) \<Rightarrow> quote (escape s)
      | _ \<Rightarrow> ''null'')"

definition error_line :: "string \<Rightarrow> nat \<Rightarrow> string \<Rightarrow> string" where
  "error_line i code reason =
     js ''{`id`:'' @ i @ js '',`result`:null,`error`:['' @ dec_nat code @ '','' @ quote reason @ '',null]}'' @ newline"

definition ok_line :: "string \<Rightarrow> string" where
  "ok_line i = js ''{`id`:'' @ i @ js '',`result`:true,`error`:null}'' @ newline"

definition refuse_line :: "string \<Rightarrow> string \<Rightarrow> string" where
  "refuse_line i reason = js ''{`id`:'' @ i @ js '',`result`:false,`error`:'' @ quote reason @ ''}'' @ newline"

definition safe_method :: "string \<Rightarrow> string" where
  "safe_method m = map (\<lambda>c. if c = CHR 0x22 \<or> c = CHR 0x5C \<or> is_control c then CHR ''?'' else c) m"

section \<open>BIP 310\<close>

record configure_result =
  cr_version_mask :: u32
  cr_version_rolling :: bool
  cr_version_rolling_requested :: bool
  cr_minimum_difficulty :: bool
  cr_suggested_min_difficulty :: rat
  cr_subscribe_extranonce :: bool

definition no_configure :: configure_result where
  "no_configure = \<lparr>cr_version_mask = 0, cr_version_rolling = False, cr_version_rolling_requested = False,
     cr_minimum_difficulty = False, cr_suggested_min_difficulty = 0, cr_subscribe_extranonce = False\<rparr>"

definition has_feature :: "json list \<Rightarrow> string \<Rightarrow> bool" where
  "has_feature features name = list_ex (\<lambda>f. f = JString name) features"

definition miner_mask :: "json \<Rightarrow> u32" where
  "miner_mask extra =
     (case string_member extra ''version-rolling.mask'' of None \<Rightarrow> 0xffffffff
      | Some s \<Rightarrow> (case stoul16 s of Inr v \<Rightarrow> ucast v | Inl _ \<Rightarrow> 0))"

text \<open>No access throws here once the shapes are checked, so the \<open>catch\<close> of the wrapper is never taken.\<close>

definition negotiate_configure :: "fpu \<Rightarrow> json \<Rightarrow> u32 \<Rightarrow> configure_result" where
  "negotiate_configure F params pool_mask =
     (case params of
        JArray (JArray features # JObject kvs # _) \<Rightarrow>
          let extra = JObject kvs; r = no_configure;
              r = (if has_feature features ''version-rolling''
                   then let r = r\<lparr>cr_version_rolling_requested := True\<rparr>;
                            intersection = miner_mask extra AND pool_mask
                        in if intersection \<noteq> 0
                           then r\<lparr>cr_version_rolling := True, cr_version_mask := intersection\<rparr> else r
                   else r);
              r = (if has_feature features ''minimum-difficulty''
                   then (r\<lparr>cr_minimum_difficulty := True\<rparr>)\<lparr>cr_suggested_min_difficulty :=
                     (case member extra ''minimum-difficulty.value'' of
                        Some v \<Rightarrow> if is_number v then (case get_double F v of Inr d \<Rightarrow> d | Inl _ \<Rightarrow> 0) else 0
                      | None \<Rightarrow> 0)\<rparr>
                   else r)
          in if has_feature features ''subscribe-extranonce'' then r\<lparr>cr_subscribe_extranonce := True\<rparr> else r
      | _ \<Rightarrow> no_configure)"

definition validate_version :: "u32 \<Rightarrow> u32 \<Rightarrow> u32 \<Rightarrow> bool" where
  "validate_version submitted templ vmask \<longleftrightarrow> submitted AND NOT vmask = templ AND NOT vmask"

text \<open>The reply echoes the requested features only.\<close>

definition configure_body :: "configure_result \<Rightarrow> string" where
  "configure_body neg =
     commas ((if cr_version_rolling_requested neg
         then if cr_version_rolling neg
              then [js ''`version-rolling`:true,`version-rolling.mask`:'' @ quote (fmt_08x (cr_version_mask neg))]
              else [js ''`version-rolling`:false'']
         else [])
       @ (if cr_minimum_difficulty neg then [js ''`minimum-difficulty`:true''] else [])
       @ (if cr_subscribe_extranonce neg then [js ''`subscribe-extranonce`:true''] else []))"

section \<open>Workers and passwords\<close>

definition looks_like_aggregator :: "string \<Rightarrow> bool" where
  "looks_like_aggregator ua = (ua \<noteq> [] \<and> contains (map to_lower ua) ''nicehash'')"

text \<open>\<open>address.worker\<close>, split at the first dot; without one the worker is \<open>0\<close>.\<close>

definition split_worker :: "string \<Rightarrow> string \<times> string" where
  "split_worker full =
     (let addr = takeWhile (\<lambda>c. c \<noteq> CHR ''.'') full
      in if addr = full then (full, ''0'') else (addr, drop (length addr + 1) full))"

text \<open>The text behind the first occurrence of \<open>key\<close>, with its position.\<close>

definition find_text :: "string \<Rightarrow> string \<Rightarrow> nat option" where
  "find_text key s = List.find (\<lambda>i. take (length key) (drop i s) = key) [0..<length s + 1]"

definition is_number_char :: "char \<Rightarrow> bool" where
  "is_number_char c = (let n = of_char c :: nat in (48 \<le> n \<and> n \<le> 57)
     \<or> c \<in> {CHR ''.'', CHR ''k'', CHR ''m'', CHR ''g'', CHR ''t''})"

definition suffix_factor :: "char \<Rightarrow> rat option" where
  "suffix_factor c = (if c = CHR ''k'' then Some 1000 else if c = CHR ''m'' then Some 1000000
     else if c = CHR ''g'' then Some 1000000000 else if c = CHR ''t'' then Some 1000000000000 else None)"

definition clamp_custom :: "fpu \<Rightarrow> chain_kind \<Rightarrow> rat \<Rightarrow> rat" where
  "clamp_custom F chain v =
     (if chain = Zcash then rnd_d F (clamp v 8192 524288 / 8192)
      else if chain = Litecoin \<or> chain = Dogecoin then clamp v 1024 10000000
      else clamp v 1024 1000000)"

text \<open>
  \<open>diff=\<close> or \<open>d=\<close> in the password. \<open>stod\<close> is \<open>std::stod\<close>; it throws (\<open>None\<close>) on text it cannot read,
  and an infinite product counts as not finite.
\<close>

definition password_difficulty :: "fpu \<Rightarrow> (string \<Rightarrow> rat option) \<Rightarrow> chain_kind \<Rightarrow> string \<Rightarrow> rat option" where
  "password_difficulty F stod chain password =
     (let pwd = map to_lower password;
          pos = (case find_text ''diff='' pwd of Some p \<Rightarrow> Some (p + 5)
                 | None \<Rightarrow> (case find_text ''d='' pwd of Some p \<Rightarrow> Some (p + 2) | None \<Rightarrow> None))
      in case pos of None \<Rightarrow> None
         | Some p \<Rightarrow>
             let num = takeWhile is_number_char (drop p pwd)
             in if num = [] then None
                else let factor = suffix_factor (last num);
                         digits = (if factor = None then num else butlast num)
                     in case stod digits of None \<Rightarrow> None
                        | Some x \<Rightarrow>
                            let v = rnd_d F (x * (case factor of Some f \<Rightarrow> f | None \<Rightarrow> 1))
                            in if v > 0 then Some (clamp_custom F chain v) else None)"

definition password_doge :: "string \<Rightarrow> string" where
  "password_doge password =
     (case find_text ''doge='' (map to_lower password) of None \<Rightarrow> []
      | Some p \<Rightarrow>
          takeWhile (\<lambda>c. c \<notin> {CHR '','', CHR '';'', CHR 0x09, CHR '' ''})
            (dropWhile (\<lambda>c. c = CHR '' '' \<or> c = CHR 0x09) (drop (p + 5) password)))"

section \<open>The difficulty of a hash\<close>

text \<open>Thirty-two bytes, most significant first, as a \<open>long double\<close>, added up from the low end.\<close>

definition be_double :: "fpu \<Rightarrow> bytes \<Rightarrow> rat" where
  "be_double F bs =
     fst (fold (\<lambda>b (acc, base). (rnd_ld F (acc + rnd_ld F (of_nat (unat b) * base)), rnd_ld F (base * 256))) (rev bs) (0, 1))"

definition max_target :: "chain_kind \<Rightarrow> rat" where
  "max_target chain =
     (if chain = Zcash then 524287 * 2 ^ 224
      else if chain = Litecoin \<or> chain = Dogecoin then 65535 * 2 ^ 224 else 65535 * 2 ^ 208)"

definition difficulty_of :: "fpu \<Rightarrow> chain_kind \<Rightarrow> bytes \<Rightarrow> rat" where
  "difficulty_of F chain bs =
     (let d = be_double F bs in if d > 0 then rnd_d F (rnd_ld F (max_target chain / d)) else 0)"

text \<open>\<open>le_byte_cmp(a, b) <= 0\<close> on big-endian arrays.\<close>

fun be_le :: "bytes \<Rightarrow> bytes \<Rightarrow> bool" where
  "be_le (x # xs) (y # ys) = (if x \<noteq> y then x < y else be_le xs ys)"
| "be_le _ _ = True"

section \<open>The real-time target of eCash\<close>

fun bit_length :: "nat \<Rightarrow> nat" where
  "bit_length n = (if n = 0 then 0 else Suc (bit_length (n div 2)))"

declare bit_length.simps [simp del]

definition target_double_to_compact :: "fpu \<Rightarrow> rat \<Rightarrow> u32" where
  "target_double_to_compact F t =
     (if \<not> t \<ge> 1 then 0
      else let size = (bit_length (nat \<lfloor>rnd_d F t\<rfloor>) + 7) div 8;
               shifted = (if size \<le> 3 then rnd_ld F (t * 2 ^ (8 * (3 - size))) else rnd_ld F (t / 2 ^ (8 * (size - 3))));
               compact = of_int \<lfloor>shifted\<rfloor> :: u32;
               (compact, size) = (if compact AND 0x00800000 \<noteq> 0 then (drop_bit 8 compact, size + 1) else (compact, size))
           in compact OR push_bit 24 (of_nat size))"

text \<open>
  Entry \<open>k\<close> of \<open>consts\<close> is the constant of window \<open>k\<close>, which the code computes with \<open>std::tgamma\<close>. The result of
  the loop is \<open>None\<close> when a receive time is missing.
\<close>

fun min_rtt_target :: "fpu \<Rightarrow> rat list \<Rightarrow> rat \<Rightarrow> int \<Rightarrow> u32 list \<Rightarrow> rat option \<Rightarrow> rat option option" where
  "min_rtt_target F (f # consts) prev now (t # ts) m =
     (if t = 0 then None
      else let dt = of_int (now - int (unat t)); dt = (if dt < 1 then 1 else dt);
               tgt = rnd_ld F (rnd_ld F (prev * f) * rnd_ld F (dt ^ 5))
           in min_rtt_target F consts prev now ts (case m of None \<Rightarrow> Some tgt | Some x \<Rightarrow> Some (if tgt < x then tgt else x)))"
| "min_rtt_target F _ prev now _ m = Some m"

definition ecash_rtt_ok :: "fpu \<Rightarrow> rat list \<Rightarrow> u32 list \<Rightarrow> u32 \<Rightarrow> int \<Rightarrow> bytes \<Rightarrow> bool" where
  "ecash_rtt_ok F consts prevheadertime prevbits now hash_be =
     (let ex = unat (drop_bit 24 prevbits); mant = prevbits AND 0x007fffff
      in if mant = 0 \<or> ex < 3 \<or> ex > 32 then True
         else case min_rtt_target F consts (of_nat (unat mant) * 2 ^ (8 * (ex - 3))) now prevheadertime None of
                None \<Rightarrow> True
              | Some None \<Rightarrow> True
              | Some (Some t) \<Rightarrow>
                  if t \<ge> 2 ^ 256 then True
                  else let compact = target_double_to_compact F t
                       in if unat (drop_bit 24 compact) > 32 then True
                          else case target_from_bits_hex (int_to_hex compact 8) of
                                 Inr tgt \<Rightarrow> be_le hash_be tgt | Inl _ \<Rightarrow> True)"

fun scale_diff :: "fpu \<Rightarrow> nat \<Rightarrow> nat \<Rightarrow> rat \<Rightarrow> rat" where
  "scale_diff F 0 down d = (case down of 0 \<Rightarrow> d | Suc k \<Rightarrow> scale_diff F 0 k (rnd_d F (d / 256)))"
| "scale_diff F (Suc up) down d = scale_diff F up down (rnd_d F (d * 256))"

definition bits_to_difficulty :: "fpu \<Rightarrow> string \<Rightarrow> rat result" where
  "bits_to_difficulty F bits_hex =
     bind_res (hex_to_bytes bits_hex) (\<lambda>bytes.
       if length bytes \<noteq> 4 then Inr 0
       else let ex = unat (bytes ! 0);
                mant = push_bit 16 (ucast (bytes ! 1)) OR push_bit 8 (ucast (bytes ! 2)) OR ucast (bytes ! 3) :: u32
            in if mant = 0 then Inr 0
               else Inr (scale_diff F (29 - ex) (ex - 29) (rnd_d F (65535 / of_nat (unat mant)))))"

end
