(* ===== verification/Session.thy ===== *)
theory Session
  imports StratumV1 WriteQueue RateLimiter Sv2Messages Noise
begin

text \<open>
  \<open>src/client_session.cpp\<close>, the Stratum V1 half: one miner's connection. An operation takes the
  \<open>world\<close> (the session, the stratifier and the rate limiter it shares with other sessions, the
  lines posted to its strand, its write queue and the actions asked of the environment) and returns
  it, with the exception that ended it, if any. The parameters of the model are the fields of \<open>env\<close>:
  the hash functions, the JSON library, floating point, the database's id, the blacklist, and the
  clocks, which are read once per handler. Logging and metrics are left out. Theory
  \<open>SessionFacts\<close> holds what a session promises.
\<close>

section \<open>State\<close>

record env =
  ev_fpu :: fpu
  ev_exp :: "rat \<Rightarrow> rat"
  ev_sha256 :: "bytes \<Rightarrow> bytes"
  ev_scrypt :: "bytes \<Rightarrow> bytes result"
  ev_blake :: blake2b
  ev_equihash_blake :: "bytes \<Rightarrow> bytes \<Rightarrow> bytes"
  ev_parse :: "string \<Rightarrow> json option"
  ev_dump :: "json \<Rightarrow> string"
  ev_show_double :: "rat \<Rightarrow> string"
  ev_stod :: "string \<Rightarrow> rat option"
  ev_stoi :: "string \<Rightarrow> int option"
  ev_rtt_consts :: "rat list"
  ev_ensure_miner :: "string \<Rightarrow> string \<Rightarrow> string \<Rightarrow> int"
  ev_blacklist :: blacklist
  ev_aux_client :: bool
  ev_steady :: int
  ev_unix :: u32
  ev_crypto :: crypto
  ev_static_draws :: "bytes list \<times> bytes"
  ev_ephemeral_draws :: "bytes list \<times> bytes \<times> bytes"
  ev_rand :: nat

record stat_snapshot =
  sn_ip :: string
  sn_worker_address :: string
  sn_worker_name :: string
  sn_user_agent :: string
  sn_protocol :: string
  sn_miner_id :: int
  sn_connected_unix :: u32
  sn_tier_port :: u16
  sn_authorized :: bool
  sn_subscribed :: bool
  sn_is_v2 :: bool
  sn_is_tls :: bool

text \<open>A job that a Stratum V2 miner declared.\<close>

record custom_job =
  cj_job_id :: u32
  cj_version :: u32
  cj_prev_hash :: bytes
  cj_coinbase_prefix :: bytes
  cj_coinbase_outputs :: bytes
  cj_coinbase_tx_version :: u32
  cj_coinbase_tx_input_nSequence :: u32
  cj_coinbase_tx_locktime :: u32
  cj_nbits :: u32

record session =
  cs_coin :: coin_config
  cs_is_tls :: bool
  cs_client_ip :: string
  cs_extranonce1 :: string
  cs_session_id :: string
  cs_buffer :: string
  cs_worker_address :: string
  cs_worker_name :: string
  cs_worker_script_hex :: string
  cs_aux_doge_address :: string
  cs_doge_script_hex :: string
  cs_aux_jobs :: "(string \<times> session_aux_job) list"
  cs_doge_submitted :: "string list"
  cs_zcash_jobs :: "(string \<times> string \<times> string) list"
  cs_user_agent :: string
  cs_miner_id :: int
  cs_subscribed :: bool
  cs_authorized :: bool
  cs_extranonce_subscribed :: bool
  cs_extranonce2_size :: nat
  cs_version_rolling :: bool
  cs_version_mask :: u32
  cs_vardiff :: vardiff
  cs_last_difficulty :: rat
  cs_last_difficulty_change :: int
  cs_custom_difficulty :: "rat option"
  cs_shares_total :: u64
  cs_shares_accepted :: u64
  cs_shares_rejected :: u64
  cs_stat_diff :: rat
  cs_stat_hr1 :: rat
  cs_stat_hr5 :: rat
  cs_last_share_unix :: u32
  cs_connected_unix :: u32
  cs_closed :: bool
  cs_disconnect_handler :: bool
  cs_snapshot :: "stat_snapshot option"
  cs_is_v2 :: bool
  cs_is_v2_encrypted :: bool
  cs_is_extended_channel :: bool
  cs_sv2_read_buffer :: bytes
  cs_sv2_pending_header :: "header option"
  cs_sv2_channel_id :: u32
  cs_sv2_custom_job_id_counter :: u32
  cs_sv2_custom_jobs :: "(u32 \<times> custom_job) list"
  cs_noise :: noise

text \<open>What the continuations of the asynchronous calls capture.\<close>

record pending_auth =
  pa_id_json :: string
  pa_addr :: string
  pa_worker :: string
  pa_decoded :: decoded
  pa_custom_diff :: "rat option"
  pa_doge_address :: string

record block_record =
  br_height :: int
  br_block_hash :: string
  br_miner_id :: int
  br_difficulty :: rat
  br_reward_value :: int
  br_coin :: string

record share_record =
  shr_miner_id :: int
  shr_job_id :: string
  shr_nonce :: string
  shr_extranonce1 :: string
  shr_extranonce2 :: string
  shr_hash :: string
  shr_difficulty :: rat
  shr_accepted :: bool
  shr_block :: bool

datatype action =
    StartRead
  | StartReadV2 nat
  | StartWrite string
  | CloseSocket
  | Presence string string string string
  | NotifyDisconnect
  | ValidateAddress string pending_auth
  | ValidateDogeAddress string pending_auth
  | SubmitBlock string bool block_record
  | SubmitDogeBlock string block_record
  | IpcSubmit u64 u32 u32 u32 bytes
  | PersistShare share_record
  | PersistBestShare int rat string
  | PreciousBlock string
  | PersistBlock block_record
  | ReadAct1 u8
  | WriteAct2 bytes
  | ValidatePayout string

record world =
  w_cs :: session
  w_strat :: stratifier
  w_limiter :: "rate_limiter option"
  w_posted :: "string list"
  w_queue :: write_queue
  w_actions :: "action list"

type_synonym outcome = "exn option \<times> world"

definition fine :: "world \<Rightarrow> outcome" where
  "fine w = (None, w)"

definition and_then :: "outcome \<Rightarrow> (world \<Rightarrow> outcome) \<Rightarrow> outcome" where
  "and_then oc f = (case oc of (Some e, w) \<Rightarrow> (Some e, w) | (None, w) \<Rightarrow> f w)"

definition attempt :: "'a result \<Rightarrow> world \<Rightarrow> ('a \<Rightarrow> outcome) \<Rightarrow> outcome" where
  "attempt r w f = (case r of Inl e \<Rightarrow> (Some e, w) | Inr x \<Rightarrow> f x)"

definition upd_cs :: "(session \<Rightarrow> session) \<Rightarrow> world \<Rightarrow> world" where
  "upd_cs f w = w\<lparr>w_cs := f (w_cs w)\<rparr>"

definition ask :: "action list \<Rightarrow> world \<Rightarrow> world" where
  "ask acts w = w\<lparr>w_actions := w_actions w @ acts\<rparr>"

definition send_line :: "string \<Rightarrow> world \<Rightarrow> world" where
  "send_line msg w = w\<lparr>w_posted := w_posted w @ [msg]\<rparr>"

definition chain_of :: "session \<Rightarrow> chain_kind" where
  "chain_of cs = cc_chain (cs_coin cs)"

definition id_json :: "env \<Rightarrow> json \<Rightarrow> string" where
  "id_json E msg = safe_id_json (ev_show_double E) msg"

section \<open>Opening and closing\<close>

definition session_vardiff :: "fpu \<Rightarrow> coin_config \<Rightarrow> vardiff" where
  "session_vardiff F coin =
     (let tier = activeTier coin
      in vardiff_new \<lparr>vc_target_share_rate_hz = rnd_d F (targetSharesPerMinute coin / 60),
             vc_min_difficulty = min (st_vardiffMin tier) (st_startingDifficulty tier),
             vc_max_difficulty = max (st_vardiffMax tier) (st_startingDifficulty tier),
             vc_tau_seconds = vardiffTauSeconds coin\<rparr>
           (st_startingDifficulty tier))"

text \<open>The constructor; the two random texts are arguments.\<close>

definition session_new :: "env \<Rightarrow> coin_config \<Rightarrow> bool \<Rightarrow> string \<Rightarrow> string \<Rightarrow> session" where
  "session_new E coin tls extranonce1 session_id =
     \<lparr>cs_coin = coin, cs_is_tls = tls, cs_client_ip = [], cs_extranonce1 = extranonce1,
      cs_session_id = session_id, cs_buffer = [], cs_worker_address = [], cs_worker_name = [],
      cs_worker_script_hex = [], cs_aux_doge_address = [], cs_doge_script_hex = [], cs_aux_jobs = [],
      cs_doge_submitted = [], cs_zcash_jobs = [], cs_user_agent = [], cs_miner_id = - 1, cs_subscribed = False,
      cs_authorized = False, cs_extranonce_subscribed = False,
      cs_extranonce2_size = (if cc_chain coin = Zcash then 4 else 8),
      cs_version_rolling = False, cs_version_mask = 0, cs_vardiff = session_vardiff (ev_fpu E) coin,
      cs_last_difficulty = st_startingDifficulty (activeTier coin), cs_last_difficulty_change = ev_steady E,
      cs_custom_difficulty = None, cs_shares_total = 0, cs_shares_accepted = 0, cs_shares_rejected = 0,
      cs_stat_diff = 0, cs_stat_hr1 = 0, cs_stat_hr5 = 0, cs_last_share_unix = 0, cs_connected_unix = 0,
      cs_closed = False, cs_disconnect_handler = False, cs_snapshot = None, cs_is_v2 = False,
      cs_is_v2_encrypted = False, cs_is_extended_channel = False, cs_sv2_read_buffer = [],
      cs_sv2_pending_header = None, cs_sv2_channel_id = 0, cs_sv2_custom_job_id_counter = 0,
      cs_sv2_custom_jobs = [], cs_noise = noise_new\<rparr>"

text \<open>
  \<open>start\<close> up to the first read, for a connection whose remote address is \<open>ip\<close>. A TLS session reads
  lines after its handshake, every other one looks at the first byte.
\<close>

definition start :: "env \<Rightarrow> string \<Rightarrow> world \<Rightarrow> world" where
  "start E ip w =
     (upd_cs (\<lambda>cs. cs\<lparr>cs_connected_unix := ev_unix E, cs_client_ip := ip\<rparr>) w)\<lparr>w_queue := set_owner (w_queue w)\<rparr>"

definition is_exclusive_v2 :: "session \<Rightarrow> bool" where
  "is_exclusive_v2 cs = (st_sv2 (activeTier (cs_coin cs)) \<or> st_label (activeTier (cs_coin cs)) = ''stratumv2'')"

definition on_disconnect_local :: "world \<Rightarrow> world" where
  "on_disconnect_local w =
     (let cs = w_cs w
      in if cs_closed cs then w
         else ask ([CloseSocket]
                @ (if cs_worker_address cs \<noteq> []
                   then [Presence (cs_worker_address cs) (cs_worker_name cs) ''offline'' (cs_client_ip cs)] else [])
                @ (if cs_disconnect_handler cs then [NotifyDisconnect] else []))
           (upd_cs (\<lambda>cs. cs\<lparr>cs_closed := True\<rparr>)
             (w\<lparr>w_queue := wq_stop (w_queue w),
                w_limiter := map_option (on_disconnect (cs_client_ip cs)) (w_limiter w)\<rparr>)))"

text \<open>The completion of the TLS handshake, and of the read of the first byte of a plain connection.\<close>

definition on_tls_handshake :: "bool \<Rightarrow> world \<Rightarrow> world" where
  "on_tls_handshake failed w =
     (if failed then on_disconnect_local w else ask [StartRead] (upd_cs (\<lambda>cs. cs\<lparr>cs_is_v2 := False\<rparr>) w))"

text \<open>
  The first byte decides the protocol. A tier that requires encryption takes it as the first of the
  64 bytes of the handshake's first message, any other tier as the start of a line or of a frame.
\<close>

definition noise_tier :: "session \<Rightarrow> bool" where
  "noise_tier cs = (is_exclusive_v2 cs \<and> sv2NoiseRequired (cs_coin cs))"

definition on_first_byte :: "char option \<Rightarrow> world \<Rightarrow> world" where
  "on_first_byte b w =
     (case b of None \<Rightarrow> on_disconnect_local w
      | Some c \<Rightarrow>
          if c = CHR 0x7B \<or> is_space c
          then (if is_exclusive_v2 (w_cs w) then on_disconnect_local w
                else ask [StartRead] (upd_cs (\<lambda>cs. cs\<lparr>cs_is_v2 := False, cs_buffer := cs_buffer cs @ [c]\<rparr>) w))
          else if noise_tier (w_cs w) then ask [ReadAct1 (byte_of_char c)] w
          else if \<not> is_exclusive_v2 (w_cs w) then on_disconnect_local w
          else ask [StartReadV2 5]
                 (upd_cs (\<lambda>cs. cs\<lparr>cs_is_v2 := True,
                    cs_sv2_read_buffer := cs_sv2_read_buffer cs @ [byte_of_char c]\<rparr>) w))"

definition protocol_label :: "session \<Rightarrow> string" where
  "protocol_label cs =
     (if \<not> cs_is_v2 cs then (if cs_is_tls cs then ''sv1+tls'' else ''sv1'') else (if cs_is_v2_encrypted cs then ''sv2+noise'' else ''sv2'')
       @ (if cs_is_extended_channel cs then ''+ext'' else []))"

definition publish_snapshot :: "world \<Rightarrow> world" where
  "publish_snapshot w =
     upd_cs (\<lambda>cs. cs\<lparr>cs_snapshot := Some
       \<lparr>sn_ip = cs_client_ip cs, sn_worker_address = cs_worker_address cs, sn_worker_name = cs_worker_name cs,
        sn_user_agent = cs_user_agent cs, sn_protocol = protocol_label cs, sn_miner_id = cs_miner_id cs,
        sn_connected_unix = cs_connected_unix cs, sn_tier_port = st_port (activeTier (cs_coin cs)),
        sn_authorized = cs_authorized cs, sn_subscribed = cs_subscribed cs, sn_is_v2 = cs_is_v2 cs,
        sn_is_tls = cs_is_tls cs\<rparr>\<rparr>) w"

definition reset_share_counters :: "world \<Rightarrow> world" where
  "reset_share_counters w =
     upd_cs (\<lambda>cs. cs\<lparr>cs_shares_total := 0, cs_shares_accepted := 0, cs_shares_rejected := 0\<rparr>) w"

definition hashrate_multiplier :: "chain_kind \<Rightarrow> rat" where
  "hashrate_multiplier chain =
     (if chain = Litecoin \<or> chain = Dogecoin then 65536 else if chain = Zcash then 8192 else 4294967296)"

definition note_accepted_share :: "env \<Rightarrow> rat \<Rightarrow> world \<Rightarrow> world" where
  "note_accepted_share E share_diff w =
     (let F = ev_fpu E; mult = hashrate_multiplier (chain_of (w_cs w))
      in (upd_cs (\<lambda>cs. cs\<lparr>cs_last_share_unix := ev_unix E,
              cs_stat_hr1 := rnd_d F (vd_dsps1 (cs_vardiff cs) * mult),
              cs_stat_hr5 := rnd_d F (vd_dsps5 (cs_vardiff cs) * mult)\<rparr>) w)
           \<lparr>w_strat := note_share_diff share_diff (w_strat w)\<rparr>)"

text \<open>The write queue's actions on the session: a write is started, or the session is dropped.\<close>

definition queue_actions :: "wq_action list \<Rightarrow> world \<Rightarrow> world" where
  "queue_actions acts w =
     fold (\<lambda>a w. case a of AsyncWrite m \<Rightarrow> ask [StartWrite m] w | DropSession \<Rightarrow> on_disconnect_local w) acts w"

definition push_line :: "string \<Rightarrow> world \<Rightarrow> world" where
  "push_line m w =
     (let (ok, q, acts) = wq_push True m (w_queue w) in queue_actions acts (w\<lparr>w_queue := q\<rparr>))"

text \<open>
  A posted \<open>send_line\<close> runs on the strand, and a write completes; the session is alive, since the
  task and the completion handler hold it.
\<close>

definition run_posted :: "world \<Rightarrow> world" where
  "run_posted w =
     (case w_posted w of [] \<Rightarrow> w | m # ms \<Rightarrow> push_line m (w\<lparr>w_posted := ms\<rparr>))"

definition on_line_written :: "bool \<Rightarrow> world \<Rightarrow> world" where
  "on_line_written ec w =
     (let (q, acts) = on_write_done ec True (w_queue w) in queue_actions acts (w\<lparr>w_queue := q\<rparr>))"

definition request_reconnect :: "env \<Rightarrow> string \<Rightarrow> string \<Rightarrow> int \<Rightarrow> world \<Rightarrow> world" where
  "request_reconnect E host port wait w =
     (if cs_closed (w_cs w) \<or> cs_is_v2 (w_cs w) then w
      else let params = (if host \<noteq> []
                 then [JString host, (case ev_stoi E port of Some p \<Rightarrow> JInt p | None \<Rightarrow> JString port),
                       JInt (if wait > 0 then wait else 0)]
                 else [])
           in push_line (ev_dump E (JObject [(''id'', JNull), (''method'', JString ''client.reconnect''),
                (''params'', JArray params)]) @ newline) w)"

section \<open>Work for the miner\<close>

text \<open>The last \<open>false\<close> of a notify line becomes \<open>true\<close>.\<close>

definition force_clean_line :: "string \<Rightarrow> string" where
  "force_clean_line out =
     (let n = length out - 9
      in if length out \<ge> 9 \<and> drop n out = '',false]}'' @ newline then take n out @ '',true]}'' @ newline else out)"

text \<open>
  The Zcash coinbase redirected to the worker, with the root of the block it heads; \<open>None\<close> when
  the output cannot be replaced.
\<close>

definition zcash_work :: "env \<Rightarrow> mining_job \<Rightarrow> string \<Rightarrow> (string \<times> string) option result" where
  "zcash_work E job worker_script_hex =
     (let don_script = (if mj_donation_percent job > 0 \<and> mj_donation_address job \<noteq> []
            then taddr_to_script (ev_sha256 E) (mj_donation_address job) else [])
      in bind_res (hex_to_bytes (mj_zcash_full_coinbase_hex job)) (\<lambda>raw.
         bind_res (hex_to_bytes worker_script_hex) (\<lambda>script.
         bind_res (swap_miner_output (ev_fpu E) raw script don_script (mj_donation_percent job)) (\<lambda>swapped.
           if swapped = [] then Inr None
           else bind_res (zip244_txid (ev_blake E) swapped) (\<lambda>txid.
                bind_res (compute_root_le_hex (ev_sha256 E) (bytes_to_hex txid) (mj_merkle_branch_le job)) (\<lambda>mr.
                  Inr (Some (bytes_to_hex swapped, mr))))))))"

definition zcash_notify :: "mining_job \<Rightarrow> string \<Rightarrow> string" where
  "zcash_notify job mr =
     notify_head @ commas
       [quote (mj_job_id job), quote (le_hex_u32 (mj_version job)),
        quote (byte_reverse_hex (mj_previousblockhash job)), quote mr,
        quote (if mj_reserved job = [] then replicate 64 (CHR ''0'') else byte_reverse_hex (mj_reserved job)),
        quote (le_hex_u32 (mj_curtime job)), quote (byte_reverse_hex (mj_bits job)),
        json_bool (mj_clean_jobs job)] @ '']}'' @ newline"

definition coinbase2_of :: "env \<Rightarrow> session \<Rightarrow> mining_job \<Rightarrow> string" where
  "coinbase2_of E cs job =
     build_session_coinbase2 (ev_fpu E) (\<lambda>b. Inr (ev_sha256 E b)) (chain_of cs) job (cs_worker_script_hex cs)"

definition emit_job :: "env \<Rightarrow> mining_job \<Rightarrow> bool \<Rightarrow> world \<Rightarrow> outcome" where
  "emit_job E job force_clean w =
     (let cs = w_cs w; finish = (\<lambda>out w. fine (send_line (if force_clean then force_clean_line out else out) w))
      in if chain_of cs = Zcash
         then if cs_worker_script_hex cs \<noteq> [] \<and> mj_zcash_full_coinbase_hex job \<noteq> []
              then attempt (zcash_work E job (cs_worker_script_hex cs)) w (\<lambda>work. case work of
                     None \<Rightarrow> finish (mj_notify_prefix job) w
                   | Some (coinbase, mr) \<Rightarrow>
                       finish (zcash_notify job mr)
                         (upd_cs (\<lambda>cs. cs\<lparr>cs_zcash_jobs := AList.update (mj_job_id job) (coinbase, mr)
                            (if length (cs_zcash_jobs cs) > 256 then [] else cs_zcash_jobs cs)\<rparr>) w))
              else finish (mj_notify_prefix job) w
         else finish (mj_notify_prefix job @ coinbase2_of E cs job @ mj_notify_suffix job) w)"

definition emit_job_custom :: "env \<Rightarrow> mining_job \<Rightarrow> string \<Rightarrow> bool \<Rightarrow> world \<Rightarrow> world" where
  "emit_job_custom E job custom_prefix force_clean w =
     (let out = custom_prefix @ coinbase2_of E (w_cs w) job @ mj_notify_suffix job
      in send_line (if force_clean then force_clean_line out else out) w)"

definition custom_prefix :: "mining_job \<Rightarrow> session_aux_job \<Rightarrow> string" where
  "custom_prefix job aux =
     notify_head @ commas
       [quote (mj_job_id job), quote (reverse_words (mj_previousblockhash job)),
        quote (splice_commit (mj_coinbase1 job) (sa_aux_commit aux))] @ '','' @ [CHR 0x22]"

section \<open>Difficulty\<close>

text \<open>The low \<open>n\<close> bytes of the whole part of a number, most significant first.\<close>

fun float_bytes :: "nat \<Rightarrow> rat \<Rightarrow> bytes" where
  "float_bytes 0 cur = []"
| "float_bytes (Suc n) cur =
     float_bytes n (of_int \<lfloor>cur / 256\<rfloor>) @ [of_int \<lfloor>cur - 256 * of_int \<lfloor>cur / 256\<rfloor>\<rfloor>]"

definition zcash_target :: "fpu \<Rightarrow> rat \<Rightarrow> bytes" where
  "zcash_target F rounded =
     float_bytes 32 (if rounded > 0 then rnd_ld F (max_target Zcash / rounded) else max_target Zcash)"

definition difficulty_line :: "rat \<Rightarrow> string" where
  "difficulty_line rounded =
     js ''{`id`:null,`method`:`mining.set_difficulty`,`params`:['' @ fmt_0f rounded @ '']}'' @ newline"

definition target_line :: "bytes \<Rightarrow> string" where
  "target_line tgt = js ''{`id`:null,`method`:`mining.set_target`,`params`:['' @ quote (bytes_to_hex tgt) @ '']}'' @ newline"

definition send_set_difficulty :: "env \<Rightarrow> rat \<Rightarrow> rat option \<Rightarrow> world \<Rightarrow> outcome" where
  "send_set_difficulty E d old_diff w =
     (let rounded = round_half_away d;
          w = send_line (difficulty_line rounded)
            (upd_cs (\<lambda>cs. cs\<lparr>cs_last_difficulty := (case old_diff of Some o' \<Rightarrow> o' | None \<Rightarrow> d),
                cs_last_difficulty_change := ev_steady E, cs_stat_diff := rounded\<rparr>) w);
          w = (if chain_of (w_cs w) = Zcash then send_line (target_line (zcash_target (ev_fpu E) rounded)) w else w)
      in if cs_authorized (w_cs w)
         then (case latestJob (w_strat w) of Some j \<Rightarrow> emit_job E j True w | None \<Rightarrow> fine w)
         else fine w)"

definition send_set_version_mask :: "u32 \<Rightarrow> world \<Rightarrow> world" where
  "send_set_version_mask m w =
     send_line (js ''{`id`:null,`method`:`mining.set_version_mask`,`params`:['' @ quote (fmt_08x m) @ '']}'' @ newline) w"

section \<open>Requests\<close>

definition params_of :: "json \<Rightarrow> json list" where
  "params_of msg = (case array_member msg ''params'' of Some ps \<Rightarrow> ps | None \<Rightarrow> [])"

definition first_string :: "json \<Rightarrow> string option" where
  "first_string msg = (case params_of msg of JString s # _ \<Rightarrow> Some s | _ \<Rightarrow> None)"

definition second_string :: "json \<Rightarrow> string option" where
  "second_string msg = (case params_of msg of _ # JString s # _ \<Rightarrow> Some s | _ \<Rightarrow> None)"

definition handle_configure :: "env \<Rightarrow> json \<Rightarrow> world \<Rightarrow> outcome" where
  "handle_configure E msg w =
     (let neg = negotiate_configure (ev_fpu E) (JArray (params_of msg))
            (if enableVersionRolling (cs_coin (w_cs w)) then pool_version_mask (w_strat w) else 0);
          w = upd_cs (\<lambda>cs. cs\<lparr>cs_version_rolling := (cr_version_rolling neg \<and> cr_version_mask neg \<noteq> 0),
                cs_version_mask := cr_version_mask neg\<rparr>) w
      in fine (send_line (js ''{`id`:'' @ id_json E msg @ js '',`result`:{'' @ configure_body neg @ js ''},`error`:null}'' @ newline) w))"

definition subscribe_reply :: "string \<Rightarrow> session \<Rightarrow> string" where
  "subscribe_reply i cs =
     js ''{`id`:'' @ i @ js '',`result`:[[[`mining.set_difficulty`,'' @ quote (cs_session_id cs) @
     js ''],[`mining.notify`,'' @ quote (cs_session_id cs) @ '']],'' @ quote (cs_extranonce1 cs) @ '','' @
     dec_nat (cs_extranonce2_size cs) @ js ''],`error`:null}'' @ newline"

definition handle_subscribe :: "env \<Rightarrow> json \<Rightarrow> world \<Rightarrow> outcome" where
  "handle_subscribe E msg w =
     (let i = id_json E msg;
          w = (case first_string msg of Some ua \<Rightarrow> upd_cs (\<lambda>cs. cs\<lparr>cs_user_agent := take 256 ua\<rparr>) w | None \<Rightarrow> w)
      in if \<not> st_allowNiceHash (activeTier (cs_coin (w_cs w))) \<and> looks_like_aggregator (cs_user_agent (w_cs w))
         then fine (on_disconnect_local (send_line
                (error_line i 20 ''aggregator services must connect to a high-diff tier port'') w))
         else let w = upd_cs (\<lambda>cs. cs\<lparr>cs_extranonce2_size := (if chain_of cs = Zcash then 4 else 8)\<rparr>) w;
                  w = send_line (subscribe_reply i (w_cs w)) w;
                  w = publish_snapshot (upd_cs (\<lambda>cs. cs\<lparr>cs_subscribed := True\<rparr>) w)
              in and_then (send_set_difficulty E (vd_current_diff (cs_vardiff (w_cs w))) None w) (\<lambda>w.
                   fine (if cs_version_rolling (w_cs w) \<and> cs_version_mask (w_cs w) \<noteq> 0
                         then send_set_version_mask (cs_version_mask (w_cs w)) w else w)))"

definition handle_suggest_difficulty :: "env \<Rightarrow> json \<Rightarrow> world \<Rightarrow> outcome" where
  "handle_suggest_difficulty E msg w =
     (let i = id_json E msg; tier = activeTier (cs_coin (w_cs w))
      in and_then
           (case params_of msg of
              v # _ \<Rightarrow> if st_vardiffEnabled tier \<and> is_number v
                then attempt (get_double (ev_fpu E) v) w (\<lambda>d.
                       send_set_difficulty E (clamp d (st_vardiffMin tier) (st_vardiffMax tier)) None w)
                else fine w
            | [] \<Rightarrow> fine w)
           (\<lambda>w. fine (send_line (ok_line i) w)))"

subsection \<open>mining.authorize\<close>

text \<open>Why a name is refused before the node is asked, or what the node's answer will need.\<close>

definition check_name :: "env \<Rightarrow> session \<Rightarrow> json \<Rightarrow> string + pending_auth" where
  "check_name E cs msg =
     (case first_string msg of None \<Rightarrow> Inl ''missing worker name''
      | Some full \<Rightarrow>
          let (addr, worker) = split_worker full; bl = ev_blacklist E
          in if length addr > 128 \<or> length worker > 64 then Inl ''name too long''
          else (case decode (\<lambda>b. Inr (ev_sha256 E b)) addr of
             Inl e \<Rightarrow> Inl (''invalid address: '' @ escape (error_to_string e))
           | Inr d \<Rightarrow>
               if address_blocked addr bl then Inl ''address not allowed''
               else if worker_is_free worker \<and> \<not> free_granted addr bl then Inl ''worker name is reserved''
               else if \<not> worker_is_free worker \<and> worker_blocked worker bl then Inl ''worker name not allowed''
               else Inr \<lparr>pa_id_json = id_json E msg, pa_addr = addr, pa_worker = worker, pa_decoded = d,
                 pa_custom_diff = (if st_vardiffEnabled (activeTier (cs_coin cs))
                   then (case second_string msg of None \<Rightarrow> None
                     | Some pw \<Rightarrow> password_difficulty (ev_fpu E) (ev_stod E) (chain_of cs) pw)
                   else None),
                 pa_doge_address = (case second_string msg of None \<Rightarrow> [] | Some pw \<Rightarrow> password_doge pw)\<rparr>))"

definition handle_authorize :: "env \<Rightarrow> json \<Rightarrow> world \<Rightarrow> outcome" where
  "handle_authorize E msg w =
     (case check_name E (w_cs w) msg of
        Inl reason \<Rightarrow> fine (send_line (refuse_line (id_json E msg) reason) w)
      | Inr p \<Rightarrow> fine (ask [ValidateAddress (pa_addr p) p] w))"

definition worker_script :: "env \<Rightarrow> chain_kind \<Rightarrow> pending_auth \<Rightarrow> string" where
  "worker_script E chain p =
     (if chain = Zcash then bytes_to_hex (taddr_to_script (ev_sha256 E) (pa_addr p))
      else script_pubkey_hex (pa_decoded p))"

definition proceed_auth :: "env \<Rightarrow> pending_auth \<Rightarrow> world \<Rightarrow> outcome" where
  "proceed_auth E p w =
     (let w = upd_cs (\<lambda>cs. cs\<lparr>cs_worker_address := pa_addr p, cs_worker_name := pa_worker p,
            cs_worker_script_hex := worker_script E (chain_of cs) p\<rparr>) w
      in and_then
           (case pa_custom_diff p of None \<Rightarrow> fine w
            | Some d \<Rightarrow> send_set_difficulty E d None
                (upd_cs (\<lambda>cs. cs\<lparr>cs_custom_difficulty := Some d, cs_vardiff := set_current d (cs_vardiff cs)\<rparr>) w))
           (\<lambda>w. let w = send_line (ok_line (pa_id_json p)) w; cs = w_cs w;
                    w = upd_cs (\<lambda>cs. cs\<lparr>cs_miner_id :=
                      ev_ensure_miner E (cs_worker_address cs) (cs_worker_name cs) (cs_client_ip cs)\<rparr>) w;
                    w = ask [Presence (cs_worker_address cs) (cs_worker_name cs) ''online'' (cs_client_ip cs)] w;
                    w = publish_snapshot (upd_cs (\<lambda>cs. cs\<lparr>cs_authorized := True\<rparr>) w)
                in case latestJob (w_strat w) of Some j \<Rightarrow> emit_job E j False w | None \<Rightarrow> fine w))"

text \<open>The pool's own Dogecoin address, when the miner gave none.\<close>

definition default_doge :: "env \<Rightarrow> session \<Rightarrow> session" where
  "default_doge E cs =
     (let payout = ax_payoutAddress (cc_aux (cs_coin cs))
      in if ev_aux_client E \<and> payout \<noteq> []
         then case decode (\<lambda>b. Inr (ev_sha256 E b)) payout of
                Inr d \<Rightarrow> cs\<lparr>cs_aux_doge_address := payout, cs_doge_script_hex := script_pubkey_hex d\<rparr>
              | Inl _ \<Rightarrow> cs
         else cs)"

text \<open>The node's answer: an error text or a verdict.\<close>

definition on_address_validated :: "env \<Rightarrow> pending_auth \<Rightarrow> string option \<Rightarrow> bool \<Rightarrow> world \<Rightarrow> outcome" where
  "on_address_validated E p ec valid w =
     (if cs_closed (w_cs w) then fine w
      else if ec \<noteq> None \<or> \<not> valid
      then fine (send_line (refuse_line (pa_id_json p) (''invalid address: '' @ escape
             (case ec of Some m \<Rightarrow> m | None \<Rightarrow> ''node rejected address as invalid or unsupported''))) w)
      else if pa_doge_address p \<noteq> [] \<and> ev_aux_client E then fine (ask [ValidateDogeAddress (pa_doge_address p) p] w)
      else proceed_auth E p (upd_cs (default_doge E) w))"

definition on_doge_validated :: "env \<Rightarrow> pending_auth \<Rightarrow> string option \<Rightarrow> bool \<Rightarrow> world \<Rightarrow> outcome" where
  "on_doge_validated E p ec valid w =
     (if cs_closed (w_cs w) then fine w
      else if ec \<noteq> None \<or> \<not> valid
      then fine (send_line (refuse_line (pa_id_json p) ''invalid Dogecoin address'') w)
      else proceed_auth E p (upd_cs (\<lambda>cs.
        let cs = cs\<lparr>cs_aux_doge_address := pa_doge_address p\<rparr>
        in case decode (\<lambda>b. Inr (ev_sha256 E b)) (pa_doge_address p) of
             Inr d \<Rightarrow> cs\<lparr>cs_doge_script_hex := script_pubkey_hex d\<rparr>
           | Inl _ \<Rightarrow> cs) w))"

section \<open>mining.submit\<close>

record share =
  sh_worker :: string
  sh_job_id :: string
  sh_nonce2 :: string
  sh_ntime :: string
  sh_nonce :: string
  sh_solution :: string
  sh_version_bits :: "u32 option"

definition session_hex_u32 :: "string \<Rightarrow> u32 option" where
  "session_hex_u32 h = (if length h \<noteq> 8 then None else parse_hex_u32 h)"

definition pad_nonce :: "string \<Rightarrow> string" where
  "pad_nonce s = s @ replicate (64 - length s) (CHR ''0'')"

definition parse_zcash_submit :: "string \<Rightarrow> json list \<Rightarrow> string + share" where
  "parse_zcash_submit extranonce1 ps =
     (case ps of
        JString worker # JString job_id # JString ntime # JString nonce2 # JString solution # _ \<Rightarrow>
          let nonce = pad_nonce (extranonce1 @ nonce2);
              sol = (if length solution = 2694 then drop 6 solution else solution)
          in if \<not> valid_hex ntime \<or> length ntime \<noteq> 8 then Inl ''invalid time hex''
             else if \<not> valid_hex nonce2 then Inl ''invalid nonce hex''
             else if length nonce \<noteq> 64 then Inl ''bad Zcash nonce size''
             else if \<not> valid_hex solution then Inl ''bad Zcash solution hex''
             else if length sol \<noteq> 2688 then Inl ''bad Zcash solution size''
             else Inr \<lparr>sh_worker = worker, sh_job_id = job_id, sh_nonce2 = [], sh_ntime = ntime,
               sh_nonce = nonce, sh_solution = sol, sh_version_bits = None\<rparr>
      | _ \<Rightarrow> Inl ''bad params types'')"

definition parse_bitcoin_submit :: "nat \<Rightarrow> json list \<Rightarrow> string + share" where
  "parse_bitcoin_submit extranonce2_size ps =
     (case ps of
        JString worker # JString job_id # JString nonce2 # JString ntime # JString nonce # rest \<Rightarrow>
          if \<not> valid_hex nonce2 \<or> \<not> valid_hex ntime \<or> \<not> valid_hex nonce \<or> length ntime \<noteq> 8 then Inl ''invalid hex''
          else if length nonce \<noteq> 8 then Inl ''bad nonce size''
          else if length nonce2 \<noteq> extranonce2_size * 2 then Inl ''bad extranonce2 size''
          else Inr \<lparr>sh_worker = worker, sh_job_id = job_id, sh_nonce2 = nonce2, sh_ntime = ntime,
            sh_nonce = nonce, sh_solution = [],
            sh_version_bits = (case rest of JString v # _ \<Rightarrow> session_hex_u32 v | _ \<Rightarrow> None)\<rparr>
      | _ \<Rightarrow> Inl ''bad params types'')"

definition parse_submit :: "session \<Rightarrow> json list \<Rightarrow> string + share" where
  "parse_submit cs ps =
     (if length ps < 5 then Inl ''bad params''
      else if chain_of cs = Zcash then parse_zcash_submit (cs_extranonce1 cs) ps
      else parse_bitcoin_submit (cs_extranonce2_size cs) ps)"

text \<open>A share that reached its proof of work.\<close>

record candidate =
  ca_job :: mining_job
  ca_share :: share
  ca_stale :: bool
  ca_version :: u32
  ca_coinbase_hex :: string
  ca_header_hex :: string
  ca_hash :: bytes
  ca_net_target :: bytes
  ca_meets_network :: bool
  ca_share_diff :: rat

definition effective_mask :: "session \<Rightarrow> stratifier \<Rightarrow> u32" where
  "effective_mask cs strat =
     (if cs_version_mask cs = 0 \<and> enableVersionRolling (cs_coin cs) then pool_version_mask strat else cs_version_mask cs)"

definition share_version :: "u32 \<Rightarrow> mining_job \<Rightarrow> share \<Rightarrow> u32 option" where
  "share_version vmask job sh =
     (case sh_version_bits sh of None \<Rightarrow> Some (mj_version job)
      | Some bits \<Rightarrow> if vmask = 0 then None else Some ((mj_version job AND NOT vmask) OR (bits AND vmask)))"

text \<open>The coinbase the miner hashed and the root it heads.\<close>

definition share_coinbase :: "env \<Rightarrow> session \<Rightarrow> mining_job \<Rightarrow> share \<Rightarrow> (string \<times> string) result" where
  "share_coinbase E cs job sh =
     (if chain_of cs = Zcash
      then Inr (case map_of (cs_zcash_jobs cs) (sh_job_id sh) of Some (cb, mr) \<Rightarrow> (cb, mr)
                | None \<Rightarrow> (mj_zcash_full_coinbase_hex job, mj_zcash_merkle_root_le job))
      else let coinbase1 = (if cs_aux_doge_address cs \<noteq> []
                 then (case map_of (cs_aux_jobs cs) (sh_job_id sh) of
                         Some aux \<Rightarrow> splice_commit (mj_coinbase1 job) (sa_aux_commit aux) | None \<Rightarrow> mj_coinbase1 job)
                 else mj_coinbase1 job);
               cb_hex = rebuild_coinbase coinbase1 (coinbase2_of E cs job) (cs_extranonce1 cs @ sh_nonce2 sh)
           in bind_res (compute_coinbase_txid_le (sha256d (ev_sha256 E)) cb_hex) (\<lambda>txid.
              bind_res (compute_root_le_hex (ev_sha256 E) txid (mj_merkle_branch_le job)) (\<lambda>mr. Inr (cb_hex, mr))))"

definition share_header :: "chain_kind \<Rightarrow> mining_job \<Rightarrow> u32 \<Rightarrow> string \<Rightarrow> string \<Rightarrow> string \<Rightarrow> string" where
  "share_header chain job version merkle_root_le ntime nonce =
     (if chain = Zcash
      then le_hex_u32 version @ byte_reverse_hex (mj_previousblockhash job) @ merkle_root_le
           @ byte_reverse_hex (if mj_reserved job = [] then replicate 64 (CHR ''0'') else mj_reserved job)
           @ byte_reverse_hex ntime @ byte_reverse_hex (mj_bits job) @ nonce
      else build_block_header (le_hex_u32 version) (byte_reverse_hex (mj_previousblockhash job)) merkle_root_le
             (byte_reverse_hex ntime) (byte_reverse_hex (mj_bits job)) (byte_reverse_hex nonce))"

text \<open>The hash that is compared with targets, most significant byte first; \<open>None\<close> for a wrong Equihash solution.\<close>

definition proof_of_work :: "env \<Rightarrow> chain_kind \<Rightarrow> bytes \<Rightarrow> string \<Rightarrow> bytes option result" where
  "proof_of_work E chain header solution_s =
     (if chain = Zcash
      then bind_res (hex_to_bytes solution_s) (\<lambda>solution.
             if \<not> verify_200_9 (ev_equihash_blake E) header solution then Inr None
             else Inr (Some (rev (sha256d (ev_sha256 E) (header @ [0xfd, 0x40, 0x05] @ solution)))))
      else if chain = Litecoin \<or> chain = Dogecoin then bind_res (ev_scrypt E header) (\<lambda>h. Inr (Some (rev h)))
      else Inr (Some (rev (sha256d (ev_sha256 E) header))))"

text \<open>The checks between the parameters and the proof of work: a refusal with its code, or the candidate.\<close>

definition check_share :: "env \<Rightarrow> session \<Rightarrow> stratifier \<Rightarrow> share \<Rightarrow> ((string \<times> nat) + candidate) result" where
  "check_share E cs strat sh =
     (if split_worker (sh_worker sh) \<noteq> (cs_worker_address cs, cs_worker_name cs)
      then Inr (Inl (''address/worker mismatch'', 20))
      else case findJob (sh_job_id sh) strat of None \<Rightarrow> Inr (Inl (''job not found'', 21))
      | Some job \<Rightarrow>
          let chain = chain_of cs; tip = current_prevhash strat;
              ntime_s = (if chain = Zcash then byte_reverse_hex (sh_ntime sh) else sh_ntime sh)
          in case session_hex_u32 ntime_s of None \<Rightarrow> Inr (Inl (''bad ntime'', 20))
          | Some ntime \<Rightarrow>
              if \<not> valid_ntime ntime (mj_mintime job) (ev_unix E) 7200 then Inr (Inl (''ntime out of range'', 20))
              else case share_version (effective_mask cs strat) job sh of
                None \<Rightarrow> Inr (Inl (''version-rolling not negotiated'', 20))
              | Some version \<Rightarrow>
                  bind_res (share_coinbase E cs job sh) (\<lambda>(cb_hex, mr).
                    let header_hex = share_header chain job version mr ntime_s (sh_nonce sh)
                    in bind_res (hex_to_bytes header_hex) (\<lambda>header.
                       bind_res (proof_of_work E chain header (sh_solution sh)) (\<lambda>pow. case pow of
                         None \<Rightarrow> Inr (Inl (''invalid equihash solution'', 20))
                       | Some hash_be \<Rightarrow>
                           bind_res (target_from_bits_hex (mj_bits job)) (\<lambda>net.
                             Inr (Inr \<lparr>ca_job = job, ca_share = sh,
                               ca_stale = (tip \<noteq> [] \<and> mj_previousblockhash job \<noteq> tip), ca_version = version,
                               ca_coinbase_hex = cb_hex, ca_header_hex = header_hex, ca_hash = hash_be,
                               ca_net_target = net, ca_meets_network = be_le hash_be net,
                               ca_share_diff = difficulty_of (ev_fpu E) chain hash_be\<rparr>))))))"

section \<open>Blocks\<close>

text \<open>
  The full block of a candidate, and whether the eCash real-time target withholds it. A failing
  conversion raises before anything is submitted.
\<close>

definition rtt_withheld :: "env \<Rightarrow> chain_kind \<Rightarrow> mining_job \<Rightarrow> bytes \<Rightarrow> bool" where
  "rtt_withheld E chain job hash_be =
     (chain = ECash \<and> rtt_present job \<and> length hash_be = 32 \<and>
      \<not> ecash_rtt_ok (ev_fpu E) (ev_rtt_consts E) (rtt_prevheadertime job) (rtt_prevbits job) (int (unat (ev_unix E))) hash_be)"

definition block_coinbase :: "candidate \<Rightarrow> string" where
  "block_coinbase c =
     (if mj_segwit_active (ca_job c) then segwitify_coinbase (ca_coinbase_hex c) else ca_coinbase_hex c)"

definition full_block :: "chain_kind \<Rightarrow> candidate \<Rightarrow> string" where
  "full_block chain c =
     (let job = ca_job c;
          header = (if chain = Zcash then ca_header_hex c @ ''fd4005'' @ sh_solution (ca_share c) else ca_header_hex c)
      in assemble_full_block header (block_coinbase c) (mj_tx_hexes job)
         @ (if mweb job \<noteq> [] then ''01'' @ mweb job else []))"

definition u32_le :: "string \<Rightarrow> nat \<Rightarrow> u32 result" where
  "u32_le h off =
     bind_res (hex_to_bytes (take 8 (drop off h))) (\<lambda>b.
       Inr (if length b \<noteq> 4 then 0
            else ucast (b ! 0) OR push_bit 8 (ucast (b ! 1)) OR push_bit 16 (ucast (b ! 2)) OR push_bit 24 (ucast (b ! 3))))"

definition ipc_submit_best_effort :: "u64 \<Rightarrow> string \<Rightarrow> string \<Rightarrow> world \<Rightarrow> outcome" where
  "ipc_submit_best_effort handle header_hex coinbase_hex w =
     (if handle = 0 \<or> length header_hex < 160 then fine w
      else attempt (u32_le header_hex 0) w (\<lambda>version.
           attempt (u32_le header_hex 136) w (\<lambda>ntime.
           attempt (u32_le header_hex 152) w (\<lambda>nonce.
           attempt (hex_to_bytes coinbase_hex) w (\<lambda>coinbase.
             fine (ask [IpcSubmit handle version ntime nonce coinbase] w))))))"

definition block_record_of :: "session \<Rightarrow> candidate \<Rightarrow> block_record" where
  "block_record_of cs c =
     \<lparr>br_height = mj_height (ca_job c), br_block_hash = bytes_to_hex (ca_hash c), br_miner_id = cs_miner_id cs,
      br_difficulty = ca_share_diff c, br_reward_value = mj_coinbase_value (ca_job c), br_coin = []\<rparr>"

definition submit_block_candidate :: "env \<Rightarrow> candidate \<Rightarrow> world \<Rightarrow> outcome" where
  "submit_block_candidate E c w =
     (let chain = chain_of (w_cs w)
      in if rtt_withheld E chain (ca_job c) (ca_hash c) then fine w
         else and_then (ipc_submit_best_effort (ipc_handle (ca_job c)) (ca_header_hex c) (block_coinbase c) w) (\<lambda>w.
           fine (ask [SubmitBlock (full_block chain c) (chain \<noteq> Zcash) (block_record_of (w_cs w) c)] w)))"

text \<open>The replies to the two kinds of submission; an answer with an error is not recorded.\<close>

definition rpc_error :: "json \<Rightarrow> bool" where
  "rpc_error rsp = (case member rsp ''error'' of None \<Rightarrow> False | Some e \<Rightarrow> e \<noteq> JNull)"

definition on_block_reply :: "bool \<Rightarrow> block_record \<Rightarrow> json option \<Rightarrow> action list" where
  "on_block_reply use_precious r reply =
     (case reply of None \<Rightarrow> []
      | Some rsp \<Rightarrow> if rpc_error rsp then []
          else (if use_precious then [PreciousBlock (br_block_hash r)] else []) @ [PersistBlock r])"

definition on_doge_reply :: "block_record \<Rightarrow> json option \<Rightarrow> action list" where
  "on_doge_reply r reply =
     (case reply of None \<Rightarrow> []
      | Some rsp \<Rightarrow> if rpc_error rsp \<or> string_member rsp ''result'' \<noteq> None then [] else [PersistBlock r])"

text \<open>Merged mining: the parent's proof as the auxiliary proof of work of the Dogecoin block.\<close>

definition fmt_02x_nat :: "nat \<Rightarrow> string" where
  "fmt_02x_nat n = (if n < 16 then CHR ''0'' # hex_nat n else hex_nat n)"

definition auxpow :: "string \<Rightarrow> string \<Rightarrow> string \<Rightarrow> string list \<Rightarrow> string" where
  "auxpow cb_hex parent_hash header_hex branch =
     cb_hex @ parent_hash @ fmt_02x_nat (length branch) @ concat branch @ ''00000000'' @ ''00'' @ ''00000000'' @ header_hex"

definition aux_work :: "session \<Rightarrow> candidate \<Rightarrow> session_aux_job option" where
  "aux_work cs c =
     (if aux_enabled (ca_job c) \<and> cs_aux_doge_address cs \<noteq> []
      then map_of (cs_aux_jobs cs) (sh_job_id (ca_share c)) else None)"

definition maybe_submit_aux_block :: "env \<Rightarrow> candidate \<Rightarrow> world \<Rightarrow> outcome" where
  "maybe_submit_aux_block E c w =
     (case aux_work (w_cs w) c of None \<Rightarrow> fine w
      | Some saj \<Rightarrow>
          if length (sa_aux_target saj) \<noteq> 64 \<or> \<not> ev_aux_client E then fine w
          else attempt (hex_to_bytes (sa_aux_target saj)) w (\<lambda>target.
            if \<not> be_le (ca_hash c) target then fine w
            else if sa_doge_block_hash saj \<in> set (cs_doge_submitted (w_cs w)) then fine w
            else let w = upd_cs (\<lambda>cs. cs\<lparr>cs_doge_submitted := sa_doge_block_hash saj #
                       (if length (cs_doge_submitted cs) > 512 then [] else cs_doge_submitted cs)\<rparr>) w
              in attempt (compute_coinbase_txid_le (sha256d (ev_sha256 E)) (ca_header_hex c)) w (\<lambda>parent_hash.
                   fine (ask [SubmitDogeBlock
                     (sa_doge_header saj
                      @ auxpow (ca_coinbase_hex c) parent_hash (ca_header_hex c) (mj_merkle_branch_le (ca_job c))
                      @ ''01'' @ sa_doge_coinbase saj)
                     \<lparr>br_height = sa_aux_height saj, br_block_hash = sa_doge_block_hash saj,
                      br_miner_id = cs_miner_id (w_cs w), br_difficulty = ca_share_diff c,
                      br_reward_value = sa_aux_value saj, br_coin = ''DOGE''\<rparr>] w))))"

section \<open>The verdict on a share\<close>

definition reject :: "env \<Rightarrow> string \<Rightarrow> string \<Rightarrow> nat \<Rightarrow> world \<Rightarrow> world" where
  "reject E i reason code w =
     (let w = upd_cs (\<lambda>cs. cs\<lparr>cs_shares_rejected := cs_shares_rejected cs + 1\<rparr>) (send_line (error_line i code reason) w)
      in case w_limiter w of None \<Rightarrow> w
         | Some rl \<Rightarrow>
             let (banned, rl) = record_invalid_share (ev_steady E) (cs_client_ip (w_cs w)) rl; w = w\<lparr>w_limiter := Some rl\<rparr>
             in if banned then on_disconnect_local w else w)"

text \<open>A refusal that does not count towards a ban.\<close>

definition decline :: "string \<Rightarrow> nat \<Rightarrow> string \<Rightarrow> world \<Rightarrow> world" where
  "decline i code reason w =
     upd_cs (\<lambda>cs. cs\<lparr>cs_shares_rejected := cs_shares_rejected cs + 1\<rparr>) (send_line (error_line i code reason) w)"

definition first_sighting :: "candidate \<Rightarrow> world \<Rightarrow> bool \<times> world" where
  "first_sighting c w =
     (let (fresh, strat) = register_share (bytes_to_hex (ca_hash c)) (w_strat w) in (fresh, w\<lparr>w_strat := strat\<rparr>))"

definition tolerance :: "fpu \<Rightarrow> chain_kind \<Rightarrow> rat" where
  "tolerance F chain = rnd_d F (if chain = Zcash then 90 / 100 else 99 / 100)"

text \<open>The difficulty a share must meet: the one before the last change counts for forty seconds.\<close>

definition target_diff :: "env \<Rightarrow> session \<Rightarrow> rat \<Rightarrow> rat" where
  "target_diff E cs share_diff =
     (let F = ev_fpu E; current = vd_current_diff (cs_vardiff cs);
          age = rnd_d F (of_int (ev_steady E - cs_last_difficulty_change cs) / 1000000000)
      in if share_diff < current \<and> age < 40 \<and>
            share_diff \<ge> rnd_d F (cs_last_difficulty cs * tolerance F (chain_of cs))
         then cs_last_difficulty cs else current)"

text \<open>The controller's turn, on tiers that adapt and without a difficulty of the miner's choice.\<close>

definition vardiff_tick :: "env \<Rightarrow> candidate \<Rightarrow> rat \<Rightarrow> world \<Rightarrow> outcome" where
  "vardiff_tick E c target w =
     (let cs = w_cs w; F = ev_fpu E
      in if st_vardiffEnabled (activeTier (cs_coin cs)) \<and> cs_custom_difficulty cs = None
         then let network_diff = difficulty_of F (chain_of cs) (ca_net_target c);
                  old_diff = vd_current_diff (cs_vardiff cs);
                  (nd, v) = on_share F (ev_exp E) (ev_steady E) target network_diff (cs_vardiff cs);
                  w = upd_cs (\<lambda>cs. cs\<lparr>cs_vardiff := v\<rparr>) w
              in case nd of None \<Rightarrow> fine w | Some d \<Rightarrow> send_set_difficulty E d (Some old_diff) w
         else fine w)"

definition persist_share :: "candidate \<Rightarrow> rat \<Rightarrow> world \<Rightarrow> world" where
  "persist_share c target w =
     (let cs = w_cs w; sh = ca_share c; hash = bytes_to_hex (ca_hash c)
      in if cs_miner_id cs > 0
         then ask [PersistShare \<lparr>shr_miner_id = cs_miner_id cs, shr_job_id = sh_job_id sh, shr_nonce = sh_nonce sh,
                     shr_extranonce1 = cs_extranonce1 cs, shr_extranonce2 = sh_nonce2 sh, shr_hash = hash,
                     shr_difficulty = target, shr_accepted = True, shr_block = ca_meets_network c\<rparr>,
                   PersistBestShare (cs_miner_id cs) (ca_share_diff c) hash] w
         else w)"

definition settle_stale :: "env \<Rightarrow> string \<Rightarrow> candidate \<Rightarrow> world \<Rightarrow> outcome" where
  "settle_stale E i c w =
     (let (fresh, w) = first_sighting c w
      in and_then
           (if fresh
            then and_then (if ca_meets_network c then submit_block_candidate E c w else fine w)
                   (maybe_submit_aux_block E c)
            else fine w)
           (\<lambda>w. fine (decline i 21 ''stale share - job for previous block'' w)))"

definition settle_low :: "env \<Rightarrow> string \<Rightarrow> candidate \<Rightarrow> world \<Rightarrow> outcome" where
  "settle_low E i c w =
     and_then (if ca_meets_network c then submit_block_candidate E c w else fine w)
       (\<lambda>w. fine (reject E i ''low difficulty share'' 23 w))"

definition accept_share :: "env \<Rightarrow> string \<Rightarrow> candidate \<Rightarrow> world \<Rightarrow> world" where
  "accept_share E i c w =
     (let w = note_accepted_share E (ca_share_diff c)
            (upd_cs (\<lambda>cs. cs\<lparr>cs_shares_accepted := cs_shares_accepted cs + 1\<rparr>) (send_line (ok_line i) w))
      in w\<lparr>w_limiter := map_option (clear_invalid (cs_client_ip (w_cs w))) (w_limiter w)\<rparr>)"

definition settle_accepted :: "env \<Rightarrow> string \<Rightarrow> candidate \<Rightarrow> rat \<Rightarrow> world \<Rightarrow> outcome" where
  "settle_accepted E i c target w =
     and_then (vardiff_tick E c target (accept_share E i c w)) (\<lambda>w.
     and_then (maybe_submit_aux_block E c (persist_share c target w)) (\<lambda>w.
       if ca_meets_network c then submit_block_candidate E c w else fine w))"

definition settle_share :: "env \<Rightarrow> string \<Rightarrow> candidate \<Rightarrow> world \<Rightarrow> outcome" where
  "settle_share E i c w =
     (let cs = w_cs w; F = ev_fpu E; target = target_diff E cs (ca_share_diff c)
      in if ca_stale c then settle_stale E i c w
         else if ca_share_diff c < rnd_d F (target * tolerance F (chain_of cs)) then settle_low E i c w
         else let (fresh, w) = first_sighting c w
           in if \<not> fresh then fine (decline i 22 ''duplicate share'' w)
              else settle_accepted E i c target w)"

definition handle_submit :: "env \<Rightarrow> json \<Rightarrow> world \<Rightarrow> outcome" where
  "handle_submit E msg w =
     (let i = id_json E msg; cs = w_cs w
      in if \<not> cs_authorized cs then fine (reject E i ''not authorized'' 24 w)
         else case parse_submit cs (params_of msg) of Inl reason \<Rightarrow> fine (reject E i reason 20 w)
         | Inr sh \<Rightarrow> attempt (check_share E cs (w_strat w) sh) w (\<lambda>r. case r of
             Inl (reason, code) \<Rightarrow> fine (reject E i reason code w)
           | Inr c \<Rightarrow> settle_share E i c w))"

section \<open>Reading\<close>

definition on_extranonce_subscribe :: "env \<Rightarrow> json \<Rightarrow> world \<Rightarrow> outcome" where
  "on_extranonce_subscribe E msg w =
     (let w = send_line (ok_line (id_json E msg)) (upd_cs (\<lambda>cs. cs\<lparr>cs_extranonce_subscribed := True\<rparr>) w)
      in case latestJob (w_strat w) of Some j \<Rightarrow> emit_job E j True w | None \<Rightarrow> fine w)"

definition dispatch :: "env \<Rightarrow> string \<Rightarrow> json \<Rightarrow> world \<Rightarrow> outcome" where
  "dispatch E name msg w =
     (if name = ''mining.configure'' then handle_configure E msg w
      else if name = ''mining.subscribe'' then handle_subscribe E msg w
      else if name = ''mining.authorize'' then handle_authorize E msg w
      else if name = ''mining.submit'' then handle_submit E msg w
      else if name = ''mining.suggest_difficulty'' then handle_suggest_difficulty E msg w
      else if name = ''mining.extranonce.subscribe'' then on_extranonce_subscribe E msg w
      else fine (send_line (error_line (id_json E msg) 20 (''Unknown method: '' @ safe_method name)) w))"

text \<open>No exception of a handler leaves the line.\<close>

definition process_line :: "env \<Rightarrow> string \<Rightarrow> world \<Rightarrow> world" where
  "process_line E line w =
     (if line = [] then w
      else case ev_parse E line of None \<Rightarrow> send_line (error_line ''null'' 20 ''JSON parse error'') w
      | Some msg \<Rightarrow>
          (case string_member msg ''method'' of None \<Rightarrow> send_line (error_line ''null'' 20 ''missing method'') w
           | Some name \<Rightarrow>
               (case dispatch E name msg w of
                  (None, w') \<Rightarrow> w'
                | (Some e, w') \<Rightarrow> send_line (error_line (id_json E msg) 20 ''malformed request'') w')))"

definition strip_cr :: "string \<Rightarrow> string" where
  "strip_cr line = (if line \<noteq> [] \<and> last line = CHR 0x0D then butlast line else line)"

text \<open>The loop of \<open>on_read\<close>: the rest of the buffer and the world behind its complete lines.\<close>

function read_lines :: "env \<Rightarrow> string \<Rightarrow> world \<Rightarrow> string \<times> world" where
  "read_lines E buf w =
     (if CHR 0x0A \<notin> set buf then (buf, w)
      else let line = takeWhile (\<lambda>c. c \<noteq> CHR 0x0A) buf
           in read_lines E (drop (length line + 1) buf) (process_line E (strip_cr line) w))"
  by auto
termination by (relation "measure (\<lambda>(E, buf, w). length buf)") (auto intro!: diff_less dest: length_pos_if_in_set)

declare read_lines.simps [simp del]

definition on_read_v1 :: "env \<Rightarrow> string option \<Rightarrow> world \<Rightarrow> world" where
  "on_read_v1 E chunk w =
     (case chunk of None \<Rightarrow> on_disconnect_local w
      | Some s \<Rightarrow>
          let buf = cs_buffer (w_cs w) @ s; w = upd_cs (\<lambda>cs. cs\<lparr>cs_buffer := buf\<rparr>) w
          in if length buf > 2 ^ 20 then on_disconnect_local w
             else let (rest, w) = read_lines E buf w; w = upd_cs (\<lambda>cs. cs\<lparr>cs_buffer := rest\<rparr>) w
                  in if cs_closed (w_cs w) then w else ask [StartRead] w)"

end
