(* ===== verification/SessionFacts.thy ===== *)
theory SessionFacts
  imports Session CoinbaseFacts StratifierFacts
begin

text \<open>
  What the handlers of a Stratum V1 session promise: every request is answered, every submission gets
  one verdict, a counted share met its checks, a solved block is submitted, and lines are read as
  they were sent.
\<close>

section \<open>Worlds\<close>

lemma world_simps [simp]:
  "w_cs (send_line m w) = w_cs w" "w_strat (send_line m w) = w_strat w"
  "w_limiter (send_line m w) = w_limiter w" "w_queue (send_line m w) = w_queue w"
  "w_actions (send_line m w) = w_actions w" "w_posted (send_line m w) = w_posted w @ [m]"
  "w_cs (ask acts w) = w_cs w" "w_strat (ask acts w) = w_strat w"
  "w_limiter (ask acts w) = w_limiter w" "w_queue (ask acts w) = w_queue w"
  "w_actions (ask acts w) = w_actions w @ acts" "w_posted (ask acts w) = w_posted w"
  "w_cs (upd_cs f w) = f (w_cs w)" "w_strat (upd_cs f w) = w_strat w"
  "w_limiter (upd_cs f w) = w_limiter w" "w_queue (upd_cs f w) = w_queue w"
  "w_actions (upd_cs f w) = w_actions w" "w_posted (upd_cs f w) = w_posted w"
  by (simp_all add: send_line_def ask_def upd_cs_def)

lemma outcome_simps [simp]:
  "fine w = (None, w)"
  "and_then (None, w) f = f w" "and_then (Some e, w) f = (Some e, w)"
  "attempt (Inr x) w g = g x" "attempt (Inl e) w g = (Some e, w)"
  by (simp_all add: fine_def and_then_def attempt_def)

lemma and_then_cases:
  assumes "and_then oc f = (e, w')"
  obtains (failed) x where "oc = (Some x, w')" "e = Some x"
  | (passed) w where "oc = (None, w)" "f w = (e, w')"
  using assms by (cases oc; cases "fst oc") auto

lemma attempt_cases:
  assumes "attempt r w f = (e, w')"
  obtains (failed) x where "r = Inl x" "e = Some x" "w' = w"
  | (passed) y where "r = Inr y" "f y = (e, w')"
  using assms by (cases r) auto

text \<open>
  Most operations change only how work and difficulty are told to the miner, and ask for harmless
  actions. \<open>tells w w'\<close> says that nothing else changed and lines were only added.
\<close>

definition identity :: "session \<Rightarrow> _" where
  "identity cs = ((cs_coin cs, cs_client_ip cs, cs_closed cs, cs_authorized cs, cs_is_v2 cs),
     (cs_worker_address cs, cs_worker_name cs, cs_worker_script_hex cs),
     (cs_shares_accepted cs, cs_shares_rejected cs, cs_miner_id cs, cs_extranonce1 cs),
     (cs_aux_doge_address cs, cs_aux_jobs cs, cs_disconnect_handler cs))"

definition harmless :: "action \<Rightarrow> bool" where
  "harmless a = (case a of StartRead \<Rightarrow> False | StartReadV2 _ \<Rightarrow> False | StartWrite _ \<Rightarrow> False | CloseSocket \<Rightarrow> False
     | ValidateAddress _ _ \<Rightarrow> False | ValidateDogeAddress _ _ \<Rightarrow> False | ReadAct1 _ \<Rightarrow> False | WriteAct2 _ \<Rightarrow> False
     | ValidatePayout _ \<Rightarrow> False | _ \<Rightarrow> True)"

definition tells :: "world \<Rightarrow> world \<Rightarrow> bool" where
  "tells w w' \<longleftrightarrow> w_strat w' = w_strat w \<and> w_limiter w' = w_limiter w \<and> w_queue w' = w_queue w \<and>
     identity (w_cs w') = identity (w_cs w) \<and> (\<exists>acts. w_actions w' = w_actions w @ acts \<and> list_all harmless acts) \<and>
     (\<exists>ls. w_posted w' = w_posted w @ ls)"

lemma tells_refl [simp, intro]: "tells w w"
  by (simp add: tells_def)

lemma tells_trans [trans]: "tells w w' \<Longrightarrow> tells w' w'' \<Longrightarrow> tells w w''"
  by (force simp: tells_def)

lemma tells_ask: "list_all harmless acts \<Longrightarrow> tells w (ask acts w)"
  by (simp add: tells_def)

lemma tells_send_line: "tells w w' \<Longrightarrow> tells w (send_line m w')"
  by (auto simp: tells_def)

lemma tells_upd: "identity (f (w_cs w)) = identity (w_cs w) \<Longrightarrow> tells w (upd_cs f w)"
  by (simp add: tells_def)

text \<open>A posted line reached behind a change of the state that lines report.\<close>

lemma tells_line: "identity (f (w_cs w)) = identity (w_cs w) \<Longrightarrow> tells w (send_line m (upd_cs f w))"
  by (rule tells_send_line) (rule tells_upd)

section \<open>Work and difficulty\<close>

lemma emit_job_tells: "emit_job E job force w = (e, w') \<Longrightarrow> tells w w' \<and> length (w_posted w') \<le> length (w_posted w) + 1"
  by (auto simp: emit_job_def Let_def tells_def identity_def elim!: attempt_cases split: if_splits option.splits prod.splits)

lemma emit_job_ok: "chain_of (w_cs w) \<noteq> Zcash \<Longrightarrow> \<exists>w'. emit_job E job force w = (None, w')"
  by (simp add: emit_job_def Let_def)

lemma send_set_difficulty_tells: "send_set_difficulty E d old w = (e, w') \<Longrightarrow> tells w w'"
proof -
  assume a: "send_set_difficulty E d old w = (e, w')"
  define w1 where "w1 = send_line (difficulty_line (round_half_away d))
    (upd_cs (\<lambda>cs. cs\<lparr>cs_last_difficulty := (case old of Some o' \<Rightarrow> o' | None \<Rightarrow> d),
       cs_last_difficulty_change := ev_steady E, cs_stat_diff := round_half_away d\<rparr>) w)"
  define w2 where "w2 = (if chain_of (w_cs w1) = Zcash
     then send_line (target_line (zcash_target (ev_fpu E) (round_half_away d))) w1 else w1)"
  have "tells w w1" unfolding w1_def by (rule tells_line) (simp add: identity_def)
  then have 2: "tells w w2" by (simp add: w2_def tells_send_line)
  from a have "(if cs_authorized (w_cs w2) then (case latestJob (w_strat w2) of Some j \<Rightarrow> emit_job E j True w2 | None \<Rightarrow> fine w2)
      else fine w2) = (e, w')"
    unfolding send_set_difficulty_def Let_def w2_def w1_def .
  then have "tells w2 w'" by (auto split: if_splits option.splits dest: emit_job_tells)
  with 2 show ?thesis by (rule tells_trans)
qed

lemma send_set_difficulty_ok: "chain_of (w_cs w) \<noteq> Zcash \<Longrightarrow> \<exists>w'. send_set_difficulty E d old w = (None, w')"
  by (auto simp: send_set_difficulty_def Let_def chain_of_def intro: emit_job_ok split: option.splits)

section \<open>Blocks\<close>

text \<open>\<open>asks w w'\<close>: nothing was told either.\<close>

definition asks :: "world \<Rightarrow> world \<Rightarrow> bool" where
  "asks w w' \<longleftrightarrow> tells w w' \<and> w_posted w' = w_posted w"

lemma asks_refl [simp, intro]: "asks w w"
  by (simp add: asks_def)

lemma asks_trans [trans]: "asks w w' \<Longrightarrow> asks w' w'' \<Longrightarrow> asks w w''"
  by (auto simp: asks_def intro: tells_trans)

lemma asks_ask: "list_all harmless acts \<Longrightarrow> asks w (ask acts w)"
  by (simp add: asks_def tells_ask)

lemma asks_doge: "asks w (upd_cs (\<lambda>cs. cs\<lparr>cs_doge_submitted := f cs\<rparr>) w)"
  by (simp add: asks_def tells_upd identity_def)

lemma ipc_asks: "ipc_submit_best_effort h header cb w = (e, w') \<Longrightarrow> asks w w'"
  by (auto simp: ipc_submit_best_effort_def elim!: attempt_cases intro!: asks_ask simp: harmless_def split: if_splits)

lemma submit_block_asks: "submit_block_candidate E c w = (e, w') \<Longrightarrow> asks w w'"
  by (auto simp: submit_block_candidate_def Let_def elim!: and_then_cases dest: ipc_asks
      intro: asks_trans [OF _ asks_ask] simp: harmless_def split: if_splits)

lemma submit_aux_asks: "maybe_submit_aux_block E c w = (e, w') \<Longrightarrow> asks w w'"
  unfolding maybe_submit_aux_block_def Let_def
  by (auto elim!: attempt_cases intro!: asks_doge asks_trans [OF asks_doge asks_ask] split: if_splits option.splits
      simp: harmless_def simp del: world_simps)

text \<open>Submitting raises only for a coinbase or a header that is not hex text.\<close>

lemma u32_le_hex:
  assumes "hex_to_bytes h = Inr bs"
  shows "\<exists>v. u32_le h (2 * n) = Inr v"
proof -
  have "hex_text h bs" using assms by (simp add: hex_text_def)
  then have "hex_text (drop (2 * n) h) (drop n bs)" by (simp only: hex_text_take_drop)
  then have "hex_text (take (2 * 4) (drop (2 * n) h)) (take 4 (drop n bs))" by (simp only: hex_text_take_drop)
  then show ?thesis by (simp add: u32_le_def hex_text_def)
qed

lemma ipc_ok:
  assumes "hex_to_bytes header = Inr bs" "hex_to_bytes cb = Inr cs"
  shows "\<exists>w'. ipc_submit_best_effort h header cb w = (None, w')"
  using u32_le_hex [OF assms(1), of 0] u32_le_hex [OF assms(1), of 68] u32_le_hex [OF assms(1), of 76] assms(2)
  by (auto simp: ipc_submit_best_effort_def)


lemma segwitify_hex:
  assumes "hex_to_bytes cb = Inr bs"
  shows "\<exists>bs'. hex_to_bytes (segwitify_coinbase cb) = Inr bs'"
proof (cases "length cb < 16")
  case True
  then show ?thesis using assms by (simp add: segwitify_coinbase_def)
next
  case False
  have h: "hex_text cb bs" using assms by (simp add: hex_text_def)
  then have l: "length cb = 2 * length bs" by (rule hex_text_even)
  have front: "hex_text (take 8 cb) (take 4 bs)" "hex_text (drop 8 cb) (drop 4 bs)"
    using hex_text_take_drop [OF h, of 4] by simp_all
  have middle: "hex_text (take (length cb - 8 - 8) (drop 8 cb)) (take (length bs - 8) (drop 4 bs))"
    using hex_text_take_drop [OF front(2), of "length bs - 8"] l by (simp add: right_diff_distrib')
  have final: "hex_text (drop (length cb - 8) cb) (drop (length bs - 4) bs)"
    using hex_text_take_drop [OF h, of "length bs - 4"] l by (simp add: right_diff_distrib')
  have "hex_text (take 8 cb @ ''0001'' @ take (length cb - 8 - 8) (drop 8 cb) @ ''01'' @ ''20''
      @ replicate 64 (CHR ''0'') @ drop (length cb - 8) cb)
    (take 4 bs @ [0, 1] @ take (length bs - 8) (drop 4 bs) @ [1] @ [32] @ replicate 32 0 @ drop (length bs - 4) bs)"
    by (intro hex_texts front middle final)
  then show ?thesis using False by (simp add: segwitify_coinbase_def hex_text_def)
qed

lemma submit_block_ok:
  assumes "hex_to_bytes (ca_header_hex c) = Inr bs" "hex_to_bytes (ca_coinbase_hex c) = Inr cs"
    and "\<not> rtt_withheld E (chain_of (w_cs w)) (ca_job c) (ca_hash c)"
  obtains w' where "submit_block_candidate E c w = (None, w')"
    "SubmitBlock (full_block (chain_of (w_cs w)) c) (chain_of (w_cs w) \<noteq> Zcash) (block_record_of (w_cs w) c) \<in> set (w_actions w')"
proof -
  obtain cs' where "hex_to_bytes (block_coinbase c) = Inr cs'"
    using assms(2) segwitify_hex [OF assms(2)] unfolding block_coinbase_def by (cases "mj_segwit_active (ca_job c)") auto
  then obtain w1 where 1: "ipc_submit_best_effort (ipc_handle (ca_job c)) (ca_header_hex c) (block_coinbase c) w = (None, w1)"
    using ipc_ok [OF assms(1)] by blast
  then have "identity (w_cs w1) = identity (w_cs w)"
    by (auto simp: asks_def tells_def dest: ipc_asks)
  then have "block_record_of (w_cs w1) c = block_record_of (w_cs w) c" by (simp add: block_record_of_def identity_def)
  with 1 assms(3) that show thesis by (simp add: submit_block_candidate_def Let_def)
qed

section \<open>Stages of a submission\<close>

lemma check_share_codes: "check_share E cs strat sh = Inr (Inl (reason, code)) \<Longrightarrow> code \<in> {20, 21}"
  by (auto simp: check_share_def Let_def bind_res_Inr_iff split: if_splits option.splits prod.splits)

lemma handle_submit_cases:
  assumes "handle_submit E msg w = (e, w')"
  obtains (refused) reason code where "e = None" "w' = reject E (id_json E msg) reason code w" "code \<in> {20, 21, 24}"
  | (failed) x where "e = Some x" "w' = w"
  | (settled) sh c where "cs_authorized (w_cs w)" "parse_submit (w_cs w) (params_of msg) = Inr sh"
      "check_share E (w_cs w) (w_strat w) sh = Inr (Inr c)" "settle_share E (id_json E msg) c w = (e, w')"
  using assms
  by (auto simp: handle_submit_def Let_def elim!: attempt_cases split: if_splits sum.splits dest!: check_share_codes)

text \<open>What a candidate went through.\<close>

lemma check_share_cases:
  assumes "check_share E cs strat sh = Inr (Inr c)"
  obtains job ntime_s ntime mr header where
    "split_worker (sh_worker sh) = (cs_worker_address cs, cs_worker_name cs)"
    "findJob (sh_job_id sh) strat = Some job" "ca_job c = job" "ca_share c = sh"
    "session_hex_u32 ntime_s = Some ntime" "valid_ntime ntime (mj_mintime job) (ev_unix E) 7200"
    "ntime_s = (if chain_of cs = Zcash then byte_reverse_hex (sh_ntime sh) else sh_ntime sh)"
    "share_version (effective_mask cs strat) job sh = Some (ca_version c)"
    "share_coinbase E cs job sh = Inr (ca_coinbase_hex c, mr)"
    "ca_header_hex c = share_header (chain_of cs) job (ca_version c) mr ntime_s (sh_nonce sh)"
    "hex_to_bytes (ca_header_hex c) = Inr header"
    "proof_of_work E (chain_of cs) header (sh_solution sh) = Inr (Some (ca_hash c))"
    "target_from_bits_hex (mj_bits job) = Inr (ca_net_target c)"
    "ca_meets_network c = be_le (ca_hash c) (ca_net_target c)"
    "ca_share_diff c = difficulty_of (ev_fpu E) (chain_of cs) (ca_hash c)"
    "ca_stale c \<longleftrightarrow> current_prevhash strat \<noteq> [] \<and> mj_previousblockhash job \<noteq> current_prevhash strat"
  using assms
  by (auto simp: check_share_def Let_def bind_res_Inr_iff split: if_splits option.splits prod.splits)

lemma settle_cases:
  assumes "settle_share E i c w = (e, w')"
  obtains (stale) "ca_stale c" "settle_stale E i c w = (e, w')"
  | (low) "\<not> ca_stale c" "settle_low E i c w = (e, w')"
      "ca_share_diff c < rnd_d (ev_fpu E) (target_diff E (w_cs w) (ca_share_diff c) * tolerance (ev_fpu E) (chain_of (w_cs w)))"
  | (duplicate) "\<not> ca_stale c" "e = None" "w' = decline i 22 ''duplicate share'' (snd (first_sighting c w))"
      "\<not> fst (first_sighting c w)"
  | (accepted) "\<not> ca_stale c" "fst (first_sighting c w)"
      "settle_accepted E i c (target_diff E (w_cs w) (ca_share_diff c)) (snd (first_sighting c w)) = (e, w')"
      "rnd_d (ev_fpu E) (target_diff E (w_cs w) (ca_share_diff c) * tolerance (ev_fpu E) (chain_of (w_cs w))) \<le> ca_share_diff c"
  using assms by (auto simp: settle_share_def Let_def split: if_splits prod.splits)


section \<open>Counting\<close>

lemma asks_tells: "asks w w' \<Longrightarrow> tells w w'"
  by (simp add: asks_def)

lemma first_sighting_fields [simp]:
  "w_cs (snd (first_sighting c w)) = w_cs w" "w_posted (snd (first_sighting c w)) = w_posted w"
  "w_limiter (snd (first_sighting c w)) = w_limiter w" "w_queue (snd (first_sighting c w)) = w_queue w"
  "w_actions (snd (first_sighting c w)) = w_actions w"
  by (simp_all add: first_sighting_def split: prod.splits)

lemma tells_vardiff: "tells w (upd_cs (\<lambda>cs. cs\<lparr>cs_vardiff := v\<rparr>) w)"
  by (simp add: tells_upd identity_def)

lemma vardiff_tick_tells: "vardiff_tick E c t w = (e, w') \<Longrightarrow> tells w w'"
  unfolding vardiff_tick_def Let_def
  by (auto simp del: world_simps dest!: send_set_difficulty_tells intro!: tells_vardiff
      intro: tells_trans [OF tells_vardiff] split: if_splits option.splits prod.splits)

lemma persist_share_asks: "asks w (persist_share c t w)"
  by (auto simp: persist_share_def Let_def harmless_def simp del: world_simps intro!: asks_ask)

lemma maybe_submit_asks: "(if b then submit_block_candidate E c w else fine w) = (e, w') \<Longrightarrow> asks w w'"
  by (auto dest: submit_block_asks split: if_splits)

lemma settle_accepted_tells:
  assumes "settle_accepted E i c t w = (e, w')"
  shows "tells (accept_share E i c w) w'"
  using assms unfolding settle_accepted_def
proof (cases rule: and_then_cases)
  case failed
  then show ?thesis by (blast dest: vardiff_tick_tells)
next
  case (passed w1)
  have 1: "tells (accept_share E i c w) w1" using passed(1) by (rule vardiff_tick_tells)
  have 2: "tells w1 (persist_share c t w1)" by (rule asks_tells) (rule persist_share_asks)
  from passed(2) have "tells (persist_share c t w1) w'"
    by (cases rule: and_then_cases) (auto dest!: submit_aux_asks maybe_submit_asks dest: asks_tells intro: tells_trans)
  with 1 2 show ?thesis by (blast intro: tells_trans)
qed

lemma accept_share_fields:
  "cs_shares_accepted (w_cs (accept_share E i c w)) = cs_shares_accepted (w_cs w) + 1"
  "cs_shares_rejected (w_cs (accept_share E i c w)) = cs_shares_rejected (w_cs w)"
  "w_posted (accept_share E i c w) = w_posted w @ [ok_line i]"
  "sf_seen_shares (w_strat (accept_share E i c w)) = sf_seen_shares (w_strat w)"
  by (simp_all add: accept_share_def note_accepted_share_def note_share_diff_def Let_def)

lemma reject_fields:
  "cs_shares_accepted (w_cs (reject E i r k w)) = cs_shares_accepted (w_cs w)"
  "cs_shares_rejected (w_cs (reject E i r k w)) = cs_shares_rejected (w_cs w) + 1"
  "w_posted (reject E i r k w) = w_posted w @ [error_line i k r]"
  by (simp_all add: reject_def on_disconnect_local_def Let_def split: option.splits prod.splits)

lemma decline_fields:
  "cs_shares_accepted (w_cs (decline i k r w)) = cs_shares_accepted (w_cs w)"
  "cs_shares_rejected (w_cs (decline i k r w)) = cs_shares_rejected (w_cs w) + 1"
  "w_posted (decline i k r w) = w_posted w @ [error_line i k r]"
  by (simp_all add: decline_def)

text \<open>The two ways a submission ends, and an exception on the way.\<close>

definition counted :: "string \<Rightarrow> world \<Rightarrow> world \<Rightarrow> bool" where
  "counted i w w' \<longleftrightarrow>
     (\<exists>rest. w_posted w' = w_posted w @ ok_line i # rest \<and>
        cs_shares_accepted (w_cs w') = cs_shares_accepted (w_cs w) + 1 \<and>
        cs_shares_rejected (w_cs w') = cs_shares_rejected (w_cs w))"

definition refused_with :: "string \<Rightarrow> nat \<Rightarrow> string \<Rightarrow> world \<Rightarrow> world \<Rightarrow> bool" where
  "refused_with i code reason w w' \<longleftrightarrow> w_posted w' = w_posted w @ [error_line i code reason] \<and>
     cs_shares_accepted (w_cs w') = cs_shares_accepted (w_cs w) \<and>
     cs_shares_rejected (w_cs w') = cs_shares_rejected (w_cs w) + 1"

definition untouched :: "world \<Rightarrow> world \<Rightarrow> bool" where
  "untouched w w' \<longleftrightarrow> w_posted w' = w_posted w \<and> cs_shares_accepted (w_cs w') = cs_shares_accepted (w_cs w) \<and>
     cs_shares_rejected (w_cs w') = cs_shares_rejected (w_cs w)"

lemmas endings = counted_def refused_with_def untouched_def

lemma tells_counters: "tells w w' \<Longrightarrow> cs_shares_accepted (w_cs w') = cs_shares_accepted (w_cs w) \<and>
    cs_shares_rejected (w_cs w') = cs_shares_rejected (w_cs w)"
  by (simp add: tells_def identity_def)

lemma asks_untouched: "asks w w' \<Longrightarrow> untouched w w'"
  by (simp add: asks_def untouched_def tells_counters)

lemma settle_stale_ends:
  assumes "settle_stale E i c w = (e, w')"
  shows "(case e of None \<Rightarrow> refused_with i 21 ''stale share - job for previous block'' w w' | Some _ \<Rightarrow> untouched w w')"
proof -
  define w1 where "w1 = snd (first_sighting c w)"
  have f: "untouched w w1" by (simp add: w1_def untouched_def)
  have "asks w1 w2" if "(if b then and_then (if ca_meets_network c then submit_block_candidate E c w1 else fine w1)
      (maybe_submit_aux_block E c) else fine w1) = (x, w2)" for b x w2
    using that by (auto elim!: and_then_cases dest: submit_block_asks submit_aux_asks intro: asks_trans split: if_splits)
  note submitted = this
  from assms have "and_then (if fst (first_sighting c w) then and_then (if ca_meets_network c then submit_block_candidate E c w1 else fine w1)
      (maybe_submit_aux_block E c) else fine w1) (\<lambda>w. fine (decline i 21 ''stale share - job for previous block'' w)) = (e, w')"
    unfolding settle_stale_def case_prod_beta Let_def w1_def .
  then show ?thesis
    using f by (auto elim!: and_then_cases dest!: submitted asks_untouched simp: endings decline_fields)
qed

lemma settle_low_ends:
  "settle_low E i c w = (e, w') \<Longrightarrow>
    (case e of None \<Rightarrow> refused_with i 23 ''low difficulty share'' w w' | Some _ \<Rightarrow> untouched w w')"
  by (auto simp: settle_low_def endings reject_fields elim!: and_then_cases dest!: maybe_submit_asks asks_untouched)

lemma settle_accepted_ends: "settle_accepted E i c t w = (e, w') \<Longrightarrow> counted i w w'"
  by (drule settle_accepted_tells) (auto simp: tells_def identity_def counted_def accept_share_fields)


lemma settle_share_ends:
  assumes "settle_share E i c w = (e, w')"
  shows "case e of None \<Rightarrow> counted i w w' \<or> (\<exists>code reason. code \<in> {21, 22, 23} \<and> refused_with i code reason w w')
    | Some _ \<Rightarrow> counted i w w' \<or> untouched w w'"
  using assms
proof (cases rule: settle_cases)
  case stale
  show ?thesis using settle_stale_ends [OF stale(2)] by (cases e) (simp, blast, simp)
next
  case low
  show ?thesis using settle_low_ends [OF low(2)] by (cases e) (simp, blast, simp)
next
  case duplicate
  have "refused_with i 22 ''duplicate share'' w w'" by (simp add: duplicate(3) refused_with_def decline_fields)
  then show ?thesis unfolding duplicate(2) by (simp, blast)
next
  case accepted
  then have "counted i (snd (first_sighting c w)) w'" by (blast dest: settle_accepted_ends)
  then show ?thesis by (simp add: counted_def split: option.splits)
qed

lemma submit_ends:
  assumes "handle_submit E msg w = (e, w')"
  shows "case e of
      None \<Rightarrow> counted (id_json E msg) w w' \<or>
        (\<exists>code reason. 20 \<le> code \<and> code \<le> 24 \<and> refused_with (id_json E msg) code reason w w')
    | Some _ \<Rightarrow> counted (id_json E msg) w w' \<or> untouched w w'"
  using assms
proof (cases rule: handle_submit_cases)
  case (refused reason code)
  then have "refused_with (id_json E msg) code reason w w'" "20 \<le> code \<and> code \<le> 24"
    by (auto simp: refused_with_def reject_fields)
  then show ?thesis using refused(1) by auto
next
  case failed
  then show ?thesis by (simp add: untouched_def)
next
  case (settled sh c)
  from settle_share_ends [OF settled(4)] show ?thesis by (cases e) fastforce+
qed

section \<open>Properties of a submission\<close>

text \<open>
  C1. Every submission gets one verdict: without an exception either the acceptance is the first
  line posted and the accepted counter goes up by one, or one line with an error code from 20 to 24
  is posted and the rejected counter goes up by one, and the other counter stays. An exception
  comes before any verdict (and the caller answers it) or after an acceptance; never is a share
  counted twice or both ways.
\<close>

theorem submit_verdict:
  "case handle_submit E msg w of
      (None, w') \<Rightarrow> counted (id_json E msg) w w' \<or>
        (\<exists>code reason. 20 \<le> code \<and> code \<le> 24 \<and> refused_with (id_json E msg) code reason w w')
    | (Some _, w') \<Rightarrow> counted (id_json E msg) w w' \<or> untouched w w'"
  using submit_ends [of E msg w] by (cases "handle_submit E msg w"; cases "fst (handle_submit E msg w)") auto


















lemma tells_chain: "tells w w' \<Longrightarrow> chain_of (w_cs w') = chain_of (w_cs w) \<and>
    block_record_of (w_cs w') c = block_record_of (w_cs w) c \<and> aux_work (w_cs w') c = aux_work (w_cs w) c"
  by (simp add: tells_def identity_def chain_of_def block_record_of_def aux_work_def)

lemma tells_actions: "tells w w' \<Longrightarrow> set (w_actions w) \<subseteq> set (w_actions w')"
  by (auto simp: tells_def)

lemma submit_aux_ok:
  assumes "hex_to_bytes (ca_header_hex c) = Inr bs"
    and "\<And>s. aux_work (w_cs w) c = Some s \<Longrightarrow> is_ok (hex_to_bytes (sa_aux_target s))"
  obtains w' where "maybe_submit_aux_block E c w = (None, w')" "asks w w'"
proof -
  have "\<exists>w'. maybe_submit_aux_block E c w = (None, w')"
    using assms by (auto simp: maybe_submit_aux_block_def Let_def compute_coinbase_txid_le_def is_ok_iff
        split: option.splits)
  then show thesis using that submit_aux_asks by blast
qed

text \<open>What a candidate off the Zcash chain needs to be submitted whenever it solves a block.\<close>

definition submittable :: "env \<Rightarrow> session \<Rightarrow> candidate \<Rightarrow> bool" where
  "submittable E cs c \<longleftrightarrow> chain_of cs \<noteq> Zcash \<and> is_ok (hex_to_bytes (ca_header_hex c)) \<and>
     is_ok (hex_to_bytes (ca_coinbase_hex c)) \<and> \<not> rtt_withheld E (chain_of cs) (ca_job c) (ca_hash c) \<and>
     (\<forall>s. aux_work cs c = Some s \<longrightarrow> is_ok (hex_to_bytes (sa_aux_target s)))"

definition block_sent :: "session \<Rightarrow> candidate \<Rightarrow> world \<Rightarrow> bool" where
  "block_sent cs c w \<longleftrightarrow> SubmitBlock (full_block (chain_of cs) c) True (block_record_of cs c) \<in> set (w_actions w)"

lemma submittable_tells: "tells w w' \<Longrightarrow> submittable E (w_cs w') c = submittable E (w_cs w) c"
  by (simp add: submittable_def tells_chain)

lemma block_sent_tells: "tells w w' \<Longrightarrow> block_sent (w_cs w') c x = block_sent (w_cs w) c x"
  by (simp add: block_sent_def tells_chain)

lemma block_sent_mono: "block_sent cs c w \<Longrightarrow> tells w w' \<Longrightarrow> block_sent cs c w'"
  unfolding block_sent_def using tells_actions by blast

lemma submittable_block:
  assumes "submittable E (w_cs w) c"
  obtains w' where "submit_block_candidate E c w = (None, w')" "tells w w'" "block_sent (w_cs w) c w'"
proof -
  from assms obtain bs cs where "hex_to_bytes (ca_header_hex c) = Inr bs" "hex_to_bytes (ca_coinbase_hex c) = Inr cs"
    "\<not> rtt_withheld E (chain_of (w_cs w)) (ca_job c) (ca_hash c)" by (auto simp: submittable_def is_ok_iff)
  from submit_block_ok [OF this] obtain w' where w': "submit_block_candidate E c w = (None, w')"
    "SubmitBlock (full_block (chain_of (w_cs w)) c) (chain_of (w_cs w) \<noteq> Zcash) (block_record_of (w_cs w) c) \<in> set (w_actions w')"
    by blast
  show thesis
    by (rule that [OF w'(1)]) (use w' assms submit_block_asks asks_tells in \<open>auto simp: block_sent_def submittable_def\<close>)
qed

lemma submittable_aux:
  assumes "submittable E (w_cs w) c"
  obtains w' where "maybe_submit_aux_block E c w = (None, w')" "tells w w'"
proof -
  from assms obtain bs where "hex_to_bytes (ca_header_hex c) = Inr bs"
    "\<And>s. aux_work (w_cs w) c = Some s \<Longrightarrow> is_ok (hex_to_bytes (sa_aux_target s))"
    by (auto simp: submittable_def is_ok_iff)
  then show thesis by (rule submit_aux_ok [of c _ w E]) (use that asks_tells in blast)+
qed

lemma first_sighting_same [simp]:
  "submittable E (w_cs (snd (first_sighting c w))) = submittable E (w_cs w)"
  "block_sent (w_cs (snd (first_sighting c w))) = block_sent (w_cs w)"
  by simp_all

lemma settle_stale_block:
  assumes "submittable E (w_cs w) c" "ca_meets_network c" "fst (first_sighting c w)" "settle_stale E i c w = (e, w')"
  shows "e = None \<and> block_sent (w_cs w) c w'"
proof -
  define w0 where "w0 = snd (first_sighting c w)"
  have same: "w_cs w0 = w_cs w" by (simp add: w0_def)
  obtain w1 where 1: "submit_block_candidate E c w0 = (None, w1)" "tells w0 w1" "block_sent (w_cs w) c w1"
    using submittable_block [of E w0 c] assms(1) same by (metis (no_types))
  obtain w2 where 2: "maybe_submit_aux_block E c w1 = (None, w2)" "tells w1 w2"
    using submittable_aux [of E w1 c] assms(1) submittable_tells [OF 1(2)] same by (metis (no_types))
  have "block_sent (w_cs w) c (decline i 21 ''stale share - job for previous block'' w2)"
    using block_sent_mono [OF 1(3) 2(2)] by (simp add: block_sent_def decline_def)
  with assms(2-4) 1(1) 2(1) show ?thesis
    by (simp add: settle_stale_def case_prod_beta Let_def flip: w0_def)
qed

lemma settle_low_block:
  assumes "submittable E (w_cs w) c" "ca_meets_network c" "settle_low E i c w = (e, w')"
  shows "e = None \<and> block_sent (w_cs w) c w'"
proof -
  obtain w1 where 1: "submit_block_candidate E c w = (None, w1)" "block_sent (w_cs w) c w1"
    using submittable_block [OF assms(1)] by blast
  have "set (w_actions w1) \<subseteq> set (w_actions (reject E i ''low difficulty share'' 23 w1))"
    by (auto simp: reject_def on_disconnect_local_def Let_def split: option.splits prod.splits)
  then have "block_sent (w_cs w) c (reject E i ''low difficulty share'' 23 w1)"
    using 1(2) by (auto simp: block_sent_def)
  with assms(2,3) 1(1) show ?thesis by (simp add: settle_low_def)
qed


lemma vardiff_tick_ok: "chain_of (w_cs w) \<noteq> Zcash \<Longrightarrow> \<exists>w'. vardiff_tick E c t w = (None, w')"
  by (auto simp: vardiff_tick_def Let_def chain_of_def intro!: send_set_difficulty_ok split: option.splits prod.splits)

lemma settle_accepted_block:
  assumes "submittable E (w_cs w) c" "ca_meets_network c" "settle_accepted E i c t w = (e, w')"
  shows "e = None \<and> block_sent (w_cs w) c w'"
proof -
  define w0 where "w0 = accept_share E i c w"
  have same: "submittable E (w_cs w0) c" "block_sent (w_cs w0) c = block_sent (w_cs w) c"
    using assms(1) by (simp_all add: w0_def accept_share_def note_accepted_share_def Let_def submittable_def
        block_sent_def chain_of_def aux_work_def block_record_of_def fun_eq_iff)
  obtain w1 where 1: "vardiff_tick E c t w0 = (None, w1)" "tells w0 w1"
    using vardiff_tick_ok [of w0 E c t] same(1) vardiff_tick_tells unfolding submittable_def by blast
  define w2 where "w2 = persist_share c t w1"
  have 2: "tells w0 w2" using 1(2) persist_share_asks asks_tells tells_trans unfolding w2_def by blast
  obtain w3 where 3: "maybe_submit_aux_block E c w2 = (None, w3)" "tells w2 w3"
    using submittable_aux [of E w2 c] same(1) submittable_tells [OF 2] by blast
  have 4: "tells w0 w3" using 2 3(2) by (rule tells_trans)
  obtain w4 where "submit_block_candidate E c w3 = (None, w4)" "block_sent (w_cs w3) c w4"
    using submittable_block [of E w3 c] same(1) submittable_tells [OF 4] by blast
  with 1(1) 3(1) 4 assms(2,3) same(2) show ?thesis
    by (simp add: settle_accepted_def block_sent_tells flip: w0_def w2_def)
qed

text \<open>
  C3. No solved block is lost: off the Zcash chain, a share whose proof of work meets its job's
  network target ends in a block submission, whatever the verdict on the share (stale and
  low-difficulty shares included), unless the eCash real-time target withholds it or its hash was
  seen before. The block starts with the very header that was hashed. Dogecoin targets must be hex
  text: an exception there, in the same handler, would come before the parent's block.
\<close>

theorem block_submitted:
  assumes "handle_submit E msg w = (e, w')" "cs_authorized (w_cs w)" "chain_of (w_cs w) \<noteq> Zcash"
    and "parse_submit (w_cs w) (params_of msg) = Inr sh"
    and "check_share E (w_cs w) (w_strat w) sh = Inr (Inr c)" "ca_meets_network c"
    and "\<not> rtt_withheld E (chain_of (w_cs w)) (ca_job c) (ca_hash c)"
    and "bytes_to_hex (ca_hash c) \<notin> sf_seen_shares (w_strat w)"
    and "\<forall>s. aux_work (w_cs w) c = Some s \<longrightarrow> is_ok (hex_to_bytes (sa_aux_target s))"
  shows "e = None \<and>
    SubmitBlock (full_block (chain_of (w_cs w)) c) True (block_record_of (w_cs w) c) \<in> set (w_actions w') \<and>
    (\<exists>header net. hex_to_bytes (ca_header_hex c) = Inr header \<and>
       proof_of_work E (chain_of (w_cs w)) header (sh_solution sh) = Inr (Some (ca_hash c)) \<and>
       target_from_bits_hex (mj_bits (ca_job c)) = Inr net \<and> be_le (ca_hash c) net \<and>
       take (length (ca_header_hex c)) (full_block (chain_of (w_cs w)) c) = ca_header_hex c)"
  using assms(5)
proof (cases rule: check_share_cases)
  case (1 job ntime_s ntime mr header)
  have fresh: "fst (first_sighting c w)"
    using assms(8) by (simp add: first_sighting_def register_share_def Let_def)
  have "is_ok (hex_to_bytes (ca_coinbase_hex c))"
    using 1(9) assms(3) by (auto simp: share_coinbase_def Let_def compute_coinbase_txid_le_def bind_res_Inr_iff is_ok_iff)
  with 1(11) assms(3,7,9) have s: "submittable E (w_cs w) c" by (simp add: submittable_def)
  from assms(1-2,4-5) have settle: "settle_share E (id_json E msg) c w = (e, w')" by (simp add: handle_submit_def Let_def)
  then have "e = None \<and> block_sent (w_cs w) c w'"
  proof (cases rule: settle_cases)
    case stale
    show ?thesis by (rule settle_stale_block [OF s assms(6) fresh stale(2)])
  next
    case low
    show ?thesis by (rule settle_low_block [OF s assms(6) low(2)])
  next
    case accepted
    show ?thesis using settle_accepted_block [OF _ assms(6) accepted(3)] s by simp
  qed (use fresh in simp)
  moreover have "take (length (ca_header_hex c)) (full_block (chain_of (w_cs w)) c) = ca_header_hex c"
    using assms(3) by (simp add: full_block_def assemble_full_block_def Let_def)
  ultimately show ?thesis using 1 assms(6) by (auto simp: block_sent_def)
qed


section \<open>Every request is answered\<close>

definition answers :: "string \<Rightarrow> string \<Rightarrow> bool" where
  "answers i l \<longleftrightarrow> (\<exists>rest. l = js ''{`id`:'' @ i @ rest)"

lemma answers_lines [simp, intro]:
  "answers i (error_line i k r)" "answers i (ok_line i)" "answers i (refuse_line i r)" "answers i (subscribe_reply i cs)"
  by (auto simp: answers_def error_line_def ok_line_def refuse_line_def subscribe_reply_def)

text \<open>\<open>answered i w w'\<close>: lines were added and one of them answers request \<open>i\<close>.\<close>

definition adds :: "world \<Rightarrow> world \<Rightarrow> bool" where
  "adds w w' \<longleftrightarrow> (\<exists>ls. w_posted w' = w_posted w @ ls)"

definition answered :: "string \<Rightarrow> world \<Rightarrow> world \<Rightarrow> bool" where
  "answered i w w' \<longleftrightarrow> (\<exists>ls. w_posted w' = w_posted w @ ls \<and> (\<exists>l \<in> set ls. answers i l))"

lemma adds_refl [simp]: "adds w w"
  by (simp add: adds_def)

lemma adds_trans: "adds w w' \<Longrightarrow> adds w' w'' \<Longrightarrow> adds w w''"
  by (auto simp: adds_def)

lemma tells_adds: "tells w w' \<Longrightarrow> adds w w'"
  by (auto simp: tells_def adds_def)

lemma adds_line: "adds w w' \<Longrightarrow> adds w (send_line m w')"
  by (auto simp: adds_def)

lemma answered_line: "adds w w' \<Longrightarrow> answers i m \<Longrightarrow> answered i w (send_line m w')"
  by (auto simp: adds_def answered_def)

lemma answered_adds: "answered i w w' \<Longrightarrow> adds w' w'' \<Longrightarrow> answered i w w''"
  by (auto simp: answered_def adds_def)

lemma answered_posted: "w_posted w1 = w_posted w2 \<Longrightarrow> answered i w w1 = answered i w w2"
  by (simp add: answered_def)

lemma upd_adds [simp]: "adds w (upd_cs f w') = adds w w'" "answered i w (upd_cs f w') = answered i w w'"
  "adds w (ask acts w') = adds w w'" "answered i w (ask acts w') = answered i w w'"
  "adds w (publish_snapshot w') = adds w w'" "answered i w (publish_snapshot w') = answered i w w'"
  "adds w (on_disconnect_local w') = adds w w'" "answered i w (on_disconnect_local w') = answered i w w'"
  by (simp_all add: adds_def answered_def publish_snapshot_def on_disconnect_local_def Let_def)

text \<open>How a handler ends: answered, or with an exception behind the lines it added.\<close>

definition ends_answered :: "string \<Rightarrow> world \<Rightarrow> outcome \<Rightarrow> bool" where
  "ends_answered i w oc \<longleftrightarrow> (case oc of (None, w') \<Rightarrow> answered i w w' | (Some e, w') \<Rightarrow> adds w w')"

lemma ends_answered_simps [simp]:
  "ends_answered i w (None, w') = answered i w w'" "ends_answered i w (Some e, w') = adds w w'"
  by (simp_all add: ends_answered_def)

lemma ends_answered_tells:
  assumes "answered i w w1" "\<And>e w'. oc = (e, w') \<Longrightarrow> tells w1 w'"
  shows "ends_answered i w oc"
  using assms tells_adds answered_adds
  by (cases oc; cases "fst oc") (fastforce simp: answered_def adds_def)+

lemma configure_answered: "ends_answered (id_json E msg) w (handle_configure E msg w)"
  by (auto simp: handle_configure_def Let_def answers_def intro!: answered_line)

lemma subscribe_answered: "ends_answered (id_json E msg) w (handle_subscribe E msg w)"
proof -
  define w0 where "w0 = (case first_string msg of Some ua \<Rightarrow> upd_cs (\<lambda>cs. cs\<lparr>cs_user_agent := take 256 ua\<rparr>) w | None \<Rightarrow> w)"
  define w1 where "w1 = upd_cs (\<lambda>cs. cs\<lparr>cs_extranonce2_size := (if chain_of cs = Zcash then 4 else 8)\<rparr>) w0"
  define w2 where "w2 = publish_snapshot (upd_cs (\<lambda>cs. cs\<lparr>cs_subscribed := True\<rparr>)
    (send_line (subscribe_reply (id_json E msg) (w_cs w1)) w1))"
  have 0: "adds w w0" "adds w w1" by (simp_all add: w0_def w1_def split: option.split)
  have 2: "answered (id_json E msg) w w2" using 0 by (simp add: w2_def answered_line)
  have "handle_subscribe E msg w =
      (if \<not> st_allowNiceHash (activeTier (cs_coin (w_cs w0))) \<and> looks_like_aggregator (cs_user_agent (w_cs w0))
       then fine (on_disconnect_local (send_line (error_line (id_json E msg) 20
              ''aggregator services must connect to a high-diff tier port'') w0))
       else and_then (send_set_difficulty E (vd_current_diff (cs_vardiff (w_cs w2))) None w2) (\<lambda>w.
              fine (if cs_version_rolling (w_cs w) \<and> cs_version_mask (w_cs w) \<noteq> 0
                    then send_set_version_mask (cs_version_mask (w_cs w)) w else w)))"
    unfolding handle_subscribe_def Let_def w2_def w1_def w0_def ..
  moreover have "ends_answered (id_json E msg) w (and_then (send_set_difficulty E d None w2) (\<lambda>w.
      fine (if cs_version_rolling (w_cs w) \<and> cs_version_mask (w_cs w) \<noteq> 0
            then send_set_version_mask (cs_version_mask (w_cs w)) w else w)))" for d
    using 2
    by (intro ends_answered_tells) (auto elim!: and_then_cases dest!: send_set_difficulty_tells
        simp: send_set_version_mask_def intro!: tells_send_line split: if_splits)
  ultimately show ?thesis using 0 by (simp add: answered_line)
qed

lemma authorize_answered:
  "ends_answered (id_json E msg) w (handle_authorize E msg w) \<or>
   (\<exists>p. check_name E (w_cs w) msg = Inr p \<and> handle_authorize E msg w = fine (ask [ValidateAddress (pa_addr p) p] w))"
  by (auto simp: handle_authorize_def intro!: answered_line split: sum.split)

lemma suggest_answered: "ends_answered (id_json E msg) w (handle_suggest_difficulty E msg w)"
  unfolding handle_suggest_difficulty_def Let_def ends_answered_def
  by (auto elim!: and_then_cases attempt_cases dest!: send_set_difficulty_tells intro!: answered_line
      intro: tells_adds split: if_splits list.splits option.splits prod.splits)

lemma submit_answered: "ends_answered (id_json E msg) w (handle_submit E msg w)"
proof (cases "handle_submit E msg w")
  case (Pair e w')
  from submit_ends [OF this] show ?thesis
    unfolding Pair by (cases e) (auto simp: endings answered_def adds_def)
qed

lemma extranonce_answered: "ends_answered (id_json E msg) w (on_extranonce_subscribe E msg w)"
proof -
  define w1 where "w1 = send_line (ok_line (id_json E msg)) (upd_cs (\<lambda>cs. cs\<lparr>cs_extranonce_subscribed := True\<rparr>) w)"
  have 1: "answered (id_json E msg) w w1" by (simp add: w1_def answered_line)
  have "on_extranonce_subscribe E msg w =
      (case latestJob (w_strat w1) of Some j \<Rightarrow> emit_job E j True w1 | None \<Rightarrow> fine w1)"
    unfolding on_extranonce_subscribe_def Let_def w1_def ..
  then show ?thesis using 1
    by (auto split: option.splits intro!: ends_answered_tells [OF 1] dest: emit_job_tells)
qed


text \<open>What a line asks for: the message, if it is JSON with a method name.\<close>

definition request_of :: "env \<Rightarrow> string \<Rightarrow> (string \<times> json) option" where
  "request_of E line =
     (case ev_parse E line of None \<Rightarrow> None
      | Some msg \<Rightarrow> map_option (\<lambda>name. (name, msg)) (string_member msg ''method''))"

lemma dispatch_answered:
  "ends_answered (id_json E msg) w (dispatch E name msg w) \<or>
   (name = ''mining.authorize'' \<and> (\<exists>p. check_name E (w_cs w) msg = Inr p \<and>
      dispatch E name msg w = fine (ask [ValidateAddress (pa_addr p) p] w)))"
  using authorize_answered [of E msg w]
  by (auto simp: dispatch_def configure_answered subscribe_answered submit_answered suggest_answered
      extranonce_answered intro!: answered_line)

text \<open>
  C10. Every line but the empty one, which changes nothing, is answered, and no exception escapes it: a line that is not a request
  gets one error line with the id null; a request gets a line that carries its own id, after an
  exception of its handler too, unless it is an authorization whose name passed the local checks,
  which adds no line yet and asks the node to validate the address.
\<close>

theorem request_answered:
  "case request_of E line of
      None \<Rightarrow> (if line = [] then process_line E line w = w
        else \<exists>reason. process_line E line w = send_line (error_line ''null'' 20 reason) w)
    | Some (name, msg) \<Rightarrow> answered (id_json E msg) w (process_line E line w) \<or>
        (line = [] \<and> process_line E line w = w) \<or>
        (name = ''mining.authorize'' \<and> (\<exists>p. check_name E (w_cs w) msg = Inr p \<and>
           process_line E line w = ask [ValidateAddress (pa_addr p) p] w))"
proof (cases "line = [] \<or> request_of E line = None")
  case True
  then show ?thesis by (auto simp: request_of_def process_line_def split: option.splits)
next
  case False
  then obtain r name msg where Some: "request_of E line = Some r" and r: "r = (name, msg)" "ev_parse E line = Some msg" "string_member msg ''method'' = Some name"
    by (auto simp: request_of_def split: option.splits)
  obtain e w' where d: "dispatch E name msg w = (e, w')" by fastforce
  have p: "process_line E line w = (case e of None \<Rightarrow> w' | Some _ \<Rightarrow> send_line (error_line (id_json E msg) 20 ''malformed request'') w')"
    using False r(2,3) d by (simp add: process_line_def split: option.split)
  show ?thesis
    using dispatch_answered [of E msg w name] unfolding Some r(1) p d
    by (cases e) (auto intro!: answered_line)
qed

section \<open>Reading\<close>

abbreviation nl :: char where "nl \<equiv> CHR 0x0A"

definition handle_lines :: "env \<Rightarrow> string list \<Rightarrow> world \<Rightarrow> world" where
  "handle_lines E ls w = fold (\<lambda>l. process_line E (strip_cr l)) ls w"

definition joined :: "string list \<Rightarrow> string" where
  "joined ls = concat (map (\<lambda>l. l @ [nl]) ls)"

lemma read_lines_rest: "nl \<notin> set buf \<Longrightarrow> read_lines E buf w = (buf, w)"
  by (simp add: read_lines.simps)

lemma read_lines_line: "nl \<notin> set l \<Longrightarrow> read_lines E (l @ nl # buf) w = read_lines E buf (process_line E (strip_cr l) w)"
proof -
  assume "nl \<notin> set l"
  then have "takeWhile (\<lambda>c. c \<noteq> nl) (l @ nl # buf) = l" by (subst takeWhile_append2) auto
  then show ?thesis by (subst read_lines.simps) (simp add: Let_def)
qed

lemma read_lines_joined:
  "list_all (\<lambda>l. nl \<notin> set l) ls \<Longrightarrow> read_lines E (joined ls @ buf) w = read_lines E buf (handle_lines E ls w)"
proof (induction ls arbitrary: w)
  case (Cons l ls)
  have "joined (l # ls) @ buf = l @ nl # (joined ls @ buf)" by (simp add: joined_def)
  with Cons show ?case by (simp add: read_lines_line handle_lines_def)
qed (simp add: joined_def handle_lines_def)

lemma split_lines: "\<exists>ls rest. buf = joined ls @ rest \<and> nl \<notin> set rest \<and> list_all (\<lambda>l. nl \<notin> set l) ls"
proof (induction "length buf" arbitrary: buf rule: less_induct)
  case less
  show ?case
  proof (cases "nl \<in> set buf")
    case True
    then obtain l b where b: "buf = l @ nl # b" "nl \<notin> set l" by (meson split_list_first)
    then obtain ls rest where "b = joined ls @ rest" "nl \<notin> set rest" "list_all (\<lambda>l. nl \<notin> set l) ls"
      using less [of b] by auto
    with b show ?thesis by (intro exI [of _ "l # ls"] exI [of _ rest]) (simp add: joined_def)
  next
    case False
    then show ?thesis by (intro exI [of _ "[]"] exI [of _ buf]) (simp add: joined_def)
  qed
qed

text \<open>
  C15. The read loop ends, and hands the handlers exactly the lines the miner sent: for every
  buffer there are a list of lines and a rest, none with a newline, that spell it, the loop runs
  once for each line in order, and keeps the rest; and cutting the stream into chunks changes
  nothing, since reading two chunks one after the other is reading them at once.
\<close>

theorem lines_read:
  "(\<exists>ls rest. buf = joined ls @ rest \<and> nl \<notin> set rest \<and> list_all (\<lambda>l. nl \<notin> set l) ls \<and>
      length ls = count_list buf nl \<and> read_lines E buf w = (rest, handle_lines E ls w)) \<and>
    read_lines E (buf @ chunk) w = (let (rest, w') = read_lines E buf w in read_lines E (rest @ chunk) w')"
proof -
  obtain ls rest where b: "buf = joined ls @ rest" "nl \<notin> set rest" "list_all (\<lambda>l. nl \<notin> set l) ls"
    using split_lines by blast
  have r: "read_lines E buf w = (rest, handle_lines E ls w)"
    unfolding b(1) by (simp add: read_lines_joined [OF b(3)] read_lines_rest [OF b(2)])
  have "count_list (joined ls) nl = length ls"
    using b(3) by (induction ls) (simp_all add: joined_def count_list_append count_notin)
  then have "length ls = count_list buf nl" using b(2) by (simp add: b(1) count_notin)
  with b r have 1: "\<exists>ls rest. buf = joined ls @ rest \<and> nl \<notin> set rest \<and> list_all (\<lambda>l. nl \<notin> set l) ls \<and>
      length ls = count_list buf nl \<and> read_lines E buf w = (rest, handle_lines E ls w)" by blast
  have "read_lines E (buf @ chunk) w = (let (rest, w') = read_lines E buf w in read_lines E (rest @ chunk) w')"
    unfolding r by (simp add: b(1) read_lines_joined [OF b(3)])
  with 1 show ?thesis by blast
qed

section \<open>A sample share\<close>

text \<open>
  A share on a job without transactions, with a hash function that is constantly zero: it solves its
  block and reaches the difficulty 0 of its session.
\<close>

definition sample_env :: env where
  "sample_env = \<lparr>ev_fpu = exact_fpu, ev_exp = (\<lambda>x. x), ev_sha256 = (\<lambda>_. replicate 32 0), ev_scrypt = (\<lambda>_. Inr []),
     ev_blake = (\<lambda>_ _. []), ev_equihash_blake = (\<lambda>_ _. []), ev_parse = (\<lambda>_. None), ev_dump = (\<lambda>_. []),
     ev_show_double = (\<lambda>_. []), ev_stod = (\<lambda>_. None), ev_stoi = (\<lambda>_. None), ev_rtt_consts = [],
     ev_ensure_miner = (\<lambda>_ _ _. 0), ev_blacklist = blacklist_new, ev_aux_client = False, ev_steady = 0, ev_unix = 0,
     ev_crypto = toy_crypto, ev_static_draws = ([replicate 32 1], []), ev_ephemeral_draws = ([replicate 32 2], [], []),
     ev_rand = 0\<rparr>"

definition share_job :: mining_job where
  "share_job = sample_job\<lparr>mj_coinbase1 := [], mj_bits := bytes_to_hex [0x20, 0x7f, 0xff, 0xff]\<rparr>"

definition sample_session :: session where
  "sample_session = (session_new sample_env default_coin False [] [])
     \<lparr>cs_authorized := True, cs_extranonce2_size := 1, cs_worker_address := ''w'', cs_worker_name := ''0'',
      cs_vardiff := (session_vardiff exact_fpu default_coin)\<lparr>vd_current_diff := 0\<rparr>\<rparr>"

definition sample_world :: world where
  "sample_world = \<lparr>w_cs = sample_session,
     w_strat = (stratifier_new 2)\<lparr>sf_jobs := window_push ''j'' share_job (window_new 2)\<rparr>,
     w_limiter = None, w_posted = [], w_queue = wq_new (2 ^ 20), w_actions = []\<rparr>"

definition sample_submit :: json where
  "sample_submit = JObject [(''id'', JInt 1), (''params'', JArray
     [JString ''w'', JString ''j'', JString ''00'', JString ''00000000'', JString ''00000000''])]"

definition sample_share :: share where
  "sample_share = \<lparr>sh_worker = ''w'', sh_job_id = ''j'', sh_nonce2 = ''00'', sh_ntime = ''00000000'',
     sh_nonce = ''00000000'', sh_solution = [], sh_version_bits = None\<rparr>"

lemma sample_parsed: "parse_submit sample_session (params_of sample_submit) = Inr sample_share"
  by (simp add: parse_submit_def params_of_def sample_submit_def array_member_def member_def sample_session_def
      session_new_def default_coin_def chain_of_def parse_bitcoin_submit_def valid_hex_def is_hex_def sample_share_def)

lemma share_job_fields:
  "mj_job_id share_job = []" "mj_coinbase1 share_job = []" "mj_merkle_branch_le share_job = []"
  "mj_previousblockhash share_job = []" "mj_version share_job = 0" "mj_mintime share_job = 0"
  "mj_bits share_job = bytes_to_hex [0x20, 0x7f, 0xff, 0xff]" "aux_enabled share_job = False" "rtt_present share_job = False"
  by (simp_all add: share_job_def sample_job_def make_job_def sample_template_def empty_template_def)

lemma session_fields:
  "chain_of sample_session = Bitcoin" "cs_extranonce1 sample_session = []" "cs_worker_script_hex sample_session = []"
  "cs_aux_doge_address sample_session = []" "cs_worker_address sample_session = ''w''" "cs_worker_name sample_session = ''0''"
  "cs_version_mask sample_session = 0" "cs_authorized sample_session = True" "cs_custom_difficulty sample_session = None"
  "vd_current_diff (cs_vardiff sample_session) = 0" "cs_coin sample_session = default_coin"
  "cs_shares_accepted sample_session = 0" "cs_miner_id sample_session = - 1"
  by (simp_all add: sample_session_def session_new_def chain_of_def default_coin_def)

lemma zeros_text: "''00000000'' = bytes_to_hex [0, 0, 0, 0]"
  by (simp add: hex_of_byte_def hex_digits_def)

lemma sample_header: "share_header Bitcoin share_job 0 (bytes_to_hex (replicate 32 0)) ''00000000'' ''00000000'' =
    bytes_to_hex (le_bytes 4 (0 :: u32) @ replicate 32 0 @ [0, 0, 0, 0] @ rev [0x20, 0x7f, 0xff, 0xff] @ [0, 0, 0, 0])"
  unfolding share_header_def build_block_header_def share_job_fields le_hex_u32_bytes zeros_text byte_reverse_bytes_to_hex
  by (simp add: byte_reverse_hex_def bytes_to_hex_def)

lemma bits_length: "length [0x20, 0x7f, 0xff, 0xff :: u8] = 4" by simp

definition sample_target :: bytes where
  "sample_target = (case target_from_bits_hex (mj_bits share_job) of Inr t \<Rightarrow> t | Inl _ \<Rightarrow> [])"

lemma sample_target: "target_from_bits_hex (mj_bits share_job) = Inr sample_target"
  unfolding sample_target_def share_job_fields using compact_target [OF bits_length] by auto

lemma zero_below: "be_le (replicate n 0) t"
proof (induction n arbitrary: t)
  case (Suc n)
  then show ?case by (cases t) (auto simp: word_neq_0_conv)
qed simp

lemma zero_difficulty: "difficulty_of exact_fpu chain (replicate n 0) = 0"
proof -
  have "fst (fold (\<lambda>b (acc, base). (rnd_ld exact_fpu (acc + rnd_ld exact_fpu (of_nat (unat b) * base)),
      rnd_ld exact_fpu (base * 256))) (replicate n (0 :: u8)) (0, y)) = 0" for y
    by (induction n arbitrary: y) (simp_all add: exact_fpu_def)
  then show ?thesis by (simp add: difficulty_of_def be_double_def)
qed

definition sample_candidate :: candidate where
  "sample_candidate = \<lparr>ca_job = share_job, ca_share = sample_share, ca_stale = False, ca_version = 0,
     ca_coinbase_hex = ''00'',
     ca_header_hex = share_header Bitcoin share_job 0 (bytes_to_hex (replicate 32 0)) ''00000000'' ''00000000'',
     ca_hash = replicate 32 0, ca_net_target = sample_target, ca_meets_network = True, ca_share_diff = 0\<rparr>"

lemma sample_checked: "check_share sample_env sample_session (w_strat sample_world) sample_share = Inr (Inr sample_candidate)"
proof -
  have env: "ev_sha256 sample_env = (\<lambda>_. replicate 32 0)" "ev_fpu sample_env = exact_fpu" "ev_unix sample_env = 0"
    by (simp_all add: sample_env_def)
  have s: "sh_worker sample_share = ''w''" "sh_job_id sample_share = ''j''" "sh_nonce2 sample_share = ''00''"
    "sh_ntime sample_share = ''00000000''" "sh_nonce sample_share = ''00000000''" "sh_version_bits sample_share = None"
    by (simp_all add: sample_share_def)
  have find: "findJob ''j'' (w_strat sample_world) = Some share_job" "current_prevhash (w_strat sample_world) = []"
    by (simp_all add: findJob_def sample_world_def window_find_def window_push_def window_new_def current_prevhash_def stratifier_new_def)
  have t: "session_hex_u32 ''00000000'' = Some 0"
    unfolding session_hex_u32_def by (subst parse_hex_u32_hex) (simp_all add: is_hex_def hex_number_def hex_value_def hex_nibble_def Let_def)
  have w: "split_worker ''w'' = (''w'', ''0'')" by (simp add: split_worker_def)
  have two: "hex_to_bytes ''00'' = Inr [0]" by (simp add: hex_to_bytes_def hex_nibble_def Let_def)
  have z: "hex_pairs (bytes_to_hex (replicate 32 0)) = Inr (replicate 32 0)"
    using hex_pairs_bytes_to_hex [of "replicate 32 0" "[]"] by (simp del: bytes_to_hex_simps replicate.simps)
  have cb: "share_coinbase sample_env sample_session share_job sample_share = Inr (''00'', bytes_to_hex (replicate 32 0))"
    unfolding share_coinbase_def session_fields share_job_fields s coinbase2_of_def
    by (simp add: build_session_coinbase2_def rebuild_coinbase_def compute_coinbase_txid_le_def two sha256d_def env
        compute_root_le_hex_def from_hex_def z del: bytes_to_hex_simps replicate.simps)
  have hx: "hex_to_bytes (share_header Bitcoin share_job 0 (bytes_to_hex (replicate 32 0)) ''00000000'' ''00000000'') =
      Inr (le_bytes 4 (0 :: u32) @ replicate 32 0 @ [0, 0, 0, 0] @ rev [0x20, 0x7f, 0xff, 0xff] @ [0, 0, 0, 0])"
    unfolding sample_header by (rule hex_to_bytes_to_hex)
  have v: "share_version m share_job sample_share = Some 0" for m
    by (simp add: share_version_def s share_job_fields)
  have p: "proof_of_work sample_env Bitcoin h sol = Inr (Some (replicate 32 0))" for h sol
    by (simp add: proof_of_work_def sha256d_def env del: replicate.simps)
  have n: "valid_ntime 0 0 0 7200" by (simp add: valid_ntime_def)
  have ch: "(Bitcoin = Zcash) = False" by simp
  show ?thesis
    unfolding check_share_def session_fields s w find Let_def ch if_False option.case t share_job_fields(6) env n v cb
      bind_res_simps prod.case hx p sample_target
    by (simp add: sample_candidate_def share_job_fields zero_below zero_difficulty n del: replicate.simps)
qed

text \<open>The share is accepted and its block is submitted.\<close>

lemma sample_fresh: "bytes_to_hex (ca_hash sample_candidate) \<notin> sf_seen_shares (w_strat sample_world)"
  by (simp add: sample_world_def stratifier_new_def del: replicate.simps bytes_to_hex_simps)

lemma world_fields: "w_cs sample_world = sample_session" "w_posted sample_world = []"
  by (simp_all add: sample_world_def)



lemma block_submitted_witness:
  "\<exists>w' b r. handle_submit sample_env sample_submit sample_world = (None, w') \<and> SubmitBlock b True r \<in> set (w_actions w')"
proof -
  obtain e w' where w: "handle_submit sample_env sample_submit sample_world = (e, w')"
    by fastforce
  have c: "chain_of (w_cs sample_world) \<noteq> Zcash" "cs_authorized (w_cs sample_world)"
    by (simp_all add: world_fields session_fields)
  have p: "parse_submit (w_cs sample_world) (params_of sample_submit) = Inr sample_share"
    "check_share sample_env (w_cs sample_world) (w_strat sample_world) sample_share = Inr (Inr sample_candidate)"
    by (simp_all add: world_fields sample_parsed sample_checked)
  have m: "ca_meets_network sample_candidate" "ca_job sample_candidate = share_job" by (simp_all add: sample_candidate_def)
  have r: "\<not> rtt_withheld sample_env (chain_of (w_cs sample_world)) (ca_job sample_candidate) (ca_hash sample_candidate)"
    by (simp add: rtt_withheld_def world_fields session_fields)
  have a: "\<forall>s. aux_work (w_cs sample_world) sample_candidate = Some s \<longrightarrow> is_ok (hex_to_bytes (sa_aux_target s))"
    by (simp add: aux_work_def m share_job_fields)
  from block_submitted [OF w c(2,1) p m(1) r sample_fresh a] w show ?thesis by blast
qed

end
