(* ===== verification/SessionV2.thy ===== *)
theory SessionV2
  imports Session
begin

text \<open>
  \<open>src/client_session.cpp\<close>, the Stratum V2 half: the encrypted transport, the frame loop, channels,
  jobs and shares of a miner that speaks Stratum V2. The state and the environment are those of
  theory \<open>Session\<close>. Frames are queued as texts, one character for each byte.
\<close>

section \<open>Sending\<close>

definition text_of_bytes :: "bytes \<Rightarrow> string" where
  "text_of_bytes bs = map char_of_byte bs"

definition do_read_v2 :: "nat \<Rightarrow> world \<Rightarrow> world" where
  "do_read_v2 n w = (if cs_closed (w_cs w) \<or> n = 0 then w else ask [StartReadV2 (min n 4096)] w)"

text \<open>
  On an encrypted connection the header and the payload of a frame are sealed one by one; sixteen
  zero bytes stand for an empty payload.
\<close>

definition send_v2_message :: "env \<Rightarrow> u8 \<Rightarrow> writer \<Rightarrow> world \<Rightarrow> world" where
  "send_v2_message E msg_type payload w =
     (let frame = wrap_message EXT_COMMON msg_type payload
      in if cs_closed (w_cs w) then w
         else if \<not> cs_is_v2_encrypted (w_cs w) then send_line (text_of_bytes frame) w
         else case encrypt (ev_crypto E) (take 6 frame) (cs_noise (w_cs w)) of None \<Rightarrow> on_disconnect_local w
         | Some (c1, n) \<Rightarrow>
             let w = upd_cs (\<lambda>cs. cs\<lparr>cs_noise := n\<rparr>) w
             in if length frame \<le> 6 then send_line (text_of_bytes (c1 @ replicate 16 0)) w
                else case encrypt (ev_crypto E) (drop 6 frame) n of None \<Rightarrow> on_disconnect_local w
                | Some (c2, n) \<Rightarrow> send_line (text_of_bytes (c1 @ c2)) (upd_cs (\<lambda>cs. cs\<lparr>cs_noise := n\<rparr>) w))"

definition send_v2_error :: "env \<Rightarrow> string \<Rightarrow> world \<Rightarrow> world" where
  "send_v2_error E err_code =
     send_v2_message E MSG_SETUP_CONNECTION_ERROR
       (setup_connection_error_serialize \<lparr>sce_error_code = err_code, sce_flags = 0\<rparr> new_writer)"

definition send_v2_open_channel_error :: "env \<Rightarrow> u32 \<Rightarrow> string \<Rightarrow> world \<Rightarrow> world" where
  "send_v2_open_channel_error E request_id err_code =
     send_v2_message E MSG_OPEN_MINING_CHANNEL_ERROR
       (open_mining_channel_error_serialize \<lparr>oce_request_id = request_id, oce_error_code = err_code\<rparr> new_writer)"

section \<open>Targets and difficulty\<close>

text \<open>Least significant byte first; a target of more than 32 bytes loses its top.\<close>

definition diff_to_target_bytes :: "fpu \<Rightarrow> rat \<Rightarrow> bytes" where
  "diff_to_target_bytes F diff =
     (let max_target = 65535 * 2 ^ 208
      in rev (float_bytes 32 (if diff > 0 then rnd_d F (max_target / diff) else max_target)))"

definition send_set_target :: "env \<Rightarrow> rat \<Rightarrow> rat option \<Rightarrow> world \<Rightarrow> world" where
  "send_set_target E d old_diff w =
     (let w = upd_cs (\<lambda>cs. cs\<lparr>cs_last_difficulty := (case old_diff of Some o' \<Rightarrow> o' | None \<Rightarrow> d),
            cs_last_difficulty_change := ev_steady E, cs_stat_diff := round_half_away d\<rparr>) w
      in send_v2_message E MSG_SET_TARGET
           (set_target_serialize \<lparr>st_channel_id = cs_sv2_channel_id (w_cs w),
              st_maximum_target = diff_to_target_bytes (ev_fpu E) d\<rparr> new_writer) w)"

text \<open>The positive values of a 32-bit float: not-a-number, zero and negative ones fail the comparison with 0.\<close>

datatype hash_rate = NotPositive | Finite rat | Infinite

definition float_value :: "f32 \<Rightarrow> hash_rate" where
  "float_value b =
     (let e = unat (take_bit 8 (drop_bit 23 b)); m = unat (take_bit 23 b)
      in if bit b 31 \<or> (e = 0 \<and> m = 0) \<or> (e = 255 \<and> m \<noteq> 0) then NotPositive
         else if e = 255 then Infinite
         else if e = 0 then Finite (of_nat m / 2 ^ 149)
         else Finite (of_nat (2 ^ 23 + m) * 2 ^ e / 2 ^ 150))"

text \<open>The first difficulty of an extended channel: the declared hash rate at the configured share rate, if the tier adapts.\<close>

definition initial_difficulty :: "fpu \<Rightarrow> coin_config \<Rightarrow> f32 \<Rightarrow> rat" where
  "initial_difficulty F coin nominal =
     (let tier = activeTier coin;
          rate_hz = rnd_d F (targetSharesPerMinute coin / 60)
      in if st_vardiffEnabled tier \<and> targetSharesPerMinute coin > 0
         then (case float_value nominal of
                 NotPositive \<Rightarrow> st_startingDifficulty tier
               | Finite v \<Rightarrow>
                   (let per_difficulty = rnd_d F (4294967296 * rate_hz)
                    in if per_difficulty = 0 then st_vardiffMax tier
                       else clamp (rnd_d F (v / per_difficulty)) (st_vardiffMin tier) (st_vardiffMax tier))
               | Infinite \<Rightarrow> st_vardiffMax tier)
         else st_startingDifficulty tier)"

section \<open>Work for the miner\<close>

definition job_id_u32 :: "mining_job \<Rightarrow> u32" where
  "job_id_u32 job =
     (if length (mj_job_id job) \<ge> 8
      then (case stoul16 (take 8 (mj_job_id job)) of Inr v \<Rightarrow> ucast v | Inl _ \<Rightarrow> 0) else 0)"

text \<open>A job without fees and transactions, for tiers that mine empty blocks.\<close>

definition empty_block_job :: "mining_job \<Rightarrow> mining_job" where
  "empty_block_job job =
     job\<lparr>mj_coinbase_value := mj_coinbase_value job - mj_total_fees job, mj_segwit_active := False,
         mj_witness_commitment := []\<rparr>"

text \<open>The coinbase of a standard channel, with its root: the extranonce is the session's and eight zero bytes.\<close>

definition standard_work :: "env \<Rightarrow> session \<Rightarrow> mining_job \<Rightarrow> (string \<times> string) result" where
  "standard_work E cs job =
     (let empty = stratumV2EmptyBlocks (cs_coin cs);
          cb_hex = rebuild_coinbase (mj_coinbase1 job) (coinbase2_of E cs (if empty then empty_block_job job else job))
            (cs_extranonce1 cs @ ''0000000000000000'')
      in bind_res (compute_coinbase_txid_le (sha256d (ev_sha256 E)) cb_hex) (\<lambda>txid.
           if empty then Inr (cb_hex, txid)
           else bind_res (compute_root_le_hex (ev_sha256 E) txid (mj_merkle_branch_le job)) (\<lambda>mroot. Inr (cb_hex, mroot))))"

definition extended_job :: "env \<Rightarrow> session \<Rightarrow> mining_job \<Rightarrow> new_extended_mining_job result" where
  "extended_job E cs job =
     bind_res (map_res hex_to_bytes (mj_merkle_branch_le job)) (\<lambda>path.
     bind_res (hex_to_bytes (mj_coinbase1 job)) (\<lambda>prefix.
     bind_res (hex_to_bytes (coinbase2_of E cs job)) (\<lambda>suffix.
       Inr \<lparr>nej_channel_id = cs_sv2_channel_id cs, nej_job_id = job_id_u32 job, nej_min_ntime = None,
            nej_version = mj_version job, nej_version_rolling_allowed = True,
            nej_merkle_path = filter (\<lambda>h. length h = 32) path,
            nej_coinbase_tx_prefix = prefix, nej_coinbase_tx_suffix = suffix\<rparr>)))"

definition standard_job :: "env \<Rightarrow> session \<Rightarrow> mining_job \<Rightarrow> new_mining_job result" where
  "standard_job E cs job =
     bind_res (standard_work E cs job) (\<lambda>(cb_hex, root_hex).
     bind_res (hex_to_bytes root_hex) (\<lambda>mroot.
       Inr \<lparr>nmj_channel_id = cs_sv2_channel_id cs, nmj_job_id = job_id_u32 job, nmj_min_ntime = None,
            nmj_version = mj_version job,
            nmj_merkle_root = (if length mroot = 32 then mroot else replicate 32 0)\<rparr>))"

definition nbits_of :: "string \<Rightarrow> u32" where
  "nbits_of bits =
     (case hex_to_bytes bits of
        Inr [b0, b1, b2, b3] \<Rightarrow> push_bit 24 (ucast b0) OR push_bit 16 (ucast b1) OR push_bit 8 (ucast b2) OR ucast b3
      | _ \<Rightarrow> 0)"

definition new_tip :: "session \<Rightarrow> mining_job \<Rightarrow> set_new_prev_hash result" where
  "new_tip cs job =
     bind_res (hex_to_bytes (byte_reverse_hex (mj_previousblockhash job))) (\<lambda>ph.
       Inr \<lparr>snp_channel_id = cs_sv2_channel_id cs, snp_job_id = job_id_u32 job,
            snp_prev_hash = (if length ph = 32 then ph else replicate 32 0),
            snp_min_ntime = mj_mintime job, snp_nbits = nbits_of (mj_bits job)\<rparr>)"

definition emit_job_v2 :: "env \<Rightarrow> mining_job \<Rightarrow> world \<Rightarrow> outcome" where
  "emit_job_v2 E job w =
     and_then
       (if cs_is_extended_channel (w_cs w)
        then attempt (extended_job E (w_cs w) job) w (\<lambda>m.
               fine (send_v2_message E MSG_NEW_EXTENDED_MINING_JOB (new_extended_mining_job_serialize m new_writer) w))
        else attempt (standard_job E (w_cs w) job) w (\<lambda>m.
               fine (send_v2_message E MSG_NEW_MINING_JOB (new_mining_job_serialize m new_writer) w)))
       (\<lambda>w. attempt (new_tip (w_cs w) job) w (\<lambda>m.
          fine (send_v2_message E MSG_SET_NEW_PREV_HASH (set_new_prev_hash_serialize m new_writer) w)))"

section \<open>Channels\<close>

definition payload_of :: "'a read \<Rightarrow> bytes \<Rightarrow> 'a result" where
  "payload_of get payload = (case get (new_reader payload) of Inl e \<Rightarrow> Inl e | Inr (m, r) \<Rightarrow> Inr m)"

definition handle_setup :: "env \<Rightarrow> setup_connection \<Rightarrow> world \<Rightarrow> world" where
  "handle_setup E m w =
     (if sc_protocol m \<noteq> 0 \<and> sc_protocol m \<noteq> 2 then send_v2_error E ''unsupported-protocol'' w
      else publish_snapshot (upd_cs (\<lambda>cs. cs\<lparr>cs_subscribed := True, cs_authorized := True\<rparr>)
             (send_v2_message E MSG_SETUP_CONNECTION_SUCCESS
                (setup_connection_success_serialize \<lparr>scs_used_version = 2, scs_flags = 0\<rparr> new_writer) w)))"

definition split_identity :: "string \<Rightarrow> string \<times> string" where
  "split_identity full =
     (let addr = takeWhile (\<lambda>c. c \<noteq> CHR ''.'') full
      in if addr = full then (full, ''default'') else (addr, drop (length addr + 1) full))"

definition identify :: "string \<Rightarrow> world \<Rightarrow> world" where
  "identify user w =
     (let (addr, name) = split_identity user
      in upd_cs (\<lambda>cs. cs\<lparr>cs_worker_address := addr, cs_worker_name := name\<rparr>) w)"

definition new_channel_id :: "env \<Rightarrow> u32" where
  "new_channel_id E = of_nat (1000 + ev_rand E mod 10000)"

text \<open>What both kinds of channel do once they are open: the node's verdict on the address comes later.\<close>

definition register_miner :: "env \<Rightarrow> world \<Rightarrow> world" where
  "register_miner E w =
     (let cs = w_cs w
      in ask [Presence (cs_worker_address cs) (cs_worker_name cs) ''online'' (cs_client_ip cs)]
           (upd_cs (\<lambda>cs. cs\<lparr>cs_miner_id :=
              ev_ensure_miner E (cs_worker_address cs) (cs_worker_name cs) (cs_client_ip cs)\<rparr>) w))"

definition validate_payout_async :: "world \<Rightarrow> world" where
  "validate_payout_async w = ask [ValidatePayout (cs_worker_address (w_cs w))] w"

definition first_job_v2 :: "env \<Rightarrow> world \<Rightarrow> outcome" where
  "first_job_v2 E w =
     and_then (case latestJob (w_strat w) of Some j \<Rightarrow> emit_job_v2 E j w | None \<Rightarrow> fine w)
       (\<lambda>w. fine (validate_payout_async w))"

definition handle_open_standard :: "env \<Rightarrow> open_standard_mining_channel \<Rightarrow> world \<Rightarrow> outcome" where
  "handle_open_standard E m w =
     (let w = identify (osc_user_identity m) w
      in case decode (\<lambda>b. Inr (ev_sha256 E b)) (cs_worker_address (w_cs w)) of
           Inl e \<Rightarrow> fine (send_v2_open_channel_error E (osc_request_id m) ''invalid-username-or-address'' w)
         | Inr d \<Rightarrow>
             let diff = st_startingDifficulty (activeTier (cs_coin (w_cs w)));
                 w = upd_cs (\<lambda>cs. cs\<lparr>cs_worker_script_hex := script_pubkey_hex d,
                       cs_sv2_channel_id := new_channel_id E, cs_last_difficulty := diff\<rparr>) w;
                 w = send_v2_message E MSG_OPEN_STANDARD_MINING_CHANNEL_SUCCESS
                       (open_standard_mining_channel_success_serialize
                          \<lparr>oscs_request_id = osc_request_id m, oscs_channel_id = cs_sv2_channel_id (w_cs w),
                           oscs_target = diff_to_target_bytes (ev_fpu E) diff,
                           oscs_extranonce_prefix = [0x01, 0x02, 0x03, 0x04], oscs_group_channel_id = 0\<rparr> new_writer) w
             in first_job_v2 E (register_miner E w))"

definition handle_open_extended :: "env \<Rightarrow> open_extended_mining_channel \<Rightarrow> world \<Rightarrow> outcome" where
  "handle_open_extended E m w =
     (let w = identify (oec_user_identity m) w
      in case decode (\<lambda>b. Inr (ev_sha256 E b)) (cs_worker_address (w_cs w)) of
           Inl e \<Rightarrow> fine (send_v2_open_channel_error E (oec_request_id m) ''invalid-username-or-address'' w)
         | Inr d \<Rightarrow>
             let diff = initial_difficulty (ev_fpu E) (cs_coin (w_cs w)) (oec_nominal_hash_rate m);
                 size = max (oec_min_extranonce_size m) 8;
                 w = upd_cs (\<lambda>cs. cs\<lparr>cs_worker_script_hex := script_pubkey_hex d,
                       cs_sv2_channel_id := new_channel_id E, cs_is_extended_channel := True,
                       cs_last_difficulty := diff, cs_vardiff := set_current diff (cs_vardiff cs),
                       cs_extranonce2_size := unat size\<rparr>) w
             in attempt (hex_to_bytes (cs_extranonce1 (w_cs w))) w (\<lambda>prefix.
                  let w = send_v2_message E MSG_OPEN_EXTENDED_MINING_CHANNEL_SUCCESS
                            (open_extended_mining_channel_success_serialize
                               \<lparr>oecs_request_id = oec_request_id m, oecs_channel_id = cs_sv2_channel_id (w_cs w),
                                oecs_target = diff_to_target_bytes (ev_fpu E) diff, oecs_extranonce_size = size,
                                oecs_extranonce_prefix = prefix, oecs_group_channel_id = 0\<rparr> new_writer) w;
                      w = register_miner E (upd_cs (\<lambda>cs. cs\<lparr>cs_subscribed := True, cs_authorized := True\<rparr>) w)
                  in first_job_v2 E (publish_snapshot w)))"

text \<open>The node's answer: a bad address closes the connection.\<close>

definition on_payout_validated :: "string option \<Rightarrow> bool \<Rightarrow> world \<Rightarrow> world" where
  "on_payout_validated ec valid w =
     (if cs_closed (w_cs w) then w else if ec \<noteq> None \<or> \<not> valid then on_disconnect_local w else w)"

section \<open>Declared jobs\<close>

definition custom_job_error :: "env \<Rightarrow> set_custom_mining_job \<Rightarrow> string \<Rightarrow> world \<Rightarrow> world" where
  "custom_job_error E m err_code w =
     send_v2_message E MSG_SET_CUSTOM_MINING_JOB_ERROR
       (set_custom_mining_job_error_serialize
          \<lparr>scje_channel_id = cs_sv2_channel_id (w_cs w), scje_request_id = scj_request_id m,
           scje_error_code = err_code\<rparr> new_writer) w"

definition donation_script :: "env \<Rightarrow> coin_config \<Rightarrow> string" where
  "donation_script E coin =
     (if donationPercent coin > 0 \<and> donationAddress coin \<noteq> []
      then (case decode (\<lambda>b. Inr (ev_sha256 E b)) (donationAddress coin) of
              Inr d \<Rightarrow> script_pubkey_hex d | Inl _ \<Rightarrow> [])
      else [])"

definition handle_set_custom_mining_job :: "env \<Rightarrow> set_custom_mining_job \<Rightarrow> world \<Rightarrow> world" where
  "handle_set_custom_mining_job E m w =
     (let don = donation_script E (cs_coin (w_cs w))
      in if scj_merkle_path m \<noteq> [] then custom_job_error E m ''invalid-merkle-path-not-empty'' w
         else if don \<noteq> [] \<and> \<not> contains (bytes_to_hex (scj_coinbase_tx_outputs m)) don
         then custom_job_error E m ''invalid-coinbase-outputs-no-donation'' w
         else let job_id = cs_sv2_custom_job_id_counter (w_cs w) + 1;
                  cj = \<lparr>cj_job_id = job_id, cj_version = scj_version m, cj_prev_hash = scj_prev_hash m,
                        cj_coinbase_prefix = scj_coinbase_prefix m, cj_coinbase_outputs = scj_coinbase_tx_outputs m,
                        cj_coinbase_tx_version = scj_coinbase_tx_version m,
                        cj_coinbase_tx_input_nSequence = scj_coinbase_tx_input_nSequence m,
                        cj_coinbase_tx_locktime = scj_coinbase_tx_locktime m, cj_nbits = scj_nbits m\<rparr>;
                  w = upd_cs (\<lambda>cs. cs\<lparr>cs_sv2_custom_job_id_counter := job_id,
                        cs_sv2_custom_jobs := AList.update job_id cj (cs_sv2_custom_jobs cs)\<rparr>) w
              in send_v2_message E MSG_SET_CUSTOM_MINING_JOB_SUCCESS
                   (set_custom_mining_job_success_serialize
                      \<lparr>scjs_channel_id = cs_sv2_channel_id (w_cs w), scjs_request_id = scj_request_id m,
                       scjs_job_id = job_id\<rparr> new_writer) w)"

section \<open>Shares\<close>

text \<open>What a share was computed on; the job is missing for a declared one.\<close>

record v2_work =
  vw_job :: "mining_job option"
  vw_header_hex :: string
  vw_coinbase_hex :: string
  vw_bits :: string

record v2_candidate =
  vc_work :: v2_work
  vc_hash :: bytes
  vc_net_target :: bytes
  vc_meets_network :: bool
  vc_share_diff :: rat

text \<open>The latest job, or another one in the window, by the first eight digits of its id.\<close>

definition find_job_v2 :: "u32 \<Rightarrow> stratifier \<Rightarrow> mining_job option" where
  "find_job_v2 id32 strat =
     (case latestJob strat of
        Some j \<Rightarrow> if job_id_u32 j = id32 then Some j else findJobU32 id32 strat
      | None \<Rightarrow> findJobU32 id32 strat)"

definition job_header_v2 :: "mining_job \<Rightarrow> u32 \<Rightarrow> string \<Rightarrow> u32 \<Rightarrow> u32 \<Rightarrow> string" where
  "job_header_v2 job version mroot ntime nonce =
     build_block_header (le_hex_u32 version) (byte_reverse_hex (mj_previousblockhash job)) mroot
       (le_hex_u32 ntime) (byte_reverse_hex (mj_bits job)) (le_hex_u32 nonce)"

text \<open>The coinbase of a declared job: its length byte is printed into two characters.\<close>

definition custom_coinbase :: "custom_job \<Rightarrow> string" where
  "custom_coinbase cj =
     le_hex_u32 (cj_coinbase_tx_version cj) @ ''01'' @ replicate 64 (CHR ''0'') @ ''ffffffff''
     @ take 2 (fmt_02x_nat (length (cj_coinbase_prefix cj))) @ bytes_to_hex (cj_coinbase_prefix cj)
     @ le_hex_u32 (cj_coinbase_tx_input_nSequence cj) @ bytes_to_hex (cj_coinbase_outputs cj)
     @ le_hex_u32 (cj_coinbase_tx_locktime cj)"

definition custom_work :: "env \<Rightarrow> custom_job \<Rightarrow> submit_shares_standard \<Rightarrow> v2_work result" where
  "custom_work E cj m =
     (let cb_hex = custom_coinbase cj; bits_hex = int_to_hex (cj_nbits cj) 8
      in bind_res (compute_coinbase_txid_le (sha256d (ev_sha256 E)) cb_hex) (\<lambda>mroot.
           Inr \<lparr>vw_job = None,
             vw_header_hex = build_block_header (le_hex_u32 (sss_version m)) (bytes_to_hex (cj_prev_hash cj)) mroot
               (le_hex_u32 (sss_ntime m)) bits_hex (le_hex_u32 (sss_nonce m)),
             vw_coinbase_hex = cb_hex, vw_bits = bits_hex\<rparr>))"

text \<open>\<open>None\<close>: the job is gone.\<close>

definition standard_share_work :: "env \<Rightarrow> session \<Rightarrow> stratifier \<Rightarrow> submit_shares_standard \<Rightarrow> v2_work option result" where
  "standard_share_work E cs strat m =
     (case map_of (cs_sv2_custom_jobs cs) (sss_job_id m) of
        Some cj \<Rightarrow> bind_res (custom_work E cj m) (\<lambda>wk. Inr (Some wk))
      | None \<Rightarrow>
          (case find_job_v2 (sss_job_id m) strat of None \<Rightarrow> Inr None
           | Some job \<Rightarrow>
               bind_res (standard_work E cs job) (\<lambda>(cb_hex, mroot).
                 Inr (Some \<lparr>vw_job = Some job,
                   vw_header_hex = job_header_v2 job (sss_version m) mroot (sss_ntime m) (sss_nonce m),
                   vw_coinbase_hex = cb_hex, vw_bits = mj_bits job\<rparr>))))"

definition extended_share_work :: "env \<Rightarrow> session \<Rightarrow> stratifier \<Rightarrow> submit_shares_extended \<Rightarrow> v2_work option result" where
  "extended_share_work E cs strat m =
     (case find_job_v2 (sse_job_id m) strat of None \<Rightarrow> Inr None
      | Some job \<Rightarrow>
          let cb_hex = rebuild_coinbase (mj_coinbase1 job) (coinbase2_of E cs job)
                (cs_extranonce1 cs @ bytes_to_hex (sse_extranonce m))
          in bind_res (compute_coinbase_txid_le (sha256d (ev_sha256 E)) cb_hex) (\<lambda>txid.
             bind_res (compute_root_le_hex (ev_sha256 E) txid (mj_merkle_branch_le job)) (\<lambda>mroot.
               Inr (Some \<lparr>vw_job = Some job,
                 vw_header_hex = job_header_v2 job (sse_version m) mroot (sse_ntime m) (sse_nonce m),
                 vw_coinbase_hex = cb_hex, vw_bits = mj_bits job\<rparr>))))"

text \<open>The proof of work, most significant byte first, and what it is worth.\<close>

definition pow_v2 :: "env \<Rightarrow> chain_kind \<Rightarrow> bytes \<Rightarrow> bytes result" where
  "pow_v2 E chain header =
     (if chain = Litecoin \<or> chain = Dogecoin then bind_res (ev_scrypt E header) (\<lambda>h. Inr (rev h))
      else Inr (rev (sha256d (ev_sha256 E) header)))"

definition judge_v2 :: "env \<Rightarrow> chain_kind \<Rightarrow> v2_work \<Rightarrow> v2_candidate result" where
  "judge_v2 E chain wk =
     bind_res (hex_to_bytes (vw_header_hex wk)) (\<lambda>header.
     bind_res (pow_v2 E chain header) (\<lambda>hash.
     bind_res (target_from_bits_hex (vw_bits wk)) (\<lambda>net.
       Inr \<lparr>vc_work = wk, vc_hash = hash, vc_net_target = net, vc_meets_network = be_le hash net,
            vc_share_diff = difficulty_of (ev_fpu E) chain hash\<rparr>)))"

subsection \<open>Blocks\<close>

definition v2_block_coinbase :: "bool \<Rightarrow> v2_work \<Rightarrow> string" where
  "v2_block_coinbase empty_block wk =
     (case vw_job wk of
        Some job \<Rightarrow> if \<not> empty_block \<and> mj_segwit_active job then segwitify_coinbase (vw_coinbase_hex wk) else vw_coinbase_hex wk
      | None \<Rightarrow> vw_coinbase_hex wk)"

definition v2_full_block :: "bool \<Rightarrow> v2_work \<Rightarrow> string" where
  "v2_full_block empty_block wk =
     assemble_full_block (vw_header_hex wk) (v2_block_coinbase empty_block wk)
       (case vw_job wk of Some job \<Rightarrow> if empty_block then [] else mj_tx_hexes job | None \<Rightarrow> [])
     @ (case vw_job wk of Some job \<Rightarrow> if mweb job \<noteq> [] then ''01'' @ mweb job else [] | None \<Rightarrow> [])"

definition v2_block_record :: "session \<Rightarrow> v2_candidate \<Rightarrow> block_record" where
  "v2_block_record cs c =
     \<lparr>br_height = (case vw_job (vc_work c) of Some job \<Rightarrow> mj_height job | None \<Rightarrow> 0),
      br_block_hash = bytes_to_hex (vc_hash c), br_miner_id = cs_miner_id cs, br_difficulty = vc_share_diff c,
      br_reward_value = 0, br_coin = []\<rparr>"

definition submit_block_sv2 :: "env \<Rightarrow> bool \<Rightarrow> v2_candidate \<Rightarrow> world \<Rightarrow> outcome" where
  "submit_block_sv2 E empty_block c w =
     (let wk = vc_work c; chain = chain_of (w_cs w)
      in if (case vw_job wk of Some job \<Rightarrow> rtt_withheld E chain job (vc_hash c) | None \<Rightarrow> False) then fine w
         else and_then (ipc_submit_best_effort (case vw_job wk of Some job \<Rightarrow> ipc_handle job | None \<Rightarrow> 0)
                (vw_header_hex wk) (v2_block_coinbase empty_block wk) w) (\<lambda>w.
           fine (ask [SubmitBlock (v2_full_block empty_block wk) (chain \<noteq> Zcash) (v2_block_record (w_cs w) c)] w)))"

text \<open>A solved block is submitted before the share is judged, once for each hash.\<close>

definition rescue_block_v2 :: "env \<Rightarrow> bool \<Rightarrow> v2_candidate \<Rightarrow> world \<Rightarrow> outcome" where
  "rescue_block_v2 E empty_block c w =
     (if \<not> vc_meets_network c then fine w
      else let (fresh, strat) = register_share (bytes_to_hex (vc_hash c)) (w_strat w); w = w\<lparr>w_strat := strat\<rparr>
        in if fresh then submit_block_sv2 E empty_block c w else fine w)"

subsection \<open>Verdicts\<close>

definition reject_v2 :: "env \<Rightarrow> u32 \<Rightarrow> string \<Rightarrow> world \<Rightarrow> world" where
  "reject_v2 E sequence_number err_code w =
     upd_cs (\<lambda>cs. cs\<lparr>cs_shares_rejected := cs_shares_rejected cs + 1\<rparr>)
       (send_v2_message E MSG_SUBMIT_SHARES_ERROR
          (submit_shares_error_serialize \<lparr>sserr_channel_id = cs_sv2_channel_id (w_cs w),
             sserr_sequence_number = sequence_number, sserr_error_code = err_code\<rparr> new_writer) w)"

definition accept_share_v2 :: "env \<Rightarrow> u32 \<Rightarrow> rat \<Rightarrow> world \<Rightarrow> world" where
  "accept_share_v2 E sequence_number share_diff w =
     note_accepted_share E share_diff
       (upd_cs (\<lambda>cs. cs\<lparr>cs_shares_accepted := cs_shares_accepted cs + 1\<rparr>)
          (send_v2_message E MSG_SUBMIT_SHARES_SUCCESS
             (submit_shares_success_serialize \<lparr>ssok_channel_id = cs_sv2_channel_id (w_cs w),
                ssok_last_sequence_number = sequence_number, ssok_new_submits_accepted_count = 1,
                ssok_new_shares_sum = 1\<rparr> new_writer) w))"

text \<open>The difficulty a share must meet: the one before the last change counts for \<open>window\<close> seconds.\<close>

definition target_diff_v2 :: "env \<Rightarrow> session \<Rightarrow> rat \<Rightarrow> rat \<Rightarrow> rat \<Rightarrow> rat" where
  "target_diff_v2 E cs window least share_diff =
     (let F = ev_fpu E; current = vd_current_diff (cs_vardiff cs);
          age = rnd_d F (of_int (ev_steady E - cs_last_difficulty_change cs) / 1000000000)
      in if share_diff < current \<and> age < window \<and> share_diff \<ge> least then cs_last_difficulty cs else current)"

definition retarget_v2 :: "env \<Rightarrow> bool \<Rightarrow> rat \<Rightarrow> rat \<Rightarrow> world \<Rightarrow> world" where
  "retarget_v2 E enabled target network_diff w =
     (if enabled
      then let old_diff = vd_current_diff (cs_vardiff (w_cs w));
               (nd, v) = on_share (ev_fpu E) (ev_exp E) (ev_steady E) target network_diff (cs_vardiff (w_cs w));
               w = upd_cs (\<lambda>cs. cs\<lparr>cs_vardiff := v\<rparr>) w
           in (case nd of None \<Rightarrow> w | Some d \<Rightarrow> send_set_target E d (Some old_diff) w)
      else w)"

definition persist_share_v2 :: "u32 \<Rightarrow> u32 \<Rightarrow> string \<Rightarrow> v2_candidate \<Rightarrow> rat \<Rightarrow> world \<Rightarrow> world" where
  "persist_share_v2 job_id nonce extranonce2 c target w =
     (let cs = w_cs w; hash = bytes_to_hex (vc_hash c)
      in if cs_miner_id cs > 0
         then ask [PersistShare \<lparr>shr_miner_id = cs_miner_id cs, shr_job_id = dec_nat (unat job_id),
                     shr_nonce = le_hex_u32 nonce, shr_extranonce1 = cs_extranonce1 cs, shr_extranonce2 = extranonce2,
                     shr_hash = hash, shr_difficulty = target, shr_accepted = True, shr_block = vc_meets_network c\<rparr>,
                   PersistBestShare (cs_miner_id cs) (vc_share_diff c) hash] w
         else w)"

subsection \<open>The two kinds of submission\<close>

text \<open>On a standard channel a share may be one percent too easy, and its time is not checked.\<close>

definition handle_submit_standard_v2 :: "env \<Rightarrow> submit_shares_standard \<Rightarrow> world \<Rightarrow> outcome" where
  "handle_submit_standard_v2 E m w =
     (let seq = sss_sequence_number m; chain = chain_of (w_cs w); F = ev_fpu E; tol = rnd_d F (99 / 100)
      in attempt (standard_share_work E (w_cs w) (w_strat w) m) w (\<lambda>work. case work of
           None \<Rightarrow> fine (reject_v2 E seq ''stale-share'' w)
         | Some wk \<Rightarrow> attempt (judge_v2 E chain wk) w (\<lambda>c.
             and_then (rescue_block_v2 E (stratumV2EmptyBlocks (cs_coin (w_cs w))) c w) (\<lambda>w.
               let target = target_diff_v2 E (w_cs w) 40 (rnd_d F (cs_last_difficulty (w_cs w) * tol)) (vc_share_diff c)
               in if vc_share_diff c < rnd_d F (target * tol) then fine (reject_v2 E seq ''difficulty-too-low'' w)
                  else fine (persist_share_v2 (sss_job_id m) (sss_nonce m) ''0000000000000000'' c target
                    (retarget_v2 E (st_vardiffEnabled (activeTier (cs_coin (w_cs w)))) target 0
                      (accept_share_v2 E seq (vc_share_diff c) w)))))))"

definition handle_submit_extended_v2 :: "env \<Rightarrow> submit_shares_extended \<Rightarrow> world \<Rightarrow> outcome" where
  "handle_submit_extended_v2 E m w =
     (let seq = sse_sequence_number m; chain = chain_of (w_cs w)
      in if cs_closed (w_cs w) then fine w
         else attempt (extended_share_work E (w_cs w) (w_strat w) m) w (\<lambda>work. case work of
           None \<Rightarrow> fine (reject_v2 E seq ''stale-share'' w)
         | Some wk \<Rightarrow> attempt (judge_v2 E chain wk) w (\<lambda>c.
             and_then (rescue_block_v2 E False c w) (\<lambda>w.
               let target = target_diff_v2 E (w_cs w) 15 (cs_last_difficulty (w_cs w)) (vc_share_diff c)
               in if vc_share_diff c < target then fine (reject_v2 E seq ''difficulty-too-low'' w)
                  else if (case vw_job wk of Some job \<Rightarrow> \<not> valid_ntime (sse_ntime m) (mj_mintime job) (ev_unix E) 7200
                           | None \<Rightarrow> False)
                  then fine (reject_v2 E seq ''time-too-old-or-new'' w)
                  else fine (persist_share_v2 (sse_job_id m) (sse_nonce m) (bytes_to_hex (sse_extranonce m)) c target
                    (retarget_v2 E
                      (st_vardiffEnabled (activeTier (cs_coin (w_cs w))) \<and> cs_custom_difficulty (w_cs w) = None)
                      target (difficulty_of (ev_fpu E) chain (vc_net_target c))
                      (accept_share_v2 E seq (vc_share_diff c) w)))))))"

section \<open>Reading\<close>

definition process_message_v2 :: "env \<Rightarrow> header \<Rightarrow> bytes \<Rightarrow> world \<Rightarrow> outcome" where
  "process_message_v2 E h payload w =
     (let t = hdr_msg_type h
      in if t = MSG_SETUP_CONNECTION
         then attempt (payload_of setup_connection_deserialize payload) w (\<lambda>m. fine (handle_setup E m w))
         else if t = MSG_OPEN_STANDARD_MINING_CHANNEL
         then attempt (payload_of open_standard_mining_channel_deserialize payload) w (\<lambda>m. handle_open_standard E m w)
         else if t = MSG_OPEN_EXTENDED_MINING_CHANNEL
         then attempt (payload_of open_extended_mining_channel_deserialize payload) w (\<lambda>m. handle_open_extended E m w)
         else if t = MSG_UPDATE_CHANNEL
         then attempt (payload_of update_channel_deserialize payload) w (\<lambda>m. fine w)
         else if t = MSG_SUBMIT_SHARES_STANDARD
         then attempt (payload_of submit_shares_standard_deserialize payload) w (\<lambda>m. handle_submit_standard_v2 E m w)
         else if t = MSG_SUBMIT_SHARES_EXTENDED
         then attempt (payload_of submit_shares_extended_deserialize payload) w (\<lambda>m. handle_submit_extended_v2 E m w)
         else if t = MSG_SET_CUSTOM_MINING_JOB
         then attempt (payload_of set_custom_mining_job_deserialize payload) w
                (\<lambda>m. fine (handle_set_custom_mining_job E m w))
         else if t = MSG_CLOSE_CHANNEL
         then attempt (payload_of close_channel_deserialize payload) w (\<lambda>m. fine w)
         else fine w)"

definition header_of :: "bytes \<Rightarrow> header" where
  "header_of bs = (case payload_of header_deserialize bs of Inr h \<Rightarrow> h
     | Inl _ \<Rightarrow> \<lparr>hdr_extension_type = 0, hdr_msg_type = 0, hdr_msg_length = 0\<rparr>)"

text \<open>
  One step of the frame loop on the bytes that are buffered: the bytes that stay and the world, or,
  behind a step that consumed some, the bytes and the world to go on with. An exception of a handler
  is logged, and the loop goes on. An encrypted connection reads the 22 bytes of a sealed header and
  keeps the header while its payload is missing.
\<close>

datatype v2_step = Wait bytes world | Again bytes world

definition reading :: "nat \<Rightarrow> bytes \<Rightarrow> world \<Rightarrow> v2_step" where
  "reading n buf w = Wait buf (do_read_v2 n w)"

definition set_buffer :: "bytes \<Rightarrow> world \<Rightarrow> world" where
  "set_buffer bs w = upd_cs (\<lambda>cs. cs\<lparr>cs_sv2_read_buffer := bs\<rparr>) w"

definition step_v2 :: "env \<Rightarrow> bytes \<Rightarrow> world \<Rightarrow> v2_step" where
  "step_v2 E buf w =
     (if cs_closed (w_cs w) then Wait buf w
      else if \<not> cs_is_v2_encrypted (w_cs w)
      then if length buf < 6 then reading (6 - length buf) buf w
           else let h = header_of (take 6 buf); total = 6 + unat (hdr_msg_length h)
             in if \<not> frame_length_ok (hdr_msg_length h) then Wait buf (on_disconnect_local w)
                else if length buf < total then reading (total - length buf) buf w
                else let rest = drop total buf;
                         w = snd (process_message_v2 E h (take (unat (hdr_msg_length h)) (drop 6 buf)) (set_buffer rest w))
                  in if rest \<noteq> [] then Again rest w else reading 6 [] w
      else case cs_sv2_pending_header (w_cs w) of
        None \<Rightarrow>
          if length buf < 22 then reading (22 - length buf) buf w
          else (case decrypt (ev_crypto E) (take 22 buf) (cs_noise (w_cs w)) of
                  None \<Rightarrow> Wait buf (on_disconnect_local w)
                | Some (p, n) \<Rightarrow>
                    let h = header_of (take 6 p); w = upd_cs (\<lambda>cs. cs\<lparr>cs_noise := n\<rparr>) w
                    in if \<not> frame_length_ok (hdr_msg_length h) then Wait buf (on_disconnect_local w)
                       else Again (drop 22 buf) (upd_cs (\<lambda>cs. cs\<lparr>cs_sv2_pending_header := Some h\<rparr>) w))
      | Some h \<Rightarrow>
          let need = unat (hdr_msg_length h) + 16
          in if length buf < need then reading (need - length buf) buf w
             else (case (if hdr_msg_length h > 0 then decrypt (ev_crypto E) (take need buf) (cs_noise (w_cs w))
                         else Some ([], cs_noise (w_cs w))) of
                     None \<Rightarrow> Wait buf (on_disconnect_local w)
                   | Some (p, n) \<Rightarrow>
                       let rest = drop need buf;
                           w = upd_cs (\<lambda>cs. cs\<lparr>cs_noise := n, cs_sv2_pending_header := None\<rparr>) w;
                           w = snd (process_message_v2 E h p (set_buffer rest w))
                       in if rest \<noteq> [] then Again rest w else reading 22 [] w))"

lemma step_v2_consumes: "step_v2 E buf w = Again buf' w' \<Longrightarrow> length buf' < length buf"
  by (auto simp: step_v2_def reading_def Let_def split: if_splits option.splits prod.splits)

function process_v2_buffer :: "env \<Rightarrow> bytes \<Rightarrow> world \<Rightarrow> bytes \<times> world" where
  "process_v2_buffer E buf w =
     (case step_v2 E buf w of Wait buf w \<Rightarrow> (buf, w) | Again buf w \<Rightarrow> process_v2_buffer E buf w)"
  by auto
termination by (relation "measure (\<lambda>(E, buf, w). length buf)") (auto dest: step_v2_consumes)

declare process_v2_buffer.simps [simp del]

definition on_read_v2 :: "env \<Rightarrow> bytes option \<Rightarrow> world \<Rightarrow> world" where
  "on_read_v2 E chunk w =
     (case chunk of None \<Rightarrow> on_disconnect_local w
      | Some bs \<Rightarrow>
          let (rest, w) = process_v2_buffer E (cs_sv2_read_buffer (w_cs w) @ bs) w
          in set_buffer rest w)"

section \<open>The handshake\<close>

text \<open>
  The rest of the handshake's first message arrives; a key that is never drawn leaves the session
  waiting.
\<close>

definition on_noise_act1 :: "env \<Rightarrow> u8 \<Rightarrow> bytes option \<Rightarrow> world \<Rightarrow> world" where
  "on_noise_act1 E first chunk w =
     (let C = ev_crypto E; set_noise = (\<lambda>n. upd_cs (\<lambda>cs. cs\<lparr>cs_noise := n\<rparr>) w)
      in case chunk of None \<Rightarrow> on_disconnect_local w
         | Some bs \<Rightarrow>
             (let (draws, aux) = ev_static_draws E
              in case initialize C draws aux (sv2AuthorityKey (cs_coin (w_cs w))) (cs_noise (w_cs w)) of
                   None \<Rightarrow> w
                 | Some (ok, n) \<Rightarrow>
                     if \<not> ok then on_disconnect_local (set_noise n)
                     else let n = process_act1 C (first # bs) n; (draws, aux, sig_aux) = ev_ephemeral_draws E
                       in (case generate_act2 C (ev_unix E) draws aux sig_aux n of
                             None \<Rightarrow> set_noise n
                           | Some (Inl e) \<Rightarrow> on_disconnect_local (set_noise n)
                           | Some (Inr (act2, n)) \<Rightarrow> ask [WriteAct2 act2] (set_noise n))))"

definition on_act2_written :: "bool \<Rightarrow> world \<Rightarrow> world" where
  "on_act2_written failed w =
     (if failed then on_disconnect_local w
      else do_read_v2 22 (upd_cs (\<lambda>cs. cs\<lparr>cs_is_v2 := True, cs_is_v2_encrypted := True\<rparr>) w))"

end
