(* ===== verification/SessionLoop.thy ===== *)
theory SessionLoop
  imports SessionV2
begin

text \<open>
  \<open>src/client_session.cpp\<close>: what happens to a session over time. The events are the completions of
  its asynchronous calls, the tasks posted to its strand, and what others do to the shared state.
\<close>

section \<open>Broadcasts\<close>

text \<open>The task that \<open>notifyNewJob\<close> posts for a broadcast job.\<close>

definition notify_new_job :: "env \<Rightarrow> mining_job \<Rightarrow> world \<Rightarrow> outcome" where
  "notify_new_job E job w =
     (let cs = w_cs w; plain = (if cs_is_v2 cs then emit_job_v2 E job w else emit_job E job False w)
      in if \<not> cs_subscribed cs \<or> cs_closed cs then fine w
         else if aux_enabled job \<and> cs_aux_doge_address cs \<noteq> [] \<and> ev_aux_client E
         then attempt (build_session_aux (ev_fpu E) (ev_sha256 E) (cs_coin cs) (cs_doge_script_hex cs) job) w
                (\<lambda>aux. case aux of None \<Rightarrow> plain
                 | Some s \<Rightarrow>
                     fine (emit_job_custom E job (custom_prefix job s) False
                       (upd_cs (\<lambda>cs. cs\<lparr>cs_aux_jobs := AList.update (mj_job_id job) s
                          (if length (cs_aux_jobs cs) > 256 then [] else cs_aux_jobs cs)\<rparr>) w)))
         else plain)"

section \<open>Events\<close>

text \<open>
  What can happen to a session. The answers of the node come for calls the session made; a broadcast,
  a new template and other sessions' shares come from outside. An exception of a posted task leaves
  the state it reached.
\<close>

datatype session_event =
    FirstByte "char option"
  | TlsHandshake bool
  | Received "string option"
  | Posted
  | Written bool
  | AddressAnswer pending_auth "string option" bool
  | DogeAnswer pending_auth "string option" bool
  | NoiseAct1 u8 "bytes option"
  | Act2Written bool
  | ReceivedV2 "bytes option"
  | PayoutAnswer "string option" bool
  | NewJob mining_job
  | Template u64 json
  | OtherShare string
  | Shutdown
  | ResetCounters
  | Reconnect string string int

definition session_step :: "env \<Rightarrow> session_event \<Rightarrow> world \<Rightarrow> world" where
  "session_step E ev w =
     (case ev of
        FirstByte b \<Rightarrow> on_first_byte b w
      | TlsHandshake failed \<Rightarrow> on_tls_handshake failed w
      | Received chunk \<Rightarrow> on_read_v1 E chunk w
      | Posted \<Rightarrow> run_posted w
      | Written ec \<Rightarrow> on_line_written ec w
      | AddressAnswer p ec valid \<Rightarrow> snd (on_address_validated E p ec valid w)
      | DogeAnswer p ec valid \<Rightarrow> snd (on_doge_validated E p ec valid w)
      | NoiseAct1 first chunk \<Rightarrow> on_noise_act1 E first chunk w
      | Act2Written failed \<Rightarrow> on_act2_written failed w
      | ReceivedV2 chunk \<Rightarrow> on_read_v2 E chunk w
      | PayoutAnswer ec valid \<Rightarrow> on_payout_validated ec valid w
      | NewJob job \<Rightarrow> snd (notify_new_job E job w)
      | Template rng gbt \<Rightarrow>
          (case updateWork (ev_sha256 E) rng gbt (w_strat w) of Inl e \<Rightarrow> w | Inr (s, acts) \<Rightarrow> w\<lparr>w_strat := s\<rparr>)
      | OtherShare fingerprint \<Rightarrow> w\<lparr>w_strat := snd (register_share fingerprint (w_strat w))\<rparr>
      | Shutdown \<Rightarrow> on_disconnect_local w
      | ResetCounters \<Rightarrow> reset_share_counters w
      | Reconnect host port wait \<Rightarrow> request_reconnect E host port wait w)"


end
