(* ===== verification/SessionV2Facts.thy ===== *)
theory SessionV2Facts
  imports SessionFacts SessionLoop Sv2Frames
begin

text \<open>
  What the Stratum V2 half of a session promises: frames are read as they were sent, every
  submission of an open session gets one answer that names it, the work a miner gets is the work its
  shares are checked against, and an accepted share is not remembered.
\<close>

section \<open>Messages\<close>

text \<open>The text queued for a message, and the state of the transport behind it.\<close>

definition v2_line :: "env \<Rightarrow> u8 \<Rightarrow> writer \<Rightarrow> session \<Rightarrow> string \<times> noise" where
  "v2_line E t p cs =
     (let frame = wrap_message EXT_COMMON t p; C = ev_crypto E; n = cs_noise cs;
          seal = (\<lambda>i m. cr_seal C (ns_tx_key n) (transport_nonce (ns_tx_nonce n + i)) [] m)
      in if \<not> cs_is_v2_encrypted cs then (text_of_bytes frame, n)
         else if length frame \<le> 6
         then (text_of_bytes (seal 0 (take 6 frame) @ replicate 16 0), n\<lparr>ns_tx_nonce := ns_tx_nonce n + 1\<rparr>)
         else (text_of_bytes (seal 0 (take 6 frame) @ seal 1 (drop 6 frame)), n\<lparr>ns_tx_nonce := ns_tx_nonce n + 2\<rparr>))"

lemma world_upd_id [simp]: "upd_cs (\<lambda>cs. cs) w = w"
  by (simp add: upd_cs_def)

lemma send_v2_open:
  "\<not> cs_closed (w_cs w) \<Longrightarrow> send_v2_message E t p w =
     send_line (fst (v2_line E t p (w_cs w))) (upd_cs (\<lambda>cs. cs\<lparr>cs_noise := snd (v2_line E t p (w_cs w))\<rparr>) w)"
  by (simp add: send_v2_message_def v2_line_def Let_def encrypt_def upd_cs_def send_line_def add.assoc)

lemma send_v2_closed: "cs_closed (w_cs w) \<Longrightarrow> send_v2_message E t p w = w"
  by (simp add: send_v2_message_def Let_def)

lemma send_v2_tells: "tells w (send_v2_message E t p w)"
proof (cases "cs_closed (w_cs w)")
  case False
  then show ?thesis by (simp add: send_v2_open tells_line identity_def)
qed (simp add: send_v2_closed)

lemma tells_send_v2: "tells w w' \<Longrightarrow> tells w (send_v2_message E t p w')"
  by (rule tells_trans [OF _ send_v2_tells])

lemma send_v2_asks: "w_actions (send_v2_message E t p w) = w_actions w"
  by (cases "cs_closed (w_cs w)") (simp_all add: send_v2_open send_v2_closed)

text \<open>A message changes no more of the session than the transport.\<close>

definition apart_noise :: "session \<Rightarrow> session" where
  "apart_noise cs = cs\<lparr>cs_noise := noise_new\<rparr>"

lemma send_v2_session: "apart_noise (w_cs (send_v2_message E t p w)) = apart_noise (w_cs w)"
  by (cases "cs_closed (w_cs w)") (simp_all add: send_v2_open send_v2_closed apart_noise_def)

lemma send_v2_world [simp]:
  "w_strat (send_v2_message E t p w) = w_strat w" "w_queue (send_v2_message E t p w) = w_queue w"
  "w_limiter (send_v2_message E t p w) = w_limiter w" "w_actions (send_v2_message E t p w) = w_actions w"
  by (cases "cs_closed (w_cs w)"; simp add: send_v2_open send_v2_closed)+

lemma apart_noise_fields:
  assumes "apart_noise cs = apart_noise cs'"
  shows "cs_closed cs = cs_closed cs'" "cs_coin cs = cs_coin cs'" "cs_is_v2_encrypted cs = cs_is_v2_encrypted cs'"
    "cs_shares_accepted cs = cs_shares_accepted cs'" "cs_shares_rejected cs = cs_shares_rejected cs'"
    "cs_sv2_channel_id cs = cs_sv2_channel_id cs'" "cs_worker_script_hex cs = cs_worker_script_hex cs'"
    "cs_extranonce1 cs = cs_extranonce1 cs'" "cs_is_extended_channel cs = cs_is_extended_channel cs'"
    "cs_vardiff cs = cs_vardiff cs'" "cs_last_difficulty cs = cs_last_difficulty cs'"
    "cs_last_difficulty_change cs = cs_last_difficulty_change cs'" "cs_custom_difficulty cs = cs_custom_difficulty cs'"
    "cs_sv2_custom_jobs cs = cs_sv2_custom_jobs cs'" "cs_is_v2 cs = cs_is_v2 cs'" "cs_authorized cs = cs_authorized cs'"
    "cs_worker_address cs = cs_worker_address cs'" "cs_worker_name cs = cs_worker_name cs'"
  using assms unfolding apart_noise_def by (cases cs; cases cs'; simp)+

lemmas send_v2_fields [simp] = apart_noise_fields [OF send_v2_session]

lemma emit_job_v2_tells: "emit_job_v2 E job w = (e, w') \<Longrightarrow> tells w w'"
  by (auto simp: emit_job_v2_def elim!: and_then_cases attempt_cases split: if_splits
      intro: tells_send_v2 send_v2_tells)

lemma set_target_tells: "tells w (send_set_target E d old w)"
  by (simp add: send_set_target_def Let_def tells_send_v2 tells_upd identity_def)

lemma retarget_tells: "tells w (retarget_v2 E b t n w)"
  unfolding retarget_v2_def Let_def
  by (auto simp del: world_simps intro: tells_vardiff tells_trans [OF tells_vardiff set_target_tells]
      split: option.splits prod.splits)

lemma persist_v2_asks: "asks w (persist_share_v2 i n x c t w)"
  by (auto simp: persist_share_v2_def Let_def harmless_def simp del: world_simps intro!: asks_ask)

lemma submit_sv2_asks: "submit_block_sv2 E b c w = (e, w') \<Longrightarrow> asks w w'"
  by (auto simp: submit_block_sv2_def Let_def elim!: and_then_cases dest: ipc_asks
      intro: asks_trans [OF _ asks_ask] simp: harmless_def split: if_splits)

section \<open>Reading frames\<close>

text \<open>Reads complete one after the other, each with the clocks it sees.\<close>

definition run_reads :: "env list \<Rightarrow> bytes list \<Rightarrow> world \<Rightarrow> world" where
  "run_reads Es chunks w = fold (\<lambda>(E, c). on_read_v2 E (Some c)) (zip Es chunks) w"

text \<open>The pieces in which a session reads so many bytes.\<close>

function pieces :: "bytes \<Rightarrow> bytes list" where
  "pieces p = (if p = [] then [] else take 4096 p # pieces (drop 4096 p))"
  by auto
termination by (relation "measure length") auto

declare pieces.simps [simp del]

lemma pieces_Nil [simp]: "pieces [] = []"
  by (simp add: pieces.simps)

lemma pieces_Cons: "p \<noteq> [] \<Longrightarrow> pieces p = take 4096 p # pieces (drop 4096 p)"
  by (simp add: pieces.simps)

lemma concat_pieces: "concat (pieces p) = p"
proof (induction p rule: pieces.induct)
  case (1 p)
  then show ?case by (cases "p = []") (simp_all add: pieces_Cons)
qed

lemma pieces_short: "\<forall>c \<in> set (pieces p). c \<noteq> [] \<and> length c \<le> 4096"
proof (induction p rule: pieces.induct)
  case (1 p)
  show ?case
  proof (cases "p = []")
    case False
    with 1 show ?thesis unfolding pieces_Cons [OF False] by simp
  qed simp
qed

definition read_asks :: "bytes \<Rightarrow> action list" where
  "read_asks p = map (\<lambda>c. StartReadV2 (length c)) (pieces p)"

lemma world_upd_upd [simp]:
  "set_buffer b (set_buffer b' w) = set_buffer b w" "ask as (set_buffer b w) = set_buffer b (ask as w)"
  "ask bs (ask as w) = ask (as @ bs) w" "ask [] w = w"
  "w_cs (set_buffer b w) = (w_cs w)\<lparr>cs_sv2_read_buffer := b\<rparr>"
  by (simp_all add: set_buffer_def upd_cs_def ask_def)

text \<open>A plain connection that waits for the rest of a frame whose first bytes are buffered.\<close>

definition plain_open :: "world \<Rightarrow> bool" where
  "plain_open w \<longleftrightarrow> \<not> cs_closed (w_cs w) \<and> \<not> cs_is_v2_encrypted (w_cs w)"

lemma plain_open_simps [simp]: "plain_open (set_buffer b w) = plain_open w" "plain_open (ask as w) = plain_open w"
  by (simp_all add: plain_open_def)

lemma do_read_open: "plain_open w \<Longrightarrow> n \<noteq> 0 \<Longrightarrow> do_read_v2 n w = ask [StartReadV2 (min n 4096)] w"
  by (simp add: do_read_v2_def plain_open_def)

definition frame_bytes :: "header \<Rightarrow> bytes \<Rightarrow> bytes" where
  "frame_bytes h p = enc header_serialize h @ p"

definition fits :: "header \<Rightarrow> bytes \<Rightarrow> bool" where
  "fits h p \<longleftrightarrow> length p \<le> 65519 \<and> unat (hdr_msg_length h) = length p"

lemma header_bytes [simp]: "length (enc header_serialize h @ q) = 6 + length q" "take 6 (enc header_serialize h @ q) = enc header_serialize h"
  "drop 6 (enc header_serialize h @ q) = q"
  by simp_all

lemma header_of_enc: "fits h p \<Longrightarrow> header_of (enc header_serialize h) = h"
proof -
  assume f: "fits h p"
  then have "header_valid h" by (simp add: header_valid_def fits_def)
  then have "reads_as header_deserialize (enc header_serialize h) h" by (rule header.get_put)
  then show ?thesis
    by (simp add: header_of_def payload_of_def reads_as_def new_reader_def unread_def)
qed

lemma fits_ok: "fits h p \<Longrightarrow> frame_length_ok (hdr_msg_length h)"
  by (simp add: fits_def frame_length_ok_def MAX_MSG_LENGTH_def word_le_nat_alt)

lemma step_partial:
  assumes "fits h p" "plain_open w" "p = q @ r" "r \<noteq> []"
  shows "step_v2 E (enc header_serialize h @ q) w = reading (length r) (enc header_serialize h @ q) w"
proof -
  have "unat (hdr_msg_length h) = length q + length r" using assms(1,3) by (simp add: fits_def)
  then show ?thesis using assms(2,4)
    unfolding step_v2_def Let_def header_bytes header_of_enc [OF assms(1)] by (simp add: plain_open_def fits_ok [OF assms(1)])
qed

lemma step_complete:
  assumes "fits h p" "plain_open w"
  shows "step_v2 E (enc header_serialize h @ p) w = reading 6 [] (snd (process_message_v2 E h p (set_buffer [] w)))"
proof -
  have "unat (hdr_msg_length h) = length p" using assms(1) by (simp add: fits_def)
  moreover have "drop (6 + length p) (enc header_serialize h @ p) = []" by simp
  ultimately show ?thesis using assms(2)
    unfolding step_v2_def Let_def header_bytes header_of_enc [OF assms(1)] by (simp add: plain_open_def fits_ok [OF assms(1)])
qed

text \<open>A frame that arrived is handled by the clocks of the last read, and the next one is waited for.\<close>

definition frame_done :: "env \<Rightarrow> header \<Rightarrow> bytes \<Rightarrow> world \<Rightarrow> world" where
  "frame_done E h p w = set_buffer [] (do_read_v2 6 (snd (process_message_v2 E h p (set_buffer [] w))))"

lemma read_wait:
  assumes "step_v2 E (b @ c) (set_buffer b w) = reading n b' w'"
  shows "on_read_v2 E (Some c) (set_buffer b w) = set_buffer b' (do_read_v2 n w')"
  using assms by (simp add: on_read_v2_def process_v2_buffer.simps reading_def)

lemma read_rest:
  assumes "fits h p" "plain_open w" "p = q @ r" "r \<noteq> []" "length Es = length (pieces r)"
  shows "run_reads Es (pieces r) (set_buffer (enc header_serialize h @ q) w) = frame_done (last Es) h p (ask (tl (read_asks r)) w)"
  using assms(2-)
proof (induction r arbitrary: q w Es rule: pieces.induct)
  case (1 r)
  let ?hdr = "enc header_serialize h" and ?c = "take 4096 r" and ?r = "drop 4096 r"
  from 1(4,5) obtain E Es' where Es: "Es = E # Es'" "length Es' = length (pieces ?r)"
    by (cases Es) (auto simp: pieces_Cons)
  have one: "run_reads Es (pieces r) w' = run_reads Es' (pieces ?r) (on_read_v2 E (Some ?c) w')" for w'
    using 1(4) by (simp add: run_reads_def pieces_Cons Es)
  show ?case
  proof (cases "?r = []")
    case True
    then have "p = q @ ?c" using 1(3) by simp
    with step_complete [OF assms(1), of "set_buffer (?hdr @ q) w" E] 1(2)
    have "step_v2 E ((?hdr @ q) @ ?c) (set_buffer (?hdr @ q) w) = reading 6 [] (snd (process_message_v2 E h p (set_buffer [] w)))"
      by simp
    from read_wait [OF this] show ?thesis
      using True 1(4) Es unfolding one by (simp add: run_reads_def frame_done_def read_asks_def pieces_Cons)
  next
    case False
    then have p: "p = (q @ ?c) @ ?r" using 1(3) by simp
    from step_partial [OF assms(1) _ p False, of "set_buffer (?hdr @ q) w" E] 1(2)
    have "step_v2 E ((?hdr @ q) @ ?c) (set_buffer (?hdr @ q) w) = reading (length ?r) (?hdr @ q @ ?c) (set_buffer (?hdr @ q) w)"
      by simp
    from read_wait [OF this] 1(2) False
    have "on_read_v2 E (Some ?c) (set_buffer (?hdr @ q) w) = set_buffer (?hdr @ q @ ?c) (ask [StartReadV2 (min (length ?r) 4096)] w)"
      by (simp add: do_read_open)
    moreover have "run_reads Es' (pieces ?r) (set_buffer (?hdr @ q @ ?c) (ask [StartReadV2 (min (length ?r) 4096)] w)) =
        frame_done (last Es') h p (ask (tl (read_asks ?r)) (ask [StartReadV2 (min (length ?r) 4096)] w))"
      using 1(1) [OF 1(4), of "ask [StartReadV2 (min (length ?r) 4096)] w" "q @ ?c" Es'] 1(2) p False Es(2) by simp
    moreover have "read_asks r = StartReadV2 (length ?c) # StartReadV2 (min (length ?r) 4096) # tl (read_asks ?r)"
      using 1(4) False by (simp add: read_asks_def pieces_Cons)
    moreover have "last Es = last Es'" using Es False by (auto simp: pieces_Cons)
    ultimately show ?thesis by (simp add: one)
  qed
qed

lemma read_frame:
  assumes "fits h p" "plain_open w" "length Es = Suc (length (pieces p))"
  shows "run_reads Es (enc header_serialize h # pieces p) (set_buffer [] w) = frame_done (last Es) h p (ask (read_asks p) w)"
proof -
  let ?hdr = "enc header_serialize h"
  from assms(3) obtain E Es' where Es: "Es = E # Es'" "length Es' = length (pieces p)" by (cases Es) auto
  have one: "run_reads Es (?hdr # pieces p) (set_buffer [] w) = run_reads Es' (pieces p) (on_read_v2 E (Some ?hdr) (set_buffer [] w))"
    by (simp add: run_reads_def Es)
  show ?thesis
  proof (cases "p = []")
    case True
    from step_complete [OF assms(1), of "set_buffer [] w" E] assms(2) True
    have "step_v2 E ([] @ ?hdr) (set_buffer [] w) = reading 6 [] (snd (process_message_v2 E h p (set_buffer [] w)))" by simp
    from read_wait [OF this] True Es show ?thesis unfolding one by (simp add: run_reads_def frame_done_def read_asks_def)
  next
    case False
    from step_partial [OF assms(1), of "set_buffer [] w" "[]" p E] assms(2) False
    have "step_v2 E ([] @ ?hdr) (set_buffer [] w) = reading (length p) ?hdr (set_buffer [] w)" by simp
    from read_wait [OF this] assms(2) False
    have "on_read_v2 E (Some ?hdr) (set_buffer [] w) = set_buffer (?hdr @ []) (ask [StartReadV2 (min (length p) 4096)] w)"
      by (simp add: do_read_open)
    moreover have "run_reads Es' (pieces p) (set_buffer (?hdr @ []) (ask [StartReadV2 (min (length p) 4096)] w)) =
        frame_done (last Es') h p (ask (tl (read_asks p)) (ask [StartReadV2 (min (length p) 4096)] w))"
      by (rule read_rest [OF assms(1)]) (use assms(2) False Es in simp_all)
    moreover have "read_asks p = StartReadV2 (min (length p) 4096) # tl (read_asks p)" "last Es = last Es'"
      using False Es by (auto simp: read_asks_def pieces_Cons)
    ultimately show ?thesis unfolding one by simp
  qed
qed


text \<open>A list of frames, each with the clocks of the reads that bring it, and what the session makes of it.\<close>

type_synonym timed_frame = "env list \<times> header \<times> bytes"

definition frame_chunks :: "timed_frame \<Rightarrow> bytes list" where
  "frame_chunks = (\<lambda>(Es, h, p). enc header_serialize h # pieces p)"

definition take_frame :: "timed_frame \<Rightarrow> world \<Rightarrow> world" where
  "take_frame = (\<lambda>(Es, h, p) w. frame_done (last Es) h p (ask (read_asks p) w))"

primrec framed :: "timed_frame list \<Rightarrow> world \<Rightarrow> bool" where
  "framed [] w = True"
| "framed (f # fs) w = ((case f of (Es, h, p) \<Rightarrow> fits h p \<and> length Es = Suc (length (pieces p)))
     \<and> plain_open w \<and> framed fs (take_frame f w))"

lemma run_reads_append:
  "length Es = length cs \<Longrightarrow> run_reads (Es @ Es') (cs @ cs') w = run_reads Es' cs' (run_reads Es cs w)"
  by (simp add: run_reads_def)

lemma buffer_same: "cs_sv2_read_buffer (w_cs w) = b \<Longrightarrow> set_buffer b w = w"
  by (cases w) (auto simp: set_buffer_def upd_cs_def)

lemma take_frame_buffer [simp]: "set_buffer [] (take_frame f w) = take_frame f w"
  by (simp add: take_frame_def frame_done_def split: prod.split)

text \<open>
  C9. Reading of Stratum V2 frames: on a plain connection whatever frames a miner sends, of up to
  65519 payload bytes each, the session asks for exactly the bytes that are still missing, header
  first, then the payload in pieces of at most 4096 bytes, and hands every frame to its handler
  exactly once, with its own header and payload, in the order sent, and at the clocks of its last
  read; nothing of a frame stays buffered. The bytes arrive as the session asks for them, each read
  with clocks of its own, and the session is open before each frame.
\<close>

theorem v2_frames_read:
  assumes "framed fs w" "cs_sv2_read_buffer (w_cs w) = []"
  shows "run_reads (concat (map fst fs)) (concat (map frame_chunks fs)) w = fold take_frame fs w"
proof -
  have "framed fs w \<Longrightarrow> run_reads (concat (map fst fs)) (concat (map frame_chunks fs)) (set_buffer [] w) =
      fold take_frame fs (set_buffer [] w)" for w
  proof (induction fs arbitrary: w)
    case (Cons f fs)
    obtain Es h p where f: "f = (Es, h, p)" by (cases f)
    from Cons.prems have now: "fits h p" "plain_open w" "length Es = Suc (length (pieces p))" and
      "framed fs (take_frame f w)" by (simp_all add: f)
    with Cons.IH [of "take_frame f w"]
    have later: "run_reads (concat (map fst fs)) (concat (map frame_chunks fs)) (take_frame f w) = fold take_frame fs (take_frame f w)"
      by simp
    have same: "take_frame f (set_buffer [] w) = take_frame f w"
      by (simp add: f take_frame_def frame_done_def)
    have "length Es = length (frame_chunks f)" using now(3) by (simp add: f frame_chunks_def)
    from run_reads_append [OF this] read_frame [OF now] later same show ?case
      by (simp add: f frame_chunks_def take_frame_def)
  qed (simp add: run_reads_def)
  from this [OF assms(1)] show ?thesis by (simp add: buffer_same [OF assms(2)])
qed

definition sample_frame :: timed_frame where
  "sample_frame = (replicate 3 sample_env, \<lparr>hdr_extension_type = 0, hdr_msg_type = 0x7f, hdr_msg_length = 5000\<rparr>, replicate 5000 7)"

theorem v2_frames_read_witness:
  "run_reads (replicate 6 sample_env) (frame_chunks sample_frame @ frame_chunks sample_frame) sample_world =
     take_frame sample_frame (take_frame sample_frame sample_world)"
proof -
  have open_now: "plain_open sample_world" "cs_sv2_read_buffer (w_cs sample_world) = []"
    by (simp_all add: plain_open_def sample_world_def sample_session_def session_new_def)
  have "take_frame sample_frame w = set_buffer [] (do_read_v2 6 (set_buffer [] (ask (read_asks (replicate 5000 7)) w)))" for w
    by (simp add: take_frame_def frame_done_def sample_frame_def process_message_v2_def MSG_SETUP_CONNECTION_def
        MSG_OPEN_STANDARD_MINING_CHANNEL_def MSG_OPEN_EXTENDED_MINING_CHANNEL_def MSG_UPDATE_CHANNEL_def
        MSG_SUBMIT_SHARES_STANDARD_def MSG_SUBMIT_SHARES_EXTENDED_def MSG_SET_CUSTOM_MINING_JOB_def MSG_CLOSE_CHANNEL_def
        fine_def)
  then have still: "plain_open (take_frame sample_frame w) = plain_open w" for w
    by (simp add: plain_open_def do_read_v2_def)
  have "length (pieces (replicate 5000 (7::u8))) = 2"
    by (simp add: pieces_Cons)
  then have ok: "framed [sample_frame, sample_frame] sample_world"
    using open_now by (simp add: sample_frame_def fits_def still [unfolded sample_frame_def])
  have "concat (map fst [sample_frame, sample_frame]) = replicate 6 sample_env"
    by (simp add: sample_frame_def numeral_eq_Suc)
  with v2_frames_read [OF ok open_now(2)] show ?thesis by simp
qed


section \<open>Submissions\<close>

text \<open>The text of a message that an open session posts; a closed one posts none.\<close>

definition v2_told :: "env \<Rightarrow> u8 \<Rightarrow> writer \<Rightarrow> session \<Rightarrow> string list" where
  "v2_told E t p cs = (if cs_closed cs then [] else [fst (v2_line E t p cs)])"

lemma send_v2_posted: "w_posted (send_v2_message E t p w) = w_posted w @ v2_told E t p (w_cs w)"
  by (cases "cs_closed (w_cs w)") (simp_all add: send_v2_open send_v2_closed v2_told_def)

definition v2_counted :: "env \<Rightarrow> u32 \<Rightarrow> world \<Rightarrow> world \<Rightarrow> bool" where
  "v2_counted E seq w w' \<longleftrightarrow>
     (\<exists>rest. w_posted w' = w_posted w @ v2_told E MSG_SUBMIT_SHARES_SUCCESS
         (submit_shares_success_serialize \<lparr>ssok_channel_id = cs_sv2_channel_id (w_cs w),
            ssok_last_sequence_number = seq, ssok_new_submits_accepted_count = 1, ssok_new_shares_sum = 1\<rparr> new_writer)
         (w_cs w) @ rest) \<and>
     cs_shares_accepted (w_cs w') = cs_shares_accepted (w_cs w) + 1 \<and>
     cs_shares_rejected (w_cs w') = cs_shares_rejected (w_cs w)"

definition v2_refused :: "env \<Rightarrow> u32 \<Rightarrow> string \<Rightarrow> world \<Rightarrow> world \<Rightarrow> bool" where
  "v2_refused E seq code w w' \<longleftrightarrow>
     w_posted w' = w_posted w @ v2_told E MSG_SUBMIT_SHARES_ERROR
       (submit_shares_error_serialize \<lparr>sserr_channel_id = cs_sv2_channel_id (w_cs w),
          sserr_sequence_number = seq, sserr_error_code = code\<rparr> new_writer) (w_cs w) \<and>
     cs_shares_accepted (w_cs w') = cs_shares_accepted (w_cs w) \<and>
     cs_shares_rejected (w_cs w') = cs_shares_rejected (w_cs w) + 1"

lemma submit_sv2_keeps: "submit_block_sv2 E b c w = (e, w') \<Longrightarrow> w_cs w' = w_cs w \<and> w_posted w' = w_posted w"
  by (auto simp: submit_block_sv2_def ipc_submit_best_effort_def Let_def elim!: and_then_cases attempt_cases split: if_splits)

lemma rescue_keeps: "rescue_block_v2 E b c w = (e, w') \<Longrightarrow> w_cs w' = w_cs w \<and> w_posted w' = w_posted w"
  by (auto simp: rescue_block_v2_def Let_def dest!: submit_sv2_keeps split: if_splits prod.splits)

lemma reject_v2_ends:
  assumes "w_cs w' = w_cs w \<and> w_posted w' = w_posted w"
  shows "v2_refused E seq code w (reject_v2 E seq code w')"
  using assms by (simp add: reject_v2_def v2_refused_def send_v2_posted)

text \<open>What follows an acceptance adds lines and moves no counter.\<close>

definition settles_v2 :: "env \<Rightarrow> bool \<Rightarrow> u32 \<Rightarrow> u32 \<Rightarrow> u32 \<Rightarrow> string \<Rightarrow> v2_candidate \<Rightarrow> rat \<Rightarrow> rat \<Rightarrow> world \<Rightarrow> world" where
  "settles_v2 E enabled job_id nonce seq en2 c target net w =
     persist_share_v2 job_id nonce en2 c target (retarget_v2 E enabled target net (accept_share_v2 E seq (vc_share_diff c) w))"

lemma accept_v2_fields:
  "cs_shares_accepted (w_cs (accept_share_v2 E seq d w)) = cs_shares_accepted (w_cs w) + 1"
  "cs_shares_rejected (w_cs (accept_share_v2 E seq d w)) = cs_shares_rejected (w_cs w)"
  "w_posted (accept_share_v2 E seq d w) = w_posted w @ v2_told E MSG_SUBMIT_SHARES_SUCCESS
     (submit_shares_success_serialize \<lparr>ssok_channel_id = cs_sv2_channel_id (w_cs w),
        ssok_last_sequence_number = seq, ssok_new_submits_accepted_count = 1, ssok_new_shares_sum = 1\<rparr> new_writer) (w_cs w)"
  "sf_seen_shares (w_strat (accept_share_v2 E seq d w)) = sf_seen_shares (w_strat w)"
  by (simp_all add: accept_share_v2_def note_accepted_share_def note_share_diff_def Let_def send_v2_posted)

lemma settles_v2_tells: "tells (accept_share_v2 E seq (vc_share_diff c) w) (settles_v2 E b j n seq x c t d w)"
  unfolding settles_v2_def by (rule tells_trans [OF retarget_tells asks_tells [OF persist_v2_asks]])

lemma settles_v2_ends:
  assumes "w_cs w' = w_cs w \<and> w_posted w' = w_posted w"
  shows "v2_counted E seq w (settles_v2 E b j n seq x c t d w')"
  using settles_v2_tells [of E seq c w' b j n x t d] assms
  by (auto simp: tells_def identity_def v2_counted_def accept_v2_fields)


text \<open>The verdict on a share that could be judged; \<open>late\<close> is the time check.\<close>

definition verdict_v2 :: "env \<Rightarrow> u32 \<Rightarrow> bool \<Rightarrow> bool \<Rightarrow> (world \<Rightarrow> world) \<Rightarrow> world \<Rightarrow> world" where
  "verdict_v2 E seq easy late settled w =
     (if easy then reject_v2 E seq ''difficulty-too-low'' w
      else if late then reject_v2 E seq ''time-too-old-or-new'' w else settled w)"

definition standard_verdict :: "env \<Rightarrow> submit_shares_standard \<Rightarrow> v2_candidate \<Rightarrow> world \<Rightarrow> world" where
  "standard_verdict E m c w =
     (let F = ev_fpu E; cs = w_cs w; tol = rnd_d F (99 / 100); target = target_diff_v2 E cs 40 (rnd_d F (cs_last_difficulty cs * tol)) (vc_share_diff c)
      in verdict_v2 E (sss_sequence_number m) (vc_share_diff c < rnd_d F (target * tol)) False
           (settles_v2 E (st_vardiffEnabled (activeTier (cs_coin cs))) (sss_job_id m) (sss_nonce m)
              (sss_sequence_number m) ''0000000000000000'' c target 0) w)"

definition extended_verdict :: "env \<Rightarrow> submit_shares_extended \<Rightarrow> v2_candidate \<Rightarrow> world \<Rightarrow> world" where
  "extended_verdict E m c w =
     (let F = ev_fpu E; cs = w_cs w; target = target_diff_v2 E cs 15 (cs_last_difficulty cs) (vc_share_diff c)
      in verdict_v2 E (sse_sequence_number m) (vc_share_diff c < target)
           (case vw_job (vc_work c) of Some job \<Rightarrow> \<not> valid_ntime (sse_ntime m) (mj_mintime job) (ev_unix E) 7200 | None \<Rightarrow> False)
           (settles_v2 E (st_vardiffEnabled (activeTier (cs_coin cs)) \<and> cs_custom_difficulty cs = None) (sse_job_id m)
              (sse_nonce m) (sse_sequence_number m) (bytes_to_hex (sse_extranonce m)) c target
              (difficulty_of F (chain_of cs) (vc_net_target c))) w)"

lemma judge_work: "judge_v2 E chain wk = Inr c \<Longrightarrow> vc_work c = wk"
  by (auto simp: judge_v2_def bind_res_Inr_iff)

text \<open>How a share is processed on either kind of channel.\<close>

definition process_share_v2 ::
    "env \<Rightarrow> u32 \<Rightarrow> bool \<Rightarrow> v2_work option result \<Rightarrow> (v2_candidate \<Rightarrow> world \<Rightarrow> world) \<Rightarrow> world \<Rightarrow> outcome" where
  "process_share_v2 E seq empty_block found verdict w =
     attempt found w (\<lambda>work. case work of
        None \<Rightarrow> fine (reject_v2 E seq ''stale-share'' w)
      | Some wk \<Rightarrow> attempt (judge_v2 E (chain_of (w_cs w)) wk) w (\<lambda>c.
          and_then (rescue_block_v2 E empty_block c w) (\<lambda>w. fine (verdict c w))))"

lemma rescue_chain: "rescue_block_v2 E b c w = (e, w') \<Longrightarrow> w_cs w' = w_cs w"
  by (simp add: rescue_keeps)

lemma and_then_cong: "(\<And>w'. oc = (None, w') \<Longrightarrow> f w' = g w') \<Longrightarrow> and_then oc f = and_then oc g"
  by (cases oc; cases "fst oc") auto

lemma attempt_cong: "(\<And>x. r = Inr x \<Longrightarrow> f x = g x) \<Longrightarrow> attempt r w f = attempt r w g"
  by (cases r) simp_all

lemma case_option_cong: "n = n' \<Longrightarrow> (\<And>x. f x = g x) \<Longrightarrow> case_option n f y = case_option n' g y"
  by (cases y) simp_all

lemmas share_congs = attempt_cong and_then_cong case_option_cong

lemma standard_share: "handle_submit_standard_v2 E m w =
    process_share_v2 E (sss_sequence_number m) (stratumV2EmptyBlocks (cs_coin (w_cs w)))
      (standard_share_work E (w_cs w) (w_strat w) m) (standard_verdict E m) w"
  unfolding handle_submit_standard_v2_def process_share_v2_def Let_def
  by (intro share_congs refl)
    (simp add: standard_verdict_def verdict_v2_def settles_v2_def Let_def)

lemma extended_share:
  assumes "\<not> cs_closed (w_cs w)"
  shows "handle_submit_extended_v2 E m w =
    process_share_v2 E (sse_sequence_number m) False
      (extended_share_work E (w_cs w) (w_strat w) m) (extended_verdict E m) w"
  unfolding handle_submit_extended_v2_def process_share_v2_def Let_def if_not_P [OF assms]
  by (intro share_congs refl, drule judge_work, drule rescue_chain)
    (simp add: extended_verdict_def verdict_v2_def settles_v2_def Let_def)

lemma process_share_cases:
  assumes "process_share_v2 E seq b found verdict w = (e, w')"
  obtains (failed) x where "e = Some x" "w_cs w' = w_cs w \<and> w_posted w' = w_posted w"
  | (stale) "e = None" "found = Inr None" "w' = reject_v2 E seq ''stale-share'' w"
  | (judged) wk c w1 where "e = None" "found = Inr (Some wk)" "judge_v2 E (chain_of (w_cs w)) wk = Inr c"
      "rescue_block_v2 E b c w = (None, w1)" "w' = verdict c w1"
proof -
  from assms have "attempt found w (\<lambda>work. case work of
        None \<Rightarrow> fine (reject_v2 E seq ''stale-share'' w)
      | Some wk \<Rightarrow> attempt (judge_v2 E (chain_of (w_cs w)) wk) w (\<lambda>c.
          and_then (rescue_block_v2 E b c w) (\<lambda>w. fine (verdict c w)))) = (e, w')"
    by (simp add: process_share_v2_def)
  then show thesis
  proof (cases rule: attempt_cases)
    case (failed x)
    then show thesis using that(1) by simp
  next
    case (passed work)
    show thesis
    proof (cases work)
      case None
      then show thesis using passed that(2) by simp
    next
      case (Some wk)
      with passed(2) have "attempt (judge_v2 E (chain_of (w_cs w)) wk) w (\<lambda>c.
          and_then (rescue_block_v2 E b c w) (\<lambda>w. fine (verdict c w))) = (e, w')" by simp
      then show thesis
      proof (cases rule: attempt_cases)
        case (failed x)
        then show thesis using that(1) by simp
      next
        case c: (passed c)
        from c(2) show thesis
        proof (cases rule: and_then_cases)
          case (failed x)
          show thesis by (rule that(1) [OF failed(2) rescue_keeps [OF failed(1)]])
        next
          case (passed w1)
          then show thesis using that(3) [of wk c w1] Some \<open>found = Inr work\<close> c(1) by simp
        qed
      qed
    qed
  qed
qed

lemma verdict_ends:
  assumes "w_cs w' = w_cs w \<and> w_posted w' = w_posted w"
  shows "verdict_v2 E seq easy late (settles_v2 E b j n seq x c t d) w' = w'' \<Longrightarrow>
    v2_counted E seq w w'' \<or> (\<exists>code \<in> {''difficulty-too-low'', ''time-too-old-or-new''}. v2_refused E seq code w w'')"
  using reject_v2_ends [OF assms] settles_v2_ends [OF assms] by (auto simp: verdict_v2_def)

lemma process_share_ends:
  assumes "process_share_v2 E seq b found verdict w = (e, w')"
    and "\<And>c w'. \<exists>easy late e j n x t d. verdict c w' = verdict_v2 E seq easy late (settles_v2 E e j n seq x c t d) w'"
  shows "case e of None \<Rightarrow> v2_counted E seq w w' \<or>
      (\<exists>code \<in> {''stale-share'', ''difficulty-too-low'', ''time-too-old-or-new''}. v2_refused E seq code w w')
    | Some _ \<Rightarrow> untouched w w'"
  using assms(1)
proof (cases rule: process_share_cases)
  case failed
  then show ?thesis by (simp add: untouched_def)
next
  case stale
  then show ?thesis using reject_v2_ends [of w w] by simp
next
  case (judged wk c w1)
  from assms(2) obtain easy late e' j n x t d where
    "verdict c w1 = verdict_v2 E seq easy late (settles_v2 E e' j n seq x c t d) w1" by blast
  with verdict_ends [OF rescue_keeps [OF judged(4)]] judged(1,5) show ?thesis by fastforce
qed


section \<open>Properties of a submission\<close>

definition v2_verdict :: "env \<Rightarrow> u32 \<Rightarrow> world \<Rightarrow> outcome \<Rightarrow> bool" where
  "v2_verdict E seq w oc =
     (case oc of (None, w') \<Rightarrow> v2_counted E seq w w' \<or>
        (\<exists>code \<in> {''stale-share'', ''difficulty-too-low'', ''time-too-old-or-new''}. v2_refused E seq code w w')
      | (Some _, w') \<Rightarrow> untouched w w')"

lemma process_share_verdict:
  assumes "\<And>c w'. \<exists>easy late e j n x t d. verdict c w' = verdict_v2 E seq easy late (settles_v2 E e j n seq x c t d) w'"
  shows "v2_verdict E seq w (process_share_v2 E seq b found verdict w)"
  using process_share_ends [OF surjective_pairing [of "process_share_v2 E seq b found verdict w"] assms]
  unfolding v2_verdict_def case_prod_beta .

text \<open>
  C7. Every Stratum V2 submission gets one verdict on its own sequence number: either the success
  message for the session's channel is the first text posted and the accepted counter goes up by
  one, or one error message with one of three codes is posted and the rejected counter goes up by
  one, and the other counter stays; an exception comes before any verdict and then nothing is
  posted or counted, so the miner is not answered. A closed session posts nothing, and takes no
  submission on an extended channel.
\<close>

theorem v2_submit_verdict:
  "v2_verdict E (sss_sequence_number m) w (handle_submit_standard_v2 E m w) \<and>
   (if cs_closed (w_cs w) then handle_submit_extended_v2 E x w = (None, w)
    else v2_verdict E (sse_sequence_number x) w (handle_submit_extended_v2 E x w))"
proof -
  have "v2_verdict E (sss_sequence_number m) w (handle_submit_standard_v2 E m w)"
    unfolding standard_share by (rule process_share_verdict, unfold standard_verdict_def Let_def, intro exI) (rule refl)
  moreover have "v2_verdict E (sse_sequence_number x) w (handle_submit_extended_v2 E x w)" if "\<not> cs_closed (w_cs w)"
    unfolding extended_share [OF that]
    by (rule process_share_verdict, unfold extended_verdict_def Let_def, intro exI) (rule refl)
  ultimately show ?thesis by (simp add: handle_submit_extended_v2_def)
qed

section \<open>The work a miner was told\<close>

text \<open>The block header a miner hashes, from the messages it got.\<close>

definition miner_header :: "u32 \<Rightarrow> set_new_prev_hash \<Rightarrow> bytes \<Rightarrow> u32 \<Rightarrow> u32 \<Rightarrow> bytes" where
  "miner_header version tip mroot ntime nonce =
     le_bytes 4 version @ snp_prev_hash tip @ mroot @ le_bytes 4 ntime @ le_bytes 4 (snp_nbits tip) @ le_bytes 4 nonce"

definition fold_path :: "(bytes \<Rightarrow> bytes) \<Rightarrow> bytes list \<Rightarrow> bytes \<Rightarrow> bytes" where
  "fold_path sha256 path txid = foldl (\<lambda>r s. sha256d sha256 (r @ s)) txid path"

lemma from_hex_Inr: "from_hex s = Inr bs \<longleftrightarrow> hex_to_bytes s = Inr bs"
  by (auto simp: from_hex_def hex_to_bytes_def split: sum.splits)

lemma fold_branch_path:
  "map_res hex_to_bytes branch = Inr path \<Longrightarrow> \<forall>h \<in> set branch. length h = 64 \<Longrightarrow>
     fold_branch sha256 cur branch = Inr (fold_path sha256 (filter (\<lambda>h. length h = 32) path) cur)"
proof (induction branch arbitrary: cur path)
  case (Cons h branch)
  then obtain b bs where b: "hex_to_bytes h = Inr b" "map_res hex_to_bytes branch = Inr bs" "path = b # bs"
    by (auto simp: bind_res_Inr_iff)
  then have "length b = 32" "from_hex h = Inr b"
    using Cons.prems(2) hex_to_bytes_length [of h b] by (auto simp: from_hex_Inr)
  with b(2,3) Cons show ?case by (simp add: fold_path_def)
qed (simp add: fold_path_def)

lemma fold_path_length:
  assumes "\<And>x. length (sha256 x) = 32"
  shows "length txid = 32 \<Longrightarrow> length (fold_path sha256 path txid) = 32"
  by (induction path arbitrary: txid) (simp_all add: fold_path_def sha256d_def assms)

lemma byte_high: "\<not> bit (x :: u8) (8 + n)" "\<not> bit (x :: u8) (16 + n)" "\<not> bit (x :: u8) (24 + n)"
  by (auto dest: bit_imp_le_length)

lemma nbits_bytes:
  assumes "length bits = 4"
  shows "le_bytes 4 (nbits_of (bytes_to_hex bits)) = rev bits"
proof -
  from assms obtain a b c d where "bits = [a, b, c, d]"
    by (auto simp: length_Suc_conv numeral_eq_Suc)
  moreover have "nbits_of (bytes_to_hex [a, b, c, d]) =
      push_bit 24 (ucast a) OR push_bit 16 (ucast b) OR push_bit 8 (ucast c) OR ucast d"
    unfolding nbits_of_def hex_to_bytes_to_hex by simp
  moreover have "[0..<4] = [0, 1, 2, 3]" by (simp add: upt_rec)
  ultimately show ?thesis
    by (simp add: le_bytes_def del: bytes_to_hex_simps) (auto simp: bit_simps byte_high intro!: bit_word_eqI)
qed


lemma coinbase_text:
  assumes "hex_to_bytes a = Inr as" "hex_to_bytes b = Inr bs" "hex_to_bytes c = Inr cs"
  shows "hex_to_bytes (rebuild_coinbase a c b) = Inr (as @ bs @ cs)"
  using hex_text_append [of a as "b @ c" "bs @ cs"] hex_text_append [of b bs c cs] assms
  by (simp add: hex_text_def rebuild_coinbase_def)

lemma header_text:
  assumes "mj_previousblockhash job = bytes_to_hex ph" "length ph = 32" "mj_bits job = bytes_to_hex bits" "length bits = 4"
    and "new_tip cs job = Inr tip" "hex_to_bytes mroot = Inr r"
  shows "hex_to_bytes (job_header_v2 job version mroot ntime nonce) = Inr (miner_header version tip r ntime nonce)"
proof -
  have "snp_prev_hash tip = rev ph" "snp_nbits tip = nbits_of (bytes_to_hex bits)"
    using assms(1-5) by (auto simp: new_tip_def bind_res_Inr_iff)
  then have "le_bytes 4 (snp_nbits tip) = rev bits" "snp_prev_hash tip = rev ph"
    using nbits_bytes [OF assms(4)] by simp_all
  moreover have "hex_text mroot r" using assms(6) by (simp add: hex_text_def)
  then have "hex_text (job_header_v2 job version mroot ntime nonce)
      (le_bytes 4 version @ rev ph @ r @ le_bytes 4 ntime @ rev bits @ le_bytes 4 nonce)"
    unfolding job_header_v2_def build_block_header_def assms(1,3) byte_reverse_bytes_to_hex by (intro hex_texts)
  ultimately show ?thesis by (simp add: miner_header_def hex_text_def)
qed

lemma root_text:
  assumes "hex_to_bytes cb_hex = Inr cb" "map_res hex_to_bytes branch = Inr path" "\<forall>h \<in> set branch. length h = 64"
    and "\<And>x. length (sha256 x) = 32"
  shows "bind_res (compute_coinbase_txid_le (sha256d sha256) cb_hex) (\<lambda>txid. compute_root_le_hex sha256 txid branch) =
    Inr (bytes_to_hex (fold_path sha256 (filter (\<lambda>h. length h = 32) path) (sha256d sha256 cb)))"
  using assms(1,4) fold_branch_path [OF assms(2,3)]
  by (simp add: compute_coinbase_txid_le_def compute_root_le_hex_def sha256d_def)


text \<open>What a usable job is: canonical hash and bits, whole branch hashes, and a hash of 32 bytes.\<close>

definition well_printed :: "env \<Rightarrow> mining_job \<Rightarrow> bool" where
  "well_printed E job \<longleftrightarrow>
     (\<exists>ph bits. mj_previousblockhash job = bytes_to_hex ph \<and> length ph = 32 \<and>
        mj_bits job = bytes_to_hex bits \<and> length bits = 4) \<and>
     (\<forall>h \<in> set (mj_merkle_branch_le job). length h = 64) \<and> (\<forall>x. length (ev_sha256 E x) = 32)"

lemma extended_work:
  assumes "find_job_v2 (sse_job_id m) strat = Some job" "well_printed E job"
    and "extended_job E cs job = Inr told" "new_tip cs job = Inr tip" "hex_to_bytes (cs_extranonce1 cs) = Inr prefix"
  shows "\<exists>wk. extended_share_work E cs strat m = Inr (Some wk) \<and>
    hex_to_bytes (vw_header_hex wk) = Inr (miner_header (sse_version m) tip
      (fold_path (ev_sha256 E) (nej_merkle_path told) (sha256d (ev_sha256 E)
         (nej_coinbase_tx_prefix told @ prefix @ sse_extranonce m @ nej_coinbase_tx_suffix told)))
      (sse_ntime m) (sse_nonce m))"
proof -
  from assms(3) obtain path cb1 cb2 where told: "map_res hex_to_bytes (mj_merkle_branch_le job) = Inr path"
    "hex_to_bytes (mj_coinbase1 job) = Inr cb1" "hex_to_bytes (coinbase2_of E cs job) = Inr cb2"
    "nej_coinbase_tx_prefix told = cb1" "nej_coinbase_tx_suffix told = cb2" "nej_merkle_path told = filter (\<lambda>h. length h = 32) path"
    by (auto simp: extended_job_def bind_res_Inr_iff)
  define cb_hex where "cb_hex = rebuild_coinbase (mj_coinbase1 job) (coinbase2_of E cs job) (cs_extranonce1 cs @ bytes_to_hex (sse_extranonce m))"
  have en: "hex_to_bytes (cs_extranonce1 cs @ bytes_to_hex (sse_extranonce m)) = Inr (prefix @ sse_extranonce m)"
    using hex_text_append [OF _ hex_text_bytes] assms(5) by (simp add: hex_text_def)
  then have "hex_to_bytes cb_hex = Inr (cb1 @ (prefix @ sse_extranonce m) @ cb2)"
    unfolding cb_hex_def by (rule coinbase_text [OF told(2) _ told(3)])
  from root_text [OF this told(1), of "ev_sha256 E"] assms(2) obtain txid where root:
    "compute_coinbase_txid_le (sha256d (ev_sha256 E)) cb_hex = Inr txid"
    "compute_root_le_hex (ev_sha256 E) txid (mj_merkle_branch_le job) = Inr (bytes_to_hex (fold_path (ev_sha256 E)
       (nej_merkle_path told) (sha256d (ev_sha256 E) (cb1 @ prefix @ sse_extranonce m @ cb2))))"
    by (auto simp: well_printed_def bind_res_Inr_iff told(6))
  define wk where "wk = \<lparr>vw_job = Some job, vw_header_hex = job_header_v2 job (sse_version m) (bytes_to_hex (fold_path (ev_sha256 E)
       (nej_merkle_path told) (sha256d (ev_sha256 E) (cb1 @ prefix @ sse_extranonce m @ cb2)))) (sse_ntime m) (sse_nonce m),
     vw_coinbase_hex = cb_hex, vw_bits = mj_bits job\<rparr>"
  have "extended_share_work E cs strat m = Inr (Some wk)"
    unfolding extended_share_work_def assms(1) option.case Let_def cb_hex_def [symmetric]
    using root by (simp add: wk_def)
  moreover from assms(2) obtain ph bits where "mj_previousblockhash job = bytes_to_hex ph" "length ph = 32"
    "mj_bits job = bytes_to_hex bits" "length bits = 4" by (auto simp: well_printed_def)
  from header_text [OF this assms(4)] have "hex_to_bytes (vw_header_hex wk) = Inr (miner_header (sse_version m) tip
      (fold_path (ev_sha256 E) (nej_merkle_path told) (sha256d (ev_sha256 E) (cb1 @ prefix @ sse_extranonce m @ cb2)))
      (sse_ntime m) (sse_nonce m))" by (simp add: wk_def)
  ultimately show ?thesis by (auto simp: told(4,5))
qed

text \<open>
  C8. Extended channels: the session checks a share against the very work it told the miner. If the
  messages NewExtendedMiningJob and SetNewPrevHash of a job could be built, and the extranonce prefix
  of the open message is the session's, then for every submission naming that job the header the
  session hashes is the one a miner assembles: the version, time and nonce of the submission, the
  previous hash and bits of SetNewPrevHash, and the root that folds the told path over the hash of
  told prefix, extranonce prefix, the miner's extranonce and told suffix.
\<close>

theorem v2_extended_work:
  assumes "find_job_v2 (sse_job_id m) strat = Some job" "well_printed E job"
    and "extended_job E cs job = Inr told" "new_tip cs job = Inr tip" "hex_to_bytes (cs_extranonce1 cs) = Inr prefix"
  shows "\<exists>wk. extended_share_work E cs strat m = Inr (Some wk) \<and>
    hex_to_bytes (vw_header_hex wk) = Inr (miner_header (sse_version m) tip
      (fold_path (ev_sha256 E) (nej_merkle_path told) (sha256d (ev_sha256 E)
         (nej_coinbase_tx_prefix told @ prefix @ sse_extranonce m @ nej_coinbase_tx_suffix told)))
      (sse_ntime m) (sse_nonce m))"
  by (rule extended_work [OF assms])

lemma fold_branch_length:
  assumes "\<And>x. length (sha256d sha256 x) = 32"
  shows "length c = 32 \<Longrightarrow> fold_branch sha256 c bs = Inr r \<Longrightarrow> length r = 32"
proof (induction bs arbitrary: c)
  case (Cons h bs)
  then obtain x where "fold_branch sha256 (sha256d sha256 (c @ x)) bs = Inr r"
    by (auto simp: bind_res_Inr_iff split: if_splits)
  then show ?case by (rule Cons.IH [OF assms])
qed simp

lemma standard_work_root:
  assumes "standard_work E cs job = Inr (cb_hex, root_hex)" "well_printed E job"
  shows "\<exists>r. root_hex = bytes_to_hex r \<and> length r = 32"
proof -
  have sha: "\<And>x. length (ev_sha256 E x) = 32" using assms(2) by (simp add: well_printed_def)
  then have len: "length (sha256d (ev_sha256 E) b) = 32" for b by (simp add: sha256d_def)
  have "\<exists>r. h = bytes_to_hex r \<and> length r = 32" if "compute_root_le_hex (ev_sha256 E) t bs = Inr h" for t bs h
  proof -
    from that fold_branch_length [OF len] show ?thesis by (fastforce simp: compute_root_le_hex_def bind_res_Inr_iff split: if_splits)
  qed
  then show ?thesis using assms(1) len
    by (auto simp: standard_work_def Let_def bind_res_Inr_iff compute_coinbase_txid_le_def split: if_splits)
qed

text \<open>
  Standard channels: for a job that was told with NewMiningJob and SetNewPrevHash, the header
  behind a submission that names it is the told root and tip with the version, time and nonce
  submitted, whether blocks are mined full or empty. Declared jobs keep their identifiers apart, and
  must not take this one.
\<close>

theorem v2_standard_work:
  assumes "find_job_v2 (sss_job_id m) strat = Some job" "map_of (cs_sv2_custom_jobs cs) (sss_job_id m) = None"
    and "well_printed E job" "standard_job E cs job = Inr told" "new_tip cs job = Inr tip"
  shows "\<exists>wk. standard_share_work E cs strat m = Inr (Some wk) \<and>
    hex_to_bytes (vw_header_hex wk) =
      Inr (miner_header (sss_version m) tip (nmj_merkle_root told) (sss_ntime m) (sss_nonce m))"
proof -
  from assms(4) obtain cb_hex root_hex mroot where told: "standard_work E cs job = Inr (cb_hex, root_hex)"
    "hex_to_bytes root_hex = Inr mroot" "nmj_merkle_root told = (if length mroot = 32 then mroot else replicate 32 0)"
    by (auto simp: standard_job_def bind_res_Inr_iff)
  from standard_work_root [OF told(1) assms(3)] told(2) have "length mroot = 32" by auto
  with told(3) have same: "nmj_merkle_root told = mroot" by simp
  from assms(3) obtain ph bits where "mj_previousblockhash job = bytes_to_hex ph" "length ph = 32"
    "mj_bits job = bytes_to_hex bits" "length bits = 4" by (auto simp: well_printed_def)
  from header_text [OF this assms(5) told(2)] same
  have "hex_to_bytes (job_header_v2 job (sss_version m) root_hex (sss_ntime m) (sss_nonce m)) =
      Inr (miner_header (sss_version m) tip (nmj_merkle_root told) (sss_ntime m) (sss_nonce m))" by simp
  then show ?thesis by (simp add: standard_share_work_def assms(1,2) told(1))
qed


section \<open>Declared jobs\<close>

lemma nibble_byte:
  fixes v :: u32
  shows "hex_of_byte (ucast (drop_bit k v)) =
    [hex_digits ! unat (drop_bit (4 + k) v AND 0xf), hex_digits ! unat (drop_bit k v AND 0xf)]"
proof -
  have mask: "(0xf :: u32) = mask 4" "(0xf :: u8) = mask 4" by (simp_all add: mask_eq_exp_minus_1)
  have up: "unat (ucast x :: u32) = unat x" for x :: u8
  proof -
    have "unat x < 2 ^ 8" using unsigned_less [of x] by simp
    then show ?thesis by (simp add: unsigned_ucast_eq take_bit_nat_eq_self)
  qed
  have "(ucast (drop_bit 4 (ucast (drop_bit k v) :: u8)) :: u32) = drop_bit (4 + k) v AND 0xf"
    "(ucast ((ucast (drop_bit k v) :: u8) AND 0xf) :: u32) = drop_bit k v AND 0xf"
    unfolding mask by (rule bit_word_eqI, auto simp: bit_simps ac_simps)+
  then show ?thesis by (metis hex_of_byte_def up)
qed

lemma int_to_hex_bytes: "int_to_hex v 8 = bytes_to_hex (rev (le_bytes 4 v))"
proof -
  have "[0..<4] = [0, 1, 2, 3]" by (simp add: upt_rec)
  moreover have "hex_of_byte (ucast v) = [hex_digits ! unat (drop_bit 4 v AND 0xf), hex_digits ! unat (v AND 0xf)]"
    using nibble_byte [of 0 v] by simp
  ultimately show ?thesis by (simp add: le_bytes_def nibble_byte eval_nat_numeral)
qed


text \<open>
  C34. A declared job is checked against a header that puts its compact bits most significant byte
  first, where a block header and every other job of the pool have them least significant byte
  first: a miner that hashes the header of its declared job has other bytes there unless they read
  the same both ways.
\<close>

theorem v2_declared_work:
  assumes "map_of (cs_sv2_custom_jobs cs) (sss_job_id m) = Some cj" "hex_to_bytes (custom_coinbase cj) = Inr cb"
  shows "\<exists>wk. standard_share_work E cs strat m = Inr (Some wk) \<and>
    hex_to_bytes (vw_header_hex wk) =
      Inr (le_bytes 4 (sss_version m) @ cj_prev_hash cj @ sha256d (ev_sha256 E) cb @ le_bytes 4 (sss_ntime m)
        @ rev (le_bytes 4 (cj_nbits cj)) @ le_bytes 4 (sss_nonce m))"
proof -
  define wk where "wk = \<lparr>vw_job = None,
     vw_header_hex = build_block_header (le_hex_u32 (sss_version m)) (bytes_to_hex (cj_prev_hash cj))
       (bytes_to_hex (sha256d (ev_sha256 E) cb)) (le_hex_u32 (sss_ntime m)) (int_to_hex (cj_nbits cj) 8) (le_hex_u32 (sss_nonce m)),
     vw_coinbase_hex = custom_coinbase cj, vw_bits = int_to_hex (cj_nbits cj) 8\<rparr>"
  have "standard_share_work E cs strat m = Inr (Some wk)"
    by (simp add: standard_share_work_def custom_work_def compute_coinbase_txid_le_def assms Let_def wk_def del: int_to_hex.simps)
  moreover have "hex_text (vw_header_hex wk) (le_bytes 4 (sss_version m) @ cj_prev_hash cj @ sha256d (ev_sha256 E) cb
      @ le_bytes 4 (sss_ntime m) @ rev (le_bytes 4 (cj_nbits cj)) @ le_bytes 4 (sss_nonce m))"
    unfolding wk_def v2_work.simps build_block_header_def int_to_hex_bytes by (intro hex_texts)
  ultimately show ?thesis by (auto simp: hex_text_def)
qed

section \<open>Accepted shares\<close>

lemma target_v2_recent:
  "target_diff_v2 E cs window least d = vd_current_diff (cs_vardiff cs) \<or>
   target_diff_v2 E cs window least d = cs_last_difficulty cs \<and>
     rnd_d (ev_fpu E) (of_int (ev_steady E - cs_last_difficulty_change cs) / 1000000000) < window"
  by (simp add: target_diff_v2_def Let_def)

lemma v2_refused_count: "v2_refused E seq code w w' \<Longrightarrow> cs_shares_accepted (w_cs w') = cs_shares_accepted (w_cs w)"
  by (simp add: v2_refused_def)

lemma judge_Inr:
  assumes "judge_v2 E chain wk = Inr c"
  obtains header where "hex_to_bytes (vw_header_hex wk) = Inr header" "pow_v2 E chain header = Inr (vc_hash c)"
    "vc_share_diff c = difficulty_of (ev_fpu E) chain (vc_hash c)"
  using assms by (auto simp: judge_v2_def bind_res_Inr_iff)

text \<open>
  C31. A share of an extended channel is counted as accepted only if the session is open, the job it
  names is still in the window, its time is in the job's range, and the proof of work of the header
  rebuilt for it reaches the current difficulty or, for fifteen seconds after a retarget, the one
  before. Nothing is asked of the version, nor that the share be new.
\<close>

theorem v2_share_accepted:
  assumes "handle_submit_extended_v2 E m w = (e, w')" "cs_shares_accepted (w_cs w') \<noteq> cs_shares_accepted (w_cs w)"
  shows "\<exists>job wk header hash. \<not> cs_closed (w_cs w) \<and>
    find_job_v2 (sse_job_id m) (w_strat w) = Some job \<and> valid_ntime (sse_ntime m) (mj_mintime job) (ev_unix E) 7200 \<and>
    extended_share_work E (w_cs w) (w_strat w) m = Inr (Some wk) \<and> hex_to_bytes (vw_header_hex wk) = Inr header \<and>
    pow_v2 E (chain_of (w_cs w)) header = Inr hash \<and>
    (vd_current_diff (cs_vardiff (w_cs w)) \<le> difficulty_of (ev_fpu E) (chain_of (w_cs w)) hash \<or>
     cs_last_difficulty (w_cs w) \<le> difficulty_of (ev_fpu E) (chain_of (w_cs w)) hash \<and>
       rnd_d (ev_fpu E) (of_int (ev_steady E - cs_last_difficulty_change (w_cs w)) / 1000000000) < 15)"
proof -
  from assms have open_now: "\<not> cs_closed (w_cs w)" by (auto simp: handle_submit_extended_v2_def)
  from assms(1) have "process_share_v2 E (sse_sequence_number m) False (extended_share_work E (w_cs w) (w_strat w) m)
      (extended_verdict E m) w = (e, w')" by (simp add: extended_share [OF open_now])
  then show ?thesis
  proof (cases rule: process_share_cases)
    case failed
    then show ?thesis using assms(2) by simp
  next
    case stale
    then show ?thesis using assms(2) v2_refused_count [OF reject_v2_ends [of w w]] by simp
  next
    case (judged wk c w1)
    let ?target = "target_diff_v2 E (w_cs w1) 15 (cs_last_difficulty (w_cs w1)) (vc_share_diff c)"
    have keep: "w_cs w1 = w_cs w" "w_cs w1 = w_cs w \<and> w_posted w1 = w_posted w" using rescue_keeps [OF judged(4)] by simp_all
    have refused: "cs_shares_accepted (w_cs (reject_v2 E (sse_sequence_number m) code w1)) = cs_shares_accepted (w_cs w)" for code
      by (rule v2_refused_count [OF reject_v2_ends [OF keep(2)]])
    from judged(2) obtain job where job: "find_job_v2 (sse_job_id m) (w_strat w) = Some job" "vw_job wk = Some job"
      by (auto simp: extended_share_work_def Let_def bind_res_Inr_iff split: option.splits)
    have passed: "?target \<le> vc_share_diff c" "valid_ntime (sse_ntime m) (mj_mintime job) (ev_unix E) 7200"
      using assms(2) judged(5) judge_work [OF judged(3)] job(2)
      by (auto simp: extended_verdict_def verdict_v2_def Let_def refused split: if_splits)
    from judged(3) obtain header where h: "hex_to_bytes (vw_header_hex wk) = Inr header"
      "pow_v2 E (chain_of (w_cs w)) header = Inr (vc_hash c)"
      "vc_share_diff c = difficulty_of (ev_fpu E) (chain_of (w_cs w)) (vc_hash c)" by (rule judge_Inr)
    have "vd_current_diff (cs_vardiff (w_cs w)) \<le> vc_share_diff c \<or> cs_last_difficulty (w_cs w) \<le> vc_share_diff c \<and>
       rnd_d (ev_fpu E) (of_int (ev_steady E - cs_last_difficulty_change (w_cs w)) / 1000000000) < 15"
      using passed(1) target_v2_recent [of E "w_cs w" 15 "cs_last_difficulty (w_cs w)" "vc_share_diff c"]
      unfolding keep(1) by metis
    with open_now job(1) passed(2) judged(2) h show ?thesis by auto
  qed
qed


section \<open>Replays\<close>

text \<open>What the judgement of a share on an extended channel depends on.\<close>

definition same_basis :: "world \<Rightarrow> world \<Rightarrow> bool" where
  "same_basis w w' \<longleftrightarrow>
     (\<lambda>cs. (cs_closed cs, cs_coin cs, cs_worker_script_hex cs, cs_extranonce1 cs, cs_vardiff cs, cs_last_difficulty cs,
        cs_last_difficulty_change cs)) (w_cs w') =
     (\<lambda>cs. (cs_closed cs, cs_coin cs, cs_worker_script_hex cs, cs_extranonce1 cs, cs_vardiff cs, cs_last_difficulty cs,
        cs_last_difficulty_change cs)) (w_cs w) \<and> sf_jobs (w_strat w') = sf_jobs (w_strat w)"

lemma accept_basis: "same_basis w (accept_share_v2 E seq d w)"
  by (simp add: same_basis_def accept_share_v2_def note_accepted_share_def note_share_diff_def Let_def)

lemma settles_basis:
  assumes "\<not> en"
  shows "same_basis w (settles_v2 E en j n seq x c t d w) \<and>
    cs_shares_accepted (w_cs (settles_v2 E en j n seq x c t d w)) = cs_shares_accepted (w_cs w) + 1"
  using accept_basis [of w E seq "vc_share_diff c"] assms
  by (simp add: settles_v2_def retarget_v2_def persist_share_v2_def same_basis_def accept_v2_fields Let_def)

lemma basis_work:
  assumes "same_basis w w'"
  shows "extended_share_work E (w_cs w') (w_strat w') m = extended_share_work E (w_cs w) (w_strat w) m"
proof -
  have "find_job_v2 i (w_strat w') = find_job_v2 i (w_strat w)" for i
    using assms by (simp add: same_basis_def find_job_v2_def latestJob_def findJobU32_def split: option.splits)
  moreover have "coinbase2_of E (w_cs w') job = coinbase2_of E (w_cs w) job" for job
    using assms by (simp add: same_basis_def coinbase2_of_def chain_of_def)
  moreover have "cs_extranonce1 (w_cs w') = cs_extranonce1 (w_cs w)" using assms by (simp add: same_basis_def)
  ultimately show ?thesis
    by (cases "find_job_v2 (sse_job_id m) (w_strat w)") (simp_all add: extended_share_work_def)
qed

lemma basis_trans: "same_basis w w' \<Longrightarrow> same_basis w' w'' \<Longrightarrow> same_basis w w''"
  by (simp add: same_basis_def)

lemma easy_accepted:
  assumes "\<not> cs_closed (w_cs w)" "extended_share_work E (w_cs w) (w_strat w) m = Inr (Some wk)"
    and "judge_v2 E (chain_of (w_cs w)) wk = Inr c" "\<not> vc_meets_network c"
    and "vw_job wk = Some job" "valid_ntime (sse_ntime m) (mj_mintime job) (ev_unix E) 7200"
    and "\<not> st_vardiffEnabled (activeTier (cs_coin (w_cs w)))"
    and "vd_current_diff (cs_vardiff (w_cs w)) \<le> vc_share_diff c"
  obtains w' where "handle_submit_extended_v2 E m w = (None, w')" "same_basis w w'"
    "cs_shares_accepted (w_cs w') = cs_shares_accepted (w_cs w) + 1"
proof -
  have "target_diff_v2 E (w_cs w) 15 l (vc_share_diff c) = vd_current_diff (cs_vardiff (w_cs w))" for l
    using assms(8) by (simp add: target_diff_v2_def Let_def)
  then have "\<exists>t d. handle_submit_extended_v2 E m w = (None, settles_v2 E False (sse_job_id m) (sse_nonce m)
      (sse_sequence_number m) (bytes_to_hex (sse_extranonce m)) c t d w)"
    using assms(2-8) judge_work [OF assms(3)]
    by (simp add: extended_share [OF assms(1)] process_share_v2_def rescue_block_v2_def extended_verdict_def verdict_v2_def Let_def)
      blast
  then show thesis using that settles_basis [of False] by blast
qed

text \<open>
  C33. An extended channel takes the same share again and again: a share that reaches the current
  difficulty and solves no block, on a tier that does not retarget, is accepted and counted each of
  the times it is submitted, however many. Only block solutions are looked up in the table of seen
  shares.
\<close>

theorem v2_replayed:
  assumes "\<not> cs_closed (w_cs w)" "extended_share_work E (w_cs w) (w_strat w) m = Inr (Some wk)"
    and "judge_v2 E (chain_of (w_cs w)) wk = Inr c" "\<not> vc_meets_network c"
    and "vw_job wk = Some job" "valid_ntime (sse_ntime m) (mj_mintime job) (ev_unix E) 7200"
    and "\<not> st_vardiffEnabled (activeTier (cs_coin (w_cs w)))"
    and "vd_current_diff (cs_vardiff (w_cs w)) \<le> vc_share_diff c"
  shows "cs_shares_accepted (w_cs (((\<lambda>w. snd (handle_submit_extended_v2 E m w)) ^^ n) w)) = cs_shares_accepted (w_cs w) + of_nat n"
proof -
  have "same_basis w (((\<lambda>w. snd (handle_submit_extended_v2 E m w)) ^^ n) w) \<and>
    cs_shares_accepted (w_cs (((\<lambda>w. snd (handle_submit_extended_v2 E m w)) ^^ n) w)) = cs_shares_accepted (w_cs w) + of_nat n"
  proof (induction n)
    case 0
    show ?case by (simp add: same_basis_def)
  next
    case (Suc n)
    define v where "v = ((\<lambda>w. snd (handle_submit_extended_v2 E m w)) ^^ n) w"
    from Suc have v: "same_basis w v" "cs_shares_accepted (w_cs v) = cs_shares_accepted (w_cs w) + of_nat n" by (simp_all add: v_def)
    note s = v(1) [unfolded same_basis_def] basis_work [OF v(1), of E m]
    obtain w' where "handle_submit_extended_v2 E m v = (None, w')" "same_basis v w'"
      "cs_shares_accepted (w_cs w') = cs_shares_accepted (w_cs v) + 1"
      by (rule easy_accepted [of v E m wk c job]) (use assms s in \<open>simp_all add: chain_of_def\<close>)
    then show ?case using basis_trans [OF v(1)] v(2) by (simp flip: v_def)
  qed
  then show ?thesis by (rule conjunct2)
qed


section \<open>A sample channel\<close>

text \<open>
  A job whose bits denote the target 0, with a hash function that is constantly all ones: no share
  solves a block, and each has the difficulty of the channel.
\<close>

definition v2_env :: env where
  "v2_env = sample_env\<lparr>ev_sha256 := (\<lambda>_. replicate 32 255)\<rparr>"

definition v2_job :: mining_job where
  "v2_job = share_job\<lparr>mj_previousblockhash := bytes_to_hex (replicate 32 7), mj_bits := bytes_to_hex (replicate 4 0)\<rparr>"

definition v2_session :: session where
  "v2_session = sample_session\<lparr>cs_is_v2 := True, cs_is_extended_channel := True,
     cs_vardiff := (session_vardiff exact_fpu default_coin)\<lparr>vd_current_diff := difficulty_of exact_fpu Bitcoin (replicate 32 255)\<rparr>\<rparr>"

definition v2_world :: world where
  "v2_world = sample_world\<lparr>w_cs := v2_session, w_strat := (stratifier_new 2)\<lparr>sf_jobs := window_push ''j'' v2_job (window_new 2)\<rparr>\<rparr>"

definition v2_share :: submit_shares_extended where
  "v2_share = \<lparr>sse_channel_id = 0, sse_sequence_number = 1, sse_job_id = 0, sse_nonce = 0, sse_ntime = 0, sse_version = 0,
     sse_extranonce = replicate 8 0\<rparr>"

lemma v2_fields:
  "mj_job_id v2_job = []" "mj_coinbase1 v2_job = []" "mj_merkle_branch_le v2_job = []" "mj_mintime v2_job = 0"
  "mj_previousblockhash v2_job = bytes_to_hex (replicate 32 7)" "mj_bits v2_job = bytes_to_hex (replicate 4 0)"
  "ev_sha256 v2_env = (\<lambda>_. replicate 32 255)" "ev_fpu v2_env = exact_fpu" "ev_unix v2_env = 0"
  "w_cs v2_world = v2_session" "chain_of v2_session = Bitcoin" "\<not> cs_closed v2_session" "cs_extranonce1 v2_session = []"
  "cs_coin v2_session = default_coin" "cs_sv2_custom_jobs v2_session = []"
  "vd_current_diff (cs_vardiff v2_session) = difficulty_of exact_fpu Bitcoin (replicate 32 255)"
  "cs_shares_accepted v2_session = 0"
  by (simp_all add: v2_job_def share_job_def sample_job_def make_job_def sample_template_def empty_template_def v2_env_def
      sample_env_def v2_world_def v2_session_def sample_session_def session_new_def chain_of_def default_coin_def)

lemma v2_found: "find_job_v2 0 (w_strat v2_world) = Some v2_job"
  by (simp add: find_job_v2_def latestJob_def v2_world_def window_latest_def window_push_def window_new_def job_id_u32_def v2_fields)

lemma v2_printed: "well_printed v2_env v2_job"
proof -
  have "length (replicate 32 (7 :: u8)) = 32" "length (replicate 4 (0 :: u8)) = 4" by simp_all
  then have "\<exists>ph bits. bytes_to_hex (replicate 32 7) = bytes_to_hex ph \<and> length ph = 32 \<and>
      bytes_to_hex (replicate 4 0) = bytes_to_hex bits \<and> length bits = 4" by blast
  then show ?thesis by (simp add: well_printed_def v2_fields del: replicate.simps)
qed

lemma v2_coinbase2: "coinbase2_of v2_env v2_session v2_job = []"
  by (simp add: coinbase2_of_def build_session_coinbase2_def v2_session_def sample_session_def session_new_def)

lemma v2_told: "\<exists>told. extended_job v2_env v2_session v2_job = Inr told"
  "\<exists>told. standard_job v2_env v2_session v2_job = Inr told" "\<exists>tip. new_tip v2_session v2_job = Inr tip"
proof -
  have n: "hex_to_bytes [] = Inr []" by (simp add: hex_to_bytes_def)
  show "\<exists>told. extended_job v2_env v2_session v2_job = Inr told"
    by (simp add: extended_job_def v2_fields v2_coinbase2 n)
  show "\<exists>tip. new_tip v2_session v2_job = Inr tip"
    unfolding new_tip_def v2_fields byte_reverse_bytes_to_hex hex_to_bytes_to_hex by simp
  have "\<not> stratumV2EmptyBlocks (cs_coin v2_session)" by (simp add: v2_fields default_coin_def)
  moreover have "hex_to_bytes (cs_extranonce1 v2_session @ ''0000000000000000'') = Inr (replicate 8 0)"
  proof -
    have "''0000000000000000'' = bytes_to_hex [0, 0, 0, 0] @ bytes_to_hex [0, 0, 0, 0]" unfolding zeros_text [symmetric] by simp
    moreover have "replicate 8 (0 :: u8) = [0, 0, 0, 0] @ [0, 0, 0, 0]" by (simp add: eval_nat_numeral)
    moreover have "hex_text (bytes_to_hex [0, 0, 0, 0] @ bytes_to_hex [0, 0, 0, 0]) ([0, 0, 0, 0] @ [0, 0, 0, 0])"
      by (intro hex_texts)
    ultimately show ?thesis by (simp add: v2_fields hex_text_def)
  qed
  ultimately show "\<exists>told. standard_job v2_env v2_session v2_job = Inr told"
    by (simp add: standard_job_def standard_work_def v2_fields v2_coinbase2 rebuild_coinbase_def compute_coinbase_txid_le_def
        compute_root_le_hex_def sha256d_def del: replicate.simps)
qed


lemma v2_target: "target_from_bits_hex (bytes_to_hex (replicate 4 0)) = Inr (replicate 32 0)"
proof -
  have l: "length (replicate 4 (0 :: u8)) = 4" by simp
  have "replicate 4 (0 :: u8) = [0, 0, 0, 0]" by (simp add: eval_nat_numeral)
  then have "mantissa (replicate 4 0) = 0" by (simp add: mantissa_def)
  then show ?thesis using l by (simp add: target_from_bits_hex_def Let_def del: replicate.simps)
qed

lemma v2_judged:
  obtains wk c where "extended_share_work v2_env v2_session (w_strat v2_world) v2_share = Inr (Some wk)"
    "judge_v2 v2_env Bitcoin wk = Inr c" "vw_job wk = Some v2_job" "\<not> vc_meets_network c"
    "vc_share_diff c = difficulty_of exact_fpu Bitcoin (replicate 32 255)"
proof -
  obtain told tip where t: "extended_job v2_env v2_session v2_job = Inr told" "new_tip v2_session v2_job = Inr tip"
    using v2_told by blast
  have f: "find_job_v2 (sse_job_id v2_share) (w_strat v2_world) = Some v2_job" by (simp add: v2_share_def v2_found)
  have p: "hex_to_bytes (cs_extranonce1 v2_session) = Inr []" by (simp add: v2_fields hex_to_bytes_def)
  from extended_work [OF f v2_printed t p] obtain wk header where
    wk: "extended_share_work v2_env v2_session (w_strat v2_world) v2_share = Inr (Some wk)" "hex_to_bytes (vw_header_hex wk) = Inr header"
    by blast
  from wk(1) have job: "vw_job wk = Some v2_job" "vw_bits wk = mj_bits v2_job"
    unfolding extended_share_work_def f by (auto simp: Let_def bind_res_Inr_iff)
  have pow: "pow_v2 v2_env Bitcoin header = Inr (replicate 32 255)"
    by (simp add: pow_v2_def sha256d_def v2_fields del: replicate.simps)
  have "\<not> be_le (replicate (Suc n) 255) (replicate (Suc n) 0)" for n by simp
  from this [of 31] have "\<not> be_le (replicate 32 255) (replicate 32 0)" by (simp del: replicate.simps)
  with that [of wk] wk job pow show thesis
    by (simp add: judge_v2_def v2_target v2_fields del: replicate.simps)
qed


lemma v2_within: "valid_ntime (sse_ntime v2_share) (mj_mintime v2_job) (ev_unix v2_env) 7200"
  by (simp add: v2_share_def v2_fields valid_ntime_def)

lemma v2_no_vardiff: "\<not> st_vardiffEnabled (activeTier (cs_coin v2_session))"
  by (simp add: v2_fields default_coin_def default_tier_def)

theorem v2_replayed_witness:
  "cs_shares_accepted (w_cs (((\<lambda>w. snd (handle_submit_extended_v2 v2_env v2_share w)) ^^ 3) v2_world)) = 3"
proof -
  obtain wk c where s: "extended_share_work v2_env v2_session (w_strat v2_world) v2_share = Inr (Some wk)"
    "judge_v2 v2_env Bitcoin wk = Inr c" "vw_job wk = Some v2_job" "\<not> vc_meets_network c"
    "vc_share_diff c = difficulty_of exact_fpu Bitcoin (replicate 32 255)" by (rule v2_judged)
  have "cs_shares_accepted (w_cs (((\<lambda>w. snd (handle_submit_extended_v2 v2_env v2_share w)) ^^ 3) v2_world)) =
      cs_shares_accepted (w_cs v2_world) + of_nat 3"
    by (rule v2_replayed [of v2_world v2_env v2_share wk c v2_job])
      (use s v2_within v2_no_vardiff in \<open>simp_all add: v2_fields del: replicate.simps\<close>)
  then show ?thesis by (simp add: v2_fields)
qed

theorem v2_share_accepted_witness:
  "\<exists>header hash. pow_v2 v2_env Bitcoin header = Inr hash \<and>
     (vd_current_diff (cs_vardiff v2_session) \<le> difficulty_of exact_fpu Bitcoin hash \<or>
      cs_last_difficulty v2_session \<le> difficulty_of exact_fpu Bitcoin hash)"
proof -
  obtain wk c where s: "extended_share_work v2_env v2_session (w_strat v2_world) v2_share = Inr (Some wk)"
    "judge_v2 v2_env Bitcoin wk = Inr c" "vw_job wk = Some v2_job" "\<not> vc_meets_network c"
    "vc_share_diff c = difficulty_of exact_fpu Bitcoin (replicate 32 255)" by (rule v2_judged)
  obtain w' where w: "handle_submit_extended_v2 v2_env v2_share v2_world = (None, w')"
    "cs_shares_accepted (w_cs w') = cs_shares_accepted (w_cs v2_world) + 1"
    by (rule easy_accepted [of v2_world v2_env v2_share wk c v2_job])
      (use s v2_within v2_no_vardiff in \<open>simp_all add: v2_fields del: replicate.simps\<close>)
  then have "cs_shares_accepted (w_cs w') \<noteq> cs_shares_accepted (w_cs v2_world)" by simp
  from v2_share_accepted [OF w(1) this] show ?thesis by (auto simp: v2_fields)
qed

theorem v2_extended_work_witness:
  "\<exists>wk told tip. extended_job v2_env v2_session v2_job = Inr told \<and> new_tip v2_session v2_job = Inr tip \<and>
    extended_share_work v2_env v2_session (w_strat v2_world) v2_share = Inr (Some wk) \<and>
    hex_to_bytes (vw_header_hex wk) = Inr (miner_header 0 tip (replicate 32 255) 0 0)"
proof -
  obtain told tip where t: "extended_job v2_env v2_session v2_job = Inr told" "new_tip v2_session v2_job = Inr tip"
    using v2_told by blast
  have f: "find_job_v2 (sse_job_id v2_share) (w_strat v2_world) = Some v2_job" by (simp add: v2_share_def v2_found)
  have p: "hex_to_bytes (cs_extranonce1 v2_session) = Inr []" by (simp add: v2_fields hex_to_bytes_def)
  have "nej_merkle_path told = []" using t(1) by (auto simp: extended_job_def bind_res_Inr_iff v2_fields)
  with v2_extended_work [OF f v2_printed t p] t show ?thesis
    by (auto simp: fold_path_def sha256d_def v2_fields v2_share_def simp del: replicate.simps)
qed

definition v2_plain_share :: submit_shares_standard where
  "v2_plain_share = \<lparr>sss_channel_id = 0, sss_sequence_number = 1, sss_job_id = 0, sss_nonce = 0, sss_ntime = 0, sss_version = 0\<rparr>"

theorem v2_standard_work_witness:
  "\<exists>wk told tip. standard_job v2_env v2_session v2_job = Inr told \<and> new_tip v2_session v2_job = Inr tip \<and>
    standard_share_work v2_env v2_session (w_strat v2_world) v2_plain_share = Inr (Some wk) \<and>
    hex_to_bytes (vw_header_hex wk) = Inr (miner_header 0 tip (nmj_merkle_root told) 0 0)"
proof -
  obtain told tip where t: "standard_job v2_env v2_session v2_job = Inr told" "new_tip v2_session v2_job = Inr tip"
    using v2_told by blast
  have f: "find_job_v2 (sss_job_id v2_plain_share) (w_strat v2_world) = Some v2_job"
    "map_of (cs_sv2_custom_jobs v2_session) (sss_job_id v2_plain_share) = None"
    by (simp_all add: v2_plain_share_def v2_found v2_fields)
  from v2_standard_work [OF f v2_printed t] t show ?thesis by (auto simp: v2_plain_share_def)
qed

definition v2_declared :: custom_job where
  "v2_declared = \<lparr>cj_job_id = 0, cj_version = 0, cj_prev_hash = replicate 32 7, cj_coinbase_prefix = [],
     cj_coinbase_outputs = [], cj_coinbase_tx_version = 1, cj_coinbase_tx_input_nSequence = 0,
     cj_coinbase_tx_locktime = 0, cj_nbits = 0x1d00ffff\<rparr>"

theorem v2_declared_work_witness:
  "\<exists>wk. standard_share_work v2_env (v2_session\<lparr>cs_sv2_custom_jobs := [(0, v2_declared)]\<rparr>) (w_strat v2_world) v2_plain_share = Inr (Some wk) \<and>
    hex_to_bytes (vw_header_hex wk) = Inr ([0, 0, 0, 0] @ replicate 32 7 @ replicate 32 255 @ [0, 0, 0, 0]
      @ [0x1d, 0x00, 0xff, 0xff] @ [0, 0, 0, 0])"
proof -
  let ?cs = "v2_session\<lparr>cs_sv2_custom_jobs := [(0, v2_declared)]\<rparr>"
  have m: "map_of (cs_sv2_custom_jobs ?cs) (sss_job_id v2_plain_share) = Some v2_declared" by (simp add: v2_plain_share_def)
  have "take 2 (fmt_02x_nat (length ([] :: bytes))) = hex_of_byte 0"
    by (simp add: fmt_02x_nat_def hex_nat.simps hex_of_byte_def hex_digits_def)
  then have "hex_text (custom_coinbase v2_declared) (le_bytes 4 (1 :: u32) @ [1] @ replicate 32 0 @ [255, 255, 255, 255]
      @ [0] @ [] @ le_bytes 4 (0 :: u32) @ [] @ le_bytes 4 (0 :: u32))"
    unfolding custom_coinbase_def v2_declared_def custom_job.simps
    by (simp only:) (intro hex_texts)
  then obtain cb where cb: "hex_to_bytes (custom_coinbase v2_declared) = Inr cb" by (auto simp: hex_text_def)
  have "[0..<4] = [0, 1, 2, 3]" by (simp add: upt_rec)
  then have "le_bytes 4 (0 :: u32) = [0, 0, 0, 0]" "rev (le_bytes 4 (0x1d00ffff :: u32)) = [0x1d, 0x00, 0xff, 0xff]"
    by (simp_all add: le_bytes_def drop_bit_eq_div)
  with v2_declared_work [OF m cb, where E = v2_env and strat = "w_strat v2_world"] show ?thesis
    by (simp add: v2_declared_def v2_plain_share_def sha256d_def v2_fields del: replicate.simps)
qed

end
