(* ===== verification/SessionRuns.thy ===== *)
theory SessionRuns
  imports SessionV2Facts AddressFacts
begin

text \<open>
  What a Stratum V1 session promises over every run: only validated workers are authorized, nothing
  is written after the connection was closed, and the lines posted to an open session are written.
\<close>

section \<open>Runs of a session\<close>

definition session_world :: "env \<Rightarrow> coin_config \<Rightarrow> bool \<Rightarrow> string \<Rightarrow> string \<Rightarrow> stratifier \<Rightarrow> rate_limiter option \<Rightarrow> world" where
  "session_world E coin tls extranonce1 session_id strat rl =
     \<lparr>w_cs = session_new E coin tls extranonce1 session_id, w_strat = strat, w_limiter = rl, w_posted = [],
      w_queue = set_drop_handler (wq_new (2 ^ 20)), w_actions = []\<rparr>"

definition clocks :: "env \<Rightarrow> int \<Rightarrow> u32 \<Rightarrow> nat \<Rightarrow> env" where
  "clocks E t u z = E\<lparr>ev_steady := t, ev_unix := u, ev_rand := z\<rparr>"

text \<open>
  A session looks at its first byte (or, with TLS, shakes hands) before it speaks a protocol, and it
  speaks the protocol whose first read it started.
\<close>

datatype mode = Fresh | SpeaksV1 | SpeaksV2

definition is_v2_read :: "action \<Rightarrow> bool" where
  "is_v2_read a = (case a of StartReadV2 _ \<Rightarrow> True | _ \<Rightarrow> False)"

definition v2_kind :: "action \<Rightarrow> bool" where
  "v2_kind a = (case a of StartReadV2 _ \<Rightarrow> True | ReadAct1 _ \<Rightarrow> True | WriteAct2 _ \<Rightarrow> True | ValidatePayout _ \<Rightarrow> True | _ \<Rightarrow> False)"

definition mode_of :: "action list \<Rightarrow> mode" where
  "mode_of acts = (if list_ex v2_kind acts then SpeaksV2 else if StartRead \<in> set acts then SpeaksV1 else Fresh)"

definition is_act2 :: "action \<Rightarrow> bool" where
  "is_act2 a = (case a of WriteAct2 _ \<Rightarrow> True | _ \<Rightarrow> False)"

lemma is_act2_iff: "is_act2 a \<longleftrightarrow> (\<exists>bs. a = WriteAct2 bs)"
  by (cases a) (simp_all add: is_act2_def)

text \<open>Calls complete that were made: reads, writes of the handshake, and questions to the node.\<close>

definition possible :: "session_event \<Rightarrow> world \<Rightarrow> bool" where
  "possible ev w =
     (case ev of FirstByte b \<Rightarrow> mode_of (w_actions w) = Fresh \<and> \<not> cs_is_tls (w_cs w)
      | TlsHandshake failed \<Rightarrow> mode_of (w_actions w) = Fresh \<and> cs_is_tls (w_cs w)
      | Received chunk \<Rightarrow> StartRead \<in> set (w_actions w)
      | AddressAnswer p ec valid \<Rightarrow> ValidateAddress (pa_addr p) p \<in> set (w_actions w)
      | DogeAnswer p ec valid \<Rightarrow> ValidateDogeAddress (pa_doge_address p) p \<in> set (w_actions w)
      | NoiseAct1 first chunk \<Rightarrow> ReadAct1 first \<in> set (w_actions w)
      | Act2Written failed \<Rightarrow> list_ex is_act2 (w_actions w)
      | ReceivedV2 (Some bs) \<Rightarrow> StartReadV2 (length bs) \<in> set (w_actions w)
      | ReceivedV2 None \<Rightarrow> list_ex is_v2_read (w_actions w)
      | PayoutAnswer ec valid \<Rightarrow> list_ex (\<lambda>a. case a of ValidatePayout _ \<Rightarrow> True | _ \<Rightarrow> False) (w_actions w)
      | _ \<Rightarrow> True)"

inductive session_run :: "env \<Rightarrow> world \<Rightarrow> session_event list \<Rightarrow> world \<Rightarrow> bool" for E w0 where
  nothing: "session_run E w0 [] w0"
| event: "session_run E w0 evs w \<Longrightarrow> possible ev w \<Longrightarrow>
    session_run E w0 (evs @ [ev]) (session_step (clocks E t u z) ev w)"

text \<open>A name that passed the local checks.\<close>

definition cleared :: "env \<Rightarrow> pending_auth \<Rightarrow> bool" where
  "cleared E p \<longleftrightarrow> decode (\<lambda>b. Inr (ev_sha256 E b)) (pa_addr p) = Inr (pa_decoded p) \<and>
     length (pa_addr p) \<le> 128 \<and> length (pa_worker p) \<le> 64 \<and> \<not> address_blocked (pa_addr p) (ev_blacklist E) \<and>
     (if worker_is_free (pa_worker p) then free_granted (pa_addr p) (ev_blacklist E)
      else \<not> worker_blocked (pa_worker p) (ev_blacklist E))"

definition is_write :: "action \<Rightarrow> bool" where
  "is_write a = (case a of StartWrite _ \<Rightarrow> True | _ \<Rightarrow> False)"

definition silent :: "action list \<Rightarrow> bool" where
  "silent acts = list_all (\<lambda>a. \<not> is_write a) (dropWhile (\<lambda>a. a \<noteq> CloseSocket) acts)"

definition person :: "session \<Rightarrow> _" where
  "person cs = (cs_closed cs, cs_authorized cs, cs_worker_address cs, cs_worker_name cs, cs_worker_script_hex cs,
     cs_coin cs, cs_is_v2 cs)"

text \<open>The worker of a session is nobody, or a name that passed and that the node answered for.\<close>

definition worker_known :: "env \<Rightarrow> session_event list \<Rightarrow> session \<Rightarrow> bool" where
  "worker_known E evs cs \<longleftrightarrow>
     (\<exists>p. AddressAnswer p None True \<in> set evs \<and> cleared E p \<and>
        (pa_doge_address p \<noteq> [] \<and> ev_aux_client E \<longrightarrow> DogeAnswer p None True \<in> set evs) \<and>
        cs_worker_address cs = pa_addr p \<and> cs_worker_name cs = pa_worker p \<and>
        cs_worker_script_hex cs = worker_script E (chain_of cs) p)"

definition nobody :: "session \<Rightarrow> bool" where
  "nobody cs \<longleftrightarrow> \<not> cs_authorized cs \<and> cs_worker_address cs = [] \<and> cs_worker_name cs = [] \<and> cs_worker_script_hex cs = []"

text \<open>A Stratum V2 session pays to the script of some address that the pool decodes.\<close>

definition script_known :: "env \<Rightarrow> session \<Rightarrow> bool" where
  "script_known E cs \<longleftrightarrow> cs_worker_script_hex cs = [] \<or>
     (\<exists>a d. decode (\<lambda>b. Inr (ev_sha256 E b)) a = Inr d \<and> cs_worker_script_hex cs = script_pubkey_hex d)"

definition worker_ok :: "env \<Rightarrow> session_event list \<Rightarrow> mode \<Rightarrow> session \<Rightarrow> bool" where
  "worker_ok E evs k cs \<longleftrightarrow>
     (case k of Fresh \<Rightarrow> nobody cs \<and> \<not> cs_is_v2 cs
      | SpeaksV1 \<Rightarrow> \<not> cs_is_v2 cs \<and> (nobody cs \<or> worker_known E evs cs)
      | SpeaksV2 \<Rightarrow> (cs_authorized cs \<or> cs_worker_script_hex cs \<noteq> [] \<longrightarrow> cs_is_v2 cs) \<and> script_known E cs)"

definition refused :: "session_event list \<Rightarrow> bool" where
  "refused evs \<longleftrightarrow> (\<exists>ec valid. PayoutAnswer ec valid \<in> set evs \<and> (ec \<noteq> None \<or> \<not> valid))"

text \<open>An open session's queue is writing exactly while it holds something, and can drop the session.\<close>

definition flow :: "write_queue \<Rightarrow> bool" where
  "flow q \<longleftrightarrow> (wq_writing q \<longleftrightarrow> wq_queue q \<noteq> []) \<and> wq_drop_set q"

definition session_inv :: "env \<Rightarrow> session_event list \<Rightarrow> mode \<Rightarrow> world \<Rightarrow> bool" where
  "session_inv E evs md w \<longleftrightarrow>
     (cs_closed (w_cs w) \<longleftrightarrow> wq_stopped (w_queue w)) \<and> (\<not> cs_closed (w_cs w) \<longrightarrow> flow (w_queue w)) \<and>
     (CloseSocket \<in> set (w_actions w) \<longleftrightarrow> cs_closed (w_cs w)) \<and> silent (w_actions w) \<and>
     mode_of (w_actions w) = md \<and> (md = SpeaksV2 \<longrightarrow> StartRead \<notin> set (w_actions w)) \<and>
     (list_ex is_v2_read (w_actions w) \<longrightarrow> cs_is_v2 (w_cs w)) \<and>
     (\<forall>a p. ValidateAddress a p \<in> set (w_actions w) \<longrightarrow> md = SpeaksV1 \<and> cleared E p) \<and>
     (\<forall>a p. ValidateDogeAddress a p \<in> set (w_actions w) \<longrightarrow>
        md = SpeaksV1 \<and> cleared E p \<and> AddressAnswer p None True \<in> set evs) \<and>
     worker_ok E evs md (w_cs w) \<and> (refused evs \<longrightarrow> cs_closed (w_cs w))"

definition keeps :: "world \<Rightarrow> world \<Rightarrow> bool" where
  "keeps w w' \<longleftrightarrow> w_queue w' = w_queue w \<and> person (w_cs w') = person (w_cs w) \<and>
     (\<exists>acts. w_actions w' = w_actions w @ acts \<and> list_all harmless acts)"

lemma keeps_refl [simp]: "keeps w w"
  by (simp add: keeps_def)

lemma keeps_trans: "keeps w w' \<Longrightarrow> keeps w' w'' \<Longrightarrow> keeps w w''"
  by (force simp: keeps_def)

lemma tells_keeps: "tells w w' \<Longrightarrow> keeps w w'"
  by (simp add: tells_def keeps_def person_def identity_def)

lemma keeps_upd: "person (f (w_cs w)) = person (w_cs w) \<Longrightarrow> keeps w (upd_cs f w)"
  by (simp add: keeps_def)

lemma silent_append: "silent (xs @ ys) \<longleftrightarrow> (if CloseSocket \<in> set xs then silent xs \<and> list_all (\<lambda>a. \<not> is_write a) ys else silent ys)"
  by (auto simp: silent_def dropWhile_append list_all_iff dest: set_dropWhileD)

lemma harmless_silent: "list_all harmless acts \<Longrightarrow> silent acts \<and> list_all (\<lambda>a. \<not> is_write a) acts \<and> CloseSocket \<notin> set acts \<and>
    ValidateAddress a p \<notin> set acts \<and> ValidateDogeAddress a p \<notin> set acts \<and> StartRead \<notin> set acts \<and>
    \<not> list_ex v2_kind acts \<and> \<not> list_ex is_v2_read acts"
  by (induction acts) (auto simp: silent_def is_write_def harmless_def v2_kind_def is_v2_read_def split: action.splits)

lemma worker_ok_person: "person cs' = person cs \<Longrightarrow> worker_ok E evs k cs' = worker_ok E evs k cs"
  by (simp add: worker_ok_def worker_known_def person_def chain_of_def nobody_def script_known_def split: mode.split)

lemma mode_of_append [simp]: "\<not> list_ex v2_kind acts \<Longrightarrow> StartRead \<notin> set acts \<Longrightarrow> mode_of (xs @ acts) = mode_of xs"
  by (simp add: mode_of_def)

lemma kinds_simps [simp]:
  "\<not> v2_kind CloseSocket" "\<not> v2_kind StartRead" "v2_kind (StartReadV2 n)" "v2_kind (ReadAct1 c)" "v2_kind (WriteAct2 bs)"
  "v2_kind (ValidatePayout a)" "\<not> v2_kind (StartWrite m)" "\<not> v2_kind (ValidateAddress a p)" "\<not> v2_kind (ValidateDogeAddress a p)"
  "\<not> is_v2_read CloseSocket" "\<not> is_v2_read StartRead" "is_v2_read (StartReadV2 n)" "\<not> is_v2_read (ReadAct1 c)"
  "\<not> is_v2_read (WriteAct2 bs)" "\<not> is_v2_read (ValidatePayout a)" "\<not> is_v2_read (StartWrite m)"
  "\<not> is_v2_read (ValidateAddress a p)" "\<not> is_v2_read (ValidateDogeAddress a p)"
  by (simp_all add: v2_kind_def is_v2_read_def)

lemma worker_ok_event: "worker_ok E evs md cs \<Longrightarrow> worker_ok E (evs @ [ev]) md cs"
  by (auto simp: worker_ok_def worker_known_def split: mode.splits)

lemma worker_ok_closed: "worker_ok E evs md (cs\<lparr>cs_closed := b\<rparr>) = worker_ok E evs md cs"
  by (simp add: worker_ok_def worker_known_def chain_of_def nobody_def script_known_def split: mode.split)

lemma refused_append: "refused (evs @ [ev]) \<longleftrightarrow>
    refused evs \<or> (case ev of PayoutAnswer ec valid \<Rightarrow> ec \<noteq> None \<or> \<not> valid | _ \<Rightarrow> False)"
  by (auto simp: refused_def split: session_event.splits)

lemma inv_keeps:
  assumes "session_inv E evs md w" "keeps w w'"
  shows "session_inv E evs md w'"
proof -
  obtain acts where a: "w_actions w' = w_actions w @ acts" "list_all harmless acts"
    using assms(2) by (auto simp: keeps_def)
  have p: "person (w_cs w') = person (w_cs w)" "w_queue w' = w_queue w" using assms(2) by (simp_all add: keeps_def)
  then have "cs_closed (w_cs w') = cs_closed (w_cs w)" "cs_is_v2 (w_cs w') = cs_is_v2 (w_cs w)" by (simp_all add: person_def)
  with assms(1) a p harmless_silent [OF a(2)] show ?thesis
    by (auto simp: session_inv_def silent_append worker_ok_person [OF p(1)])
qed

lemma inv_disconnect:
  assumes "session_inv E evs md w"
  shows "session_inv E evs md (on_disconnect_local w)"
proof (cases "cs_closed (w_cs w)")
  case True
  then show ?thesis using assms by (simp add: on_disconnect_local_def)
next
  case False
  define w1 where "w1 = ask [CloseSocket] (upd_cs (\<lambda>cs. cs\<lparr>cs_closed := True\<rparr>)
    (w\<lparr>w_queue := wq_stop (w_queue w), w_limiter := map_option (on_disconnect (cs_client_ip (w_cs w))) (w_limiter w)\<rparr>))"
  have "session_inv E evs md w1"
    using assms False
    by (auto simp: session_inv_def w1_def silent_append wq_stop_def worker_ok_closed)
      (auto simp: silent_def is_write_def)
  moreover have "keeps w1 (on_disconnect_local w)"
    using False by (simp add: keeps_def w1_def on_disconnect_local_def Let_def person_def harmless_def)
  ultimately show ?thesis by (rule inv_keeps)
qed


text \<open>The events of a run only add to what the node answered.\<close>

lemma inv_event: "session_inv E evs md w \<Longrightarrow> (\<forall>ec v. ev \<noteq> PayoutAnswer ec v) \<or> cs_closed (w_cs w) \<Longrightarrow>
    session_inv E (evs @ [ev]) md w"
  by (cases ev) (auto simp: session_inv_def worker_ok_event refused_append)

lemma inv_line: "session_inv E evs md (send_line m w) = session_inv E evs md w"
  by (simp add: session_inv_def)

lemma inv_upd: "person (f (w_cs w)) = person (w_cs w) \<Longrightarrow> session_inv E evs md w \<Longrightarrow> session_inv E evs md (upd_cs f w)"
  by (blast intro: inv_keeps keeps_upd)

lemma inv_strat: "session_inv E evs md (w\<lparr>w_strat := s\<rparr>) = session_inv E evs md w"
  "session_inv E evs md (w\<lparr>w_limiter := r\<rparr>) = session_inv E evs md w"
  "session_inv E evs md (w\<lparr>w_posted := ms\<rparr>) = session_inv E evs md w"
  by (simp_all add: session_inv_def)

lemma inv_ask: "list_all harmless acts \<Longrightarrow> session_inv E evs md w \<Longrightarrow> session_inv E evs md (ask acts w)"
  by (rule inv_keeps [where w = w]) (auto simp: keeps_def)

lemma inv_tells: "tells w w' \<Longrightarrow> session_inv E evs md w \<Longrightarrow> session_inv E evs md w'"
  using inv_keeps tells_keeps by blast

lemma inv_reject: "session_inv E evs md w \<Longrightarrow> session_inv E evs md (reject D i r k w)"
  by (auto simp: reject_def Let_def inv_line inv_strat person_def intro!: inv_disconnect inv_upd
      split: option.splits prod.splits)

lemma inv_decline: "session_inv E evs md w \<Longrightarrow> session_inv E evs md (decline i k r w)"
  by (simp add: decline_def inv_line inv_upd person_def)

lemma inv_sighting: "session_inv E evs md (snd (first_sighting c w)) = session_inv E evs md w"
  by (simp add: session_inv_def)

lemma inv_settle_stale:
  assumes "settle_stale D i c w = (e, w')" "session_inv E evs md w"
  shows "session_inv E evs md w'"
proof -
  define w1 where "w1 = snd (first_sighting c w)"
  have 1: "session_inv E evs md w1" using assms(2) by (simp add: w1_def inv_sighting)
  have sub: "session_inv E evs md w2" if "submit_block_candidate D c u = (x, w2)" "session_inv E evs md u" for u x w2
    using that by (blast dest: submit_block_asks asks_tells intro: inv_tells)
  have aux: "session_inv E evs md w2" if "maybe_submit_aux_block D c u = (x, w2)" "session_inv E evs md u" for u x w2
    using that by (blast dest: submit_aux_asks asks_tells intro: inv_tells)
  have "and_then (if fst (first_sighting c w) then and_then (if ca_meets_network c then submit_block_candidate D c w1 else fine w1)
      (maybe_submit_aux_block D c) else fine w1) (\<lambda>w. fine (decline i 21 ''stale share - job for previous block'' w)) = (e, w')"
    using assms(1) unfolding settle_stale_def case_prod_beta Let_def w1_def .
  then show ?thesis using 1 by (auto elim!: and_then_cases intro: inv_decline sub aux split: if_splits)
qed

lemma inv_accept: "session_inv E evs md w \<Longrightarrow> session_inv E evs md (accept_share D i c w)"
  by (simp add: accept_share_def note_accepted_share_def Let_def inv_line inv_strat inv_upd person_def)

lemma inv_submit:
  assumes "handle_submit D msg w = (e, w')" "session_inv E evs md w"
  shows "session_inv E evs md w'"
  using assms(1)
proof (cases rule: handle_submit_cases)
  case (settled sh c)
  from settled(4) show ?thesis
  proof (cases rule: settle_cases)
    case stale
    then show ?thesis using assms(2) inv_settle_stale by blast
  next
    case low
    then show ?thesis using assms(2)
      by (auto simp: settle_low_def elim!: and_then_cases dest!: submit_block_asks asks_tells intro!: inv_reject
          intro: inv_tells split: if_splits)
  next
    case duplicate
    then show ?thesis using assms(2) by (simp add: inv_decline inv_sighting)
  next
    case accepted
    then have "tells (accept_share D (id_json D msg) c (snd (first_sighting c w))) w'"
      by (blast dest: settle_accepted_tells)
    then show ?thesis by (rule inv_tells) (simp add: inv_accept inv_sighting assms(2))
  qed
qed (use assms(2) in \<open>simp_all add: inv_reject\<close>)

lemma check_name_cleared: "check_name (clocks E t u z) cs msg = Inr p \<Longrightarrow> cleared E p"
  by (auto simp: check_name_def Let_def cleared_def clocks_def split: option.splits prod.splits if_splits sum.splits)

lemma inv_validate: "session_inv E evs SpeaksV1 w \<Longrightarrow> cleared E p \<Longrightarrow> session_inv E evs SpeaksV1 (ask [ValidateAddress (pa_addr p) p] w)"
  by (auto simp: session_inv_def silent_append is_write_def) (auto simp: silent_def is_write_def)

lemma inv_authorize: "handle_authorize (clocks E t u z) msg w = (e, w') \<Longrightarrow> session_inv E evs SpeaksV1 w \<Longrightarrow> session_inv E evs SpeaksV1 w'"
  by (auto simp: handle_authorize_def inv_line intro: inv_validate check_name_cleared split: sum.splits)

lemma inv_set_difficulty: "send_set_difficulty D d old w = (e, w') \<Longrightarrow> session_inv E evs md w \<Longrightarrow> session_inv E evs md w'"
  using send_set_difficulty_tells inv_tells by blast

lemma inv_emit: "emit_job D j b w = (e, w') \<Longrightarrow> session_inv E evs md w \<Longrightarrow> session_inv E evs md w'"
  using emit_job_tells inv_tells by blast

lemma inv_snapshot: "session_inv E evs md w \<Longrightarrow> session_inv E evs md (publish_snapshot w)"
  by (simp add: publish_snapshot_def inv_upd person_def)

lemma inv_subscribe:
  assumes "handle_subscribe D msg w = (e, w')" "session_inv E evs md w"
  shows "session_inv E evs md w'"
  using assms unfolding handle_subscribe_def Let_def
  by (auto elim!: and_then_cases intro!: inv_disconnect inv_snapshot inv_upd
      simp: inv_line person_def send_set_version_mask_def
      dest!: inv_set_difficulty split: if_splits option.splits)

lemma inv_suggest: "handle_suggest_difficulty D msg w = (e, w') \<Longrightarrow> session_inv E evs md w \<Longrightarrow> session_inv E evs md w'"
  unfolding handle_suggest_difficulty_def Let_def
  by (auto elim!: and_then_cases attempt_cases simp: inv_line intro: inv_set_difficulty split: if_splits list.splits)

lemma inv_extranonce: "on_extranonce_subscribe D msg w = (e, w') \<Longrightarrow> session_inv E evs md w \<Longrightarrow> session_inv E evs md w'"
  unfolding on_extranonce_subscribe_def Let_def
  by (auto simp: inv_line person_def elim!: inv_emit intro!: inv_upd split: option.splits)

lemma inv_dispatch: "dispatch (clocks E t u z) name msg w = (e, w') \<Longrightarrow> session_inv E evs SpeaksV1 w \<Longrightarrow> session_inv E evs SpeaksV1 w'"
  unfolding dispatch_def
  by (auto simp: handle_configure_def Let_def inv_line person_def intro!: inv_upd split: if_splits
      dest: inv_subscribe inv_authorize inv_submit inv_suggest inv_extranonce)

lemma inv_process: "session_inv E evs SpeaksV1 w \<Longrightarrow> session_inv E evs SpeaksV1 (process_line (clocks E t u z) line w)"
  by (auto simp: process_line_def inv_line dest: inv_dispatch split: option.splits prod.splits)


lemma inv_read_lines: "session_inv E evs SpeaksV1 w \<Longrightarrow> session_inv E evs SpeaksV1 (snd (read_lines (clocks E t u z) buf w))"
proof -
  obtain ls rest where b: "buf = joined ls @ rest" "nl \<notin> set rest" "list_all (\<lambda>l. nl \<notin> set l) ls"
    using split_lines by blast
  have "session_inv E evs SpeaksV1 (handle_lines (clocks E t u z) ls w)" if "session_inv E evs SpeaksV1 w"
    using that by (induction ls arbitrary: w) (simp_all add: handle_lines_def inv_process)
  then show "session_inv E evs SpeaksV1 w \<Longrightarrow> ?thesis"
    unfolding b(1) by (simp add: read_lines_joined [OF b(3)] read_lines_rest [OF b(2)])
qed

lemma inv_start_read: "session_inv E evs SpeaksV1 w \<Longrightarrow> session_inv E evs SpeaksV1 (ask [StartRead] w)"
  by (auto simp: session_inv_def silent_append mode_of_def is_write_def split: if_splits) (auto simp: silent_def is_write_def)

lemma inv_read: "session_inv E evs SpeaksV1 w \<Longrightarrow> session_inv E evs SpeaksV1 (on_read_v1 (clocks E t u z) chunk w)"
proof (cases chunk)
  case (Some s)
  define w1 where "w1 = upd_cs (\<lambda>cs. cs\<lparr>cs_buffer := cs_buffer (w_cs w) @ s\<rparr>) w"
  define r where "r = read_lines (clocks E t u z) (cs_buffer (w_cs w) @ s) w1"
  define w2 where "w2 = upd_cs (\<lambda>cs. cs\<lparr>cs_buffer := fst r\<rparr>) (snd r)"
  assume "session_inv E evs SpeaksV1 w"
  then have 1: "session_inv E evs SpeaksV1 w1" by (simp add: w1_def inv_upd person_def)
  then have "session_inv E evs SpeaksV1 w2" by (simp add: w2_def r_def inv_upd person_def inv_read_lines)
  moreover have "on_read_v1 (clocks E t u z) chunk w = (if length (cs_buffer (w_cs w) @ s) > 2 ^ 20 then on_disconnect_local w1
      else if cs_closed (w_cs w2) then w2 else ask [StartRead] w2)"
    unfolding on_read_v1_def Some Let_def w2_def r_def w1_def by (simp only: option.case case_prod_beta)
  ultimately show ?thesis using 1 by (simp add: inv_disconnect inv_start_read)
qed (simp add: on_read_v1_def inv_disconnect)

lemma inv_queue_actions:
  assumes "session_inv E evs md w" "acts \<noteq> [] \<longrightarrow> acts = [DropSession] \<or> (\<exists>m. acts = [AsyncWrite m] \<and> \<not> wq_stopped (w_queue w))"
  shows "session_inv E evs md (queue_actions acts w)"
proof (cases "acts = []")
  case False
  then consider "acts = [DropSession]" | m where "acts = [AsyncWrite m]" "\<not> wq_stopped (w_queue w)" using assms(2) by blast
  then show ?thesis
  proof cases
    case 2
    then have "CloseSocket \<notin> set (w_actions w)" using assms(1) by (simp add: session_inv_def)
    then show ?thesis using assms(1) by (auto simp: 2(1) queue_actions_def session_inv_def silent_append) (simp_all add: silent_def)
  qed (simp add: queue_actions_def inv_disconnect assms(1))
qed (simp add: queue_actions_def assms(1))

lemma inv_queue: "wq_stopped q = wq_stopped (w_queue w) \<Longrightarrow> flow q \<or> cs_closed (w_cs w) \<Longrightarrow> session_inv E evs md w \<Longrightarrow>
    session_inv E evs md (w\<lparr>w_queue := q\<rparr>)"
  by (auto simp: session_inv_def)

lemma inv_dropped:
  assumes "wq_stopped q = wq_stopped (w_queue w)" "session_inv E evs md w"
  shows "session_inv E evs md (on_disconnect_local (w\<lparr>w_queue := q\<rparr>))"
proof -
  have "on_disconnect_local (w\<lparr>w_queue := q\<rparr>) =
      (on_disconnect_local w)\<lparr>w_queue := (if cs_closed (w_cs w) then q else wq_stop q)\<rparr>"
    by (simp add: on_disconnect_local_def Let_def ask_def upd_cs_def)
  moreover have "cs_closed (w_cs (on_disconnect_local w))"
    "wq_stopped (w_queue (on_disconnect_local w))"
    using assms(2) by (simp_all add: on_disconnect_local_def Let_def session_inv_def wq_stop_def)
  ultimately show ?thesis
    using inv_disconnect [OF assms(2)] assms by (auto simp: session_inv_def wq_stop_def)
qed

lemma queue_ops:
  assumes "wq_push True m q = (ok, q', acts) \<or> on_write_done ec True q = (q', acts)"
  shows "wq_stopped q' = wq_stopped q"
    "acts \<noteq> [] \<longrightarrow> acts = [DropSession] \<or> (\<exists>m. acts = [AsyncWrite m] \<and> \<not> wq_stopped q')"
    "flow q \<Longrightarrow> \<not> wq_stopped q \<Longrightarrow> flow q' \<or> acts = [DropSession]"
  using assms by (auto simp: wq_push_def on_write_done_def wq_write_def call_drop_def Let_def flow_def split: if_splits)

lemma inv_queue_step:
  assumes "wq_push True m (w_queue w) = (ok, q, acts) \<or> on_write_done ec True (w_queue w) = (q, acts)" "session_inv E evs md w"
  shows "session_inv E evs md (queue_actions acts (w\<lparr>w_queue := q\<rparr>))"
proof (cases "acts = [DropSession]")
  case True
  then show ?thesis using inv_dropped [OF queue_ops(1) [OF assms(1)] assms(2)] by (simp add: queue_actions_def)
next
  case False
  have "flow q \<or> cs_closed (w_cs w)"
    using queue_ops(3) [OF assms(1)] False assms(2) by (auto simp: session_inv_def)
  then have "session_inv E evs md (w\<lparr>w_queue := q\<rparr>)" by (rule inv_queue [OF queue_ops(1) [OF assms(1)] _ assms(2)])
  then show ?thesis by (rule inv_queue_actions) (use queue_ops(2) [OF assms(1)] in auto)
qed

lemma inv_push: "session_inv E evs md w \<Longrightarrow> session_inv E evs md (push_line m w)"
  unfolding push_line_def by (auto split: prod.split intro: inv_queue_step)

lemma inv_written: "session_inv E evs md w \<Longrightarrow> session_inv E evs md (on_line_written ec w)"
  unfolding on_line_written_def by (auto split: prod.split intro: inv_queue_step)

lemma inv_posted: "session_inv E evs md w \<Longrightarrow> session_inv E evs md (run_posted w)"
  by (simp add: run_posted_def inv_push inv_strat split: list.split)

lemma inv_emit_v2: "emit_job_v2 D j w = (e, w') \<Longrightarrow> session_inv E evs md w \<Longrightarrow> session_inv E evs md w'"
  using emit_job_v2_tells inv_tells by blast

lemma inv_notify: "session_inv E evs md w \<Longrightarrow> session_inv E evs md (snd (notify_new_job D job w))"
proof -
  assume i: "session_inv E evs md w"
  have plain: "session_inv E evs md (snd (if cs_is_v2 (w_cs w) then emit_job_v2 D job w else emit_job D job False w))"
    using i inv_emit [of D job False w] inv_emit_v2 [of D job w]
    by (cases "emit_job D job False w"; cases "emit_job_v2 D job w") simp
  have custom: "session_inv E evs md (emit_job_custom D job pre b w1)" if "session_inv E evs md w1" for pre b w1
    using that by (simp add: emit_job_custom_def Let_def inv_line)
  show ?thesis
    using i plain unfolding notify_new_job_def Let_def
    by (auto simp: person_def attempt_def intro!: custom inv_upd split: sum.split option.split)
qed

text \<open>The worker of a validated name.\<close>

lemma known_person: "person cs' = person cs \<Longrightarrow> worker_known E evs cs' = worker_known E evs cs"
  by (simp add: worker_known_def person_def chain_of_def)

lemma inv_new_worker:
  assumes "session_inv E evs SpeaksV1 w" "worker_known E evs (f (w_cs w))"
    and "cs_closed (f (w_cs w)) = cs_closed (w_cs w)" "cs_is_v2 (f (w_cs w)) = cs_is_v2 (w_cs w)"
  shows "session_inv E evs SpeaksV1 (upd_cs f w)"
  using assms by (auto simp: session_inv_def worker_ok_def)

lemma inv_authorized: "session_inv E evs SpeaksV1 w \<Longrightarrow> worker_known E evs (w_cs w) \<Longrightarrow>
    session_inv E evs SpeaksV1 (upd_cs (\<lambda>cs. cs\<lparr>cs_authorized := True\<rparr>) w)"
  by (rule inv_new_worker) (simp_all add: worker_known_def chain_of_def)

lemma inv_proceed:
  assumes "session_inv E evs SpeaksV1 w" "cleared E p" "AddressAnswer p None True \<in> set evs"
    and "pa_doge_address p \<noteq> [] \<and> ev_aux_client E \<longrightarrow> DogeAnswer p None True \<in> set evs"
    and "proceed_auth (clocks E t u z) p w = (e, w')"
  shows "session_inv E evs SpeaksV1 w'"
proof -
  define w1 where "w1 = upd_cs (\<lambda>cs. cs\<lparr>cs_worker_address := pa_addr p, cs_worker_name := pa_worker p,
      cs_worker_script_hex := worker_script (clocks E t u z) (chain_of cs) p\<rparr>) w"
  define auth where "auth = (\<lambda>w. let w = send_line (ok_line (pa_id_json p)) w; cs = w_cs w;
      w = upd_cs (\<lambda>cs. cs\<lparr>cs_miner_id :=
        ev_ensure_miner (clocks E t u z) (cs_worker_address cs) (cs_worker_name cs) (cs_client_ip cs)\<rparr>) w;
      w = ask [Presence (cs_worker_address cs) (cs_worker_name cs) ''online'' (cs_client_ip cs)] w;
      w = publish_snapshot (upd_cs (\<lambda>cs. cs\<lparr>cs_authorized := True\<rparr>) w)
    in case latestJob (w_strat w) of Some j \<Rightarrow> emit_job (clocks E t u z) j False w | None \<Rightarrow> fine w)"
  define known where "known = (\<lambda>w. session_inv E evs SpeaksV1 w \<and> worker_known E evs (w_cs w))"
  have known_tells: "known w2" if "tells w1 w2" "known w1" for w1 w2
    using that inv_tells tells_keeps known_person unfolding known_def keeps_def by blast
  have "worker_known E evs (w_cs w1)"
    using assms(2-4) unfolding worker_known_def w1_def
    by (intro exI [of _ p]) (simp add: worker_script_def clocks_def chain_of_def)
  then have 1: "known w1" using assms(1) by (auto simp: known_def w1_def intro: inv_new_worker)
  have auth: "session_inv E evs SpeaksV1 w3" if a: "auth w2 = (x, w3)" and k: "known w2" for x w2 w3
  proof -
    define w3' where "w3' = send_line (ok_line (pa_id_json p)) w2"
    define w4 where "w4 = ask [Presence (cs_worker_address (w_cs w3')) (cs_worker_name (w_cs w3')) ''online'' (cs_client_ip (w_cs w3'))]
      (upd_cs (\<lambda>cs. cs\<lparr>cs_miner_id := ev_ensure_miner (clocks E t u z) (cs_worker_address cs)
        (cs_worker_name cs) (cs_client_ip cs)\<rparr>) w3')"
    have "keeps w2 w4" by (simp add: w4_def w3'_def keeps_def person_def harmless_def)
    then have "session_inv E evs SpeaksV1 w4" "worker_known E evs (w_cs w4)"
      using k inv_keeps known_person unfolding known_def keeps_def by blast+
    then have "session_inv E evs SpeaksV1 (publish_snapshot (upd_cs (\<lambda>cs. cs\<lparr>cs_authorized := True\<rparr>) w4))"
      by (intro inv_snapshot inv_authorized)
    with a show ?thesis unfolding auth_def Let_def w4_def w3'_def
      by (auto dest: inv_emit split: option.splits)
  qed
  have custom: "known (upd_cs (\<lambda>cs. cs\<lparr>cs_custom_difficulty := Some d, cs_vardiff := set_current d (cs_vardiff cs)\<rparr>) w1)" for d
    using 1 by (auto simp: known_def inv_upd person_def worker_known_def chain_of_def)
  have "and_then (case pa_custom_diff p of None \<Rightarrow> fine w1
      | Some d \<Rightarrow> send_set_difficulty (clocks E t u z) d None
          (upd_cs (\<lambda>cs. cs\<lparr>cs_custom_difficulty := Some d, cs_vardiff := set_current d (cs_vardiff cs)\<rparr>) w1)) auth = (e, w')"
    using assms(5) unfolding proceed_auth_def Let_def w1_def auth_def .
  then show ?thesis
  proof (cases rule: and_then_cases)
    case failed
    then show ?thesis using custom by (auto simp: known_def dest: inv_set_difficulty split: option.splits)
  next
    case (passed w2)
    have "known w2"
      using passed(1) 1 custom known_tells send_set_difficulty_tells by (auto split: option.splits) blast
    with passed(2) show ?thesis by (rule auth)
  qed
qed

lemma inv_address:
  assumes "session_inv E evs SpeaksV1 w" "ValidateAddress (pa_addr p) p \<in> set (w_actions w)"
  shows "session_inv E (evs @ [AddressAnswer p ec valid]) SpeaksV1 (snd (on_address_validated (clocks E t u z) p ec valid w))"
proof -
  let ?evs = "evs @ [AddressAnswer p ec valid]"
  have i: "session_inv E ?evs SpeaksV1 w" and c: "cleared E p" using inv_event [OF assms(1)] assms by (auto simp: session_inv_def)
  have doge: "session_inv E ?evs SpeaksV1 (ask [ValidateDogeAddress (pa_doge_address p) p] w)" if "ec = None" "valid"
    using i c that by (auto simp: session_inv_def silent_append is_write_def) (auto simp: silent_def is_write_def)
  have default: "session_inv E ?evs SpeaksV1 (upd_cs (default_doge D) w)" for D
    using i by (rule inv_upd [rotated]) (auto simp: default_doge_def Let_def person_def split: sum.split)
  obtain x w' where p: "proceed_auth (clocks E t u z) p (upd_cs (default_doge (clocks E t u z)) w) = (x, w')" by fastforce
  have "session_inv E ?evs SpeaksV1 w'" if "ec = None" "valid" "\<not> (pa_doge_address p \<noteq> [] \<and> ev_aux_client E)"
    by (rule inv_proceed [OF default c _ _ p]) (use that in auto)
  then show ?thesis
    using i doge p by (auto simp: on_address_validated_def inv_line clocks_def)
qed

lemma inv_doge:
  assumes "session_inv E evs SpeaksV1 w" "ValidateDogeAddress (pa_doge_address p) p \<in> set (w_actions w)"
  shows "session_inv E (evs @ [DogeAnswer p ec valid]) SpeaksV1 (snd (on_doge_validated (clocks E t u z) p ec valid w))"
proof -
  let ?evs = "evs @ [DogeAnswer p ec valid]"
  define f :: "session \<Rightarrow> session" where "f = (\<lambda>cs. let cs = cs\<lparr>cs_aux_doge_address := pa_doge_address p\<rparr>
        in case decode (\<lambda>b. Inr (ev_sha256 (clocks E t u z) b)) (pa_doge_address p) of
             Inr d \<Rightarrow> cs\<lparr>cs_doge_script_hex := script_pubkey_hex d\<rparr> | Inl _ \<Rightarrow> cs)"
  have i: "session_inv E ?evs SpeaksV1 w" using assms(1) by (rule inv_event) simp
  have c: "cleared E p" "AddressAnswer p None True \<in> set ?evs" using assms by (auto simp: session_inv_def)
  have f: "session_inv E ?evs SpeaksV1 (upd_cs f w)"
    using i by (rule inv_upd [rotated]) (auto simp: f_def Let_def person_def split: sum.split)
  obtain x w' where p: "proceed_auth (clocks E t u z) p (upd_cs f w) = (x, w')" by fastforce
  have "session_inv E ?evs SpeaksV1 w'" if "ec = None" "valid"
    by (rule inv_proceed [OF f c _ p]) (use that in simp)
  then show ?thesis
    using i p unfolding on_doge_validated_def f_def [symmetric] by (auto simp: inv_line)
qed

text \<open>The Stratum V2 half: the session speaks and pays to a script that belongs to an address.\<close>

definition speaking :: "env \<Rightarrow> session_event list \<Rightarrow> world \<Rightarrow> bool" where
  "speaking E evs w \<longleftrightarrow> session_inv E evs SpeaksV2 w \<and> cs_is_v2 (w_cs w)"

lemma speaking_tells: "tells w w' \<Longrightarrow> speaking E evs w \<Longrightarrow> speaking E evs w'"
  using inv_tells by (auto simp: speaking_def) (simp add: tells_def identity_def)

lemma speaking_disconnect: "speaking E evs w \<Longrightarrow> speaking E evs (on_disconnect_local w)"
  by (auto simp: speaking_def inv_disconnect) (simp add: on_disconnect_local_def Let_def)

lemma inv_ask_v2:
  assumes "session_inv E evs SpeaksV2 w" "list_all (\<lambda>a. harmless a \<or> v2_kind a) acts" "list_ex is_v2_read acts \<longrightarrow> cs_is_v2 (w_cs w)"
  shows "session_inv E evs SpeaksV2 (ask acts w)"
proof -
  have "CloseSocket \<notin> set acts \<and> StartRead \<notin> set acts \<and> ValidateAddress a p \<notin> set acts \<and> ValidateDogeAddress a p \<notin> set acts \<and>
      list_all (\<lambda>a. \<not> is_write a) acts" for a p
    using assms(2) by (induction acts) (auto simp: harmless_def v2_kind_def is_write_def split: action.splits)
  moreover then have "silent acts" by (auto simp: silent_def list_all_iff dest: set_dropWhileD)
  moreover have "mode_of (w_actions w @ acts) = SpeaksV2"
    using assms(1) by (simp add: session_inv_def mode_of_def split: if_splits)
  ultimately show ?thesis using assms(1,3) by (auto simp: session_inv_def silent_append)
qed

lemma speaking_ask: "speaking E evs w \<Longrightarrow> list_all (\<lambda>a. harmless a \<or> v2_kind a) acts \<Longrightarrow> speaking E evs (ask acts w)"
  by (simp add: speaking_def inv_ask_v2)

lemma speaking_upd:
  assumes "speaking E evs w" "cs_closed (f (w_cs w)) = cs_closed (w_cs w)" "cs_is_v2 (f (w_cs w)) = cs_is_v2 (w_cs w)"
    "script_known E (f (w_cs w))"
  shows "speaking E evs (upd_cs f w)"
  using assms by (auto simp: speaking_def session_inv_def worker_ok_def)

lemma speaking_script: "speaking E evs w \<Longrightarrow> script_known E (w_cs w)"
  by (simp add: speaking_def session_inv_def worker_ok_def)

lemma speaking_strat: "speaking E evs (w\<lparr>w_strat := s\<rparr>) = speaking E evs w"
  by (simp add: speaking_def inv_strat)

lemma speaking_same:
  assumes "speaking E evs w" "cs_closed (f (w_cs w)) = cs_closed (w_cs w)" "cs_is_v2 (f (w_cs w)) = cs_is_v2 (w_cs w)"
    "cs_worker_script_hex (f (w_cs w)) = cs_worker_script_hex (w_cs w)"
  shows "speaking E evs (upd_cs f w)"
  using assms speaking_script [OF assms(1)] by (intro speaking_upd) (auto simp: script_known_def)

lemma speaking_send: "speaking E evs w \<Longrightarrow> speaking E evs (send_v2_message D t p w)"
  by (rule speaking_tells [OF send_v2_tells])

lemma speaking_read: "speaking E evs w \<Longrightarrow> speaking E evs (do_read_v2 n w)"
  by (simp add: do_read_v2_def speaking_ask)

lemma speaking_snapshot: "speaking E evs w \<Longrightarrow> speaking E evs (publish_snapshot w)"
  by (simp add: publish_snapshot_def speaking_same)

lemma speaking_register: "speaking E evs w \<Longrightarrow> speaking E evs (register_miner D w)"
  by (simp add: register_miner_def Let_def speaking_ask speaking_same harmless_def)

lemma speaking_first_job: "first_job_v2 D w = (e, w') \<Longrightarrow> speaking E evs w \<Longrightarrow> speaking E evs w'"
  by (auto simp: first_job_v2_def validate_payout_async_def elim!: and_then_cases intro!: speaking_ask
      dest!: emit_job_v2_tells intro: speaking_tells split: option.splits)

lemma speaking_identify: "speaking E evs w \<Longrightarrow> speaking E evs (identify user w)"
  by (simp add: identify_def speaking_same split: prod.split)

lemma script_knownI: "decode (\<lambda>b. Inr (ev_sha256 E b)) a = Inr d \<Longrightarrow> cs_worker_script_hex cs = script_pubkey_hex d \<Longrightarrow>
    script_known E cs"
  unfolding script_known_def by blast

lemma speaking_open:
  assumes "speaking E evs w" "decode (\<lambda>b. Inr (ev_sha256 (clocks E t u z) b)) a = Inr d"
    "cs_closed (f (w_cs w)) = cs_closed (w_cs w)" "cs_is_v2 (f (w_cs w)) = cs_is_v2 (w_cs w)"
    "cs_worker_script_hex (f (w_cs w)) = script_pubkey_hex d"
  shows "speaking E evs (upd_cs f w)"
  using assms by (intro speaking_upd script_knownI) (simp_all add: clocks_def)

lemma speaking_open_standard:
  assumes "handle_open_standard (clocks E t u z) m w = (e, w')" "speaking E evs w"
  shows "speaking E evs w'"
proof -
  have i: "speaking E evs (identify (osc_user_identity m) w)" using assms(2) by (rule speaking_identify)
  show ?thesis
    using assms(1) unfolding handle_open_standard_def Let_def send_v2_open_channel_error_def
    by (auto split: sum.splits intro!: speaking_send i elim!: speaking_first_job)
      (auto intro!: speaking_register speaking_send speaking_open [OF i])
qed

lemma speaking_open_extended:
  assumes "handle_open_extended (clocks E t u z) m w = (e, w')" "speaking E evs w"
  shows "speaking E evs w'"
proof -
  have i: "speaking E evs (identify (oec_user_identity m) w)" using assms(2) by (rule speaking_identify)
  show ?thesis
    using assms(1) unfolding handle_open_extended_def Let_def send_v2_open_channel_error_def
    by (auto split: sum.splits intro!: speaking_send i elim!: speaking_first_job attempt_cases)
      (auto intro!: speaking_snapshot speaking_register speaking_send speaking_same speaking_open [OF i])
qed

lemma speaking_setup: "speaking E evs w \<Longrightarrow> speaking E evs (handle_setup D m w)"
  by (auto simp: handle_setup_def send_v2_error_def intro!: speaking_snapshot speaking_send speaking_same)

lemma speaking_custom: "speaking E evs w \<Longrightarrow> speaking E evs (handle_set_custom_mining_job D m w)"
  by (auto simp: handle_set_custom_mining_job_def custom_job_error_def Let_def intro!: speaking_send speaking_same)

lemma speaking_rescue: "rescue_block_v2 D b c w = (e, w') \<Longrightarrow> speaking E evs w \<Longrightarrow> speaking E evs w'"
  by (auto simp: rescue_block_v2_def Let_def dest!: submit_sv2_asks asks_tells intro: speaking_tells
      split: if_splits prod.splits simp: speaking_strat)

lemma speaking_reject: "speaking E evs w \<Longrightarrow> speaking E evs (reject_v2 D n x w)"
  by (simp add: reject_v2_def speaking_same speaking_send)

lemma speaking_accept: "speaking E evs w \<Longrightarrow> speaking E evs (accept_share_v2 D n x w)"
  by (simp add: accept_share_v2_def note_accepted_share_def Let_def speaking_strat speaking_same speaking_send)

lemma speaking_counted: "speaking E evs w \<Longrightarrow>
    speaking E evs (persist_share_v2 i n x c t (retarget_v2 D b t d (accept_share_v2 D q y w)))"
  by (intro speaking_tells [OF asks_tells [OF persist_v2_asks]] speaking_tells [OF retarget_tells] speaking_accept)

lemma speaking_submit_standard: "handle_submit_standard_v2 D m w = (e, w') \<Longrightarrow> speaking E evs w \<Longrightarrow> speaking E evs w'"
  unfolding handle_submit_standard_v2_def Let_def
  by (auto elim!: attempt_cases and_then_cases intro!: speaking_reject speaking_counted
      split: option.splits if_splits) (erule speaking_rescue, assumption)+

lemma speaking_submit_extended: "handle_submit_extended_v2 D m w = (e, w') \<Longrightarrow> speaking E evs w \<Longrightarrow> speaking E evs w'"
  unfolding handle_submit_extended_v2_def Let_def
  by (auto elim!: attempt_cases and_then_cases intro!: speaking_reject speaking_counted
      split: option.splits if_splits) (erule speaking_rescue, assumption)+

lemma speaking_message: "process_message_v2 (clocks E t u z) h payload w = (e, w') \<Longrightarrow> speaking E evs w \<Longrightarrow> speaking E evs w'"
  unfolding process_message_v2_def Let_def
  by (auto elim!: attempt_cases intro!: speaking_setup speaking_custom
      dest: speaking_open_standard speaking_open_extended speaking_submit_standard speaking_submit_extended split: if_splits)

lemma speaking_step:
  assumes "speaking E evs w"
  shows "case step_v2 (clocks E t u z) buf w of Wait buf' w' \<Rightarrow> speaking E evs w' | Again buf' w' \<Rightarrow> speaking E evs w'"
proof -
  note rules = speaking_read speaking_disconnect
  have msg: "speaking E evs (snd (process_message_v2 (clocks E t u z) h p w'))" if "speaking E evs w'" for h p w'
    using that by (cases "process_message_v2 (clocks E t u z) h p w'") (auto dest: speaking_message)
  have set: "speaking E evs (upd_cs (\<lambda>cs. cs\<lparr>cs_noise := n\<rparr>) w)" "speaking E evs (upd_cs (\<lambda>cs. cs\<lparr>cs_sv2_pending_header := h\<rparr>) w')"
    "speaking E evs (upd_cs (\<lambda>cs. cs\<lparr>cs_noise := n, cs_sv2_pending_header := None\<rparr>) w)" if "speaking E evs w'" for n h w'
    using assms that by (auto intro!: speaking_same)
  have buffer: "speaking E evs (set_buffer bs w')" if "speaking E evs w'" for bs w'
    using that by (simp add: set_buffer_def speaking_same)
  show ?thesis
  proof (cases "cs_is_v2_encrypted (w_cs w)")
    case False
    then show ?thesis using assms by (simp add: step_v2_def Let_def reading_def rules msg buffer)
  next
    case True
    then show ?thesis using assms
      by (auto simp: step_v2_def Let_def reading_def intro!: rules msg set buffer split: option.splits prod.splits)
  qed
qed

lemma speaking_buffer: "speaking E evs w \<Longrightarrow> speaking E evs (snd (process_v2_buffer (clocks E t u z) buf w))"
proof (induction "length buf" arbitrary: buf w rule: less_induct)
  case less
  show ?case
  proof (cases "step_v2 (clocks E t u z) buf w")
    case (Wait b w')
    then show ?thesis using speaking_step [OF less.prems, of t u z buf] by (simp add: process_v2_buffer.simps)
  next
    case (Again b w')
    then have "speaking E evs w'" "length b < length buf"
      using speaking_step [OF less.prems, of t u z buf] step_v2_consumes by auto
    with less.hyps Again show ?thesis by (subst process_v2_buffer.simps) simp
  qed
qed

lemma speaking_on_read: "speaking E evs w \<Longrightarrow> speaking E evs (on_read_v2 (clocks E t u z) chunk w)"
  using speaking_buffer [of E evs w t u z]
  by (auto simp: on_read_v2_def set_buffer_def speaking_disconnect split: option.split prod.split intro!: speaking_same)
    (metis snd_conv)

section \<open>Steps\<close>

text \<open>The first byte decides the protocol.\<close>

lemma inv_first_byte:
  assumes "session_inv E evs Fresh w"
  shows "\<exists>md. session_inv E evs md (on_first_byte b w)"
proof -
  have fresh: "mode_of (w_actions w) = Fresh" and n: "nobody (w_cs w)" "\<not> cs_is_v2 (w_cs w)"
    using assms by (auto simp: session_inv_def worker_ok_def)
  have kinds: "\<not> list_ex v2_kind (w_actions w)" "StartRead \<notin> set (w_actions w)" "\<not> list_ex is_v2_read (w_actions w)"
    using fresh assms by (auto simp: mode_of_def session_inv_def n split: if_splits)
  have v1: "session_inv E evs SpeaksV1 (ask [StartRead] (upd_cs (\<lambda>cs. cs\<lparr>cs_is_v2 := False, cs_buffer := f cs\<rparr>) w))" for f
    using assms kinds n by (auto simp: session_inv_def silent_append mode_of_def worker_ok_def nobody_def is_write_def)
      (auto simp: silent_def is_write_def)
  have v2: "session_inv E evs SpeaksV2 (ask [StartReadV2 5] (upd_cs (\<lambda>cs. cs\<lparr>cs_is_v2 := True, cs_sv2_read_buffer := f cs\<rparr>) w))" for f
    using assms kinds n by (auto simp: session_inv_def silent_append mode_of_def worker_ok_def nobody_def script_known_def is_write_def)
      (auto simp: silent_def is_write_def)
  have act1: "session_inv E evs SpeaksV2 (ask [ReadAct1 c] w)" for c
    using assms kinds n by (auto simp: session_inv_def silent_append mode_of_def worker_ok_def nobody_def script_known_def is_write_def)
      (auto simp: silent_def is_write_def)
  show ?thesis
  proof (cases b)
    case (Some c)
    have some: "\<exists>md. session_inv E evs md (ask [StartRead] (upd_cs (\<lambda>cs. cs\<lparr>cs_is_v2 := False, cs_buffer := cs_buffer cs @ [c]\<rparr>) w))"
      "\<exists>md. session_inv E evs md (ask [StartReadV2 5]
         (upd_cs (\<lambda>cs. cs\<lparr>cs_is_v2 := True, cs_sv2_read_buffer := cs_sv2_read_buffer cs @ [byte_of_char c]\<rparr>) w))"
      "\<exists>md. session_inv E evs md (ask [ReadAct1 (byte_of_char c)] w)" "\<exists>md. session_inv E evs md (on_disconnect_local w)"
      using v1 [of "\<lambda>cs. cs_buffer cs @ [c]"] v2 [of "\<lambda>cs. cs_sv2_read_buffer cs @ [byte_of_char c]"] act1
        inv_disconnect [OF assms] by blast+
    then show ?thesis unfolding on_first_byte_def Some option.case by (auto split: if_split simp del: ex_simps)
  qed (use inv_disconnect [OF assms] in \<open>auto simp: on_first_byte_def\<close>)
qed

lemma inv_handshake:
  assumes "session_inv E evs Fresh w"
  shows "\<exists>md. session_inv E evs md (on_tls_handshake failed w)"
proof -
  have fresh: "mode_of (w_actions w) = Fresh" and n: "nobody (w_cs w)" "\<not> cs_is_v2 (w_cs w)"
    using assms by (auto simp: session_inv_def worker_ok_def)
  have kinds: "\<not> list_ex v2_kind (w_actions w)" "StartRead \<notin> set (w_actions w)" "\<not> list_ex is_v2_read (w_actions w)"
    using fresh assms by (auto simp: mode_of_def session_inv_def n split: if_splits)
  have "session_inv E evs SpeaksV1 (ask [StartRead] (upd_cs (\<lambda>cs. cs\<lparr>cs_is_v2 := False\<rparr>) w))"
    using assms kinds n by (auto simp: session_inv_def silent_append mode_of_def worker_ok_def nobody_def is_write_def)
      (auto simp: silent_def is_write_def)
  then show ?thesis using inv_disconnect [OF assms] by (auto simp: on_tls_handshake_def)
qed

lemma inv_noise:
  assumes "session_inv E evs SpeaksV2 w"
  shows "session_inv E evs SpeaksV2 (upd_cs (\<lambda>cs. cs\<lparr>cs_noise := n\<rparr>) w)"
  using assms by (intro inv_upd) (simp_all add: person_def)

lemma inv_act1: "session_inv E evs SpeaksV2 w \<Longrightarrow> session_inv E evs SpeaksV2 (on_noise_act1 D first chunk w)"
  unfolding on_noise_act1_def Let_def
  by (auto intro!: inv_disconnect inv_noise inv_ask_v2 split: option.splits prod.splits sum.splits)

lemma inv_act2: "session_inv E evs SpeaksV2 w \<Longrightarrow> session_inv E evs SpeaksV2 (on_act2_written failed w)"
proof -
  assume i: "session_inv E evs SpeaksV2 w"
  have "session_inv E evs SpeaksV2 (upd_cs (\<lambda>cs. cs\<lparr>cs_is_v2 := True, cs_is_v2_encrypted := True\<rparr>) w)"
    using i by (auto simp: session_inv_def worker_ok_def script_known_def)
  then have "speaking E evs (upd_cs (\<lambda>cs. cs\<lparr>cs_is_v2 := True, cs_is_v2_encrypted := True\<rparr>) w)"
    by (simp add: speaking_def)
  then show ?thesis using i using speaking_read [of E evs _ 22] by (auto simp: on_act2_written_def inv_disconnect speaking_def)
qed

lemma inv_payout:
  assumes "session_inv E evs md w"
  shows "session_inv E (evs @ [PayoutAnswer ec valid]) md (on_payout_validated ec valid w)"
proof -
  have "session_inv E (evs @ [PayoutAnswer ec valid]) md (if cs_closed (w_cs w) then w else on_disconnect_local w)"
    if "cs_closed (w_cs (if cs_closed (w_cs w) then w else on_disconnect_local w))"
    using inv_event [OF inv_disconnect [OF assms]] inv_event [OF assms] that by auto
  moreover have "session_inv E (evs @ [PayoutAnswer None True]) md w"
    using assms by (auto simp: session_inv_def refused_append worker_ok_event)
  ultimately show ?thesis
    by (auto simp: on_payout_validated_def on_disconnect_local_def Let_def split: if_splits)
qed

lemma inv_step:
  assumes "session_inv E evs md w" "possible ev w"
  shows "\<exists>md. session_inv E (evs @ [ev]) md (session_step (clocks E t u z) ev w)"
proof -
  have ok: "(\<forall>ec v. ev \<noteq> PayoutAnswer ec v) \<Longrightarrow> session_inv E (evs @ [ev]) md w"
    using assms(1) by (rule inv_event) simp
  have v2: "md = SpeaksV2" if "a \<in> set (w_actions w)" "v2_kind a" for a
  proof -
    have "list_ex v2_kind (w_actions w)" using that by (auto simp: list_ex_iff)
    moreover have "mode_of (w_actions w) = md" using assms(1) by (simp add: session_inv_def)
    ultimately show ?thesis by (simp add: mode_of_def)
  qed
  have speaking: "speaking E evs w" if "a \<in> set (w_actions w)" "is_v2_read a" for a
  proof -
    have "v2_kind a" using that(2) by (simp add: is_v2_read_def v2_kind_def split: action.splits)
    then have "md = SpeaksV2" using that(1) v2 by blast
    moreover have "cs_is_v2 (w_cs w)" using assms(1) that by (auto simp: session_inv_def list_ex_iff)
    ultimately show ?thesis using assms(1) by (simp add: speaking_def)
  qed
  show ?thesis
  proof (cases ev)
    case (FirstByte b)
    with assms(2) ok have "session_inv E (evs @ [ev]) Fresh w" by (auto simp: possible_def session_inv_def)
    then show ?thesis unfolding session_step_def FirstByte session_event.case using inv_first_byte by blast
  next
    case (TlsHandshake failed)
    with assms(2) ok have "session_inv E (evs @ [ev]) Fresh w" by (auto simp: possible_def session_inv_def)
    then show ?thesis unfolding session_step_def TlsHandshake session_event.case using inv_handshake by blast
  next
    case (Received chunk)
    with assms(2) ok have "session_inv E (evs @ [ev]) SpeaksV1 w"
      by (auto simp: possible_def session_inv_def mode_of_def split: if_splits)
    from inv_read [OF this, of t u z chunk] show ?thesis by (auto simp: session_step_def Received)
  next
    case (AddressAnswer p ec valid)
    with assms have "session_inv E evs SpeaksV1 w" "ValidateAddress (pa_addr p) p \<in> set (w_actions w)"
      by (auto simp: possible_def session_inv_def)
    then show ?thesis unfolding session_step_def AddressAnswer session_event.case using inv_address by blast
  next
    case (DogeAnswer p ec valid)
    with assms have "session_inv E evs SpeaksV1 w" "ValidateDogeAddress (pa_doge_address p) p \<in> set (w_actions w)"
      by (auto simp: possible_def session_inv_def)
    then show ?thesis unfolding session_step_def DogeAnswer session_event.case using inv_doge by blast
  next
    case (NoiseAct1 first chunk)
    with assms(2) ok v2 [of "ReadAct1 first"] have "session_inv E (evs @ [ev]) SpeaksV2 w" by (auto simp: possible_def)
    then show ?thesis unfolding session_step_def NoiseAct1 session_event.case using inv_act1 by blast
  next
    case (Act2Written failed)
    with assms(2) obtain act2 where "WriteAct2 act2 \<in> set (w_actions w)"
      by (auto simp: possible_def list_ex_iff is_act2_iff)
    with v2 [of "WriteAct2 act2"] ok Act2Written have "session_inv E (evs @ [ev]) SpeaksV2 w" by simp
    then show ?thesis unfolding session_step_def Act2Written session_event.case using inv_act2 by blast
  next
    case (ReceivedV2 chunk)
    with assms(2) speaking have "speaking E evs w"
      by (cases chunk) (auto simp: possible_def list_ex_iff)
    with ok ReceivedV2 have "speaking E (evs @ [ev]) w" by (auto simp: speaking_def session_inv_def)
    then show ?thesis unfolding session_step_def ReceivedV2 session_event.case
      using speaking_on_read unfolding speaking_def by blast
  next
    case (PayoutAnswer ec valid)
    then show ?thesis using inv_payout [OF assms(1)] by (auto simp: session_step_def)
  qed (use ok in \<open>auto simp: session_step_def inv_strat reset_share_counters_def request_reconnect_def Let_def person_def
      intro!: exI [of _ md] inv_disconnect inv_posted inv_written inv_notify inv_upd inv_push split: sum.splits\<close>)
qed

lemma inv_start: "session_inv E [] Fresh (session_world E coin tls en1 sid strat rl)"
  by (simp add: session_inv_def session_world_def session_new_def silent_def worker_ok_def flow_def wq_new_def
      set_drop_handler_def mode_of_def nobody_def refused_def)

lemma run_inv: "session_run E w0 evs w \<Longrightarrow> \<exists>md. session_inv E [] md w0 \<Longrightarrow> \<exists>md. session_inv E evs md w"
  by (induction rule: session_run.induct) (auto dest: inv_step)

section \<open>Properties\<close>



definition drain :: "env \<Rightarrow> session_event list \<Rightarrow> world \<Rightarrow> world" where
  "drain E evs w = fold (session_step (clocks E 0 0 0)) evs w"

lemma drain_run:
  "session_run E w0 evs w \<Longrightarrow> list_all (\<lambda>e. e = Posted \<or> e = Written False) es \<Longrightarrow> session_run E w0 (evs @ es) (drain E es w)"
proof (induction es rule: rev_induct)
  case (snoc e es)
  then have "possible e (drain E es w)" by (auto simp: possible_def)
  from session_run.event [OF snoc.IH this, of 0 0] snoc.prems show ?case by (simp add: drain_def)
qed (simp add: drain_def)

text \<open>Where an open session with room stands: its queue, its posted lines and what it asked for.\<close>

definition open_with :: "world \<Rightarrow> string list \<Rightarrow> string list \<Rightarrow> action list \<Rightarrow> bool" where
  "open_with w qs ms acts \<longleftrightarrow> \<not> cs_closed (w_cs w) \<and> \<not> wq_stopped (w_queue w) \<and> flow (w_queue w) \<and>
     wq_queue (w_queue w) = qs \<and> w_posted w = ms \<and> w_actions w = acts \<and>
     wq_queued_bytes (w_queue w) + total_length ms \<le> wq_high_water (w_queue w)"

lemma open_posted:
  assumes "open_with w qs (m # ms) acts"
  shows "open_with (session_step D Posted w) (qs @ [m]) ms (acts @ (if qs = [] then [StartWrite m] else []))"
  using assms by (auto simp: open_with_def session_step_def run_posted_def push_line_def wq_push_def wq_write_def Let_def
      queue_actions_def flow_def)

lemma open_written:
  assumes "open_with w (q # qs) [] acts"
  shows "open_with (session_step D (Written False) w) qs [] (acts @ map StartWrite (take 1 qs))"
  using assms by (cases qs) (auto simp: open_with_def session_step_def on_line_written_def on_write_done_def wq_write_def Let_def
      queue_actions_def flow_def)

lemma open_posted_all:
  "open_with w qs ms acts \<Longrightarrow> open_with (drain E (replicate (length ms) Posted) w) (qs @ ms) []
     (acts @ (if qs = [] then map StartWrite (take 1 ms) else []))"
proof (induction ms arbitrary: w qs acts)
  case (Cons m ms)
  from Cons.IH [OF open_posted [OF Cons.prems, of "clocks E 0 0 0"]] show ?case by (cases qs) (simp_all add: drain_def)
qed (auto simp: drain_def)

lemma open_written_all:
  "open_with w qs [] acts \<Longrightarrow> open_with (drain E (replicate (length qs) (Written False)) w) [] [] (acts @ map StartWrite (tl qs))"
proof (induction qs arbitrary: w acts)
  case (Cons q qs)
  from Cons.IH [OF open_written [OF Cons.prems, of "clocks E 0 0 0"]] show ?case by (cases qs) (simp_all add: drain_def)
qed (simp add: drain_def)

text \<open>
  C35. Lines posted to an open session are delivered: as long as they fit below the high-water mark,
  running the posted tasks and completing each write without error (one task for each line and one
  completion for each line queued) empties the strand and the queue, with the session still open,
  and starts the writes of the queued lines behind the one in flight and then of the posted lines,
  in order.
\<close>

theorem lines_delivered:
  assumes "session_run E (session_world E coin tls en1 sid strat rl) evs w" "\<not> cs_closed (w_cs w)"
    and "wq_queued_bytes (w_queue w) + total_length (w_posted w) \<le> wq_high_water (w_queue w)"
  shows "\<exists>w'. session_run E (session_world E coin tls en1 sid strat rl)
      (evs @ replicate (length (w_posted w)) Posted
         @ replicate (length (wq_queue (w_queue w)) + length (w_posted w)) (Written False)) w' \<and>
    w_posted w' = [] \<and> wq_queue (w_queue w') = [] \<and> \<not> wq_writing (w_queue w') \<and> \<not> cs_closed (w_cs w') \<and>
    w_actions w' = w_actions w @ map StartWrite
      (if wq_queue (w_queue w) = [] then w_posted w else tl (wq_queue (w_queue w)) @ w_posted w)"
proof -
  let ?q = "wq_queue (w_queue w)"
  let ?es = "replicate (length (w_posted w)) Posted @ replicate (length ?q + length (w_posted w)) (Written False)"
  define w1 where "w1 = drain E (replicate (length (w_posted w)) Posted) w"
  define w2 where "w2 = drain E (replicate (length (?q @ w_posted w)) (Written False)) w1"
  obtain md where "session_inv E evs md w" using run_inv [OF assms(1)] inv_start by blast
  then have "open_with w ?q (w_posted w) (w_actions w)"
    using assms(2,3) by (simp add: open_with_def session_inv_def)
  then have "open_with w1 (?q @ w_posted w) [] (w_actions w @ (if ?q = [] then map StartWrite (take 1 (w_posted w)) else []))"
    unfolding w1_def by (rule open_posted_all)
  then have "open_with w2 [] [] ((w_actions w @ (if ?q = [] then map StartWrite (take 1 (w_posted w)) else []))
      @ map StartWrite (tl (?q @ w_posted w)))"
    unfolding w2_def by (rule open_written_all)
  moreover have "(if ?q = [] then map StartWrite (take 1 (w_posted w)) else []) @ map StartWrite (tl (?q @ w_posted w)) =
      map StartWrite (if ?q = [] then w_posted w else tl ?q @ w_posted w)"
    by (cases "?q"; cases "w_posted w") simp_all
  moreover have "session_run E (session_world E coin tls en1 sid strat rl) (evs @ ?es) w2"
  proof -
    have "list_all (\<lambda>e. e = Posted \<or> e = Written False) ?es" by (auto simp: list_all_iff)
    from drain_run [OF assms(1) this] show ?thesis by (simp add: drain_def w2_def w1_def)
  qed
  ultimately show ?thesis by (intro exI [of _ w2]) (auto simp: open_with_def flow_def)
qed

section \<open>A sample run\<close>

text \<open>A miner with the address of the zero program logs in and the node calls its address valid.\<close>

definition sample_address :: string where
  "sample_address = bech32_encode 0 ''bc'' (0 # replicate 32 0)"

definition login_message :: json where
  "login_message = JObject [(''method'', JString ''mining.authorize''), (''params'', JArray [JString sample_address])]"

definition login_env :: env where
  "login_env = sample_env\<lparr>ev_parse := (\<lambda>s. if s = ''login'' then Some login_message else None)\<rparr>"

definition login_start :: world where
  "login_start = session_world login_env default_coin True [] [] (stratifier_new 2) None"

definition login_open :: world where
  "login_open = session_step (clocks login_env 0 0 0) (TlsHandshake False) login_start"

definition login_auth :: pending_auth where
  "login_auth = \<lparr>pa_id_json = ''null'', pa_addr = sample_address, pa_worker = ''0'',
     pa_decoded = \<lparr>d_type = P2WPKH, d_network = BitcoinMainnet, d_program = replicate 20 0\<rparr>,
     pa_custom_diff = None, pa_doge_address = []\<rparr>"

lemma sample_address_decoded:
  "decode sha sample_address = Inr \<lparr>d_type = P2WPKH, d_network = BitcoinMainnet, d_program = replicate 20 0\<rparr>"
  unfolding sample_address_def
  using decode_segwit [OF five_bits_simps(4) zero_program, of 0 P2WPKH sha]
  by (simp add: segwit_type_def del: replicate.simps)

lemma sample_address_text: "CHR ''.'' \<notin> set sample_address" "length sample_address = 42"
proof -
  let ?vs = "(0 # replicate 32 0) @ bech32_tail (bech32_target 0) ''bc'' (0 # replicate 32 0)"
  show "length sample_address = 42"
    by (simp add: sample_address_def bech32_encode_def charset_text_def bech32_tail_def del: replicate.simps)
  have "five_bits ?vs" by (simp add: bech32_tail_def del: replicate.simps)
  from charset_text_set [OF this] show "CHR ''.'' \<notin> set sample_address"
    unfolding sample_address_def bech32_encode_def by (auto simp: bech32_charset_def)
qed

lemma sample_address_split: "split_worker sample_address = (sample_address, ''0'')"
proof -
  have "takeWhile (\<lambda>c. c \<noteq> CHR ''.'') sample_address = sample_address"
    using sample_address_text(1) by (auto simp: takeWhile_eq_all_conv)
  then show ?thesis by (simp add: split_worker_def)
qed

lemma login_params: "params_of login_message = [JString sample_address]" "string_member login_message ''method'' = Some ''mining.authorize''"
  "id_json E login_message = ''null''"
  by (simp_all add: params_of_def array_member_def string_member_def member_def login_message_def id_json_def safe_id_json_def)

lemma zero_name: "\<not> worker_is_free ''0''" "\<not> worker_blocked w blacklist_new" "\<not> address_blocked a blacklist_new"
  by (simp_all add: worker_is_free_def worker_blocked_def address_blocked_def blacklist_new_def contains_iff normalize_def
    kFreeToken_def is_alnum_def)

lemma login_clocks: "ev_blacklist (clocks login_env t u r) = blacklist_new" "ev_parse (clocks login_env t u r) ''login'' = Some login_message"
  by (simp_all add: clocks_def login_env_def sample_env_def)

lemma login_checked: "check_name (clocks login_env t u r) cs login_message = Inr login_auth"
  by (simp add: check_name_def first_string_def second_string_def login_params sample_address_split zero_name login_clocks
    sample_address_text sample_address_decoded login_auth_def Let_def)

lemma login_auth_address: "pa_addr login_auth = sample_address"
  by (simp add: login_auth_def)

definition login_line :: string where
  "login_line = ''login'' @ [nl]"

lemma login_open_fields: "cs_buffer (w_cs login_open) = []" "\<not> cs_closed (w_cs login_open)" "w_actions login_open = [StartRead]"
  "w_posted login_open = []" "w_queue login_open = w_queue login_start" "latestJob (w_strat login_open) = None"
  by (simp_all add: login_open_def login_start_def session_world_def session_new_def session_step_def on_tls_handshake_def
      stratifier_new_def latestJob_def window_latest_def window_new_def)

lemma login_asked: "session_step (clocks login_env 0 0 0) (Received (Some login_line)) login_open =
    ask [StartRead] (ask [ValidateAddress sample_address login_auth] login_open)"
proof -
  let ?E = "clocks login_env 0 0 0" and ?p = "ValidateAddress sample_address login_auth"
  have 1: "process_line ?E ''login'' w = ask [?p] w" for w
    by (simp add: process_line_def login_clocks login_params dispatch_def handle_authorize_def login_checked login_auth_address)
  have "strip_cr ''login'' = ''login''" by (simp add: strip_cr_def)
  moreover have "joined [''login''] @ [] = login_line" by (simp add: joined_def login_line_def)
  ultimately have 2: "read_lines ?E login_line w = ([], ask [?p] w)" for w
    using read_lines_joined [of "[''login'']" ?E "[]" w] by (simp add: handle_lines_def read_lines_rest 1)
  have "cs_buffer (w_cs login_open) = []" "\<not> cs_closed (w_cs login_open)" "length login_line \<le> 2 ^ 20"
    by (simp_all add: login_open_fields login_line_def)
  then show ?thesis
    by (simp add: session_step_def on_read_v1_def Let_def 2 ask_def upd_cs_def)
qed


definition login_end :: world where
  "login_end = session_step (clocks login_env 0 0 0) (AddressAnswer login_auth None True)
     (session_step (clocks login_env 0 0 0) (Received (Some login_line)) login_open)"

abbreviation login_events :: "session_event list" where
  "login_events \<equiv> [TlsHandshake False, Received (Some login_line), AddressAnswer login_auth None True]"

lemma login_run: "session_run login_env login_start login_events login_end"
proof -
  let ?step = "session_step (clocks login_env 0 0 0)"
  have 1: "session_run login_env login_start ([] @ [TlsHandshake False]) login_open"
    unfolding login_open_def
    by (intro session_run.intros) (simp add: possible_def mode_of_def login_start_def session_world_def session_new_def)
  have "session_run login_env login_start ([TlsHandshake False] @ [Received (Some login_line)]) (?step (Received (Some login_line)) login_open)"
    using 1 by (intro session_run.event) (simp_all add: possible_def login_open_fields)
  then have "session_run login_env login_start ([TlsHandshake False, Received (Some login_line)] @ [AddressAnswer login_auth None True]) login_end"
    unfolding login_end_def by (intro session_run.event) (simp_all add: possible_def login_asked login_auth_address)
  then show ?thesis by simp
qed

lemma login_result:
  "cs_authorized (w_cs login_end)" "\<not> cs_closed (w_cs login_end)" "w_posted login_end = [ok_line ''null'']"
  "w_queue login_end = w_queue login_start" "\<not> cs_is_v2 (w_cs login_end)"
proof -
  have e: "login_end = snd (proceed_auth (clocks login_env 0 0 0) login_auth
      (upd_cs (default_doge (clocks login_env 0 0 0)) (ask [StartRead] (ask [ValidateAddress sample_address login_auth] login_open))))"
    unfolding login_end_def login_asked
    by (simp add: session_step_def on_address_validated_def login_open_fields login_auth_def)
  have d: "default_doge (clocks login_env 0 0 0) = (\<lambda>cs. cs)"
    by (rule ext) (simp add: default_doge_def Let_def clocks_def login_env_def sample_env_def)
  have v: "\<not> cs_is_v2 (w_cs login_open)"
    by (simp add: login_open_def session_step_def on_tls_handshake_def)
  have a: "pa_custom_diff login_auth = None" "pa_id_json login_auth = ''null''" by (simp_all add: login_auth_def)
  show "cs_authorized (w_cs login_end)" "\<not> cs_closed (w_cs login_end)" "w_posted login_end = [ok_line ''null'']"
    "w_queue login_end = w_queue login_start" "\<not> cs_is_v2 (w_cs login_end)"
    unfolding e by (simp_all add: login_open_fields v d a proceed_auth_def Let_def publish_snapshot_def)
qed


lemma lines_delivered_witness: "\<exists>(w' :: world) evs. session_run login_env login_start evs w' \<and> w_posted w' = [] \<and>
    StartWrite (ok_line ''null'') \<in> set (w_actions w')"
proof -
  have "wq_queued_bytes (w_queue login_end) + total_length (w_posted login_end) \<le> wq_high_water (w_queue login_end)"
    and q: "wq_queue (w_queue login_end) = []"
    by (simp_all add: login_result login_start_def session_world_def wq_new_def set_drop_handler_def ok_line_def js_def newline_def)
  from lines_delivered [OF login_run [unfolded login_start_def] login_result(2) this(1)]
  obtain w' evs where "session_run login_env login_start evs w'" "w_posted w' = []"
    "w_actions w' = w_actions login_end @ map StartWrite [ok_line ''null'']"
    unfolding login_start_def [symmetric] login_result(3) q by auto
  then show ?thesis by auto
qed

end
