(* ===== verification/UpstreamConn.thy ===== *)
theory UpstreamConn
  imports Session
begin

text \<open>
  \<open>src/upstream_client.cpp\<close>, class \<open>UpstreamConn\<close>: one outbound connection of the proxy, a transport
  of lines. A handler takes the connection and returns it with what it does, in order: operations it
  starts on the socket and calls of the three handlers its owner gave it.
\<close>

section \<open>State\<close>

datatype conn_action =
    ConnResolve string string
  | ConnConnect
  | ConnNoDelay
  | ConnHandshake
  | ConnRead
  | ConnWrite string
  | ConnShutdown
  | OnLine string
  | OnOpen
  | OnClose string

record conn =
  cn_host :: string
  cn_port :: string
  cn_is_tls :: bool
  cn_buffer :: string
  cn_wq :: "string list"
  cn_writing :: bool
  cn_closed :: bool

type_synonym conn_step = "conn \<times> conn_action list"

definition conn_new :: "string \<Rightarrow> string \<Rightarrow> bool \<Rightarrow> conn" where
  "conn_new host port tls =
     \<lparr>cn_host = host, cn_port = port, cn_is_tls = tls, cn_buffer = [], cn_wq = [], cn_writing = False, cn_closed = False\<rparr>"

definition conn_close :: "string \<Rightarrow> conn \<Rightarrow> conn_step" where
  "conn_close reason c =
     (if cn_closed c then (c, []) else (c\<lparr>cn_closed := True\<rparr>, [ConnShutdown, OnClose reason]))"

section \<open>Connecting\<close>

definition conn_start :: "conn \<Rightarrow> conn_step" where
  "conn_start c = (c, [ConnResolve (cn_host c) (cn_port c)])"

definition on_resolved :: "string option \<Rightarrow> conn \<Rightarrow> conn_step" where
  "on_resolved ec c =
     (case ec of Some m \<Rightarrow> conn_close (''resolve: '' @ m) c | None \<Rightarrow> (c, [ConnConnect]))"

definition on_connect :: "string option \<Rightarrow> conn \<Rightarrow> conn_step" where
  "on_connect ec c =
     (case ec of Some m \<Rightarrow> conn_close (''connect: '' @ m) c
      | None \<Rightarrow> (c, ConnNoDelay # (if cn_is_tls c then [ConnHandshake] else [OnOpen, ConnRead])))"

definition on_handshake :: "string option \<Rightarrow> conn \<Rightarrow> conn_step" where
  "on_handshake ec c =
     (case ec of Some m \<Rightarrow> conn_close (''tls handshake: '' @ m) c | None \<Rightarrow> (c, [OnOpen, ConnRead]))"

section \<open>Writing\<close>

definition conn_do_write :: "conn \<Rightarrow> conn_step" where
  "conn_do_write c =
     (case cn_wq c of
        m # ms \<Rightarrow> if cn_closed c then (c\<lparr>cn_writing := False\<rparr>, []) else (c, [ConnWrite m])
      | [] \<Rightarrow> (c\<lparr>cn_writing := False\<rparr>, []))"

text \<open>The task that \<open>send\<close> posts.\<close>

definition conn_send :: "string \<Rightarrow> conn \<Rightarrow> conn_step" where
  "conn_send line c =
     (if cn_closed c then (c, [])
      else let c = c\<lparr>cn_wq := cn_wq c @ [line]\<rparr>
        in if cn_writing c then (c, []) else conn_do_write (c\<lparr>cn_writing := True\<rparr>))"

definition on_conn_written :: "string option \<Rightarrow> conn \<Rightarrow> conn_step" where
  "on_conn_written ec c =
     (case ec of Some m \<Rightarrow> conn_close (''write: '' @ m) (c\<lparr>cn_writing := False\<rparr>)
      | None \<Rightarrow>
          (case cn_wq c of [] \<Rightarrow> (c\<lparr>cn_writing := False\<rparr>, [])
           | m # ms \<Rightarrow>
               if cn_closed c then (c\<lparr>cn_writing := False\<rparr>, [])
               else let c = c\<lparr>cn_wq := ms\<rparr>
                 in if ms = [] then (c\<lparr>cn_writing := False\<rparr>, []) else conn_do_write c))"

section \<open>Reading\<close>

text \<open>
  The complete lines of a buffer, without a carriage return before the newline and without empty
  ones, and the rest. The owner's handler only posts, so whether the connection is closed does not
  change meanwhile; on a closed one the loop ends behind the first line.
\<close>

function conn_lines :: "bool \<Rightarrow> string \<Rightarrow> string list \<times> string" where
  "conn_lines shut buf =
     (if CHR 0x0A \<notin> set buf then ([], buf)
      else let line = takeWhile (\<lambda>c. c \<noteq> CHR 0x0A) buf; buf = drop (length line + 1) buf;
               (ls, rest) = (if shut then ([], buf) else conn_lines shut buf)
        in (if strip_cr line = [] then ls else strip_cr line # ls, rest))"
  by auto
termination by (relation "measure (\<lambda>(_, buf). length buf)") (auto intro!: diff_less dest: length_pos_if_in_set)

declare conn_lines.simps [simp del]

definition on_conn_read :: "(string, string) sum \<Rightarrow> conn \<Rightarrow> conn_step" where
  "on_conn_read chunk c =
     (case chunk of Inl m \<Rightarrow> conn_close (''read: '' @ m) c
      | Inr s \<Rightarrow>
          let buf = cn_buffer c @ s
          in if length buf > 4 * 2 ^ 20 then conn_close ''oversize upstream buffer'' (c\<lparr>cn_buffer := buf\<rparr>)
             else let (ls, rest) = conn_lines (cn_closed c) buf
               in (c\<lparr>cn_buffer := rest\<rparr>, map OnLine ls @ (if cn_closed c then [] else [ConnRead])))"

end
