(* ===== verification/UpstreamV1.thy ===== *)
theory UpstreamV1
  imports ProxyTypes UpstreamConn
begin

text \<open>
  \<open>src/upstream_client.cpp\<close>, class \<open>UpstreamClient\<close>: the proxy's Stratum V1 upstream. Every
  configured endpoint is a link that connects and stays warm; the miners of the proxy are spread over
  the links, each with a slot of its link's extranonce space. A handler takes the client and returns
  it with what it asks for, in order. A connection runs on its own strand: what the client sees of it
  is whether it is closed. The hash maps are association lists; the code's iterate in an unspecified
  order.
\<close>

section \<open>State\<close>

record subscriber =
  sb_sink :: sink
  sb_slot_hex :: string

record up_link =
  lk_ep :: upstream_endpoint
  lk_index :: int
  lk_conn_closed :: "bool option"
  lk_conn_gen :: u64
  lk_reconnect_backoff :: int
  lk_last_rx :: int
  lk_next_id :: u64
  lk_id_configure :: u64
  lk_id_subscribe :: u64
  lk_id_authorize :: u64
  lk_pending :: "(u64 \<times> callback option \<times> int) list"
  lk_connected :: bool
  lk_authorized :: bool
  lk_subscribed :: bool
  lk_up_en1 :: string
  lk_up_en2_size :: nat
  lk_up_version_mask :: u32
  lk_up_diff :: rat
  lk_cur_job :: "proxy_notify option"
  lk_job_seq :: u64
  lk_slot_span :: u32
  lk_nonce_bytes_eff :: u8
  lk_next_slot :: u32
  lk_subscribers :: "(u32 \<times> subscriber) list"
  lk_stat_jobs :: u64
  lk_stat_forwarded :: u64
  lk_stat_accepted :: u64
  lk_stat_rejected :: u64
  lk_stat_reconnects :: u64

definition new_link :: "upstream_endpoint \<Rightarrow> int \<Rightarrow> up_link" where
  "new_link ep i =
     \<lparr>lk_ep = ep, lk_index = i, lk_conn_closed = None, lk_conn_gen = 0, lk_reconnect_backoff = 0, lk_last_rx = 0,
      lk_next_id = 1, lk_id_configure = 0, lk_id_subscribe = 0, lk_id_authorize = 0, lk_pending = [],
      lk_connected = False, lk_authorized = False, lk_subscribed = False, lk_up_en1 = [], lk_up_en2_size = 0,
      lk_up_version_mask = 0, lk_up_diff = 1, lk_cur_job = None, lk_job_seq = 0, lk_slot_span = 0,
      lk_nonce_bytes_eff = 0, lk_next_slot = 0, lk_subscribers = [], lk_stat_jobs = 0, lk_stat_forwarded = 0,
      lk_stat_accepted = 0, lk_stat_rejected = 0, lk_stat_reconnects = 0\<rparr>"

record relay_client =
  uc_coin :: coin_config
  uc_active_active :: bool
  uc_links :: "up_link list"
  uc_running :: bool
  uc_primary :: int
  uc_waiters :: "sink list"

text \<open>
  What the client asks of outside: rounding, the weak pointers that still lock, the clock in
  nanoseconds, the JSON library, and the value of a shift by 32 or more, which C++ leaves undefined.
\<close>

record relay_env =
  ue_fpu :: fpu
  ue_alive :: "sink \<Rightarrow> bool"
  ue_now :: int
  ue_parse :: "string \<Rightarrow> json option"
  ue_dump :: "json \<Rightarrow> string"
  ue_wide_shift :: "nat \<Rightarrow> u32"

datatype relay_action =
    LinkConnect nat u64 string string bool bool
  | LinkSend nat string
  | LinkClose nat string
  | ReconnectTimer nat int
  | CancelReconnect nat
  | IdleTimer int
  | CancelIdle
  | TellJob sink proxy_notify
  | TellDiff sink rat
  | TellExtranonce sink string nat
  | TellState sink bool
  | TellRebind sink proxy_slot "proxy_notify option" rat
  | RunVerdict callback bool string

type_synonym relay_step = "relay_client \<times> relay_action list"

definition relay_new :: "coin_config \<Rightarrow> relay_client" where
  "relay_new coin =
     \<lparr>uc_coin = coin,
      uc_active_active = (let m = up_mode (cc_upstream coin) in m = ''activeactive'' \<or> m = ''active-active''),
      uc_links = map (\<lambda>(i, ep). new_link ep (int i)) (enumerate 0 (sort_key (\<lambda>e. sint (ue_priority e)) (up_endpoints (cc_upstream coin)))),
      uc_running = False, uc_primary = -1, uc_waiters = []\<rparr>"

definition upd_link :: "nat \<Rightarrow> (up_link \<Rightarrow> up_link) \<Rightarrow> relay_client \<Rightarrow> relay_client" where
  "upd_link i f c = c\<lparr>uc_links := (uc_links c)[i := f (uc_links c ! i)]\<rparr>"

definition live_subscribers :: "relay_env \<Rightarrow> up_link \<Rightarrow> sink list" where
  "live_subscribers E L = filter (ue_alive E) (map (sb_sink \<circ> snd) (lk_subscribers L))"

text \<open>\<open>conn->close\<close> and \<open>conn->send\<close>, if there is a connection.\<close>

definition close_link :: "nat \<Rightarrow> string \<Rightarrow> relay_client \<Rightarrow> relay_step" where
  "close_link i reason c =
     (case lk_conn_closed (uc_links c ! i) of None \<Rightarrow> (c, [])
      | Some _ \<Rightarrow> (upd_link i (\<lambda>L. L\<lparr>lk_conn_closed := Some True\<rparr>) c, [LinkClose i reason]))"

definition send_link :: "nat \<Rightarrow> string \<Rightarrow> relay_client \<Rightarrow> relay_action list" where
  "send_link i line c = (if lk_conn_closed (uc_links c ! i) = None then [] else [LinkSend i line])"

section \<open>Connections\<close>

definition connect_link :: "relay_env \<Rightarrow> nat \<Rightarrow> relay_client \<Rightarrow> relay_step" where
  "connect_link E i c =
     (if \<not> uc_running c then (c, [])
      else let ep = lk_ep (uc_links c ! i); gen = lk_conn_gen (uc_links c ! i) + 1
        in (upd_link i (\<lambda>L. L\<lparr>lk_connected := False, lk_authorized := False, lk_subscribed := False,
              lk_id_configure := 0, lk_id_subscribe := 0, lk_id_authorize := 0, lk_pending := [],
              lk_last_rx := ue_now E, lk_conn_gen := gen, lk_conn_closed := Some False\<rparr>) c,
            [LinkConnect i gen (ue_host ep) (dec_nat (unat (ue_port ep))) (ue_tls ep) (ue_verifyPeer ep)]))"

text \<open>What a connection reports counts only while it is the link's current one.\<close>

definition of_generation :: "nat \<Rightarrow> u64 \<Rightarrow> (relay_client \<Rightarrow> relay_step) \<Rightarrow> relay_client \<Rightarrow> relay_step" where
  "of_generation i gen f c = (if lk_conn_gen (uc_links c ! i) = gen then f c else (c, []))"

definition arm_idle_watchdog :: "relay_client \<Rightarrow> relay_action list" where
  "arm_idle_watchdog c = (if uc_running c then [IdleTimer 15] else [])"

text \<open>\<open>start\<close> and the task it posts.\<close>

definition relay_start :: "relay_client \<Rightarrow> relay_client" where
  "relay_start c = (if uc_links c = [] then c else c\<lparr>uc_running := True\<rparr>)"

definition start_links :: "relay_env \<Rightarrow> relay_client \<Rightarrow> relay_step" where
  "start_links E c =
     (let (c, acts) = fold (\<lambda>i (c, acts). let (c, new) = connect_link E i c in (c, acts @ new)) [0..<length (uc_links c)] (c, [])
      in (c, acts @ arm_idle_watchdog c))"

definition relay_stop :: "relay_client \<Rightarrow> relay_client" where
  "relay_stop c = c\<lparr>uc_running := False\<rparr>"

definition stop_links :: "relay_client \<Rightarrow> relay_step" where
  "stop_links c =
     (let (c, acts) = fold (\<lambda>i (c, acts).
            let (c, new) = close_link i ''shutdown'' c
            in (upd_link i (\<lambda>L. L\<lparr>lk_conn_closed := None\<rparr>) c, acts @ CancelReconnect i # new)) [0..<length (uc_links c)] (c, [])
      in (c, CancelIdle # acts))"

definition relay_reconnect :: "nat \<Rightarrow> relay_client \<Rightarrow> relay_step" where
  "relay_reconnect i c =
     (if \<not> uc_running c then (c, [])
      else let u = cc_upstream (uc_coin c); backoff = lk_reconnect_backoff (uc_links c ! i);
               lo = (if up_reconnectMinSeconds u > 0 then uint (up_reconnectMinSeconds u) else 2);
               hi = (if up_reconnectMaxSeconds u > 0 then uint (up_reconnectMaxSeconds u) else 30);
               delay = min hi (lo * 2 ^ nat (min backoff 5))
        in (upd_link i (\<lambda>L. L\<lparr>lk_reconnect_backoff := min (backoff + 1) 6\<rparr>) c,
            [ReconnectTimer i (if delay < lo then lo else delay)]))"

definition on_reconnect_timer :: "relay_env \<Rightarrow> bool \<Rightarrow> nat \<Rightarrow> relay_client \<Rightarrow> relay_step" where
  "on_reconnect_timer E ec i c = (if ec \<or> \<not> uc_running c then (c, []) else connect_link E i c)"

definition seconds_since :: "relay_env \<Rightarrow> int \<Rightarrow> int" where
  "seconds_since E t = (ue_now E - t) div 1000000000"

definition watch_link :: "relay_env \<Rightarrow> nat \<Rightarrow> relay_client \<Rightarrow> relay_step" where
  "watch_link E i c =
     (let u = cc_upstream (uc_coin c); L = uc_links c ! i;
          idle_to = (if up_idleTimeoutSeconds u > 0 then uint (up_idleTimeoutSeconds u) else 90);
          late = (\<lambda>(id, cb, ts). seconds_since E ts > 30);
          (c, acts) = (if lk_connected L \<and> lk_conn_closed L \<noteq> None \<and> seconds_since E (lk_last_rx L) > idle_to
                       then close_link i ''idle timeout'' c else (c, []))
      in (upd_link i (\<lambda>L. L\<lparr>lk_pending := filter (\<lambda>p. \<not> late p) (lk_pending L)\<rparr>) c,
          acts @ concat (map (\<lambda>(id, cb, ts). case cb of Some cb \<Rightarrow> [RunVerdict cb False ''timeout''] | None \<Rightarrow> [])
            (filter late (lk_pending L)))))"

definition on_idle_timer :: "relay_env \<Rightarrow> bool \<Rightarrow> relay_client \<Rightarrow> relay_step" where
  "on_idle_timer E ec c =
     (if ec \<or> \<not> uc_running c then (c, [])
      else let (c, acts) = fold (\<lambda>i (c, acts). let (c, new) = watch_link E i c in (c, acts @ new)) [0..<length (uc_links c)] (c, [])
        in (c, acts @ arm_idle_watchdog c))"


section \<open>Negotiation\<close>

definition json_escape :: "string \<Rightarrow> string" where
  "json_escape s = concat (map (\<lambda>c. if c = CHR 0x22 \<or> c = CHR 0x5C then [CHR 0x5C, c] else [c]) s)"

definition request_line :: "u64 \<Rightarrow> string \<Rightarrow> string \<Rightarrow> string" where
  "request_line i name params =
     js ''{`id`:'' @ dec_nat (unat i) @ js '',`method`:'' @ quote name @ js '',`params`:['' @ params @ '']}'' @ newline"

definition send_configure :: "nat \<Rightarrow> relay_client \<Rightarrow> relay_step" where
  "send_configure i c =
     (if \<not> enableVersionRolling (uc_coin c) then (c, [])
      else let n = lk_next_id (uc_links c ! i); c = upd_link i (\<lambda>L. L\<lparr>lk_id_configure := n, lk_next_id := n + 1\<rparr>) c
        in (c, send_link i (request_line n ''mining.configure''
              (js ''[`version-rolling`],{`version-rolling.mask`:'' @ quote (fmt_08x (versionRollingMask (uc_coin c))) @ ''}'')) c))"

definition send_subscribe :: "nat \<Rightarrow> relay_client \<Rightarrow> relay_step" where
  "send_subscribe i c =
     (let n = lk_next_id (uc_links c ! i); c = upd_link i (\<lambda>L. L\<lparr>lk_id_subscribe := n, lk_next_id := n + 1\<rparr>) c
      in (c, send_link i (request_line n ''mining.subscribe'' (quote ''mkpool-proxy/1.0'')) c))"

definition send_authorize :: "nat \<Rightarrow> relay_client \<Rightarrow> relay_step" where
  "send_authorize i c =
     (let n = lk_next_id (uc_links c ! i); ep = lk_ep (uc_links c ! i);
          c = upd_link i (\<lambda>L. L\<lparr>lk_id_authorize := n, lk_next_id := n + 1\<rparr>) c
      in (c, send_link i (request_line n ''mining.authorize''
            (quote (json_escape (ue_user ep)) @ '','' @ quote (json_escape (ue_pass ep)))) c))"

definition on_conn_open :: "relay_env \<Rightarrow> nat \<Rightarrow> relay_client \<Rightarrow> relay_step" where
  "on_conn_open E i c =
     (let c = upd_link i (\<lambda>L. L\<lparr>lk_connected := True, lk_last_rx := ue_now E\<rparr>) c;
          (c, a1) = send_configure i c; (c, a2) = send_subscribe i c; (c, a3) = send_authorize i c
      in (c, a1 @ a2 @ a3))"

section \<open>Work from upstream\<close>

definition set_upstream_diff :: "relay_env \<Rightarrow> nat \<Rightarrow> rat \<Rightarrow> relay_client \<Rightarrow> relay_step" where
  "set_upstream_diff E i d c =
     (if d \<le> 0 then (c, [])
      else (upd_link i (\<lambda>L. L\<lparr>lk_up_diff := d\<rparr>) c, map (\<lambda>s. TellDiff s d) (live_subscribers E (uc_links c ! i))))"

text \<open>The slot width for the extranonce2 size the pool grants, and how many slots that gives.\<close>

definition slot_width :: "u8 \<Rightarrow> nat \<Rightarrow> u8" where
  "slot_width want en2_size =
     (if en2_size \<le> 1 then 0 else if unat want \<ge> en2_size then of_nat (en2_size - 1) else want)"

definition span_of :: "relay_env \<Rightarrow> u8 \<Rightarrow> u32" where
  "span_of E eff = (if eff = 0 then 1 else if unat eff < 4 then push_bit (8 * unat eff) 1 else ue_wide_shift E (8 * unat eff))"

definition set_upstream_extranonce :: "relay_env \<Rightarrow> nat \<Rightarrow> string \<Rightarrow> nat \<Rightarrow> bool \<Rightarrow> relay_client \<Rightarrow> relay_step" where
  "set_upstream_extranonce E i en1 en2_size reconnect c =
     (let nb = up_nonceBytes (cc_upstream (uc_coin c)); want = (if nb \<noteq> 0 then nb else 2);
          eff = slot_width want en2_size; down_en2 = (if en2_size > unat eff then en2_size - unat eff else 0)
      in (upd_link i (\<lambda>L. L\<lparr>lk_up_en1 := en1, lk_up_en2_size := en2_size, lk_nonce_bytes_eff := eff,
            lk_slot_span := span_of E eff\<rparr>) c,
          if reconnect
          then map (\<lambda>(sid, sb). TellExtranonce (sb_sink sb) (en1 @ sb_slot_hex sb) down_en2)
                 (filter (\<lambda>(sid, sb). ue_alive E (sb_sink sb)) (lk_subscribers (uc_links c ! i)))
          else []))"

definition item :: "json list \<Rightarrow> nat \<Rightarrow> json" where
  "item ps n = (if n < length ps then ps ! n else JNull)"

definition strings_of :: "json \<Rightarrow> string list" where
  "strings_of j = (case j of JArray js' \<Rightarrow> concat (map (\<lambda>x. case x of JString s \<Rightarrow> [s] | _ \<Rightarrow> []) js') | _ \<Rightarrow> [])"

definition read_notify :: "json list \<Rightarrow> proxy_notify result" where
  "read_notify ps =
     bind_res (get_string (item ps 0)) (\<lambda>job_id.
     bind_res (get_string (item ps 1)) (\<lambda>prevhash.
     bind_res (get_string (item ps 2)) (\<lambda>cb1.
     bind_res (get_string (item ps 3)) (\<lambda>cb2.
     bind_res (get_string (item ps 6)) (\<lambda>bits.
     bind_res (get_string (item ps 7)) (\<lambda>ntime.
     bind_res (get_string (item ps 5)) (\<lambda>version_s.
     bind_res (stoul16 version_s) (\<lambda>version.
     bind_res (stoul16 ntime) (\<lambda>mintime.
     bind_res (target_from_bits_hex bits) (\<lambda>target.
       Inr \<lparr>pn_notify_line = [], pn_job_id = job_id, pn_prevhash_stratum = prevhash, pn_coinbase1 = cb1,
            pn_coinbase2 = cb2, pn_merkle_branch = strings_of (item ps 4), pn_version = ucast version, pn_bits = bits,
            pn_ntime = ntime, pn_mintime = ucast mintime, pn_clean = (item ps 8 = JBool True),
            pn_net_target_be = target, pn_seq = 0\<rparr>))))))))))"

definition build_and_broadcast_notify :: "relay_env \<Rightarrow> nat \<Rightarrow> json list \<Rightarrow> relay_client \<Rightarrow> relay_step" where
  "build_and_broadcast_notify E i ps c =
     (if length ps < 9 then (c, [])
      else case read_notify ps of Inl _ \<Rightarrow> (c, [])
        | Inr job \<Rightarrow>
            let L = uc_links c ! i;
                job = job\<lparr>pn_notify_line := ue_dump E (JObject [(''id'', JNull), (''method'', JString ''mining.notify''),
                        (''params'', JArray ps)]) @ newline, pn_seq := lk_job_seq L + 1\<rparr>
            in (upd_link i (\<lambda>L. L\<lparr>lk_job_seq := lk_job_seq L + 1, lk_cur_job := Some job, lk_stat_jobs := lk_stat_jobs L + 1\<rparr>) c,
                map (\<lambda>s. TellJob s job) (live_subscribers E L)))"

definition size_of_json :: "json \<Rightarrow> nat" where
  "size_of_json j = (case get_uint64 j of Inr n \<Rightarrow> unat n | Inl _ \<Rightarrow> 0)"

definition handle_method :: "relay_env \<Rightarrow> nat \<Rightarrow> string \<Rightarrow> json \<Rightarrow> relay_client \<Rightarrow> relay_step" where
  "handle_method E i name msg c =
     (let ps = array_member msg ''params''
      in if name = ''mining.set_difficulty''
         then (case ps of Some (p # _) \<Rightarrow>
                 if is_number p then (case get_double (ue_fpu E) p of Inr d \<Rightarrow> set_upstream_diff E i d c | Inl _ \<Rightarrow> (c, [])) else (c, [])
               | _ \<Rightarrow> (c, []))
         else if name = ''mining.notify''
         then (case ps of Some ps \<Rightarrow> build_and_broadcast_notify E i ps c | None \<Rightarrow> (c, []))
         else if name = ''mining.set_extranonce''
         then (case ps of Some (JString en1 # p # _) \<Rightarrow>
                 set_upstream_extranonce E i en1 (if is_number p then size_of_json p else lk_up_en2_size (uc_links c ! i)) True c
               | _ \<Rightarrow> (c, []))
         else if name = ''mining.set_version_mask''
         then (case ps of Some (JString s # _) \<Rightarrow>
                 (case stoul16 s of Inr m \<Rightarrow> (upd_link i (\<lambda>L. L\<lparr>lk_up_version_mask := ucast m\<rparr>) c, []) | Inl _ \<Rightarrow> (c, []))
               | _ \<Rightarrow> (c, []))
         else if name = ''client.reconnect'' then close_link i ''upstream client.reconnect'' c
         else (c, []))"

section \<open>Slots\<close>

definition link_ready :: "up_link \<Rightarrow> bool" where
  "link_ready l \<longleftrightarrow> lk_connected l \<and> lk_authorized l \<and> lk_subscribed l \<and> lk_up_en1 l \<noteq> [] \<and> lk_slot_span l > 0
     \<and> lk_nonce_bytes_eff l > 0 \<and> length (lk_subscribers l) < unat (lk_slot_span l)"

definition load_of :: "relay_env \<Rightarrow> up_link \<Rightarrow> rat" where
  "load_of E l = rnd_d (ue_fpu E) (of_nat (length (lk_subscribers l)) / of_nat (max 1 (unat (ue_weight (lk_ep l)))))"

text \<open>The ready link with the least load, the first of several, not counting \<open>skip\<close>.\<close>

definition least_loaded :: "relay_env \<Rightarrow> int \<Rightarrow> up_link list \<Rightarrow> int" where
  "least_loaded E skip ls =
     snd (fold (\<lambda>l (best, t). if lk_index l = skip \<or> \<not> link_ready l then (best, t)
            else if (case best of None \<Rightarrow> True | Some b \<Rightarrow> load_of E l < b) then (Some (load_of E l), lk_index l) else (best, t))
          ls (None, -1))"

definition first_ready :: "int \<Rightarrow> up_link list \<Rightarrow> int" where
  "first_ready skip ls = (case List.find (\<lambda>l. lk_index l \<noteq> skip \<and> link_ready l) ls of Some l \<Rightarrow> lk_index l | None \<Rightarrow> -1)"

definition pick_link :: "relay_env \<Rightarrow> relay_client \<Rightarrow> int" where
  "pick_link E c =
     (if uc_active_active c then least_loaded E (-1) (uc_links c)
      else if uc_primary c \<ge> 0 \<and> uc_primary c < int (length (uc_links c)) \<and> link_ready (uc_links c ! nat (uc_primary c))
      then uc_primary c else first_ready (-1) (uc_links c))"

text \<open>The format \<open>{:0{}x}\<close>: at least \<open>width\<close> digits.\<close>

definition fmt_0x :: "nat \<Rightarrow> nat \<Rightarrow> string" where
  "fmt_0x width n = (let s = hex_nat n in replicate (width - length s) (CHR ''0'') @ s)"

primrec alloc_loop :: "nat \<Rightarrow> sink \<Rightarrow> up_link \<Rightarrow> proxy_slot \<times> up_link" where
  "alloc_loop 0 s L = (no_slot, L)"
| "alloc_loop (Suc tries) s L =
     (let cand = lk_next_slot L; nb = lk_nonce_bytes_eff L;
          L = L\<lparr>lk_next_slot := (cand + 1) mod lk_slot_span L\<rparr>
      in if cand \<in> fst ` set (lk_subscribers L) then alloc_loop tries s L
         else let slot_hex = fmt_0x (unat nb * 2) (unat cand)
           in (\<lparr>sl_ok = True, sl_link_id = lk_index L, sl_slot_id = cand, sl_slot_hex = slot_hex,
                sl_en1_hex = lk_up_en1 L @ slot_hex,
                sl_en2_size = (if lk_up_en2_size L > unat nb then lk_up_en2_size L - unat nb else 0)\<rparr>,
               L\<lparr>lk_subscribers := lk_subscribers L @ [(cand, \<lparr>sb_sink = s, sb_slot_hex = slot_hex\<rparr>)]\<rparr>))"

definition allocate_on :: "sink \<Rightarrow> up_link \<Rightarrow> proxy_slot \<times> up_link" where
  "allocate_on s L = (if link_ready L then alloc_loop (unat (lk_slot_span L)) s L else (no_slot, L))"

definition attach_link :: "nat \<Rightarrow> sink \<Rightarrow> relay_client \<Rightarrow> proxy_slot \<times> relay_client" where
  "attach_link i s c = (let (slot, L) = allocate_on s (uc_links c ! i) in (slot, c\<lparr>uc_links := (uc_links c)[i := L]\<rparr>))"

definition relay_attach :: "relay_env \<Rightarrow> sink \<Rightarrow> relay_client \<Rightarrow> proxy_slot \<times> relay_client" where
  "relay_attach E s c =
     (let i = pick_link E c
      in if i < 0 then (no_slot, c)
         else attach_link (nat i) s (if uc_active_active c then c else c\<lparr>uc_primary := i\<rparr>))"

definition relay_detach :: "int \<Rightarrow> u32 \<Rightarrow> relay_client \<Rightarrow> relay_client" where
  "relay_detach link_id slot_id c =
     (if link_id < 0 \<or> link_id \<ge> int (length (uc_links c)) then c
      else upd_link (nat link_id) (\<lambda>L. L\<lparr>lk_subscribers := AList.delete slot_id (lk_subscribers L)\<rparr>) c)"

definition relay_register_waiter :: "sink \<Rightarrow> relay_client \<Rightarrow> relay_client" where
  "relay_register_waiter s c = c\<lparr>uc_waiters := uc_waiters c @ [s]\<rparr>"

definition relay_notify_waiters :: "relay_env \<Rightarrow> relay_client \<Rightarrow> relay_step" where
  "relay_notify_waiters E c = (c\<lparr>uc_waiters := []\<rparr>, map (\<lambda>s. TellState s True) (filter (ue_alive E) (uc_waiters c)))"

text \<open>
  A link went down: its miners move to another ready link, one each by load or all to the new primary,
  and those that find none stay bound to it and are told.
\<close>

definition move_subscriber ::
    "relay_env \<Rightarrow> int \<Rightarrow> int \<Rightarrow> subscriber \<Rightarrow> relay_client \<Rightarrow> (bool \<times> relay_action list \<times> relay_action list) \<times> relay_client" where
  "move_subscriber E i target sb c =
     (if \<not> ue_alive E (sb_sink sb) then ((True, [], []), c)
      else let t = (if uc_active_active c then least_loaded E i (uc_links c) else target);
               stranded = ((False, [], [TellState (sb_sink sb) False]), c)
        in if t < 0 then stranded
           else let (slot, c') = attach_link (nat t) (sb_sink sb) c; L = uc_links c' ! nat t
             in if \<not> sl_ok slot then ((False, [], [TellState (sb_sink sb) False]), c')
                else ((True, [TellRebind (sb_sink sb) slot (lk_cur_job L) (lk_up_diff L)], []), c'))"

primrec move_subscribers ::
    "relay_env \<Rightarrow> int \<Rightarrow> int \<Rightarrow> (u32 \<times> subscriber) list \<Rightarrow> relay_client \<Rightarrow>
     (u32 list \<times> relay_action list \<times> relay_action list) \<times> relay_client" where
  "move_subscribers E i target [] c = (([], [], []), c)"
| "move_subscribers E i target (s # ss) c =
     (let ((gone, moved, stranded), c) = move_subscriber E i target (snd s) c;
          ((ids, moved', stranded'), c) = move_subscribers E i target ss c
      in (((if gone then [fst s] else []) @ ids, moved @ moved', stranded @ stranded'), c))"

definition migrate_link :: "relay_env \<Rightarrow> nat \<Rightarrow> relay_client \<Rightarrow> relay_step" where
  "migrate_link E i c =
     (let c = (if uc_primary c = int i then c\<lparr>uc_primary := -1\<rparr> else c);
          target = (if uc_active_active c then -1 else first_ready (int i) (uc_links c));
          c = (if target \<ge> 0 then c\<lparr>uc_primary := target\<rparr> else c);
          ((ids, moved, stranded), c) = move_subscribers E (int i) target (lk_subscribers (uc_links c ! i)) c
      in (upd_link i (\<lambda>L. L\<lparr>lk_subscribers := filter (\<lambda>(sid, sb). sid \<notin> set ids) (lk_subscribers L)\<rparr>) c, moved @ stranded))"

definition on_conn_close :: "relay_env \<Rightarrow> nat \<Rightarrow> relay_client \<Rightarrow> relay_step" where
  "on_conn_close E i c =
     (let c = upd_link i (\<lambda>L. L\<lparr>lk_connected := False, lk_authorized := False, lk_subscribed := False,
            lk_stat_reconnects := lk_stat_reconnects L + 1\<rparr>) c;
          (c, a1) = migrate_link E i c; (c, a2) = relay_reconnect i c
      in (c, a1 @ a2))"

section \<open>Replies\<close>

definition granted_mask :: "json \<Rightarrow> u32" where
  "granted_mask r =
     (if member r ''version-rolling'' = Some (JBool True)
      then (case string_member r ''version-rolling.mask'' of
              Some s \<Rightarrow> (case stoul16 s of Inr m \<Rightarrow> ucast m | Inl _ \<Rightarrow> 0) | None \<Rightarrow> 0)
      else 0)"

definition on_configured :: "nat \<Rightarrow> json \<Rightarrow> relay_client \<Rightarrow> relay_step" where
  "on_configured i msg c =
     (case object_member msg ''result'' of
        Some r \<Rightarrow> (upd_link i (\<lambda>L. L\<lparr>lk_up_version_mask := granted_mask r\<rparr>) c, []) | None \<Rightarrow> (c, []))"

definition on_subscribed :: "relay_env \<Rightarrow> nat \<Rightarrow> json \<Rightarrow> relay_client \<Rightarrow> relay_step" where
  "on_subscribed E i msg c =
     (case array_member msg ''result'' of
        Some (_ # en1 # en2 # _) \<Rightarrow>
          let (c, acts) = set_upstream_extranonce E i (case en1 of JString s \<Rightarrow> s | _ \<Rightarrow> [])
                (case en2 of JInt n \<Rightarrow> unat (of_int n :: u64) | _ \<Rightarrow> 0) False c
          in (upd_link i (\<lambda>L. L\<lparr>lk_subscribed := True\<rparr>) c, acts)
      | _ \<Rightarrow> close_link i ''bad subscribe result'' c)"

definition on_authorized :: "relay_env \<Rightarrow> nat \<Rightarrow> json \<Rightarrow> relay_client \<Rightarrow> relay_step" where
  "on_authorized E i msg c =
     (if member msg ''result'' \<noteq> Some (JBool True) then close_link i ''authorize rejected'' c
      else relay_notify_waiters E (upd_link i (\<lambda>L. L\<lparr>lk_authorized := True, lk_reconnect_backoff := 0\<rparr>) c))"

definition on_verdict :: "relay_env \<Rightarrow> nat \<Rightarrow> u64 \<Rightarrow> json \<Rightarrow> relay_client \<Rightarrow> relay_step" where
  "on_verdict E i n msg c =
     (case map_of (lk_pending (uc_links c ! i)) n of None \<Rightarrow> (c, [])
      | Some (cb, ts) \<Rightarrow>
          let err = (case member msg ''error'' of Some e \<Rightarrow> if e = JNull then None else Some e | None \<Rightarrow> None);
              accepted = (err = None \<and> member msg ''result'' = Some (JBool True))
          in (upd_link i (\<lambda>L. L\<lparr>lk_stat_accepted := lk_stat_accepted L + (if accepted then 1 else 0),
                lk_stat_rejected := lk_stat_rejected L + (if accepted then 0 else 1),
                lk_pending := AList.delete n (lk_pending L)\<rparr>) c,
              case cb of None \<Rightarrow> []
              | Some cb \<Rightarrow> [RunVerdict cb accepted (case err of Some e \<Rightarrow> ue_dump E e | None \<Rightarrow> [])]))"

definition handle_result :: "relay_env \<Rightarrow> nat \<Rightarrow> json \<Rightarrow> relay_client \<Rightarrow> relay_step" where
  "handle_result E i msg c =
     (case member msg ''id'' of
        Some (JInt n) \<Rightarrow>
          let n = of_int n; L = uc_links c ! i
          in if n = lk_id_configure L \<and> lk_id_configure L \<noteq> 0 then on_configured i msg c
             else if n = lk_id_subscribe L \<and> lk_id_subscribe L \<noteq> 0 then on_subscribed E i msg c
             else if n = lk_id_authorize L \<and> lk_id_authorize L \<noteq> 0 then on_authorized E i msg c
             else on_verdict E i n msg c
      | _ \<Rightarrow> (c, []))"

definition on_up_line :: "relay_env \<Rightarrow> nat \<Rightarrow> string \<Rightarrow> relay_client \<Rightarrow> relay_step" where
  "on_up_line E i line c =
     (let c = upd_link i (\<lambda>L. L\<lparr>lk_last_rx := ue_now E\<rparr>) c
      in case ue_parse E line of None \<Rightarrow> (c, [])
         | Some msg \<Rightarrow>
             if \<not> is_object msg then (c, [])
             else (case string_member msg ''method'' of Some name \<Rightarrow> handle_method E i name msg c
                   | None \<Rightarrow> if contains_key msg ''id'' then handle_result E i msg c else (c, [])))"

section \<open>Shares and queries\<close>

text \<open>The task that \<open>submit\<close> posts.\<close>

definition submit_line :: "u64 \<Rightarrow> up_link \<Rightarrow> upstream_submit \<Rightarrow> string" where
  "submit_line n L s =
     request_line n ''mining.submit''
       (commas (map quote [json_escape (ue_user (lk_ep L)), us_job_id s, us_en2_full_hex s, us_ntime_hex s, us_nonce_hex s])
        @ (case us_version_bits s of Some v \<Rightarrow> '','' @ quote (fmt_08x v) | None \<Rightarrow> []))"

definition relay_submit :: "relay_env \<Rightarrow> int \<Rightarrow> upstream_submit \<Rightarrow> callback option \<Rightarrow> relay_client \<Rightarrow> relay_step" where
  "relay_submit E link_id s cb c =
     (let tell = (\<lambda>m. case cb of Some cb \<Rightarrow> [RunVerdict cb False m] | None \<Rightarrow> [])
      in if link_id < 0 \<or> link_id \<ge> int (length (uc_links c)) then (c, tell ''bad link'')
         else let i = nat link_id; c = upd_link i (\<lambda>L. L\<lparr>lk_stat_forwarded := lk_stat_forwarded L + 1\<rparr>) c; L = uc_links c ! i
           in if lk_conn_closed L \<noteq> Some False
              then (upd_link i (\<lambda>L. L\<lparr>lk_stat_rejected := lk_stat_rejected L + 1\<rparr>) c, tell ''upstream down'')
              else (upd_link i (\<lambda>L. L\<lparr>lk_next_id := lk_next_id L + 1,
                      lk_pending := (if lk_next_id L \<in> fst ` set (lk_pending L) then lk_pending L
                                     else lk_pending L @ [(lk_next_id L, cb, ue_now E)])\<rparr>) c,
                    [LinkSend i (submit_line (lk_next_id L) L s)]))"

definition relay_current_job :: "int \<Rightarrow> relay_client \<Rightarrow> proxy_notify option" where
  "relay_current_job link_id c =
     (if link_id < 0 \<or> link_id \<ge> int (length (uc_links c)) then None else lk_cur_job (uc_links c ! nat link_id))"

definition relay_current_diff :: "int \<Rightarrow> relay_client \<Rightarrow> rat" where
  "relay_current_diff link_id c =
     (if link_id < 0 \<or> link_id \<ge> int (length (uc_links c)) then 1 else lk_up_diff (uc_links c ! nat link_id))"

definition relay_any_ready :: "relay_client \<Rightarrow> bool" where
  "relay_any_ready c = list_ex link_ready (uc_links c)"

definition relay_link_status :: "int \<Rightarrow> up_link \<Rightarrow> link_status" where
  "relay_link_status primary l =
     \<lparr>ls_index = lk_index l, ls_endpoint = ue_host (lk_ep l) @ '':'' @ dec_nat (unat (ue_port (lk_ep l))),
      ls_connected = lk_connected l, ls_authorized = lk_authorized l, ls_primary = (lk_index l = primary),
      ls_difficulty = lk_up_diff l, ls_extranonce1 = lk_up_en1 l, ls_en2_size = lk_up_en2_size l,
      ls_jobs = lk_stat_jobs l, ls_shares_forwarded = lk_stat_forwarded l, ls_shares_accepted = lk_stat_accepted l,
      ls_shares_rejected = lk_stat_rejected l, ls_reconnects = lk_stat_reconnects l, ls_sessions = length (lk_subscribers l)\<rparr>"

definition relay_status :: "relay_client \<Rightarrow> upstream_status" where
  "relay_status c =
     \<lparr>ust_mode = (if uc_active_active c then ''active-active'' else ''failover''), ust_primary = uc_primary c,
      ust_total_sessions = sum_list (map (length \<circ> lk_subscribers) (uc_links c)),
      ust_links = map (relay_link_status (uc_primary c)) (uc_links c)\<rparr>"

end
