(* ===== verification/UpstreamFacts.thy ===== *)
theory UpstreamFacts
  imports UpstreamV1 CoinbaseFacts
begin

text \<open>
  The proxy's Stratum V1 upstream of theory \<open>UpstreamV1\<close>: slots of a link never clash and a ready
  link always has one, what the bookkeeping of the client satisfies after any events, and what
  becomes of the miners of a link that fails.
\<close>

section \<open>Slots as text\<close>

lemma hex_digit_value: "n < 16 \<Longrightarrow> hex_value (hex_digits ! n) = n"
proof -
  assume "n < 16"
  then have "n \<in> set [0..<16]" by simp
  then show ?thesis
    by (auto simp: upt_rec hex_digits_def hex_value_def hex_nibble_def)
qed

lemma hex_number_hex_nat: "hex_number (hex_nat n) = n"
proof (induction n rule: hex_nat.induct)
  case (1 n)
  show ?case
  proof (cases "n < 16")
    case True
    then show ?thesis by (simp add: hex_nat.simps hex_number_def hex_digit_value)
  next
    case False
    with 1 show ?thesis by (subst hex_nat.simps) (simp add: hex_number_snoc hex_digit_value)
  qed
qed

lemma hex_number_zeros: "hex_number (replicate k (CHR ''0'') @ s) = hex_number s"
  by (induction k) (simp_all add: hex_number_def hex_value_def hex_nibble_def)

lemma fmt_0x_inj: "fmt_0x k a = fmt_0x k b \<longleftrightarrow> a = b"
  by (metis fmt_0x_def hex_number_hex_nat hex_number_zeros)

lemma length_hex_nat: "n < 16 ^ Suc k \<Longrightarrow> length (hex_nat n) \<le> Suc k"
proof (induction k arbitrary: n)
  case (Suc k)
  show ?case
  proof (cases "n < 16")
    case False
    have "n div 16 < 16 ^ Suc k" using Suc.prems by (simp add: less_mult_imp_div_less mult.commute)
    from Suc.IH [OF this] show ?thesis using False by (subst hex_nat.simps) simp
  qed (simp add: hex_nat_small)
qed (simp add: hex_nat_small)

lemma length_fmt_0x: "0 < k \<Longrightarrow> n < 16 ^ k \<Longrightarrow> length (fmt_0x k n) = k"
  using length_hex_nat [of n "k - 1"] by (simp add: fmt_0x_def Let_def)

section \<open>Finding a free slot\<close>

abbreviation slot_ids :: "up_link \<Rightarrow> u32 list" where
  "slot_ids L \<equiv> map fst (lk_subscribers L)"

lemma next_slot_unat:
  fixes cand span :: u32
  assumes "cand < span"
  shows "unat ((cand + 1) mod span) = (unat cand + 1) mod unat span"
proof -
  have "unat cand + 1 \<le> unat span" "unat span < 2 ^ 32"
    using assms unsigned_less [of span] by (simp_all add: word_less_nat_alt)
  then have "unat (cand + 1) = unat cand + 1" by (subst unat_add_lem [THEN iffD1]) simp_all
  then show ?thesis by (simp add: unat_mod)
qed

text \<open>The slot a link gives for an id, and the link that has given it.\<close>

definition slot_of :: "up_link \<Rightarrow> u32 \<Rightarrow> proxy_slot" where
  "slot_of L sid =
     (let nb = unat (lk_nonce_bytes_eff L); slot_hex = fmt_0x (nb * 2) (unat sid)
      in \<lparr>sl_ok = True, sl_link_id = lk_index L, sl_slot_id = sid, sl_slot_hex = slot_hex,
          sl_en1_hex = lk_up_en1 L @ slot_hex, sl_en2_size = (if lk_up_en2_size L > nb then lk_up_en2_size L - nb else 0)\<rparr>)"

definition seated :: "up_link \<Rightarrow> u32 \<Rightarrow> sink \<Rightarrow> u32 \<Rightarrow> up_link" where
  "seated L sid s nx =
     L\<lparr>lk_next_slot := nx, lk_subscribers := lk_subscribers L @ [(sid, \<lparr>sb_sink = s, sb_slot_hex = sl_slot_hex (slot_of L sid)\<rparr>)]\<rparr>"

lemma slot_of_next [simp]: "slot_of (L\<lparr>lk_next_slot := n\<rparr>) sid = slot_of L sid"
  by (simp add: slot_of_def Let_def)

lemma seated_next [simp]: "seated (L\<lparr>lk_next_slot := n\<rparr>) sid s nx = seated L sid s nx"
  by (simp add: seated_def)

lemma less_span_mod: "(x :: u32) mod n < n" if "cand < n" for cand n
  using that by (simp add: word_less_nat_alt unat_mod)

lemma alloc_loop_cases:
  assumes "alloc_loop k s L = (slot, L')" and "lk_next_slot L < lk_slot_span L"
  obtains (found) sid nx where "slot = slot_of L sid" "L' = seated L sid s nx" "sid \<notin> set (slot_ids L)"
      "sid < lk_slot_span L" "nx < lk_slot_span L"
  | (full) nx where "slot = no_slot" "L' = L\<lparr>lk_next_slot := nx\<rparr>" "nx < lk_slot_span L"
      "\<forall>j < k. of_nat ((unat (lk_next_slot L) + j) mod unat (lk_slot_span L)) \<in> set (slot_ids L)"
  using assms
proof (induction k arbitrary: L thesis)
  case 0
  from 0(3) have "slot = no_slot" "L' = L" by simp_all
  with 0(4) show thesis by (intro 0(2) [of "lk_next_slot L"]) simp_all
next
  case (Suc k)
  let ?next = "(lk_next_slot L + 1) mod lk_slot_span L" and ?span = "lk_slot_span L" and ?cand = "lk_next_slot L"
  let ?L = "L\<lparr>lk_next_slot := ?next\<rparr>"
  have nx: "?next < ?span" using Suc.prems(4) by (rule less_span_mod)
  show thesis
  proof (cases "?cand \<in> fst ` set (lk_subscribers L)")
    case False
    then have "slot = slot_of L ?cand" "L' = seated L ?cand s ?next"
      using Suc.prems(3) by (auto simp: Let_def slot_of_def seated_def)
    then show thesis using False nx Suc.prems(4) by (intro Suc.prems(1) [of ?cand ?next]) simp_all
  next
    case True
    then have step: "alloc_loop k s ?L = (slot, L')" using Suc.prems(3) by (simp add: Let_def)
    show thesis
    proof (rule Suc.IH [OF _ _ step])
      fix sid n
      assume "slot = slot_of ?L sid" "L' = seated ?L sid s n" "sid \<notin> set (slot_ids ?L)" "sid < lk_slot_span ?L" "n < lk_slot_span ?L"
      then show thesis by (intro Suc.prems(1) [of sid n]) simp_all
    next
      fix n
      assume *: "slot = no_slot" "L' = ?L\<lparr>lk_next_slot := n\<rparr>" "n < lk_slot_span ?L"
        "\<forall>j<k. of_nat ((unat (lk_next_slot ?L) + j) mod unat (lk_slot_span ?L)) \<in> set (slot_ids ?L)"
      have "of_nat ((unat ?cand + j) mod unat ?span) \<in> set (slot_ids L)" if "j < Suc k" for j
      proof (cases j)
        case 0
        then show ?thesis using True Suc.prems(4) by (simp add: word_less_nat_alt)
      next
        case (Suc m)
        with that *(4) have "of_nat ((unat ?next + m) mod unat ?span) \<in> set (slot_ids L)" by simp
        moreover have "(unat ?next + m) mod unat ?span = (unat ?cand + j) mod unat ?span"
          using next_slot_unat [OF Suc.prems(4)] Suc by (simp add: mod_add_left_eq)
        ultimately show ?thesis by simp
      qed
      with * show thesis by (intro Suc.prems(2) [of n]) simp_all
    qed (use nx in simp)
  qed
qed

text \<open>A ready link has a free slot and the search finds it.\<close>

lemma free_slot:
  assumes "length (lk_subscribers L) < unat (lk_slot_span L)"
  shows "\<exists>j < unat (lk_slot_span L). of_nat ((n + j) mod unat (lk_slot_span L)) \<notin> set (slot_ids L)"
proof (rule ccontr)
  let ?m = "unat (lk_slot_span L)"
  assume "\<not> ?thesis"
  then have all: "\<forall>j < ?m. (of_nat ((n + j) mod ?m) :: u32) \<in> set (slot_ids L)" by blast
  have "(of_nat i :: u32) \<in> set (slot_ids L)" if "i < ?m" for i
  proof -
    let ?j = "(i + (?m - n mod ?m)) mod ?m"
    have "(n + ?j) mod ?m = (n mod ?m + (i + (?m - n mod ?m))) mod ?m" by (simp add: mod_add_left_eq mod_add_right_eq)
    also have "n mod ?m + (i + (?m - n mod ?m)) = i + ?m" using that mod_less_divisor [of ?m n] by linarith
    finally have "(n + ?j) mod ?m = i" using that by simp
    moreover have "?j < ?m" using that by simp
    ultimately show ?thesis using all by metis
  qed
  then have "of_nat ` {..<?m} \<subseteq> set (slot_ids L)" by blast
  then have "card (of_nat ` {..<?m} :: u32 set) \<le> length (slot_ids L)"
    by (metis List.finite_set card_length card_mono le_trans)
  moreover have "?m < 2 ^ LENGTH(32)" by (rule unsigned_less)
  then have "inj_on (of_nat :: nat \<Rightarrow> u32) {..<?m}"
    by (intro inj_on_inverseI [of _ unat]) (simp add: of_nat_inverse [OF refl])
  ultimately show False using assms by (simp add: card_image)
qed

lemma allocate_ready:
  assumes "link_ready L" and "lk_next_slot L < lk_slot_span L"
  obtains sid nx where "allocate_on s L = (slot_of L sid, seated L sid s nx)" "sid \<notin> set (slot_ids L)"
    "sid < lk_slot_span L" "nx < lk_slot_span L"
proof -
  obtain slot L' where a: "alloc_loop (unat (lk_slot_span L)) s L = (slot, L')" by fastforce
  from a assms(2) show thesis
  proof (cases rule: alloc_loop_cases)
    case (found sid nx)
    then show thesis using a assms(1) that by (simp add: allocate_on_def)
  next
    case (full nx)
    then show thesis using free_slot [of L "unat (lk_next_slot L)"] assms(1) by (auto simp: link_ready_def)
  qed
qed

section \<open>Choosing a link\<close>

text \<open>Links carry their position, and the primary is one of them or none.\<close>

definition indexed :: "up_link list \<Rightarrow> bool" where
  "indexed ls \<longleftrightarrow> (\<forall>i < length ls. lk_index (ls ! i) = int i)"

text \<open>A choice among the links other than \<open>skip\<close>: a ready one, or \<open>-1\<close> when there is none.\<close>

definition chosen :: "int \<Rightarrow> up_link list \<Rightarrow> int \<Rightarrow> bool" where
  "chosen skip ls t \<longleftrightarrow> (if \<exists>l \<in> set ls. lk_index l \<noteq> skip \<and> link_ready l
     then \<exists>l \<in> set ls. lk_index l = t \<and> t \<noteq> skip \<and> link_ready l else t = -1)"

lemma least_loaded_chosen: "chosen skip ls (least_loaded E skip ls)"
proof -
  let ?f = "\<lambda>l (best, t). if lk_index l = skip \<or> \<not> link_ready l then (best, t)
    else if (case best of None \<Rightarrow> True | Some b \<Rightarrow> load_of E l < b) then (Some (load_of E l), lk_index l) else (best, t)"
  have "case fold ?f ls (None, -1) of (best, t) \<Rightarrow> (best = None \<longleftrightarrow> \<not> (\<exists>l \<in> set ls. lk_index l \<noteq> skip \<and> link_ready l))
      \<and> (if best = None then t = -1 else \<exists>l \<in> set ls. lk_index l = t \<and> t \<noteq> skip \<and> link_ready l)"
    by (induction ls rule: rev_induct) (auto split: option.splits if_splits)
  then show ?thesis by (auto simp: chosen_def least_loaded_def split: prod.splits if_splits)
qed

lemma first_ready_chosen: "chosen skip ls (first_ready skip ls)"
  by (auto simp: chosen_def first_ready_def find_None_iff find_Some_iff split: option.splits)

lemma chosen_nth:
  assumes "chosen skip ls t" "indexed ls" "t \<noteq> -1"
  shows "nat t < length ls \<and> int (nat t) = t \<and> t \<noteq> skip \<and> link_ready (ls ! nat t)"
  using assms by (auto simp: chosen_def indexed_def in_set_conv_nth split: if_splits)

lemma chosen_nonneg: "chosen skip ls t \<Longrightarrow> indexed ls \<Longrightarrow> t < 0 \<longleftrightarrow> t = -1"
  using chosen_nth [of skip ls t] by (cases "t = -1") auto

lemma pick_link_ready:
  assumes "indexed (uc_links c)"
  shows "if relay_any_ready c then nat (pick_link E c) < length (uc_links c) \<and> 0 \<le> pick_link E c
      \<and> link_ready (uc_links c ! nat (pick_link E c)) else pick_link E c = -1"
proof -
  have idx: "0 \<le> lk_index l" if "l \<in> set (uc_links c)" for l
    using assms that by (auto simp: indexed_def in_set_conv_nth)
  have known: "(\<exists>l \<in> set (uc_links c). lk_index l \<noteq> -1 \<and> link_ready l) \<longleftrightarrow> relay_any_ready c"
    using idx by (force simp: relay_any_ready_def list_ex_iff)
  have any: "if relay_any_ready c then nat t < length (uc_links c) \<and> 0 \<le> t \<and> link_ready (uc_links c ! nat t) else t = -1"
    if "chosen (-1) (uc_links c) t" for t
    using that known chosen_nth [OF that assms] by (auto simp: chosen_def dest: idx)
  have "relay_any_ready c" if "0 \<le> uc_primary c" "uc_primary c < int (length (uc_links c))"
      "link_ready (uc_links c ! nat (uc_primary c))"
    using that nth_mem [of "nat (uc_primary c)" "uc_links c"] by (auto simp: relay_any_ready_def list_ex_iff)
  then show ?thesis
    using any [OF least_loaded_chosen] any [OF first_ready_chosen] by (auto simp: pick_link_def)
qed


section \<open>Runs of the client\<close>

text \<open>What the strand of the client runs, each with the environment it sees.\<close>

datatype relay_event =
    Start
  | StartLinks
  | Stop
  | StopLinks
  | LinkOpen nat u64
  | LinkLine nat u64 string
  | LinkLost nat u64
  | ReconnectFired nat bool
  | IdleFired bool
  | Attach sink
  | Detach int u32
  | Wait sink
  | SubmitShare int upstream_submit "callback option"

fun relay_do :: "relay_env \<Rightarrow> relay_event \<Rightarrow> relay_client \<Rightarrow> relay_step" where
  "relay_do E Start c = (relay_start c, [])"
| "relay_do E StartLinks c = start_links E c"
| "relay_do E Stop c = (relay_stop c, [])"
| "relay_do E StopLinks c = stop_links c"
| "relay_do E (LinkOpen i gen) c = of_generation i gen (on_conn_open E i) c"
| "relay_do E (LinkLine i gen line) c = of_generation i gen (on_up_line E i line) c"
| "relay_do E (LinkLost i gen) c = of_generation i gen (on_conn_close E i) c"
| "relay_do E (ReconnectFired i ec) c = on_reconnect_timer E ec i c"
| "relay_do E (IdleFired ec) c = on_idle_timer E ec c"
| "relay_do E (Attach s) c = (snd (relay_attach E s c), [])"
| "relay_do E (Detach l sid) c = (relay_detach l sid c, [])"
| "relay_do E (Wait s) c = (relay_register_waiter s c, [])"
| "relay_do E (SubmitShare l s cb) c = relay_submit E l s cb c"

fun event_ok :: "relay_client \<Rightarrow> relay_event \<Rightarrow> bool" where
  "event_ok c (LinkOpen i gen) = (i < length (uc_links c))"
| "event_ok c (LinkLine i gen _) = (i < length (uc_links c))"
| "event_ok c (LinkLost i gen) = (i < length (uc_links c))"
| "event_ok c (ReconnectFired i _) = (i < length (uc_links c))"
| "event_ok c _ = True"

section \<open>The invariant\<close>

definition link_ok :: "nat \<Rightarrow> up_link \<Rightarrow> bool" where
  "link_ok i L \<longleftrightarrow> lk_index L = int i \<and> distinct (slot_ids L) \<and> distinct (map fst (lk_pending L)) \<and> lk_up_diff L > 0
     \<and> lk_stat_jobs L = lk_job_seq L \<and> (\<forall>j. lk_cur_job L = Some j \<longrightarrow> pn_seq j = lk_job_seq L)
     \<and> unat (lk_nonce_bytes_eff L) < max 1 (lk_up_en2_size L)
     \<and> (0 < unat (lk_nonce_bytes_eff L) \<and> unat (lk_nonce_bytes_eff L) < 4 \<longrightarrow>
          unat (lk_slot_span L) = 256 ^ unat (lk_nonce_bytes_eff L))"

definition relay_inv :: "relay_client \<Rightarrow> bool" where
  "relay_inv c \<longleftrightarrow> (\<forall>i < length (uc_links c). link_ok i (uc_links c ! i))
     \<and> -1 \<le> uc_primary c \<and> uc_primary c < int (length (uc_links c)) \<and> (uc_active_active c \<longrightarrow> uc_primary c = -1)"

text \<open>
  A link whose span never shrank: the next candidate and every slot in use are below it. A step keeps
  it for links that keep or widen their span.
\<close>

definition roomy :: "up_link \<Rightarrow> bool" where
  "roomy L \<longleftrightarrow> lk_next_slot L < max 1 (lk_slot_span L) \<and> (\<forall>sid \<in> set (slot_ids L). sid < lk_slot_span L)"

text \<open>What an operation on links is checked for: the invariant and, link by link, the room.\<close>

definition kept :: "relay_client \<Rightarrow> relay_client \<Rightarrow> bool" where
  "kept c c' \<longleftrightarrow> length (uc_links c') = length (uc_links c) \<and> (relay_inv c \<longrightarrow> relay_inv c' \<and>
     (\<forall>i < length (uc_links c). lk_slot_span (uc_links c ! i) \<le> lk_slot_span (uc_links c' ! i) \<longrightarrow>
        roomy (uc_links c ! i) \<longrightarrow> roomy (uc_links c' ! i)))"

text \<open>For everything but \<open>set_upstream_extranonce\<close> the span stays, and \<open>kept\<close> composes.\<close>

definition keeps :: "relay_client \<Rightarrow> relay_client \<Rightarrow> bool" where
  "keeps c c' \<longleftrightarrow> length (uc_links c') = length (uc_links c) \<and> (relay_inv c \<longrightarrow> relay_inv c' \<and>
     (\<forall>i < length (uc_links c). lk_slot_span (uc_links c' ! i) = lk_slot_span (uc_links c ! i) \<and>
        (roomy (uc_links c ! i) \<longrightarrow> roomy (uc_links c' ! i))))"

named_theorems keeping \<open>operations that keep the invariant of the client\<close>

lemma holds_on_refl [keeping]: "keeps c c"
  by (simp add: keeps_def)

lemma holds_on_trans: "keeps c c' \<Longrightarrow> keeps c' c'' \<Longrightarrow> keeps c c''"
  by (auto simp: keeps_def)

lemma keeps_kept: "keeps c c' \<Longrightarrow> kept c c'"
  by (auto simp: keeps_def kept_def)

lemma keeps_then_kept: "keeps c c' \<Longrightarrow> kept c' c'' \<Longrightarrow> kept c c''"
  unfolding keeps_def kept_def by auto

lemma kept_then_keeps: "kept c c' \<Longrightarrow> keeps c' c'' \<Longrightarrow> kept c c''"
  unfolding keeps_def kept_def by auto

text \<open>Updating one link.\<close>

definition link_keeps :: "nat \<Rightarrow> (up_link \<Rightarrow> up_link) \<Rightarrow> up_link \<Rightarrow> bool" where
  "link_keeps i f L \<longleftrightarrow> (link_ok i L \<longrightarrow> link_ok i (f L) \<and> lk_slot_span (f L) = lk_slot_span L \<and> (roomy L \<longrightarrow> roomy (f L)))"

lemma holds_on_upd [keeping]:
  assumes "link_keeps i f (uc_links c ! i)"
  shows "keeps c (upd_link i f c)"
proof (cases "i < length (uc_links c)")
  case True
  have "link_ok j (uc_links (upd_link i f c) ! j) \<and> lk_slot_span (uc_links (upd_link i f c) ! j) = lk_slot_span (uc_links c ! j)
      \<and> (roomy (uc_links c ! j) \<longrightarrow> roomy (uc_links (upd_link i f c) ! j))"
    if "link_ok j (uc_links c ! j)" for j
    using assms True that by (cases "j = i") (simp_all add: upd_link_def link_keeps_def)
  then show ?thesis by (simp add: keeps_def relay_inv_def) (simp add: upd_link_def)
qed (simp add: upd_link_def keeps_def relay_inv_def)

lemma keeps_same: "uc_links c' = uc_links c \<Longrightarrow> uc_primary c' = uc_primary c \<Longrightarrow> uc_active_active c' = uc_active_active c \<Longrightarrow> keeps c c'"
  by (simp add: keeps_def relay_inv_def)

lemma keeps_fold: "(\<And>i p. keeps (fst p) (fst (F i p))) \<Longrightarrow> keeps c (fst (fold F is' (c, a)))"
proof (induction is' arbitrary: c a)
  case (Cons i is')
  obtain c' a' where F: "F i (c, a) = (c', a')" by fastforce
  have "keeps c c'" using Cons.prems [of "(c, a)" i] F by simp
  moreover have "keeps c' (fst (fold F is' (c', a')))" using Cons.prems by (rule Cons.IH)
  ultimately show ?case using F by (simp add: holds_on_trans)
qed (simp add: holds_on_refl)

text \<open>Updates of fields the invariant does not speak of, and of the table of pending submissions.\<close>

definition same_core :: "up_link \<Rightarrow> up_link \<Rightarrow> bool" where
  "same_core L L' \<longleftrightarrow> lk_index L' = lk_index L \<and> lk_subscribers L' = lk_subscribers L \<and> lk_up_diff L' = lk_up_diff L
     \<and> lk_stat_jobs L' = lk_stat_jobs L \<and> lk_job_seq L' = lk_job_seq L \<and> lk_cur_job L' = lk_cur_job L
     \<and> lk_nonce_bytes_eff L' = lk_nonce_bytes_eff L \<and> lk_up_en2_size L' = lk_up_en2_size L
     \<and> lk_slot_span L' = lk_slot_span L \<and> lk_next_slot L' = lk_next_slot L
     \<and> (distinct (map fst (lk_pending L)) \<longrightarrow> distinct (map fst (lk_pending L')))"

lemma same_core_keeps: "same_core L (f L) \<Longrightarrow> link_keeps i f L"
  by (simp add: same_core_def link_keeps_def link_ok_def roomy_def)

lemma keeps_core: "same_core (uc_links c ! i) (f (uc_links c ! i)) \<Longrightarrow> keeps c (upd_link i f c)"
  by (intro holds_on_upd same_core_keeps)

lemma keeps_upd_trans: "keeps c (upd_link i f c) \<Longrightarrow> keeps (upd_link i f c) c' \<Longrightarrow> keeps c c'"
  by (rule holds_on_trans)

lemma keeps_close_link [keeping]: "keeps c (fst (close_link i r c))"
  by (auto simp: close_link_def holds_on_refl intro!: keeps_core split: option.split) (simp add: same_core_def)

lemma keeps_connect_link [keeping]: "keeps c (fst (connect_link E i c))"
  by (auto simp: connect_link_def Let_def holds_on_refl intro!: keeps_core) (simp add: same_core_def)

lemma keeps_reconnect [keeping]: "keeps c (fst (relay_reconnect i c))"
  by (auto simp: relay_reconnect_def Let_def holds_on_refl intro!: keeps_core) (simp_all add: same_core_def)

lemma keeps_send_configure [keeping]: "keeps c (fst (send_configure i c))"
  by (auto simp: send_configure_def Let_def holds_on_refl intro!: keeps_core) (simp add: same_core_def)

lemma keeps_send_subscribe [keeping]: "keeps c (fst (send_subscribe i c))"
  by (auto simp: send_subscribe_def Let_def intro!: keeps_core) (simp add: same_core_def)

lemma keeps_send_authorize [keeping]: "keeps c (fst (send_authorize i c))"
  by (auto simp: send_authorize_def Let_def intro!: keeps_core) (simp add: same_core_def)

lemma keeps_on_conn_open [keeping]: "keeps c (fst (on_conn_open E i c))"
proof -
  let ?c = "upd_link i (\<lambda>L. L\<lparr>lk_connected := True, lk_last_rx := ue_now E\<rparr>) c"
  have "keeps c ?c" by (rule keeps_core) (simp add: same_core_def)
  from holds_on_trans [OF this holds_on_trans [OF keeps_send_configure holds_on_trans [OF keeps_send_subscribe keeps_send_authorize]]]
  show ?thesis by (simp add: on_conn_open_def Let_def case_prod_beta)
qed

lemma keeps_watch_link [keeping]: "keeps c (fst (watch_link E i c))"
proof -
  let ?b = "lk_connected (uc_links c ! i) \<and> lk_conn_closed (uc_links c ! i) \<noteq> None \<and>
    seconds_since E (lk_last_rx (uc_links c ! i)) >
      (if up_idleTimeoutSeconds (cc_upstream (uc_coin c)) > 0 then uint (up_idleTimeoutSeconds (cc_upstream (uc_coin c))) else 90)"
  obtain c1 acts where c1: "(if ?b then close_link i ''idle timeout'' c else (c, [])) = (c1, acts)" by fastforce
  have "keeps c c1" using c1 keeps_close_link [of c i "''idle timeout''"] by (auto simp: holds_on_refl split: if_splits)
  moreover have "keeps c1 (fst (watch_link E i c))"
    unfolding watch_link_def Let_def c1 prod.case fst_conv
    by (rule keeps_core) (simp add: same_core_def distinct_map_filter)
  ultimately show ?thesis by (rule holds_on_trans)
qed

lemma keeps_start_links [keeping]: "keeps c (fst (start_links E c))"
  unfolding start_links_def Let_def case_prod_beta fst_conv
  by (rule keeps_fold) (simp add: keeps_connect_link)

lemma keeps_on_idle_timer [keeping]: "keeps c (fst (on_idle_timer E ec c))"
proof (cases "ec \<or> \<not> uc_running c")
  case False
  show ?thesis
    unfolding on_idle_timer_def if_not_P [OF False] Let_def case_prod_beta fst_conv
    by (rule keeps_fold) (simp add: keeps_watch_link)
qed (simp add: on_idle_timer_def holds_on_refl)

lemma keeps_stop_links [keeping]: "keeps c (fst (stop_links c))"
proof -
  have shut: "keeps c (upd_link i (\<lambda>L. L\<lparr>lk_conn_closed := None\<rparr>) (fst (close_link i r c)))" for c i r
    by (rule holds_on_trans [OF keeps_close_link keeps_core]) (simp add: same_core_def)
  show ?thesis
    unfolding stop_links_def Let_def case_prod_beta fst_conv
    by (rule keeps_fold) (simp add: shut)
qed

lemma alloc_loop_keeps:
  "0 < lk_slot_span L \<Longrightarrow> link_keeps i (\<lambda>L. snd (alloc_loop k s L)) L"
proof (induction k arbitrary: L)
  case (Suc k)
  let ?next = "(lk_next_slot L + 1) mod lk_slot_span L" and ?cand = "lk_next_slot L"
  let ?L = "L\<lparr>lk_next_slot := ?next\<rparr>"
  have nx: "?next < lk_slot_span L" using Suc.prems by (rule less_span_mod)
  have span: "max 1 (lk_slot_span L) = lk_slot_span L"
    using Suc.prems by (simp add: max_def) (metis word_less_1 linorder_not_le order_antisym word_le_less_eq)
  have step: "link_keeps i (\<lambda>_. ?L) L"
    using nx by (auto simp: link_keeps_def link_ok_def roomy_def span)
  show ?case
  proof (cases "?cand \<in> fst ` set (lk_subscribers L)")
    case True
    then have "snd (alloc_loop (Suc k) s L) = snd (alloc_loop k s ?L)" by (simp add: Let_def)
    with step Suc.IH [of ?L] Suc.prems show ?thesis by (auto simp: link_keeps_def)
  next
    case False
    then have given: "snd (alloc_loop (Suc k) s L) = seated L ?cand s ?next" by (simp add: Let_def seated_def slot_of_def)
    show ?thesis
      unfolding link_keeps_def given using False nx by (auto simp: link_ok_def roomy_def seated_def span)
  qed
qed (simp add: link_keeps_def)

lemma keeps_attach_link [keeping]: "keeps c (snd (attach_link i s c))"
proof -
  have "snd (attach_link i s c) = upd_link i (\<lambda>L. snd (allocate_on s L)) c"
    by (simp add: attach_link_def upd_link_def split: prod.split)
  moreover have "link_keeps i (\<lambda>L. snd (allocate_on s L)) L" for L
    using alloc_loop_keeps [of L i "unat (lk_slot_span L)" s]
    by (auto simp: allocate_on_def link_keeps_def link_ready_def)
  ultimately show ?thesis using holds_on_upd by simp
qed

lemma relay_inv_indexed: "relay_inv c \<Longrightarrow> indexed (uc_links c)"
  by (simp add: relay_inv_def indexed_def link_ok_def)

lemma keeps_primary:
  assumes "relay_inv c \<Longrightarrow> -1 \<le> p \<and> p < int (length (uc_links c)) \<and> (uc_active_active c \<longrightarrow> p = -1)"
  shows "keeps c (c\<lparr>uc_primary := p\<rparr>)"
  using assms by (auto simp: keeps_def relay_inv_def)

lemma keeps_relay_attach [keeping]: "keeps c (snd (relay_attach E s c))"
proof -
  let ?p = "pick_link E c"
  have "relay_inv c \<Longrightarrow> -1 \<le> ?p \<and> ?p < int (length (uc_links c))"
    using pick_link_ready [OF relay_inv_indexed, of c E] by (auto split: if_splits)
  then have "\<not> uc_active_active c \<Longrightarrow> keeps c (c\<lparr>uc_primary := ?p\<rparr>)" by (intro keeps_primary) auto
  then have "\<not> uc_active_active c \<Longrightarrow> keeps c (snd (attach_link (nat ?p) s (c\<lparr>uc_primary := ?p\<rparr>)))"
    by (rule holds_on_trans [OF _ keeps_attach_link])
  then show ?thesis by (simp add: relay_attach_def Let_def holds_on_refl keeps_attach_link)
qed

lemma keeps_relay_detach [keeping]: "keeps c (relay_detach l sid c)"
proof -
  have "link_keeps i (\<lambda>L. L\<lparr>lk_subscribers := AList.delete sid (lk_subscribers L)\<rparr>) L" for i L
    by (auto simp: link_keeps_def link_ok_def roomy_def AList.delete_eq distinct_map_filter)
  then show ?thesis by (simp add: relay_detach_def holds_on_refl holds_on_upd)
qed

lemma keeps_move_subscriber [keeping]: "keeps c (snd (move_subscriber E i t sb c))"
  by (auto simp: move_subscriber_def Let_def case_prod_beta holds_on_refl keeps_attach_link)

lemma keeps_move_subscribers [keeping]: "keeps c (snd (move_subscribers E i t ss c))"
proof (induction ss arbitrary: c)
  case (Cons x ss)
  show ?case
    using holds_on_trans [OF keeps_move_subscriber Cons.IH]
    by (simp add: Let_def case_prod_beta)
qed (simp add: holds_on_refl)

lemma keeps_migrate_link [keeping]: "keeps c (fst (migrate_link E i c))"
proof -
  define c1 where "c1 = (if uc_primary c = int i then c\<lparr>uc_primary := -1\<rparr> else c)"
  define t where "t = (if uc_active_active c1 then -1 else first_ready (int i) (uc_links c1))"
  define c2 where "c2 = (if t \<ge> 0 then c1\<lparr>uc_primary := t\<rparr> else c1)"
  have 1: "keeps c c1" by (auto simp: c1_def holds_on_refl intro!: keeps_primary)
  have "t < int (length (uc_links c1)) \<and> \<not> uc_active_active c1" if "relay_inv c1" "t \<ge> 0"
    using chosen_nth [OF first_ready_chosen relay_inv_indexed [OF that(1)], of "int i"] that(2)
    by (auto simp: t_def split: if_splits)
  then have 2: "keeps c1 c2" by (auto simp: c2_def holds_on_refl intro!: keeps_primary)
  let ?m = "move_subscribers E (int i) t (lk_subscribers (uc_links c2 ! i)) c2"
  have 3: "keeps c2 (snd ?m)" by (rule keeps_move_subscribers)
  have drop: "link_keeps i (\<lambda>L. L\<lparr>lk_subscribers := filter (\<lambda>(sid, sb). sid \<notin> ids) (lk_subscribers L)\<rparr>) L" for ids L
    by (auto simp: link_keeps_def link_ok_def roomy_def distinct_map_filter)
  have "fst (migrate_link E i c) = upd_link i (\<lambda>L. L\<lparr>lk_subscribers := filter (\<lambda>(sid, sb). sid \<notin> set (fst (fst ?m))) (lk_subscribers L)\<rparr>) (snd ?m)"
    unfolding migrate_link_def Let_def c2_def t_def c1_def case_prod_beta fst_conv by (rule refl)
  with holds_on_upd [OF drop] have "keeps (snd ?m) (fst (migrate_link E i c))" by simp
  with 1 2 3 show ?thesis by (blast intro: holds_on_trans)
qed


lemma keeps_on_conn_close [keeping]: "keeps c (fst (on_conn_close E i c))"
proof -
  let ?c = "upd_link i (\<lambda>L. L\<lparr>lk_connected := False, lk_authorized := False, lk_subscribed := False,
    lk_stat_reconnects := lk_stat_reconnects L + 1\<rparr>) c"
  have "keeps c ?c" by (rule keeps_core) (simp add: same_core_def)
  from holds_on_trans [OF this holds_on_trans [OF keeps_migrate_link keeps_reconnect]]
  show ?thesis by (simp add: on_conn_close_def Let_def case_prod_beta)
qed

lemma keeps_relay_submit [keeping]: "keeps c (fst (relay_submit E l s cb c))"
proof -
  have stat: "keeps c (upd_link i (\<lambda>L. L\<lparr>lk_stat_forwarded := lk_stat_forwarded L + 1\<rparr>) c)" for i c
    by (rule keeps_core) (simp add: same_core_def)
  have lost: "keeps c (upd_link i (\<lambda>L. L\<lparr>lk_stat_rejected := lk_stat_rejected L + 1\<rparr>) c)" for i c
    by (rule keeps_core) (simp add: same_core_def)
  show ?thesis
    by (auto simp: relay_submit_def Let_def holds_on_refl intro!: holds_on_trans [OF stat lost] holds_on_trans [OF stat keeps_core])
      (auto simp: same_core_def)
qed

lemma keeps_set_upstream_diff [keeping]: "keeps c (fst (set_upstream_diff E i d c))"
  by (auto simp: set_upstream_diff_def holds_on_refl link_keeps_def link_ok_def roomy_def intro!: holds_on_upd)

lemma read_notify_seq: "read_notify ps = Inr job \<Longrightarrow> pn_seq job = 0"
  by (auto simp: read_notify_def bind_res_Inr_iff)

lemma keeps_notify [keeping]: "keeps c (fst (build_and_broadcast_notify E i ps c))"
  by (auto simp: build_and_broadcast_notify_def Let_def holds_on_refl link_keeps_def link_ok_def roomy_def
      intro!: holds_on_upd split: sum.split)

lemma slot_width_less: "unat (slot_width want n) < max 1 n"
proof (cases "n \<le> 1 \<or> unat want < n")
  case False
  have "unat want < 2 ^ LENGTH(8)" by (rule unsigned_less)
  moreover have "n \<le> unat want" using False by simp
  ultimately have "n - 1 < 2 ^ LENGTH(8)" by linarith
  then have "unat (of_nat (n - 1) :: u8) = n - 1" by (rule of_nat_inverse [OF refl])
  with False show ?thesis by (simp add: slot_width_def)
qed (auto simp: slot_width_def)

lemma span_of_small: "0 < unat e \<Longrightarrow> unat e < 4 \<Longrightarrow> unat (span_of E e) = 256 ^ unat e"
proof -
  assume "0 < unat e" "unat e < 4"
  then consider "unat e = 1" | "unat e = 2" | "unat e = 3" by linarith
  then show ?thesis by cases (auto simp: span_of_def)
qed

lemma kept_set_upstream_extranonce: "kept c (fst (set_upstream_extranonce E i en1 n b c))"
proof -
  have "link_ok j (uc_links c' ! j) \<and> (lk_slot_span (uc_links c ! j) \<le> lk_slot_span (uc_links c' ! j) \<longrightarrow>
      roomy (uc_links c ! j) \<longrightarrow> roomy (uc_links c' ! j))"
    if "link_ok j (uc_links c ! j)" "j < length (uc_links c)" "c' = fst (set_upstream_extranonce E i en1 n b c)" for j c'
  proof -
    have "link_ok j (L\<lparr>lk_up_en1 := en1, lk_up_en2_size := n, lk_nonce_bytes_eff := slot_width w n,
        lk_slot_span := span_of E (slot_width w n)\<rparr>)" if "link_ok j L" for L w
      using that slot_width_less [of w n] by (simp add: link_ok_def span_of_small)
    moreover have "roomy (L\<lparr>lk_up_en1 := en1, lk_up_en2_size := n, lk_nonce_bytes_eff := e, lk_slot_span := sp\<rparr>)"
      if "roomy L" "lk_slot_span L \<le> sp" for L e sp
    proof -
      have "max 1 (lk_slot_span L) \<le> max 1 sp" using that(2) by (intro max.mono order_refl)
      with that show ?thesis by (auto simp: roomy_def intro: less_le_trans)
    qed
    ultimately show ?thesis
      using that by (cases "j = i") (simp_all add: set_upstream_extranonce_def Let_def upd_link_def)
  qed
  then show ?thesis
    by (simp add: kept_def relay_inv_def) (simp add: set_upstream_extranonce_def Let_def upd_link_def)
qed

text \<open>One goal for each branch.\<close>

lemma kept_branches:
  "kept c (fst a) \<Longrightarrow> kept c (fst b) \<Longrightarrow> kept c (fst (if p then a else b))"
  "kept c (fst a) \<Longrightarrow> (\<And>x. kept c (fst (f x))) \<Longrightarrow> kept c (fst (case v of None \<Rightarrow> a | Some x \<Rightarrow> f x))"
  "kept c (fst a) \<Longrightarrow> (\<And>x xs. kept c (fst (g x xs))) \<Longrightarrow> kept c (fst (case l of [] \<Rightarrow> a | x # xs \<Rightarrow> g x xs))"
  "(\<And>x. kept c (fst (h x))) \<Longrightarrow> (\<And>x. kept c (fst (k x))) \<Longrightarrow> kept c (fst (case r of Inl x \<Rightarrow> h x | Inr x \<Rightarrow> k x))"
  by (simp_all split: option.split list.split sum.split)

lemma kept_json:
  "kept c (fst a) \<Longrightarrow> (\<And>s. kept c (fst (f s))) \<Longrightarrow> kept c (fst (case j of JString s \<Rightarrow> f s | _ \<Rightarrow> a))"
  "kept c (fst a) \<Longrightarrow> (\<And>n. kept c (fst (g n))) \<Longrightarrow> kept c (fst (case j of JInt n \<Rightarrow> g n | _ \<Rightarrow> a))"
  by (simp_all split: json.split)

lemma kept_same: "kept c (fst (c, acts))"
  by (simp add: keeps_kept holds_on_refl)

lemma kept_handle_method: "kept c (fst (handle_method E i name msg c))"
proof -
  have mask: "keeps c (upd_link i (\<lambda>L. L\<lparr>lk_up_version_mask := m\<rparr>) c)" for m
    by (rule keeps_core) (simp add: same_core_def)
  show ?thesis
    unfolding handle_method_def Let_def
    by (intro kept_branches kept_json kept_same kept_set_upstream_extranonce keeps_kept [OF keeps_set_upstream_diff]
        keeps_kept [OF keeps_notify] keeps_kept [OF keeps_close_link])
      (simp_all add: keeps_kept mask)
qed

lemma keeps_notify_waiters [keeping]: "keeps c (fst (relay_notify_waiters E c))"
  by (simp add: relay_notify_waiters_def keeps_same)

lemma keeps_on_authorized [keeping]: "keeps c (fst (on_authorized E i msg c))"
proof -
  have "keeps c (upd_link i (\<lambda>L. L\<lparr>lk_authorized := True, lk_reconnect_backoff := 0\<rparr>) c)"
    by (rule keeps_core) (simp add: same_core_def)
  then show ?thesis by (auto simp: on_authorized_def intro: keeping holds_on_trans)
qed

lemma keeps_on_verdict [keeping]: "keeps c (fst (on_verdict E i n msg c))"
  by (auto simp: on_verdict_def Let_def holds_on_refl AList.distinct_delete same_core_def intro!: keeps_core split: option.split)

lemma kept_on_subscribed: "kept c (fst (on_subscribed E i msg c))"
proof -
  have "keeps c (upd_link i (\<lambda>L. L\<lparr>lk_subscribed := True\<rparr>) c)" for c
    by (rule keeps_core) (simp add: same_core_def)
  then have "kept c (upd_link i (\<lambda>L. L\<lparr>lk_subscribed := True\<rparr>) (fst (set_upstream_extranonce E i en1 n b c)))" for en1 n b
    by (blast intro: kept_then_keeps kept_set_upstream_extranonce)
  then show ?thesis
    by (auto simp: on_subscribed_def Let_def case_prod_beta intro: keeps_kept keeping split: option.split list.split)
qed

lemma kept_handle_result: "kept c (fst (handle_result E i msg c))"
proof -
  have "keeps c (fst (on_configured i msg c))"
    by (auto simp: on_configured_def holds_on_refl same_core_def intro!: keeps_core split: option.split)
  then show ?thesis
    by (auto simp: handle_result_def Let_def intro: keeps_kept keeping kept_on_subscribed split: option.split json.split)
qed

lemma kept_on_up_line: "kept c (fst (on_up_line E i line c))"
proof -
  let ?c = "upd_link i (\<lambda>L. L\<lparr>lk_last_rx := ue_now E\<rparr>) c"
  have "keeps c ?c" by (rule keeps_core) (simp add: same_core_def)
  moreover have "kept ?c (fst (on_up_line E i line c))"
    by (auto simp: on_up_line_def Let_def intro: keeps_kept holds_on_refl kept_handle_method kept_handle_result split: option.split)
  ultimately show ?thesis by (rule keeps_then_kept)
qed

lemma kept_relay_do: "kept c (fst (relay_do E ev c))"
proof -
  have "keeps c (relay_start c)" "keeps c (relay_stop c)" "keeps c (relay_register_waiter s c)" for s
    by (simp_all add: relay_start_def relay_stop_def relay_register_waiter_def keeps_same)
  then show ?thesis
    by (cases ev) (auto intro: keeps_kept keeping kept_on_up_line simp: on_reconnect_timer_def of_generation_def)
qed


text \<open>
  The states the client can reach; with \<open>steady\<close>, without the pool ever shrinking the span of a link
  by granting a smaller extranonce2.
\<close>

definition spans_kept :: "relay_client \<Rightarrow> relay_client \<Rightarrow> bool" where
  "spans_kept c c' \<longleftrightarrow> (\<forall>i < length (uc_links c). lk_slot_span (uc_links c ! i) \<le> lk_slot_span (uc_links c' ! i))"

inductive relay_reachable :: "coin_config \<Rightarrow> bool \<Rightarrow> relay_client \<Rightarrow> bool" for coin steady where
  init: "relay_reachable coin steady (relay_new coin)"
| step: "relay_reachable coin steady c \<Longrightarrow> event_ok c ev \<Longrightarrow> relay_do E ev c = (c', acts) \<Longrightarrow>
    steady \<longrightarrow> spans_kept c c' \<Longrightarrow> relay_reachable coin steady c'"

inductive_cases relay_reachableE: "relay_reachable coin steady c"

lemma link_ok_new: "link_ok i (new_link ep (int i))" "roomy (new_link ep k)"
  by (simp_all add: link_ok_def new_link_def roomy_def)

lemma relay_new_links: "uc_links (relay_new coin) ! i =
    new_link (sort_key (\<lambda>e. sint (ue_priority e)) (up_endpoints (cc_upstream coin)) ! i) (int i)"
  "length (uc_links (relay_new coin)) = length (up_endpoints (cc_upstream coin))"
  if "i < length (up_endpoints (cc_upstream coin))"
  using that by (simp_all add: relay_new_def nth_enumerate_eq)

lemma relay_new_length: "length (uc_links (relay_new coin)) = length (up_endpoints (cc_upstream coin))"
  by (simp add: relay_new_def)

lemma relay_new_inv: "relay_inv (relay_new coin)"
  using relay_new_links [of _ coin] relay_new_length [of coin]
  by (auto simp: relay_inv_def link_ok_new) (simp_all add: relay_new_def)

lemma reachable_ok:
  assumes "relay_reachable coin steady c"
  shows "relay_inv c \<and> length (uc_links c) = length (up_endpoints (cc_upstream coin))
    \<and> (steady \<longrightarrow> (\<forall>i < length (uc_links c). roomy (uc_links c ! i)))"
  using assms
proof induction
  case init
  then show ?case using relay_new_inv relay_new_length [of coin] relay_new_links [of _ coin] by (auto simp: link_ok_new)
next
  case (step c ev E c' acts)
  have "kept c c'" using kept_relay_do [of c E ev] step.hyps(3) by simp
  with step.IH step.hyps(4) show ?case by (auto simp: kept_def spans_kept_def)
qed


section \<open>Properties of the bookkeeping\<close>

text \<open>
  C21. In every state the client can reach, the links carry their positions, the slots given out on a
  link are pairwise distinct, and so are the numbers of its pending submissions; the difficulty of a
  link is positive, the current job carries the number of the last one and every job was counted; the
  slot width leaves at least one byte of the pool's extranonce2 to the miner and up to three bytes
  the span is exactly the number of texts of that width; the primary is a link or none, and none in
  active-active mode. While the pool never shrinks a span, every slot in use and the next candidate
  stay below it.
\<close>

theorem v1_invariant:
  assumes "relay_reachable coin steady c"
  shows "(\<forall>i < length (uc_links c). let L = uc_links c ! i in
      lk_index L = int i \<and> distinct (map fst (lk_subscribers L)) \<and> distinct (map fst (lk_pending L)) \<and> lk_up_diff L > 0 \<and>
      lk_stat_jobs L = lk_job_seq L \<and> (\<forall>j. lk_cur_job L = Some j \<longrightarrow> pn_seq j = lk_job_seq L) \<and>
      unat (lk_nonce_bytes_eff L) < max 1 (lk_up_en2_size L) \<and>
      (0 < unat (lk_nonce_bytes_eff L) \<and> unat (lk_nonce_bytes_eff L) < 4 \<longrightarrow>
         unat (lk_slot_span L) = 256 ^ unat (lk_nonce_bytes_eff L)) \<and>
      (steady \<longrightarrow> lk_next_slot L < max 1 (lk_slot_span L) \<and> (\<forall>sid \<in> set (map fst (lk_subscribers L)). sid < lk_slot_span L)))
    \<and> length (uc_links c) = length (up_endpoints (cc_upstream coin))
    \<and> -1 \<le> uc_primary c \<and> uc_primary c < int (length (uc_links c)) \<and> (uc_active_active c \<longrightarrow> uc_primary c = -1)"
  using reachable_ok [OF assms] by (simp add: relay_inv_def link_ok_def roomy_def Let_def)

definition demo_coin :: coin_config where
  "demo_coin = default_coin\<lparr>cc_upstream := (cc_upstream default_coin)\<lparr>up_endpoints :=
     [default_endpoint, default_endpoint\<lparr>ue_priority := 1\<rparr>]\<rparr>\<rparr>"

lemma v1_invariant_witness:
  "distinct (map fst (lk_pending (uc_links (relay_start (relay_new demo_coin)) ! 1)))
    \<and> length (uc_links (relay_start (relay_new demo_coin))) = 2"
proof -
  have start: "relay_reachable demo_coin True (relay_start (relay_new demo_coin))"
    by (rule relay_reachable.step [OF relay_reachable.init, where ev = Start])
      (simp_all add: spans_kept_def relay_start_def)
  have "length (up_endpoints (cc_upstream demo_coin)) = 2" by (simp add: demo_coin_def)
  with v1_invariant [OF start] show ?thesis by (simp add: Let_def)
qed

text \<open>The seat a search finds, whatever the next candidate is.\<close>

lemma alloc_loop_seat:
  assumes "alloc_loop k s L = (slot, L')"
  shows "if sl_ok slot then \<exists>sid nx. slot = slot_of L sid \<and> L' = seated L sid s nx \<and> sid \<notin> set (slot_ids L)
    else \<exists>nx. L' = L\<lparr>lk_next_slot := nx\<rparr>"
  using assms
proof (induction k arbitrary: L)
  case 0
  then have "\<not> sl_ok slot" "L' = L\<lparr>lk_next_slot := lk_next_slot L\<rparr>" by (auto simp: no_slot_def)
  then show ?case unfolding if_not_P [OF \<open>\<not> sl_ok slot\<close>] by (rule_tac exI)
next
  case (Suc k)
  let ?next = "(lk_next_slot L + 1) mod lk_slot_span L" and ?cand = "lk_next_slot L"
  let ?L = "L\<lparr>lk_next_slot := ?next\<rparr>"
  show ?case
  proof (cases "?cand \<in> fst ` set (lk_subscribers L)")
    case False
    then have "slot = slot_of L ?cand" "L' = seated L ?cand s ?next"
      using Suc.prems by (auto simp: Let_def slot_of_def seated_def)
    moreover have "sl_ok (slot_of L ?cand)" by (simp add: slot_of_def Let_def)
    ultimately show ?thesis using False by auto
  next
    case True
    then have "alloc_loop k s ?L = (slot, L')" using Suc.prems by (simp add: Let_def)
    from Suc.IH [OF this] show ?thesis by (cases "sl_ok slot") auto
  qed
qed

lemma allocate_on_seat:
  assumes "allocate_on s L = (slot, L')"
  shows "if sl_ok slot then \<exists>sid nx. slot = slot_of L sid \<and> L' = seated L sid s nx \<and> sid \<notin> set (slot_ids L) \<and> link_ready L
    else \<exists>nx. L' = L\<lparr>lk_next_slot := nx\<rparr>"
proof (cases "link_ready L")
  case True
  then show ?thesis using assms alloc_loop_seat [of "unat (lk_slot_span L)" s L slot L']
    by (cases "sl_ok slot") (auto simp: allocate_on_def)
next
  case False
  then have "\<not> sl_ok slot" "L' = L\<lparr>lk_next_slot := lk_next_slot L\<rparr>" using assms by (auto simp: allocate_on_def no_slot_def)
  then show ?thesis unfolding if_not_P [OF \<open>\<not> sl_ok slot\<close>] by (rule_tac exI)
qed

lemma slot_of_ok: "sl_ok (slot_of L sid)" "sl_slot_id (slot_of L sid) = sid" "sl_link_id (slot_of L sid) = lk_index L"
  by (simp_all add: slot_of_def Let_def)


lemma roomy_next: "roomy L \<Longrightarrow> link_ready L \<Longrightarrow> lk_next_slot L < lk_slot_span L"
proof -
  assume "roomy L" "link_ready L"
  then have "lk_next_slot L < max 1 (lk_slot_span L)" "0 < lk_slot_span L" by (simp_all add: roomy_def link_ready_def)
  then show ?thesis by (simp add: max_def word_neq_0_conv [symmetric] split: if_splits)
qed

lemma relay_attach_ready:
  assumes "relay_inv c" "relay_attach E s c = (slot, c')"
    and "\<And>i. i < length (uc_links c) \<Longrightarrow> roomy (uc_links c ! i)"
  shows "if relay_any_ready c
    then \<exists>i sid nx. let L = uc_links c ! i in i < length (uc_links c) \<and> link_ready L \<and> slot = slot_of L sid \<and>
      sid \<notin> set (slot_ids L) \<and> sid < lk_slot_span L \<and> uc_links c' = (uc_links c)[i := seated L sid s nx]
    else slot = no_slot \<and> c' = c"
proof (cases "relay_any_ready c")
  case True
  let ?i = "nat (pick_link E c)"
  from pick_link_ready [OF relay_inv_indexed [OF assms(1)], of E] True
  have i: "?i < length (uc_links c)" "0 \<le> pick_link E c" "link_ready (uc_links c ! ?i)" by simp_all
  then have "lk_next_slot (uc_links c ! ?i) < lk_slot_span (uc_links c ! ?i)"
    using assms(3) [OF i(1)] by (intro roomy_next)
  with i(3) obtain sid nx where a: "allocate_on s (uc_links c ! ?i) = (slot_of (uc_links c ! ?i) sid, seated (uc_links c ! ?i) sid s nx)"
    "sid \<notin> set (slot_ids (uc_links c ! ?i))" "sid < lk_slot_span (uc_links c ! ?i)"
    by (rule allocate_ready)
  then have "slot = slot_of (uc_links c ! ?i) sid" "uc_links c' = (uc_links c)[?i := seated (uc_links c ! ?i) sid s nx]"
    using assms(2) i(2) by (cases "uc_active_active c"; auto simp: relay_attach_def Let_def attach_link_def)+
  with i a(2,3) show ?thesis unfolding if_P [OF True] Let_def by blast
next
  case False
  with pick_link_ready [OF relay_inv_indexed [OF assms(1)], of E] assms(2) show ?thesis
    by (simp add: relay_attach_def)
qed

text \<open>
  C14. A miner that asks for a slot gets one exactly when some link is ready, in every state reached
  without the pool shrinking a span. The slot is on a ready link, its number is below the span and new
  there, so that its extranonce1 differs from that of every other slot of the link; extranonce1 is the
  pool's followed by the slot's bytes, and those with the extranonce2 left to the miner fill the pool's
  extranonce2 exactly. The miner is registered under the slot and nothing else of the subscriptions
  changes; without a ready link nothing changes.
\<close>

theorem v1_attach:
  assumes "relay_reachable coin True c" and "relay_attach E s c = (slot, c')"
  shows "(sl_ok slot \<longleftrightarrow> relay_any_ready c) \<and> (\<not> sl_ok slot \<longrightarrow> c' = c) \<and>
    (sl_ok slot \<longrightarrow> (\<exists>i < length (uc_links c). let L = uc_links c ! i; L' = uc_links c' ! i; nb = unat (lk_nonce_bytes_eff L) in
       link_ready L \<and> sl_link_id slot = int i \<and> sl_slot_id slot < lk_slot_span L \<and> sl_slot_id slot \<notin> set (map fst (lk_subscribers L)) \<and>
       lk_subscribers L' = lk_subscribers L @ [(sl_slot_id slot, \<lparr>sb_sink = s, sb_slot_hex = sl_slot_hex slot\<rparr>)] \<and>
       (\<forall>j < length (uc_links c). j \<noteq> i \<longrightarrow> uc_links c' ! j = uc_links c ! j) \<and>
       (\<forall>sid \<in> set (map fst (lk_subscribers L)). sl_en1_hex (slot_of L sid) \<noteq> sl_en1_hex slot) \<and>
       sl_en1_hex slot = lk_up_en1 L @ sl_slot_hex slot \<and> sl_en2_size slot + nb = lk_up_en2_size L \<and>
       (nb < 4 \<longrightarrow> length (sl_slot_hex slot) = 2 * nb)))"
proof -
  have inv: "relay_inv c" "\<And>i. i < length (uc_links c) \<Longrightarrow> roomy (uc_links c ! i)"
    using reachable_ok [OF assms(1)] by auto
  note r = relay_attach_ready [OF inv(1) assms(2) inv(2)]
  show ?thesis
  proof (cases "relay_any_ready c")
    case False
    with r show ?thesis by (simp add: no_slot_def)
  next
    case True
    with r obtain i sid nx where i: "i < length (uc_links c)" "link_ready (uc_links c ! i)" "slot = slot_of (uc_links c ! i) sid"
      "sid \<notin> set (slot_ids (uc_links c ! i))" "sid < lk_slot_span (uc_links c ! i)"
      "uc_links c' = (uc_links c)[i := seated (uc_links c ! i) sid s nx]" by (auto simp: Let_def)
    let ?L = "uc_links c ! i" and ?nb = "unat (lk_nonce_bytes_eff (uc_links c ! i))"
    have ok: "link_ok i ?L" using inv(1) i(1) by (simp add: relay_inv_def)
    have nb: "0 < ?nb" using i(2) by (simp add: link_ready_def word_less_nat_alt)
    have fresh: "\<forall>sid' \<in> set (slot_ids ?L). sl_en1_hex (slot_of ?L sid') \<noteq> sl_en1_hex slot"
      using i(3,4) by (auto simp: slot_of_def Let_def fmt_0x_inj word_unat_eq_iff [symmetric])
    have size: "sl_en2_size slot + ?nb = lk_up_en2_size ?L"
      using ok nb i(3) by (auto simp: slot_of_def Let_def link_ok_def max_def split: if_splits)
    have wide: "length (sl_slot_hex slot) = 2 * ?nb" if "?nb < 4"
    proof -
      have "unat sid < 256 ^ ?nb" using ok nb that i(5) by (simp add: link_ok_def word_less_nat_alt)
      then have "unat sid < 16 ^ (?nb * 2)" by (simp add: power_mult power_mult [of 16 2, symmetric] mult.commute)
      then show ?thesis using nb i(3) by (simp add: slot_of_def Let_def length_fmt_0x)
    qed
    have seat: "lk_subscribers (uc_links c' ! i) = lk_subscribers ?L @ [(sl_slot_id slot, \<lparr>sb_sink = s, sb_slot_hex = sl_slot_hex slot\<rparr>)]"
      using i(1,3,6) by (simp add: seated_def slot_of_ok)
    have slot: "sl_ok slot" "sl_link_id slot = int i" "sl_slot_id slot = sid" "sl_en1_hex slot = lk_up_en1 ?L @ sl_slot_hex slot"
      using i(3) ok by (simp_all add: slot_of_def Let_def link_ok_def)
    show ?thesis
      using True i(1,2,4,5,6) fresh size wide seat slot by (auto simp: Let_def intro!: exI [of _ i])
  qed
qed


text \<open>A client whose first link is up: started, connected, subscribed with extranonce1 \<open>ab\<close> and four bytes, authorized.\<close>

definition demo_env :: "json \<Rightarrow> relay_env" where
  "demo_env msg = \<lparr>ue_fpu = exact_fpu, ue_alive = (\<lambda>_. True), ue_now = 0, ue_parse = (\<lambda>_. Some msg), ue_dump = (\<lambda>_. []),
     ue_wide_shift = (\<lambda>_. 0)\<rparr>"

definition subscribe_reply :: json where
  "subscribe_reply = JObject [(''id'', JInt 2), (''result'', JArray [JNull, JString ''ab'', JInt 4])]"

definition authorize_reply :: json where
  "authorize_reply = JObject [(''id'', JInt 3), (''result'', JBool True)]"

lemma demo_links: "uc_links (relay_new demo_coin) = [new_link default_endpoint 0, new_link (default_endpoint\<lparr>ue_priority := 1\<rparr>) 1]"
  by (simp add: relay_new_def demo_coin_def default_endpoint_def insort_key_def)

lemma demo_started: "fst (relay_do (demo_env JNull) Start (relay_new demo_coin)) = (relay_new demo_coin)\<lparr>uc_running := True\<rparr>"
  by (simp add: relay_start_def demo_links)

definition demo_c1 :: relay_client where
  "demo_c1 = fst (relay_do (demo_env JNull) StartLinks ((relay_new demo_coin)\<lparr>uc_running := True\<rparr>))"

lemma demo_c1: "uc_links demo_c1 = (let up = \<lambda>L. L\<lparr>lk_conn_gen := 1, lk_conn_closed := Some False\<rparr> in
    [up (new_link default_endpoint 0), up (new_link (default_endpoint\<lparr>ue_priority := 1\<rparr>) 1)])"
  "uc_coin demo_c1 = demo_coin" "uc_running demo_c1" "uc_active_active demo_c1 = False" "uc_primary demo_c1 = -1"
  "uc_waiters demo_c1 = []"
  by (simp_all add: demo_c1_def start_links_def demo_links connect_link_def Let_def upd_link_def demo_env_def upt_rec)
    (simp_all add: new_link_def relay_new_def demo_coin_def default_coin_def default_upstream_def)

lemma demo_gen: "lk_conn_gen (uc_links demo_c1 ! 0) = 1"
  by (simp add: demo_c1 Let_def)

definition demo_c2 :: relay_client where
  "demo_c2 = fst (relay_do (demo_env JNull) (LinkOpen 0 1) demo_c1)"

text \<open>The states of the opening requests, without their texts.\<close>

lemma requests_fst:
  "fst (send_configure i c) = (if enableVersionRolling (uc_coin c)
     then upd_link i (\<lambda>L. L\<lparr>lk_id_configure := lk_next_id L, lk_next_id := lk_next_id L + 1\<rparr>) c else c)"
  "fst (send_subscribe i c) = upd_link i (\<lambda>L. L\<lparr>lk_id_subscribe := lk_next_id L, lk_next_id := lk_next_id L + 1\<rparr>) c"
  "fst (send_authorize i c) = upd_link i (\<lambda>L. L\<lparr>lk_id_authorize := lk_next_id L, lk_next_id := lk_next_id L + 1\<rparr>) c"
  "fst (on_conn_open E i c) = fst (send_authorize i (fst (send_subscribe i (fst (send_configure i
     (upd_link i (\<lambda>L. L\<lparr>lk_connected := True, lk_last_rx := ue_now E\<rparr>) c))))))"
  by (simp_all add: send_configure_def send_subscribe_def send_authorize_def on_conn_open_def Let_def upd_link_def case_prod_beta
      split del: if_split) (simp add: Let_def upd_link_def)

lemma demo_c2: "demo_c2 = demo_c1\<lparr>uc_links := [(uc_links demo_c1 ! 0)\<lparr>lk_connected := True, lk_next_id := 4, lk_id_configure := 1,
    lk_id_subscribe := 2, lk_id_authorize := 3\<rparr>, uc_links demo_c1 ! 1]\<rparr>"
  by (simp add: demo_c2_def of_generation_def demo_gen requests_fst upd_link_def demo_c1 demo_env_def) (simp add: demo_coin_def default_coin_def new_link_def)

definition demo_c3 :: relay_client where
  "demo_c3 = fst (relay_do (demo_env subscribe_reply) (LinkLine 0 1 []) demo_c2)"

lemma demo_c2_result: "handle_result (demo_env m) 0 subscribe_reply demo_c2 = on_subscribed (demo_env m) 0 subscribe_reply demo_c2"
  "string_member subscribe_reply ''method'' = None" "contains_key subscribe_reply ''id''" "is_object subscribe_reply"
  "array_member subscribe_reply ''result'' = Some [JNull, JString ''ab'', JInt 4]"
  by (simp_all add: handle_result_def subscribe_reply_def member_def string_member_def contains_key_def is_object_def
      array_member_def demo_c2)

lemma demo_c3: "demo_c3 = demo_c2\<lparr>uc_links := [(uc_links demo_c2 ! 0)\<lparr>lk_up_en1 := ''ab'', lk_up_en2_size := 4,
    lk_nonce_bytes_eff := 2, lk_slot_span := 65536, lk_subscribed := True\<rparr>, uc_links demo_c2 ! 1]\<rparr>"
proof -
  have rx: "upd_link 0 (\<lambda>L. L\<lparr>lk_last_rx := 0\<rparr>) demo_c2 = demo_c2"
    by (simp add: upd_link_def demo_c2 demo_c1) (simp add: new_link_def)
  have gen: "lk_conn_gen (uc_links demo_c2 ! 0) = 1" by (simp add: demo_c2 demo_gen)
  have nb: "up_nonceBytes (cc_upstream (uc_coin demo_c2)) = 2"
    by (simp add: demo_c2 demo_c1 demo_coin_def default_coin_def default_upstream_def)
  have "demo_c3 = fst (on_subscribed (demo_env subscribe_reply) 0 subscribe_reply demo_c2)"
    using rx demo_c2_result gen by (simp add: demo_c3_def of_generation_def on_up_line_def Let_def) (simp add: demo_env_def demo_c2_result)
  also have "\<dots> = demo_c2\<lparr>uc_links := [(uc_links demo_c2 ! 0)\<lparr>lk_up_en1 := ''ab'', lk_up_en2_size := 4,
      lk_nonce_bytes_eff := 2, lk_slot_span := 65536, lk_subscribed := True\<rparr>, uc_links demo_c2 ! 1]\<rparr>"
    by (simp add: on_subscribed_def demo_c2_result set_upstream_extranonce_def nb slot_width_def span_of_def upd_link_def Let_def)
      (simp add: demo_c2)
  finally show ?thesis .
qed

definition demo_up :: relay_client where
  "demo_up = fst (relay_do (demo_env authorize_reply) (LinkLine 0 1 []) demo_c3)"

lemma demo_up: "demo_up = demo_c3\<lparr>uc_links := [(uc_links demo_c3 ! 0)\<lparr>lk_authorized := True\<rparr>, uc_links demo_c3 ! 1]\<rparr>"
proof -
  have rx: "upd_link 0 (\<lambda>L. L\<lparr>lk_last_rx := 0\<rparr>) demo_c3 = demo_c3"
    by (simp add: upd_link_def demo_c3 demo_c2 demo_c1) (simp add: new_link_def)
  have gen: "lk_conn_gen (uc_links demo_c3 ! 0) = 1" by (simp add: demo_c3 demo_c2 demo_gen)
  have ids: "lk_id_configure (uc_links demo_c3 ! 0) = 1" "lk_id_subscribe (uc_links demo_c3 ! 0) = 2"
    "lk_id_authorize (uc_links demo_c3 ! 0) = 3" "lk_reconnect_backoff (uc_links demo_c3 ! 0) = 0" "uc_waiters demo_c3 = []"
    by (simp_all add: demo_c3 demo_c2 demo_c1) (simp add: new_link_def)
  have msg: "string_member authorize_reply ''method'' = None" "contains_key authorize_reply ''id''" "is_object authorize_reply"
    "member authorize_reply ''id'' = Some (JInt 3)" "member authorize_reply ''result'' = Some (JBool True)"
    by (simp_all add: authorize_reply_def member_def string_member_def contains_key_def is_object_def)
  have result: "handle_result E 0 authorize_reply demo_c3 = on_authorized E 0 authorize_reply demo_c3" for E
    by (simp add: handle_result_def msg ids)
  have "demo_up = fst (on_authorized (demo_env authorize_reply) 0 authorize_reply demo_c3)"
    using rx gen by (simp add: demo_up_def of_generation_def on_up_line_def Let_def) (simp add: demo_env_def msg result)
  also have "\<dots> = demo_c3\<lparr>uc_links := [(uc_links demo_c3 ! 0)\<lparr>lk_authorized := True\<rparr>, uc_links demo_c3 ! 1]\<rparr>"
    by (simp add: on_authorized_def msg relay_notify_waiters_def upd_link_def ids) (simp add: demo_c3 new_link_def demo_c2 demo_c1)
  finally show ?thesis .
qed

lemma demo_up_fields: "link_ready (uc_links demo_up ! 0)" "relay_any_ready demo_up" "length (uc_links demo_up) = 2"
  "\<not> uc_active_active demo_up" "uc_primary demo_up = -1" "uc_coin demo_up = demo_coin" "uc_running demo_up"
  by (simp_all add: demo_up demo_c3 demo_c2 demo_c1 link_ready_def relay_any_ready_def) (simp_all add: new_link_def)

lemma relay_reachable_fst:
  assumes "relay_reachable coin True c" "event_ok c ev" "c' = fst (relay_do E ev c)"
    and "map lk_slot_span (uc_links c) = ss" "map lk_slot_span (uc_links c') = ss'" "list_all2 (\<le>) ss ss'"
  shows "relay_reachable coin True c'"
proof (rule relay_reachable.step [OF assms(1,2)])
  show "relay_do E ev c = (c', snd (relay_do E ev c))" using assms(3) by simp
  show "True \<longrightarrow> spans_kept c c'"
    using assms(4-6) by (auto simp: spans_kept_def list_all2_conv_all_nth)
qed

lemma demo_steps: "relay_reachable demo_coin True demo_up"
proof -
  let ?s = "relay_new demo_coin"
  have 0: "relay_reachable demo_coin True (?s\<lparr>uc_running := True\<rparr>)"
    by (rule relay_reachable_fst [OF relay_reachable.init, where ss = "[0, 0]" and ss' = "[0, 0]", OF _ demo_started [symmetric]])
      (simp_all add: demo_links new_link_def)
  have 1: "relay_reachable demo_coin True demo_c1"
    by (rule relay_reachable_fst [OF 0, where ev = StartLinks and ss = "[0, 0]" and ss' = "[0, 0]", OF _ demo_c1_def])
      (simp_all add: demo_links demo_c1 Let_def, simp_all add: new_link_def)
  have 2: "relay_reachable demo_coin True demo_c2"
    by (rule relay_reachable_fst [OF 1, where ev = "LinkOpen 0 1" and ss = "[0, 0]" and ss' = "[0, 0]", OF _ demo_c2_def])
      (simp_all add: demo_c2 demo_c1 Let_def, simp_all add: new_link_def)
  have 3: "relay_reachable demo_coin True demo_c3"
    by (rule relay_reachable_fst [OF 2, where ev = "LinkLine 0 1 []" and ss = "[0, 0]" and ss' = "[65536, 0]", OF _ demo_c3_def])
      (simp_all add: demo_c3 demo_c2 demo_c1 Let_def, simp_all add: new_link_def)
  show ?thesis
    by (rule relay_reachable_fst [OF 3, where ev = "LinkLine 0 1 []" and ss = "[65536, 0]" and ss' = "[65536, 0]", OF _ demo_up_def])
      (simp_all add: demo_up demo_c3 demo_c2 demo_c1 Let_def, simp_all add: new_link_def)
qed

lemma demo_link_index: "i < length (uc_links demo_up) \<Longrightarrow> link_ready (uc_links demo_up ! i) \<Longrightarrow> i = 0"
  by (cases i) (auto simp: demo_up demo_c3 demo_c2 demo_c1 Let_def link_ready_def new_link_def)

lemma v1_attach_witness:
  "sl_ok (fst (relay_attach (demo_env JNull) 7 demo_up)) \<and> sl_link_id (fst (relay_attach (demo_env JNull) 7 demo_up)) = 0
    \<and> take 2 (sl_en1_hex (fst (relay_attach (demo_env JNull) 7 demo_up))) = ''ab''
    \<and> sl_en2_size (fst (relay_attach (demo_env JNull) 7 demo_up)) = 2"
proof -
  obtain slot c' where a: "relay_attach (demo_env JNull) 7 demo_up = (slot, c')" by fastforce
  note p = v1_attach [OF demo_steps a]
  then have "sl_ok slot" using demo_up_fields(2) by blast
  with p obtain i where i: "i < length (uc_links demo_up)" "link_ready (uc_links demo_up ! i)" "sl_link_id slot = int i"
    "sl_en1_hex slot = lk_up_en1 (uc_links demo_up ! i) @ sl_slot_hex slot"
    "sl_en2_size slot + unat (lk_nonce_bytes_eff (uc_links demo_up ! i)) = lk_up_en2_size (uc_links demo_up ! i)"
    by (auto simp: Let_def)
  from demo_link_index [OF i(1,2)] have "i = 0" .
  with i a \<open>sl_ok slot\<close> show ?thesis by (simp add: demo_up demo_c3)
qed

section \<open>A link that fails\<close>

text \<open>What moving a miner elsewhere leaves alone, and what it means that a miner has been moved.\<close>

definition link_frame :: "up_link \<Rightarrow> up_link \<Rightarrow> bool" where
  "link_frame L L' \<longleftrightarrow> lk_index L' = lk_index L \<and> slot_of L' = slot_of L \<and> lk_cur_job L' = lk_cur_job L \<and>
     lk_up_diff L' = lk_up_diff L \<and> lk_connected L' = lk_connected L \<and> lk_authorized L' = lk_authorized L \<and>
     lk_subscribed L' = lk_subscribed L \<and> lk_up_en1 L' = lk_up_en1 L \<and> lk_slot_span L' = lk_slot_span L \<and>
     lk_nonce_bytes_eff L' = lk_nonce_bytes_eff L \<and> set (lk_subscribers L) \<subseteq> set (lk_subscribers L') \<and> (link_ready L' \<longrightarrow> link_ready L)"

definition frame :: "nat \<Rightarrow> relay_client \<Rightarrow> relay_client \<Rightarrow> bool" where
  "frame i c c' \<longleftrightarrow> length (uc_links c') = length (uc_links c) \<and> uc_active_active c' = uc_active_active c \<and>
     uc_primary c' = uc_primary c \<and> uc_links c' ! i = uc_links c ! i \<and>
     (\<forall>j < length (uc_links c). link_frame (uc_links c ! j) (uc_links c' ! j))"

definition rebound :: "nat \<Rightarrow> sink \<Rightarrow> relay_action list \<Rightarrow> relay_client \<Rightarrow> bool" where
  "rebound i s acts c \<longleftrightarrow> (\<exists>t < length (uc_links c). \<exists>sid. t \<noteq> i \<and> (let L = uc_links c ! t; slot = slot_of L sid in
     TellRebind s slot (lk_cur_job L) (lk_up_diff L) \<in> set acts \<and>
     (sid, \<lparr>sb_sink = s, sb_slot_hex = sl_slot_hex slot\<rparr>) \<in> set (lk_subscribers L)))"

lemma frame_refl: "frame i c c"
  by (simp add: frame_def link_frame_def)

lemma link_frame_trans: "link_frame L L' \<Longrightarrow> link_frame L' L'' \<Longrightarrow> link_frame L L''"
  by (auto simp: link_frame_def)

lemma frame_trans: "frame i c c' \<Longrightarrow> frame i c' c'' \<Longrightarrow> frame i c c''"
  by (auto simp: frame_def intro: link_frame_trans)

lemma rebound_frame:
  assumes "rebound i s acts c" "frame i c c'" "set acts \<subseteq> set acts'"
  shows "rebound i s acts' c'"
proof -
  from assms(1) obtain t sid where t: "t < length (uc_links c)" "t \<noteq> i"
    "TellRebind s (slot_of (uc_links c ! t) sid) (lk_cur_job (uc_links c ! t)) (lk_up_diff (uc_links c ! t)) \<in> set acts"
    "(sid, \<lparr>sb_sink = s, sb_slot_hex = sl_slot_hex (slot_of (uc_links c ! t) sid)\<rparr>) \<in> set (lk_subscribers (uc_links c ! t))"
    by (auto simp: rebound_def Let_def)
  from assms(2) t(1) have "slot_of (uc_links c' ! t) = slot_of (uc_links c ! t)" "lk_cur_job (uc_links c' ! t) = lk_cur_job (uc_links c ! t)"
    "lk_up_diff (uc_links c' ! t) = lk_up_diff (uc_links c ! t)" "set (lk_subscribers (uc_links c ! t)) \<subseteq> set (lk_subscribers (uc_links c' ! t))"
    "length (uc_links c') = length (uc_links c)"
    by (auto simp: frame_def link_frame_def)
  with t assms(3) show ?thesis unfolding rebound_def Let_def by (intro exI [of _ t] exI [of _ sid]) auto
qed

lemma frame_attach_link:
  assumes "attach_link t s c = (slot, c')" "t \<noteq> i" "t < length (uc_links c)"
  shows "frame i c c' \<and> (sl_ok slot \<longrightarrow>
    rebound i s [TellRebind s slot (lk_cur_job (uc_links c' ! t)) (lk_up_diff (uc_links c' ! t))] c')"
proof -
  obtain L' where a: "allocate_on s (uc_links c ! t) = (slot, L')" "c' = c\<lparr>uc_links := (uc_links c)[t := L']\<rparr>"
    using assms(1) by (auto simp: attach_link_def split: prod.splits)
  have same: "slot_of (L\<lparr>lk_next_slot := n, lk_subscribers := ss\<rparr>) = slot_of L" for L n ss
    by (rule ext) (simp add: slot_of_def Let_def)
  have seat: "slot_of (seated L sid s n) = slot_of L" "slot_of (L\<lparr>lk_next_slot := n\<rparr>) = slot_of L" for L sid s n
    using same by (simp_all add: seated_def fun_eq_iff)
  have "frame i c c'"
    using allocate_on_seat [OF a(1)] assms(2,3) a(2) seat
    by (cases "sl_ok slot") (auto simp: frame_def link_frame_def nth_list_update seated_def link_ready_def)
  moreover have "rebound i s [TellRebind s slot (lk_cur_job (uc_links c' ! t)) (lk_up_diff (uc_links c' ! t))] c'" if "sl_ok slot"
    using allocate_on_seat [OF a(1)] assms(2,3) a(2) seat that
    by (auto simp: rebound_def Let_def seated_def intro!: exI [of _ t])
  ultimately show ?thesis by blast
qed


text \<open>Where a miner of link \<open>i\<close> may go: nowhere, or to another link.\<close>

definition target_ok :: "nat \<Rightarrow> int \<Rightarrow> relay_client \<Rightarrow> bool" where
  "target_ok i t c \<longleftrightarrow> t = -1 \<or> 0 \<le> t \<and> nat t < length (uc_links c) \<and> nat t \<noteq> i"

definition no_room :: "nat \<Rightarrow> int \<Rightarrow> relay_client \<Rightarrow> bool" where
  "no_room i target c \<longleftrightarrow> (if uc_active_active c then \<forall>t < length (uc_links c). t \<noteq> i \<longrightarrow> \<not> link_ready (uc_links c ! t)
     else target = -1 \<or> \<not> link_ready (uc_links c ! nat target))"

definition steady_inv :: "relay_client \<Rightarrow> bool" where
  "steady_inv c \<longleftrightarrow> relay_inv c \<and> (\<forall>i < length (uc_links c). roomy (uc_links c ! i))"

lemma keeps_steady: "keeps c c' \<Longrightarrow> steady_inv c \<Longrightarrow> steady_inv c'"
  by (auto simp: keeps_def steady_inv_def)

lemma no_room_frame: "no_room i target c \<Longrightarrow> frame i c c' \<Longrightarrow> target_ok i target c \<Longrightarrow> no_room i target c'"
  by (auto simp: no_room_def frame_def link_frame_def target_ok_def)

lemma chosen_target: "chosen (int i) (uc_links c) t \<Longrightarrow> indexed (uc_links c) \<Longrightarrow> target_ok i t c"
  using chosen_nth [of "int i" "uc_links c" t] by (cases "t = -1") (auto simp: target_ok_def split: if_splits)

lemma chosen_none:
  assumes "chosen (int i) ls (-1)" "indexed ls" "t < length ls" "t \<noteq> i"
  shows "\<not> link_ready (ls ! t)"
proof
  assume "link_ready (ls ! t)"
  moreover have "lk_index (ls ! t) = int t" "ls ! t \<in> set ls" using assms(2,3) by (simp_all add: indexed_def)
  ultimately have "\<exists>l \<in> set ls. lk_index l \<noteq> int i \<and> link_ready l" using assms(4) by force
  then obtain l where "l \<in> set ls" "lk_index l = -1" using assms(1) by (auto simp: chosen_def)
  with assms(2) show False by (auto simp: indexed_def in_set_conv_nth)
qed

lemma attach_link_full:
  assumes "attach_link t s c = (slot, c')" "\<not> sl_ok slot" "t < length (uc_links c)" "steady_inv c"
  shows "\<not> link_ready (uc_links c ! t)"
proof
  assume ready: "link_ready (uc_links c ! t)"
  then have "lk_next_slot (uc_links c ! t) < lk_slot_span (uc_links c ! t)"
    using assms(3,4) by (intro roomy_next) (simp_all add: steady_inv_def)
  with ready obtain sid nx where "allocate_on s (uc_links c ! t) = (slot_of (uc_links c ! t) sid, seated (uc_links c ! t) sid s nx)"
    by (rule allocate_ready)
  with assms(1) have "slot = slot_of (uc_links c ! t) sid" by (simp add: attach_link_def)
  with assms(2) show False by (simp add: slot_of_ok)
qed

lemma move_subscriber_ends:
  assumes "move_subscriber E (int i) target sb c = ((gone, moved, stranded), c')"
    and "steady_inv c" "target_ok i target c"
  shows "frame i c c' \<and> (ue_alive E (sb_sink sb) \<longrightarrow> gone \<and> rebound i (sb_sink sb) moved c' \<or>
    \<not> gone \<and> TellState (sb_sink sb) False \<in> set stranded \<and> no_room i target c')"
proof (cases "ue_alive E (sb_sink sb)")
  case False
  then show ?thesis using assms(1) by (auto simp: move_subscriber_def frame_refl)
next
  case alive: True
  let ?t = "if uc_active_active c then least_loaded E (int i) (uc_links c) else target"
  have ix: "indexed (uc_links c)" using assms(2) by (simp add: steady_inv_def relay_inv_indexed)
  have t: "target_ok i ?t c"
    using assms(3) chosen_target [OF least_loaded_chosen ix] by simp
  have aa: "\<forall>t < length (uc_links c). t \<noteq> i \<longrightarrow> \<not> link_ready (uc_links c ! t)"
    if "least_loaded E (int i) (uc_links c) = -1"
    using chosen_none [of i "uc_links c"] least_loaded_chosen [of "int i" "uc_links c" E] ix that by auto
  show ?thesis
  proof (cases "?t < 0")
    case True
    then have "?t = -1" using t by (auto simp: target_ok_def)
    then have "no_room i target c" using aa by (auto simp: no_room_def)
    then show ?thesis using assms(1) alive True by (auto simp: move_subscriber_def frame_refl)
  next
    case False
    obtain slot c1 where a: "attach_link (nat ?t) (sb_sink sb) c = (slot, c1)" by fastforce
    from False t have n: "nat ?t \<noteq> i" "nat ?t < length (uc_links c)" by (auto simp: target_ok_def)
    note f = frame_attach_link [OF a n]
    have c': "c' = c1" using assms(1) alive False a by (auto simp: move_subscriber_def Let_def split: if_splits)
    show ?thesis
    proof (cases "sl_ok slot")
      case True
      then show ?thesis using f assms(1) alive False a c' by (auto simp: move_subscriber_def Let_def)
    next
      case full: False
      from attach_link_full [OF a full n(2) assms(2)] have "\<not> link_ready (uc_links c ! nat ?t)" .
      moreover have "\<not> uc_active_active c"
        using chosen_nth [OF least_loaded_chosen ix, of E "int i"] False calculation by auto
      ultimately have "no_room i target c" by (simp add: no_room_def)
      with f have "no_room i target c1" using assms(3) by (blast intro: no_room_frame)
      then show ?thesis using f full assms(1) alive False a c' by (auto simp: move_subscriber_def Let_def)
    qed
  qed
qed


lemma target_ok_frame: "target_ok i t c \<Longrightarrow> frame i c c' \<Longrightarrow> target_ok i t c'"
  by (simp add: target_ok_def frame_def)

lemma move_subscribers_end:
  assumes "move_subscribers E (int i) target ss c = ((ids, moved, stranded), c')" "steady_inv c" "target_ok i target c"
  shows "frame i c c' \<and> set ids \<subseteq> set (map fst ss) \<and> (distinct (map fst ss) \<longrightarrow> (\<forall>(sid, sb) \<in> set ss. ue_alive E (sb_sink sb) \<longrightarrow>
    sid \<in> set ids \<and> rebound i (sb_sink sb) moved c' \<or>
    sid \<notin> set ids \<and> TellState (sb_sink sb) False \<in> set stranded \<and> no_room i target c'))"
  using assms
proof (induction ss arbitrary: c ids moved stranded)
  case Nil
  then show ?case by (simp add: frame_refl)
next
  case (Cons x ss)
  obtain gone m s c1 where 1: "move_subscriber E (int i) target (snd x) c = ((gone, m, s), c1)" by (metis prod.exhaust)
  obtain ids' m' s' where 2: "move_subscribers E (int i) target ss c1 = ((ids', m', s'), c')"
    and eq: "ids = (if gone then [fst x] else []) @ ids'" "moved = m @ m'" "stranded = s @ s'"
    using Cons.prems(1) 1 by (auto simp: Let_def split: prod.splits)
  note one = move_subscriber_ends [OF 1 Cons.prems(2,3)]
  have steady: "steady_inv c1" using keeps_steady [OF keeps_move_subscriber Cons.prems(2), of E "int i" target "snd x"] 1 by simp
  have t: "target_ok i target c1" using one Cons.prems(3) target_ok_frame by blast
  note rest = Cons.IH [OF 2 steady t]
  have grow: "rebound i k m c1 \<Longrightarrow> rebound i k moved c'" "rebound i k m' c' \<Longrightarrow> rebound i k moved c'" for k
    using rest rebound_frame [of i k m c1 c' moved] rebound_frame [OF _ frame_refl, of i k m' c' moved] eq(2) by auto
  have full: "no_room i target c1 \<Longrightarrow> no_room i target c'" using rest no_room_frame t by blast
  have "frame i c c'" using one rest frame_trans by blast
  moreover have "set ids \<subseteq> set (map fst (x # ss))" using rest eq(1) by auto
  moreover have "sid \<in> set ids \<and> rebound i (sb_sink sb) moved c' \<or>
      sid \<notin> set ids \<and> TellState (sb_sink sb) False \<in> set stranded \<and> no_room i target c'"
    if d: "distinct (map fst (x # ss))" and m: "(sid, sb) \<in> set (x # ss)" and "ue_alive E (sb_sink sb)" for sid sb
  proof (cases "(sid, sb) = x")
    case True
    then have "sid \<notin> set ids'" using d rest by auto
    with one that(3) True grow(1) full eq show ?thesis by auto
  next
    case False
    then have "(sid, sb) \<in> set ss" "sid \<noteq> fst x" using m d by (auto simp: rev_image_eqI)
    with rest d that(3) grow(2) eq show ?thesis by auto
  qed
  ultimately show ?case by blast
qed

lemma upd_link_other: "t \<noteq> i \<Longrightarrow> uc_links (upd_link i f c) ! t = uc_links c ! t"
  by (simp add: upd_link_def)

lemma length_upd_link: "length (uc_links (upd_link i f c)) = length (uc_links c)"
  by (simp add: upd_link_def)

lemma rebound_upd: "rebound i s acts (upd_link i f c) = rebound i s acts c"
  by (simp add: rebound_def upd_link_other length_upd_link cong: conj_cong)

text \<open>How a miner of link \<open>i\<close> has ended up.\<close>

text \<open>A link that is up and has every slot given out.\<close>

definition full :: "up_link \<Rightarrow> bool" where
  "full L \<longleftrightarrow> lk_connected L \<and> lk_authorized L \<and> lk_subscribed L \<and> unat (lk_slot_span L) \<le> length (lk_subscribers L)"

lemma full_frame:
  assumes "link_frame L L'" "link_ready L" "\<not> link_ready L'"
  shows "full L'"
proof -
  have e: "lk_connected L' = lk_connected L" "lk_authorized L' = lk_authorized L" "lk_subscribed L' = lk_subscribed L"
    "lk_up_en1 L' = lk_up_en1 L" "lk_slot_span L' = lk_slot_span L" "lk_nonce_bytes_eff L' = lk_nonce_bytes_eff L"
    using assms(1) unfolding link_frame_def by blast+
  show ?thesis using assms(2,3) unfolding link_ready_def full_def e by (simp add: not_less)
qed

definition settled :: "nat \<Rightarrow> u32 \<Rightarrow> subscriber \<Rightarrow> relay_action list \<Rightarrow> relay_client \<Rightarrow> bool" where
  "settled i sid sb acts c \<longleftrightarrow> rebound i (sb_sink sb) acts c \<and> sid \<notin> set (slot_ids (uc_links c ! i)) \<or>
     (sid, sb) \<in> set (lk_subscribers (uc_links c ! i)) \<and> TellState (sb_sink sb) False \<in> set acts \<and>
     ((\<forall>t < length (uc_links c). t \<noteq> i \<longrightarrow> \<not> link_ready (uc_links c ! t)) \<or>
      \<not> uc_active_active c \<and> 0 \<le> uc_primary c \<and> nat (uc_primary c) \<noteq> i \<and> full (uc_links c ! nat (uc_primary c)))"

lemma settled_upd:
  assumes "settled i sid sb acts c" "set acts \<subseteq> set acts'" "i < length (uc_links c)"
    and "lk_subscribers (f (uc_links c ! i)) = lk_subscribers (uc_links c ! i)"
    and "link_ready (f (uc_links c ! i)) = link_ready (uc_links c ! i)"
  shows "settled i sid sb acts' (upd_link i f c)"
proof -
  have ready: "link_ready (uc_links (upd_link i f c) ! t) = link_ready (uc_links c ! t)" for t
    using assms(3,5) by (cases "t = i") (simp_all add: upd_link_def)
  have "rebound i (sb_sink sb) acts c \<Longrightarrow> rebound i (sb_sink sb) acts' (upd_link i f c)"
    using rebound_frame [OF _ frame_refl assms(2)] by (simp add: rebound_upd)
  then show ?thesis using assms(1-4) unfolding settled_def ready by (auto simp: upd_link_def)
qed

text \<open>Moving miners leaves the state of the connections alone.\<close>

definition conn_same :: "relay_client \<Rightarrow> relay_client \<Rightarrow> bool" where
  "conn_same c c' \<longleftrightarrow> uc_running c' = uc_running c \<and> uc_coin c' = uc_coin c \<and> map lk_connected (uc_links c') = map lk_connected (uc_links c)"

lemma conn_same_attach:
  assumes "attach_link t s c = (slot, c')"
  shows "conn_same c c'"
proof -
  obtain L' where a: "allocate_on s (uc_links c ! t) = (slot, L')" "c' = c\<lparr>uc_links := (uc_links c)[t := L']\<rparr>"
    using assms by (auto simp: attach_link_def split: prod.splits)
  have "lk_connected L' = lk_connected (uc_links c ! t)"
    using allocate_on_seat [OF a(1)] by (cases "sl_ok slot") (auto simp: seated_def)
  then have "(map lk_connected (uc_links c))[t := lk_connected L'] = map lk_connected (uc_links c)"
    by (cases "t < length (uc_links c)") (simp_all add: list_update_same_conv list_update_beyond not_less)
  then show ?thesis by (simp add: conn_same_def a(2) map_update)
qed

lemma conn_same_moves: "conn_same c (snd (move_subscribers E i target ss c))"
proof (induction ss arbitrary: c)
  case (Cons x ss)
  have "conn_same c (snd (move_subscriber E i target (snd x) c))"
    using conn_same_attach [OF surjective_pairing]
    by (auto simp: move_subscriber_def Let_def case_prod_beta) (simp_all add: conn_same_def)
  with Cons.IH [of "snd (move_subscriber E i target (snd x) c)"] show ?case
    by (simp add: Let_def case_prod_beta) (simp add: conn_same_def)
qed (simp add: conn_same_def)

lemma migrate_same:
  assumes "migrate_link E i c = (c', acts)"
  shows "conn_same c c'"
proof -
  have upd: "conn_same c (upd_link i (\<lambda>L. L\<lparr>lk_subscribers := f L\<rparr>) c)" for c f
    by (cases "i < length (uc_links c)") (simp_all add: conn_same_def upd_link_def map_update list_update_same_conv list_update_beyond not_less)
  define c1 where "c1 = (if uc_primary c = int i then c\<lparr>uc_primary := -1\<rparr> else c)"
  define target where "target = (if uc_active_active c1 then -1 else first_ready (int i) (uc_links c1))"
  define c2 where "c2 = (if target \<ge> 0 then c1\<lparr>uc_primary := target\<rparr> else c1)"
  let ?m = "move_subscribers E (int i) target (lk_subscribers (uc_links c2 ! i)) c2"
  have "c' = upd_link i (\<lambda>L. L\<lparr>lk_subscribers := filter (\<lambda>(sid, sb). sid \<notin> set (fst (fst ?m))) (lk_subscribers L)\<rparr>) (snd ?m)"
    using assms [symmetric] unfolding migrate_link_def Let_def c2_def target_def c1_def case_prod_beta by simp
  with upd have "conn_same (snd ?m) c'" by simp
  moreover have "conn_same c c2" by (simp add: c2_def c1_def conn_same_def)
  ultimately show ?thesis using conn_same_moves [of c2 E "int i" target] unfolding conn_same_def by simp
qed

lemma migrate_settles:
  assumes "steady_inv c" "i < length (uc_links c)" "migrate_link E i c = (c', acts)"
    and "(sid, sb) \<in> set (lk_subscribers (uc_links c ! i))" "ue_alive E (sb_sink sb)"
  shows "settled i sid sb acts c'"
proof -
  define c1 where "c1 = (if uc_primary c = int i then c\<lparr>uc_primary := -1\<rparr> else c)"
  define target where "target = (if uc_active_active c1 then -1 else first_ready (int i) (uc_links c1))"
  define c2 where "c2 = (if target \<ge> 0 then c1\<lparr>uc_primary := target\<rparr> else c1)"
  obtain ids moved stranded c3 where m: "move_subscribers E (int i) target (lk_subscribers (uc_links c2 ! i)) c2 = ((ids, moved, stranded), c3)"
    by (metis prod.exhaust)
  let ?f = "\<lambda>L. L\<lparr>lk_subscribers := filter (\<lambda>(sid, sb). sid \<notin> set ids) (lk_subscribers L)\<rparr>"
  have "migrate_link E i c = (upd_link i ?f c3, moved @ stranded)"
    unfolding migrate_link_def Let_def c1_def [symmetric] target_def [symmetric] c2_def [symmetric] m by simp
  then have c': "c' = upd_link i ?f c3" "acts = moved @ stranded" using assms(3) by simp_all
  have links: "uc_links c2 = uc_links c" by (simp add: c2_def c1_def)
  have ix: "indexed (uc_links c)" using assms(1) by (simp add: steady_inv_def relay_inv_indexed)
  have choice: "target = -1 \<or> chosen (int i) (uc_links c) target"
    using first_ready_chosen [of "int i" "uc_links c"] by (simp add: target_def c1_def)
  have t: "target_ok i target c2"
    using choice chosen_target [OF _ ix, of i target] by (auto simp: target_ok_def links)
  have bounds: "0 \<le> target \<Longrightarrow> target < int (length (uc_links c1)) \<and> \<not> uc_active_active c1"
    using t links by (auto simp: target_ok_def c1_def target_def split: if_splits)
  have "keeps c c1" by (auto simp: c1_def holds_on_refl intro!: keeps_primary)
  moreover have "keeps c1 c2" using bounds by (auto simp: c2_def holds_on_refl intro!: keeps_primary)
  ultimately have inv: "steady_inv c2" using assms(1) keeps_steady by blast
  have d: "distinct (map fst (lk_subscribers (uc_links c2 ! i)))"
    using assms(1,2) by (simp add: links steady_inv_def relay_inv_def link_ok_def)
  note e = move_subscribers_end [OF m inv t]
  have fr: "frame i c2 c3" using e by blast
  then have same: "lk_subscribers (uc_links c3 ! i) = lk_subscribers (uc_links c ! i)" "length (uc_links c3) = length (uc_links c)"
    "uc_primary c3 = uc_primary c2" "uc_active_active c3 = uc_active_active c"
    by (simp_all add: frame_def links) (simp add: c2_def c1_def)
  have i: "uc_links c' ! i = ?f (uc_links c3 ! i)" using assms(2) same(2) by (simp add: c' upd_link_def)
  from e d assms(4,5) consider
      (moved) "sid \<in> set ids" "rebound i (sb_sink sb) moved c3"
    | (left) "sid \<notin> set ids" "TellState (sb_sink sb) False \<in> set stranded" "no_room i target c3"
    unfolding links by blast
  then show ?thesis
  proof cases
    case moved
    then have "rebound i (sb_sink sb) acts c'"
      using rebound_frame [OF _ frame_refl, of i "sb_sink sb" moved c3 acts] by (simp add: c' rebound_upd)
    moreover have "sid \<notin> set (slot_ids (uc_links c' ! i))" using moved(1) by (auto simp: i)
    ultimately show ?thesis by (simp add: settled_def)
  next
    case left
    have stays: "(sid, sb) \<in> set (lk_subscribers (uc_links c' ! i))" using left(1) assms(4) by (simp add: i same)
    have "(\<forall>t < length (uc_links c'). t \<noteq> i \<longrightarrow> \<not> link_ready (uc_links c' ! t)) \<or>
      \<not> uc_active_active c' \<and> 0 \<le> uc_primary c' \<and> nat (uc_primary c') \<noteq> i \<and> full (uc_links c' ! nat (uc_primary c'))"
    proof (cases "uc_active_active c \<or> target = -1")
      case True
      have "\<not> link_ready (uc_links c3 ! t)" if "t < length (uc_links c)" "t \<noteq> i" for t
      proof (cases "uc_active_active c")
        case True
        then show ?thesis using left(3) that same by (simp add: no_room_def)
      next
        case False
        with True have "first_ready (int i) (uc_links c) = -1"
          by (auto simp: target_def c1_def split: if_splits)
        with first_ready_chosen have "chosen (int i) (uc_links c) (-1)" by metis
        from chosen_none [OF this ix that] have "\<not> link_ready (uc_links c ! t)" .
        moreover have "link_frame (uc_links c ! t) (uc_links c3 ! t)" using fr that by (simp add: frame_def links)
        ultimately show ?thesis by (auto simp: link_frame_def)
      qed
      then show ?thesis using same(2) by (simp add: c' upd_link_other) (simp add: upd_link_def)
    next
      case False
      then have "0 \<le> target" "nat target \<noteq> i" using t by (auto simp: target_ok_def)
      moreover from this have "uc_primary c3 = target" using same(3) by (simp add: c2_def)
      moreover have "full (uc_links c3 ! nat target)"
      proof (rule full_frame)
        show "\<not> link_ready (uc_links c3 ! nat target)" using left(3) False same(4) by (simp add: no_room_def)
        show "link_ready (uc_links c ! nat target)"
          using choice chosen_nth [OF _ ix, of "int i" target] False by auto
        show "link_frame (uc_links c ! nat target) (uc_links c3 ! nat target)"
          using fr t \<open>0 \<le> target\<close> by (auto simp: frame_def links target_ok_def)
      qed
      ultimately show ?thesis using False same(4) by (simp add: c' upd_link_def)
    qed
    with stays left(2) c'(2) show ?thesis by (simp add: settled_def)
  qed
qed

text \<open>The bounds of the delay, and that it keeps them.\<close>

definition reconnect_bounds :: "relay_client \<Rightarrow> int \<times> int" where
  "reconnect_bounds c = (let u = cc_upstream (uc_coin c) in
     (if up_reconnectMinSeconds u > 0 then uint (up_reconnectMinSeconds u) else 2,
      if up_reconnectMaxSeconds u > 0 then uint (up_reconnectMaxSeconds u) else 30))"

lemma reconnect_timer:
  assumes "relay_reconnect i c = (c', acts)" "uc_running c"
  shows "\<exists>delay. ReconnectTimer i delay \<in> set acts \<and>
    fst (reconnect_bounds c) \<le> delay \<and> delay \<le> max (fst (reconnect_bounds c)) (snd (reconnect_bounds c))"
proof -
  obtain lo hi where b: "reconnect_bounds c = (lo, hi)" by fastforce
  then have lo: "lo = (if up_reconnectMinSeconds (cc_upstream (uc_coin c)) > 0 then uint (up_reconnectMinSeconds (cc_upstream (uc_coin c))) else 2)"
    and hi: "hi = (if up_reconnectMaxSeconds (cc_upstream (uc_coin c)) > 0 then uint (up_reconnectMaxSeconds (cc_upstream (uc_coin c))) else 30)"
    by (simp_all add: reconnect_bounds_def Let_def)
  have "acts = [ReconnectTimer i (let delay = min hi (lo * 2 ^ nat (min (lk_reconnect_backoff (uc_links c ! i)) 5))
      in if delay < lo then lo else delay)]"
    using assms unfolding relay_reconnect_def Let_def lo hi by auto
  then show ?thesis by (simp add: b Let_def not_less)
qed

text \<open>
  C13. When a link fails, no miner is forgotten, in every state reached without the pool shrinking a
  span. Every miner of it whose session lives either is registered under a slot of another link and
  told the slot with that link's job and difficulty, and gives its old slot up; or it keeps its slot
  and is told that upstream is down, and then the code has found no room: no other link is ready, or,
  in failover mode, the one link that all miners are moved to, the new primary, is up and full (a
  third link is not tried then, even when it has room). The failed link is neither connected nor
  ready any more, and it is to be connected again after a delay between the configured bounds while
  the client runs.
\<close>

theorem v1_failover:
  assumes "relay_reachable coin True c" "i < length (uc_links c)" "on_conn_close E i c = (c', acts)"
    and "(sid, sb) \<in> set (lk_subscribers (uc_links c ! i))" "ue_alive E (sb_sink sb)"
  shows "(rebound i (sb_sink sb) acts c' \<and> sid \<notin> set (map fst (lk_subscribers (uc_links c' ! i))) \<or>
      (sid, sb) \<in> set (lk_subscribers (uc_links c' ! i)) \<and> TellState (sb_sink sb) False \<in> set acts \<and>
        ((\<forall>t < length (uc_links c'). t \<noteq> i \<longrightarrow> \<not> link_ready (uc_links c' ! t)) \<or>
         \<not> uc_active_active c' \<and> 0 \<le> uc_primary c' \<and> nat (uc_primary c') \<noteq> i \<and> full (uc_links c' ! nat (uc_primary c'))))
    \<and> \<not> lk_connected (uc_links c' ! i) \<and> (uc_running c \<longrightarrow> (\<exists>delay. ReconnectTimer i delay \<in> set acts \<and>
        fst (reconnect_bounds c) \<le> delay \<and> delay \<le> max (fst (reconnect_bounds c)) (snd (reconnect_bounds c))))"
proof -
  let ?down = "\<lambda>L. L\<lparr>lk_connected := False, lk_authorized := False, lk_subscribed := False, lk_stat_reconnects := lk_stat_reconnects L + 1\<rparr>"
  let ?c = "upd_link i ?down c"
  obtain c1 a1 where m: "migrate_link E i ?c = (c1, a1)" by fastforce
  obtain c2 a2 where r: "relay_reconnect i c1 = (c2, a2)" by fastforce
  have c': "c' = c2" "acts = a1 @ a2" using assms(3) m r by (simp_all add: on_conn_close_def Let_def)
  have "keeps c ?c" by (rule keeps_core) (simp add: same_core_def)
  moreover have "steady_inv c" using reachable_ok [OF assms(1)] by (simp add: steady_inv_def)
  ultimately have inv: "steady_inv ?c" by (rule keeps_steady)
  have len: "i < length (uc_links ?c)" "(sid, sb) \<in> set (lk_subscribers (uc_links ?c ! i))"
    using assms(2,4) by (simp_all add: upd_link_def)
  from migrate_settles [OF inv len(1) m len(2) assms(5)] have s: "settled i sid sb a1 c1" .
  have "keeps ?c c1" using keeps_migrate_link [of ?c E i] m by simp
  then have len1: "length (uc_links c1) = length (uc_links c)" by (simp add: keeps_def upd_link_def)
  have conn: "lk_connected (uc_links c1 ! i) = lk_connected (uc_links ?c ! i)" "uc_running c1 = uc_running ?c"
      "reconnect_bounds c1 = reconnect_bounds ?c"
    using migrate_same [OF m] len(1) len1 assms(2)
    by (auto simp: conn_same_def reconnect_bounds_def dest: arg_cong [of _ _ "\<lambda>xs. xs ! i"])
  have step: "c2 = c1 \<or> (\<exists>b. c2 = upd_link i (\<lambda>L. L\<lparr>lk_reconnect_backoff := b\<rparr>) c1)"
    using r by (auto simp: relay_reconnect_def Let_def split: if_splits)
  then have "settled i sid sb acts c2"
    using s settled_upd [OF s, of acts] assms(2) len1 settled_upd [OF s, of acts "\<lambda>L. L"]
    by (auto simp: c' link_ready_def upd_link_def)
  moreover have "\<not> lk_connected (uc_links c2 ! i)"
    using step conn(1) assms(2) len1 by (auto simp: upd_link_def)
  moreover have "uc_running c \<longrightarrow> (\<exists>delay. ReconnectTimer i delay \<in> set acts \<and>
      fst (reconnect_bounds c) \<le> delay \<and> delay \<le> max (fst (reconnect_bounds c)) (snd (reconnect_bounds c)))"
    using reconnect_timer [OF r] conn(2,3) by (auto simp: c' upd_link_def reconnect_bounds_def)
  ultimately show ?thesis by (simp add: settled_def c')
qed

definition demo_seated :: relay_client where
  "demo_seated = fst (relay_do (demo_env JNull) (Attach 7) demo_up)"

lemma demo_seated: obtains sid nx where
  "uc_links demo_seated = [seated (uc_links demo_up ! 0) sid 7 nx, uc_links demo_up ! 1]"
proof -
  have inv: "relay_inv demo_up" "\<And>i. i < length (uc_links demo_up) \<Longrightarrow> roomy (uc_links demo_up ! i)"
    using reachable_ok [OF demo_steps] by auto
  have a: "relay_attach (demo_env JNull) 7 demo_up = (fst (relay_attach (demo_env JNull) 7 demo_up), demo_seated)"
    by (simp add: demo_seated_def)
  from relay_attach_ready [OF inv(1) a inv(2)] demo_up_fields(2) obtain i sid nx where
    i: "i < length (uc_links demo_up)" "link_ready (uc_links demo_up ! i)"
      "uc_links demo_seated = (uc_links demo_up)[i := seated (uc_links demo_up ! i) sid 7 nx]"
    by (auto simp: Let_def)
  from demo_link_index [OF i(1,2)] have "i = 0" .
  with i(3) have "uc_links demo_seated = [seated (uc_links demo_up ! 0) sid 7 nx, uc_links demo_up ! 1]"
    by (simp add: demo_up)
  then show thesis by (rule that)
qed

lemma v1_failover_witness: "\<exists>sid sb c' acts. (sid, sb) \<in> set (lk_subscribers (uc_links demo_seated ! 0)) \<and> sb_sink sb = 7 \<and>
    on_conn_close (demo_env JNull) 0 demo_seated = (c', acts) \<and> \<not> lk_connected (uc_links c' ! 0) \<and>
    ((sid, sb) \<notin> set (lk_subscribers (uc_links c' ! 0)) \<longrightarrow> rebound 0 7 acts c')"
proof -
  obtain sid nx where s: "uc_links demo_seated = [seated (uc_links demo_up ! 0) sid 7 nx, uc_links demo_up ! 1]"
    by (rule demo_seated)
  have spans: "map lk_slot_span (uc_links demo_seated) = map lk_slot_span (uc_links demo_up)"
    by (simp add: s seated_def) (simp add: demo_up)
  have r: "relay_reachable demo_coin True demo_seated"
    by (rule relay_reachable_fst [OF demo_steps _ demo_seated_def refl spans]) (simp_all add: list_all2_refl)
  obtain c' acts where close: "on_conn_close (demo_env JNull) 0 demo_seated = (c', acts)" by fastforce
  let ?sb = "\<lparr>sb_sink = 7, sb_slot_hex = sl_slot_hex (slot_of (uc_links demo_up ! 0) sid)\<rparr>"
  have m: "(sid, ?sb) \<in> set (lk_subscribers (uc_links demo_seated ! 0))" by (simp add: s seated_def)
  have "0 < length (uc_links demo_seated)" by (simp add: s)
  from v1_failover [OF r this close m] m close show ?thesis
    by (intro exI [of _ sid] exI [of _ ?sb] exI [of _ c'] exI [of _ acts]) (auto simp: demo_env_def)
qed


section \<open>A link that comes back\<close>

text \<open>
  C32. The pool's answer to a repeated subscription gives the link a new extranonce1 and tells no miner:
  those that stayed bound to the link keep the slot they have, are sent nothing, and with an
  extranonce1 of the old length and another value what they were given no longer is what the pool
  expects of their slot.
\<close>

theorem v1_resubscribe:
  assumes "i < length (uc_links c)" "handle_result E i msg c = (c', acts)"
    and "member msg ''id'' = Some (JInt n)" "of_int n = lk_id_subscribe (uc_links c ! i)"
    and "lk_id_subscribe (uc_links c ! i) \<noteq> 0" "lk_id_subscribe (uc_links c ! i) \<noteq> lk_id_configure (uc_links c ! i)"
    and "array_member msg ''result'' = Some (r # JString en1 # JInt k # rest)"
    and "length en1 = length (lk_up_en1 (uc_links c ! i))" "en1 \<noteq> lk_up_en1 (uc_links c ! i)"
  shows "acts = [] \<and> lk_subscribers (uc_links c' ! i) = lk_subscribers (uc_links c ! i) \<and> lk_up_en1 (uc_links c' ! i) = en1 \<and>
    (\<forall>sid slot_hex. sl_en1_hex (slot_of (uc_links c' ! i) sid) \<noteq> lk_up_en1 (uc_links c ! i) @ slot_hex)"
proof -
  have "handle_result E i msg c = on_subscribed E i msg c"
    using assms(3-6) by (simp add: handle_result_def)
  with assms(2) have s: "on_subscribed E i msg c = (c', acts)" by simp
  have "lk_up_en1 (uc_links c' ! i) = en1" "acts = []" "lk_subscribers (uc_links c' ! i) = lk_subscribers (uc_links c ! i)"
    using s assms(1,7) by (auto simp: on_subscribed_def set_upstream_extranonce_def Let_def upd_link_def)
  moreover have "sl_en1_hex (slot_of L sid) = lk_up_en1 L @ sl_slot_hex (slot_of L sid)" for L sid
    by (simp add: slot_of_def Let_def)
  ultimately show ?thesis using assms(8,9) by (simp add: append_eq_append_conv)
qed

definition again_reply :: json where
  "again_reply = JObject [(''id'', JInt 2), (''result'', JArray [JNull, JString ''cd'', JInt 4])]"

lemma v1_resubscribe_witness:
  "snd (handle_result (demo_env JNull) 0 again_reply demo_seated) = []
    \<and> lk_up_en1 (uc_links (fst (handle_result (demo_env JNull) 0 again_reply demo_seated)) ! 0) = ''cd''"
proof -
  obtain sid nx where s: "uc_links demo_seated = [seated (uc_links demo_up ! 0) sid 7 nx, uc_links demo_up ! 1]"
    by (rule demo_seated)
  have ids: "lk_id_configure (uc_links demo_seated ! 0) = 1" "lk_id_subscribe (uc_links demo_seated ! 0) = 2"
    "lk_up_en1 (uc_links demo_seated ! 0) = ''ab''" "0 < length (uc_links demo_seated)"
    by (simp_all add: s seated_def) (simp_all add: demo_up demo_c3 demo_c2)
  have msg: "member again_reply ''id'' = Some (JInt 2)" "array_member again_reply ''result'' = Some [JNull, JString ''cd'', JInt 4]"
    by (simp_all add: again_reply_def member_def array_member_def)
  show ?thesis
    using v1_resubscribe [OF ids(4) surjective_pairing msg(1) _ _ _ msg(2)] ids by simp
qed


end
