(* ===== verification/ProxySession.thy ===== *)
theory ProxySession
  imports UpstreamV1
begin

text \<open>
  \<open>src/proxy_session.cpp\<close> and its base \<open>src/relay_session.cpp\<close>: a miner connected to the proxy. The
  upstream is anything that offers the operations of \<open>UpstreamSource\<close>; the session's state is kept
  beside the state of that source, of the write queue and of the rate limiter. The clock, the hash
  functions and the JSON library are those of the environment of theory \<open>Session\<close>.
\<close>

section \<open>State\<close>

text \<open>The virtual functions of \<open>UpstreamSource\<close> that a session calls and that answer at once.\<close>

record 'u upstream_source =
  src_any_ready :: "'u \<Rightarrow> bool"
  src_attach :: "sink \<Rightarrow> 'u \<Rightarrow> proxy_slot \<times> 'u"
  src_detach :: "int \<Rightarrow> u32 \<Rightarrow> 'u \<Rightarrow> 'u"
  src_register_waiter :: "sink \<Rightarrow> 'u \<Rightarrow> 'u"
  src_current_job :: "int \<Rightarrow> 'u \<Rightarrow> proxy_notify option"
  src_current_diff :: "int \<Rightarrow> 'u \<Rightarrow> rat"

record proxy_session =
  ps_coin :: coin_config
  ps_self :: sink
  ps_client_ip :: string
  ps_is_tls :: bool
  ps_closed :: bool
  ps_buffer :: string
  ps_disconnect_handler :: bool
  ps_slot :: proxy_slot
  ps_attached :: bool
  ps_session_id :: string
  ps_user_agent :: string
  ps_worker_name :: string
  ps_subscribed :: bool
  ps_authorized :: bool
  ps_extranonce_subscribed :: bool
  ps_version_rolling :: bool
  ps_version_mask :: u32
  ps_pending_subscribe :: bool
  ps_pending_subscribe_id :: string
  ps_upstream_diff :: rat
  ps_target_diff :: rat
  ps_recent_jobs :: "(string \<times> proxy_notify) list"
  ps_recent_order :: "string list"
  ps_cur_job :: "proxy_notify option"
  ps_shares_accepted :: u64
  ps_shares_rejected :: u64
  ps_shares_forwarded :: u64

datatype proxy_action =
    ProxyHandshake
  | ProxyRead
  | ProxyWrite string
  | ProxyClose
  | ProxyGone
  | Forward int upstream_submit bool

text \<open>A share forwarded with a callback says so: the callback only logs.\<close>

record 'u proxy_world =
  pw_ps :: proxy_session
  pw_up :: 'u
  pw_limiter :: "rate_limiter option"
  pw_queue :: write_queue
  pw_posted :: "string list"
  pw_actions :: "proxy_action list"

definition proxy_new :: "coin_config \<Rightarrow> sink \<Rightarrow> bool \<Rightarrow> string \<Rightarrow> proxy_session" where
  "proxy_new coin self tls session_id =
     \<lparr>ps_coin = coin, ps_self = self, ps_client_ip = [], ps_is_tls = tls, ps_closed = False, ps_buffer = [],
      ps_disconnect_handler = False, ps_slot = no_slot, ps_attached = False, ps_session_id = session_id,
      ps_user_agent = [], ps_worker_name = [], ps_subscribed = False, ps_authorized = False,
      ps_extranonce_subscribed = False, ps_version_rolling = False, ps_version_mask = 0, ps_pending_subscribe = False,
      ps_pending_subscribe_id = [], ps_upstream_diff = 0, ps_target_diff = 0, ps_recent_jobs = [], ps_recent_order = [],
      ps_cur_job = None, ps_shares_accepted = 0, ps_shares_rejected = 0, ps_shares_forwarded = 0\<rparr>"

definition upd_ps :: "(proxy_session \<Rightarrow> proxy_session) \<Rightarrow> 'u proxy_world \<Rightarrow> 'u proxy_world" where
  "upd_ps f w = w\<lparr>pw_ps := f (pw_ps w)\<rparr>"

definition act :: "proxy_action list \<Rightarrow> 'u proxy_world \<Rightarrow> 'u proxy_world" where
  "act as w = w\<lparr>pw_actions := pw_actions w @ as\<rparr>"

definition relay_send :: "string \<Rightarrow> 'u proxy_world \<Rightarrow> 'u proxy_world" where
  "relay_send m w = w\<lparr>pw_posted := pw_posted w @ [m]\<rparr>"

section \<open>The connection\<close>

text \<open>\<open>close\<close> with the hook \<open>on_closed\<close>, which gives the slot back.\<close>

definition relay_close :: "'u upstream_source \<Rightarrow> 'u proxy_world \<Rightarrow> 'u proxy_world" where
  "relay_close S w =
     (let ps = pw_ps w
      in if ps_closed ps then w
         else act (ProxyClose # (if ps_disconnect_handler ps then [ProxyGone] else []))
           (upd_ps (\<lambda>ps. ps\<lparr>ps_closed := True\<rparr>)
              (w\<lparr>pw_queue := wq_stop (pw_queue w),
                 pw_up := (if ps_attached ps then src_detach S (sl_link_id (ps_slot ps)) (sl_slot_id (ps_slot ps)) (pw_up w)
                           else pw_up w),
                 pw_limiter := map_option (on_disconnect (ps_client_ip ps)) (pw_limiter w)\<rparr>)))"

definition relay_queue_actions :: "'u upstream_source \<Rightarrow> wq_action list \<Rightarrow> 'u proxy_world \<Rightarrow> 'u proxy_world" where
  "relay_queue_actions S acts w =
     fold (\<lambda>a w. case a of AsyncWrite m \<Rightarrow> act [ProxyWrite m] w | DropSession \<Rightarrow> relay_close S w) acts w"

text \<open>\<open>start\<close> sets the queue up and starts the handshake or posts \<open>relay_opened\<close>; the peer's address is an argument.\<close>

definition relay_begin :: "string \<Rightarrow> 'u proxy_world \<Rightarrow> 'u proxy_world" where
  "relay_begin ip w =
     (let w = upd_ps (\<lambda>ps. ps\<lparr>ps_client_ip := ip\<rparr>) (w\<lparr>pw_queue := set_owner (set_drop_handler (pw_queue w))\<rparr>)
      in if ps_is_tls (pw_ps w) then act [ProxyHandshake] w else w)"

definition relay_opened :: "'u proxy_world \<Rightarrow> 'u proxy_world" where
  "relay_opened w = (if ps_closed (pw_ps w) then w else act [ProxyRead] w)"

definition relay_handshaken :: "'u upstream_source \<Rightarrow> bool \<Rightarrow> 'u proxy_world \<Rightarrow> 'u proxy_world" where
  "relay_handshaken S failed w = (if failed then relay_close S w else act [ProxyRead] w)"

definition relay_run_posted :: "'u upstream_source \<Rightarrow> 'u proxy_world \<Rightarrow> 'u proxy_world" where
  "relay_run_posted S w =
     (case pw_posted w of [] \<Rightarrow> w
      | m # ms \<Rightarrow>
          let w = w\<lparr>pw_posted := ms\<rparr>
          in if ps_closed (pw_ps w) then w
             else let (ok, q, acts) = wq_push True m (pw_queue w) in relay_queue_actions S acts (w\<lparr>pw_queue := q\<rparr>))"

definition relay_written :: "'u upstream_source \<Rightarrow> bool \<Rightarrow> 'u proxy_world \<Rightarrow> 'u proxy_world" where
  "relay_written S ec w =
     (let (q, acts) = on_write_done ec True (pw_queue w) in relay_queue_actions S acts (w\<lparr>pw_queue := q\<rparr>))"

section \<open>Replies\<close>

definition proxy_difficulty_line :: "rat \<Rightarrow> string" where
  "proxy_difficulty_line d = difficulty_line (round_half_away (if d > 0 then d else 1))"

definition extranonce_line :: "proxy_slot \<Rightarrow> string" where
  "extranonce_line slot =
     js ''{`id`:null,`method`:`mining.set_extranonce`,`params`:['' @ quote (sl_en1_hex slot) @ '','' @ dec_nat (sl_en2_size slot)
     @ '']}'' @ newline"

definition mask_line :: "u32 \<Rightarrow> string" where
  "mask_line m = js ''{`id`:null,`method`:`mining.set_version_mask`,`params`:['' @ quote (fmt_08x m) @ '']}'' @ newline"

definition proxy_subscribe_reply :: "proxy_session \<Rightarrow> string" where
  "proxy_subscribe_reply ps =
     js ''{`id`:'' @ ps_pending_subscribe_id ps @ js '',`result`:[[[`mining.set_difficulty`,'' @ quote (ps_session_id ps) @
     js ''],[`mining.notify`,'' @ quote (ps_session_id ps) @ '']],'' @ quote (sl_en1_hex (ps_slot ps)) @ '','' @
     dec_nat (sl_en2_size (ps_slot ps)) @ js ''],`error`:null}'' @ newline"

definition proxy_configure_body :: "configure_result \<Rightarrow> string" where
  "proxy_configure_body neg =
     commas ((if cr_version_rolling_requested neg
         then if cr_version_rolling neg
              then [js ''`version-rolling`:true,`version-rolling.mask`:'' @ quote (fmt_08x (cr_version_mask neg))]
              else [js ''`version-rolling`:false'']
         else [])
       @ (if cr_subscribe_extranonce neg then [js ''`subscribe-extranonce`:true''] else []))"

section \<open>Requests\<close>

definition proxy_configure :: "env \<Rightarrow> json \<Rightarrow> 'u proxy_world \<Rightarrow> 'u proxy_world" where
  "proxy_configure E msg w =
     (let coin = ps_coin (pw_ps w);
          neg = negotiate_configure (ev_fpu E) (JArray (params_of msg))
            (if enableVersionRolling coin then versionRollingMask coin else 0);
          w = upd_ps (\<lambda>ps. ps\<lparr>ps_version_rolling := (cr_version_rolling neg \<and> cr_version_mask neg \<noteq> 0),
                ps_version_mask := cr_version_mask neg,
                ps_extranonce_subscribed := (cr_subscribe_extranonce neg \<or> ps_extranonce_subscribed ps)\<rparr>) w
      in relay_send (js ''{`id`:'' @ id_json E msg @ js '',`result`:{'' @ proxy_configure_body neg @ js ''},`error`:null}''
           @ newline) w)"

definition remember_job :: "proxy_notify \<Rightarrow> proxy_session \<Rightarrow> proxy_session" where
  "remember_job job ps =
     (if pn_job_id job \<in> fst ` set (ps_recent_jobs ps) then ps
      else let jobs = ps_recent_jobs ps @ [(pn_job_id job, job)]; order = ps_recent_order ps @ [pn_job_id job]; n = length order - 8
        in ps\<lparr>ps_recent_jobs := fold AList.delete (take n order) jobs, ps_recent_order := drop n order\<rparr>)"

definition emit_current_job :: "bool \<Rightarrow> 'u proxy_world \<Rightarrow> 'u proxy_world" where
  "emit_current_job clean w =
     (case ps_cur_job (pw_ps w) of None \<Rightarrow> w
      | Some job \<Rightarrow>
          let out = pn_notify_line job; tail = '',false]}'' @ newline; n = length out - 9
          in relay_send (if clean \<and> length out \<ge> 9 \<and> drop n out = tail then take n out @ '',true]}'' @ newline else out) w)"

text \<open>A subscription waits while no link is ready.\<close>

definition hold_subscribe :: "'u upstream_source \<Rightarrow> 'u proxy_world \<Rightarrow> 'u proxy_world" where
  "hold_subscribe S w =
     (let w = upd_ps (\<lambda>ps. ps\<lparr>ps_pending_subscribe := True\<rparr>) w
      in w\<lparr>pw_up := src_register_waiter S (ps_self (pw_ps w)) (pw_up w)\<rparr>)"

definition try_attach_and_reply :: "'u upstream_source \<Rightarrow> 'u proxy_world \<Rightarrow> 'u proxy_world" where
  "try_attach_and_reply S w =
     (if ps_subscribed (pw_ps w) then relay_send (proxy_subscribe_reply (pw_ps w)) w
      else if \<not> src_any_ready S (pw_up w) then hold_subscribe S w
      else let (slot, u) = src_attach S (ps_self (pw_ps w)) (pw_up w); w = upd_ps (\<lambda>ps. ps\<lparr>ps_slot := slot\<rparr>) (w\<lparr>pw_up := u\<rparr>)
        in if \<not> sl_ok slot then hold_subscribe S w
           else let d = src_current_diff S (sl_link_id slot) u; job = src_current_job S (sl_link_id slot) u;
                    w = upd_ps (\<lambda>ps. ps\<lparr>ps_attached := True, ps_pending_subscribe := False, ps_upstream_diff := d,
                          ps_target_diff := d\<rparr>) w;
                    w = relay_send (proxy_subscribe_reply (pw_ps w)) w;
                    w = upd_ps (\<lambda>ps. ps\<lparr>ps_subscribed := True\<rparr>) w;
                    w = relay_send (proxy_difficulty_line d) w;
                    w = (if ps_version_rolling (pw_ps w) \<and> ps_version_mask (pw_ps w) \<noteq> 0
                         then relay_send (mask_line (ps_version_mask (pw_ps w))) w else w)
             in upd_ps (\<lambda>ps. (case job of Some j \<Rightarrow> remember_job j (ps\<lparr>ps_cur_job := job\<rparr>) | None \<Rightarrow> ps\<lparr>ps_cur_job := None\<rparr>)) w)"

definition proxy_subscribe :: "'u upstream_source \<Rightarrow> env \<Rightarrow> json \<Rightarrow> 'u proxy_world \<Rightarrow> 'u proxy_world" where
  "proxy_subscribe S E msg w =
     try_attach_and_reply S (upd_ps (\<lambda>ps. ps\<lparr>ps_user_agent :=
       (case array_member msg ''params'' of Some (JString s # _) \<Rightarrow> take 256 s | _ \<Rightarrow> ps_user_agent ps),
       ps_pending_subscribe_id := id_json E msg\<rparr>) w)"

definition proxy_authorize :: "env \<Rightarrow> json \<Rightarrow> 'u proxy_world \<Rightarrow> 'u proxy_world" where
  "proxy_authorize E msg w =
     (let w = upd_ps (\<lambda>ps. ps\<lparr>ps_worker_name :=
            (case array_member msg ''params'' of Some (JString s # _) \<Rightarrow> take 192 s | _ \<Rightarrow> ps_worker_name ps)\<rparr>) w;
          w = upd_ps (\<lambda>ps. ps\<lparr>ps_authorized := True\<rparr>) (relay_send (ok_line (id_json E msg)) w)
      in if ps_subscribed (pw_ps w) then emit_current_job True w else w)"


section \<open>Shares\<close>

record proxy_share =
  px_job_id :: string
  px_en2 :: string
  px_ntime_s :: string
  px_nonce_s :: string
  px_version_bits :: "u32 option"

record proxy_candidate =
  pc_share :: proxy_share
  pc_job :: proxy_notify
  pc_header_hex :: string
  pc_hash :: bytes
  pc_meets_network :: bool
  pc_share_diff :: rat

text \<open>Reverses the four bytes within each word of a hash text.\<close>

definition stratum_prevhash_to_header_le :: "string \<Rightarrow> string" where
  "stratum_prevhash_to_header_le p =
     (if length p \<noteq> 64 then p
      else concat (map (\<lambda>w. concat (map (\<lambda>b.
             [p ! (w * 8 + (3 - b) * 2), p ! (w * 8 + (3 - b) * 2 + 1)]) [0..<4])) [0..<8]))"

definition parse_proxy_share :: "json list \<Rightarrow> proxy_share result" where
  "parse_proxy_share p =
     bind_res (get_string (item p 1)) (\<lambda>job_id.
     bind_res (get_string (item p 2)) (\<lambda>en2.
     bind_res (get_string (item p 3)) (\<lambda>ntime_s.
     bind_res (get_string (item p 4)) (\<lambda>nonce_s.
       Inr \<lparr>px_job_id = job_id, px_en2 = en2, px_ntime_s = ntime_s, px_nonce_s = nonce_s,
            px_version_bits = (case item p 5 of JString s \<Rightarrow> session_hex_u32 s | _ \<Rightarrow> None)\<rparr>))))"

definition proxy_version :: "proxy_session \<Rightarrow> proxy_notify \<Rightarrow> proxy_share \<Rightarrow> u32 option" where
  "proxy_version ps job sh =
     (case px_version_bits sh of None \<Rightarrow> Some (pn_version job)
      | Some v \<Rightarrow> if \<not> ps_version_rolling ps \<or> ps_version_mask ps = 0 then None
          else Some (((pn_version job AND (NOT (ps_version_mask ps))) OR (v AND (ps_version_mask ps)))))"

definition proxy_header :: "env \<Rightarrow> proxy_session \<Rightarrow> proxy_notify \<Rightarrow> u32 \<Rightarrow> proxy_share \<Rightarrow> string result" where
  "proxy_header E ps job version sh =
     bind_res (compute_coinbase_txid_le (sha256d (ev_sha256 E))
         (rebuild_coinbase (pn_coinbase1 job) (pn_coinbase2 job) (sl_en1_hex (ps_slot ps) @ px_en2 sh))) (\<lambda>txid.
     bind_res (compute_root_le_hex (ev_sha256 E) txid (pn_merkle_branch job)) (\<lambda>mroot.
       Inr (build_block_header (le_hex_u32 version) (stratum_prevhash_to_header_le (pn_prevhash_stratum job)) mroot
         (byte_reverse_hex (px_ntime_s sh)) (byte_reverse_hex (pn_bits job)) (byte_reverse_hex (px_nonce_s sh)))))"

definition proxy_pow :: "env \<Rightarrow> chain_kind \<Rightarrow> bytes \<Rightarrow> bytes result" where
  "proxy_pow E chain header =
     (if chain = Litecoin \<or> chain = Dogecoin then bind_res (ev_scrypt E header) (\<lambda>h. Inr (rev h))
      else Inr (rev (sha256d (ev_sha256 E) header)))"

text \<open>A refusal is a reason with its code; an exception leaves the handler.\<close>

definition check_proxy_share :: "env \<Rightarrow> proxy_session \<Rightarrow> proxy_share \<Rightarrow> ((string \<times> nat) + proxy_candidate) result" where
  "check_proxy_share E ps sh =
     (if \<not> valid_hex (px_en2 sh) \<or> \<not> valid_hex (px_ntime_s sh) \<or> \<not> valid_hex (px_nonce_s sh)
         \<or> length (px_ntime_s sh) \<noteq> 8 \<or> length (px_nonce_s sh) \<noteq> 8
      then Inr (Inl (''invalid hex'', 20))
      else if length (px_en2 sh) \<noteq> sl_en2_size (ps_slot ps) * 2 then Inr (Inl (''bad extranonce2 size'', 20))
      else case map_of (ps_recent_jobs ps) (px_job_id sh) of None \<Rightarrow> Inr (Inl (''job not found'', 21))
      | Some job \<Rightarrow>
          (case session_hex_u32 (px_ntime_s sh) of None \<Rightarrow> Inr (Inl (''bad ntime'', 20))
           | Some ntime \<Rightarrow>
               if \<not> valid_ntime ntime (pn_mintime job) (ev_unix E) 7200 then Inr (Inl (''ntime out of range'', 20))
               else (case proxy_version ps job sh of None \<Rightarrow> Inr (Inl (''version-rolling not negotiated'', 20))
                 | Some version \<Rightarrow>
                     let chain = cc_chain (ps_coin ps)
                     in bind_res (proxy_header E ps job version sh) (\<lambda>header_hex.
                        bind_res (hex_to_bytes header_hex) (\<lambda>header.
                        bind_res (proxy_pow E chain header) (\<lambda>hash.
                          Inr (Inr \<lparr>pc_share = sh, pc_job = job, pc_header_hex = header_hex, pc_hash = hash,
                            pc_meets_network = be_le hash (pn_net_target_be job),
                            pc_share_diff = difficulty_of (ev_fpu E) (if chain = Zcash then Bitcoin else chain) hash\<rparr>)))))))"

definition proxy_reject :: "'u upstream_source \<Rightarrow> env \<Rightarrow> string \<Rightarrow> string \<times> nat \<Rightarrow> 'u proxy_world \<Rightarrow> 'u proxy_world" where
  "proxy_reject S E i r w =
     (let w = upd_ps (\<lambda>ps. ps\<lparr>ps_shares_rejected := ps_shares_rejected ps + 1\<rparr>) (relay_send (error_line i (snd r) (fst r)) w)
      in case pw_limiter w of None \<Rightarrow> w
         | Some rl \<Rightarrow>
             let (banned, rl) = record_invalid_share (ev_steady E) (ps_client_ip (pw_ps w)) rl; w = w\<lparr>pw_limiter := Some rl\<rparr>
             in if banned then relay_close S w else w)"

definition forward_share :: "proxy_candidate \<Rightarrow> bool \<Rightarrow> 'u proxy_world \<Rightarrow> 'u proxy_world" where
  "forward_share c cb w =
     (let ps = pw_ps w; sh = pc_share c
      in upd_ps (\<lambda>ps. ps\<lparr>ps_shares_forwarded := ps_shares_forwarded ps + 1\<rparr>)
           (act [Forward (sl_link_id (ps_slot ps)) \<lparr>us_job_id = px_job_id sh, us_en2_full_hex = sl_slot_hex (ps_slot ps) @ px_en2 sh,
              us_ntime_hex = px_ntime_s sh, us_nonce_hex = px_nonce_s sh, us_version_bits = px_version_bits sh\<rparr> cb] w))"

definition judge_proxy_share :: "'u upstream_source \<Rightarrow> env \<Rightarrow> string \<Rightarrow> proxy_candidate \<Rightarrow> 'u proxy_world \<Rightarrow> 'u proxy_world" where
  "judge_proxy_share S E i c w =
     (let F = ev_fpu E; target = ps_target_diff (pw_ps w); threshold = (if target > 0 then target else 1)
      in if pc_share_diff c < rnd_d F (threshold * rnd_d F (99 / 100))
         then proxy_reject S E i (''low difficulty share'', 23) (if pc_meets_network c then forward_share c False w else w)
         else let w = upd_ps (\<lambda>ps. ps\<lparr>ps_shares_accepted := ps_shares_accepted ps + 1\<rparr>)
                    (relay_send (ok_line i) (forward_share c True w))
           in w\<lparr>pw_limiter := map_option (clear_invalid (ps_client_ip (pw_ps w))) (pw_limiter w)\<rparr>)"

definition proxy_submit :: "'u upstream_source \<Rightarrow> env \<Rightarrow> json \<Rightarrow> 'u proxy_world \<Rightarrow> 'u proxy_world result" where
  "proxy_submit S E msg w =
     (let i = id_json E msg; ps = pw_ps w
      in if \<not> ps_authorized ps then Inr (proxy_reject S E i (''not authorized'', 24) w)
         else if \<not> ps_subscribed ps \<or> \<not> ps_attached ps then Inr (proxy_reject S E i (''not subscribed'', 25) w)
         else if length (params_of msg) < 5 then Inr (proxy_reject S E i (''bad params'', 20) w)
         else case parse_proxy_share (params_of msg) of Inl _ \<Rightarrow> Inr (proxy_reject S E i (''bad params types'', 20) w)
         | Inr sh \<Rightarrow> bind_res (check_proxy_share E ps sh) (\<lambda>r.
             Inr (case r of Inl why \<Rightarrow> proxy_reject S E i why w | Inr c \<Rightarrow> judge_proxy_share S E i c w)))"

section \<open>Lines\<close>

definition proxy_dispatch :: "'u upstream_source \<Rightarrow> env \<Rightarrow> string \<Rightarrow> json \<Rightarrow> 'u proxy_world \<Rightarrow> 'u proxy_world result" where
  "proxy_dispatch S E name msg w =
     (if name = ''mining.configure'' then Inr (proxy_configure E msg w)
      else if name = ''mining.subscribe'' then Inr (proxy_subscribe S E msg w)
      else if name = ''mining.authorize'' then Inr (proxy_authorize E msg w)
      else if name = ''mining.submit'' then proxy_submit S E msg w
      else if name = ''mining.extranonce.subscribe''
      then Inr (relay_send (ok_line (id_json E msg)) (upd_ps (\<lambda>ps. ps\<lparr>ps_extranonce_subscribed := True\<rparr>) w))
      else if name = ''mining.suggest_difficulty'' \<or> name = ''mining.suggest_target'' then Inr w
      else Inr (relay_send (error_line (id_json E msg) 20 ''unsupported in proxy mode'') w))"

definition proxy_on_line :: "'u upstream_source \<Rightarrow> env \<Rightarrow> string \<Rightarrow> 'u proxy_world \<Rightarrow> 'u proxy_world" where
  "proxy_on_line S E line w =
     (case ev_parse E line of None \<Rightarrow> relay_send (error_line ''null'' 20 ''JSON parse error'') w
      | Some msg \<Rightarrow>
          (case string_member msg ''method'' of None \<Rightarrow> relay_send (error_line ''null'' 20 ''missing method'') w
           | Some name \<Rightarrow>
               (case proxy_dispatch S E name msg w of
                  Inr w' \<Rightarrow> w'
                | Inl e \<Rightarrow> relay_send (error_line (id_json E msg) 20 ''malformed request'') w)))"

function relay_lines :: "'u upstream_source \<Rightarrow> env \<Rightarrow> string \<Rightarrow> 'u proxy_world \<Rightarrow> string \<times> 'u proxy_world" where
  "relay_lines S E buf w =
     (if CHR 0x0A \<notin> set buf then (buf, w)
      else let raw = takeWhile (\<lambda>c. c \<noteq> CHR 0x0A) buf; line = strip_cr raw; buf = drop (length raw + 1) buf;
               w = (if line = [] then w else proxy_on_line S E line w)
        in if ps_closed (pw_ps w) then (buf, w) else relay_lines S E buf w)"
  by auto
termination by (relation "measure (\<lambda>(S, E, buf, w). length buf)") (auto intro!: diff_less dest: length_pos_if_in_set)

declare relay_lines.simps [simp del]

definition relay_read :: "'u upstream_source \<Rightarrow> env \<Rightarrow> string option \<Rightarrow> 'u proxy_world \<Rightarrow> 'u proxy_world" where
  "relay_read S E chunk w =
     (case chunk of None \<Rightarrow> relay_close S w
      | Some s \<Rightarrow>
          let buf = ps_buffer (pw_ps w) @ s; w = upd_ps (\<lambda>ps. ps\<lparr>ps_buffer := buf\<rparr>) w
          in if length buf > 2 ^ 20 then relay_close S w
             else let (rest, w) = relay_lines S E buf w; w = upd_ps (\<lambda>ps. ps\<lparr>ps_buffer := rest\<rparr>) w
               in if ps_closed (pw_ps w) then w else act [ProxyRead] w)"

section \<open>What upstream tells\<close>

text \<open>The tasks that the functions of \<open>ProxyWorkSink\<close> post.\<close>

definition proxy_upstream_job :: "proxy_notify \<Rightarrow> 'u proxy_world \<Rightarrow> 'u proxy_world" where
  "proxy_upstream_job job w =
     (if ps_closed (pw_ps w) then w
      else let w = upd_ps (\<lambda>ps. remember_job job (ps\<lparr>ps_cur_job := Some job\<rparr>)) w
        in if ps_subscribed (pw_ps w) \<and> ps_authorized (pw_ps w) then emit_current_job False w else w)"

definition proxy_upstream_diff :: "rat \<Rightarrow> 'u proxy_world \<Rightarrow> 'u proxy_world" where
  "proxy_upstream_diff d w =
     (if ps_closed (pw_ps w) then w
      else let w = upd_ps (\<lambda>ps. ps\<lparr>ps_upstream_diff := d, ps_target_diff := d\<rparr>) w
        in if ps_subscribed (pw_ps w) then relay_send (proxy_difficulty_line d) w else w)"

definition proxy_upstream_extranonce :: "string \<Rightarrow> nat \<Rightarrow> 'u proxy_world \<Rightarrow> 'u proxy_world" where
  "proxy_upstream_extranonce en1 en2_size w =
     (if ps_closed (pw_ps w) then w
      else let w = upd_ps (\<lambda>ps. ps\<lparr>ps_slot := (ps_slot ps)\<lparr>sl_en1_hex := en1, sl_en2_size := en2_size\<rparr>\<rparr>) w
        in if ps_subscribed (pw_ps w) then emit_current_job True (relay_send (extranonce_line (ps_slot (pw_ps w))) w) else w)"

definition proxy_upstream_state :: "'u upstream_source \<Rightarrow> bool \<Rightarrow> 'u proxy_world \<Rightarrow> 'u proxy_world" where
  "proxy_upstream_state S up w =
     (if ps_closed (pw_ps w) then w
      else if up \<and> ps_pending_subscribe (pw_ps w) then try_attach_and_reply S w else w)"

definition proxy_rebind ::
    "'u upstream_source \<Rightarrow> proxy_slot \<Rightarrow> proxy_notify option \<Rightarrow> rat \<Rightarrow> 'u proxy_world \<Rightarrow> 'u proxy_world" where
  "proxy_rebind S slot job d w =
     (if ps_closed (pw_ps w) \<or> \<not> sl_ok slot then w
      else let w = upd_ps (\<lambda>ps. ps\<lparr>ps_slot := slot, ps_attached := True,
                 ps_upstream_diff := (if d > 0 then d else ps_upstream_diff ps),
                 ps_target_diff := (if d > 0 then d else ps_upstream_diff ps)\<rparr>) w
        in if ps_extranonce_subscribed (pw_ps w)
           then let w = relay_send (extranonce_line slot) w; w = relay_send (proxy_difficulty_line (ps_target_diff (pw_ps w))) w
             in (case job of Some j \<Rightarrow> emit_current_job True (upd_ps (\<lambda>ps. remember_job j (ps\<lparr>ps_cur_job := Some j\<rparr>)) w)
                 | None \<Rightarrow> w)
           else relay_close S w)"

section \<open>The Stratum V1 source\<close>

definition v1_source :: "relay_env \<Rightarrow> relay_client upstream_source" where
  "v1_source E =
     \<lparr>src_any_ready = relay_any_ready, src_attach = relay_attach E, src_detach = relay_detach,
      src_register_waiter = relay_register_waiter, src_current_job = relay_current_job,
      src_current_diff = relay_current_diff\<rparr>"

end
