(* ===== verification/ProxyFacts.thy ===== *)
theory ProxyFacts
  imports ProxySession SessionFacts UpstreamFacts
begin

text \<open>
  What the proxy of theories \<open>UpstreamV1\<close> and \<open>ProxySession\<close> guarantees: the pool rebuilds from a
  forwarded share the header the proxy checked, a submission gets one verdict, the slots of a link
  stay distinct through every operation, a session holds exactly the slot it was given, and what
  becomes of the miners of a link that fails.
\<close>

section \<open>What the pool reads of a forwarded share\<close>

text \<open>The JSON text of the values both sides send.\<close>

fun wire :: "json \<Rightarrow> string" where
  "wire (JString s) = quote s"
| "wire (JBool b) = json_bool b"
| "wire (JArray vs) = ''['' @ commas (map wire vs) @ '']''"
| "wire v = ''null''"

text \<open>The parameters of the pool's \<open>mining.notify\<close> for a job and those of the proxy's \<open>mining.submit\<close>.\<close>

definition announced :: "mining_job \<Rightarrow> string \<Rightarrow> json list" where
  "announced job cb2 =
     [JString (mj_job_id job), JString (reverse_words (mj_previousblockhash job)), JString (mj_coinbase1 job), JString cb2,
      JArray (map JString (mj_merkle_branch_le job)), JString (fmt_08x (mj_version job)), JString (mj_bits job),
      JString (fmt_08x (mj_curtime job)), JBool (mj_clean_jobs job)]"

definition submitted :: "string \<Rightarrow> upstream_submit \<Rightarrow> json list" where
  "submitted user s =
     [JString user, JString (us_job_id s), JString (us_en2_full_hex s), JString (us_ntime_hex s), JString (us_nonce_hex s)]
     @ (case us_version_bits s of Some v \<Rightarrow> [JString (fmt_08x v)] | None \<Rightarrow> [])"

lemma announced_text:
  assumes "notify_parts cc job = (prefix, suffix)" and "cc_chain cc \<noteq> Zcash"
  shows "prefix @ cb2 @ suffix = notify_head @ commas (map wire (announced job cb2)) @ '']}'' @ newline"
  using assms by (auto simp: notify_parts_def announced_def json_list_def quote_def [abs_def] comp_def)

lemma commas_snoc: "xs \<noteq> [] \<Longrightarrow> commas (xs @ [y]) = commas xs @ '','' @ y"
  by (induction xs rule: commas.induct) (auto simp: neq_Nil_conv)

lemma submitted_text:
  "submit_line n L s =
     request_line n ''mining.submit'' (commas (map wire (submitted (json_escape (ue_user (lk_ep L))) s)))"
proof (cases "us_version_bits s")
  case None
  then show ?thesis by (simp add: submit_line_def submitted_def)
next
  case (Some v)
  have "commas (map wire (submitted u s)) = commas (map quote [u, us_job_id s, us_en2_full_hex s, us_ntime_hex s, us_nonce_hex s])
      @ '','' @ quote (fmt_08x v)" for u
    using commas_snoc [of "map quote [u, us_job_id s, us_en2_full_hex s, us_ntime_hex s, us_nonce_hex s]" "quote (fmt_08x v)"]
    by (simp add: submitted_def Some)
  then show ?thesis by (simp add: submit_line_def Some)
qed

text \<open>Both ends turn the words of the previous hash around, so the header has it as the pool does.\<close>

lemma nth_reverse_words:
  assumes "length p = 64" and "j < 64"
  shows "reverse_words p ! j = p ! ((7 - j div 8) * 8 + j mod 8)"
proof -
  have cut: "concat (map (\<lambda>w. take 8 (drop ((7 - w) * 8) p)) [0..<n]) ! j = p ! ((7 - j div 8) * 8 + j mod 8)"
    if "j < 8 * n" "n \<le> 8" for n
    using that
  proof (induction n)
    case (Suc n)
    let ?c = "\<lambda>n. concat (map (\<lambda>w. take 8 (drop ((7 - w) * 8) p)) [0..<n])"
    have len: "m \<le> 8 \<Longrightarrow> length (?c m) = 8 * m" for m
      using assms(1) by (induction m) auto
    show ?case
    proof (cases "j < 8 * n")
      case False
      then have "j div 8 = n" using Suc.prems by auto
      then have j: "j div 8 = n" "j - 8 * n = j mod 8" by (auto simp: minus_div_mult_eq_mod [symmetric])
      then have "?c (Suc n) ! j = take 8 (drop ((7 - n) * 8) p) ! (j - 8 * n)"
        using False len [of n] Suc.prems by (simp add: nth_append)
      then show ?thesis using j Suc.prems assms(1) by simp
    qed (use Suc len [of n] in \<open>simp add: nth_append\<close>)
  qed simp
  show ?thesis using cut [of 8] assms by (simp add: reverse_words_def)
qed

lemma prevhash_back:
  assumes "length p = 64"
  shows "stratum_prevhash_to_header_le (reverse_words p) = byte_reverse_hex p"
proof -
  have "length (reverse_words p) = 64"
    using assms by (simp add: reverse_words_def length_concat comp_def upt_rec)
  moreover have "reverse_words p = map (\<lambda>j. p ! ((7 - j div 8) * 8 + j mod 8)) [0..<64]"
    by (rule nth_equalityI) (simp_all add: \<open>length (reverse_words p) = 64\<close> nth_reverse_words assms)
  ultimately show ?thesis
    using assms by (simp add: stratum_prevhash_to_header_le_def byte_reverse_hex_concat upt_rec) (simp add: numeral_2_eq_2)
qed


text \<open>What the proxy reads of an announced job.\<close>

lemma stoul16_fmt: "stoul16 (fmt_08x v) = Inr (ucast v)"
proof -
  have len: "int_to_hex v 8 \<noteq> []" using length_int_to_hex [of v 8] by (metis list.size(3) zero_neq_numeral)
  have "unat v < 2 ^ 32" using unsigned_less [of v] by simp
  then have n: "hex_number (int_to_hex v 8) = unat v" "unat v < 2 ^ 64" by (simp_all add: hex_number_int_to_hex)
  have "(of_nat (unat v) :: u64) = ucast v" by (simp add: unsigned_of_nat)
  with n len show ?thesis by (simp add: fmt_08x_def stoul16_hex int_to_hex_hex)
qed

lemma narrowed_back: "(ucast (ucast (v :: u32) :: u64) :: u32) = v"
  by (rule bit_word_eqI) (simp add: bit_simps)

lemma strings_back: "strings_of (JArray (map JString ss)) = ss"
  by (induction ss) (simp_all add: strings_of_def)

lemma read_announced:
  "read_notify (announced job cb2) = bind_res (target_from_bits_hex (mj_bits job)) (\<lambda>target.
     Inr \<lparr>pn_notify_line = [], pn_job_id = mj_job_id job, pn_prevhash_stratum = reverse_words (mj_previousblockhash job),
       pn_coinbase1 = mj_coinbase1 job, pn_coinbase2 = cb2, pn_merkle_branch = mj_merkle_branch_le job,
       pn_version = mj_version job, pn_bits = mj_bits job, pn_ntime = fmt_08x (mj_curtime job),
       pn_mintime = mj_curtime job, pn_clean = mj_clean_jobs job, pn_net_target_be = target, pn_seq = 0\<rparr>)"
  by (simp add: read_notify_def announced_def item_def get_string_def stoul16_fmt strings_back narrowed_back)

definition forwarded :: "proxy_session \<Rightarrow> proxy_share \<Rightarrow> upstream_submit" where
  "forwarded ps sh =
     \<lparr>us_job_id = px_job_id sh, us_en2_full_hex = sl_slot_hex (ps_slot ps) @ px_en2 sh, us_ntime_hex = px_ntime_s sh,
      us_nonce_hex = px_nonce_s sh, us_version_bits = px_version_bits sh\<rparr>"

definition share_read :: "string \<Rightarrow> upstream_submit \<Rightarrow> share" where
  "share_read user s =
     \<lparr>sh_worker = user, sh_job_id = us_job_id s, sh_nonce2 = us_en2_full_hex s, sh_ntime = us_ntime_hex s,
      sh_nonce = us_nonce_hex s, sh_solution = [], sh_version_bits = us_version_bits s\<rparr>"

lemma session_hex_u32_fmt: "session_hex_u32 (fmt_08x v) = Some v"
  by (simp add: session_hex_u32_def fmt_08x_def [symmetric]) (simp add: fmt_08x_def)

lemma parse_forwarded:
  assumes "chain_of cs \<noteq> Zcash" and "valid_hex (us_en2_full_hex s)" "valid_hex (us_ntime_hex s)" "valid_hex (us_nonce_hex s)"
    and "length (us_ntime_hex s) = 8" "length (us_nonce_hex s) = 8" "length (us_en2_full_hex s) = cs_extranonce2_size cs * 2"
  shows "parse_submit cs (submitted user s) = Inr (share_read user s)"
  using assms by (cases "us_version_bits s")
    (simp_all add: parse_submit_def parse_bitcoin_submit_def submitted_def share_read_def session_hex_u32_fmt)


lemma check_proxy_share_cases:
  assumes "check_proxy_share E ps sh = Inr (Inr c)"
  obtains job ntime version header where
    "valid_hex (px_en2 sh)" "valid_hex (px_ntime_s sh)" "valid_hex (px_nonce_s sh)" "length (px_ntime_s sh) = 8"
    "length (px_nonce_s sh) = 8" "length (px_en2 sh) = sl_en2_size (ps_slot ps) * 2"
    "map_of (ps_recent_jobs ps) (px_job_id sh) = Some job" "session_hex_u32 (px_ntime_s sh) = Some ntime"
    "valid_ntime ntime (pn_mintime job) (ev_unix E) 7200" "proxy_version ps job sh = Some version"
    "proxy_header E ps job version sh = Inr (pc_header_hex c)" "hex_to_bytes (pc_header_hex c) = Inr header"
    "proxy_pow E (cc_chain (ps_coin ps)) header = Inr (pc_hash c)" "pc_share c = sh" "pc_job c = job"
    "pc_meets_network c = be_le (pc_hash c) (pn_net_target_be job)"
    "pc_share_diff c = difficulty_of (ev_fpu E) (if cc_chain (ps_coin ps) = Zcash then Bitcoin else cc_chain (ps_coin ps)) (pc_hash c)"
  using assms
  by (auto simp: check_proxy_share_def Let_def bind_res_Inr_iff split: if_splits option.splits)

lemma same_version:
  assumes "proxy_version ps pj sh = Some version" and "pn_version pj = mj_version job" and "ps_version_mask ps = vmask"
  shows "share_version vmask job (share_read user (forwarded ps sh)) = Some version"
  using assms by (auto simp: proxy_version_def share_version_def share_read_def forwarded_def split: option.splits if_splits)

text \<open>What a proxy's slot is on the session the pool has with the proxy.\<close>

definition slot_on :: "session \<Rightarrow> proxy_slot \<Rightarrow> bool" where
  "slot_on cs slot \<longleftrightarrow> sl_en1_hex slot = cs_extranonce1 cs @ sl_slot_hex slot \<and> list_all is_hex (sl_slot_hex slot)
     \<and> length (sl_slot_hex slot) + sl_en2_size slot * 2 = cs_extranonce2_size cs * 2"

lemma same_header:
  assumes "proxy_header E ps pj version sh = Inr hdr"
    and "read_notify (announced job (coinbase2_of E cs job)) = Inr pj0" "pj = pj0\<lparr>pn_notify_line := l, pn_seq := n\<rparr>"
    and "length (mj_previousblockhash job) = 64" "chain_of cs \<noteq> Zcash" "cs_aux_doge_address cs = []" "slot_on cs (ps_slot ps)"
  obtains cb mr where "share_coinbase E cs job (share_read user (forwarded ps sh)) = Inr (cb, mr)"
    "share_header (chain_of cs) job version mr (px_ntime_s sh) (px_nonce_s sh) = hdr"
proof -
  from assms(2,3) have pj: "pn_coinbase1 pj = mj_coinbase1 job" "pn_coinbase2 pj = coinbase2_of E cs job"
    "pn_merkle_branch pj = mj_merkle_branch_le job" "pn_prevhash_stratum pj = reverse_words (mj_previousblockhash job)"
    "pn_bits pj = mj_bits job"
    by (auto simp: read_announced bind_res_Inr_iff)
  from assms(1,7) obtain txid mr where
    "compute_coinbase_txid_le (sha256d (ev_sha256 E)) (rebuild_coinbase (mj_coinbase1 job) (coinbase2_of E cs job)
       (cs_extranonce1 cs @ sl_slot_hex (ps_slot ps) @ px_en2 sh)) = Inr txid"
    "compute_root_le_hex (ev_sha256 E) txid (mj_merkle_branch_le job) = Inr mr"
    "hdr = build_block_header (le_hex_u32 version) (byte_reverse_hex (mj_previousblockhash job)) mr
       (byte_reverse_hex (px_ntime_s sh)) (byte_reverse_hex (mj_bits job)) (byte_reverse_hex (px_nonce_s sh))"
    by (auto simp: proxy_header_def bind_res_Inr_iff pj slot_on_def prevhash_back [OF assms(4)])
  with assms(5,6) that show thesis
    by (auto simp: share_coinbase_def share_header_def share_read_def forwarded_def)
qed


lemma check_share_intro:
  assumes "split_worker (sh_worker s) = (cs_worker_address cs, cs_worker_name cs)" "findJob (sh_job_id s) strat = Some job"
    and "chain_of cs \<noteq> Zcash" "session_hex_u32 (sh_ntime s) = Some ntime" "valid_ntime ntime (mj_mintime job) (ev_unix E) 7200"
    and "share_version (effective_mask cs strat) job s = Some version" "share_coinbase E cs job s = Inr (cb, mr)"
    and "hex_to_bytes (share_header (chain_of cs) job version mr (sh_ntime s) (sh_nonce s)) = Inr header"
    and "proof_of_work E (chain_of cs) header (sh_solution s) = Inr (Some hash)" "target_from_bits_hex (mj_bits job) = Inr net"
  obtains c where "check_share E cs strat s = Inr (Inr c)" "ca_hash c = hash"
    "ca_header_hex c = share_header (chain_of cs) job version mr (sh_ntime s) (sh_nonce s)"
    "ca_share_diff c = difficulty_of (ev_fpu E) (chain_of cs) hash" "ca_meets_network c = be_le hash net"
  using assms by (simp add: check_share_def Let_def)

lemma share_read_fields:
  "sh_worker (share_read user (forwarded ps sh)) = user" "sh_job_id (share_read user (forwarded ps sh)) = px_job_id sh"
  "sh_ntime (share_read user (forwarded ps sh)) = px_ntime_s sh" "sh_nonce (share_read user (forwarded ps sh)) = px_nonce_s sh"
  "sh_solution (share_read user (forwarded ps sh)) = []"
  by (simp_all add: share_read_def forwarded_def)

text \<open>
  C11. Proxy and pool judge the same header. Let the pool announce a job to the proxy and let the
  proxy keep what it read of that line; let the miner's slot be a piece of the extranonce1 the pool
  gave the proxy, and let both sides use one version mask. Then a share the proxy checks to the end,
  forwarded as the proxy forwards it, is accepted by the pool's parameter checks, and the pool
  rebuilds the same header: hash, difficulty and the verdict on the network target are equal. The
  lines both sides exchange are the texts of the values the statement speaks of.
\<close>

theorem proxy_pool_agree:
  assumes "notify_parts (cs_coin cs) job = (prefix, suffix)" and "chain_of cs \<noteq> Zcash"
    and "cc_chain (ps_coin ps) = chain_of cs"
    and "read_notify (announced job (coinbase2_of E cs job)) = Inr pj0"
    and "map_of (ps_recent_jobs ps) (px_job_id sh) = Some (pj0\<lparr>pn_notify_line := l, pn_seq := n\<rparr>)"
    and "findJob (px_job_id sh) strat = Some job" "length (mj_previousblockhash job) = 64" "mj_mintime job \<le> mj_curtime job"
    and "slot_on cs (ps_slot ps)" "cs_aux_doge_address cs = []" "effective_mask cs strat = ps_version_mask ps"
    and "split_worker (json_escape (ue_user (lk_ep L))) = (cs_worker_address cs, cs_worker_name cs)"
    and "check_proxy_share E ps sh = Inr (Inr c)"
  shows "prefix @ coinbase2_of E cs job @ suffix =
      notify_head @ commas (map wire (announced job (coinbase2_of E cs job))) @ '']}'' @ newline
      \<and> (\<exists>vs sh' c'. submit_line i L (forwarded ps sh) = request_line i ''mining.submit'' (commas (map wire vs))
      \<and> parse_submit cs vs = Inr sh' \<and> check_share E cs strat sh' = Inr (Inr c')
      \<and> ca_header_hex c' = pc_header_hex c \<and> ca_hash c' = pc_hash c \<and> ca_share_diff c' = pc_share_diff c
      \<and> ca_meets_network c' = pc_meets_network c)"
proof (intro conjI)
  show "prefix @ coinbase2_of E cs job @ suffix =
      notify_head @ commas (map wire (announced job (coinbase2_of E cs job))) @ '']}'' @ newline"
    using assms(1,2) by (intro announced_text) (simp_all add: chain_of_def)
  let ?user = "json_escape (ue_user (lk_ep L))" and ?pj = "pj0\<lparr>pn_notify_line := l, pn_seq := n\<rparr>"
  let ?s = "share_read ?user (forwarded ps sh)"
  from assms(13) obtain ntime version header where c:
    "valid_hex (px_en2 sh)" "valid_hex (px_ntime_s sh)" "valid_hex (px_nonce_s sh)" "length (px_ntime_s sh) = 8"
    "length (px_nonce_s sh) = 8" "length (px_en2 sh) = sl_en2_size (ps_slot ps) * 2"
    "session_hex_u32 (px_ntime_s sh) = Some ntime" "valid_ntime ntime (pn_mintime ?pj) (ev_unix E) 7200"
    "proxy_version ps ?pj sh = Some version" "proxy_header E ps ?pj version sh = Inr (pc_header_hex c)"
    "hex_to_bytes (pc_header_hex c) = Inr header" "proxy_pow E (chain_of cs) header = Inr (pc_hash c)"
    "pc_meets_network c = be_le (pc_hash c) (pn_net_target_be ?pj)"
    "pc_share_diff c = difficulty_of (ev_fpu E) (chain_of cs) (pc_hash c)"
    using assms(2,3,5) by (elim check_proxy_share_cases) simp
  from assms(4) have pj: "target_from_bits_hex (mj_bits job) = Inr (pn_net_target_be pj0)" "pn_version pj0 = mj_version job"
    "pn_mintime pj0 = mj_curtime job"
    by (auto simp: read_announced bind_res_Inr_iff)
  have parsed: "parse_submit cs (submitted ?user (forwarded ps sh)) = Inr ?s"
    using assms(2,9) c by (intro parse_forwarded) (auto simp: forwarded_def valid_hex_def slot_on_def)
  obtain cb mr where cb: "share_coinbase E cs job ?s = Inr (cb, mr)"
    and hd: "share_header (chain_of cs) job version mr (px_ntime_s sh) (px_nonce_s sh) = pc_header_hex c"
    using same_header [OF c(10) assms(4) refl assms(7,2,10,9)] by blast
  have v: "share_version (effective_mask cs strat) job ?s = Some version"
    using same_version [OF c(9)] pj assms(11) by simp
  have pow: "proof_of_work E (chain_of cs) header [] = Inr (Some (pc_hash c))"
    using c(12) assms(2) by (auto simp: proof_of_work_def proxy_pow_def bind_res_Inr_iff)
  have in_time: "valid_ntime ntime (mj_mintime job) (ev_unix E) 7200"
    using c(8) pj(3) assms(8) by (auto simp: valid_ntime_def)
  obtain c' where "check_share E cs strat ?s = Inr (Inr c')" "ca_hash c' = pc_hash c"
    "ca_header_hex c' = share_header (chain_of cs) job version mr (px_ntime_s sh) (px_nonce_s sh)"
    "ca_share_diff c' = difficulty_of (ev_fpu E) (chain_of cs) (pc_hash c)"
    "ca_meets_network c' = be_le (pc_hash c) (pn_net_target_be pj0)"
    by (rule check_share_intro [where s = ?s, unfolded share_read_fields,
        OF assms(12,6,2) c(7) in_time v cb c(11) [folded hd] pow pj(1)]) (simp add: hd)
  then have "check_share E cs strat ?s = Inr (Inr c')" "ca_header_hex c' = pc_header_hex c"
    "ca_hash c' = pc_hash c" "ca_share_diff c' = pc_share_diff c" "ca_meets_network c' = pc_meets_network c"
    using c(13,14) hd by simp_all
  with parsed show "\<exists>vs sh' c'. submit_line i L (forwarded ps sh) = request_line i ''mining.submit'' (commas (map wire vs))
      \<and> parse_submit cs vs = Inr sh' \<and> check_share E cs strat sh' = Inr (Inr c')
      \<and> ca_header_hex c' = pc_header_hex c \<and> ca_hash c' = pc_hash c \<and> ca_share_diff c' = pc_share_diff c
      \<and> ca_meets_network c' = pc_meets_network c"
    using submitted_text [of i L "forwarded ps sh"] by blast
qed


text \<open>A link, a pool session with its job, and a miner behind the link for which all of this holds.\<close>

definition wit_job :: mining_job where
  "wit_job = share_job\<lparr>mj_previousblockhash := bytes_to_hex (replicate 32 0)\<rparr>"

definition wit_cs :: session where
  "wit_cs = sample_session\<lparr>cs_extranonce1 := ''ab'', cs_extranonce2_size := 2\<rparr>"

definition wit_strat :: stratifier where
  "wit_strat = (stratifier_new 2)\<lparr>sf_jobs := window_push ''j'' wit_job (window_new 2)\<rparr>"

definition wit_link :: up_link where
  "wit_link = new_link (default_endpoint\<lparr>ue_user := ''w''\<rparr>) 0"

definition wit_notify :: proxy_notify where
  "wit_notify = (case read_notify (announced wit_job (coinbase2_of sample_env wit_cs wit_job)) of Inr n \<Rightarrow> n)"

definition wit_ps :: proxy_session where
  "wit_ps = (proxy_new default_coin 1 False [])
     \<lparr>ps_slot := \<lparr>sl_ok = True, sl_link_id = 0, sl_slot_id = 1, sl_slot_hex = ''01'', sl_en1_hex = ''ab01'', sl_en2_size = 1\<rparr>,
      ps_recent_jobs := [(''j'', wit_notify)], ps_attached := True, ps_subscribed := True, ps_authorized := True, ps_version_rolling := True,
      ps_version_mask := 0x1fffe000\<rparr>"

definition wit_share :: proxy_share where
  "wit_share = \<lparr>px_job_id = ''j'', px_en2 = ''00'', px_ntime_s = ''00000000'', px_nonce_s = ''00000000'', px_version_bits = None\<rparr>"

lemma check_proxy_share_intro:
  assumes "valid_hex (px_en2 sh)" "valid_hex (px_ntime_s sh)" "valid_hex (px_nonce_s sh)" "length (px_ntime_s sh) = 8"
    "length (px_nonce_s sh) = 8" "length (px_en2 sh) = sl_en2_size (ps_slot ps) * 2"
    "map_of (ps_recent_jobs ps) (px_job_id sh) = Some job" "session_hex_u32 (px_ntime_s sh) = Some ntime"
    "valid_ntime ntime (pn_mintime job) (ev_unix E) 7200" "proxy_version ps job sh = Some version"
    "proxy_header E ps job version sh = Inr hdr" "hex_to_bytes hdr = Inr header"
    "proxy_pow E (cc_chain (ps_coin ps)) header = Inr hash"
  shows "check_proxy_share E ps sh = Inr (Inr \<lparr>pc_share = sh, pc_job = job, pc_header_hex = hdr, pc_hash = hash,
    pc_meets_network = be_le hash (pn_net_target_be job),
    pc_share_diff = difficulty_of (ev_fpu E) (if cc_chain (ps_coin ps) = Zcash then Bitcoin else cc_chain (ps_coin ps)) hash\<rparr>)"
  using assms by (simp add: check_proxy_share_def Let_def)

lemma wit_fields:
  "px_en2 wit_share = ''00''" "px_ntime_s wit_share = ''00000000''" "px_nonce_s wit_share = ''00000000''"
  "px_job_id wit_share = ''j''" "px_version_bits wit_share = None" "ps_coin wit_ps = default_coin"
  "ps_slot wit_ps = \<lparr>sl_ok = True, sl_link_id = 0, sl_slot_id = 1, sl_slot_hex = ''01'', sl_en1_hex = ''ab01'', sl_en2_size = 1\<rparr>"
  "ps_recent_jobs wit_ps = [(''j'', wit_notify)]" "ps_version_mask wit_ps = 0x1fffe000" "cc_chain default_coin = Bitcoin"
  "cs_coin wit_cs = default_coin" "cs_extranonce1 wit_cs = ''ab''" "cs_extranonce2_size wit_cs = 2" "chain_of wit_cs = Bitcoin"
  "cs_aux_doge_address wit_cs = []" "cs_worker_address wit_cs = ''w''" "cs_worker_name wit_cs = ''0''" "cs_version_mask wit_cs = 0"
  "mj_previousblockhash wit_job = bytes_to_hex (replicate 32 0)" "mj_mintime wit_job = 0" "mj_curtime wit_job = 0"
  "mj_coinbase1 wit_job = []" "mj_merkle_branch_le wit_job = []" "mj_version wit_job = 0" "mj_bits wit_job = mj_bits share_job"
  "coinbase2_of sample_env wit_cs wit_job = []"
  using session_fields share_job_fields
  by (simp_all add: wit_share_def wit_ps_def proxy_new_def default_coin_def wit_cs_def wit_job_def chain_of_def
      coinbase2_of_def build_session_coinbase2_def share_job_def sample_job_def make_job_def sample_template_def
      empty_template_def del: replicate.simps bytes_to_hex_simps)

lemma wit_read: "read_notify (announced wit_job []) = Inr wit_notify"
  and wit_notify_fields: "pn_mintime wit_notify = 0" "pn_version wit_notify = 0" "pn_coinbase1 wit_notify = []"
    "pn_coinbase2 wit_notify = []" "pn_merkle_branch wit_notify = []" "pn_bits wit_notify = mj_bits share_job"
    "pn_prevhash_stratum wit_notify = reverse_words (bytes_to_hex (replicate 32 0))" "pn_notify_line wit_notify = []"
    "pn_seq wit_notify = 0"
  by (simp_all add: wit_notify_def wit_fields read_announced sample_target del: replicate.simps bytes_to_hex_simps)

lemma zero_time: "session_hex_u32 ''00000000'' = Some 0"
  unfolding session_hex_u32_def
  by (subst parse_hex_u32_hex) (simp_all add: is_hex_def hex_number_def hex_value_def hex_nibble_def Let_def)

lemma wit_checked: obtains c where "check_proxy_share sample_env wit_ps wit_share = Inr (Inr c)"
proof -
  have env: "ev_sha256 sample_env = (\<lambda>_. replicate 32 0)" "ev_fpu sample_env = exact_fpu" "ev_unix sample_env = 0"
    by (simp_all add: sample_env_def)
  have z: "hex_pairs (bytes_to_hex (replicate 32 0)) = Inr (replicate 32 0)"
    using hex_pairs_bytes_to_hex [of "replicate 32 0" "[]"] by (simp del: bytes_to_hex_simps replicate.simps)
  have cb: "hex_to_bytes ''ab0100'' = Inr [0xab, 1, 0]" by (simp add: hex_to_bytes_def hex_nibble_def Let_def)
  let ?h = "le_bytes 4 (0 :: u32) @ replicate 32 0 @ replicate 32 0 @ [0, 0, 0, 0] @ rev [0x20, 0x7f, 0xff, 0xff] @ [0, 0, 0, 0]"
  have hdr: "proxy_header sample_env wit_ps wit_notify 0 wit_share = Inr (bytes_to_hex ?h)"
    unfolding proxy_header_def wit_fields wit_notify_fields zeros_text share_job_fields
    by (simp add: rebuild_coinbase_def compute_coinbase_txid_le_def cb sha256d_def env compute_root_le_hex_def from_hex_def z
        build_block_header_def prevhash_back le_hex_u32_bytes del: bytes_to_hex_simps replicate.simps)
      (simp add: bytes_to_hex_def)
  have pow: "proxy_pow sample_env (cc_chain (ps_coin wit_ps)) ?h = Inr (replicate 32 0)"
    by (simp add: wit_fields proxy_pow_def sha256d_def env del: replicate.simps)
  show thesis
    by (rule that [OF check_proxy_share_intro [where ntime = 0, OF _ _ _ _ _ _ _ _ _ _ hdr hex_to_bytes_to_hex pow]])
      (simp_all add: wit_fields wit_notify_fields valid_hex_def is_hex_def zero_time valid_ntime_def env proxy_version_def
        del: bytes_to_hex_simps replicate.simps)
qed

lemma wit_strat_find: "findJob ''j'' wit_strat = Some wit_job"
  by (simp add: findJob_def wit_strat_def window_find_def window_push_def window_new_def stratifier_new_def)

lemma wit_slot: "slot_on wit_cs (ps_slot wit_ps)"
  by (simp add: slot_on_def wit_fields is_hex_def)

lemma proxy_pool_agree_witness:
  "\<exists>vs sh' c'. submit_line 7 wit_link (forwarded wit_ps wit_share) = request_line 7 ''mining.submit'' (commas (map wire vs))
    \<and> parse_submit wit_cs vs = Inr sh' \<and> check_share sample_env wit_cs wit_strat sh' = Inr (Inr c')"
proof -
  obtain prefix suffix where p: "notify_parts (cs_coin wit_cs) wit_job = (prefix, suffix)" by fastforce
  obtain c where c: "check_proxy_share sample_env wit_ps wit_share = Inr (Inr c)" by (rule wit_checked)
  have user: "split_worker (json_escape (ue_user (lk_ep wit_link))) = (cs_worker_address wit_cs, cs_worker_name wit_cs)"
    by (simp add: wit_link_def new_link_def json_escape_def split_worker_def wit_fields)
  have mask: "effective_mask wit_cs wit_strat = ps_version_mask wit_ps"
    by (simp add: effective_mask_def wit_fields default_coin_def pool_version_mask_def wit_strat_def stratifier_new_def)
  have kept: "map_of (ps_recent_jobs wit_ps) (px_job_id wit_share) = Some (wit_notify\<lparr>pn_notify_line := [], pn_seq := 0\<rparr>)"
    using wit_notify_fields by (simp add: wit_fields)
  show ?thesis
    using proxy_pool_agree [OF p _ _ _ kept _ _ _ wit_slot _ mask user c, where i = 7]
      wit_read wit_strat_find by (auto simp: wit_fields simp del: replicate.simps bytes_to_hex_simps)
qed


section \<open>The verdict on a submission\<close>

definition forwards :: "proxy_action list \<Rightarrow> (int \<times> upstream_submit \<times> bool) list" where
  "forwards as = concat (map (\<lambda>a. case a of Forward l s cb \<Rightarrow> [(l, s, cb)] | _ \<Rightarrow> []) as)"

text \<open>What a submission may change: the three counters, the lines to the miner, the shares sent upstream.\<close>

definition tally :: "'u proxy_world \<Rightarrow> u64 \<times> u64 \<times> u64 \<times> string list \<times> (int \<times> upstream_submit \<times> bool) list" where
  "tally w = (ps_shares_accepted (pw_ps w), ps_shares_rejected (pw_ps w), ps_shares_forwarded (pw_ps w), pw_posted w,
     forwards (pw_actions w))"

lemma tally_relay_close [simp]: "tally (relay_close S w) = tally w"
  by (simp add: tally_def relay_close_def Let_def act_def upd_ps_def forwards_def)

lemma tally_limiter [simp]: "tally (w\<lparr>pw_limiter := rl\<rparr>) = tally w"
  by (simp add: tally_def)

lemma tally_send [simp]: "tally (relay_send m w) = (case tally w of (a, r, f, ls, fw) \<Rightarrow> (a, r, f, ls @ [m], fw))"
  by (simp add: tally_def relay_send_def)

lemma tally_reject: "tally (proxy_reject S E i r w) =
    (case tally w of (a, rj, f, ls, fw) \<Rightarrow> (a, rj + 1, f, ls @ [error_line i (snd r) (fst r)], fw))"
  by (auto simp: proxy_reject_def Let_def split: option.splits prod.splits) (auto simp: tally_def relay_send_def upd_ps_def)

lemma tally_forward: "tally (forward_share c cb w) =
    (case tally w of (a, rj, f, ls, fw) \<Rightarrow> (a, rj, f + 1, ls, fw @ [(sl_link_id (ps_slot (pw_ps w)), forwarded (pw_ps w) (pc_share c), cb)]))"
  by (simp add: forward_share_def Let_def tally_def upd_ps_def act_def forwards_def forwarded_def)

definition too_easy :: "env \<Rightarrow> 'u proxy_world \<Rightarrow> proxy_candidate \<Rightarrow> bool" where
  "too_easy E w c \<longleftrightarrow> pc_share_diff c < rnd_d (ev_fpu E)
     ((if ps_target_diff (pw_ps w) > 0 then ps_target_diff (pw_ps w) else 1) * rnd_d (ev_fpu E) (99 / 100))"

lemma tally_judge: "tally (judge_proxy_share S E i c w) =
    (case tally w of (a, rj, f, ls, fw) \<Rightarrow>
       let out = (\<lambda>cb. [(sl_link_id (ps_slot (pw_ps w)), forwarded (pw_ps w) (pc_share c), cb)])
       in if \<not> too_easy E w c then (a + 1, rj, f + 1, ls @ [ok_line i], fw @ out True)
          else if pc_meets_network c then (a, rj + 1, f + 1, ls @ [error_line i 23 ''low difficulty share''], fw @ out False)
          else (a, rj + 1, f, ls @ [error_line i 23 ''low difficulty share''], fw))"
  by (auto simp: judge_proxy_share_def Let_def too_easy_def tally_reject tally_forward split: prod.splits)
    (auto simp: tally_def relay_send_def upd_ps_def forward_share_def Let_def act_def forwards_def forwarded_def)

lemma check_proxy_share_codes: "check_proxy_share E ps sh = Inr (Inl (reason, code)) \<Longrightarrow> code \<in> {20, 21}"
  by (auto simp: check_proxy_share_def Let_def bind_res_Inr_iff split: if_splits option.splits)

lemma check_proxy_share_share: "check_proxy_share E ps sh = Inr (Inr c) \<Longrightarrow> pc_share c = sh"
  by (auto simp: check_proxy_share_def Let_def bind_res_Inr_iff split: if_splits option.splits)

text \<open>
  The submissions the proxy judges, written out from the checks of the code: the parameters, and what
  a share must satisfy for the slot and the jobs of the session. The hash is that of the header of
  the job with the share's version, time and nonce.
\<close>

definition proxy_params :: "json list \<Rightarrow> proxy_share \<Rightarrow> bool" where
  "proxy_params p sh \<longleftrightarrow>
     (\<exists>worker rest. p = worker # JString (px_job_id sh) # JString (px_en2 sh) # JString (px_ntime_s sh) # JString (px_nonce_s sh) # rest \<and>
        px_version_bits sh = (case rest of JString v # _ \<Rightarrow> session_hex_u32 v | _ \<Rightarrow> None))"

definition sound_share :: "env \<Rightarrow> proxy_session \<Rightarrow> proxy_share \<Rightarrow> proxy_notify \<Rightarrow> bytes \<Rightarrow> bool" where
  "sound_share E ps sh job hash \<longleftrightarrow>
     valid_hex (px_en2 sh) \<and> length (px_en2 sh) = 2 * sl_en2_size (ps_slot ps) \<and>
     valid_hex (px_ntime_s sh) \<and> length (px_ntime_s sh) = 8 \<and> valid_hex (px_nonce_s sh) \<and> length (px_nonce_s sh) = 8 \<and>
     map_of (ps_recent_jobs ps) (px_job_id sh) = Some job \<and>
     (\<exists>ntime. session_hex_u32 (px_ntime_s sh) = Some ntime \<and> valid_ntime ntime (pn_mintime job) (ev_unix E) 7200) \<and>
     (px_version_bits sh \<noteq> None \<longrightarrow> ps_version_rolling ps \<and> ps_version_mask ps \<noteq> 0) \<and>
     (\<exists>hdr header. proxy_header E ps job (case px_version_bits sh of None \<Rightarrow> pn_version job
          | Some v \<Rightarrow> (pn_version job AND NOT (ps_version_mask ps)) OR (v AND ps_version_mask ps)) sh = Inr hdr \<and>
        hex_to_bytes hdr = Inr header \<and> proxy_pow E (cc_chain (ps_coin ps)) header = Inr hash)"

definition judgeable :: "env \<Rightarrow> proxy_session \<Rightarrow> json list \<Rightarrow> proxy_share \<Rightarrow> proxy_notify \<Rightarrow> bytes \<Rightarrow> bool" where
  "judgeable E ps p sh job hash \<longleftrightarrow> ps_authorized ps \<and> ps_subscribed ps \<and> ps_attached ps \<and> proxy_params p sh \<and>
     sound_share E ps sh job hash"

definition hash_difficulty :: "env \<Rightarrow> proxy_session \<Rightarrow> bytes \<Rightarrow> rat" where
  "hash_difficulty E ps hash =
     difficulty_of (ev_fpu E) (if cc_chain (ps_coin ps) = Zcash then Bitcoin else cc_chain (ps_coin ps)) hash"

definition difficulty_in_force :: "env \<Rightarrow> proxy_session \<Rightarrow> rat" where
  "difficulty_in_force E ps =
     rnd_d (ev_fpu E) ((if ps_target_diff ps > 0 then ps_target_diff ps else 1) * rnd_d (ev_fpu E) (99 / 100))"

lemma parse_proxy_share_iff: "length p \<ge> 5 \<and> parse_proxy_share p = Inr sh \<longleftrightarrow> proxy_params p sh"
proof
  assume "length p \<ge> 5 \<and> parse_proxy_share p = Inr sh"
  moreover from this obtain a b c d e rest where "p = a # b # c # d # e # rest"
    by (auto simp: Suc_le_length_iff numeral_eq_Suc)
  ultimately show "proxy_params p sh"
    by (auto simp: proxy_params_def parse_proxy_share_def bind_res_Inr_iff item_def get_string_def numeral_eq_Suc
        split: json.splits list.split)
next
  assume "proxy_params p sh"
  then obtain worker rest where p: "p = worker # JString (px_job_id sh) # JString (px_en2 sh) # JString (px_ntime_s sh) # JString (px_nonce_s sh) # rest"
    and v: "px_version_bits sh = (case rest of JString v # _ \<Rightarrow> session_hex_u32 v | _ \<Rightarrow> None)"
    unfolding proxy_params_def by blast
  have "(case item p 5 of JString s \<Rightarrow> session_hex_u32 s | _ \<Rightarrow> None) = px_version_bits sh"
    unfolding v by (cases rest) (simp_all add: p item_def)
  then show "length p \<ge> 5 \<and> parse_proxy_share p = Inr sh"
    by (simp add: parse_proxy_share_def) (simp add: p item_def get_string_def)
qed

lemma proxy_version_iff:
  "proxy_version ps job sh = Some v \<longleftrightarrow>
    (px_version_bits sh \<noteq> None \<longrightarrow> ps_version_rolling ps \<and> ps_version_mask ps \<noteq> 0) \<and>
    v = (case px_version_bits sh of None \<Rightarrow> pn_version job
          | Some b \<Rightarrow> (pn_version job AND NOT (ps_version_mask ps)) OR (b AND ps_version_mask ps))"
  by (auto simp: proxy_version_def split: option.splits if_splits)

lemma check_proxy_share_iff:
  "check_proxy_share E ps sh = Inr (Inr c) \<longleftrightarrow>
    (sound_share E ps sh (pc_job c) (pc_hash c) \<and> check_proxy_share E ps sh = Inr (Inr c))"
  by (auto simp: check_proxy_share_def sound_share_def Let_def bind_res_Inr_iff proxy_version_iff split: if_splits option.splits)

lemma sound_share_checked:
  assumes "sound_share E ps sh job hash"
  obtains c where "check_proxy_share E ps sh = Inr (Inr c)" "pc_share c = sh" "pc_hash c = hash"
    "pc_meets_network c = be_le hash (pn_net_target_be job)" "pc_share_diff c = hash_difficulty E ps hash"
proof -
  obtain ntime hdr header where *: "session_hex_u32 (px_ntime_s sh) = Some ntime" "valid_ntime ntime (pn_mintime job) (ev_unix E) 7200"
    "proxy_header E ps job (case px_version_bits sh of None \<Rightarrow> pn_version job
          | Some v \<Rightarrow> (pn_version job AND NOT (ps_version_mask ps)) OR (v AND ps_version_mask ps)) sh = Inr hdr"
    "hex_to_bytes hdr = Inr header" "proxy_pow E (cc_chain (ps_coin ps)) header = Inr hash"
    using assms unfolding sound_share_def by blast
  have v: "proxy_version ps job sh = Some (case px_version_bits sh of None \<Rightarrow> pn_version job
          | Some v \<Rightarrow> (pn_version job AND NOT (ps_version_mask ps)) OR (v AND ps_version_mask ps))"
    using assms by (simp add: proxy_version_iff sound_share_def)
  have "check_proxy_share E ps sh = Inr (Inr \<lparr>pc_share = sh, pc_job = job, pc_header_hex = hdr, pc_hash = hash,
      pc_meets_network = be_le hash (pn_net_target_be job),
      pc_share_diff = difficulty_of (ev_fpu E) (if cc_chain (ps_coin ps) = Zcash then Bitcoin else cc_chain (ps_coin ps)) hash\<rparr>)"
    by (rule check_proxy_share_intro [OF _ _ _ _ _ _ _ *(1,2) v *(3-5)]) (use assms in \<open>simp_all add: sound_share_def\<close>)
  then show thesis by (rule that) (simp_all add: hash_difficulty_def)
qed

lemma proxy_submit_ends:
  obtains (refused) reason code where "proxy_submit S E msg w = Inr (proxy_reject S E (id_json E msg) (reason, code) w)"
      "code \<in> (if \<not> ps_authorized (pw_ps w) then {24}
               else if \<not> ps_subscribed (pw_ps w) \<or> \<not> ps_attached (pw_ps w) then {25} else {20, 21 :: nat})"
  | (failed) sh e where "ps_authorized (pw_ps w)" "ps_subscribed (pw_ps w)" "ps_attached (pw_ps w)" "proxy_params (params_of msg) sh"
      "check_proxy_share E (pw_ps w) sh = Inl e" "proxy_submit S E msg w = Inl e"
  | (judged) sh c where "ps_authorized (pw_ps w)" "ps_subscribed (pw_ps w)" "ps_attached (pw_ps w)" "proxy_params (params_of msg) sh"
      "check_proxy_share E (pw_ps w) sh = Inr (Inr c)" "proxy_submit S E msg w = Inr (judge_proxy_share S E (id_json E msg) c w)"
proof -
  let ?ps = "pw_ps w"
  have "length (params_of msg) < 5 \<or> (\<exists>e. parse_proxy_share (params_of msg) = Inl e) \<or> (\<exists>sh. proxy_params (params_of msg) sh)"
    using parse_proxy_share_iff [of "params_of msg"] by (cases "parse_proxy_share (params_of msg)") (metis not_less)+
  then consider "\<not> ps_authorized ?ps" | "ps_authorized ?ps" "\<not> (ps_subscribed ?ps \<and> ps_attached ?ps)"
    | e where "ps_authorized ?ps" "ps_subscribed ?ps \<and> ps_attached ?ps"
        "length (params_of msg) < 5 \<or> parse_proxy_share (params_of msg) = Inl e"
    | sh where "ps_authorized ?ps" "ps_subscribed ?ps \<and> ps_attached ?ps" "proxy_params (params_of msg) sh"
    by blast
  then show thesis
  proof cases
    case (3 e)
    then have "proxy_submit S E msg w = Inr (proxy_reject S E (id_json E msg)
        (if length (params_of msg) < 5 then ''bad params'' else ''bad params types'', 20) w)"
      by (auto simp: proxy_submit_def Let_def)
    then show thesis by (rule refused) (use 3 in simp)
  next
    case (4 sh)
    then have p: "\<not> length (params_of msg) < 5" "parse_proxy_share (params_of msg) = Inr sh"
      using parse_proxy_share_iff [of "params_of msg" sh] by auto
    show thesis
    proof (cases "check_proxy_share E ?ps sh")
      case (Inl e)
      with 4 p show thesis by (intro failed [of sh e]) (simp_all add: proxy_submit_def Let_def)
    next
      case (Inr x)
      show thesis
      proof (cases x)
        case why: (Inl why)
        then have "snd why \<in> {20, 21}" using Inr check_proxy_share_codes [of E ?ps sh "fst why" "snd why"] by simp
        with 4 p Inr why show thesis
          by (intro refused [of "fst why" "snd why"]) (simp_all add: proxy_submit_def Let_def)
      next
        case (Inr c)
        with 4 p \<open>check_proxy_share E ?ps sh = Inr x\<close> show thesis
          by (intro judged [of sh c]) (simp_all add: proxy_submit_def Let_def)
      qed
    qed
  qed (use refused in \<open>auto simp: proxy_submit_def Let_def split: if_splits sum.splits\<close>)
qed

lemma too_easy_iff: "too_easy E w c \<longleftrightarrow> pc_share_diff c < difficulty_in_force E (pw_ps w)"
  by (simp add: too_easy_def difficulty_in_force_def)

text \<open>
  C12. Every \<open>mining.submit\<close> a miner of the proxy sends gets exactly one line back. When the session is
  authorized, subscribed and attached and the share is well-formed, of a known job, in time, inside
  the version mask and can be hashed, the hash decides: from 99 per cent of the difficulty in force on
  the share is accepted, counted and sent upstream once, on the link and with the extranonce of the
  miner's slot; below that it is refused with code 23 and counted, and sent upstream all the same,
  once, exactly when it solves a block. Every other submission stays here: it is refused and counted,
  with code 24 without authorization, else 25 without a slot, else 20 or 21; only when an exception
  is raised while a session with a slot checks the share is it called malformed and not counted.
\<close>

theorem proxy_submit_verdict:
  assumes "ev_parse E line = Some msg" and "string_member msg ''method'' = Some ''mining.submit''"
    and "tally w = (a, r, f, ls, fw)"
  shows "(\<forall>sh job hash. judgeable E (pw_ps w) (params_of msg) sh job hash \<longrightarrow>
      (let sent = (\<lambda>cb. (sl_link_id (ps_slot (pw_ps w)), forwarded (pw_ps w) sh, cb));
           low = ls @ [error_line (id_json E msg) 23 ''low difficulty share'']
       in tally (proxy_on_line S E line w) =
         (if difficulty_in_force E (pw_ps w) \<le> hash_difficulty E (pw_ps w) hash
          then (a + 1, r, f + 1, ls @ [ok_line (id_json E msg)], fw @ [sent True])
          else if be_le hash (pn_net_target_be job) then (a, r + 1, f + 1, low, fw @ [sent False])
          else (a, r + 1, f, low, fw)))) \<and>
    ((\<nexists>sh job hash. judgeable E (pw_ps w) (params_of msg) sh job hash) \<longrightarrow>
      (\<exists>reason code. tally (proxy_on_line S E line w) = (a, r + 1, f, ls @ [error_line (id_json E msg) code reason], fw) \<and>
         code \<in> (if \<not> ps_authorized (pw_ps w) then {24}
                  else if \<not> ps_subscribed (pw_ps w) \<or> \<not> ps_attached (pw_ps w) then {25} else {20, 21})) \<or>
      (\<exists>sh e. ps_authorized (pw_ps w) \<and> ps_subscribed (pw_ps w) \<and> ps_attached (pw_ps w) \<and> proxy_params (params_of msg) sh \<and>
         check_proxy_share E (pw_ps w) sh = Inl e \<and>
         tally (proxy_on_line S E line w) = (a, r, f, ls @ [error_line (id_json E msg) 20 ''malformed request''], fw)))"
proof (intro conjI allI impI)
  have line: "proxy_on_line S E line w = (case proxy_submit S E msg w of Inr w' \<Rightarrow> w'
      | Inl e \<Rightarrow> relay_send (error_line (id_json E msg) 20 ''malformed request'') w)"
    using assms(1,2) by (simp add: proxy_on_line_def proxy_dispatch_def)
  {
    fix sh job hash
    assume j: "judgeable E (pw_ps w) (params_of msg) sh job hash"
    then obtain c where c: "check_proxy_share E (pw_ps w) sh = Inr (Inr c)" "pc_share c = sh" "pc_hash c = hash"
      "pc_meets_network c = be_le hash (pn_net_target_be job)" "pc_share_diff c = hash_difficulty E (pw_ps w) hash"
      unfolding judgeable_def by (blast elim: sound_share_checked)
    have "5 \<le> length (params_of msg)" "parse_proxy_share (params_of msg) = Inr sh"
      using j parse_proxy_share_iff unfolding judgeable_def by blast+
    with j c(1) have "proxy_submit S E msg w = Inr (judge_proxy_share S E (id_json E msg) c w)"
      by (simp add: proxy_submit_def Let_def judgeable_def)
    then show "let sent = (\<lambda>cb. (sl_link_id (ps_slot (pw_ps w)), forwarded (pw_ps w) sh, cb));
           low = ls @ [error_line (id_json E msg) 23 ''low difficulty share'']
       in tally (proxy_on_line S E line w) =
         (if difficulty_in_force E (pw_ps w) \<le> hash_difficulty E (pw_ps w) hash
          then (a + 1, r, f + 1, ls @ [ok_line (id_json E msg)], fw @ [sent True])
          else if be_le hash (pn_net_target_be job) then (a, r + 1, f + 1, low, fw @ [sent False])
          else (a, r + 1, f, low, fw))"
      using c(2,4,5) by (simp add: line assms(3) tally_judge too_easy_iff Let_def not_less)
  }
  assume none: "\<nexists>sh job hash. judgeable E (pw_ps w) (params_of msg) sh job hash"
  show "(\<exists>reason code. tally (proxy_on_line S E line w) = (a, r + 1, f, ls @ [error_line (id_json E msg) code reason], fw) \<and>
         code \<in> (if \<not> ps_authorized (pw_ps w) then {24}
                  else if \<not> ps_subscribed (pw_ps w) \<or> \<not> ps_attached (pw_ps w) then {25} else {20, 21})) \<or>
      (\<exists>sh e. ps_authorized (pw_ps w) \<and> ps_subscribed (pw_ps w) \<and> ps_attached (pw_ps w) \<and> proxy_params (params_of msg) sh \<and>
         check_proxy_share E (pw_ps w) sh = Inl e \<and>
         tally (proxy_on_line S E line w) = (a, r, f, ls @ [error_line (id_json E msg) 20 ''malformed request''], fw))"
  proof (cases rule: proxy_submit_ends [of S E msg w])
    case (refused reason code)
    then show ?thesis using assms(3)
      by (intro disjI1 exI [of _ reason] exI [of _ code]) (simp add: line tally_reject)
  next
    case (failed sh e)
    then show ?thesis using assms(3) by (auto simp: line)
  next
    case (judged sh c)
    then show ?thesis using none check_proxy_share_iff unfolding judgeable_def by blast
  qed
qed


definition wit_source :: "unit upstream_source" where
  "wit_source = \<lparr>src_any_ready = (\<lambda>_. True), src_attach = (\<lambda>_ u. (no_slot, u)), src_detach = (\<lambda>_ _ u. u),
     src_register_waiter = (\<lambda>_ u. u), src_current_job = (\<lambda>_ _. None), src_current_diff = (\<lambda>_ _. 1)\<rparr>"

definition wit_pw :: "unit proxy_world" where
  "wit_pw = \<lparr>pw_ps = wit_ps\<lparr>ps_authorized := True, ps_subscribed := True, ps_attached := True\<rparr>, pw_up = (), pw_limiter = None,
     pw_queue = wq_new (2 ^ 20), pw_posted = [], pw_actions = []\<rparr>"

definition wit_submit :: json where
  "wit_submit = JObject [(''id'', JInt 1), (''method'', JString ''mining.submit''), (''params'', JArray
     [JString ''w'', JString ''j'', JString ''00'', JString ''00000000'', JString ''00000000''])]"

lemma wit_judgeable:
  obtains job hash where "judgeable (sample_env\<lparr>ev_parse := p\<rparr>) (pw_ps wit_pw) (params_of wit_submit) wit_share job hash"
proof -
  obtain c where "check_proxy_share sample_env wit_ps wit_share = Inr (Inr c)" by (rule wit_checked)
  then have s: "sound_share sample_env wit_ps wit_share (pc_job c) (pc_hash c)" using check_proxy_share_iff by blast
  have same: "proxy_header (sample_env\<lparr>ev_parse := p\<rparr>) (pw_ps wit_pw) = proxy_header sample_env wit_ps"
    "proxy_pow (sample_env\<lparr>ev_parse := p\<rparr>) = proxy_pow sample_env" "ev_unix (sample_env\<lparr>ev_parse := p\<rparr>) = ev_unix sample_env"
    "ps_slot (pw_ps wit_pw) = ps_slot wit_ps" "ps_recent_jobs (pw_ps wit_pw) = ps_recent_jobs wit_ps"
    "ps_version_rolling (pw_ps wit_pw) = ps_version_rolling wit_ps" "ps_version_mask (pw_ps wit_pw) = ps_version_mask wit_ps"
    "ps_coin (pw_ps wit_pw) = ps_coin wit_ps"
    by (simp_all add: fun_eq_iff proxy_header_def proxy_pow_def wit_pw_def)
  from s have "sound_share (sample_env\<lparr>ev_parse := p\<rparr>) (pw_ps wit_pw) wit_share (pc_job c) (pc_hash c)"
    unfolding sound_share_def same .
  then have "judgeable (sample_env\<lparr>ev_parse := p\<rparr>) (pw_ps wit_pw) (params_of wit_submit) wit_share (pc_job c) (pc_hash c)"
    by (simp add: judgeable_def proxy_params_def wit_pw_def wit_submit_def wit_share_def params_of_def array_member_def member_def)
  then show thesis by (rule that)
qed

lemma proxy_submit_verdict_witness:
  "\<exists>line. pw_posted (proxy_on_line wit_source (sample_env\<lparr>ev_parse := \<lambda>_. Some wit_submit\<rparr>) [] wit_pw) = [line]"
proof -
  let ?E = "sample_env\<lparr>ev_parse := \<lambda>_. Some wit_submit\<rparr>"
  have p: "ev_parse ?E [] = Some wit_submit" by simp
  have m: "string_member wit_submit ''method'' = Some ''mining.submit''"
    by (simp add: wit_submit_def string_member_def member_def)
  have t: "tally wit_pw = (0, 0, 0, [], [])"
    by (simp add: tally_def wit_pw_def wit_ps_def proxy_new_def forwards_def)
  obtain job hash where "judgeable ?E (pw_ps wit_pw) (params_of wit_submit) wit_share job hash" by (rule wit_judgeable)
  from proxy_submit_verdict [OF p m t, of wit_source, THEN conjunct1, rule_format, OF this]
  show ?thesis by (auto simp: tally_def Let_def split: if_splits)
qed

section \<open>What a session holds of its source\<close>

text \<open>
  The promises of a source that a session relies on: a slot it hands out was free, a slot given back
  is free again, and nothing else changes. \<open>seats\<close> are the slots in use, \<open>sound\<close> what the source
  keeps of its own state.
\<close>

locale work_source =
  fixes S :: "'u upstream_source"
    and seats :: "'u \<Rightarrow> (int \<times> u32) set"
    and sound :: "'u \<Rightarrow> bool"
  assumes attach_law: "sound u \<Longrightarrow> src_attach S s u = (slot, u') \<Longrightarrow> sound u' \<and>
      (if sl_ok slot then (sl_link_id slot, sl_slot_id slot) \<notin> seats u \<and> seats u' = insert (sl_link_id slot, sl_slot_id slot) (seats u)
       else seats u' = seats u)"
    and detach_law: "sound u \<Longrightarrow> sound (src_detach S l sid u) \<and> seats (src_detach S l sid u) = seats u - {(l, sid)}"
    and waiter_law: "sound u \<Longrightarrow> sound (src_register_waiter S s u) \<and> seats (src_register_waiter S s u) = seats u"

text \<open>The slot of a session, and the part of its state that decides it.\<close>

definition own_seat :: "proxy_session \<Rightarrow> (int \<times> u32) set" where
  "own_seat ps = (if ps_attached ps \<and> \<not> ps_closed ps then {(sl_link_id (ps_slot ps), sl_slot_id (ps_slot ps))} else {})"

definition bound :: "proxy_session \<Rightarrow> bool \<times> bool \<times> bool \<times> int \<times> u32" where
  "bound ps = (ps_attached ps, ps_subscribed ps, ps_closed ps, sl_link_id (ps_slot ps), sl_slot_id (ps_slot ps))"

definition quiet :: "'u proxy_world \<Rightarrow> 'u proxy_world \<Rightarrow> bool" where
  "quiet w w' \<longleftrightarrow> pw_up w' = pw_up w \<and> bound (pw_ps w') = bound (pw_ps w)"

named_theorems quiet_ops \<open>operations that leave the source and the binding of a session alone\<close>

lemma quiet_refl [quiet_ops]: "quiet w w"
  by (simp add: quiet_def)

lemma quiet_trans: "quiet w w' \<Longrightarrow> quiet w' w'' \<Longrightarrow> quiet w w''"
  by (simp add: quiet_def)

lemma quiet_send [quiet_ops]: "quiet w (relay_send m w)"
  by (simp add: quiet_def relay_send_def)

lemma quiet_act [quiet_ops]: "quiet w (act as w)"
  by (simp add: quiet_def act_def)

lemma quiet_upd: "bound (f (pw_ps w)) = bound (pw_ps w) \<Longrightarrow> quiet w (upd_ps f w)"
  by (simp add: quiet_def upd_ps_def)

lemma quiet_fields [quiet_ops]: "quiet w (w\<lparr>pw_limiter := l\<rparr>)" "quiet w (w\<lparr>pw_queue := q\<rparr>)" "quiet w (w\<lparr>pw_posted := p\<rparr>)"
  by (simp_all add: quiet_def)

lemma quiet_emit [quiet_ops]: "quiet w (emit_current_job b w)"
  by (auto simp: emit_current_job_def Let_def quiet_ops split: option.split)

lemma quiet_then: "quiet w w' \<Longrightarrow> quiet w (emit_current_job b w')" "quiet w w' \<Longrightarrow> quiet w (relay_send m w')"
  by (blast intro: quiet_trans quiet_emit quiet_send)+

lemma bound_remember [simp]: "bound (remember_job j ps) = bound ps"
  by (simp add: remember_job_def Let_def bound_def)

lemma quiet_configure: "quiet w (proxy_configure E msg w)"
  by (auto simp: proxy_configure_def Let_def bound_def intro!: quiet_trans [OF quiet_upd quiet_send])

lemma quiet_authorize: "quiet w (proxy_authorize E msg w)"
proof -
  have "quiet w (upd_ps (\<lambda>ps. ps\<lparr>ps_authorized := True\<rparr>) (relay_send l (upd_ps (\<lambda>ps. ps\<lparr>ps_worker_name := f ps\<rparr>) w)))" for l f
    by (rule quiet_trans [OF quiet_upd quiet_trans [OF quiet_send quiet_upd]]) (simp_all add: bound_def)
  then show ?thesis by (simp add: proxy_authorize_def Let_def quiet_then)
qed

lemma quiet_upstream: "quiet w (proxy_upstream_job job w)" "quiet w (proxy_upstream_diff d w)" "quiet w (proxy_upstream_extranonce en1 n w)"
proof -
  have "quiet w (upd_ps (\<lambda>ps. remember_job job (ps\<lparr>ps_cur_job := Some job\<rparr>)) w)"
    by (rule quiet_upd) (simp add: bound_def remember_job_def Let_def)
  then show "quiet w (proxy_upstream_job job w)"
    by (auto simp: proxy_upstream_job_def Let_def quiet_refl quiet_then)
  have "quiet w (upd_ps (\<lambda>ps. ps\<lparr>ps_upstream_diff := d, ps_target_diff := d\<rparr>) w)"
    by (rule quiet_upd) (simp add: bound_def)
  then show "quiet w (proxy_upstream_diff d w)"
    by (auto simp: proxy_upstream_diff_def Let_def quiet_refl quiet_then)
  have "quiet w (upd_ps (\<lambda>ps. ps\<lparr>ps_slot := (ps_slot ps)\<lparr>sl_en1_hex := en1, sl_en2_size := n\<rparr>\<rparr>) w)"
    by (rule quiet_upd) (simp add: bound_def)
  then show "quiet w (proxy_upstream_extranonce en1 n w)"
    by (auto simp: proxy_upstream_extranonce_def Let_def quiet_refl quiet_then)
qed

lemma quiet_forward [quiet_ops]: "quiet w (forward_share c cb w)"
  by (auto simp: forward_share_def Let_def bound_def intro!: quiet_trans [OF quiet_act quiet_upd])


text \<open>What the strand of a session runs: completions, posted lines and the calls of the upstream side.\<close>

datatype proxy_event =
    SessionRead env "string option"
  | SessionPosted
  | SessionWritten bool
  | SessionHandshaken bool
  | SessionClose
  | ToldJob proxy_notify
  | ToldDiff rat
  | ToldExtranonce string nat
  | ToldUp bool
  | Moved proxy_slot "proxy_notify option" rat

fun proxy_do :: "'u upstream_source \<Rightarrow> proxy_event \<Rightarrow> 'u proxy_world \<Rightarrow> 'u proxy_world" where
  "proxy_do S (SessionRead E chunk) w = relay_read S E chunk w"
| "proxy_do S SessionPosted w = relay_run_posted S w"
| "proxy_do S (SessionWritten ec) w = relay_written S ec w"
| "proxy_do S (SessionHandshaken failed) w = relay_handshaken S failed w"
| "proxy_do S SessionClose w = relay_close S w"
| "proxy_do S (ToldJob job) w = proxy_upstream_job job w"
| "proxy_do S (ToldDiff d) w = proxy_upstream_diff d w"
| "proxy_do S (ToldExtranonce en1 n) w = proxy_upstream_extranonce en1 n w"
| "proxy_do S (ToldUp up) w = proxy_upstream_state S up w"
| "proxy_do S (Moved slot job d) w = proxy_rebind S slot job d w"

text \<open>
  When an event comes: data is read while the session is open, and upstream moves a session that has
  a slot, is open when the move reaches it, to a slot that is one.
\<close>

fun comes :: "proxy_event \<Rightarrow> proxy_session \<Rightarrow> bool" where
  "comes (SessionRead E chunk) ps \<longleftrightarrow> \<not> ps_closed ps"
| "comes (Moved slot job d) ps \<longleftrightarrow> \<not> ps_closed ps \<and> ps_attached ps \<and> sl_ok slot"
| "comes _ ps \<longleftrightarrow> True"

text \<open>The slot that is the session's when the event comes: a move has already put it onto the new one.\<close>

fun seat_at :: "proxy_event \<Rightarrow> proxy_session \<Rightarrow> (int \<times> u32) set" where
  "seat_at (Moved slot job d) ps = {(sl_link_id slot, sl_slot_id slot)}"
| "seat_at _ ps = own_seat ps"

context work_source
begin

text \<open>
  The session is subscribed exactly when it holds a slot. An operation leaves the slots of others as
  they were, and the session's own in use when it was.
\<close>

definition holds :: "'u proxy_world \<Rightarrow> bool" where
  "holds w \<longleftrightarrow> sound (pw_up w) \<and> ps_subscribed (pw_ps w) = ps_attached (pw_ps w)"

definition moves :: "'u proxy_world \<Rightarrow> 'u proxy_world \<Rightarrow> bool" where
  "moves w w' \<longleftrightarrow> (holds w \<longrightarrow> holds w' \<and> seats (pw_up w') - own_seat (pw_ps w') = seats (pw_up w) - own_seat (pw_ps w) \<and>
     (own_seat (pw_ps w) \<subseteq> seats (pw_up w) \<longrightarrow> own_seat (pw_ps w') \<subseteq> seats (pw_up w')))"

lemma moves_refl: "moves w w"
  by (simp add: moves_def)

lemma moves_trans: "moves w w' \<Longrightarrow> moves w' w'' \<Longrightarrow> moves w w''"
  by (simp add: moves_def)

lemma quiet_moves: "quiet w w' \<Longrightarrow> moves w w'"
  by (auto simp: quiet_def moves_def holds_def bound_def own_seat_def)

lemma moves_quiet: "moves w w' \<Longrightarrow> quiet w' w'' \<Longrightarrow> moves w w''"
  using moves_trans quiet_moves by blast

lemma moves_if: "moves w a \<Longrightarrow> moves w b \<Longrightarrow> moves w (if p then a else b)"
  by simp

lemma close_moves: "moves w (relay_close S w)"
proof (cases "ps_closed (pw_ps w)")
  case False
  then show ?thesis
    using detach_law [of "pw_up w" "sl_link_id (ps_slot (pw_ps w))" "sl_slot_id (ps_slot (pw_ps w))"]
    by (auto simp: moves_def holds_def relay_close_def Let_def act_def upd_ps_def own_seat_def)
qed (simp add: relay_close_def moves_refl)

lemma close_after: "quiet w w' \<Longrightarrow> moves w (relay_close S w')"
  by (rule moves_trans [OF quiet_moves close_moves])

lemma reject_moves: "quiet w w0 \<Longrightarrow> moves w (proxy_reject S E i r w0)"
proof -
  assume q: "quiet w w0"
  let ?w = "upd_ps (\<lambda>ps. ps\<lparr>ps_shares_rejected := ps_shares_rejected ps + 1\<rparr>) (relay_send (error_line i (snd r) (fst r)) w0)"
  have 1: "quiet w ?w" by (rule quiet_trans [OF q quiet_trans [OF quiet_send quiet_upd]]) (simp add: bound_def)
  have "quiet w (?w\<lparr>pw_limiter := l\<rparr>)" for l by (rule quiet_trans [OF 1 quiet_fields(1)])
  with 1 show ?thesis
    by (auto simp: proxy_reject_def Let_def quiet_moves close_after split: option.split prod.split)
qed

lemma judge_moves: "moves w (judge_proxy_share S E i c w)"
proof -
  have ok: "quiet w ((upd_ps (\<lambda>ps. ps\<lparr>ps_shares_accepted := ps_shares_accepted ps + 1\<rparr>) (relay_send l (forward_share c True w)))\<lparr>pw_limiter := lim\<rparr>)" for l lim
    by (rule quiet_trans [OF quiet_trans [OF quiet_forward quiet_trans [OF quiet_send quiet_upd]] quiet_fields(1)]) (simp add: bound_def)
  have bad: "quiet w (if b then forward_share c False w else w)" for b
    by (simp add: quiet_forward quiet_refl)
  show ?thesis
    unfolding judge_proxy_share_def Let_def
    by (rule moves_if [OF reject_moves [OF bad] quiet_moves [OF ok]])
qed

text \<open>Subscribing, on an open session.\<close>

lemma hold_moves: "moves w (hold_subscribe S w)"
proof -
  let ?w = "upd_ps (\<lambda>ps. ps\<lparr>ps_pending_subscribe := True\<rparr>) w"
  have "quiet w ?w" by (rule quiet_upd) (simp add: bound_def)
  moreover have "moves ?w (?w\<lparr>pw_up := src_register_waiter S s (pw_up ?w)\<rparr>)" for s
    using waiter_law [of "pw_up ?w" s] by (auto simp: moves_def holds_def)
  ultimately show ?thesis unfolding hold_subscribe_def Let_def by (blast intro: moves_trans quiet_moves)
qed

text \<open>A subscribed session that takes the slot it was given.\<close>

lemma seated_moves:
  assumes "src_attach S s (pw_up w) = (slot, u)" "sl_ok slot" "\<not> ps_subscribed (pw_ps w)" "\<not> ps_closed (pw_ps w)"
    and "pw_up w' = u" "bound (pw_ps w') = (True, True, False, sl_link_id slot, sl_slot_id slot)"
  shows "moves w w'"
proof -
  have "own_seat (pw_ps w') = {(sl_link_id slot, sl_slot_id slot)}" "ps_subscribed (pw_ps w') = ps_attached (pw_ps w')"
    using assms(6) by (auto simp: bound_def own_seat_def)
  then show ?thesis
    using attach_law [of "pw_up w" s slot u] assms(1-5) by (auto simp: moves_def holds_def own_seat_def)
qed

lemma attach_moves:
  assumes "\<not> ps_closed (pw_ps w)"
  shows "moves w (try_attach_and_reply S w)"
proof (cases "ps_subscribed (pw_ps w) \<or> \<not> src_any_ready S (pw_up w)")
  case True
  then show ?thesis by (auto simp: try_attach_and_reply_def quiet_moves quiet_send hold_moves)
next
  case False
  let ?s = "ps_self (pw_ps w)"
  obtain slot u where a: "src_attach S ?s (pw_up w) = (slot, u)" by fastforce
  let ?w = "upd_ps (\<lambda>ps. ps\<lparr>ps_slot := slot\<rparr>) (w\<lparr>pw_up := u\<rparr>)"
  show ?thesis
  proof (cases "sl_ok slot")
    case full: False
    have "moves w ?w"
      using attach_law [of "pw_up w" ?s slot u] a full False by (auto simp: moves_def holds_def own_seat_def upd_ps_def)
    then show ?thesis
      using False a full by (simp add: try_attach_and_reply_def moves_trans [OF _ hold_moves])
  next
    case True
    have "pw_up (try_attach_and_reply S w) = u"
      "bound (pw_ps (try_attach_and_reply S w)) = (True, True, False, sl_link_id slot, sl_slot_id slot)"
      using False a True assms
      by (auto simp: try_attach_and_reply_def Let_def upd_ps_def relay_send_def bound_def remember_job_def split: option.split)
    with a True False assms show ?thesis by (intro seated_moves) simp_all
  qed
qed

lemma submit_moves: "proxy_submit S E msg w = Inr w' \<Longrightarrow> moves w w'"
proof -
  assume "proxy_submit S E msg w = Inr w'"
  then show "moves w w'"
    by (cases rule: proxy_submit_ends [of S E msg w]) (auto simp: reject_moves [OF quiet_refl] judge_moves)
qed

lemma dispatch_moves:
  assumes "\<not> ps_closed (pw_ps w)" "proxy_dispatch S E name msg w = Inr w'"
  shows "moves w w'"
proof -
  have sub: "moves w (proxy_subscribe S E msg w)"
  proof -
    let ?w = "upd_ps (\<lambda>ps. ps\<lparr>ps_user_agent :=
       (case array_member msg ''params'' of Some (JString s # _) \<Rightarrow> take 256 s | _ \<Rightarrow> ps_user_agent ps),
       ps_pending_subscribe_id := id_json E msg\<rparr>) w"
    have "quiet w ?w" by (rule quiet_upd) (simp add: bound_def)
    moreover from this have "\<not> ps_closed (pw_ps ?w)" using assms(1) by (simp add: quiet_def bound_def)
    ultimately show ?thesis
      unfolding proxy_subscribe_def by (blast intro: moves_trans quiet_moves attach_moves)
  qed
  have ext: "quiet w (relay_send l (upd_ps (\<lambda>ps. ps\<lparr>ps_extranonce_subscribed := True\<rparr>) w))" for l
    by (rule quiet_then(2) [OF quiet_upd]) (simp add: bound_def)
  show ?thesis
    using assms(2) sub
    by (auto simp: proxy_dispatch_def submit_moves quiet_moves quiet_configure quiet_authorize quiet_send ext moves_refl split: if_splits)
qed

lemma line_moves: "\<not> ps_closed (pw_ps w) \<Longrightarrow> moves w (proxy_on_line S E line w)"
  by (auto simp: proxy_on_line_def quiet_moves quiet_send dest: dispatch_moves split: option.split sum.split)

lemma lines_moves: "\<not> ps_closed (pw_ps w) \<Longrightarrow> moves w (snd (relay_lines S E buf w))"
proof (induction buf arbitrary: w rule: length_induct)
  case (1 buf)
  show ?case
  proof (cases "CHR 0x0A \<in> set buf")
    case False
    then show ?thesis by (simp add: relay_lines.simps moves_refl)
  next
    case True
    let ?raw = "takeWhile (\<lambda>c. c \<noteq> CHR 0x0A) buf"
    let ?rest = "drop (length ?raw + 1) buf"
    let ?w = "if strip_cr ?raw = [] then w else proxy_on_line S E (strip_cr ?raw) w"
    have step: "relay_lines S E buf w = (if ps_closed (pw_ps ?w) then (?rest, ?w) else relay_lines S E ?rest ?w)"
      using True by (subst relay_lines.simps) (simp add: Let_def)
    have m: "moves w ?w" using line_moves [OF 1(2)] by (simp add: moves_refl)
    have "buf \<noteq> []" using True by auto
    then have "length ?rest < length buf" by (cases buf) simp_all
    with 1(1) have "\<not> ps_closed (pw_ps ?w) \<Longrightarrow> moves ?w (snd (relay_lines S E ?rest ?w))" by blast
    with m step show ?thesis by (auto intro: moves_trans)
  qed
qed

lemma read_moves:
  assumes "\<not> ps_closed (pw_ps w)"
  shows "moves w (relay_read S E chunk w)"
proof (cases chunk)
  case None
  then show ?thesis by (simp add: relay_read_def close_moves)
next
  case (Some s)
  let ?buf = "ps_buffer (pw_ps w) @ s"
  let ?w = "upd_ps (\<lambda>ps. ps\<lparr>ps_buffer := ?buf\<rparr>) w"
  have q: "quiet w ?w" by (rule quiet_upd) (simp add: bound_def)
  then have "\<not> ps_closed (pw_ps ?w)" using assms by (simp add: quiet_def bound_def)
  from lines_moves [OF this, of E ?buf] quiet_moves [OF q]
  have m: "moves w (snd (relay_lines S E ?buf ?w))" by (rule moves_trans [rotated])
  have rest: "quiet w' (upd_ps (\<lambda>ps. ps\<lparr>ps_buffer := r\<rparr>) w')" for w' r
    by (rule quiet_upd) (simp add: bound_def)
  have fin: "moves w (upd_ps (\<lambda>ps. ps\<lparr>ps_buffer := r\<rparr>) (snd (relay_lines S E ?buf ?w)))"
    "moves w (act as (upd_ps (\<lambda>ps. ps\<lparr>ps_buffer := r\<rparr>) (snd (relay_lines S E ?buf ?w))))" for r as
    by (rule moves_quiet [OF m rest]) (rule moves_quiet [OF moves_quiet [OF m rest] quiet_act])
  show ?thesis
    using Some fin close_after [OF q]
    by (auto simp: relay_read_def Let_def case_prod_beta)
qed

lemma queue_actions_moves: "moves w (relay_queue_actions S acts w)"
proof (induction acts arbitrary: w)
  case (Cons a acts)
  have "moves w (case a of AsyncWrite m \<Rightarrow> act [ProxyWrite m] w | DropSession \<Rightarrow> relay_close S w)"
    by (simp add: quiet_moves quiet_act close_moves split: wq_action.split)
  from moves_trans [OF this Cons.IH] show ?case by (simp add: relay_queue_actions_def)
qed (simp add: relay_queue_actions_def moves_refl)

lemma queue_after: "quiet w w' \<Longrightarrow> moves w (relay_queue_actions S acts w')"
  by (rule moves_trans [OF quiet_moves queue_actions_moves])

lemma posted_moves: "moves w (relay_run_posted S w)"
proof -
  have "quiet w (w\<lparr>pw_posted := ms\<rparr>)" "quiet w (w\<lparr>pw_posted := ms, pw_queue := q\<rparr>)" for ms q
    by (simp_all add: quiet_def)
  then show ?thesis
    by (auto simp: relay_run_posted_def Let_def case_prod_beta moves_refl quiet_moves queue_after split: list.split)
qed

lemma written_moves: "moves w (relay_written S ec w)"
  by (auto simp: relay_written_def Let_def case_prod_beta queue_after quiet_fields)

lemma state_moves: "moves w (proxy_upstream_state S up w)"
  by (auto simp: proxy_upstream_state_def moves_refl attach_moves)

text \<open>A move: from the new binding on nothing is left but what the operations above do.\<close>

lemma rebind_moves:
  assumes "comes (Moved slot job d) (pw_ps w)"
  obtains w1 where "moves w1 (proxy_rebind S slot job d w)" "pw_up w1 = pw_up w"
    "bound (pw_ps w1) = (True, ps_subscribed (pw_ps w), False, sl_link_id slot, sl_slot_id slot)"
proof -
  let ?w = "upd_ps (\<lambda>ps. ps\<lparr>ps_slot := slot, ps_attached := True,
      ps_upstream_diff := (if d > 0 then d else ps_upstream_diff ps),
      ps_target_diff := (if d > 0 then d else ps_upstream_diff ps)\<rparr>) w"
  have "quiet x (upd_ps (\<lambda>ps. remember_job j (ps\<lparr>ps_cur_job := Some j\<rparr>)) x)" for x and j :: proxy_notify
    by (rule quiet_upd) (simp add: bound_def remember_job_def Let_def)
  then have "quiet ?w (emit_current_job b (upd_ps (\<lambda>ps. remember_job j (ps\<lparr>ps_cur_job := Some j\<rparr>)) (relay_send m (relay_send n ?w))))"
    for b j m n
    by (intro quiet_then(1)) (rule quiet_trans [OF quiet_then(2) [OF quiet_send]])
  moreover have "quiet ?w (relay_send m (relay_send n ?w))" for m n
    by (rule quiet_then(2) [OF quiet_send])
  ultimately have "moves ?w (proxy_rebind S slot job d w)"
    using assms by (simp add: proxy_rebind_def Let_def quiet_moves close_moves split: option.split)
  moreover have "pw_up ?w = pw_up w" by (simp add: upd_ps_def)
  moreover have "bound (pw_ps ?w) = (True, ps_subscribed (pw_ps w), False, sl_link_id slot, sl_slot_id slot)"
    using assms by (simp add: upd_ps_def bound_def)
  ultimately show thesis by (rule that)
qed

lemma do_moves:
  assumes "comes ev (pw_ps w)" "holds w" "w' = proxy_do S ev w"
  shows "holds w' \<and> seats (pw_up w') - own_seat (pw_ps w') = seats (pw_up w) - seat_at ev (pw_ps w) \<and>
    (seat_at ev (pw_ps w) \<subseteq> seats (pw_up w) \<longrightarrow> own_seat (pw_ps w') \<subseteq> seats (pw_up w'))"
proof (cases "\<exists>slot job d. ev = Moved slot job d")
  case True
  then obtain slot job d where ev: "ev = Moved slot job d" by blast
  obtain w1 where w1: "moves w1 w'" "pw_up w1 = pw_up w"
    "bound (pw_ps w1) = (True, ps_subscribed (pw_ps w), False, sl_link_id slot, sl_slot_id slot)"
    using rebind_moves assms(1,3) unfolding ev proxy_do.simps by metis
  then have "holds w1" "own_seat (pw_ps w1) = seat_at ev (pw_ps w)"
    using assms(1,2) by (auto simp: ev holds_def bound_def own_seat_def)
  then show ?thesis using w1(1,2) by (simp add: moves_def)
next
  case False
  then have "moves w w'" "seat_at ev (pw_ps w) = own_seat (pw_ps w)"
    using assms(1) unfolding assms(3)
    by (cases ev; auto simp: read_moves posted_moves written_moves close_moves state_moves relay_handshaken_def quiet_moves
        quiet_act quiet_upstream)+
  then show ?thesis using assms(2) by (simp add: moves_def)
qed

end

lemma bound_same [simp]:
  "bound (pw_ps (relay_send m w)) = bound (pw_ps w)" "bound (pw_ps (emit_current_job b w)) = bound (pw_ps w)"
  using quiet_send [of w m] quiet_emit [of w b] by (simp_all add: quiet_def)

lemma rebind_seat:
  assumes "comes (Moved slot job d) (pw_ps w)" "\<not> ps_closed (pw_ps (proxy_rebind S slot job d w))"
  shows "own_seat (pw_ps (proxy_rebind S slot job d w)) = seat_at (Moved slot job d) (pw_ps w)"
proof -
  have "ps_closed (pw_ps (relay_close S w))" for w by (auto simp: relay_close_def Let_def act_def upd_ps_def)
  then have e: "ps_extranonce_subscribed (pw_ps w)"
    using assms by (auto simp: proxy_rebind_def Let_def upd_ps_def split: if_splits)
  define w1 where "w1 = upd_ps (\<lambda>ps. ps\<lparr>ps_slot := slot, ps_attached := True,
      ps_upstream_diff := (if d > 0 then d else ps_upstream_diff ps),
      ps_target_diff := (if d > 0 then d else ps_upstream_diff ps)\<rparr>) w"
  have 1: "bound (pw_ps w1) = (True, ps_subscribed (pw_ps w), False, sl_link_id slot, sl_slot_id slot)"
    using assms(1) by (simp add: w1_def upd_ps_def bound_def)
  have 2: "bound (pw_ps (upd_ps (\<lambda>ps. remember_job j (ps\<lparr>ps_cur_job := Some j\<rparr>)) x)) = bound (pw_ps x)" for x :: "'a proxy_world" and j
    by (simp add: upd_ps_def) (simp add: bound_def)
  have "bound (pw_ps (proxy_rebind S slot job d w)) = bound (pw_ps w1)"
    using assms(1) e by (simp add: proxy_rebind_def Let_def w1_def [symmetric] 2 split: option.split) (simp add: w1_def upd_ps_def)
  with 1 show ?thesis by (auto simp: bound_def own_seat_def)
qed

section \<open>The Stratum V1 upstream as a source\<close>

definition v1_seats :: "relay_client \<Rightarrow> (int \<times> u32) set" where
  "v1_seats c = {(int i, sid) | i sid. i < length (uc_links c) \<and> sid \<in> set (slot_ids (uc_links c ! i))}"

lemma v1_seats_iff: "(l, sid) \<in> v1_seats c \<longleftrightarrow> 0 \<le> l \<and> nat l < length (uc_links c) \<and> sid \<in> set (slot_ids (uc_links c ! nat l))"
  by (auto simp: v1_seats_def intro!: exI [of _ "nat l"])

lemma v1_seats_upd:
  assumes "i < length (uc_links c)" "uc_links c' = (uc_links c)[i := L']"
  shows "(l, sid) \<in> v1_seats c' \<longleftrightarrow> (if l = int i then sid \<in> set (slot_ids L') else (l, sid) \<in> v1_seats c)"
proof (cases "l = int i")
  case False
  then have "0 \<le> l \<Longrightarrow> nat l \<noteq> i" by auto
  with False assms show ?thesis by (auto simp: v1_seats_iff)
qed (use assms in \<open>simp add: v1_seats_iff\<close>)

lemma v1_seats_at: "i < length (uc_links c) \<Longrightarrow> (int i, sid) \<in> v1_seats c \<longleftrightarrow> sid \<in> set (slot_ids (uc_links c ! i))"
  by (simp add: v1_seats_iff)

lemma v1_attach_law:
  assumes "relay_inv c" "relay_attach E s c = (slot, c')"
  shows "relay_inv c' \<and> (if sl_ok slot then (sl_link_id slot, sl_slot_id slot) \<notin> v1_seats c \<and>
      v1_seats c' = insert (sl_link_id slot, sl_slot_id slot) (v1_seats c) else v1_seats c' = v1_seats c)"
proof -
  have inv: "relay_inv c'" using keeps_relay_attach [of c E s] assms by (simp add: keeps_def)
  let ?i = "nat (pick_link E c)"
  show ?thesis
  proof (cases "pick_link E c < 0")
    case True
    then show ?thesis using assms(2) inv by (auto simp: relay_attach_def no_slot_def)
  next
    case False
    then have i: "?i < length (uc_links c)" using pick_link_ready [OF relay_inv_indexed [OF assms(1)], of E] by (auto split: if_splits)
    obtain L' where a: "allocate_on s (uc_links c ! ?i) = (slot, L')" "uc_links c' = (uc_links c)[?i := L']"
      using assms(2) False by (cases "uc_active_active c") (auto simp: relay_attach_def attach_link_def Let_def split: prod.splits)
    have ix: "lk_index (uc_links c ! ?i) = int ?i" using relay_inv_indexed [OF assms(1)] i by (simp add: indexed_def)
    note seat = allocate_on_seat [OF a(1)]
    show ?thesis
    proof (cases "sl_ok slot")
      case True
      with seat obtain sid nx where *: "slot = slot_of (uc_links c ! ?i) sid" "L' = seated (uc_links c ! ?i) sid s nx"
        "sid \<notin> set (slot_ids (uc_links c ! ?i))" by auto
      then have "v1_seats c' = insert (int ?i, sid) (v1_seats c)"
        using v1_seats_upd [OF i a(2)] v1_seats_at [OF i] *(2) by (auto simp: seated_def split: if_splits)
      with * ix inv True show ?thesis by (auto simp: slot_of_ok v1_seats_iff)
    next
      case none: False
      with seat have "v1_seats c' = v1_seats c" using v1_seats_upd [OF i a(2)] v1_seats_at [OF i] by (auto split: if_splits)
      with none inv show ?thesis by simp
    qed
  qed
qed

lemma v1_detach_law: "relay_inv c \<Longrightarrow> relay_inv (relay_detach l sid c) \<and> v1_seats (relay_detach l sid c) = v1_seats c - {(l, sid)}"
proof -
  assume "relay_inv c"
  then have "relay_inv (relay_detach l sid c)" using keeps_relay_detach [of c l sid] by (simp add: keeps_def)
  moreover have "v1_seats (relay_detach l sid c) = v1_seats c - {(l, sid)}"
  proof (cases "l < 0 \<or> int (length (uc_links c)) \<le> l")
    case True
    then show ?thesis by (auto simp: relay_detach_def v1_seats_iff)
  next
    case False
    let ?L = "(uc_links c ! nat l)\<lparr>lk_subscribers := AList.delete sid (lk_subscribers (uc_links c ! nat l))\<rparr>"
    have i: "nat l < length (uc_links c)" and u: "uc_links (relay_detach l sid c) = (uc_links c)[nat l := ?L]"
      using False by (auto simp: relay_detach_def upd_link_def)
    have "set (slot_ids ?L) = set (slot_ids (uc_links c ! nat l)) - {sid}" by (auto simp: AList.delete_eq)
    then show ?thesis using v1_seats_upd [OF i u] v1_seats_at [OF i] False by (auto split: if_splits)
  qed
  ultimately show ?thesis by blast
qed

interpretation v1: work_source "v1_source E" v1_seats relay_inv for E
proof
  fix u slot u' s
  assume "relay_inv u" "src_attach (v1_source E) s u = (slot, u')"
  then show "relay_inv u' \<and> (if sl_ok slot then (sl_link_id slot, sl_slot_id slot) \<notin> v1_seats u \<and>
      v1_seats u' = insert (sl_link_id slot, sl_slot_id slot) (v1_seats u) else v1_seats u' = v1_seats u)"
    by (simp add: v1_source_def v1_attach_law)
next
  fix u l sid
  assume "relay_inv u"
  then show "relay_inv (src_detach (v1_source E) l sid u) \<and> v1_seats (src_detach (v1_source E) l sid u) = v1_seats u - {(l, sid)}"
    by (simp add: v1_source_def v1_detach_law)
next
  fix u s
  assume "relay_inv u"
  then show "relay_inv (src_register_waiter (v1_source E) s u) \<and> v1_seats (src_register_waiter (v1_source E) s u) = v1_seats u"
    by (simp add: v1_source_def relay_register_waiter_def relay_inv_def v1_seats_def)
qed

text \<open>
  C22. A session and the upstream agree on the slot the session holds, whatever the session's strand runs:
  data read while it is open, writes done, posted lines, the handshake, news from upstream, a move to
  a slot of another link, closing. A session that holds a slot exactly while it is subscribed keeps
  that. All slots in use but the session's stay exactly as they were, and the session's slot (after
  a move the new one) stays in use until it closes: a session that has closed by the end, also one
  closed because it cannot take a move, has given it back. The move is asked to reach a session that
  is open and holds a slot; one that reaches a closed session changes nothing and leaves the new slot
  in use.
\<close>

theorem proxy_seat:
  assumes "relay_inv (pw_up w)" "ps_subscribed (pw_ps w) = ps_attached (pw_ps w)"
    and "comes ev (pw_ps w)" "proxy_do (v1_source E) ev w = w'"
  shows "relay_inv (pw_up w') \<and> ps_subscribed (pw_ps w') = ps_attached (pw_ps w')
    \<and> v1_seats (pw_up w') - own_seat (pw_ps w') = v1_seats (pw_up w) - seat_at ev (pw_ps w)
    \<and> (seat_at ev (pw_ps w) \<subseteq> v1_seats (pw_up w) \<longrightarrow> own_seat (pw_ps w') \<subseteq> v1_seats (pw_up w'))
    \<and> (ps_closed (pw_ps w') \<longrightarrow> v1_seats (pw_up w') = v1_seats (pw_up w) - seat_at ev (pw_ps w))
    \<and> (\<forall>slot job d. ev = Moved slot job d \<and> \<not> ps_closed (pw_ps w') \<longrightarrow> own_seat (pw_ps w') = seat_at ev (pw_ps w))"
proof -
  have "v1.holds w" using assms(1,2) by (simp add: v1.holds_def)
  from v1.do_moves [OF assms(3) this assms(4) [symmetric]]
  have d: "v1.holds w'" "v1_seats (pw_up w') - own_seat (pw_ps w') = v1_seats (pw_up w) - seat_at ev (pw_ps w)"
    "seat_at ev (pw_ps w) \<subseteq> v1_seats (pw_up w) \<longrightarrow> own_seat (pw_ps w') \<subseteq> v1_seats (pw_up w')"
    by blast+
  have "own_seat (pw_ps w') = seat_at ev (pw_ps w)" if "ev = Moved slot job x" "\<not> ps_closed (pw_ps w')" for slot job x
    using rebind_seat that assms(3,4) by fastforce
  moreover have "ps_closed (pw_ps w') \<Longrightarrow> own_seat (pw_ps w') = {}" by (simp add: own_seat_def)
  ultimately show ?thesis using d by (auto simp: v1.holds_def)
qed

definition demo_session :: "relay_client proxy_world" where
  "demo_session = \<lparr>pw_ps = (proxy_new default_coin 7 False [])\<lparr>ps_pending_subscribe := True\<rparr>, pw_up = demo_up, pw_limiter = None,
     pw_queue = wq_new (2 ^ 20), pw_posted = [], pw_actions = []\<rparr>"

lemma proxy_seat_witness:
  "let w' = proxy_do (v1_source (demo_env JNull)) (ToldUp True) demo_session
   in own_seat (pw_ps w') \<subseteq> v1_seats (pw_up w') \<and> v1_seats (pw_up w') - own_seat (pw_ps w') = v1_seats demo_up"
proof -
  have inv: "relay_inv (pw_up demo_session)" using reachable_ok [OF demo_steps] by (simp add: demo_session_def)
  have none: "own_seat (pw_ps demo_session) = {}" "ps_subscribed (pw_ps demo_session) = ps_attached (pw_ps demo_session)"
    and up: "pw_up demo_session = demo_up"
    by (simp_all add: demo_session_def proxy_new_def own_seat_def)
  have now: "comes (ToldUp True) (pw_ps demo_session)" by simp
  from proxy_seat [OF inv none(2) now refl, of "demo_env JNull"]
  show ?thesis unfolding Let_def seat_at.simps none(1) up by (simp del: proxy_do.simps)
qed

end
