(* ===== verification/Spec2Isabelle.thy ===== *)
theory Spec2Isabelle
  imports Hex Sv2Messages Sv2Proxy AddressFacts Merkle WriteQueue RateLimiter Blacklist VarDiff Config
    CoinbaseFacts StratifierFacts ZcashFacts Equihash Noise SessionV2Facts SessionRuns UpstreamFacts ProxyFacts
begin

text \<open>
  mkpool, the solo mining pool in C++ under \<open>src/yumtech/mkpool-src/src\<close> (file names below are relative
  to it). A miner connects over Stratum V1 or V2; the pool reads block templates from a node, turns
  them into jobs, checks the shares the miner finds and submits the blocks among them. In the proxy
  role the jobs come from another pool, over Stratum V1 or V2, and shares go there.

  \<^bold>\<open>How the parts interact.\<close> The node's template (JSON) goes to the stratifier (\<open>stratifier.cpp\<close>), which builds
  the first half of the coinbase and the Merkle branch (\<open>merkle.cpp\<close>), publishes the job in the job
  window (\<open>job_window.hpp\<close>) and calls the sessions back. A session (\<open>client_session.cpp\<close>) adds the
  half of the coinbase that pays its miner (address to script by \<open>address.cpp\<close>), sends the work, and on
  a submission rebuilds coinbase, root and header, hashes, compares with the difficulty in force
  (\<open>vardiff.cpp\<close>) and the network target (\<open>utils.hpp\<close>), asks the stratifier whether the share is new,
  and submits blocks. What it sends leaves through the write queue (\<open>write_queue.hpp\<close>); the rate
  limiter (\<open>rate_limiter.cpp\<close>) bounds connections and bans; the blacklist (\<open>blacklist.cpp\<close>) refuses
  workers. Stratum V2 adds frames and messages (\<open>sv2_codec.hpp\<close>, \<open>sv2_messages.hpp\<close>) and encryption
  (\<open>sv2_noise.cpp\<close>). A proxied miner's session (\<open>proxy_session.cpp\<close> on \<open>relay_session.cpp\<close>) takes a
  slot of the extranonce space of an upstream client (\<open>upstream_client.cpp\<close> or
  \<open>sv2_upstream_client.cpp\<close>), checks shares against the job it was told and forwards them.

  \<^bold>\<open>How code is modelled.\<close> A class is a record with the members of the class. A member function is a
  function from the state to the new state; what it does to the outside (writes, reads and timers
  started, the node and the database asked, callbacks) is a list of actions, and what the
  outside answers comes back as an event handled by the function the code passes as continuation. An
  exception is a value of the sum type \<open>result\<close> of theory \<open>Prelude\<close>, or the first component of an
  \<open>outcome\<close> where state changed before it. Machine integers are words where their wrap-around can be
  seen; amounts of signed 64 bits, whose overflow is undefined, are integers. Every \<open>double\<close> is
  a rational and every operation on one is rounded by the parameter \<open>fpu\<close>: properties hold for every
  rounding unless they say that they are about exact arithmetic or that rounding keeps the sign.
  A thread's interleaving with others is the order of the events: the strand of a session, the mutex of a
  client, make one handler one step.

  \<^bold>\<open>Parameters.\<close> What is not under \<open>src\<close> is an argument: SHA-256, HMAC, ChaCha20-Poly1305, secp256k1, BLAKE2b
  and scrypt (\<open>env\<close>, \<open>crypto\<close>, \<open>blake2b\<close>), the JSON parser of nlohmann (\<open>ev_parse\<close>; its value type is
  theory \<open>Json\<close>), clocks and random numbers, the database, rounding and \<open>std::exp\<close>. A property that
  needs a law of one of them has it as a hypothesis and a witness with a concrete function.

  \<^bold>\<open>Theories.\<close>
  \<^item> \<open>Prelude\<close>, \<open>Stdlib\<close>, \<open>Json\<close>: results and their sequencing, bytes and words, number parsing of the standard
    library, JSON values and their accessors.
  \<^item> \<open>Hex\<close> (\<open>utils.hpp\<close>): hex text, compact targets, height pushes, header layout. The lemmas give each text
    as the bytes it denotes.
  \<^item> \<open>Address\<close>, \<open>Checksum\<close>, \<open>AddressFacts\<close> (\<open>address.cpp\<close>): Base58, bech32, bech32m, CashAddr. The locale
    \<open>checksum_code\<close> is the contract of both checksums and is interpreted on each: a data part with its checksum is
    accepted and one changed symbol is not; scripts are the standard scripts of their type.
  \<^item> \<open>Merkle\<close> (\<open>merkle.cpp\<close>): the branch loop against the root of the whole tree.
  \<^item> \<open>PoolTypes\<close>, \<open>Config\<close> (\<open>config.hpp\<close>): configuration records, roles, reading from JSON.
  \<^item> \<open>Coinbase\<close>, \<open>CoinbaseFacts\<close>: the coinbase texts of \<open>client_session.cpp\<close> and \<open>stratifier.cpp\<close>, read back by
    a reader of the transaction format; the locale \<open>item_format\<close> is the contract of inputs, outputs and scripts.
  \<^item> \<open>JobWindow\<close>, \<open>Stratifier\<close>, \<open>StratifierFacts\<close>: templates, jobs, the table of shares; the job an update
    publishes, shares admitted once, invariants over any operations.
  \<^item> \<open>Zcash\<close>, \<open>ZcashFacts\<close> (\<open>zcash.hpp\<close>) and \<open>Equihash\<close> (\<open>equihash.hpp\<close>): the coinbase the node gives for Zcash, its
    redirection and id; the solution verifier against the definition of the puzzle.
  \<^item> \<open>WriteQueue\<close>, \<open>RateLimiter\<close>, \<open>Blacklist\<close>, \<open>VarDiff\<close>: one theory for each class, with its facts.
  \<^item> \<open>StratumV1\<close> (\<open>stratum_protocol.cpp\<close> and the stateless parts of the session), \<open>Session\<close>, \<open>SessionLoop\<close>,
    \<open>SessionFacts\<close>, \<open>SessionRuns\<close> (\<open>client_session.cpp\<close>): every handler of a Stratum V1 session; verdicts of
    submissions, checks of counted shares, blocks, answers; runs over all events.
  \<^item> \<open>Noise\<close> (\<open>sv2_noise.cpp\<close>), \<open>SessionV2\<close>, \<open>SessionV2Facts\<close> (\<open>client_session.cpp\<close>): the encrypted transport, channels,
    jobs and shares of a Stratum V2 session.
  \<^item> \<open>Sv2Codec\<close>, \<open>Sv2Messages\<close>, \<open>Sv2Frames\<close>: wire format. The locale \<open>wire_codec\<close> (a reader takes back what the
    writer put) is interpreted on every field type, the header and the messages both ends exchange.
  \<^item> \<open>ProxyTypes\<close>, \<open>Sv2Upstream\<close>, \<open>Sv2Proxy\<close> (\<open>sv2_upstream_client.cpp\<close>): the Stratum V2 upstream of the proxy;
    frames reassembled, jobs translated, shares forwarded and answered, invariant over reachable states.
  \<^item> \<open>UpstreamConn\<close>, \<open>UpstreamV1\<close>, \<open>UpstreamFacts\<close> (\<open>upstream_client.cpp\<close>): the Stratum V1 upstream with its links,
    slots, failover and timers; the step relation is \<open>relay_reachable\<close>.
  \<^item> \<open>ProxySession\<close>, \<open>ProxyFacts\<close> (\<open>proxy_session.cpp\<close>, \<open>relay_session.cpp\<close>): a proxied miner. The locale \<open>work_source\<close>
    states what a session relies on in its upstream (a slot handed out was free, one given back is free,
    nothing else changes), the session's facts are proved in it, and it is interpreted on the Stratum V1 client.

  \<^bold>\<open>Loops and bounds.\<close> Read loops recurse on the buffer, which gets shorter with each line or frame; loops over
  bytes, links and subscribers are structural. The loop that draws a secret key takes a list of
  draws and is \<open>None\<close> when they run out; a handshake property is about draws that contain a key. The
  allocation loop of a slot tries as many numbers as the span has, which is enough because a link that is
  ready has a free one (theorem \<open>v1_attach\<close>). No other fuel is used.

  \<^bold>\<open>Not modelled.\<close> Sockets, TLS, timers and thread pools are Boost's; \<open>connector\<close>, \<open>any_stream\<close>, \<open>io_pool\<close>,
  \<open>tls_context\<close>, \<open>zmq_client\<close>, \<open>control_server\<close> and the listeners only call them. \<open>bitcoin_client\<close> and
  \<open>beast_client\<close> are JSON-RPC over HTTP, \<open>database\<close> and \<open>db_worker\<close> SQL over libpq, \<open>ipc_mining\<close> calls into
  generated Cap'n Proto code: their answers are events and their requests actions of the sessions.
  \<open>pool_manager\<close>, \<open>generator\<close> and \<open>mkpool.cpp\<close> start and connect the parts. \<open>sv2_relay_session\<close>, \<open>redirector_session\<close>
  and the cluster (\<open>cluster_*\<close>) are parts with logic of their own that are left out. Logging, metrics and
  statistics are left out everywhere. Concurrency inside one operation is not modelled: in the
  stratifier an update takes its locks in several sections.

  \<^bold>\<open>What the proofs showed of the code.\<close> Some properties state a defect, and are named so in their texts: on a Stratum V2
  channel shares are counted again when repeated (\<open>v2_replayed\<close>), the header of a declared job has its
  compact bits in the wrong order (\<open>v2_declared_work\<close>), a repeated subscription upstream changes the
  extranonce under the miners (\<open>v1_resubscribe\<close>), and a rejected message stays in the byte count of the write queue
  (\<open>write_order\<close>). Others carry a hypothesis that the code needs and does not ensure, stated in their texts.
\<close>

end
